(* ===== verification/Prelude.thy ===== *)
theory Prelude
  imports Main "HOL-Library.Word"
begin

text \<open>
  Shared vocabulary of the development.

  The daemon is a C++ program whose handlers mutate objects behind pointers and take a mutex
  per object.  A handler is modelled as a function from a state to an outcome:
  \<^item> \<open>Done s\<close>: it returned, leaving \<open>s\<close>;
  \<^item> \<open>Blocked\<close>: it waits for a mutex that is held and that no later statement of the handler releases;
  \<^item> \<open>Segv\<close>: it dereferences a null (or never initialised) pointer.
  \<open>steps\<close> runs the statements of a body one after the other, as the source lists them.
\<close>

named_theorems exec_simps \<open>symbolic execution of handler bodies\<close>

datatype 'a res = Done 'a | Blocked | Segv

fun bind_res :: "'a res \<Rightarrow> ('a \<Rightarrow> 'b res) \<Rightarrow> 'b res" where
  "bind_res (Done s) f = f s"
| "bind_res Blocked f = Blocked"
| "bind_res Segv f = Segv"

fun steps :: "('a \<Rightarrow> 'a res) list \<Rightarrow> 'a \<Rightarrow> 'a res" where
  "steps [] s = Done s"
| "steps (f # fs) s = bind_res (f s) (steps fs)"

text \<open>A body that ends with \<open>return rc\<close>.\<close>

definition returning :: "int \<Rightarrow> ('a \<Rightarrow> 'a res) list \<Rightarrow> 'a \<Rightarrow> (int \<times> 'a) res" where
  "returning rc fs s = bind_res (steps fs s) (\<lambda>s'. Done (rc, s'))"

text \<open>A branch of a body: the condition reads the state when the branch is reached.\<close>

definition branch :: "('a \<Rightarrow> bool) \<Rightarrow> ('a \<Rightarrow> 'a res) list \<Rightarrow> ('a \<Rightarrow> 'a res) list \<Rightarrow> 'a \<Rightarrow> 'a res" where
  "branch c fs gs s = (if c s then steps fs s else steps gs s)"

lemma branchE:
  assumes "branch c fs gs s = r"
  obtains "c s" "steps fs s = r" | "\<not> c s" "steps gs s = r"
proof (cases "c s")
  case True
  then have "steps fs s = r" using assms by (simp only: branch_def if_True)
  with True show thesis by (rule that(1))
next
  case False
  then have "steps gs s = r" using assms by (simp only: branch_def if_False)
  with False show thesis by (rule that(2))
qed

lemma bind_res_Done_iff:
  "bind_res r f = Done y \<longleftrightarrow> (\<exists>x. r = Done x \<and> f x = Done y)"
  by (cases r) auto

lemma bind_res_assoc: "bind_res (bind_res r f) g = bind_res r (\<lambda>x. bind_res (f x) g)"
  by (cases r) auto

lemma steps_append: "steps (fs @ gs) s = bind_res (steps fs s) (steps gs)"
proof (induction fs arbitrary: s)
  case Nil
  show ?case by simp
next
  case (Cons f fs)
  then show ?case by (cases "f s") auto
qed

text \<open>What every statement of a body preserves, the body preserves.\<close>

definition keeps :: "('a \<Rightarrow> bool) \<Rightarrow> ('a \<Rightarrow> 'a res) \<Rightarrow> bool" where
  "keeps P f \<longleftrightarrow> (\<forall>s s'. P s \<longrightarrow> f s = Done s' \<longrightarrow> P s')"

lemma keepsD: "keeps P f \<Longrightarrow> P s \<Longrightarrow> f s = Done s' \<Longrightarrow> P s'"
  by (auto simp: keeps_def)

lemma keeps_bind: "keeps P f \<Longrightarrow> keeps P g \<Longrightarrow> keeps P (\<lambda>s. bind_res (f s) g)"
  unfolding keeps_def by (metis bind_res_Done_iff)

lemma keeps_steps: "(\<And>f. f \<in> set fs \<Longrightarrow> keeps P f) \<Longrightarrow> keeps P (steps fs)"
proof (induction fs)
  case Nil
  show ?case by (simp add: keeps_def)
next
  case (Cons f fs)
  have "keeps P f" "keeps P (steps fs)" using Cons by simp_all
  then have "keeps P (\<lambda>s. bind_res (f s) (steps fs))" by (rule keeps_bind)
  then show ?case by (simp add: keeps_def)
qed

lemma keepsI: "(\<And>s s'. P s \<Longrightarrow> f s = Done s' \<Longrightarrow> P s') \<Longrightarrow> keeps P f"
  by (auto simp: keeps_def)

lemma keeps_branch:
  assumes "keeps P (steps fs)" "keeps P (steps gs)"
  shows "keeps P (branch c fs gs)"
proof (rule keepsI)
  fix s s' assume "P s" "branch c fs gs s = Done s'"
  then show "P s'"
    using keepsD [OF assms(1), of s s'] keepsD [OF assms(2), of s s']
    by (cases "c s") (simp_all only: branch_def if_True if_False)
qed

lemmas exec_basic [exec_simps] = bind_res.simps steps.simps returning_def branch_def

subsection \<open>Kilobytes\<close>

text \<open>A memory in MB becomes one in KB by a product of two \<open>int\<close>s, in the daemon, the scheduler and the deployment files:
  from two terabytes on it is wrapped to 32 bits.\<close>

definition in_kb :: "int \<Rightarrow> int" where
  "in_kb m = sint (word_of_int (m * 1024) :: 32 word)"

lemma in_kb_exact: "\<bar>m\<bar> < 2 ^ 21 \<Longrightarrow> in_kb m = m * 1024"
  unfolding in_kb_def sint_sbintrunc' by (rule signed_take_bit_int_eq_self) simp_all

lemma in_kb_wraps: "in_kb (2 ^ 21) = - (2 ^ 31)"
  by (simp add: in_kb_def)

end
