(* ===== verification/IoStream.thy ===== *)
theory IoStream
  imports Prelude
begin

text \<open>
  The part of the C++ stream library the sources use to read and print unsigned numbers:
  an \<open>istringstream\<close> with its \<open>eofbit\<close> and \<open>failbit\<close>, the manipulator \<open>ws\<close>, the
  extractor of an \<open>unsigned int\<close> in base 10 or 16, and the matching inserters.
  An extractor whose sentry fails (stream not good, or only white space left) leaves its target
  unchanged; an extractor that finds no digit stores 0, and one that overflows stores the maximum,
  both with \<open>failbit\<close>.
\<close>

record istream =
  rest :: string
  eofbit :: bool
  failbit :: bool

definition istr :: "string \<Rightarrow> istream" where
  "istr s = \<lparr>rest = s, eofbit = False, failbit = False\<rparr>"

definition good :: "istream \<Rightarrow> bool" where
  "good i \<longleftrightarrow> \<not> eofbit i \<and> \<not> failbit i"

definition is_space :: "char \<Rightarrow> bool" where
  "is_space c \<longleftrightarrow> c \<in> {CHR '' '', CHR 0x09, CHR 0x0A, CHR 0x0B, CHR 0x0C, CHR 0x0D}"

definition skip_ws :: "istream \<Rightarrow> istream" where
  "skip_ws i = (let r = dropWhile is_space (rest i)
     in i\<lparr>rest := r, eofbit := (eofbit i \<or> r = [])\<rparr>)"

definition digit_val :: "char \<Rightarrow> nat option" where
  "digit_val c = (let n = of_char c in
     if 48 \<le> n \<and> n \<le> 57 then Some (n - 48)
     else if 97 \<le> n \<and> n \<le> 102 then Some (n - 87)
     else if 65 \<le> n \<and> n \<le> 70 then Some (n - 55) else None)"

definition is_digit :: "nat \<Rightarrow> char \<Rightarrow> bool" where
  "is_digit base c = (case digit_val c of None \<Rightarrow> False | Some d \<Rightarrow> d < base)"

fun digits_val :: "nat \<Rightarrow> nat \<Rightarrow> string \<Rightarrow> nat" where
  "digits_val base acc [] = acc"
| "digits_val base acc (c # cs) = digits_val base (base * acc + the (digit_val c)) cs"

fun split_sign :: "string \<Rightarrow> bool \<times> string" where
  "split_sign [] = (False, [])"
| "split_sign (c # cs) =
     (if c = CHR ''-'' then (True, cs) else if c = CHR ''+'' then (False, cs) else (False, c # cs))"

fun split_0x :: "nat \<Rightarrow> string \<Rightarrow> string" where
  "split_0x base (z # x # cs) =
     (if base = 16 \<and> z = CHR ''0'' \<and> (x = CHR ''x'' \<or> x = CHR ''X'') then cs else z # x # cs)"
| "split_0x base cs = cs"

text \<open>\<open>is >> tmp\<close> for an \<open>unsigned int tmp\<close> whose current value is \<open>old\<close>.\<close>

definition extract_uint :: "nat \<Rightarrow> 32 word \<Rightarrow> istream \<Rightarrow> 32 word \<times> istream" where
  "extract_uint base old i =
     (if \<not> good i then (old, i\<lparr>failbit := True\<rparr>) else
      let r = dropWhile is_space (rest i) in
      if r = [] then (old, i\<lparr>rest := [], eofbit := True, failbit := True\<rparr>) else
      let (neg, s) = split_sign r;
          d = split_0x base s;
          ds = takeWhile (is_digit base) d;
          r' = dropWhile (is_digit base) d;
          n = digits_val base 0 ds
      in if ds = [] then (0, i\<lparr>rest := r', eofbit := (r' = []), failbit := True\<rparr>)
         else if n \<ge> 2 ^ 32 then (- 1, i\<lparr>rest := r', eofbit := (r' = []), failbit := True\<rparr>)
         else ((if neg then - of_nat n else of_nat n), i\<lparr>rest := r', eofbit := (r' = [])\<rparr>))"

text \<open>\<open>is >> x\<close> for an \<open>int x\<close>: out of range, it stores the nearest bound with \<open>failbit\<close>.\<close>

definition extract_int :: "int \<Rightarrow> istream \<Rightarrow> int \<times> istream" where
  "extract_int old i =
     (if \<not> good i then (old, i\<lparr>failbit := True\<rparr>) else
      let r = dropWhile is_space (rest i) in
      if r = [] then (old, i\<lparr>rest := [], eofbit := True, failbit := True\<rparr>) else
      let (neg, d) = split_sign r;
          ds = takeWhile (is_digit 10) d;
          r' = dropWhile (is_digit 10) d;
          n = (if neg then - int (digits_val 10 0 ds) else int (digits_val 10 0 ds))
      in if ds = [] then (0, i\<lparr>rest := r', eofbit := (r' = []), failbit := True\<rparr>)
         else if n > 2 ^ 31 - 1 then (2 ^ 31 - 1, i\<lparr>rest := r', eofbit := (r' = []), failbit := True\<rparr>)
         else if n < - (2 ^ 31) then (- (2 ^ 31), i\<lparr>rest := r', eofbit := (r' = []), failbit := True\<rparr>)
         else (n, i\<lparr>rest := r', eofbit := (r' = [])\<rparr>))"

text \<open>\<open>atoi\<close> agrees with the extractor on its range, with 0 for a string that holds no number.\<close>

definition atoi :: "string \<Rightarrow> int" where
  "atoi s = fst (extract_int 0 (istr s))"

text \<open>Insertion of an unsigned number in decimal or (lower case) hexadecimal.\<close>

definition digit_char :: "nat \<Rightarrow> char" where
  "digit_char d = char_of (if d < 10 then 48 + d else 87 + d)"

function num_string :: "nat \<Rightarrow> nat \<Rightarrow> string" where
  "num_string base n = (if base < 2 \<or> n < base then [digit_char n]
     else num_string base (n div base) @ [digit_char (n mod base)])"
  by pat_completeness auto
termination
  by (relation "measure snd") (auto intro!: div_less_dividend)

declare num_string.simps [simp del]

text \<open>Insertion of an \<open>int\<close>.\<close>

definition int_string :: "int \<Rightarrow> string" where
  "int_string n = (if n < 0 then CHR ''-'' # num_string 10 (nat (- n)) else num_string 10 (nat n))"

definition pad2 :: "string \<Rightarrow> string" where
  "pad2 s = replicate (2 - length s) CHR ''0'' @ s"

subsection \<open>Reading back what was printed\<close>

lemma digit_val_digit_char: "d < 16 \<Longrightarrow> digit_val (digit_char d) = Some d"
  by (auto simp: digit_val_def digit_char_def Let_def)

lemma is_digit_digit_char: "d < base \<Longrightarrow> base \<le> 16 \<Longrightarrow> is_digit base (digit_char d)"
  by (simp add: is_digit_def digit_val_digit_char)

lemma digits_val_append:
  "digits_val base acc (xs @ ys) = digits_val base (digits_val base acc xs) ys"
  by (induction xs arbitrary: acc) auto

lemma digits_val_num_string:
  "2 \<le> base \<Longrightarrow> base \<le> 16 \<Longrightarrow> digits_val base 0 (num_string base n) = n"
proof (induction base n rule: num_string.induct)
  case (1 base n)
  show ?case
  proof (cases "n < base")
    case True
    with 1 show ?thesis by (simp add: num_string.simps [of base n] digit_val_digit_char)
  next
    case False
    from 1 have "n mod base < base" by simp
    with 1 have "n mod base < 16" by linarith
    with 1 False show ?thesis
      by (simp add: num_string.simps [of base n] digits_val_append digit_val_digit_char)
  qed
qed

lemma num_string_digits:
  "2 \<le> base \<Longrightarrow> base \<le> 16 \<Longrightarrow> \<forall>c \<in> set (num_string base n). is_digit base c"
proof (induction base n rule: num_string.induct)
  case (1 base n)
  have "n mod base < base" using 1 by simp
  with 1 show ?case
    by (cases "n < base") (auto simp: num_string.simps [of base n] is_digit_digit_char)
qed

lemma num_string_nonempty: "num_string base n \<noteq> []"
  by (subst num_string.simps) simp

lemma is_digit_not_special:
  assumes "is_digit base c"
  shows "\<not> is_space c" "c \<noteq> CHR ''-''" "c \<noteq> CHR ''+''" "c \<noteq> CHR ''.''" "c \<noteq> CHR '':''"
    "c \<noteq> CHR ''x''" "c \<noteq> CHR ''X''"
  using assms by (auto simp: is_digit_def digit_val_def is_space_def Let_def split: if_splits)

lemma split_sign_digit: "is_digit base c \<Longrightarrow> split_sign (c # cs) = (False, c # cs)"
  by (auto dest: is_digit_not_special)

lemma split_0x_digits:
  assumes "\<forall>c \<in> set ds. is_digit base c" and "ds \<noteq> []" and "r = [] \<or> is_space (hd r)"
  shows "split_0x base (ds @ r) = ds @ r"
proof -
  have sp: "is_space c \<Longrightarrow> c \<noteq> CHR ''x'' \<and> c \<noteq> CHR ''X''" for c by (auto simp: is_space_def)
  obtain a as where ds: "ds = a # as" using assms(2) by (cases ds) auto
  show ?thesis
  proof (cases as)
    case Nil
    then show ?thesis using ds assms(3) sp by (cases r) auto
  next
    case (Cons b bs)
    then show ?thesis using ds assms(1) by (auto dest: is_digit_not_special)
  qed
qed

text \<open>Extracting from a stream that holds the digits of \<open>n\<close>, then white space or its end.\<close>

lemma extract_uint_digits:
  assumes g: "good i" and r: "rest i = ds @ r"
    and ds: "\<forall>c \<in> set ds. is_digit base c" "ds \<noteq> []"
    and n: "digits_val base 0 ds = n" "n < 2 ^ 32"
    and sp: "r = [] \<or> is_space (hd r)"
  shows "extract_uint base old i = (of_nat n, i\<lparr>rest := r, eofbit := (r = [])\<rparr>)"
proof -
  obtain a as where a: "ds = a # as" using ds(2) by (cases ds) auto
  then have da: "is_digit base a" using ds(1) by simp
  have nsp: "r = [] \<or> \<not> is_digit base (hd r)" using sp is_digit_not_special(1) by blast
  have tw: "takeWhile (is_digit base) (ds @ r) = ds" "dropWhile (is_digit base) (ds @ r) = r"
    using ds(1) nsp by (cases r; simp add: takeWhile_append2 dropWhile_append2)+
  have "dropWhile is_space (rest i) = ds @ r" using r a da is_digit_not_special(1) by simp
  moreover have "split_sign (ds @ r) = (False, ds @ r)" using a da split_sign_digit by simp
  moreover have "split_0x base (ds @ r) = ds @ r" using ds sp by (rule split_0x_digits)
  ultimately show ?thesis
    using g ds(2) n tw by (simp add: extract_uint_def)
qed

lemma extract_int_string:
  assumes "- (2 ^ 31) \<le> n" "n < 2 ^ 31"
  shows "extract_int old (istr (int_string n)) = (n, \<lparr>rest = [], eofbit = True, failbit = False\<rparr>)"
proof -
  have len: "num_string 10 k \<noteq> []" "\<forall>c \<in> set (num_string 10 k). is_digit 10 c" for k
    by (simp_all add: num_string_nonempty num_string_digits)
  obtain c cs where cs: "num_string 10 (nat n) = c # cs" using len(1) by (cases "num_string 10 (nat n)") auto
  have c: "is_digit 10 c" using len(2) [of "nat n"] cs by simp
  have tw: "takeWhile (is_digit 10) (num_string 10 k) = num_string 10 k"
    "dropWhile (is_digit 10) (num_string 10 k) = []" for k
    using len(2) [of k] by (simp_all add: takeWhile_eq_all_conv)
  have v: "digits_val 10 0 (num_string 10 k) = k" for k by (simp add: digits_val_num_string)
  show ?thesis
  proof (cases "n < 0")
    case True
    have "\<not> is_space CHR ''-''" by (simp add: is_space_def)
    then show ?thesis using True assms len(1) [of "nat (- n)"]
      by (simp add: extract_int_def int_string_def istr_def good_def tw v)
  next
    case False
    have "dropWhile is_space (num_string 10 (nat n)) = num_string 10 (nat n)"
      "split_sign (num_string 10 (nat n)) = (False, num_string 10 (nat n))"
      using cs c is_digit_not_special(1) [OF c] split_sign_digit [OF c] by simp_all
    then show ?thesis using False assms len(1) [of "nat n"]
      by (simp add: extract_int_def int_string_def istr_def good_def tw v)
  qed
qed

end
