(* ===== verification/IpMac.thy ===== *)
theory IpMac
  imports IoStream
begin

text \<open>
  The address conversions of \<open>Leases::Lease\<close> (src/vnm/Leases.cc): IPs as 32-bit numbers, MACs as a
  16-bit prefix and a 32-bit suffix held in two unsigned ints.
  A local \<open>unsigned int\<close> that the source declares without an initial value is an argument of the
  model (\<open>tmp\<close>, \<open>i_ip\<close>): its content before the call.
\<close>

record mac =
  PREFIX :: "32 word"
  SUFFIX :: "32 word"

text \<open>\<open>while (s.find(c) != npos) { s.replace(pos,1," "); count++; }\<close>\<close>

fun blank_out :: "char \<Rightarrow> string \<Rightarrow> string \<times> nat" where
  "blank_out c [] = ([], 0)"
| "blank_out c (x # xs) = (let (ys, n) = blank_out c xs
     in if x = c then (CHR '' '' # ys, Suc n) else (x # ys, n))"

text \<open>The loop of \<open>ip_to_number\<close>; the count is the number of bytes still to read.\<close>

fun ip_bytes :: "nat \<Rightarrow> 32 word \<Rightarrow> istream \<Rightarrow> 32 word \<Rightarrow> int \<times> 32 word" where
  "ip_bytes 0 tmp iss i_ip = (0, i_ip)"
| "ip_bytes (Suc n) tmp iss i_ip =
     (let (tmp, iss) = extract_uint 10 tmp iss; iss = skip_ws iss
      in if tmp > 255 then (-1, i_ip) else ip_bytes n tmp iss (push_bit 8 i_ip + tmp))"

definition ip_to_number :: "32 word \<Rightarrow> 32 word \<Rightarrow> string \<Rightarrow> int \<times> 32 word" where
  "ip_to_number tmp i_ip ip0 = (let (ip, count) = blank_out CHR ''.'' ip0
     in if count \<noteq> 3 then (-1, i_ip) else ip_bytes 4 tmp (istr ip) 0)"

definition byte_of :: "32 word \<Rightarrow> nat \<Rightarrow> 32 word" where
  "byte_of w k = and (drop_bit k w) 255"

fun ip_chunks :: "32 word \<Rightarrow> nat list \<Rightarrow> string" where
  "ip_chunks i_ip [] = []"
| "ip_chunks i_ip (index # is) =
     num_string 10 (unat (byte_of i_ip (24 - index * 8))) @
     (if index \<noteq> 3 then ''.'' else []) @ ip_chunks i_ip is"

definition ip_to_string :: "32 word \<Rightarrow> string" where
  "ip_to_string i_ip = ip_chunks i_ip [0, 1, 2, 3]"

fun mac_bytes :: "nat \<Rightarrow> 32 word \<Rightarrow> istream \<Rightarrow> 32 word \<Rightarrow> 32 word" where
  "mac_bytes 0 tmp iss suffix = suffix"
| "mac_bytes (Suc n) tmp iss suffix =
     (let (tmp, iss) = extract_uint 16 tmp iss; iss = skip_ws iss
      in mac_bytes n tmp iss (push_bit 8 suffix + tmp))"

definition mac_to_number :: "32 word \<Rightarrow> mac \<Rightarrow> string \<Rightarrow> int \<times> mac" where
  "mac_to_number tmp i_mac mac0 = (let (m, count) = blank_out CHR '':'' mac0
     in if count \<noteq> 5 then (-1, i_mac) else
        let (p, iss) = extract_uint 16 0 (istr m);
            iss = skip_ws iss;
            (tmp, iss) = extract_uint 16 tmp iss;
            iss = skip_ws iss;
            p = push_bit 8 p + tmp
        in (0, \<lparr>PREFIX = p, SUFFIX = mac_bytes 4 tmp iss 0\<rparr>))"

fun mac_chunks :: "mac \<Rightarrow> nat list \<Rightarrow> string" where
  "mac_chunks i_mac [] = []"
| "mac_chunks i_mac (i # is) =
     pad2 (num_string 16 (unat (if i < 4 then byte_of (SUFFIX i_mac) (i * 8)
                                 else byte_of (PREFIX i_mac) (i mod 4 * 8)))) @
     (if i \<noteq> 0 then '':'' else []) @ mac_chunks i_mac is"

definition mac_to_string :: "mac \<Rightarrow> string" where
  "mac_to_string i_mac = mac_chunks i_mac [5, 4, 3, 2, 1, 0]"

subsection \<open>Bytes of a word\<close>

lemma byte_of_le: "byte_of w k \<le> 255"
  by (simp add: byte_of_def word_and_le1)

lemma unat_byte_of: "unat (byte_of w k) < 256"
  using byte_of_le [of w k] by (simp add: word_le_nat_alt)

lemma byte_of_mask: "byte_of w k = take_bit 8 (drop_bit k w)"
proof -
  have m: "(255 :: 32 word) = mask 8" by (simp add: mask_eq_exp_minus_1)
  show ?thesis unfolding byte_of_def m by (rule take_bit_eq_mask [symmetric])
qed

lemma push8_byte:
  "push_bit 8 (drop_bit (n + 8) w) + byte_of w n = drop_bit n (w :: 32 word)"
proof -
  have "drop_bit (n + 8) w = drop_bit 8 (drop_bit n w)" by (simp add: drop_bit_drop_bit add.commute)
  then have "push_bit 8 (drop_bit (n + 8) w) + byte_of w n =
      push_bit 8 (drop_bit 8 (drop_bit n w)) + take_bit 8 (drop_bit n w)"
    by (simp only: byte_of_mask)
  also have "\<dots> = take_bit 8 (drop_bit n w) + push_bit 8 (drop_bit 8 (drop_bit n w))"
    by (rule add.commute)
  also have "\<dots> = drop_bit n w" by (simp only: push_bit_eq_mult drop_bit_eq_div take_bit_eq_mod mod_div_mult_eq)
  finally show ?thesis .
qed

lemma drop_bit_32: "32 \<le> n \<Longrightarrow> drop_bit n (w :: 32 word) = 0"
  by (rule bit_word_eqI) (auto simp: bit_drop_bit_eq dest: bit_imp_le_length)

lemma ip_reassemble:
  "push_bit 8 (push_bit 8 (push_bit 8 (push_bit 8 0 + byte_of w 24) + byte_of w 16) + byte_of w 8)
     + byte_of w 0 = (w :: 32 word)"
  using push8_byte [of 24 w] push8_byte [of 16 w] push8_byte [of 8 w] push8_byte [of 0 w]
  by (simp add: drop_bit_32)

subsection \<open>Round trips\<close>

lemma blank_out_append:
  "blank_out c (xs @ ys) = (fst (blank_out c xs) @ fst (blank_out c ys),
                            snd (blank_out c xs) + snd (blank_out c ys))"
proof (induction xs)
  case Nil
  show ?case by simp
next
  case (Cons x xs)
  then show ?case by (simp add: case_prod_unfold Let_def)
qed

lemma blank_out_id: "c \<notin> set xs \<Longrightarrow> blank_out c xs = (xs, 0)"
proof (induction xs)
  case (Cons x xs)
  then have "x \<noteq> c" by auto
  with Cons show ?case by (simp add: Let_def)
qed simp

lemma num_string_blank_out:
  assumes "2 \<le> b" "b \<le> 16" "c = CHR ''.'' \<or> c = CHR '':''"
  shows "blank_out c (num_string b n) = (num_string b n, 0)"
proof (rule blank_out_id, rule notI)
  assume "c \<in> set (num_string b n)"
  then have "is_digit b c" using num_string_digits [OF assms(1,2)] by blast
  then show False using assms(3) is_digit_not_special(4,5) by blast
qed

lemma pad2_blank_out:
  assumes "2 \<le> b" "b \<le> 16"
  shows "blank_out CHR '':'' (pad2 (num_string b n)) = (pad2 (num_string b n), 0)"
proof (rule blank_out_id)
  show "CHR '':'' \<notin> set (pad2 (num_string b n))"
    using num_string_digits [OF assms] is_digit_not_special(5) by (auto simp: pad2_def)
qed

text \<open>A printed number, plain or padded to two digits, is read back.\<close>

definition printed :: "nat \<Rightarrow> nat \<Rightarrow> string \<Rightarrow> bool" where
  "printed b n ds \<longleftrightarrow> digits_val b 0 ds = n \<and> (\<forall>c \<in> set ds. is_digit b c) \<and> ds \<noteq> []"

lemma printed_num_string: "2 \<le> b \<Longrightarrow> b \<le> 16 \<Longrightarrow> printed b n (num_string b n)"
  by (simp add: printed_def digits_val_num_string num_string_digits num_string_nonempty)

lemma digits_val_zeros: "digits_val b 0 (replicate k CHR ''0'' @ xs) = digits_val b 0 xs"
  by (induction k) (simp_all add: digit_val_def)

lemma printed_pad2: "2 \<le> b \<Longrightarrow> b \<le> 16 \<Longrightarrow> printed b n (pad2 (num_string b n))"
  using printed_num_string [of b n]
  by (auto simp: printed_def pad2_def digits_val_zeros is_digit_def digit_val_def)

lemma printed_hd: "printed b n ds \<Longrightarrow> ds @ r \<noteq> [] \<and> \<not> is_space (hd (ds @ r))"
  by (cases ds) (auto simp: printed_def dest: is_digit_not_special)

lemma read_more:
  assumes "printed b n ds" "n < 2 ^ 32"
  shows "extract_uint b old (istr (ds @ CHR '' '' # s)) = (of_nat n, istr (CHR '' '' # s))"
  using assms
  by (subst extract_uint_digits [where ds = ds and r = "CHR '' '' # s" and n = n])
     (auto simp: good_def is_space_def istr_def printed_def)

lemma skip_more:
  assumes "s \<noteq> []" "\<not> is_space (hd s)"
  shows "skip_ws (istr (CHR '' '' # s)) = istr s"
  using assms by (cases s) (simp_all add: skip_ws_def is_space_def Let_def istr_def)

lemma read_last:
  assumes "printed b n ds" "n < 2 ^ 32"
  shows "extract_uint b old (istr ds) = (of_nat n, \<lparr>rest = [], eofbit = True, failbit = False\<rparr>)"
  using assms
  by (subst extract_uint_digits [where ds = ds and r = "[]" and n = n])
     (auto simp: good_def istr_def printed_def)

lemma ip_bytes_more:
  assumes "printed 10 n ds" "n < 256" "s \<noteq> []" "\<not> is_space (hd s)"
  shows "ip_bytes (Suc k) tmp (istr (ds @ CHR '' '' # s)) acc =
           ip_bytes k (of_nat n) (istr s) (push_bit 8 acc + of_nat n)"
proof -
  have "n < 2 ^ 32" using assms(2) by simp
  moreover have "\<not> (of_nat n :: 32 word) > 255"
    using assms(2) by (simp add: word_less_nat_alt unat_of_nat)
  ultimately show ?thesis
    by (simp add: read_more [OF assms(1)] skip_more [OF assms(3,4)] Let_def)
qed

lemma ip_bytes_last:
  assumes "printed 10 n ds" "n < 256"
  shows "ip_bytes (Suc 0) tmp (istr ds) acc = (0, push_bit 8 acc + of_nat n)"
proof -
  have "n < 2 ^ 32" using assms(2) by simp
  moreover have "\<not> (of_nat n :: 32 word) > 255"
    using assms(2) by (simp add: word_less_nat_alt unat_of_nat)
  ultimately show ?thesis by (simp add: read_last [OF assms(1)] Let_def)
qed

lemma ip_bytes_string:
  assumes "printed 10 a as" "printed 10 b bs" "printed 10 c cs" "printed 10 d ds"
    "a < 256" "b < 256" "c < 256" "d < 256"
  shows "ip_bytes 4 tmp (istr (as @ CHR '' '' # bs @ CHR '' '' # cs @ CHR '' '' # ds)) 0 =
    (0, push_bit 8 (push_bit 8 (push_bit 8 (push_bit 8 0 + of_nat a) + of_nat b) + of_nat c) + of_nat d)"
proof -
  have four: "4 = Suc (Suc (Suc (Suc 0)))" by simp
  have nd: "ds \<noteq> []" "\<not> is_space (hd ds)" using printed_hd [OF assms(4), of "[]"] by simp_all
  show ?thesis
    unfolding four
    using printed_hd [OF assms(2), of "CHR '' '' # cs @ CHR '' '' # ds"]
      printed_hd [OF assms(3), of "CHR '' '' # ds"]
    by (simp only: ip_bytes_more [OF assms(1,5)] ip_bytes_more [OF assms(2,6)]
        ip_bytes_more [OF assms(3,7) nd] ip_bytes_last [OF assms(4,8)] not_False_eq_True simp_thms)
qed

lemma ip_round_trip: "ip_to_number tmp i_ip (ip_to_string x) = (0, x)"
proof -
  let ?n = "\<lambda>k. num_string 10 (unat (byte_of x k))"
  have u: "of_nat (unat w) = w" for w :: "32 word" by simp
  have pr: "printed 10 n (num_string 10 n)" for n by (simp add: printed_num_string)
  have s: "ip_to_string x = ?n 24 @ ''.'' @ ?n 16 @ ''.'' @ ?n 8 @ ''.'' @ ?n 0"
    by (simp add: ip_to_string_def)
  have "blank_out CHR ''.'' (ip_to_string x) =
      (?n 24 @ CHR '' '' # ?n 16 @ CHR '' '' # ?n 8 @ CHR '' '' # ?n 0, 3)"
    unfolding s by (simp add: blank_out_append num_string_blank_out)
  moreover have "ip_bytes 4 tmp (istr (?n 24 @ CHR '' '' # ?n 16 @ CHR '' '' # ?n 8 @ CHR '' '' # ?n 0)) 0
      = (0, x)"
    by (subst ip_bytes_string [OF pr pr pr pr unat_byte_of unat_byte_of unat_byte_of unat_byte_of])
       (simp only: u ip_reassemble)
  ultimately show ?thesis by (simp add: ip_to_number_def del: ip_bytes.simps)
qed

lemma mac_bytes_more:
  assumes "printed 16 n ds" "n < 256" "s \<noteq> []" "\<not> is_space (hd s)"
  shows "mac_bytes (Suc k) tmp (istr (ds @ CHR '' '' # s)) acc =
           mac_bytes k (of_nat n) (istr s) (push_bit 8 acc + of_nat n)"
proof -
  have "n < 2 ^ 32" using assms(2) by simp
  then show ?thesis by (simp add: read_more [OF assms(1)] skip_more [OF assms(3,4)] Let_def)
qed

lemma mac_bytes_last:
  assumes "printed 16 n ds" "n < 256"
  shows "mac_bytes (Suc 0) tmp (istr ds) acc = push_bit 8 acc + of_nat n"
proof -
  have "n < 2 ^ 32" using assms(2) by simp
  then show ?thesis by (simp add: read_last [OF assms(1)] Let_def)
qed

lemma mac_bytes_string:
  assumes "printed 16 a as" "printed 16 b bs" "printed 16 c cs" "printed 16 d ds"
    "a < 256" "b < 256" "c < 256" "d < 256"
  shows "mac_bytes 4 tmp (istr (as @ CHR '' '' # bs @ CHR '' '' # cs @ CHR '' '' # ds)) 0 =
    push_bit 8 (push_bit 8 (push_bit 8 (push_bit 8 0 + of_nat a) + of_nat b) + of_nat c) + of_nat d"
proof -
  have four: "4 = Suc (Suc (Suc (Suc 0)))" by simp
  have nd: "ds \<noteq> []" "\<not> is_space (hd ds)" using printed_hd [OF assms(4), of "[]"] by simp_all
  show ?thesis
    unfolding four
    using printed_hd [OF assms(2), of "CHR '' '' # cs @ CHR '' '' # ds"]
      printed_hd [OF assms(3), of "CHR '' '' # ds"]
    by (simp only: mac_bytes_more [OF assms(1,5)] mac_bytes_more [OF assms(2,6)]
        mac_bytes_more [OF assms(3,7) nd] mac_bytes_last [OF assms(4,8)] not_False_eq_True simp_thms)
qed

text \<open>A MAC has a prefix of 16 bits.\<close>

lemma prefix_reassemble:
  assumes "p < 2 ^ 16"
  shows "push_bit 8 (byte_of p 8) + byte_of p 0 = (p :: 32 word)"
proof -
  have "drop_bit 16 p = 0"
    using assms by (simp add: drop_bit_eq_div word_less_nat_alt word_arith_nat_div)
  then show ?thesis using push8_byte [of 8 p] push8_byte [of 0 p] by simp
qed

lemma mac_round_trip:
  assumes "PREFIX m < 2 ^ 16"
  shows "mac_to_number tmp i_mac (mac_to_string m) = (0, m)"
proof -
  let ?s = "\<lambda>k. pad2 (num_string 16 (unat (byte_of (SUFFIX m) k)))"
  let ?p = "\<lambda>k. pad2 (num_string 16 (unat (byte_of (PREFIX m) k)))"
  let ?tail = "?s 24 @ CHR '' '' # ?s 16 @ CHR '' '' # ?s 8 @ CHR '' '' # ?s 0"
  have u: "of_nat (unat w) = w" for w :: "32 word" by simp
  have pr: "printed 16 n (pad2 (num_string 16 n))" for n by (simp add: printed_pad2)
  have lt: "unat (byte_of w k) < 2 ^ 32" for w k using unat_byte_of [of w k] by simp
  have s: "mac_to_string m = ?p 8 @ '':'' @ ?p 0 @ '':'' @ ?s 24 @ '':'' @ ?s 16 @ '':'' @ ?s 8 @ '':'' @ ?s 0"
    by (simp add: mac_to_string_def)
  have b: "blank_out CHR '':'' (mac_to_string m) = (?p 8 @ CHR '' '' # ?p 0 @ CHR '' '' # ?tail, 5)"
    unfolding s by (simp add: blank_out_append pad2_blank_out)
  have r1: "extract_uint 16 0 (istr (?p 8 @ CHR '' '' # ?p 0 @ CHR '' '' # ?tail)) =
      (byte_of (PREFIX m) 8, istr (CHR '' '' # ?p 0 @ CHR '' '' # ?tail))"
    using read_more [OF pr lt] by (simp only: u)
  have w1: "skip_ws (istr (CHR '' '' # ?p 0 @ CHR '' '' # ?tail)) = istr (?p 0 @ CHR '' '' # ?tail)"
    using printed_hd [OF pr, of "unat (byte_of (PREFIX m) 0)" "CHR '' '' # ?tail"]
    by (intro skip_more) simp_all
  have r2: "extract_uint 16 tmp (istr (?p 0 @ CHR '' '' # ?tail)) =
      (byte_of (PREFIX m) 0, istr (CHR '' '' # ?tail))"
    using read_more [OF pr lt] by (simp only: u)
  have w2: "skip_ws (istr (CHR '' '' # ?tail)) = istr ?tail"
    using printed_hd [OF pr, of "unat (byte_of (SUFFIX m) 24)" "CHR '' '' # ?s 16 @ CHR '' '' # ?s 8 @ CHR '' '' # ?s 0"]
    by (intro skip_more) simp_all
  have t: "mac_bytes 4 x (istr ?tail) 0 = SUFFIX m" for x
    by (subst mac_bytes_string [OF pr pr pr pr unat_byte_of unat_byte_of unat_byte_of unat_byte_of])
       (simp only: u ip_reassemble)
  show ?thesis
    unfolding mac_to_number_def b Let_def prod.case r1 w1 r2 w2
    by (simp add: t prefix_reassemble [OF assms] del: mac_bytes.simps)
qed

end
