(* ===== verification/StdMap.thy ===== *)
theory StdMap
  imports Prelude
begin

text \<open>
  \<open>std::map\<close>: an association list in strictly increasing key order, with the operations the
  sources use (\<open>find\<close>, \<open>insert\<close>, which does not overwrite, \<open>erase\<close>, assignment through an
  iterator) and forward iterators.  Erasing an element invalidates the iterators that point to it.
\<close>

type_synonym ('k, 'v) stdmap = "('k \<times> 'v) list"

definition map_ok :: "('k::linorder, 'v) stdmap \<Rightarrow> bool" where
  "map_ok m \<longleftrightarrow> sorted_wrt (<) (map fst m)"

abbreviation mfind :: "('k, 'v) stdmap \<Rightarrow> 'k \<Rightarrow> 'v option" where
  "mfind m k \<equiv> map_of m k"

fun minsert :: "'k::linorder \<Rightarrow> 'v \<Rightarrow> ('k, 'v) stdmap \<Rightarrow> ('k, 'v) stdmap" where
  "minsert k v [] = [(k, v)]"
| "minsert k v ((k', v') # m) =
     (if k < k' then (k, v) # (k', v') # m
      else if k = k' then (k', v') # m else (k', v') # minsert k v m)"

definition merase :: "'k \<Rightarrow> ('k, 'v) stdmap \<Rightarrow> ('k, 'v) stdmap" where
  "merase k m = filter (\<lambda>(k', _). k' \<noteq> k) m"

definition mset_at :: "'k \<Rightarrow> 'v \<Rightarrow> ('k, 'v) stdmap \<Rightarrow> ('k, 'v) stdmap" where
  "mset_at k v m = map (\<lambda>(k', v'). (k', if k' = k then v else v')) m"

datatype 'k iter = It_end | It_at 'k | It_dangling

definition mbegin :: "('k, 'v) stdmap \<Rightarrow> 'k iter" where
  "mbegin m = (case m of [] \<Rightarrow> It_end | (k, _) # _ \<Rightarrow> It_at k)"

text \<open>\<open>it++\<close>: undefined on \<open>end()\<close> and on an invalidated iterator.\<close>

fun mnext :: "('k::linorder, 'v) stdmap \<Rightarrow> 'k iter \<Rightarrow> 'k iter option" where
  "mnext m (It_at k) = Some (mbegin (dropWhile (\<lambda>(k', _). k' \<le> k) m))"
| "mnext m It_end = None"
| "mnext m It_dangling = None"

definition iter_erase :: "'k \<Rightarrow> 'k iter \<Rightarrow> 'k iter" where
  "iter_erase k it = (if it = It_at k then It_dangling else it)"

subsection \<open>Laws\<close>

lemma map_ok_Nil [simp]: "map_ok []"
  by (simp add: map_ok_def)

lemma map_ok_Cons: "map_ok ((k, v) # m) \<longleftrightarrow> (\<forall>k' \<in> fst ` set m. k < k') \<and> map_ok m"
  by (auto simp: map_ok_def)

lemma map_ok_distinct: "map_ok m \<Longrightarrow> distinct (map fst m)"
  by (simp add: map_ok_def strict_sorted_iff)

lemma set_minsert_keys: "fst ` set (minsert k v m) = insert k (fst ` set m)"
  by (induction k v m rule: minsert.induct) (simp_all add: insert_commute)

lemma map_ok_minsert [simp]: "map_ok m \<Longrightarrow> map_ok (minsert k v m)"
proof (induction k v m rule: minsert.induct)
  case (2 k v k' v' m)
  show ?case
  proof (cases "k' < k")
    case True
    with 2 show ?thesis by (auto simp: map_ok_Cons set_minsert_keys)
  next
    case False
    with 2 show ?thesis by (auto simp: map_ok_Cons)
  qed
qed (simp add: map_ok_def)

lemma mfind_None_iff: "mfind m k = None \<longleftrightarrow> k \<notin> fst ` set m"
  by (simp add: map_of_eq_None_iff)

lemma mfind_minsert:
  "map_ok m \<Longrightarrow> mfind (minsert k v m) k' =
     (if k' = k then (case mfind m k of None \<Rightarrow> Some v | Some u \<Rightarrow> Some u) else mfind m k')"
proof (induction m)
  case Nil
  then show ?case by simp
next
  case (Cons a m)
  obtain ka va where a: "a = (ka, va)" by force
  have "k < ka \<Longrightarrow> mfind m k = None"
    using Cons.prems by (auto simp: a map_ok_Cons map_of_eq_None_iff)
  then show ?case using Cons by (auto simp: a map_ok_Cons split: option.splits)
qed

lemma map_ok_merase [simp]: "map_ok m \<Longrightarrow> map_ok (merase k m)"
  by (induction m) (auto simp: map_ok_Cons merase_def)

lemma mfind_merase: "mfind (merase k m) k' = (if k' = k then None else mfind m k')"
  by (induction m) (auto simp: merase_def)

lemma keys_mset_at [simp]: "map fst (mset_at k v m) = map fst m"
  by (induction m) (auto simp: mset_at_def)

lemma map_ok_mset_at [simp]: "map_ok (mset_at k v m) = map_ok m"
  by (simp add: map_ok_def)

lemma mfind_mset_at:
  "mfind (mset_at k v m) k' = (if k' = k then map_option (\<lambda>_. v) (mfind m k) else mfind m k')"
  by (induction m) (auto simp: mset_at_def)

lemma length_mset_at [simp]: "length (mset_at k v m) = length m"
  by (simp add: mset_at_def)

lemma minsert_last: "map_ok (m @ [(k, v)]) \<Longrightarrow> minsert k v m = m @ [(k, v)]"
  by (induction m) (auto simp: map_ok_Cons not_less)

lemma map_ok_append: "map_ok (m @ n) \<Longrightarrow> map_ok m"
  by (simp add: map_ok_def sorted_wrt_append)

lemma length_minsert_new:
  "mfind m k = None \<Longrightarrow> length (minsert k v m) = Suc (length m)"
  by (induction m) auto

lemma length_merase: "map_ok m \<Longrightarrow> mfind m k \<noteq> None \<Longrightarrow> Suc (length (merase k m)) = length m"
proof (induction m)
  case Nil
  then show ?case by simp
next
  case (Cons a m)
  obtain ka va where a: "a = (ka, va)" by force
  show ?case
  proof (cases "ka = k")
    case True
    then have "k \<notin> fst ` set m" using Cons.prems by (auto simp: a map_ok_Cons)
    then have "filter (\<lambda>(k', _). k' \<noteq> k) m = m" by (induction m) auto
    with True show ?thesis by (simp add: a merase_def)
  next
    case False
    with Cons show ?thesis by (simp add: a merase_def map_ok_Cons)
  qed
qed

text \<open>The number of elements whose value satisfies a predicate.\<close>

definition mcount :: "('v \<Rightarrow> bool) \<Rightarrow> ('k, 'v) stdmap \<Rightarrow> nat" where
  "mcount P m = length (filter (\<lambda>(_, v). P v) m)"

lemma mcount_Nil [simp]: "mcount P [] = 0"
  by (simp add: mcount_def)

lemma mcount_Cons [simp]: "mcount P ((k, v) # m) = (if P v then Suc (mcount P m) else mcount P m)"
  by (simp add: mcount_def)

lemma mcount_minsert_new:
  "mfind m k = None \<Longrightarrow> mcount P (minsert k v m) = mcount P m + (if P v then 1 else 0)"
  by (induction m) (auto split: if_splits)

lemma mcount_merase:
  "map_ok m \<Longrightarrow> mfind m k = Some v \<Longrightarrow> mcount P (merase k m) + (if P v then 1 else 0) = mcount P m"
proof (induction m)
  case Nil
  then show ?case by simp
next
  case (Cons a m)
  obtain ka va where a: "a = (ka, va)" by force
  show ?case
  proof (cases "ka = k")
    case True
    then have "k \<notin> fst ` set m" using Cons.prems by (auto simp: a map_ok_Cons)
    then have "merase k m = m" unfolding merase_def by (induction m) auto
    moreover have "merase k ((ka, va) # m) = merase k m" using True by (simp add: merase_def)
    ultimately show ?thesis using True Cons.prems by (simp add: a)
  next
    case False
    then have "merase k ((ka, va) # m) = (ka, va) # merase k m" by (simp add: merase_def)
    with False Cons show ?thesis by (simp add: a map_ok_Cons)
  qed
qed

lemma mset_at_absent: "k \<notin> fst ` set m \<Longrightarrow> mset_at k v m = m"
  by (induction m) (auto simp: mset_at_def)

lemma mcount_mset_at:
  "map_ok m \<Longrightarrow> mfind m k = Some u \<Longrightarrow>
     mcount P (mset_at k v m) + (if P u then 1 else 0) = mcount P m + (if P v then 1 else 0)"
proof (induction m)
  case Nil
  then show ?case by simp
next
  case (Cons a m)
  obtain ka va where a: "a = (ka, va)" by force
  have eq: "mset_at k v ((ka, va) # m) = (ka, if ka = k then v else va) # mset_at k v m"
    by (simp add: mset_at_def)
  show ?case
  proof (cases "ka = k")
    case True
    then have "k \<notin> fst ` set m" using Cons.prems by (auto simp: a map_ok_Cons)
    then have "mset_at k v m = m" by (rule mset_at_absent)
    with True Cons.prems show ?thesis unfolding a eq by simp
  next
    case False
    with Cons show ?thesis unfolding a eq by (simp add: map_ok_Cons)
  qed
qed

end
