(* ===== verification/Leases.thy ===== *)
theory Leases
  imports IpMac StdMap
begin

text \<open>
  The leases of a virtual network, the part shared by ranged and fixed networks (\<open>Leases\<close>,
  src/vnm/Leases.cc).

  \<open>lmap\<close> is the map of leases in memory, \<open>l_rows\<close> the rows of the table \<open>leases\<close> for this network.
  The database is an argument of the operations: whether \<open>escape_str\<close> works on the body of an IP's row, and
  the code \<open>exec\<close> returns for the statement on that row.  A value read from a local that was
  never assigned is the argument \<open>junk\<close>.
\<close>

record lease =
  l_ip :: "32 word"
  l_mac :: mac
  l_vid :: int
  l_used :: bool

record leases =
  l_oid :: int
  l_size :: "32 word"
  n_used :: int
  mac_prefix :: "32 word"
  lmap :: "(32 word, lease) stdmap"
  l_rows :: "(32 word, lease) stdmap"

record db_oracle =
  escape_ok :: "32 word \<Rightarrow> bool"
  exec_rc :: "32 word \<Rightarrow> int"

text \<open>The database accepts every statement.\<close>

definition db_fine :: db_oracle where
  "db_fine = \<lparr>escape_ok = (\<lambda>_. True), exec_rc = (\<lambda>_. 0)\<rparr>"

record junk =
  j_tmp :: "32 word"
  j_ip :: "32 word"

text \<open>\<open>Leases::check\<close>, on a number and on a string; the latter ignores the return code of
  \<open>ip_to_number\<close>.\<close>

definition check_ip :: "32 word \<Rightarrow> 'a leases_scheme \<Rightarrow> bool" where
  "check_ip ip ls = (case mfind (lmap ls) ip of None \<Rightarrow> False | Some l \<Rightarrow> l_used l)"

definition check_str :: "junk \<Rightarrow> string \<Rightarrow> 'a leases_scheme \<Rightarrow> bool" where
  "check_str j ip ls = check_ip (snd (ip_to_number (j_tmp j) (j_ip j) ip)) ls"

text \<open>\<open>hold_leases\<close> and \<open>free_leases\<close> on the attributes of a LEASES template; \<open>set\<close> and \<open>release\<close> are
  the virtual functions of the network's kind.  \<open>None\<close> is an attribute that is not a vector
  attribute.\<close>

definition hold_leases :: "(int \<Rightarrow> string \<Rightarrow> 'a leases_scheme \<Rightarrow> int \<times> string \<times> 'a leases_scheme) \<Rightarrow>
    junk \<Rightarrow> (string \<rightharpoonup> string) option list \<Rightarrow> 'a leases_scheme \<Rightarrow> int \<times> 'a leases_scheme" where
  "hold_leases set_op j vs ls = (case vs of
     Some attr # _ \<Rightarrow>
       let ip = (case attr ''IP'' of None \<Rightarrow> '''' | Some x \<Rightarrow> x) in
       if check_str j ip ls then (-1, ls)
       else let (rc, _, ls') = set_op (-1) ip ls in if rc \<noteq> 0 then (-1, ls') else (0, ls')
   | _ \<Rightarrow> (-1, ls))"

definition free_leases :: "(string \<Rightarrow> 'a leases_scheme \<Rightarrow> 'a leases_scheme) \<Rightarrow>
    junk \<Rightarrow> (string \<rightharpoonup> string) option list \<Rightarrow> 'a leases_scheme \<Rightarrow> int \<times> 'a leases_scheme" where
  "free_leases release_op j vs ls = (case vs of
     Some attr # _ \<Rightarrow>
       let st_ip = (case attr ''IP'' of None \<Rightarrow> '''' | Some x \<Rightarrow> x);
           (rc, i_ip) = ip_to_number (j_tmp j) (j_ip j) st_ip
       in if rc \<noteq> 0 then (-1, ls)
          else (case mfind (lmap ls) i_ip of
             None \<Rightarrow> (-1, ls)
           | Some l \<Rightarrow> if \<not> l_used l \<or> l_vid l \<noteq> -1 then (-1, ls) else (0, release_op st_ip ls))
   | _ \<Rightarrow> (-1, ls))"

text \<open>\<open>select\<close>: the rows of the network are added to the map, counting the used ones.\<close>

definition select_cb :: "lease \<Rightarrow> 'a leases_scheme \<Rightarrow> 'a leases_scheme" where
  "select_cb l ls = ls\<lparr>lmap := minsert (l_ip l) l (lmap ls),
     n_used := n_used ls + (if l_used l then 1 else 0)\<rparr>"

definition leases_select :: "int \<Rightarrow> 'a leases_scheme \<Rightarrow> int \<times> 'a leases_scheme" where
  "leases_select rc ls = (let ls = ls\<lparr>n_used := 0\<rparr> in
     if rc \<noteq> 0 then (-1, ls) else (0, fold (\<lambda>(_, l). select_cb l) (l_rows ls) ls))"

text \<open>The VM that holds an IP.\<close>

definition owner :: "'a leases_scheme \<Rightarrow> 32 word \<Rightarrow> int option" where
  "owner ls ip = (case mfind (lmap ls) ip of None \<Rightarrow> None
     | Some l \<Rightarrow> if l_used l then Some (l_vid l) else None)"

lemma check_owner: "check_ip ip ls \<longleftrightarrow> owner ls ip \<noteq> None"
  by (auto simp: check_ip_def owner_def split: option.splits)

text \<open>The number a string denotes, whatever the junk.\<close>

definition denotes :: "string \<Rightarrow> 32 word \<Rightarrow> bool" where
  "denotes s x \<longleftrightarrow> (\<forall>tmp i. ip_to_number tmp i s = (0, x))"

lemma denotes_ip_to_string [simp]: "denotes (ip_to_string x) x"
  by (simp add: denotes_def ip_round_trip)

lemma denotes_unique: "denotes s x \<Longrightarrow> denotes s y \<Longrightarrow> x = y"
  unfolding denotes_def by (metis prod.inject)

text \<open>The map is well formed: sorted, its keys are the leases' IPs, and the table holds the same.\<close>

definition map_wf :: "'a leases_scheme \<Rightarrow> bool" where
  "map_wf ls \<longleftrightarrow> map_ok (lmap ls) \<and> (\<forall>k l. mfind (lmap ls) k = Some l \<longrightarrow> l_ip l = k) \<and>
     l_rows ls = lmap ls \<and> n_used ls = int (mcount l_used (lmap ls))"

section \<open>The interface of a lease pool\<close>

text \<open>What a virtual network relies on.  \<open>get\<close> hands out an address nobody holds, \<open>set\<close> the asked
  one if it is free, \<open>release\<close> frees one; a call that fails changes no owner.\<close>

locale lease_pool =
  fixes ok :: "'s \<Rightarrow> bool"
    and own :: "'s \<Rightarrow> 32 word \<Rightarrow> int option"
    and get :: "int \<Rightarrow> 's \<Rightarrow> (int \<times> string \<times> string \<times> 's) res"
    and set :: "int \<Rightarrow> string \<Rightarrow> 's \<Rightarrow> int \<times> string \<times> 's"
    and release :: "string \<Rightarrow> 's \<Rightarrow> 's"
  assumes get_total: "ok s \<Longrightarrow> \<exists>rc ip mac s'. get vid s = Done (rc, ip, mac, s') \<and> ok s'"
    and get_fail: "ok s \<Longrightarrow> get vid s = Done (rc, ip, mac, s') \<Longrightarrow> rc \<noteq> 0 \<Longrightarrow> own s' = own s"
    and get_new: "ok s \<Longrightarrow> get vid s = Done (0, ip, mac, s') \<Longrightarrow>
        \<exists>x. denotes ip x \<and> own s x = None \<and> own s' = (own s)(x \<mapsto> vid)"
    and set_ok: "ok s \<Longrightarrow> set vid ip s = (rc, mac, s') \<Longrightarrow> ok s'"
    and set_fail: "ok s \<Longrightarrow> set vid ip s = (rc, mac, s') \<Longrightarrow> rc \<noteq> 0 \<Longrightarrow> own s' = own s"
    and set_new: "ok s \<Longrightarrow> set vid ip s = (0, mac, s') \<Longrightarrow> denotes ip x \<Longrightarrow>
        own s x = None \<and> own s' = (own s)(x \<mapsto> vid)"
    and release_ok: "ok s \<Longrightarrow> denotes ip x \<Longrightarrow> own s x \<noteq> None \<Longrightarrow>
        ok (release ip s) \<and> own (release ip s) = (own s)(x := None)"
begin

lemma get_never_shared:
  assumes "ok s" "get vid s = Done (0, ip, mac, s')" "own s y = Some u"
  shows "own s' y = Some u \<and> \<not> denotes ip y"
proof -
  obtain x where x: "denotes ip x" "own s x = None" "own s' = (own s)(x \<mapsto> vid)"
    using get_new [OF assms(1,2)] by blast
  have ne: "x \<noteq> y" using x(2) assms(3) by (metis option.distinct(1))
  have "\<not> denotes ip y" using x(1) ne denotes_unique by blast
  then show ?thesis using x(3) ne assms(3) by simp
qed

lemma get_release:
  assumes "ok s" "get vid s = Done (0, ip, mac, s')"
  shows "own (release ip s') = own s"
proof -
  obtain x where x: "denotes ip x" "own s x = None" "own s' = (own s)(x \<mapsto> vid)"
    using get_new [OF assms] by blast
  have "ok s'" using get_total [OF assms(1), of vid] assms(2) by auto
  then show ?thesis using release_ok [of s' ip x] x by auto
qed

lemma set_release:
  assumes "ok s" "set vid ip s = (0, mac, s')" "denotes ip x"
  shows "own (release ip s') = own s"
  using set_new [OF assms] set_ok [OF assms(1,2)] release_ok [of s' ip x] assms(3) by auto

end

end
