(* ===== verification/RangedLeases.thy ===== *)
theory RangedLeases
  imports Leases
begin

text \<open>
  Ranged networks (\<open>RangedLeases\<close>, src/vnm/RangedLeases.cc): the addresses of an interval, handed out
  round-robin; a lease exists in the map exactly while it is used.
\<close>

record ranged = leases +
  ip_start :: "32 word"
  ip_end :: "32 word"
  current :: "32 word"

definition new_ranged :: "int \<Rightarrow> 32 word \<Rightarrow> 32 word \<Rightarrow> 32 word \<Rightarrow> ranged" where
  "new_ranged oid prefix s e = \<lparr>l_oid = oid, l_size = e - s + 1, n_used = 0, mac_prefix = prefix,
     lmap = [], l_rows = [], ip_start = s, ip_end = e, current = 0\<rparr>"

definition ranged_add :: "db_oracle \<Rightarrow> 32 word \<Rightarrow> mac \<Rightarrow> int \<Rightarrow> ranged \<Rightarrow> int \<times> ranged" where
  "ranged_add db ip m vid r = (
     let l = \<lparr>l_ip = ip, l_mac = m, l_vid = vid, l_used = True\<rparr> in
     if \<not> escape_ok db ip then (-1, r)
     else if exec_rc db ip \<noteq> 0 then (-1, r)
     else (exec_rc db ip, r\<lparr>l_rows := minsert ip l (l_rows r), lmap := minsert ip l (lmap r),
                            n_used := n_used r + 1\<rparr>))"

fun ranged_get_loop ::
  "db_oracle \<Rightarrow> int \<Rightarrow> nat \<Rightarrow> int \<Rightarrow> string \<Rightarrow> string \<Rightarrow> ranged \<Rightarrow> int \<times> string \<times> string \<times> ranged" where
  "ranged_get_loop db vid 0 rc ip mac r = (rc, ip, mac, r)"
| "ranged_get_loop db vid (Suc i) rc ip mac r =
     (let num_ip = ip_start r + current r;
          next = (\<lambda>r. r\<lparr>current := (current r + 1) mod l_size r\<rparr>)
      in if check_ip num_ip r then ranged_get_loop db vid i rc ip mac (next r)
         else let num_mac = \<lparr>PREFIX = mac_prefix r, SUFFIX = num_ip\<rparr>;
                  (rc, r) = ranged_add db num_ip num_mac vid r
              in if rc = 0 then (rc, ip_to_string num_ip, mac_to_string num_mac, r)
                 else ranged_get_loop db vid i rc ip mac (next r))"

definition ranged_get :: "db_oracle \<Rightarrow> int \<Rightarrow> ranged \<Rightarrow> int \<times> string \<times> string \<times> ranged" where
  "ranged_get db vid r = ranged_get_loop db vid (unat (l_size r)) (-1) '''' '''' r"

definition ranged_set :: "db_oracle \<Rightarrow> junk \<Rightarrow> int \<Rightarrow> string \<Rightarrow> ranged \<Rightarrow> int \<times> string \<times> ranged" where
  "ranged_set db j vid ip r = (let (rc, num_ip) = ip_to_number (j_tmp j) (j_ip j) ip in
     if rc \<noteq> 0 then (-1, '''', r)
     else if num_ip < ip_start r \<or> ip_end r < num_ip then (-1, '''', r)
     else if check_ip num_ip r then (-1, '''', r)
     else let num_mac = \<lparr>PREFIX = mac_prefix r, SUFFIX = num_ip\<rparr>;
              (rc, r) = ranged_add db num_ip num_mac vid r
          in if rc \<noteq> 0 then (-1, '''', r) else (0, mac_to_string num_mac, r))"

definition ranged_del :: "db_oracle \<Rightarrow> junk \<Rightarrow> string \<Rightarrow> ranged \<Rightarrow> int \<times> ranged" where
  "ranged_del db j ip r = (let (rc, k) = ip_to_number (j_tmp j) (j_ip j) ip in
     if rc \<noteq> 0 then (0, r)
     else (case mfind (lmap r) k of
        None \<Rightarrow> (0, r)
      | Some l \<Rightarrow>
          if exec_rc db k = 0
          then (0, r\<lparr>l_rows := merase k (l_rows r), n_used := n_used r - 1, lmap := merase k (lmap r)\<rparr>)
          else (exec_rc db k, r)))"

definition ranged_release :: "db_oracle \<Rightarrow> junk \<Rightarrow> string \<Rightarrow> ranged \<Rightarrow> ranged" where
  "ranged_release db j ip r = snd (ranged_del db j ip r)"

subsection \<open>Invariant\<close>

definition ranged_ok :: "ranged \<Rightarrow> bool" where
  "ranged_ok r \<longleftrightarrow> map_wf r \<and> ip_start r \<le> ip_end r \<and> l_size r = ip_end r - ip_start r + 1 \<and>
     current r < l_size r \<and>
     (\<forall>k l. mfind (lmap r) k = Some l \<longrightarrow> l_used l \<and> ip_start r \<le> k \<and> k \<le> ip_end r \<and>
        l_mac l = \<lparr>PREFIX = mac_prefix r, SUFFIX = k\<rparr>)"

lemma ranged_okD:
  assumes "ranged_ok r"
  shows "map_wf r" "ip_start r \<le> ip_end r" "l_size r = ip_end r - ip_start r + 1" "current r < l_size r"
  using assms unfolding ranged_ok_def by blast+

text \<open>The size of the interval does not wrap around, except for the interval of all addresses.\<close>

lemma size_unat:
  assumes "ip_start r \<le> ip_end r" "l_size r = ip_end r - ip_start r + 1" "0 < l_size r"
  shows "unat (l_size r) = unat (ip_end r) - unat (ip_start r) + 1"
proof -
  have "unat (ip_end r - ip_start r) = unat (ip_end r) - unat (ip_start r)"
    using assms(1) by (simp add: unat_sub word_le_nat_alt)
  moreover have "ip_end r - ip_start r + 1 \<noteq> 0" using assms(2,3) by (metis word_not_simps(1))
  then have "unat (ip_end r - ip_start r + 1) = Suc (unat (ip_end r - ip_start r))"
    by (metis add.commute unatSuc)
  ultimately show ?thesis using assms(2) by simp
qed

lemma in_range:
  assumes "ip_start r \<le> ip_end r" "l_size r = ip_end r - ip_start r + 1" "c < l_size r"
  shows "ip_start r \<le> ip_start r + c" "ip_start r + c \<le> ip_end r"
    "unat (ip_start r + c) = unat (ip_start r) + unat c"
proof -
  have "0 < l_size r" using assms(3) by (metis word_gt_0 word_not_simps(1))
  note s = size_unat [OF assms(1,2) this]
  have c: "unat c < unat (l_size r)" using assms(3) by (simp add: word_less_nat_alt)
  have "unat (ip_start r) \<le> unat (ip_end r)" using assms(1) by (simp add: word_le_nat_alt)
  then have b: "unat (ip_start r) + unat c \<le> unat (ip_end r)" using s c by linarith
  then have lt: "unat (ip_start r) + unat c < 2 ^ 32"
    using unsigned_less [of "ip_end r", where 'a = nat] by simp
  then show u: "unat (ip_start r + c) = unat (ip_start r) + unat c"
    by (simp add: unat_word_ariths)
  show "ip_start r \<le> ip_start r + c" using u by (simp add: word_le_nat_alt)
  show "ip_start r + c \<le> ip_end r" using u b by (simp add: word_le_nat_alt)
qed

lemma ranged_ok_absent: "ranged_ok r \<Longrightarrow> \<not> check_ip k r \<Longrightarrow> mfind (lmap r) k = None"
  by (auto simp: ranged_ok_def check_ip_def split: option.splits)

lemma ranged_add_ok:
  assumes "ranged_ok r" "ip_start r \<le> k" "k \<le> ip_end r" "\<not> check_ip k r"
    "ranged_add db k \<lparr>PREFIX = mac_prefix r, SUFFIX = k\<rparr> vid r = (rc, r')"
  shows "ranged_ok r' \<and> (if rc = 0 then owner r' = (owner r)(k \<mapsto> vid) else r' = r)"
proof -
  have n: "mfind (lmap r) k = None" using ranged_ok_absent assms(1,4) by blast
  let ?m = "\<lparr>PREFIX = mac_prefix r, SUFFIX = k\<rparr>"
  let ?l = "\<lparr>l_ip = k, l_mac = ?m, l_vid = vid, l_used = True\<rparr>"
  let ?r = "r\<lparr>l_rows := minsert k ?l (l_rows r), lmap := minsert k ?l (lmap r), n_used := n_used r + 1\<rparr>"
  consider "rc = 0" "r' = ?r" | "rc \<noteq> 0" "r' = r"
    using assms(5) by (simp add: ranged_add_def Let_def split: if_splits)
  then show ?thesis
  proof cases
    case 1
    have wf: "map_wf r" by (rule ranged_okD(1) [OF assms(1)])
    then have "int (mcount l_used (minsert k ?l (lmap r))) = int (mcount l_used (lmap r)) + 1"
      using mcount_minsert_new [of "lmap r" k l_used ?l] n by (simp add: map_wf_def)
    then have "map_wf ?r" using wf n by (simp add: map_wf_def mfind_minsert)
    moreover have "mfind (lmap ?r) = (mfind (lmap r))(k \<mapsto> ?l)"
      using n wf by (simp add: fun_eq_iff mfind_minsert map_wf_def)
    moreover note assms(1-3)
    ultimately have "ranged_ok ?r" unfolding ranged_ok_def by auto
    moreover have "owner ?r = (owner r)(k \<mapsto> vid)"
      using n wf by (simp add: owner_def fun_eq_iff mfind_minsert map_wf_def)
    ultimately show ?thesis using 1 by simp
  qed (use assms(1) in simp)
qed

lemma next_unat:
  assumes "c < (n :: 32 word)"
  shows "unat ((c + 1) mod n) = (unat c + 1) mod unat n" "(c + 1) mod n < n"
proof -
  have "unat c < unat n" "unat n < 2 ^ 32"
    using assms unsigned_less [of n, where 'a = nat] by (simp_all add: word_less_nat_alt)
  then have "unat (c + 1) = unat c + 1" by (simp add: unat_word_ariths)
  then show "unat ((c + 1) mod n) = (unat c + 1) mod unat n" by (simp add: unat_mod)
  then show "(c + 1) mod n < n" using \<open>unat c < unat n\<close> by (simp add: word_less_nat_alt)
qed

lemma ranged_next_ok: "ranged_ok r \<Longrightarrow> ranged_ok (r\<lparr>current := (current r + 1) mod l_size r\<rparr>)"
  using next_unat(2) [of "current r" "l_size r", OF ranged_okD(4)]
  by (auto simp: ranged_ok_def map_wf_def)

lemma owner_current [simp]: "owner (r\<lparr>current := c\<rparr>) = owner r" "check_ip k (r\<lparr>current := c\<rparr>) = check_ip k r"
  by (simp_all add: owner_def check_ip_def fun_eq_iff)

lemma ranged_get_loop_correct:
  assumes "ranged_ok r" "rc0 \<noteq> 0" "ranged_get_loop db vid i rc0 ip0 mac0 r = (rc, ip, mac, r')"
  shows "ranged_ok r' \<and> (if rc = 0 then
      \<exists>k. ip = ip_to_string k \<and> mac = mac_to_string \<lparr>PREFIX = mac_prefix r, SUFFIX = k\<rparr> \<and>
        ip_start r \<le> k \<and> k \<le> ip_end r \<and> owner r k = None \<and> owner r' = (owner r)(k \<mapsto> vid)
    else owner r' = owner r)"
  using assms
proof (induction db vid i rc0 ip0 mac0 r rule: ranged_get_loop.induct)
  case (1 db vid rc ip mac r)
  then show ?case by auto
next
  case (2 db vid i rc0 ip0 mac0 r)
  let ?k = "ip_start r + current r"
  let ?m = "\<lparr>PREFIX = mac_prefix r, SUFFIX = ?k\<rparr>"
  let ?next = "\<lambda>r. r\<lparr>current := (current r + 1) mod l_size r\<rparr>"
  have range: "ip_start r \<le> ?k" "?k \<le> ip_end r"
    by (rule in_range [OF ranged_okD(2-4) [OF 2(3)]])+
  show ?case
  proof (cases "check_ip ?k r")
    case True
    have run: "ranged_get_loop db vid i rc0 ip0 mac0 (?next r) = (rc, ip, mac, r')"
      using 2(5) True by (simp add: Let_def)
    from 2(1) [OF refl refl True ranged_next_ok [OF 2(3)] 2(4) run] show ?thesis
      by (cases "rc = 0") simp_all
  next
    case False
    obtain rc1 r1 where a: "ranged_add db ?k ?m vid r = (rc1, r1)" by force
    have ok: "ranged_ok r1 \<and> (if rc1 = 0 then owner r1 = (owner r)(?k \<mapsto> vid) else r1 = r)"
      by (rule ranged_add_ok [OF 2(3) range False a])
    show ?thesis
    proof (cases "rc1 = 0")
      case True
      then have "(rc, ip, mac, r') = (0, ip_to_string ?k, mac_to_string ?m, r1)"
        using 2(5) False a by (simp add: Let_def)
      moreover have "owner r ?k = None" using False by (simp add: check_owner)
      ultimately show ?thesis using ok True range by auto
    next
      case F: False
      then have r1: "r1 = r" using ok by simp
      have run: "ranged_get_loop db vid i rc1 ip0 mac0 (?next r) = (rc, ip, mac, r')"
        using 2(5) False a F r1 by (simp add: Let_def)
      from 2(2) [OF refl refl False refl a [symmetric] refl F] ranged_next_ok [OF 2(3)] F run r1
      show ?thesis by (cases "rc = 0") simp_all
    qed
  qed
qed

text \<open>With a database that works, \<open>get\<close> fails only when every address of the interval is leased: the
  loop visits them all, wherever it starts.\<close>

lemma ranged_get_loop_fails:
  assumes "ranged_ok r" "rc0 \<noteq> 0" "ranged_get_loop db_fine vid i rc0 ip0 mac0 r = (rc, ip, mac, r')"
    "rc \<noteq> 0" "j < i"
  shows "check_ip (ip_start r + of_nat ((unat (current r) + j) mod unat (l_size r))) r"
  using assms
proof (induction i arbitrary: r j)
  case 0
  then show ?case by simp
next
  case (Suc i)
  let ?r = "r\<lparr>current := (current r + 1) mod l_size r\<rparr>"
  have c: "unat (current r) < unat (l_size r)"
    using ranged_okD(4) [OF Suc.prems(1)] by (simp add: word_less_nat_alt)
  have used: "check_ip (ip_start r + current r) r"
    using Suc.prems(3,4)
    by (auto simp: Let_def ranged_add_def db_fine_def split: if_splits)
  show ?case
  proof (cases j)
    case 0
    then show ?thesis using used c by simp
  next
    case (Suc j')
    have run: "ranged_get_loop db_fine vid i rc0 ip0 mac0 ?r = (rc, ip, mac, r')"
      using Suc.prems(3) used by (simp add: Let_def)
    have "(unat (current ?r) + j') mod unat (l_size ?r) = (unat (current r) + j) mod unat (l_size r)"
      using next_unat(1) [OF ranged_okD(4) [OF Suc.prems(1)]] Suc by (simp add: mod_simps)
    then show ?thesis
      using Suc.IH [OF ranged_next_ok [OF Suc.prems(1)] Suc.prems(2) run Suc.prems(4), of j'] Suc
        Suc.prems(5) by simp
  qed
qed

lemma ranged_get_exhausted:
  assumes "ranged_ok r" "ranged_get db_fine vid r = (rc, ip, mac, r')" "rc \<noteq> 0"
    "ip_start r \<le> k" "k \<le> ip_end r"
  shows "check_ip k r"
proof -
  let ?s = "unat (l_size r)" and ?c = "unat (current r)"
  note ok = ranged_okD [OF assms(1)]
  have c: "?c < ?s" using ok(4) by (simp add: word_less_nat_alt)
  then have "0 < l_size r" by (simp add: word_less_nat_alt)
  note size = size_unat [OF ok(2,3) this]
  define n where "n = unat k - unat (ip_start r)"
  have n: "n < ?s" "unat (ip_start r) + n = unat k"
    using assms(4,5) size unfolding n_def by (simp_all add: word_le_nat_alt)
  define j where "j = (n + ?s - ?c) mod ?s"
  have j: "j < ?s" using c by (simp add: j_def)
  have "(?c + j) mod ?s = (?c + (n + ?s - ?c)) mod ?s" unfolding j_def by (rule mod_add_right_eq)
  also have "\<dots> = n" using c n(1) by simp
  finally have "check_ip (ip_start r + of_nat n) r"
    using ranged_get_loop_fails [OF assms(1) _ assms(2) [unfolded ranged_get_def] assms(3) j] by simp
  moreover have "of_nat (unat (ip_start r) + n) = (of_nat (unat k) :: 32 word)" using n(2) by simp
  then have "ip_start r + of_nat n = k" by simp
  ultimately show ?thesis by simp
qed

subsection \<open>Ranged leases are a lease pool\<close>

lemma ranged_get_spec:
  assumes "ranged_ok r" "ranged_get db vid r = (rc, ip, mac, r')"
  shows "ranged_ok r' \<and> (if rc = 0 then
      \<exists>k. ip = ip_to_string k \<and> mac = mac_to_string \<lparr>PREFIX = mac_prefix r, SUFFIX = k\<rparr> \<and>
        ip_start r \<le> k \<and> k \<le> ip_end r \<and> owner r k = None \<and> owner r' = (owner r)(k \<mapsto> vid)
    else owner r' = owner r)"
  using ranged_get_loop_correct [OF assms(1) _ assms(2) [unfolded ranged_get_def]] by simp

lemma ranged_get_new:
  assumes "ranged_ok r" "ranged_get db vid r = (0, ip, mac, r')"
  shows "\<exists>x. denotes ip x \<and> owner r x = None \<and> owner r' = (owner r)(x \<mapsto> vid)"
proof -
  obtain k where "ip = ip_to_string k" "owner r k = None" "owner r' = (owner r)(k \<mapsto> vid)"
    using ranged_get_spec [OF assms] by auto
  then show ?thesis by (intro exI [of _ k]) simp
qed

lemma ranged_set_spec:
  assumes "ranged_ok r" "ranged_set db j vid ip r = (rc, mac, r')"
  shows "ranged_ok r' \<and> (if rc = 0 then
      \<exists>k. ip_to_number (j_tmp j) (j_ip j) ip = (0, k) \<and> ip_start r \<le> k \<and> k \<le> ip_end r \<and>
        owner r k = None \<and> owner r' = (owner r)(k \<mapsto> vid)
    else owner r' = owner r)"
proof -
  obtain rc0 k where n: "ip_to_number (j_tmp j) (j_ip j) ip = (rc0, k)" by force
  let ?m = "\<lparr>PREFIX = mac_prefix r, SUFFIX = k\<rparr>"
  obtain rc1 r1 where a: "ranged_add db k ?m vid r = (rc1, r1)" by force
  show ?thesis
  proof (cases "rc0 = 0 \<and> ip_start r \<le> k \<and> k \<le> ip_end r \<and> \<not> check_ip k r")
    case True
    then have "ranged_ok r1 \<and> (if rc1 = 0 then owner r1 = (owner r)(k \<mapsto> vid) else r1 = r)"
      using ranged_add_ok [OF assms(1) _ _ _ a] by blast
    moreover have "(rc, r') = (if rc1 \<noteq> 0 then -1 else 0, r1)"
      using assms(2) n a True by (auto simp: ranged_set_def Let_def not_less split: if_splits)
    moreover have "owner r k = None" using True by (simp add: check_owner)
    ultimately show ?thesis using n True assms(1) by (cases "rc1 = 0") auto
  next
    case False
    then have "rc \<noteq> 0 \<and> r' = r"
      using assms(2) n by (auto simp: ranged_set_def Let_def not_less not_le split: if_splits)
    then show ?thesis using assms(1) by simp
  qed
qed

lemma ranged_release_spec:
  assumes "ranged_ok r" "denotes ip k" "owner r k \<noteq> None"
  shows "ranged_ok (ranged_release db_fine j ip r)"
    "owner (ranged_release db_fine j ip r) = (owner r)(k := None)"
proof -
  obtain l where l: "mfind (lmap r) k = Some l" "l_used l"
    using assms(3) by (auto simp: owner_def split: option.splits if_splits)
  have e: "ranged_release db_fine j ip r =
      r\<lparr>l_rows := merase k (l_rows r), n_used := n_used r - 1, lmap := merase k (lmap r)\<rparr>"
    using assms(2) l by (simp add: ranged_release_def ranged_del_def denotes_def db_fine_def)
  have m: "map_ok (lmap r)" using assms(1) by (simp add: ranged_ok_def map_wf_def)
  have c: "int (mcount l_used (merase k (lmap r))) = int (mcount l_used (lmap r)) - 1"
    using mcount_merase [OF m l(1), of l_used] l(2) by simp
  show "owner (ranged_release db_fine j ip r) = (owner r)(k := None)"
    unfolding e by (simp add: owner_def fun_eq_iff mfind_merase)
  show "ranged_ok (ranged_release db_fine j ip r)"
    unfolding e using assms(1) c by (auto simp: ranged_ok_def map_wf_def mfind_merase)
qed

interpretation ranged: lease_pool ranged_ok owner "\<lambda>vid r. Done (ranged_get db_fine vid r)"
  "ranged_set db_fine j" "ranged_release db_fine j" for j
proof
  fix s vid and rc :: int and ip mac s' x
  show "ranged_ok s \<Longrightarrow> \<exists>rc ip mac s'. Done (ranged_get db_fine vid s) = Done (rc, ip, mac, s') \<and> ranged_ok s'"
    using ranged_get_spec [of s db_fine vid] by (cases "ranged_get db_fine vid s") auto
  show "ranged_ok s \<Longrightarrow> Done (ranged_get db_fine vid s) = Done (rc, ip, mac, s') \<Longrightarrow> rc \<noteq> 0 \<Longrightarrow> owner s' = owner s"
    using ranged_get_spec [of s db_fine vid rc ip mac s'] by simp
  show "ranged_ok s \<Longrightarrow> Done (ranged_get db_fine vid s) = Done (0, ip, mac, s') \<Longrightarrow>
      \<exists>x. denotes ip x \<and> owner s x = None \<and> owner s' = (owner s)(x \<mapsto> vid)"
    using ranged_get_new [of s db_fine vid ip mac s'] by simp
  show "ranged_ok s \<Longrightarrow> ranged_set db_fine j vid ip s = (rc, mac, s') \<Longrightarrow> ranged_ok s'"
    using ranged_set_spec [of s db_fine j vid ip rc mac s'] by simp
  show "ranged_ok s \<Longrightarrow> ranged_set db_fine j vid ip s = (rc, mac, s') \<Longrightarrow> rc \<noteq> 0 \<Longrightarrow> owner s' = owner s"
    using ranged_set_spec [of s db_fine j vid ip rc mac s'] by simp
  show "ranged_ok s \<Longrightarrow> ranged_set db_fine j vid ip s = (0, mac, s') \<Longrightarrow> denotes ip x \<Longrightarrow>
      owner s x = None \<and> owner s' = (owner s)(x \<mapsto> vid)"
    using ranged_set_spec [of s db_fine j vid ip 0 mac s'] by (auto simp: denotes_def)
  show "ranged_ok s \<Longrightarrow> denotes ip x \<Longrightarrow> owner s x \<noteq> None \<Longrightarrow>
      ranged_ok (ranged_release db_fine j ip s) \<and> owner (ranged_release db_fine j ip s) = (owner s)(x := None)"
    using ranged_release_spec [of s ip x j] by simp
qed

lemma new_ranged_ok:
  "s \<le> e \<Longrightarrow> e - s + 1 \<noteq> 0 \<Longrightarrow> ranged_ok (new_ranged oid p s e)"
  by (simp add: ranged_ok_def map_wf_def new_ranged_def word_gt_0)

end
