(* ===== verification/FixedLeases.thy ===== *)
theory FixedLeases
  imports Leases
begin

text \<open>
  Fixed networks (\<open>FixedLeases\<close>, src/vnm/FixedLeases.cc): an explicit list of addresses, each used or
  free, handed out from an iterator into the map.  The code marks a lease before it writes the row and
  does not undo the mark when the write fails; removing the lease the iterator stands on leaves the
  iterator invalid, and using it is \<open>Segv\<close>.
\<close>

record fixed = leases +
  f_current :: "32 word iter"

definition fixed_add :: "db_oracle \<Rightarrow> junk \<Rightarrow> mac \<Rightarrow> string \<Rightarrow> string \<Rightarrow> int \<Rightarrow> bool \<Rightarrow> fixed \<Rightarrow> int \<times> fixed" where
  "fixed_add db j jmac ip mac vid used f = (let (rc, k) = ip_to_number (j_tmp j) (j_ip j) ip in
     if rc \<noteq> 0 then (-1, f)
     else if mfind (lmap f) k \<noteq> None then (-1, f)
     else let (rc, m) = (if mac = [] then (0, \<lparr>PREFIX = mac_prefix f, SUFFIX = k\<rparr>)
                         else mac_to_number (j_tmp j) jmac mac)
     in if rc \<noteq> 0 then (-1, f)
     else let l = \<lparr>l_ip = k, l_mac = m, l_vid = vid, l_used = used\<rparr> in
       if \<not> escape_ok db k then (-1, f)
       else if exec_rc db k \<noteq> 0 then (-1, f)
       else (0, f\<lparr>l_rows := minsert k l (l_rows f), lmap := minsert k l (lmap f),
                  n_used := n_used f + (if used then 1 else 0)\<rparr>))"

definition fixed_remove :: "db_oracle \<Rightarrow> junk \<Rightarrow> string \<Rightarrow> fixed \<Rightarrow> int \<times> fixed" where
  "fixed_remove db j ip f = (let (rc, k) = ip_to_number (j_tmp j) (j_ip j) ip in
     if rc \<noteq> 0 then (-1, f)
     else (case mfind (lmap f) k of
        None \<Rightarrow> (-1, f)
      | Some l \<Rightarrow> if l_used l then (-1, f)
          else if exec_rc db k \<noteq> 0 then (-1, f)
          else (0, f\<lparr>l_rows := merase k (l_rows f), lmap := merase k (lmap f),
                     f_current := iter_erase k (f_current f)\<rparr>)))"

text \<open>\<open>update_lease\<close>: the counter changes before the UPDATE is sent.\<close>

definition update_lease :: "db_oracle \<Rightarrow> lease \<Rightarrow> fixed \<Rightarrow> int \<times> fixed" where
  "update_lease db l f = (if \<not> escape_ok db (l_ip l) then (-1, f) else
     let f = f\<lparr>n_used := n_used f + (if l_used l then 1 else -1)\<rparr>;
         rc = exec_rc db (l_ip l)
     in (rc, if rc = 0 then f\<lparr>l_rows := mset_at (l_ip l) l (l_rows f)\<rparr> else f))"

definition fixed_unset :: "db_oracle \<Rightarrow> junk \<Rightarrow> string \<Rightarrow> fixed \<Rightarrow> int \<times> fixed" where
  "fixed_unset db j ip f = (let (rc, k) = ip_to_number (j_tmp j) (j_ip j) ip in
     if rc \<noteq> 0 then (0, f)
     else (case mfind (lmap f) k of
        None \<Rightarrow> (0, f)
      | Some l \<Rightarrow> let l' = l\<lparr>l_used := False, l_vid := -1\<rparr>
          in update_lease db l' (f\<lparr>lmap := mset_at k l' (lmap f)\<rparr>)))"

definition fixed_release :: "db_oracle \<Rightarrow> junk \<Rightarrow> string \<Rightarrow> fixed \<Rightarrow> fixed" where
  "fixed_release db j ip f = snd (fixed_unset db j ip f)"

definition iter_next :: "fixed \<Rightarrow> 32 word iter \<Rightarrow> 32 word iter" where
  "iter_next f it = (case mnext (lmap f) it of None \<Rightarrow> It_dangling | Some i \<Rightarrow> i)"

fun fixed_get_loop ::
  "db_oracle \<Rightarrow> int \<Rightarrow> nat \<Rightarrow> int \<Rightarrow> string \<Rightarrow> string \<Rightarrow> fixed \<Rightarrow> (int \<times> string \<times> string \<times> fixed) res" where
  "fixed_get_loop db vid 0 rc ip mac f = Done (rc, ip, mac, f)"
| "fixed_get_loop db vid (Suc i) rc ip mac f =
     (let it = (if f_current f = It_end then mbegin (lmap f) else f_current f)
      in case it of
         It_at k \<Rightarrow> (case mfind (lmap f) k of
            None \<Rightarrow> Segv
          | Some l \<Rightarrow>
              if l_used l then fixed_get_loop db vid i rc ip mac (f\<lparr>f_current := iter_next f it\<rparr>)
              else let l' = l\<lparr>l_used := True, l_vid := vid\<rparr>;
                       f = f\<lparr>lmap := mset_at k l' (lmap f)\<rparr>;
                       (rc, f) = update_lease db l' f
                   in Done (rc, ip_to_string (l_ip l'), mac_to_string (l_mac l'),
                            f\<lparr>f_current := iter_next f it\<rparr>))
       | _ \<Rightarrow> Segv)"

definition fixed_get :: "db_oracle \<Rightarrow> int \<Rightarrow> fixed \<Rightarrow> (int \<times> string \<times> string \<times> fixed) res" where
  "fixed_get db vid f = (if lmap f = [] then Done (-1, '''', '''', f)
     else fixed_get_loop db vid (unat (l_size f)) (-1) '''' '''' f)"

definition fixed_set :: "db_oracle \<Rightarrow> junk \<Rightarrow> int \<Rightarrow> string \<Rightarrow> fixed \<Rightarrow> int \<times> string \<times> fixed" where
  "fixed_set db j vid ip f = (let (rc, k) = ip_to_number (j_tmp j) (j_ip j) ip in
     if rc \<noteq> 0 then (-1, '''', f)
     else (case mfind (lmap f) k of
        None \<Rightarrow> (-1, '''', f)
      | Some l \<Rightarrow> if l_used l then (-1, '''', f)
          else let l' = l\<lparr>l_used := True, l_vid := vid\<rparr>;
                   (rc, f) = update_lease db l' (f\<lparr>lmap := mset_at k l' (lmap f)\<rparr>)
               in (rc, mac_to_string (l_mac l'), f)))"

text \<open>\<open>add_leases\<close> and \<open>remove_leases\<close> on the attributes of a LEASES template.\<close>

definition fixed_add_leases ::
  "db_oracle \<Rightarrow> junk \<Rightarrow> mac \<Rightarrow> (string \<rightharpoonup> string) option list \<Rightarrow> fixed \<Rightarrow> int \<times> fixed" where
  "fixed_add_leases db j jmac vs f = (case vs of
     Some attr # _ \<Rightarrow>
       let ip = (case attr ''IP'' of None \<Rightarrow> '''' | Some x \<Rightarrow> x);
           mac = (case attr ''MAC'' of None \<Rightarrow> '''' | Some x \<Rightarrow> x);
           (rc, f) = fixed_add db j jmac ip mac (-1) False f
       in (rc, if rc = 0 then f\<lparr>l_size := of_nat (length (lmap f))\<rparr> else f)
   | _ \<Rightarrow> (-1, f))"

definition fixed_remove_leases ::
  "db_oracle \<Rightarrow> junk \<Rightarrow> (string \<rightharpoonup> string) option list \<Rightarrow> fixed \<Rightarrow> int \<times> fixed" where
  "fixed_remove_leases db j vs f = (case vs of
     Some attr # _ \<Rightarrow>
       let ip = (case attr ''IP'' of None \<Rightarrow> '''' | Some x \<Rightarrow> x);
           (rc, f) = fixed_remove db j ip f
       in (rc, if rc = 0 then f\<lparr>l_size := of_nat (length (lmap f))\<rparr> else f)
   | _ \<Rightarrow> (-1, f))"

text \<open>The constructor: the iterator is \<open>begin()\<close> of the empty map, that is \<open>end()\<close>.\<close>

definition new_fixed ::
  "db_oracle \<Rightarrow> junk \<Rightarrow> mac \<Rightarrow> int \<Rightarrow> 32 word \<Rightarrow> (string \<rightharpoonup> string) option list \<Rightarrow> fixed" where
  "new_fixed db j jmac oid prefix vs = (
     let f0 = \<lparr>l_oid = oid, l_size = 0, n_used = 0, mac_prefix = prefix, lmap = [], l_rows = [],
               f_current = It_end\<rparr>;
         f1 = fold (\<lambda>a f. case a of None \<Rightarrow> f | Some attr \<Rightarrow>
           snd (fixed_add db j jmac (case attr ''IP'' of None \<Rightarrow> '''' | Some x \<Rightarrow> x)
             (case attr ''MAC'' of None \<Rightarrow> '''' | Some x \<Rightarrow> x) (-1) False f)) vs f0
     in f1\<lparr>l_size := of_nat (length (lmap f1))\<rparr>)"

subsection \<open>Invariant\<close>

text \<open>The size is the number of leases, and the iterator is \<open>end()\<close> or stands on a lease.\<close>

definition iter_ok :: "(32 word, lease) stdmap \<Rightarrow> 32 word iter \<Rightarrow> bool" where
  "iter_ok m it \<longleftrightarrow> (case it of It_end \<Rightarrow> True | It_at k \<Rightarrow> mfind m k \<noteq> None | It_dangling \<Rightarrow> False)"

definition fixed_ok :: "fixed \<Rightarrow> bool" where
  "fixed_ok f \<longleftrightarrow> map_wf f \<and> unat (l_size f) = length (lmap f) \<and> iter_ok (lmap f) (f_current f)"

lemma iter_ok_mbegin: "iter_ok m (mbegin m)" "m \<noteq> [] \<Longrightarrow> \<exists>k. mbegin m = It_at k"
  by (auto simp: iter_ok_def mbegin_def split: list.splits)

lemma iter_ok_drop: "iter_ok m (mbegin (dropWhile P m))"
proof (cases "dropWhile P m")
  case Nil
  then show ?thesis by (simp only: mbegin_def list.case iter_ok_def iter.case)
next
  case (Cons a as)
  then have "a \<in> set m" by (metis list.set_intros(1) set_dropWhileD)
  then have "fst a \<in> fst ` set m" by simp
  then have "mfind m (fst a) \<noteq> None" by (simp add: mfind_None_iff)
  then show ?thesis
    unfolding Cons mbegin_def iter_ok_def by (cases a) simp
qed

lemma iter_ok_next: "iter_ok (lmap f) (iter_next f (It_at k))"
  by (simp add: iter_next_def iter_ok_drop)

lemma iter_ok_mset_at [simp]: "iter_ok (mset_at k l m) it = iter_ok m it"
  by (auto simp: iter_ok_def mfind_mset_at split: iter.splits)

text \<open>Marking a lease, with the database working.\<close>

definition marked :: "32 word \<Rightarrow> lease \<Rightarrow> fixed \<Rightarrow> fixed" where
  "marked k l f = f\<lparr>lmap := mset_at k l (lmap f), n_used := n_used f + (if l_used l then 1 else -1),
     l_rows := mset_at k l (l_rows f)\<rparr>"

lemma update_lease_fine:
  "l_ip l = k \<Longrightarrow> update_lease db_fine l (f\<lparr>lmap := mset_at k l (lmap f)\<rparr>) = (0, marked k l f)"
  by (simp add: update_lease_def db_fine_def marked_def Let_def)

lemma marked_ok:
  assumes "fixed_ok f" "mfind (lmap f) k = Some u" "l_used l \<noteq> l_used u" "l_ip l = k"
  shows "fixed_ok (marked k l f)"
proof -
  have m: "map_ok (lmap f)" using assms(1) by (simp add: fixed_ok_def map_wf_def)
  have "mcount l_used (mset_at k l (lmap f)) + (if l_used u then 1 else 0) =
      mcount l_used (lmap f) + (if l_used l then 1 else 0)"
    by (rule mcount_mset_at [OF m assms(2)])
  then have "int (mcount l_used (mset_at k l (lmap f))) =
      int (mcount l_used (lmap f)) + (if l_used l then 1 else -1)"
    using assms(3) by (cases "l_used l"; cases "l_used u") simp_all
  then show ?thesis
    using assms(1,4) by (auto simp: fixed_ok_def map_wf_def marked_def mfind_mset_at)
qed

lemma owner_marked:
  assumes "mfind (lmap f) k = Some u"
  shows "owner (marked k l f) = (owner f)(k := if l_used l then Some (l_vid l) else None)"
  using assms by (simp add: owner_def marked_def fun_eq_iff mfind_mset_at)

subsection \<open>The search for a free lease\<close>

text \<open>The iterator as a position in the map; \<open>length m\<close> is \<open>end()\<close>.\<close>

definition it_of :: "(32 word, lease) stdmap \<Rightarrow> nat \<Rightarrow> 32 word iter" where
  "it_of m i = (if i < length m then It_at (fst (m ! i)) else It_end)"

lemma map_ok_nth: "map_ok m \<Longrightarrow> i < j \<Longrightarrow> j < length m \<Longrightarrow> fst (m ! i) < fst (m ! j)"
  unfolding map_ok_def by (auto simp: sorted_wrt_iff_nth_less)

lemma mfind_nth: "map_ok m \<Longrightarrow> i < length m \<Longrightarrow> mfind m (fst (m ! i)) = Some (snd (m ! i))"
  by (rule map_of_is_SomeI [OF map_ok_distinct]) simp_all

lemma drop_le_nth:
  assumes "map_ok m" "i < length m"
  shows "dropWhile (\<lambda>(k', _). k' \<le> fst (m ! i)) m = drop (Suc i) m"
proof -
  let ?P = "\<lambda>(k', _). k' \<le> fst (m ! i)"
  have le: "?P x" if x: "x \<in> set (take (Suc i) m)" for x
  proof -
    obtain j where "j < Suc i" "x = m ! j" using x assms(2) by (auto simp: in_set_conv_nth)
    then show ?thesis using map_ok_nth [OF assms(1), of j i] assms(2)
      by (cases "j = i") (auto simp: case_prod_unfold less_Suc_eq)
  qed
  have "dropWhile ?P (drop (Suc i) m) = drop (Suc i) m"
  proof (cases "Suc i < length m")
    case True
    then have "hd (drop (Suc i) m) = m ! Suc i" by (rule hd_drop_conv_nth)
    then show ?thesis using map_ok_nth [OF assms(1), of i "Suc i"] True
      by (simp add: dropWhile_eq_self_iff case_prod_unfold not_le)
  qed simp
  then have "dropWhile ?P (take (Suc i) m @ drop (Suc i) m) = drop (Suc i) m"
    using dropWhile_append2 [of "take (Suc i) m" ?P] le by metis
  then show ?thesis by simp
qed

lemma iter_next_it_of:
  assumes "map_ok (lmap f)" "i < length (lmap f)"
  shows "iter_next f (It_at (fst (lmap f ! i))) = it_of (lmap f) (Suc i)"
proof -
  have "mbegin (drop (Suc i) (lmap f)) = it_of (lmap f) (Suc i)"
  proof (cases "Suc i < length (lmap f)")
    case True
    then have "drop (Suc i) (lmap f) = lmap f ! Suc i # drop (Suc (Suc i)) (lmap f)"
      by (rule Cons_nth_drop_Suc [symmetric])
    then show ?thesis using True by (simp add: mbegin_def it_of_def case_prod_unfold)
  qed (simp add: mbegin_def it_of_def)
  then show ?thesis using drop_le_nth [OF assms] by (simp add: iter_next_def)
qed

lemma iter_ok_it_of:
  assumes "iter_ok m it" "map_ok m"
  obtains i where "i \<le> length m" "it = it_of m i"
proof (cases it)
  case It_end
  then show ?thesis using that [of "length m"] by (simp add: it_of_def)
next
  case (It_at k)
  then have "k \<in> fst ` set m" using assms(1) by (simp add: iter_ok_def mfind_None_iff)
  then obtain i where "i < length m" "k = fst (m ! i)" by (auto simp: in_set_conv_nth)
  then show ?thesis using that [of i] It_at by (simp add: it_of_def)
next
  case It_dangling
  then show ?thesis using assms(1) by (simp add: iter_ok_def)
qed

text \<open>One round of the loop, from a valid iterator: it looks at the lease at that position.\<close>

lemma fixed_round:
  assumes "fixed_ok f" "lmap f \<noteq> []" "f_current f = it_of (lmap f) i" "i \<le> length (lmap f)"
    "p = i mod length (lmap f)" "lmap f ! p = (k, l)"
  shows "fixed_get_loop db vid (Suc n) rc ip mac f =
    (if l_used l then fixed_get_loop db vid n rc ip mac (f\<lparr>f_current := it_of (lmap f) (Suc p)\<rparr>)
     else let l' = l\<lparr>l_used := True, l_vid := vid\<rparr>;
              (rc, f') = update_lease db l' (f\<lparr>lmap := mset_at k l' (lmap f)\<rparr>)
          in Done (rc, ip_to_string k, mac_to_string (l_mac l), f'\<lparr>f_current := iter_next f' (It_at k)\<rparr>))"
proof -
  have m: "map_ok (lmap f)" and kl: "\<forall>k l. mfind (lmap f) k = Some l \<longrightarrow> l_ip l = k"
    using assms(1) by (simp_all add: fixed_ok_def map_wf_def)
  have p: "p < length (lmap f)" using assms(2,5) by simp
  have fnd: "mfind (lmap f) k = Some l" using mfind_nth [OF m p] assms(6) by simp
  have ip: "l_ip l = k" using kl fnd by blast
  have it: "(if f_current f = It_end then mbegin (lmap f) else f_current f) = It_at k"
  proof (cases "i < length (lmap f)")
    case True
    then show ?thesis using assms(3,5,6) by (simp add: it_of_def)
  next
    case False
    then have "p = 0" using assms(4,5) by simp
    then show ?thesis using assms(2,3,6) False by (cases "lmap f") (simp_all add: it_of_def mbegin_def)
  qed
  have nx: "iter_next f (It_at k) = it_of (lmap f) (Suc p)"
    using iter_next_it_of [OF m p] assms(6) by simp
  show ?thesis unfolding fixed_get_loop.simps Let_def it using fnd ip nx by (simp add: Let_def)
qed

text \<open>\<open>get\<close> returns, hands out a free lease when there is one, and fails otherwise.\<close>

lemma fixed_get_loop_correct:
  assumes "fixed_ok f" "lmap f \<noteq> []" "f_current f = it_of (lmap f) i" "i \<le> length (lmap f)" "rc0 \<noteq> 0"
  shows "\<exists>rc ip mac f'. fixed_get_loop db_fine vid n rc0 ip0 mac0 f = Done (rc, ip, mac, f') \<and> fixed_ok f' \<and>
    (if rc = 0 then \<exists>k l. mfind (lmap f) k = Some l \<and> ip = ip_to_string k \<and> mac = mac_to_string (l_mac l) \<and>
        owner f k = None \<and> owner f' = (owner f)(k \<mapsto> vid)
     else owner f' = owner f \<and> (\<forall>j < n. l_used (snd (lmap f ! ((i + j) mod length (lmap f))))))"
  using assms
proof (induction n arbitrary: f i)
  case 0
  then show ?case by simp
next
  case (Suc n)
  let ?N = "length (lmap f)"
  define p where "p = i mod ?N"
  obtain k l where kl: "lmap f ! p = (k, l)" by force
  have m: "map_ok (lmap f)" using Suc.prems(1) by (simp add: fixed_ok_def map_wf_def)
  have p: "p < ?N" using Suc.prems(2) by (simp add: p_def)
  have fnd: "mfind (lmap f) k = Some l" using mfind_nth [OF m p] kl by simp
  have ip: "l_ip l = k" using Suc.prems(1) fnd by (simp add: fixed_ok_def map_wf_def)
  note round = fixed_round [OF Suc.prems(1-4) p_def kl]
  show ?case
  proof (cases "l_used l")
    case True
    let ?f = "f\<lparr>f_current := it_of (lmap f) (Suc p)\<rparr>"
    have ok: "fixed_ok ?f"
      using Suc.prems(1) p m mfind_nth [OF m, of "Suc p"]
      by (simp add: fixed_ok_def map_wf_def iter_ok_def it_of_def)
    have j: "l_used (snd (lmap f ! ((i + j) mod ?N)))"
      if "\<forall>j < n. l_used (snd (lmap f ! ((Suc p + j) mod ?N)))" "j < Suc n" for j
    proof (cases j)
      case 0
      then show ?thesis using kl True by (simp add: p_def)
    next
      case (Suc j')
      then have "Suc p + j' = p + j" by simp
      moreover have "(p + j) mod ?N = (i + j) mod ?N" unfolding p_def by (rule mod_add_left_eq)
      ultimately have "(Suc p + j') mod ?N = (i + j) mod ?N" by (simp only:)
      then show ?thesis using that Suc by (metis Suc_less_eq)
    qed
    have own: "owner ?f = owner f" and lm: "lmap ?f = lmap f" by (simp_all add: owner_def fun_eq_iff)
    from Suc.IH [OF ok _ _ _ Suc.prems(5), of "Suc p"] Suc.prems(2) p
    obtain rc ip mac f' where r: "fixed_get_loop db_fine vid n rc0 ip0 mac0 ?f = Done (rc, ip, mac, f')"
      "fixed_ok f'" "if rc = 0 then \<exists>k l. mfind (lmap f) k = Some l \<and> ip = ip_to_string k \<and>
         mac = mac_to_string (l_mac l) \<and> owner f k = None \<and> owner f' = (owner f)(k \<mapsto> vid)
       else owner f' = owner f \<and> (\<forall>j < n. l_used (snd (lmap f ! ((Suc p + j) mod ?N))))"
      unfolding own lm by auto
    show ?thesis
      unfolding round using True r j by (intro exI [of _ rc] exI [of _ ip] exI [of _ mac] exI [of _ f']) auto
  next
    case False
    let ?l = "l\<lparr>l_used := True, l_vid := vid\<rparr>"
    let ?f = "(marked k ?l f)\<lparr>f_current := iter_next (marked k ?l f) (It_at k)\<rparr>"
    have "fixed_ok (marked k ?l f)" by (rule marked_ok [OF Suc.prems(1) fnd]) (use False ip in simp_all)
    then have ok: "fixed_ok ?f" using iter_ok_next [of "marked k ?l f" k] by (simp add: fixed_ok_def map_wf_def)
    have own: "owner ?f = (owner f)(k \<mapsto> vid)"
      using owner_marked [OF fnd, of ?l] by (simp add: owner_def fun_eq_iff)
    have "owner f k = None" using fnd False by (simp add: owner_def)
    then have res: "\<exists>k l. mfind (lmap f) k = Some l \<and> ip_to_string k' = ip_to_string k \<and>
        mac_to_string (l_mac l') = mac_to_string (l_mac l) \<and> owner f k = None \<and>
        owner ?f = (owner f)(k \<mapsto> vid)" if "k' = k" "l' = l" for k' l'
      using fnd own that by blast
    have "fixed_get_loop db_fine vid (Suc n) rc0 ip0 mac0 f =
        Done (0, ip_to_string k, mac_to_string (l_mac l), ?f)"
      unfolding round using False update_lease_fine [of ?l k f] ip by (simp add: Let_def)
    with ok res [OF refl refl] show ?thesis
      by (intro exI [of _ 0] exI [of _ "ip_to_string k"] exI [of _ "mac_to_string (l_mac l)"]
          exI [of _ ?f]) (simp del: fixed_get_loop.simps)
  qed
qed

lemma fixed_get_spec:
  assumes "fixed_ok f"
  obtains rc ip mac f' where "fixed_get db_fine vid f = Done (rc, ip, mac, f')" "fixed_ok f'"
    "rc = 0 \<Longrightarrow> \<exists>k l. mfind (lmap f) k = Some l \<and> ip = ip_to_string k \<and> mac = mac_to_string (l_mac l) \<and>
        owner f k = None \<and> owner f' = (owner f)(k \<mapsto> vid)"
    "rc \<noteq> 0 \<Longrightarrow> owner f' = owner f \<and> (\<forall>k l. mfind (lmap f) k = Some l \<longrightarrow> l_used l)"
proof (cases "lmap f = []")
  case True
  then show thesis using that [of "-1" "[]" "[]" f] assms by (simp add: fixed_get_def)
next
  case False
  have m: "map_ok (lmap f)" and it: "iter_ok (lmap f) (f_current f)"
    and sz: "unat (l_size f) = length (lmap f)"
    using assms by (simp_all add: fixed_ok_def map_wf_def)
  obtain i where i: "i \<le> length (lmap f)" "f_current f = it_of (lmap f) i"
    using iter_ok_it_of [OF it m] by blast
  obtain rc ip mac f' where r: "fixed_get db_fine vid f = Done (rc, ip, mac, f')" "fixed_ok f'"
    "if rc = 0 then \<exists>k l. mfind (lmap f) k = Some l \<and> ip = ip_to_string k \<and> mac = mac_to_string (l_mac l) \<and>
        owner f k = None \<and> owner f' = (owner f)(k \<mapsto> vid)
     else owner f' = owner f \<and> (\<forall>j < length (lmap f). l_used (snd (lmap f ! ((i + j) mod length (lmap f)))))"
    using fixed_get_loop_correct [OF assms False i(2,1), of "-1" vid "length (lmap f)" "[]" "[]"] False
    by (auto simp: fixed_get_def sz)
  have all: "l_used l" if u: "\<forall>j < length (lmap f). l_used (snd (lmap f ! ((i + j) mod length (lmap f))))"
    and fnd: "mfind (lmap f) k = Some l" for k l
  proof -
    let ?N = "length (lmap f)"
    have "(k, l) \<in> set (lmap f)" using fnd by (rule map_of_SomeD)
    then obtain q where q: "q < ?N" "lmap f ! q = (k, l)" by (auto simp: in_set_conv_nth)
    define j where "j = (q + ?N - i) mod ?N"
    have "(i + j) mod ?N = (i + (q + ?N - i)) mod ?N" unfolding j_def by (rule mod_add_right_eq)
    also have "\<dots> = q" using i(1) q(1) by simp
    finally have "(i + j) mod ?N = q" .
    moreover have "j < ?N" unfolding j_def by (rule mod_less_divisor) (use False in simp)
    ultimately show ?thesis using u q(2) by (metis snd_conv)
  qed
  show thesis by (rule that [OF r(1,2)]) (use r(3) all in \<open>auto split: if_splits\<close>)
qed

subsection \<open>Fixed leases are a lease pool\<close>

lemma fixed_set_spec:
  assumes "fixed_ok f" "fixed_set db_fine j vid ip f = (rc, mac, f')"
  shows "fixed_ok f' \<and> (if rc = 0 then
      \<exists>k. ip_to_number (j_tmp j) (j_ip j) ip = (0, k) \<and> owner f k = None \<and> owner f' = (owner f)(k \<mapsto> vid)
    else owner f' = owner f)"
proof -
  obtain rc0 k where n: "ip_to_number (j_tmp j) (j_ip j) ip = (rc0, k)" by force
  show ?thesis
  proof (cases "rc0 = 0 \<and> mfind (lmap f) k \<noteq> None \<and> owner f k = None")
    case True
    then obtain l where l: "mfind (lmap f) k = Some l" "\<not> l_used l"
      by (auto simp: owner_def split: if_splits)
    let ?l = "l\<lparr>l_used := True, l_vid := vid\<rparr>"
    have ip: "l_ip l = k" using assms(1) l(1) by (simp add: fixed_ok_def map_wf_def)
    have "(rc, f') = (0, marked k ?l f)"
      using assms(2) n True l ip update_lease_fine [of ?l k f] by (simp add: fixed_set_def Let_def)
    moreover have "fixed_ok (marked k ?l f)" by (rule marked_ok [OF assms(1) l(1)]) (use l ip in simp_all)
    moreover have "owner (marked k ?l f) = (owner f)(k \<mapsto> vid)"
      using owner_marked [OF l(1), of ?l] by simp
    ultimately show ?thesis using n True by simp
  next
    case False
    then have "rc \<noteq> 0 \<and> f' = f"
      using assms(2) n by (auto simp: fixed_set_def Let_def owner_def split: option.splits if_splits)
    then show ?thesis using assms(1) by simp
  qed
qed

lemma fixed_release_spec:
  assumes "fixed_ok f" "denotes ip k" "owner f k \<noteq> None"
  shows "fixed_ok (fixed_release db_fine j ip f)" "owner (fixed_release db_fine j ip f) = (owner f)(k := None)"
proof -
  obtain l where l: "mfind (lmap f) k = Some l" "l_used l"
    using assms(3) by (auto simp: owner_def split: option.splits if_splits)
  let ?l = "l\<lparr>l_used := False, l_vid := -1\<rparr>"
  have ip: "l_ip l = k" using assms(1) l(1) by (simp add: fixed_ok_def map_wf_def)
  have e: "fixed_release db_fine j ip f = marked k ?l f"
    using assms(2) l update_lease_fine [of ?l k f] ip
    by (simp add: fixed_release_def fixed_unset_def denotes_def Let_def)
  show "fixed_ok (fixed_release db_fine j ip f)"
    unfolding e by (rule marked_ok [OF assms(1) l(1)]) (use l ip in simp_all)
  show "owner (fixed_release db_fine j ip f) = (owner f)(k := None)"
    unfolding e using owner_marked [OF l(1), of ?l] by simp
qed

interpretation fixed: lease_pool fixed_ok owner "fixed_get db_fine" "fixed_set db_fine j" "fixed_release db_fine j" for j
proof
  fix s vid and rc :: int and ip mac s' x
  show "fixed_ok s \<Longrightarrow> \<exists>rc ip mac s'. fixed_get db_fine vid s = Done (rc, ip, mac, s') \<and> fixed_ok s'"
    by (erule fixed_get_spec) blast
  show "owner s' = owner s" if "fixed_ok s" "fixed_get db_fine vid s = Done (rc, ip, mac, s')" "rc \<noteq> 0"
    by (rule fixed_get_spec [OF that(1), of vid]) (use that(2,3) in auto)
  show "\<exists>x. denotes ip x \<and> owner s x = None \<and> owner s' = (owner s)(x \<mapsto> vid)"
    if "fixed_ok s" "fixed_get db_fine vid s = Done (0, ip, mac, s')"
    by (rule fixed_get_spec [OF that(1), of vid]) (use that(2) denotes_ip_to_string in \<open>simp, blast\<close>)
  show "fixed_ok s \<Longrightarrow> fixed_set db_fine j vid ip s = (rc, mac, s') \<Longrightarrow> fixed_ok s'"
    using fixed_set_spec [of s j vid ip rc mac s'] by simp
  show "fixed_ok s \<Longrightarrow> fixed_set db_fine j vid ip s = (rc, mac, s') \<Longrightarrow> rc \<noteq> 0 \<Longrightarrow> owner s' = owner s"
    using fixed_set_spec [of s j vid ip rc mac s'] by simp
  show "fixed_ok s \<Longrightarrow> fixed_set db_fine j vid ip s = (0, mac, s') \<Longrightarrow> denotes ip x \<Longrightarrow>
      owner s x = None \<and> owner s' = (owner s)(x \<mapsto> vid)"
    using fixed_set_spec [of s j vid ip 0 mac s'] by (auto simp: denotes_def)
  show "fixed_ok s \<Longrightarrow> denotes ip x \<Longrightarrow> owner s x \<noteq> None \<Longrightarrow>
      fixed_ok (fixed_release db_fine j ip s) \<and> owner (fixed_release db_fine j ip s) = (owner s)(x := None)"
    using fixed_release_spec [of s ip x j] by simp
qed

end
