(* ===== verification/VirtualMachine.thy ===== *)
theory VirtualMachine
  imports Prelude
begin

text \<open>
  The virtual machine object: \<open>VirtualMachine\<close> (include/VirtualMachine.h, src/vm/VirtualMachine.cc),
  its history records (\<open>History\<close>) and its backup records (\<open>Backup\<close>, \<open>BackupDisk\<close>).

  \<open>history_records\<close> holds the records newest first: in the source \<open>history\<close> points to the last
  element of the vector and \<open>previous_history\<close> to the one before it, and the constructor, \<open>select\<close>,
  \<open>add_history\<close>, \<open>cp_history\<close> and \<open>cp_previous_history\<close> keep it so.  Dereferencing one of the two
  pointers when it is null is \<open>Segv\<close>.  \<open>backup\<close>, \<open>backupdisk\<close> are pointers that the constructor does
  not initialise: \<open>None\<close> stands for a pointer that no \<open>add_backup\<close> has set.
\<close>

datatype VmState = INIT | PENDING | HOLD | ACTIVE | STOPPED | SUSPENDED | DONE | FAILED

datatype LcmState = LCM_INIT | PROLOG | BOOT | RUNNING | MIGRATE | SAVE_STOP | SAVE_SUSPEND
  | SAVE_MIGRATE | PROLOG_MIGRATE | PROLOG_RESUME | EPILOG_STOP | EPILOG | SHUTDOWN | CANCEL
  | FAILURE | CLEANUP | UNKNOWN | OFF | OFF_BACKUP | PROLOG_BACKUP | OFF_RECOVER | PROLOG_RECOVER
  | DELETEBAK | DELETE_BACKUP_FAIL | DELETE_RECOVER_FAIL | OFF_BACKUPDISK | PROLOG_BACKUPDISK
  | ON | DELETE_BACKUP_COMPRESS | PROLOG_RECOVER_DECOMPRESS | RECOVER_DECOMPRESS_FAIL

datatype MigrationReason = R_NONE | R_ERROR | R_STOP_RESUME | R_USER | R_CANCEL

datatype BkState = BK_INIT | BK_START_BACKUP | BK_BACKUP_SUCESS | BK_START_RESUME
  | BK_RESUME_SUCESS | BK_BACKUP_FAIL | BK_RESUME_FAIL | BK_BACKUP_DELETE

datatype DkState = DK_INIT | DK_START_BACKUPDISK | DK_BACKUPDISK_SUCESS | DK_BACKUPDISK_FAIL

record history =
  seq :: int
  hid :: int
  hostname :: string
  vm_dir :: string
  vmm_mad_name :: string
  vnm_mad_name :: string
  tm_mad_name :: string
  stime :: int
  etime :: int
  prolog_stime :: int
  prolog_etime :: int
  running_stime :: int
  running_etime :: int
  epilog_stime :: int
  epilog_etime :: int
  reason :: MigrationReason

record backup =
  bk_oid :: int
  bk_vid :: int
  bk_dir :: string
  bk_state :: BkState
  bk_stime :: int
  bk_etime :: int

record backupdisk =
  dk_oid :: int
  dk_vid :: int
  dk_name :: string
  dk_dir :: string
  dk_state :: DkState

text \<open>A vector attribute of a template, name to value; \<open>vector_value\<close> of a missing name is empty.\<close>

type_synonym vattr = "string \<rightharpoonup> string"

definition vector_value :: "vattr \<Rightarrow> string \<Rightarrow> string" where
  "vector_value a name = (case a name of None \<Rightarrow> '''' | Some x \<Rightarrow> x)"

text \<open>The template attributes the daemon's core reads are fields: \<open>req_memory\<close> is the integer of
  MEMORY (0 when it is missing), \<open>req_cpu\<close> the value \<open>(int)(fcpu * 100)\<close> read from CPU, \<open>None\<close> when
  CPU is missing or empty.  The DISK and NIC attributes are listed in the template's order,
  \<open>None\<close> for one that is not a vector attribute; \<open>attrs\<close> are the other single attributes, \<open>raw_data\<close> the
  value DATA of RAW, \<open>None\<close> without that attribute; \<open>contexts\<close> are the CONTEXT attributes, each the names
  and values of a vector attribute in the order of its names.\<close>

record vm =
  vm_oid :: int
  vm_uid :: int
  state :: VmState
  lcm_state :: LcmState
  last_poll :: int
  exit_time :: int
  deploy_id :: string
  mon_memory :: int
  mon_cpu :: int
  mon_net_tx :: int
  mon_net_rx :: int
  history_records :: "history list"
  backup :: "backup option"
  backupdisk :: "backupdisk option"
  bakbid :: int
  updatebkstateoid :: int
  dkbid :: int
  lcmstate :: LcmState
  recover_dir :: string
  req_memory :: int
  req_cpu :: "int option"
  disks :: "vattr option list"
  nics :: "vattr option list"
  attrs :: "string \<rightharpoonup> string"
  raw_data :: "string option"
  contexts :: "(string \<times> string) list option list"

text \<open>What \<open>to_xml_extended\<close> writes to the row of the VM: the object without its older history records
  and without the members that live in memory only.\<close>

definition to_xml :: "vm \<Rightarrow> vm" where
  "to_xml v = v\<lparr>history_records := take 1 (history_records v), backup := None, backupdisk := None,
     bakbid := 0, updatebkstateoid := 0, dkbid := 0, lcmstate := LCM_INIT,
     recover_dir := []\<rparr>"

definition hist :: "vm \<Rightarrow> history option" where
  "hist v = (case history_records v of [] \<Rightarrow> None | h # _ \<Rightarrow> Some h)"

definition previous_hist :: "vm \<Rightarrow> history option" where
  "previous_hist v = (case history_records v of h # p # _ \<Rightarrow> Some p | _ \<Rightarrow> None)"

definition hasHistory :: "vm \<Rightarrow> bool" where
  "hasHistory v \<longleftrightarrow> hist v \<noteq> None"

definition hasPreviousHistory :: "vm \<Rightarrow> bool" where
  "hasPreviousHistory v \<longleftrightarrow> previous_hist v \<noteq> None"

text \<open>The constructor \<open>History(oid, seq, hid, hostname, vm_dir, vmm, vnm, tm)\<close>.\<close>

definition new_history ::
  "int \<Rightarrow> int \<Rightarrow> string \<Rightarrow> string \<Rightarrow> string \<Rightarrow> string \<Rightarrow> string \<Rightarrow> history" where
  "new_history sq h hn dir vmm vnm tm = \<lparr>seq = sq, hid = h, hostname = hn, vm_dir = dir,
     vmm_mad_name = vmm, vnm_mad_name = vnm, tm_mad_name = tm, stime = 0, etime = 0,
     prolog_stime = 0, prolog_etime = 0, running_stime = 0, running_etime = 0,
     epilog_stime = 0, epilog_etime = 0, reason = R_NONE\<rparr>"

definition add_history ::
  "int \<Rightarrow> string \<Rightarrow> string \<Rightarrow> string \<Rightarrow> string \<Rightarrow> string \<Rightarrow> vm \<Rightarrow> vm" where
  "add_history h hn dir vmm vnm tm v =
     (let sq = (case hist v of None \<Rightarrow> 0 | Some c \<Rightarrow> seq c + 1)
      in v\<lparr>history_records := new_history sq h hn dir vmm vnm tm # history_records v\<rparr>)"

definition cp_history :: "vm \<Rightarrow> vm" where
  "cp_history v = (case hist v of
     None \<Rightarrow> v
   | Some c \<Rightarrow> v\<lparr>history_records := new_history (seq c + 1) (hid c) (hostname c) (vm_dir c)
        (vmm_mad_name c) (vnm_mad_name c) (tm_mad_name c) # history_records v\<rparr>)"

definition cp_previous_history :: "vm \<Rightarrow> vm" where
  "cp_previous_history v = (case (previous_hist v, hist v) of
     (Some p, Some c) \<Rightarrow> v\<lparr>history_records := new_history (seq c + 1) (hid p) (hostname p) (vm_dir p)
        (vmm_mad_name p) (vnm_mad_name p) (tm_mad_name p) # history_records v\<rparr>
   | _ \<Rightarrow> v)"

text \<open>\<open>get_requirements\<close>: CPU in hundredths, memory in KB, and no disk.\<close>

definition get_requirements :: "vm \<Rightarrow> int \<times> int \<times> int" where
  "get_requirements v = (case req_cpu v of
     None \<Rightarrow> (0, 0, 0)
   | Some cpu \<Rightarrow> if req_memory v = 0 then (0, 0, 0) else (cpu, in_kb (req_memory v), 0))"

lemma get_requirements_upd [simp]:
  "get_requirements (v\<lparr>state := a1\<rparr>) = get_requirements v"
  "get_requirements (v\<lparr>lcm_state := a2\<rparr>) = get_requirements v"
  "get_requirements (v\<lparr>history_records := a3\<rparr>) = get_requirements v"
  "get_requirements (v\<lparr>backup := a4\<rparr>) = get_requirements v"
  "get_requirements (v\<lparr>backupdisk := a5\<rparr>) = get_requirements v"
  "get_requirements (v\<lparr>lcmstate := a6\<rparr>) = get_requirements v"
  "get_requirements (v\<lparr>exit_time := a7\<rparr>) = get_requirements v"
  "get_requirements (v\<lparr>deploy_id := a8\<rparr>) = get_requirements v"
  "get_requirements (v\<lparr>last_poll := a9\<rparr>) = get_requirements v"
  by (simp_all add: get_requirements_def split: option.splits)

lemma to_xml_sel [simp]:
  "state (to_xml v) = state v" "lcm_state (to_xml v) = lcm_state v" "vm_oid (to_xml v) = vm_oid v"
  by (simp_all add: to_xml_def)

text \<open>The number of the record to be used next, and the numbering of the records: consecutive
  from 0, the newest first.\<close>

definition seqs_ok :: "vm \<Rightarrow> bool" where
  "seqs_ok v \<longleftrightarrow> map seq (history_records v) = map int (rev [0..<length (history_records v)])"

lemma seqs_ok_hd: "seqs_ok v \<Longrightarrow> hist v = Some c \<Longrightarrow> seq c + 1 = int (length (history_records v))"
  by (cases "history_records v") (auto simp: seqs_ok_def hist_def)

lemma seqs_ok_push:
  assumes "seqs_ok v" "seq h = int (length (history_records v))"
  shows "seqs_ok (v\<lparr>history_records := h # history_records v\<rparr>)"
  using assms by (simp add: seqs_ok_def)

lemma hist_simps [simp]:
  "hist (v\<lparr>history_records := h # hs\<rparr>) = Some h"
  "previous_hist (v\<lparr>history_records := h # p # hs\<rparr>) = Some p"
  by (simp_all add: hist_def previous_hist_def)

lemma hist_None_iff: "hist v = None \<longleftrightarrow> history_records v = []"
  by (auto simp: hist_def split: list.splits)

lemma new_history_sel [simp]:
  "seq (new_history sq h hn dir vmm vnm tm) = sq"
  "hid (new_history sq h hn dir vmm vnm tm) = h"
  "reason (new_history sq h hn dir vmm vnm tm) = R_NONE"
  by (simp_all add: new_history_def)

lemma seqs_ok_add_history: "seqs_ok v \<Longrightarrow> seqs_ok (add_history h hn dir vmm vnm tm v)"
  by (auto simp: add_history_def Let_def hist_None_iff seqs_ok_hd
           intro!: seqs_ok_push split: option.splits)
     (simp add: seqs_ok_def)

lemma seqs_ok_cp_history: "seqs_ok v \<Longrightarrow> seqs_ok (cp_history v)"
  by (auto simp: cp_history_def seqs_ok_hd intro!: seqs_ok_push split: option.splits)

lemma seqs_ok_cp_previous: "seqs_ok v \<Longrightarrow> seqs_ok (cp_previous_history v)"
  by (auto simp: cp_previous_history_def seqs_ok_hd intro!: seqs_ok_push split: option.splits)

end
