(* ===== verification/VirtualNetwork.thy ===== *)
theory VirtualNetwork
  imports RangedLeases FixedLeases VirtualMachine
begin

text \<open>
  Virtual networks and the NICs of a VM: \<open>VirtualNetwork\<close> and \<open>VirtualNetworkPool\<close> (src/vnm), and the
  part of src/vm/VirtualMachine.cc that takes and gives back the leases of a VM.

  A network holds a pointer to \<open>Leases\<close>, ranged or fixed; the calls through it are virtual.
  \<open>net_index\<close> is the pool's index by name and owner, \<open>user_ids\<close> what the user pool answers for a user
  name, \<open>net_rows\<close> the TOTAL_LEASES written to the row of each network, the one thing of that row
  that changes after the allocation.  \<open>lease_db\<close> and \<open>net_junk\<close> are the arguments of the lease operations.
\<close>

datatype net_leases = Ranged_l ranged | Fixed_l fixed

record vnet =
  n_oid :: int
  n_name :: string
  bridge :: string
  vlan :: int
  phydev :: string
  vlan_id :: string
  n_leases :: net_leases

record nets =
  vnets :: "int \<Rightarrow> vnet option"
  net_locks :: "int set"
  net_index :: "string \<times> int \<Rightarrow> int option"
  user_ids :: "string \<Rightarrow> int option"
  net_rows :: "int \<Rightarrow> int option"
  net_db_ok :: bool
  lease_db :: db_oracle
  net_junk :: junk

subsection \<open>Leases of either kind\<close>

fun pool_get :: "db_oracle \<Rightarrow> int \<Rightarrow> net_leases \<Rightarrow> (int \<times> string \<times> string \<times> net_leases) res" where
  "pool_get db vid (Ranged_l r) = (case ranged_get db vid r of (rc, ip, mac, r') \<Rightarrow> Done (rc, ip, mac, Ranged_l r'))"
| "pool_get db vid (Fixed_l f) =
     bind_res (fixed_get db vid f) (\<lambda>(rc, ip, mac, f'). Done (rc, ip, mac, Fixed_l f'))"

fun pool_set :: "db_oracle \<Rightarrow> junk \<Rightarrow> int \<Rightarrow> string \<Rightarrow> net_leases \<Rightarrow> int \<times> string \<times> net_leases" where
  "pool_set db j vid ip (Ranged_l r) = (case ranged_set db j vid ip r of (rc, mac, r') \<Rightarrow> (rc, mac, Ranged_l r'))"
| "pool_set db j vid ip (Fixed_l f) = (case fixed_set db j vid ip f of (rc, mac, f') \<Rightarrow> (rc, mac, Fixed_l f'))"

fun pool_release :: "db_oracle \<Rightarrow> junk \<Rightarrow> string \<Rightarrow> net_leases \<Rightarrow> net_leases" where
  "pool_release db j ip (Ranged_l r) = Ranged_l (ranged_release db j ip r)"
| "pool_release db j ip (Fixed_l f) = Fixed_l (fixed_release db j ip f)"

fun pool_owner :: "net_leases \<Rightarrow> 32 word \<Rightarrow> int option" where
  "pool_owner (Ranged_l r) = owner r"
| "pool_owner (Fixed_l f) = owner f"

fun pool_ok :: "net_leases \<Rightarrow> bool" where
  "pool_ok (Ranged_l r) = ranged_ok r"
| "pool_ok (Fixed_l f) = fixed_ok f"

fun total_leases :: "net_leases \<Rightarrow> int" where
  "total_leases (Ranged_l r) = n_used r"
| "total_leases (Fixed_l f) = n_used f"

subsection \<open>NICs\<close>

text \<open>\<open>VirtualNetwork::nic_attribute\<close>: takes a lease and fills in the NIC.\<close>

definition vnet_nic :: "string \<Rightarrow> string \<Rightarrow> vnet \<Rightarrow> vattr \<Rightarrow> vattr" where
  "vnet_nic ip mac n nic = (
     let nic = nic(''NETWORK'' \<mapsto> n_name n, ''NETWORK_ID'' \<mapsto> int_string (n_oid n), ''BRIDGE'' \<mapsto> bridge n,
                   ''MAC'' \<mapsto> mac, ''IP'' \<mapsto> ip, ''VLAN'' \<mapsto> (if vlan n = 1 then ''YES'' else ''NO''));
         nic = (if phydev n \<noteq> [] then nic(''PHYDEV'' \<mapsto> phydev n) else nic)
     in if vlan_id n \<noteq> [] then nic(''VLAN_ID'' \<mapsto> vlan_id n) else nic)"

definition vnet_nic_attribute ::
  "db_oracle \<Rightarrow> junk \<Rightarrow> int \<Rightarrow> vattr \<Rightarrow> vnet \<Rightarrow> (int \<times> vattr \<times> vnet) res" where
  "vnet_nic_attribute db j vid nic n = (
     let ip = vector_value nic ''IP'' in
     bind_res
       (if ip = [] then pool_get db vid (n_leases n)
        else let (rc, mac, p) = pool_set db j vid ip (n_leases n) in Done (rc, ip, mac, p))
       (\<lambda>(rc, ip, mac, p). let n' = n\<lparr>n_leases := p\<rparr> in
          if rc \<noteq> 0 then Done (-1, nic, n') else Done (0, vnet_nic ip mac n' nic, n')))"

definition net_update :: "vnet \<Rightarrow> nets \<Rightarrow> nets" where
  "net_update n s = (if net_db_ok s then s\<lparr>net_rows := (net_rows s)(n_oid n \<mapsto> total_leases (n_leases n))\<rparr> else s)"

text \<open>\<open>get(id, true)\<close>, a body and the final unlock; \<open>absent\<close> is returned without such a network.\<close>

definition with_net :: "int \<Rightarrow> 'r \<Rightarrow> (vnet \<Rightarrow> nets \<Rightarrow> ('r \<times> vnet \<times> nets) res) \<Rightarrow> nets \<Rightarrow> ('r \<times> nets) res" where
  "with_net nid absent body s = (case vnets s nid of
     None \<Rightarrow> Done (absent, s)
   | Some n \<Rightarrow> if nid \<in> net_locks s then Blocked
       else bind_res (body n s) (\<lambda>(rc, n', s'). Done (rc, s'\<lparr>vnets := (vnets s')(nid \<mapsto> n')\<rparr>)))"

text \<open>The network a NIC names: by name, with the owner it gives, or the VM's; or by id.\<close>

definition get_nic_by_name :: "vattr \<Rightarrow> string \<Rightarrow> int \<Rightarrow> nets \<Rightarrow> int option" where
  "get_nic_by_name nic name uid s = (
     let uid_s = vector_value nic ''NETWORK_UID''; uname = vector_value nic ''NETWORK_UNAME'' in
     if uid_s \<noteq> [] then
       (let (u, is) = extract_int 0 (istr uid_s) in if failbit is then None else net_index s (name, u))
     else if uname \<noteq> [] then (case user_ids s uname of None \<Rightarrow> None | Some u \<Rightarrow> net_index s (name, u))
     else net_index s (name, uid))"

definition get_nic_by_id :: "string \<Rightarrow> int option" where
  "get_nic_by_id id_s = (let (i, is) = extract_int 0 (istr id_s) in if failbit is then None else Some i)"

definition vnpool_nic_attribute :: "int \<Rightarrow> int \<Rightarrow> vattr \<Rightarrow> nets \<Rightarrow> ((int \<times> vattr) \<times> nets) res" where
  "vnpool_nic_attribute uid vid nic s = (
     let name = vector_value nic ''NETWORK''; id_s = vector_value nic ''NETWORK_ID'' in
     if name = [] \<and> id_s = [] then Done ((-2, nic), s)
     else case (if name \<noteq> [] then get_nic_by_name nic name uid s else get_nic_by_id id_s) of
         None \<Rightarrow> Done ((-1, nic), s)
       | Some nid \<Rightarrow> with_net nid (-1, nic) (\<lambda>n s.
           bind_res (vnet_nic_attribute (lease_db s) (net_junk s) vid nic n) (\<lambda>(rc, nic', n').
             Done ((rc, nic'), n', if rc = 0 then net_update n' s else s))) s)"

text \<open>\<open>VirtualMachine::get_network_leases\<close> and \<open>release_network_leases\<close>, on the NICs of the VM.\<close>

fun get_network_leases ::
  "int \<Rightarrow> int \<Rightarrow> vattr option list \<Rightarrow> nets \<Rightarrow> (int \<times> vattr option list \<times> nets) res" where
  "get_network_leases uid vid [] s = Done (0, [], s)"
| "get_network_leases uid vid (None # ns) s =
     bind_res (get_network_leases uid vid ns s) (\<lambda>(rc, ns', s'). Done (rc, None # ns', s'))"
| "get_network_leases uid vid (Some nic # ns) s =
     bind_res (vnpool_nic_attribute uid vid nic s) (\<lambda>((rc, nic'), s').
       if rc = -1 then Done (-1, Some nic' # ns, s')
       else bind_res (get_network_leases uid vid ns s') (\<lambda>(rc, ns', s'). Done (rc, Some nic' # ns', s')))"

definition release_nic :: "vattr option \<Rightarrow> nets \<Rightarrow> nets res" where
  "release_nic a s = (case a of None \<Rightarrow> Done s | Some nic \<Rightarrow>
     let vnid = vector_value nic ''NETWORK_ID''; ip = vector_value nic ''IP'' in
     if vnid = [] \<or> ip = [] then Done s
     else bind_res (with_net (atoi vnid) () (\<lambda>n s.
         let n' = n\<lparr>n_leases := pool_release (lease_db s) (net_junk s) ip (n_leases n)\<rparr>
         in Done ((), n', net_update n' s)) s) (\<lambda>(_, s'). Done s'))"

fun release_network_leases :: "vattr option list \<Rightarrow> nets \<Rightarrow> nets res" where
  "release_network_leases [] s = Done s"
| "release_network_leases (a # as) s = bind_res (release_nic a s) (release_network_leases as)"

text \<open>The part of \<open>VirtualMachine::insert\<close> that takes the leases: when it fails, it releases the leases
  of every NIC of the template.\<close>

definition insert_leases ::
  "int \<Rightarrow> int \<Rightarrow> vattr option list \<Rightarrow> nets \<Rightarrow> (int \<times> vattr option list \<times> nets) res" where
  "insert_leases uid vid ns s = bind_res (get_network_leases uid vid ns s) (\<lambda>(rc, ns', s').
     if rc \<noteq> 0 then bind_res (release_network_leases ns' s') (\<lambda>s''. Done (-1, ns', s'')) else Done (0, ns', s'))"

subsection \<open>Both kinds of leases are a lease pool\<close>

interpretation pool: lease_pool pool_ok pool_owner "pool_get db_fine" "pool_set db_fine j" "pool_release db_fine j" for j
proof
  fix s vid and rc :: int and ip mac s' x
  show "\<exists>rc ip mac s'. pool_get db_fine vid s = Done (rc, ip, mac, s') \<and> pool_ok s'" if "pool_ok s"
  proof (cases s)
    case (Ranged_l r)
    then show ?thesis using that ranged.get_total [of r vid] by auto
  next
    case (Fixed_l f)
    then show ?thesis using that fixed.get_total [of f vid] by fastforce
  qed
  show "pool_owner s' = pool_owner s" if "pool_ok s" "pool_get db_fine vid s = Done (rc, ip, mac, s')" "rc \<noteq> 0"
  proof (cases s)
    case (Ranged_l r)
    then show ?thesis using that ranged.get_fail [of r vid rc ip mac] by (auto split: prod.splits)
  next
    case (Fixed_l f)
    then show ?thesis using that fixed.get_fail [of f vid rc ip mac] by (auto simp: bind_res_Done_iff)
  qed
  show "\<exists>x. denotes ip x \<and> pool_owner s x = None \<and> pool_owner s' = (pool_owner s)(x \<mapsto> vid)"
    if "pool_ok s" "pool_get db_fine vid s = Done (0, ip, mac, s')"
  proof (cases s)
    case (Ranged_l r)
    then show ?thesis using that ranged.get_new [of r vid ip mac] by (auto split: prod.splits)
  next
    case (Fixed_l f)
    then show ?thesis using that fixed.get_new [of f vid ip mac] by (auto simp: bind_res_Done_iff)
  qed
  show "pool_ok s'" if "pool_ok s" "pool_set db_fine j vid ip s = (rc, mac, s')"
    using that ranged.set_ok [of _ j vid ip rc mac] fixed.set_ok [of _ j vid ip rc mac]
    by (cases s) (auto split: prod.splits)
  show "pool_owner s' = pool_owner s" if "pool_ok s" "pool_set db_fine j vid ip s = (rc, mac, s')" "rc \<noteq> 0"
    using that ranged.set_fail [of _ j vid ip rc mac] fixed.set_fail [of _ j vid ip rc mac]
    by (cases s) (auto split: prod.splits)
  show "pool_owner s x = None \<and> pool_owner s' = (pool_owner s)(x \<mapsto> vid)"
    if "pool_ok s" "pool_set db_fine j vid ip s = (0, mac, s')" "denotes ip x"
    using that ranged.set_new [of _ j vid ip mac _ x] fixed.set_new [of _ j vid ip mac _ x]
    by (cases s) (auto split: prod.splits)
  show "pool_ok (pool_release db_fine j ip s) \<and> pool_owner (pool_release db_fine j ip s) = (pool_owner s)(x := None)"
    if "pool_ok s" "denotes ip x" "pool_owner s x \<noteq> None"
    using that ranged.release_ok [of _ ip x j] fixed.release_ok [of _ ip x j] by (cases s) auto
qed

subsection \<open>Who holds an address\<close>

text \<open>The abstract state of the networks: the VM that holds an address of a network.\<close>

definition holder :: "nets \<Rightarrow> int \<times> 32 word \<Rightarrow> int option" where
  "holder s = (\<lambda>(nid, ip). case vnets s nid of None \<Rightarrow> None | Some n \<Rightarrow> pool_owner (n_leases n) ip)"

text \<open>The pools are well formed, ids fit an \<open>int\<close>, nothing is locked and the database works.\<close>

definition nets_ok :: "nets \<Rightarrow> bool" where
  "nets_ok s \<longleftrightarrow> (\<forall>k n. vnets s k = Some n \<longrightarrow> n_oid n = k \<and> - (2 ^ 31) \<le> k \<and> k < 2 ^ 31 \<and> pool_ok (n_leases n)) \<and>
     net_locks s = {} \<and> lease_db s = db_fine"

text \<open>The addresses a template asks for are well-formed dotted quads.\<close>

definition nic_wf :: "vattr option \<Rightarrow> bool" where
  "nic_wf a \<longleftrightarrow> (case a of None \<Rightarrow> True | Some nic \<Rightarrow>
     vector_value nic ''IP'' = [] \<or> (\<exists>x. denotes (vector_value nic ''IP'') x))"

lemma net_update_frame [simp]:
  "vnets (net_update n s) = vnets s" "net_locks (net_update n s) = net_locks s"
  "net_index (net_update n s) = net_index s" "user_ids (net_update n s) = user_ids s"
  "lease_db (net_update n s) = lease_db s" "net_junk (net_update n s) = net_junk s"
  by (simp_all add: net_update_def)

lemma vector_value_upd [simp]:
  "vector_value (nic(k \<mapsto> v)) k' = (if k' = k then v else vector_value nic k')"
  by (simp add: vector_value_def)

lemma vnet_nic_values [simp]:
  "vector_value (vnet_nic ip mac n nic) ''IP'' = ip"
  "vector_value (vnet_nic ip mac n nic) ''NETWORK_ID'' = int_string (n_oid n)"
  "vector_value (vnet_nic ip mac n nic) ''MAC'' = mac"
  by (simp_all add: vnet_nic_def Let_def)

lemma int_string_nonempty: "int_string n \<noteq> []"
  by (simp add: int_string_def num_string_nonempty)

lemma denotes_nonempty: "denotes ip x \<Longrightarrow> ip \<noteq> []"
  by (auto simp: denotes_def ip_to_number_def)

lemma atoi_int_string: "- (2 ^ 31) \<le> n \<Longrightarrow> n < 2 ^ 31 \<Longrightarrow> atoi (int_string n) = n"
  by (simp add: atoi_def extract_int_string)

lemma vnet_nic_attribute_spec:
  assumes "pool_ok (n_leases n)" "nic_wf (Some nic)"
  obtains nic' n' x where "vnet_nic_attribute db_fine j vid nic n = Done (0, nic', n')" "pool_ok (n_leases n')"
      "n_oid n' = n_oid n" "vector_value nic' ''NETWORK_ID'' = int_string (n_oid n)"
      "denotes (vector_value nic' ''IP'') x" "pool_owner (n_leases n) x = None"
      "pool_owner (n_leases n') = (pool_owner (n_leases n))(x \<mapsto> vid)"
  | n' where "vnet_nic_attribute db_fine j vid nic n = Done (-1, nic, n')" "pool_ok (n_leases n')"
      "n_oid n' = n_oid n" "pool_owner (n_leases n') = pool_owner (n_leases n)"
proof (cases "vector_value nic ''IP'' = []")
  case True
  obtain rc ip mac p where g: "pool_get db_fine vid (n_leases n) = Done (rc, ip, mac, p)" "pool_ok p"
    using pool.get_total [OF assms(1), of vid] by blast
  have v: "vnet_nic_attribute db_fine j vid nic n = (let n' = n\<lparr>n_leases := p\<rparr> in
      if rc \<noteq> 0 then Done (-1, nic, n') else Done (0, vnet_nic ip mac n' nic, n'))"
    using True g(1) by (simp add: vnet_nic_attribute_def Let_def)
  show thesis
  proof (cases "rc = 0")
    case rc: True
    then obtain x where "denotes ip x" "pool_owner (n_leases n) x = None"
        "pool_owner p = (pool_owner (n_leases n))(x \<mapsto> vid)"
      using pool.get_new [OF assms(1)] g(1) by blast
    with rc v g(2) that(1) show thesis by (simp add: Let_def)
  next
    case False
    with v g pool.get_fail [OF assms(1) g(1)] that(2) show thesis by (simp add: Let_def)
  qed
next
  case False
  let ?ip = "vector_value nic ''IP''"
  obtain x where x: "denotes ?ip x" using False assms(2) by (auto simp: nic_wf_def)
  obtain rc mac p where g: "pool_set db_fine j vid ?ip (n_leases n) = (rc, mac, p)" by (metis prod_cases3)
  have v: "vnet_nic_attribute db_fine j vid nic n = (let n' = n\<lparr>n_leases := p\<rparr> in
      if rc \<noteq> 0 then Done (-1, nic, n') else Done (0, vnet_nic ?ip mac n' nic, n'))"
    using False g(1) by (simp add: vnet_nic_attribute_def Let_def)
  have ok: "pool_ok p" by (rule pool.set_ok [OF assms(1) g])
  show thesis
  proof (cases "rc = 0")
    case rc: True
    then have "pool_owner (n_leases n) x = None \<and> pool_owner p = (pool_owner (n_leases n))(x \<mapsto> vid)"
      using pool.set_new [OF assms(1) _ x] g by blast
    with rc v ok x that(1) show thesis by (simp add: Let_def)
  next
    case rc: False
    with v ok pool.set_fail [OF assms(1) g] that(2) show thesis by (simp add: Let_def)
  qed
qed

lemma holder_upd:
  "holder (s\<lparr>vnets := (vnets s)(k \<mapsto> n)\<rparr>) (i, x) = (if i = k then pool_owner (n_leases n) x else holder s (i, x))"
  by (simp add: holder_def)

lemma nets_ok_upd:
  assumes "nets_ok s" "vnets s k = Some n0" "n_oid n = k" "pool_ok (n_leases n)"
  shows "nets_ok (s\<lparr>vnets := (vnets s)(k \<mapsto> n)\<rparr>)"
proof -
  have "- (2 ^ 31) \<le> k \<and> k < 2 ^ 31" using assms(1,2) unfolding nets_ok_def by blast
  with assms show ?thesis by (simp add: nets_ok_def)
qed

lemma nets_ok_net_update [simp]: "nets_ok (net_update n s) = nets_ok s" "holder (net_update n s) = holder s"
  by (simp_all add: nets_ok_def holder_def)

lemma vnpool_nic_attribute_spec:
  assumes "nets_ok s" "nic_wf (Some nic)"
  obtains nic' s' nid x where "vnpool_nic_attribute uid vid nic s = Done ((0, nic'), s')" "nets_ok s'"
      "vector_value nic' ''NETWORK_ID'' = int_string nid" "denotes (vector_value nic' ''IP'') x"
      "holder s (nid, x) = None" "holder s' = (holder s)((nid, x) \<mapsto> vid)"
  | rc s' where "vnpool_nic_attribute uid vid nic s = Done ((rc, nic), s')" "nets_ok s'" "holder s' = holder s"
      "rc = -1 \<or> rc = -2 \<and> vector_value nic ''NETWORK_ID'' = []"
proof -
  let ?named = "if vector_value nic ''NETWORK'' \<noteq> [] then get_nic_by_name nic (vector_value nic ''NETWORK'') uid s
    else get_nic_by_id (vector_value nic ''NETWORK_ID'')"
  let ?body = "\<lambda>n s. bind_res (vnet_nic_attribute (lease_db s) (net_junk s) vid nic n) (\<lambda>(rc, nic', n').
     Done ((rc, nic'), n', if rc = 0 then net_update n' s else s))"
  consider "vector_value nic ''NETWORK'' = []" "vector_value nic ''NETWORK_ID'' = []"
    | "vnpool_nic_attribute uid vid nic s = Done ((-1, nic), s)"
    | nid where "vnpool_nic_attribute uid vid nic s = with_net nid (-1, nic) ?body s"
  proof (cases "vector_value nic ''NETWORK'' = [] \<and> vector_value nic ''NETWORK_ID'' = []")
    case False
    note e = vnpool_nic_attribute_def [of uid vid nic s, unfolded Let_def if_not_P [OF False]]
    show ?thesis
    proof (cases ?named)
      case None
      then show ?thesis using that(2) e by (simp only: option.case)
    next
      case (Some nid)
      then show ?thesis using that(3) [of nid] e by (simp only: option.case)
    qed
  qed (use that(1) in blast)
  then show thesis
  proof cases
    case 1
    then show thesis using assms(1) that(2) by (simp add: vnpool_nic_attribute_def)
  next
    case 2
    then show thesis using assms(1) that(2) by blast
  next
    case (3 nid)
    show thesis
    proof (cases "vnets s nid")
      case None
      then show thesis using 3 assms(1) that(2) by (simp add: with_net_def)
    next
      case (Some n)
      have n: "n_oid n = nid" "pool_ok (n_leases n)" using assms(1) Some by (auto simp: nets_ok_def)
      have l: "nid \<notin> net_locks s" "lease_db s = db_fine" using assms(1) by (auto simp: nets_ok_def)
      show thesis
      proof (rule vnet_nic_attribute_spec [OF n(2) assms(2), of "net_junk s" vid])
        fix nic' n' x
        assume v: "vnet_nic_attribute db_fine (net_junk s) vid nic n = Done (0, nic', n')"
          and ok: "pool_ok (n_leases n')" "n_oid n' = n_oid n" and id: "vector_value nic' ''NETWORK_ID'' = int_string (n_oid n)"
          and x: "denotes (vector_value nic' ''IP'') x" "pool_owner (n_leases n) x = None"
          and o: "pool_owner (n_leases n') = (pool_owner (n_leases n))(x \<mapsto> vid)"
        let ?s = "(net_update n' s)\<lparr>vnets := (vnets s)(nid \<mapsto> n')\<rparr>"
        have "vnpool_nic_attribute uid vid nic s = Done ((0, nic'), ?s)"
          using 3 Some l v by (simp add: with_net_def)
        moreover have "nets_ok ?s"
          using nets_ok_upd [of "net_update n' s" nid n n'] assms(1) Some ok n(1) by simp
        moreover have "holder ?s = (holder s)((nid, x) \<mapsto> vid)"
          using o Some holder_upd [of "net_update n' s" nid n']
          by (simp add: fun_eq_iff) (simp add: holder_def)
        moreover have "holder s (nid, x) = None" using Some x(2) by (simp add: holder_def)
        ultimately show thesis using that(1) id x(1) n(1) by blast
      next
        fix n' assume v: "vnet_nic_attribute db_fine (net_junk s) vid nic n = Done (-1, nic, n')"
          and ok: "pool_ok (n_leases n')" "n_oid n' = n_oid n" and o: "pool_owner (n_leases n') = pool_owner (n_leases n)"
        let ?s = "s\<lparr>vnets := (vnets s)(nid \<mapsto> n')\<rparr>"
        have "vnpool_nic_attribute uid vid nic s = Done ((-1, nic), ?s)"
          using 3 Some l v by (simp add: with_net_def)
        moreover have "nets_ok ?s" using nets_ok_upd [OF assms(1) Some] ok n(1) by simp
        moreover have "holder ?s = holder s"
          using o Some by (simp add: fun_eq_iff holder_upd) (simp add: holder_def)
        ultimately show thesis using that(2) by blast
      qed
    qed
  qed
qed

lemma release_nic_spec:
  assumes "nets_ok s" "vector_value nic ''NETWORK_ID'' = int_string nid" "denotes (vector_value nic ''IP'') x"
    "holder s (nid, x) \<noteq> None"
  shows "\<exists>s'. release_nic (Some nic) s = Done s' \<and> nets_ok s' \<and> holder s' = (holder s)((nid, x) := None)"
proof -
  let ?ip = "vector_value nic ''IP''"
  obtain n where n: "vnets s nid = Some n" "pool_owner (n_leases n) x \<noteq> None"
    using assms(4) by (cases "vnets s nid") (auto simp: holder_def)
  have ok: "n_oid n = nid" "pool_ok (n_leases n)" "- (2 ^ 31) \<le> nid" "nid < 2 ^ 31"
    "nid \<notin> net_locks s" "lease_db s = db_fine"
    using assms(1) n(1) by (auto simp: nets_ok_def)
  let ?n = "n\<lparr>n_leases := pool_release db_fine (net_junk s) ?ip (n_leases n)\<rparr>"
  let ?s = "(net_update ?n s)\<lparr>vnets := (vnets s)(nid \<mapsto> ?n)\<rparr>"
  have r: "pool_ok (n_leases ?n)" "pool_owner (n_leases ?n) = (pool_owner (n_leases n))(x := None)"
    using pool.release_ok [OF ok(2) assms(3) n(2)] by simp_all
  have "release_nic (Some nic) s = Done ?s"
    using assms(2) denotes_nonempty [OF assms(3)] n(1) ok(5,6)
    by (simp add: release_nic_def with_net_def atoi_int_string [OF ok(3,4)] int_string_nonempty Let_def)
  moreover have "nets_ok ?s"
    using nets_ok_upd [of "net_update ?n s" nid n ?n] assms(1) n(1) ok(1) r(1) by simp
  moreover have "holder ?s = (holder s)((nid, x) := None)"
    using r(2) n(1) holder_upd [of "net_update ?n s" nid ?n] by (simp add: fun_eq_iff) (simp add: holder_def)
  ultimately show ?thesis by blast
qed

text \<open>The leases a VM's NICs take, and what releasing the NICs frees: both are the set \<open>G\<close>.\<close>

definition released :: "vattr option list \<Rightarrow> (int \<times> 32 word) set \<Rightarrow> nets \<Rightarrow> bool" where
  "released ns G t \<longleftrightarrow> (\<exists>t'. release_network_leases ns t = Done t' \<and> nets_ok t' \<and>
     holder t' = (\<lambda>g. if g \<in> G then None else holder t g))"

lemma release_skip:
  assumes "vector_value nic ''NETWORK_ID'' = []"
  shows "release_nic (Some nic) s = Done s"
  using assms by (simp add: release_nic_def)

lemma network_leases_footprint:
  assumes "nets_ok s" "list_all nic_wf ns" "get_network_leases uid vid ns s = Done (0, ns', s')"
  shows "nets_ok s' \<and> (\<exists>G. (\<forall>g \<in> G. holder s g = None) \<and>
    holder s' = (\<lambda>g. if g \<in> G then Some vid else holder s g) \<and>
    (\<forall>t. nets_ok t \<longrightarrow> (\<forall>g \<in> G. holder t g \<noteq> None) \<longrightarrow> released ns' G t))"
  using assms
proof (induction uid vid ns s arbitrary: ns' s' rule: get_network_leases.induct)
  case (1 uid vid s)
  then show ?case by (auto simp: released_def intro!: exI [of _ "{}"])
next
  case (2 uid vid ns s)
  obtain ns1 where r: "get_network_leases uid vid ns s = Done (0, ns1, s')" "ns' = None # ns1"
    using 2(4) by (auto simp: bind_res_Done_iff)
  have "released ns' G t = released ns1 G t" for G t
    by (simp add: released_def r(2) release_nic_def)
  with 2(1) [OF 2(2) _ r(1)] 2(3) show ?case by simp
next
  case (3 uid vid nic ns s)
  have wf: "nic_wf (Some nic)" "list_all nic_wf ns" using 3(3) by simp_all
  have zero: "(0 :: int) \<noteq> -1" by simp
  show ?case
  proof (rule vnpool_nic_attribute_spec [OF 3(2) wf(1), of uid vid])
    fix nic' s1 nid x
    assume v: "vnpool_nic_attribute uid vid nic s = Done ((0, nic'), s1)" and ok: "nets_ok s1"
      and id: "vector_value nic' ''NETWORK_ID'' = int_string nid" and ip: "denotes (vector_value nic' ''IP'') x"
      and fresh: "holder s (nid, x) = None" and h: "holder s1 = (holder s)((nid, x) \<mapsto> vid)"
    obtain ns1 where r: "get_network_leases uid vid ns s1 = Done (0, ns1, s')" "ns' = Some nic' # ns1"
      using 3(4) v by (auto simp: bind_res_Done_iff)
    obtain G where ok': "nets_ok s'" and G: "\<forall>g \<in> G. holder s1 g = None"
      "holder s' = (\<lambda>g. if g \<in> G then Some vid else holder s1 g)"
      "\<forall>t. nets_ok t \<longrightarrow> (\<forall>g \<in> G. holder t g \<noteq> None) \<longrightarrow> released ns1 G t"
      using 3(1) [OF zero ok wf(2) r(1)] by auto
    have new: "(nid, x) \<notin> G" using G(1) h by auto
    have rel: "released ns' (insert (nid, x) G) t" if t: "nets_ok t" "\<forall>g \<in> insert (nid, x) G. holder t g \<noteq> None" for t
    proof -
      obtain t1 where t1: "release_nic (Some nic') t = Done t1" "nets_ok t1" "holder t1 = (holder t)((nid, x) := None)"
        using release_nic_spec [OF t(1) id ip] t(2) by auto
      have "released ns1 G t1" using G(3) t1(2,3) t(2) new by auto
      then show ?thesis using t1(1,3) new unfolding released_def r(2) by (auto simp: fun_eq_iff)
    qed
    have "holder s' = (\<lambda>g. if g \<in> insert (nid, x) G then Some vid else holder s g)"
      using G(2) h by (auto simp: fun_eq_iff)
    moreover have "\<forall>g \<in> insert (nid, x) G. holder s g = None"
    proof
      fix g assume "g \<in> insert (nid, x) G"
      then show "holder s g = None" using fresh G(1) h by (cases "g = (nid, x)") auto
    qed
    ultimately show ?case using ok' rel by blast
  next
    fix rc s1 assume v: "vnpool_nic_attribute uid vid nic s = Done ((rc, nic), s1)" and ok: "nets_ok s1"
      and h: "holder s1 = holder s" and rc: "rc = -1 \<or> rc = -2 \<and> vector_value nic ''NETWORK_ID'' = []"
    have rc2: "rc \<noteq> -1" using 3(4) v by (auto simp: bind_res_Done_iff)
    then have skip: "release_nic (Some nic) t = Done t" for t using rc release_skip by blast
    obtain ns1 where r: "get_network_leases uid vid ns s1 = Done (0, ns1, s')" "ns' = Some nic # ns1"
      using 3(4) v rc2 by (auto simp: bind_res_Done_iff)
    have same: "released ns' G t = released ns1 G t" for G t by (simp add: released_def r(2) skip)
    show ?case using 3(1) [OF rc2 ok wf(2) r(1)] unfolding h same .
  qed
qed

text \<open>C5. Leases are neither stolen nor lost: creating a VM takes, for its NICs, addresses that nobody held
  and nothing else, and deleting it later, in whatever state the other VMs have brought the networks,
  frees exactly these addresses.\<close>

theorem vm_leases_taken_and_freed:
  assumes "nets_ok s" "list_all nic_wf ns" "get_network_leases uid vid ns s = Done (0, ns', s')"
  shows "\<exists>G. (\<forall>g \<in> G. holder s g = None) \<and>
    holder s' = (\<lambda>g. if g \<in> G then Some vid else holder s g) \<and>
    (\<forall>t. nets_ok t \<longrightarrow> (\<forall>g \<in> G. holder t g = Some vid) \<longrightarrow>
       (\<exists>t'. release_network_leases ns' t = Done t' \<and> nets_ok t' \<and>
          holder t' = (\<lambda>g. if g \<in> G then None else holder t g)))"
proof -
  obtain G where G: "\<forall>g \<in> G. holder s g = None" "holder s' = (\<lambda>g. if g \<in> G then Some vid else holder s g)"
    "\<forall>t. nets_ok t \<longrightarrow> (\<forall>g \<in> G. holder t g \<noteq> None) \<longrightarrow> released ns' G t"
    using network_leases_footprint [OF assms] by blast
  have "released ns' G t" if "nets_ok t" "\<forall>g \<in> G. holder t g = Some vid" for t
    using G(3) that by simp
  with G(1,2) show ?thesis unfolding released_def by blast
qed

subsection \<open>A sample network\<close>

text \<open>Network 3 is the range 10.0.0.1 to 10.0.0.2; VM 5 holds 10.0.0.1.\<close>

definition ip1 :: "32 word" where "ip1 = 0x0A000001"

definition range3 :: ranged where
  "range3 = snd (ranged_add db_fine ip1 \<lparr>PREFIX = 2, SUFFIX = ip1\<rparr> 5 (new_ranged 3 2 ip1 (ip1 + 1)))"

definition net3 :: vnet where
  "net3 = \<lparr>n_oid = 3, n_name = ''lan'', bridge = ''br0'', vlan = 0, phydev = [], vlan_id = [], n_leases = Ranged_l range3\<rparr>"

definition nets3 :: nets where
  "nets3 = \<lparr>vnets = [3 \<mapsto> net3], net_locks = {}, net_index = [(''lan'', 0) \<mapsto> 3], user_ids = Map.empty,
     net_rows = Map.empty, net_db_ok = True, lease_db = db_fine, net_junk = \<lparr>j_tmp = 0, j_ip = 0\<rparr>\<rparr>"

definition nic_by_id :: "string \<Rightarrow> vattr" where
  "nic_by_id ip = [''NETWORK_ID'' \<mapsto> int_string 3, ''IP'' \<mapsto> ip]"

lemma range3_ok: "ranged_ok range3" "owner range3 = [ip1 \<mapsto> 5]"
proof -
  let ?r = "new_ranged 3 2 ip1 (ip1 + 1)"
  have ok: "ranged_ok ?r" by (rule new_ranged_ok) (simp_all add: ip1_def word_le_nat_alt)
  have n: "\<not> check_ip ip1 ?r" "owner ?r = Map.empty"
    by (auto simp: check_ip_def owner_def new_ranged_def fun_eq_iff)
  have a: "ranged_add db_fine ip1 \<lparr>PREFIX = mac_prefix ?r, SUFFIX = ip1\<rparr> 5 ?r = (0, range3)"
    by (simp add: range3_def ranged_add_def db_fine_def Let_def new_ranged_def)
  have "ranged_ok range3 \<and> owner range3 = (owner ?r)(ip1 \<mapsto> 5)"
    using ranged_add_ok [OF ok _ _ n(1) a] by (simp add: new_ranged_def ip1_def word_le_nat_alt)
  then show "ranged_ok range3" "owner range3 = [ip1 \<mapsto> 5]" using n(2) by simp_all
qed

lemma nets3_ok: "nets_ok nets3"
  using range3_ok by (simp add: nets_ok_def nets3_def net3_def)

lemma nets3_holder: "holder nets3 = [(3, ip1) \<mapsto> 5]"
  using range3_ok(2) by (auto simp: holder_def nets3_def net3_def fun_eq_iff)

lemma nets3_get: "\<exists>ns' s'. get_network_leases 0 9 [Some (nic_by_id [])] nets3 = Done (0, ns', s')"
proof -
  obtain rc ip mac r where g: "ranged_get db_fine 9 range3 = (rc, ip, mac, r)" by (metis prod_cases4)
  have b: "ip_start range3 = ip1" "ip_end range3 = ip1 + 1"
    by (simp_all add: range3_def ranged_add_def db_fine_def new_ranged_def Let_def)
  have "\<not> check_ip (ip1 + 1) range3" by (simp add: check_owner range3_ok(2))
  then have rc: "rc = 0"
    using ranged_get_exhausted [OF range3_ok(1) g, of "ip1 + 1"] b by (auto simp: ip1_def word_le_nat_alt)
  have i: "extract_int 0 (istr (int_string 3)) = (3, \<lparr>rest = [], eofbit = True, failbit = False\<rparr>)"
    by (simp add: extract_int_string)
  show ?thesis using g rc
    by (simp add: nic_by_id_def vector_value_def vnpool_nic_attribute_def get_nic_by_id_def i int_string_nonempty
      with_net_def nets3_def vnet_nic_attribute_def net3_def Let_def)
qed

theorem vm_leases_taken_and_freed_witness:
  "\<exists>ns' s' G. get_network_leases 0 9 [Some (nic_by_id [])] nets3 = Done (0, ns', s') \<and>
     (\<forall>g \<in> G. holder nets3 g = None) \<and> holder s' = (\<lambda>g. if g \<in> G then Some 9 else holder nets3 g) \<and>
     (\<exists>t'. release_network_leases ns' s' = Done t' \<and> holder t' = holder nets3)"
proof -
  have wf: "list_all nic_wf [Some (nic_by_id [])]" by (simp add: nic_wf_def nic_by_id_def vector_value_def)
  obtain ns' s' where run: "get_network_leases 0 9 [Some (nic_by_id [])] nets3 = Done (0, ns', s')"
    using nets3_get by blast
  obtain G where G: "\<forall>g \<in> G. holder nets3 g = None" "holder s' = (\<lambda>g. if g \<in> G then Some 9 else holder nets3 g)"
    and rel: "\<forall>t. nets_ok t \<longrightarrow> (\<forall>g \<in> G. holder t g = Some 9) \<longrightarrow>
       (\<exists>t'. release_network_leases ns' t = Done t' \<and> nets_ok t' \<and> holder t' = (\<lambda>g. if g \<in> G then None else holder t g))"
    using vm_leases_taken_and_freed [OF nets3_ok wf run] by blast
  have "nets_ok s'" using network_leases_footprint [OF nets3_ok wf run] by blast
  then obtain t' where "release_network_leases ns' s' = Done t'" "holder t' = (\<lambda>g. if g \<in> G then None else holder s' g)"
    using rel G(2) by force
  then have "release_network_leases ns' s' = Done t'" "holder t' = holder nets3" using G by (auto simp: fun_eq_iff)
  with run G show ?thesis by blast
qed

text \<open>A creation that fails can free the address of another VM: a NIC that names its network by id and
  asks for an address already leased makes \<open>insert\<close> fail, and the rollback releases the address
  from the VM that holds it.\<close>

theorem failed_insert_frees_foreign_lease:
  assumes "nets_ok s" "vector_value nic ''NETWORK'' = []" "vector_value nic ''NETWORK_ID'' = int_string nid"
    "denotes (vector_value nic ''IP'') x" "holder s (nid, x) = Some other"
  shows "\<exists>ns' s'. insert_leases uid vid [Some nic] s = Done (-1, ns', s') \<and>
    holder s' = (holder s)((nid, x) := None)"
proof -
  let ?ip = "vector_value nic ''IP''"
  obtain n where n: "vnets s nid = Some n" "pool_owner (n_leases n) x = Some other"
    using assms(5) by (cases "vnets s nid") (auto simp: holder_def)
  have ok: "n_oid n = nid" "pool_ok (n_leases n)" "- (2 ^ 31) \<le> nid" "nid < 2 ^ 31"
    "nid \<notin> net_locks s" "lease_db s = db_fine"
    using assms(1) n(1) by (auto simp: nets_ok_def)
  obtain rc mac p where set: "pool_set db_fine (net_junk s) vid ?ip (n_leases n) = (rc, mac, p)" by (metis prod_cases3)
  have rc: "rc \<noteq> 0" using pool.set_new [OF ok(2) _ assms(4)] set n(2) by (metis option.distinct(1))
  have p: "pool_ok p" "pool_owner p = pool_owner (n_leases n)"
    using pool.set_ok [OF ok(2) set] pool.set_fail [OF ok(2) set rc] by blast+
  let ?s = "s\<lparr>vnets := (vnets s)(nid \<mapsto> n\<lparr>n_leases := p\<rparr>)\<rparr>"
  have "get_nic_by_id (vector_value nic ''NETWORK_ID'') = Some nid"
    by (simp add: get_nic_by_id_def assms(3) extract_int_string [OF ok(3,4)])
  then have "vnpool_nic_attribute uid vid nic s = Done ((-1, nic), ?s)"
    using assms(2,3) denotes_nonempty [OF assms(4)] n(1) ok(5,6) set rc
    by (simp add: vnpool_nic_attribute_def int_string_nonempty with_net_def vnet_nic_attribute_def)
  then have g: "get_network_leases uid vid [Some nic] s = Done (-1, [Some nic], ?s)" by simp
  have h: "nets_ok ?s" "holder ?s = holder s"
    using nets_ok_upd [OF assms(1) n(1)] ok(1) p n(1)
    by (simp, simp add: fun_eq_iff holder_upd) (simp add: holder_def)
  obtain s' where "release_nic (Some nic) ?s = Done s'" "holder s' = (holder s)((nid, x) := None)"
    using release_nic_spec [OF h(1) assms(3,4)] assms(5) h(2) by auto
  then show ?thesis using g by (auto simp: insert_leases_def)
qed

theorem failed_insert_frees_foreign_lease_witness:
  "holder nets3 (3, ip1) = Some 5 \<and>
   (\<exists>ns' s'. insert_leases 0 9 [Some (nic_by_id (ip_to_string ip1))] nets3 = Done (-1, ns', s') \<and> holder s' (3, ip1) = None)"
  using failed_insert_frees_foreign_lease [OF nets3_ok, of "nic_by_id (ip_to_string ip1)" 3 ip1 5 0 9]
  by (auto simp: nic_by_id_def vector_value_def nets3_holder)

end
