(* ===== verification/Templates.thy ===== *)
theory Templates
  imports StdMap IoStream "HOL-Library.List_Lexorder" "HOL-Library.Char_ord"
begin

text \<open>
  src/common/Attribute.cc, src/template/Template.cc, the restricted attributes of
  src/vm/VirtualMachineTemplate.cc and src/image/ImageTemplate.cc, and the parsing of the context in
  src/vm/VirtualMachine.cc: attributes and templates as the objects are created from them.

  A template is a multimap, a list in the order of the names where attributes of one name stay in the order in which
  they were set.  Nodes of an XML document are a tree as libxml2 builds it.  The parser for the variables of a
  template is a parameter.
\<close>

subsection \<open>Attributes\<close>

type_synonym vector_map = "(string, string) stdmap"

datatype attr = Single string | Vector vector_map

definition magic_sep :: string where
  "magic_sep = ''@^_^@''"

definition pair_string :: "string \<times> string \<Rightarrow> string" where
  "pair_string nv = fst nv @ ''='' @ snd nv"

fun separated :: "string \<Rightarrow> string list \<Rightarrow> string" where
  "separated sep [] = []"
| "separated sep [x] = x"
| "separated sep (x # y # xs) = x @ sep @ separated sep (y # xs)"

text \<open>\<open>VectorAttribute::marshall\<close>: null for an attribute without values.\<close>

definition vector_marshall :: "string \<Rightarrow> vector_map \<Rightarrow> string option" where
  "vector_marshall sep m = (if m = [] then None else Some (separated sep (map pair_string m)))"

text \<open>\<open>string::find\<close> of a string, its position.\<close>

fun find_sub :: "string \<Rightarrow> string \<Rightarrow> nat option" where
  "find_sub sep [] = (if sep = [] then Some 0 else None)"
| "find_sub sep (c # s) = (if take (length sep) (c # s) = sep then Some 0 else map_option Suc (find_sub sep s))"

text \<open>One piece \<open>name=value\<close> goes into the map, which keeps the first value of a name; a piece without \<open>=\<close> is skipped.\<close>

definition add_pair :: "string \<Rightarrow> vector_map \<Rightarrow> vector_map" where
  "add_pair tmp m = (if CHR ''='' \<in> set tmp
     then minsert (takeWhile (\<lambda>c. c \<noteq> CHR ''='') tmp) (drop 1 (dropWhile (\<lambda>c. c \<noteq> CHR ''='') tmp)) m else m)"

text \<open>\<open>VectorAttribute::unmarshall\<close>: the loop goes on after each separator; \<open>None\<close> is a loop that never ends.\<close>

partial_function (option) vector_unmarshall :: "string \<Rightarrow> string \<Rightarrow> vector_map \<Rightarrow> vector_map option" where
  "vector_unmarshall sep s m = (case find_sub sep s of
     None \<Rightarrow> Some (add_pair s m)
   | Some e \<Rightarrow> vector_unmarshall sep (drop (e + length sep) s) (add_pair (take e s) m))"

definition vector_replace :: "string \<Rightarrow> string \<Rightarrow> vector_map \<Rightarrow> vector_map" where
  "vector_replace n v m = minsert n v (merase n m)"

definition attr_value :: "string \<Rightarrow> vector_map \<Rightarrow> string" where
  "attr_value n m = (case mfind m n of None \<Rightarrow> [] | Some v \<Rightarrow> v)"

definition value_xml :: "string \<times> string \<Rightarrow> string" where
  "value_xml nv = (if fst nv = [] then []
     else if snd nv = [] then ''<'' @ fst nv @ ''/>''
     else ''<'' @ fst nv @ ''><![CDATA['' @ snd nv @ '']]></'' @ fst nv @ ''>'')"

fun attr_to_xml :: "string \<Rightarrow> attr \<Rightarrow> string" where
  "attr_to_xml n (Single v) = ''<'' @ n @ ''><![CDATA['' @ v @ '']]></'' @ n @ ''>''"
| "attr_to_xml n (Vector m) = ''<'' @ n @ ''>'' @ concat (map value_xml m) @ ''</'' @ n @ ''>''"

fun attr_marshall :: "string \<Rightarrow> attr \<Rightarrow> string option" where
  "attr_marshall sep (Single v) = Some v"
| "attr_marshall sep (Vector m) = vector_marshall sep m"

subsection \<open>Templates\<close>

record tmpl =
  attributes :: "(string \<times> attr) list"
  replace_mode :: bool
  separator :: char
  xml_root :: string

fun attr_insert :: "string \<Rightarrow> attr \<Rightarrow> (string \<times> attr) list \<Rightarrow> (string \<times> attr) list" where
  "attr_insert n a [] = [(n, a)]"
| "attr_insert n a ((n', a') # xs) = (if n < n' then (n, a) # (n', a') # xs else (n', a') # attr_insert n a xs)"

definition attr_range :: "string \<Rightarrow> (string \<times> attr) list \<Rightarrow> attr list" where
  "attr_range n xs = map snd (filter (\<lambda>x. fst x = n) xs)"

definition attr_erase :: "string \<Rightarrow> (string \<times> attr) list \<Rightarrow> (string \<times> attr) list" where
  "attr_erase n xs = filter (\<lambda>x. fst x \<noteq> n) xs"

definition tmpl_set :: "string \<Rightarrow> attr \<Rightarrow> tmpl \<Rightarrow> tmpl" where
  "tmpl_set n a t =
     (let xs = (if replace_mode t then attr_erase n (attributes t) else attributes t)
      in t\<lparr>attributes := attr_insert n a xs\<rparr>)"

text \<open>\<open>get\<close> and \<open>remove\<close> append what they find to the vector they are given and return how many that are.\<close>

definition tmpl_get :: "string \<Rightarrow> attr list \<Rightarrow> tmpl \<Rightarrow> nat \<times> attr list" where
  "tmpl_get n vs t = (length (attr_range n (attributes t)), vs @ attr_range n (attributes t))"

definition tmpl_remove :: "string \<Rightarrow> attr list \<Rightarrow> tmpl \<Rightarrow> nat \<times> attr list \<times> tmpl" where
  "tmpl_remove n vs t = (length (attr_range n (attributes t)), vs @ attr_range n (attributes t),
     t\<lparr>attributes := attr_erase n (attributes t)\<rparr>)"

definition tmpl_erase :: "string \<Rightarrow> tmpl \<Rightarrow> nat \<times> tmpl" where
  "tmpl_erase n t = (length (attr_range n (attributes t)), t\<lparr>attributes := attr_erase n (attributes t)\<rparr>)"

definition tmpl_get_string :: "string \<Rightarrow> tmpl \<Rightarrow> string" where
  "tmpl_get_string n t = (case tmpl_get n [] t of (0, _) \<Rightarrow> [] | (_, vs) \<Rightarrow>
     (case hd vs of Single v \<Rightarrow> v | Vector _ \<Rightarrow> []))"

text \<open>The integer: \<open>old\<close> is what the caller's variable holds, which a failed extraction leaves alone.\<close>

definition tmpl_get_int :: "int \<Rightarrow> string \<Rightarrow> tmpl \<Rightarrow> bool \<times> int" where
  "tmpl_get_int old n t = (let s = tmpl_get_string n t in
     if s = [] then (False, 0) else (True, fst (extract_int old (istr s))))"

definition tmpl_marshall :: "char \<Rightarrow> tmpl \<Rightarrow> string" where
  "tmpl_marshall delim t = concat (map (\<lambda>(n, a). case attr_marshall magic_sep a of None \<Rightarrow> []
     | Some s \<Rightarrow> n @ ''='' @ s @ [delim]) (attributes t))"

definition tmpl_to_xml :: "tmpl \<Rightarrow> string" where
  "tmpl_to_xml t = ''<'' @ xml_root t @ ''>'' @ concat (map (\<lambda>(n, a). attr_to_xml n a) (attributes t)) @
     ''</'' @ xml_root t @ ''>''"

text \<open>\<open>to_str\<close> prints through the pointer that \<open>marshall\<close> returns, which is null for an empty vector.\<close>

fun to_str_loop :: "char \<Rightarrow> (string \<times> attr) list \<Rightarrow> string \<Rightarrow> string res" where
  "to_str_loop sep [] os = Done os"
| "to_str_loop sep ((n, a) # xs) os = (case attr_marshall '','' a of None \<Rightarrow> Segv
     | Some s \<Rightarrow> to_str_loop sep xs (os @ n @ [sep] @ s @ [CHR 0x0A]))"

definition tmpl_to_str :: "tmpl \<Rightarrow> string res" where
  "tmpl_to_str t = to_str_loop (separator t) (attributes t) []"

subsection \<open>Templates from XML\<close>

text \<open>An element with its children, a text or CDATA node with its content, or a node of another type.\<close>

datatype xml_node = Element string "xml_node list" | Content string | Other_node

fun is_content :: "xml_node \<Rightarrow> bool" where
  "is_content (Content _) = True"
| "is_content _ = False"

fun is_element :: "xml_node \<Rightarrow> bool" where
  "is_element (Element _ _) = True"
| "is_element _ = False"

fun single_xml_att :: "xml_node \<Rightarrow> (string \<times> attr) option" where
  "single_xml_att (Element n (Content s # _)) = Some (n, Single s)"
| "single_xml_att _ = None"

fun vector_children :: "xml_node list \<Rightarrow> vector_map \<Rightarrow> vector_map" where
  "vector_children [] m = m"
| "vector_children (Element n (Content s # _) # xs) m = vector_children xs (vector_replace n s m)"
| "vector_children (_ # xs) m = vector_children xs m"

fun vector_xml_att :: "xml_node \<Rightarrow> (string \<times> attr) option" where
  "vector_xml_att (Element n (Element m cs # xs)) = Some (n, Vector (vector_children (Element m cs # xs) []))"
| "vector_xml_att _ = None"

definition add_xml_att :: "xml_node \<Rightarrow> tmpl \<Rightarrow> tmpl" where
  "add_xml_att x t = (if is_element x then
     (case single_xml_att x of Some (n, a) \<Rightarrow> tmpl_set n a t
      | None \<Rightarrow> (case vector_xml_att x of Some (n, a) \<Rightarrow> tmpl_set n a t | None \<Rightarrow> t)) else t)"

definition rebuild_attributes :: "xml_node list \<Rightarrow> tmpl \<Rightarrow> tmpl" where
  "rebuild_attributes children t = fold add_xml_att children (t\<lparr>attributes := []\<rparr>)"

subsection \<open>Restricted attributes\<close>

definition vm_restricted :: "string list" where
  "vm_restricted = [''CONTEXT/FILES'', ''DISK/SOURCE'', ''NIC/MAC'', ''NIC/VLAN_ID'', ''RANK'']"

definition image_restricted :: "string list" where
  "image_restricted = [''SOURCE'']"

definition sets_value :: "string \<Rightarrow> attr \<Rightarrow> bool" where
  "sets_value n a = (case a of Vector m \<Rightarrow> attr_value n m \<noteq> [] | Single _ \<Rightarrow> False)"

text \<open>
  \<open>check\<close>: the vector \<open>values\<close> is declared before the loop and never cleared, while the inner loop reads as many elements
  of it as the last \<open>get\<close> has found, from the beginning.
\<close>

fun check_restricted :: "string list \<Rightarrow> tmpl \<Rightarrow> attr list \<Rightarrow> string option" where
  "check_restricted [] t vs = None"
| "check_restricted (r # rs) t vs =
     (if CHR ''/'' \<in> set r
      then (case tmpl_get (takeWhile (\<lambda>c. c \<noteq> CHR ''/'') r) vs t of (num, vs') \<Rightarrow>
              if \<exists>a \<in> set (take num vs'). sets_value (drop 1 (dropWhile (\<lambda>c. c \<noteq> CHR ''/'') r)) a then Some r
              else check_restricted rs t vs')
      else (case tmpl_get r vs t of (num, vs') \<Rightarrow>
              if num > 0 then Some r else check_restricted rs t vs'))"

definition vm_check :: "tmpl \<Rightarrow> string option" where
  "vm_check t = check_restricted vm_restricted t []"

definition image_check :: "tmpl \<Rightarrow> string option" where
  "image_check t = check_restricted image_restricted t []"

subsection \<open>The context of a virtual machine\<close>

definition context_sep :: string where
  "context_sep = '' @^_^@ ''"

text \<open>\<open>parse\<close> is \<open>parse_template_attribute\<close>: its result code and the text with the variables replaced.\<close>

definition parse_context ::
  "(string \<Rightarrow> int \<times> string) \<Rightarrow> string \<Rightarrow> tmpl \<Rightarrow> (int \<times> string \<times> tmpl) option" where
  "parse_context parse dev_prefix t = (case tmpl_remove ''CONTEXT'' [] t of (num, array_context, t1) \<Rightarrow>
     if num = 0 then Some (0, [], t1)
     else if num > 1 then Some (- 1, ''Only one CONTEXT attribute can be defined.'', t1)
     else (case hd array_context of Single _ \<Rightarrow> Some (- 1, ''Wrong format for CONTEXT attribute.'', t1)
       | Vector m \<Rightarrow>
           (case vector_marshall context_sep m of None \<Rightarrow> Some (- 1, [], t1)
            | Some str \<Rightarrow>
                (case parse str of (rc, parsed) \<Rightarrow>
                   if rc = 0
                   then map_option (\<lambda>c. (0, [], tmpl_set ''CONTEXT'' (Vector
                          (if attr_value ''TARGET'' c = [] then vector_replace ''TARGET'' (dev_prefix @ ''b'') c else c)) t1))
                        (vector_unmarshall context_sep parsed [])
                   else Some (rc, [], t1)))))"

end
