(* ===== verification/HostPool.thy ===== *)
theory HostPool
  imports Prelude
begin

text \<open>
  Hosts and the capacity they have allocated to virtual machines: \<open>HostShare\<close> (include/HostShare.h),
  the capacity part of \<open>Host\<close> (include/Host.h) and of \<open>HostPool\<close> (include/HostPool.h).
\<close>

datatype host_state = H_INIT | H_MONITORING | H_MONITORED | H_ERROR | H_DISABLED

record host_share =
  disk_usage :: int
  mem_usage :: int
  cpu_usage :: int
  max_disk :: int
  max_mem :: int
  max_cpu :: int
  running_vms :: int

record host =
  h_state :: host_state
  hostname_of :: string
  vmm_mad_of :: string
  vnm_mad_of :: string
  tm_mad_of :: string
  last_monitored :: int
  host_share :: host_share

type_synonym host_pool = "int \<Rightarrow> host option"

definition new_share :: "int \<Rightarrow> int \<Rightarrow> int \<Rightarrow> host_share" where
  "new_share d m c = \<lparr>disk_usage = 0, mem_usage = 0, cpu_usage = 0,
     max_disk = d, max_mem = m, max_cpu = c, running_vms = 0\<rparr>"

definition share_add :: "int \<Rightarrow> int \<Rightarrow> int \<Rightarrow> host_share \<Rightarrow> host_share" where
  "share_add cpu mem disk sh = sh\<lparr>cpu_usage := cpu_usage sh + cpu, mem_usage := mem_usage sh + mem,
     disk_usage := disk_usage sh + disk, running_vms := running_vms sh + 1\<rparr>"

definition share_del :: "int \<Rightarrow> int \<Rightarrow> int \<Rightarrow> host_share \<Rightarrow> host_share" where
  "share_del cpu mem disk sh = sh\<lparr>cpu_usage := cpu_usage sh - cpu, mem_usage := mem_usage sh - mem,
     disk_usage := disk_usage sh - disk, running_vms := running_vms sh - 1\<rparr>"

definition share_test :: "int \<Rightarrow> int \<Rightarrow> int \<Rightarrow> host_share \<Rightarrow> bool" where
  "share_test cpu mem disk sh \<longleftrightarrow> max_cpu sh - cpu_usage sh \<ge> cpu \<and>
     max_mem sh - mem_usage sh \<ge> mem \<and> max_disk sh - disk_usage sh \<ge> disk"

text \<open>\<open>Host::touch\<close>, \<open>disable\<close>, \<open>enable\<close>, \<open>isEnabled\<close>.\<close>

definition host_touch :: "int \<Rightarrow> bool \<Rightarrow> 'a host_scheme \<Rightarrow> 'a host_scheme" where
  "host_touch t success h = (let h = h\<lparr>last_monitored := t\<rparr> in
     if h_state h \<noteq> H_DISABLED
     then h\<lparr>h_state := (if success then H_MONITORED else H_ERROR)\<rparr> else h)"

definition host_disable :: "host \<Rightarrow> host" where
  "host_disable h = h\<lparr>h_state := H_DISABLED\<rparr>"

definition host_enable :: "host \<Rightarrow> host" where
  "host_enable h = h\<lparr>h_state := H_INIT\<rparr>"

definition host_isEnabled :: "host \<Rightarrow> bool" where
  "host_isEnabled h \<longleftrightarrow> h_state h \<noteq> H_DISABLED"

text \<open>\<open>HostPool::add_capacity\<close>, \<open>del_capacity\<close>, \<open>drop\<close>.  The host mutex is taken and released
  inside each of them.\<close>

definition hpool_add_capacity :: "int \<Rightarrow> int \<Rightarrow> int \<Rightarrow> int \<Rightarrow> host_pool \<Rightarrow> host_pool" where
  "hpool_add_capacity oid cpu mem disk hp = (case hp oid of
     None \<Rightarrow> hp
   | Some h \<Rightarrow> hp(oid \<mapsto> h\<lparr>host_share := share_add cpu mem disk (host_share h)\<rparr>))"

definition hpool_del_capacity :: "int \<Rightarrow> int \<Rightarrow> int \<Rightarrow> int \<Rightarrow> host_pool \<Rightarrow> host_pool" where
  "hpool_del_capacity oid cpu mem disk hp = (case hp oid of
     None \<Rightarrow> hp
   | Some h \<Rightarrow> hp(oid \<mapsto> h\<lparr>host_share := share_del cpu mem disk (host_share h)\<rparr>))"

definition hpool_drop :: "int \<Rightarrow> host_pool \<Rightarrow> int \<times> host_pool" where
  "hpool_drop oid hp = (case hp oid of
     None \<Rightarrow> (-1, hp)
   | Some h \<Rightarrow> if running_vms (host_share h) > 0 then (-1, hp) else (0, hp(oid := None)))"

end
