(* ===== verification/ImageManager.thy ===== *)
theory ImageManager
  imports IoStream
begin

text \<open>
  The image repository: \<open>Image\<close> (include/Image.h, src/image/Image.cc), the image manager
  (src/image/ImageManagerActions.cc) and the answers of its driver (src/image/ImageManagerDriver.cc).

  \<open>img_locks\<close> is the set of images whose mutex is held, \<open>imd_up\<close> tells whether the image driver is
  loaded, \<open>i_error\<close> is the MESSAGE of the image's ERROR attribute, \<open>imd_q\<close> holds the requests written to it.  \<open>img_rows\<close> are the rows of \<open>image_pool\<close>,
  \<open>img_db_ok\<close> the outcome of a write, and \<open>img_junk\<close> the value of a local that is never assigned.
\<close>

datatype ImageType = IT_OS | IT_CDROM | IT_DATABLOCK

datatype ImageState = IMG_INIT | IMG_READY | IMG_USED | IMG_DISABLED | IMG_LOCKED | IMG_ERROR

record image =
  i_oid :: int
  i_uid :: int
  i_name :: string
  i_type :: ImageType
  persistent_img :: int
  i_source :: string
  i_path :: string
  i_fstype :: string
  i_size :: int
  i_state :: ImageState
  running_vms_i :: int
  i_group_u :: int
  i_other_u :: int
  i_error :: "string option"

datatype imd_msg = IMD_CP int string | IMD_MV int string string | IMD_MKFS int string int | IMD_RM int string

record repo =
  images :: "int \<Rightarrow> image option"
  img_locks :: "int set"
  imd_up :: bool
  imd_q :: "imd_msg list"
  img_rows :: "int \<Rightarrow> image option"
  img_db_ok :: bool
  img_junk :: int

definition isPersistent :: "image \<Rightarrow> bool" where
  "isPersistent i \<longleftrightarrow> persistent_img i = 1"

definition isPublic :: "image \<Rightarrow> bool" where
  "isPublic i \<longleftrightarrow> i_group_u i = 1 \<or> i_other_u i = 1"

definition set_persistent :: "bool \<Rightarrow> image \<Rightarrow> int \<times> image" where
  "set_persistent persis i =
     (if running_vms_i i \<noteq> 0 then (-1, i)
      else if persis then (if isPublic i then (-1, i) else (0, i\<lparr>persistent_img := 1\<rparr>))
      else (0, i\<lparr>persistent_img := 0\<rparr>))"

definition inc_running :: "image \<Rightarrow> image" where
  "inc_running i = i\<lparr>running_vms_i := running_vms_i i + 1\<rparr>"

definition dec_running :: "image \<Rightarrow> image" where
  "dec_running i = i\<lparr>running_vms_i := running_vms_i i - 1\<rparr>"

text \<open>\<open>ipool->update(img)\<close> on an image that is being worked on.\<close>

definition img_update :: "image \<Rightarrow> repo \<Rightarrow> repo" where
  "img_update i r = (if img_db_ok r then r\<lparr>img_rows := (img_rows r)(i_oid i \<mapsto> i)\<rparr> else r)"

text \<open>\<open>img = ipool->get(iid, true)\<close>, a body that says what becomes of the image (\<open>None\<close>: dropped) and
  the release of the mutex, when the body did it (\<open>True\<close>).\<close>

definition with_img :: "int \<Rightarrow> 'r \<Rightarrow> (image \<Rightarrow> repo \<Rightarrow> 'r \<times> bool \<times> image option \<times> repo) \<Rightarrow> repo \<Rightarrow> ('r \<times> repo) res" where
  "with_img iid absent body r = (case images r iid of
     None \<Rightarrow> Done (absent, r)
   | Some i \<Rightarrow> if iid \<in> img_locks r then Blocked else
       let (rc, unlocked, io, r') = body i r
       in Done (rc, r'\<lparr>images := (images r')(iid := io),
                       img_locks := (if unlocked then img_locks r' else insert iid (img_locks r'))\<rparr>))"

subsection \<open>Operations\<close>

definition acquire_obj :: "image \<Rightarrow> repo \<Rightarrow> int \<times> image \<times> repo" where
  "acquire_obj i r = (case i_state i of
     IMG_READY \<Rightarrow> let i = (inc_running i)\<lparr>i_state := IMG_USED\<rparr> in (0, i, img_update i r)
   | IMG_USED \<Rightarrow> if isPersistent i then (-1, i, r)
       else let i = inc_running i in (0, i, img_update i r)
   | _ \<Rightarrow> (-1, i, r))"

text \<open>\<open>acquire_image(id)\<close>: on success the image is returned locked.\<close>

definition acquire_image :: "int \<Rightarrow> repo \<Rightarrow> (image option \<times> repo) res" where
  "acquire_image iid = with_img iid None (\<lambda>i r.
     let (rc, i', r') = acquire_obj i r
     in if rc \<noteq> 0 then (None, True, Some i', r') else (Some i', False, Some i', r'))"

definition move_image :: "image \<Rightarrow> string \<Rightarrow> repo \<Rightarrow> repo" where
  "move_image i source r = (if \<not> imd_up r then r
     else r\<lparr>imd_q := imd_q r @ [IMD_MV (i_oid i) source (i_source i)]\<rparr>)"

definition disk_file :: "string \<Rightarrow> int \<Rightarrow> string" where
  "disk_file disk_path disk_num = disk_path @ ''/disk.'' @ int_string disk_num"

text \<open>The image to save a disk as: without it the code still calls \<open>img->unlock()\<close>, on a null
  pointer.\<close>

definition save_as :: "int \<Rightarrow> string \<Rightarrow> int \<Rightarrow> repo \<Rightarrow> repo res" where
  "save_as sid disk_path disk_num r = (case images r sid of
     None \<Rightarrow> Segv
   | Some i \<Rightarrow> bind_res (with_img sid () (\<lambda>i r. ((), True, Some i, move_image i (disk_file disk_path disk_num) r)) r)
       (\<lambda>(_, r). Done r))"

definition disk_to_image :: "string \<Rightarrow> int \<Rightarrow> string \<Rightarrow> repo \<Rightarrow> repo res" where
  "disk_to_image disk_path disk_num save_id r =
     save_as (fst (extract_int (img_junk r) (istr save_id))) disk_path disk_num r"

definition release_obj :: "string \<Rightarrow> int \<Rightarrow> image \<Rightarrow> repo \<Rightarrow> bool \<times> image \<times> repo" where
  "release_obj disk_path disk_num i r = (
     let i = dec_running i in
     if isPersistent i \<and> disk_path \<noteq> [] then
       let i = i\<lparr>i_state := IMG_LOCKED\<rparr>
       in (False, i, img_update i (move_image i (disk_file disk_path disk_num) r))
     else let i = (if running_vms_i i = 0 then i\<lparr>i_state := IMG_READY\<rparr> else i)
       in (True, i, img_update i r))"

text \<open>\<open>release_image\<close>; the first result of the body tells whether the SAVE_AS part is reached.\<close>

definition release_image :: "int \<Rightarrow> string \<Rightarrow> int \<Rightarrow> string \<Rightarrow> repo \<Rightarrow> repo res" where
  "release_image iid disk_path disk_num save_id r = (
     let sid = (if save_id = [] then -1 else fst (extract_int (-1) (istr save_id))) in
     bind_res (with_img iid False (\<lambda>i r.
         if i_state i = IMG_USED
         then let (save, i', r') = release_obj disk_path disk_num i r in (save, True, Some i', r')
         else (False, True, Some i, r)) r)
       (\<lambda>(save, r). if save \<and> sid \<noteq> -1 then save_as sid disk_path disk_num r else Done r))"

definition release_image_str :: "string \<Rightarrow> string \<Rightarrow> int \<Rightarrow> string \<Rightarrow> repo \<Rightarrow> repo res" where
  "release_image_str iid disk_path disk_num save_id r =
     release_image (fst (extract_int (img_junk r) (istr iid))) disk_path disk_num save_id r"

definition enable_obj :: "bool \<Rightarrow> image \<Rightarrow> repo \<Rightarrow> int \<times> image \<times> repo" where
  "enable_obj to_enable i r =
     (if to_enable then
        (case i_state i of
           IMG_DISABLED \<Rightarrow> let i = i\<lparr>i_state := IMG_READY\<rparr> in (0, i, img_update i r)
         | IMG_ERROR \<Rightarrow> let i = i\<lparr>i_state := IMG_READY\<rparr> in (0, i, img_update i r)
         | IMG_READY \<Rightarrow> (0, i, r)
         | _ \<Rightarrow> (-1, i, r))
      else
        (case i_state i of
           IMG_READY \<Rightarrow> let i = i\<lparr>i_state := IMG_DISABLED\<rparr> in (0, i, img_update i r)
         | IMG_ERROR \<Rightarrow> let i = i\<lparr>i_state := IMG_DISABLED\<rparr> in (0, i, img_update i r)
         | IMG_DISABLED \<Rightarrow> (0, i, r)
         | _ \<Rightarrow> (-1, i, r)))"

definition enable_image :: "int \<Rightarrow> bool \<Rightarrow> repo \<Rightarrow> (int \<times> repo) res" where
  "enable_image iid to_enable = with_img iid (-1) (\<lambda>i r.
     let (rc, i', r') = enable_obj to_enable i r in (rc, True, Some i', r'))"

text \<open>\<open>ipool->drop(img)\<close>: without its row the object is invalid, and \<open>get\<close> no longer finds it.\<close>

definition img_drop :: "image \<Rightarrow> repo \<Rightarrow> image option \<times> repo" where
  "img_drop i r = (if img_db_ok r then (None, r\<lparr>img_rows := (img_rows r)(i_oid i := None)\<rparr>) else (Some i, r))"

text \<open>\<open>delete_image\<close>: without a driver it returns with the image still locked.\<close>

definition delete_image :: "int \<Rightarrow> repo \<Rightarrow> (int \<times> repo) res" where
  "delete_image iid = with_img iid (-1) (\<lambda>i r.
     if i_state i = IMG_USED \<or> i_state i = IMG_READY \<and> running_vms_i i \<noteq> 0 then (-1, True, Some i, r)
     else if \<not> imd_up r then (-1, False, Some i, r)
     else if i_source i = [] then let (io, r') = img_drop i r in (0, True, io, r')
     else (0, True, Some i, r\<lparr>imd_q := imd_q r @ [IMD_RM (i_oid i) (i_source i)]\<rparr>))"

definition register_image :: "int \<Rightarrow> repo \<Rightarrow> (int \<times> repo) res" where
  "register_image iid r = (if \<not> imd_up r then Done (-1, r) else
     with_img iid (-1) (\<lambda>i r.
       if i_path i = [] then
         (if i_type i = IT_DATABLOCK then
            (0, True, Some i, r\<lparr>imd_q := imd_q r @ [IMD_MKFS (i_oid i) (i_fstype i) (i_size i)]\<rparr>)
          else if i_source i \<noteq> ''-'' then
            let i = i\<lparr>i_state := IMG_READY\<rparr> in (0, True, Some i, img_update i r)
          else (0, True, Some i, r))
       else (0, True, Some i, r\<lparr>imd_q := imd_q r @ [IMD_CP (i_oid i) (i_path i)]\<rparr>)) r)"

text \<open>The driver's answer, parsed into its action, the image it names and the outcome: the source and
  the size that follow SUCCESS, or the rest of the line.  An RM drops the image whatever the outcome;
  a LOG line changes nothing.\<close>

datatype imd_verb = A_CP | A_MV | A_MKFS | A_RM | A_LOG

datatype imd_result = Imd_success string int | Imd_failure string

fun imd_error :: "imd_verb \<Rightarrow> string" where
  "imd_error A_CP = ''Error copying image in the repository''"
| "imd_error A_MV = ''Error saving image to the repository''"
| "imd_error A_MKFS = ''Error creating datablock''"
| "imd_error _ = []"

definition img_failed :: "imd_verb \<Rightarrow> string \<Rightarrow> image \<Rightarrow> image" where
  "img_failed verb info i =
     (if info \<noteq> [] \<and> hd info \<noteq> CHR ''-'' then i\<lparr>i_error := Some (imd_error verb @ '': '' @ info)\<rparr> else i)
       \<lparr>i_state := IMG_ERROR\<rparr>"

definition imd_protocol :: "imd_verb \<Rightarrow> int \<Rightarrow> imd_result \<Rightarrow> repo \<Rightarrow> (unit \<times> repo) res" where
  "imd_protocol verb iid result = with_img iid () (\<lambda>i r.
     if verb = A_LOG then ((), True, Some i, r)
     else if verb = A_RM then (let (io, r') = img_drop i r in ((), True, io, r'))
     else case result of
         Imd_failure info \<Rightarrow> let i = img_failed verb info i in ((), True, Some i, img_update i r)
       | Imd_success source size_mb \<Rightarrow>
           let i = (if verb \<noteq> A_MV \<or> i_source i = ''-'' then i\<lparr>i_source := source\<rparr> else i)
                     \<lparr>i_size := size_mb, i_state := IMG_READY\<rparr>
           in ((), True, Some i, img_update i r))"

subsection \<open>Invariant\<close>

text \<open>The counter of VMs and the state agree, and a persistent image has one VM at most.\<close>

definition img_ok :: "image \<Rightarrow> bool" where
  "img_ok i \<longleftrightarrow> running_vms_i i \<ge> 0 \<and> (i_state i = IMG_USED \<longleftrightarrow> running_vms_i i > 0) \<and>
     (isPersistent i \<longrightarrow> running_vms_i i \<le> 1)"

definition image_ok :: "int \<Rightarrow> repo \<Rightarrow> bool" where
  "image_ok iid r \<longleftrightarrow> (\<forall>i. images r iid = Some i \<longrightarrow> i_oid i = iid \<and> img_ok i)"

definition repo_ok :: "repo \<Rightarrow> bool" where
  "repo_ok r \<longleftrightarrow> (\<forall>iid. image_ok iid r)"

lemma img_update_frame [simp]:
  "images (img_update i r) = images r" "img_locks (img_update i r) = img_locks r"
  "imd_up (img_update i r) = imd_up r" "imd_q (img_update i r) = imd_q r"
  "img_db_ok (img_update i r) = img_db_ok r"
  by (simp_all add: img_update_def)

lemma move_image_frame [simp]:
  "images (move_image i s r) = images r" "img_locks (move_image i s r) = img_locks r"
  "imd_up (move_image i s r) = imd_up r" "img_rows (move_image i s r) = img_rows r"
  "img_db_ok (move_image i s r) = img_db_ok r"
  by (simp_all add: move_image_def)

text \<open>A body that leaves the other images alone and, if \<open>b\<close> is asked, keeps the identifier and the invariant of its own.\<close>

definition img_kept :: "bool \<Rightarrow> image \<Rightarrow> repo \<Rightarrow> 'r \<times> bool \<times> image option \<times> repo \<Rightarrow> bool" where
  "img_kept b i r = (\<lambda>(rc, u, io, r'). images r' = images r \<and>
     (b \<longrightarrow> img_ok i \<longrightarrow> (\<forall>i'. io = Some i' \<longrightarrow> i_oid i' = i_oid i \<and> img_ok i')))"

lemma img_kept_simp [simp]:
  "img_kept b i r (rc, u, io, r') \<longleftrightarrow> images r' = images r \<and>
     (b \<longrightarrow> img_ok i \<longrightarrow> (\<forall>i'. io = Some i' \<longrightarrow> i_oid i' = i_oid i \<and> img_ok i'))"
  by (simp add: img_kept_def)

lemma with_img_ok:
  assumes "\<And>i. images r k = Some i \<Longrightarrow> img_kept (k = iid) i r (body i r)"
    and "image_ok iid r" "with_img k a body r = Done (rc, r')"
  shows "image_ok iid r'"
proof (cases "images r k")
  case None
  then show ?thesis using assms by (simp add: with_img_def)
next
  case (Some i)
  obtain rc1 u io r1 where b: "body i r = (rc1, u, io, r1)" by (metis prod_cases4)
  have kept: "images r1 = images r" "k = iid \<Longrightarrow> img_ok i \<Longrightarrow> io = Some i' \<Longrightarrow> i_oid i' = i_oid i \<and> img_ok i'" for i'
    using assms(1) [OF Some] unfolding b img_kept_simp by blast+
  have "images r' = (images r1)(k := io)"
    using assms(3) Some b by (auto simp: with_img_def split: if_splits)
  then have im: "images r' = (images r)(k := io)" by (simp only: kept(1))
  show ?thesis
  proof (cases "k = iid")
    case True
    then show ?thesis using kept(2) assms(2) Some im unfolding image_ok_def fun_upd_apply by metis
  next
    case False
    then show ?thesis using assms(2) im by (simp add: image_ok_def)
  qed
qed

text \<open>What the bodies do to one image.\<close>

lemma acquire_obj_kept:
  assumes "acquire_obj i r = (rc, i', r')"
  shows "images r' = images r \<and> (img_ok i \<longrightarrow> i_oid i' = i_oid i \<and> img_ok i')"
  using assms by (auto simp: acquire_obj_def img_ok_def isPersistent_def inc_running_def Let_def
    split: ImageState.splits if_splits)

lemma release_obj_kept:
  assumes "i_state i = IMG_USED" "release_obj p n i r = (b, i', r')"
  shows "images r' = images r \<and> (img_ok i \<longrightarrow> i_oid i' = i_oid i \<and> img_ok i')"
  using assms by (auto simp: release_obj_def img_ok_def isPersistent_def dec_running_def Let_def split: if_splits)

lemma enable_obj_kept:
  assumes "enable_obj e i r = (rc, i', r')"
  shows "images r' = images r \<and> (img_ok i \<longrightarrow> i_oid i' = i_oid i \<and> img_ok i')"
  using assms by (auto simp: enable_obj_def img_ok_def isPersistent_def Let_def split: ImageState.splits if_splits)

lemma set_persistent_ok:
  assumes "img_ok i"
  shows "img_ok (snd (set_persistent b i))"
  using assms by (auto simp: set_persistent_def img_ok_def isPersistent_def)

lemma acquire_image_ok:
  assumes "image_ok iid r" "acquire_image k r = Done (x, r')"
  shows "image_ok iid r'"
proof (rule with_img_ok [OF _ assms(1) assms(2) [unfolded acquire_image_def]])
  fix i
  obtain c j s where "acquire_obj i r = (c, j, s)" by (metis prod_cases3)
  with acquire_obj_kept [OF this] show "img_kept (k = iid) i r (let (rc, i', r') = acquire_obj i r
     in if rc \<noteq> 0 then (None, True, Some i', r') else (Some i', False, Some i', r'))"
    by (auto split: if_splits)
qed

lemma save_as_images:
  assumes "save_as sid p n r = Done r'"
  shows "images r' = images r"
proof -
  obtain i where i: "images r sid = Some i" using assms by (auto simp: save_as_def split: option.splits)
  have "sid \<notin> img_locks r" using assms i by (auto simp: save_as_def with_img_def)
  then have "(move_image i (disk_file p n) r)\<lparr>images := (images r)(sid := Some i)\<rparr> = r'"
    using assms i by (simp add: save_as_def with_img_def)
  with i show ?thesis by (auto simp: fun_eq_iff)
qed

lemma image_ok_cong: "images r' = images r \<Longrightarrow> image_ok iid r' = image_ok iid r"
  by (simp add: image_ok_def)

lemma release_image_ok:
  assumes "image_ok iid r" "release_image k p n sv r = Done r'"
  shows "image_ok iid r'"
proof -
  let ?body = "\<lambda>i r. if i_state i = IMG_USED
     then let (save, i', r') = release_obj p n i r in (save, True, Some i', r') else (False, True, Some i, r)"
  obtain save r1 where r1: "with_img k False ?body r = Done (save, r1)"
    and tl: "(\<exists>sid. save_as sid p n r1 = Done r') \<or> r' = r1"
    using assms(2) by (auto simp: release_image_def Let_def bind_res_Done_iff split: if_splits)
  have "img_kept (k = iid) i r (?body i r)" for i
  proof (cases "i_state i = IMG_USED")
    case True
    obtain c j s where "release_obj p n i r = (c, j, s)" by (metis prod_cases3)
    with release_obj_kept [OF True this] True show ?thesis by auto
  qed auto
  then have "image_ok iid r1" using with_img_ok [OF _ assms(1) r1] by blast
  with tl show ?thesis using image_ok_cong save_as_images by metis
qed

lemma enable_image_ok:
  assumes "image_ok iid r" "enable_image k e r = Done (rc, r')"
  shows "image_ok iid r'"
proof (rule with_img_ok [OF _ assms(1) assms(2) [unfolded enable_image_def]])
  fix i
  obtain c j s where "enable_obj e i r = (c, j, s)" by (metis prod_cases3)
  with enable_obj_kept [OF this]
  show "img_kept (k = iid) i r (let (rc, i', r') = enable_obj e i r in (rc, True, Some i', r'))" by auto
qed

lemma delete_image_ok:
  assumes "image_ok iid r" "delete_image k r = Done (rc, r')"
  shows "image_ok iid r'"
  by (rule with_img_ok [OF _ assms(1) assms(2) [unfolded delete_image_def]]) (auto simp: img_drop_def Let_def)

text \<open>Registering an image, or the answer of the driver, makes it READY whatever its state was: the
  invariant is kept when no VM uses it.\<close>

definition img_idle :: "int \<Rightarrow> repo \<Rightarrow> bool" where
  "img_idle iid r \<longleftrightarrow> (case images r iid of None \<Rightarrow> True | Some i \<Rightarrow> i_state i \<noteq> IMG_USED)"

lemma register_image_ok:
  assumes "image_ok iid r" "k = iid \<longrightarrow> img_idle iid r" "register_image k r = Done (rc, r')"
  shows "image_ok iid r'"
proof (cases "imd_up r")
  case True
  then have w: "register_image k r = with_img k (-1) (\<lambda>i r.
       if i_path i = [] then
         (if i_type i = IT_DATABLOCK then
            (0, True, Some i, r\<lparr>imd_q := imd_q r @ [IMD_MKFS (i_oid i) (i_fstype i) (i_size i)]\<rparr>)
          else if i_source i \<noteq> ''-'' then
            let i = i\<lparr>i_state := IMG_READY\<rparr> in (0, True, Some i, img_update i r)
          else (0, True, Some i, r))
       else (0, True, Some i, r\<lparr>imd_q := imd_q r @ [IMD_CP (i_oid i) (i_path i)]\<rparr>)) r"
    by (simp add: register_image_def)
  show ?thesis
    by (rule with_img_ok [OF _ assms(1) assms(3) [unfolded w]])
       (use assms(2) in \<open>auto simp: img_idle_def img_ok_def isPersistent_def Let_def\<close>)
qed (use assms in \<open>simp add: register_image_def\<close>)

lemma imd_protocol_ok:
  assumes "image_ok iid r" "k = iid \<and> verb \<notin> {A_LOG, A_RM} \<longrightarrow> img_idle iid r" "imd_protocol verb k res r = Done (u, r')"
  shows "image_ok iid r'"
  by (rule with_img_ok [OF _ assms(1) assms(3) [unfolded imd_protocol_def]])
     (use assms(2) in \<open>auto simp: img_idle_def img_ok_def isPersistent_def img_drop_def img_failed_def Let_def
        split: imd_result.splits if_splits\<close>)

lemma img_ok_unused: "img_ok i \<Longrightarrow> i_state i \<noteq> IMG_USED \<Longrightarrow> running_vms_i i = 0"
  by (auto simp: img_ok_def)

subsection \<open>The repository as a state machine\<close>

text \<open>Who acquired an image unlocks it when its disk attributes are filled in.  \<open>repo_step\<close> is one call
  to the image manager or one answer of its driver, in any state.\<close>

definition img_unlock :: "int \<Rightarrow> repo \<Rightarrow> repo" where
  "img_unlock iid r = r\<lparr>img_locks := img_locks r - {iid}\<rparr>"

datatype repo_call = Acquires int | Releases int | Saves | Enables int | Deletes int | Registers int | Answers imd_verb int

inductive repo_step :: "repo_call \<Rightarrow> repo \<Rightarrow> repo \<Rightarrow> bool" where
  Acquire: "acquire_image iid r = Done (x, r') \<Longrightarrow> repo_step (Acquires iid) r (img_unlock iid r')"
| Release: "release_image iid path n save r = Done r' \<Longrightarrow> repo_step (Releases iid) r r'"
| Save: "disk_to_image path n save r = Done r' \<Longrightarrow> repo_step Saves r r'"
| Enable: "enable_image iid b r = Done (rc, r') \<Longrightarrow> repo_step (Enables iid) r r'"
| Delete: "delete_image iid r = Done (rc, r') \<Longrightarrow> repo_step (Deletes iid) r r'"
| Register: "register_image iid r = Done (rc, r') \<Longrightarrow> repo_step (Registers iid) r r'"
| Answer: "imd_protocol verb iid res r = Done (u, r') \<Longrightarrow> repo_step (Answers verb iid) r r'"

text \<open>What makes an image READY although a VM uses it: it is registered again, or the driver answers a CP, an MV or an
  MKFS for it.\<close>

definition disturbs :: "int \<Rightarrow> repo_call \<Rightarrow> repo \<Rightarrow> bool" where
  "disturbs iid c r \<longleftrightarrow> \<not> img_idle iid r \<and> (case c of Registers k \<Rightarrow> k = iid | Answers verb k \<Rightarrow> k = iid \<and> verb \<notin> {A_LOG, A_RM}
     | _ \<Rightarrow> False)"

definition undisturbed :: "int \<Rightarrow> repo \<Rightarrow> repo \<Rightarrow> bool" where
  "undisturbed iid r r' \<longleftrightarrow> (\<exists>c. repo_step c r r' \<and> \<not> disturbs iid c r)"

lemma repo_step_ok: "repo_step c r r' \<Longrightarrow> \<not> disturbs iid c r \<Longrightarrow> image_ok iid r \<Longrightarrow> image_ok iid r'"
proof (induction rule: repo_step.induct)
  case (Acquire k r x r')
  then have "image_ok iid r'" using acquire_image_ok by blast
  then show ?case by (simp add: image_ok_def img_unlock_def)
next
  case (Release k path n save r r')
  then show ?case using release_image_ok by blast
next
  case (Save path n save r r')
  then show ?case unfolding disk_to_image_def using save_as_images image_ok_cong by metis
next
  case (Enable k b r rc r')
  then show ?case using enable_image_ok by blast
next
  case (Delete k r rc r')
  then show ?case using delete_image_ok by blast
next
  case (Register k r rc r')
  then show ?case using register_image_ok [of iid r k] by (auto simp: disturbs_def)
next
  case (Answer verb k res r u r')
  then show ?case using imd_protocol_ok [of iid r k verb] by (auto simp: disturbs_def)
qed

lemma undisturbed_ok: "(undisturbed iid)\<^sup>*\<^sup>* r r' \<Longrightarrow> image_ok iid r \<Longrightarrow> image_ok iid r'"
  by (induction rule: rtranclp_induct) (auto simp: undisturbed_def intro: repo_step_ok)

text \<open>What acquire does on each state.\<close>

lemma i_state_same: "i_state i = s \<Longrightarrow> i\<lparr>running_vms_i := n, i_state := s\<rparr> = i\<lparr>running_vms_i := n\<rparr>"
  by (cases i) simp

lemma acquire_image_cases:
  assumes "images r iid = Some i" "iid \<notin> img_locks r"
  shows "acquire_image iid r =
    (if i_state i = IMG_READY \<or> i_state i = IMG_USED \<and> \<not> isPersistent i
     then (let i' = (inc_running i)\<lparr>i_state := IMG_USED\<rparr>
       in Done (Some i', (img_update i' r)\<lparr>images := (images r)(iid \<mapsto> i'), img_locks := insert iid (img_locks r)\<rparr>))
     else Done (None, r\<lparr>images := (images r)(iid \<mapsto> i)\<rparr>))"
  using assms by (cases "i_state i")
    (simp_all add: acquire_image_def with_img_def acquire_obj_def inc_running_def i_state_same Let_def)

text \<open>C13. A persistent image is not handed to two VMs: in every run of calls and driver answers in which this image, while it is
  used, is not registered again and gets no CP, MV or MKFS answer, the second acquire is refused and the images are
  left as they were.  The condition is needed and the code does not check it: a successful answer of these makes a used
  image READY, and the next acquire gives it to a second VM.\<close>

theorem persistent_exclusive:
  assumes "image_ok iid r0" "(undisturbed iid)\<^sup>*\<^sup>* r0 r" "images r iid = Some i" "isPersistent i"
    "running_vms_i i \<noteq> 0" "iid \<notin> img_locks r"
  shows "running_vms_i i = 1 \<and> (\<exists>r'. acquire_image iid r = Done (None, r') \<and> images r' = images r) \<and>
    (\<forall>verb \<in> {A_CP, A_MV, A_MKFS}. \<exists>r1 j r2. imd_protocol verb iid (Imd_success source size_mb) r = Done ((), r1) \<and>
       acquire_image iid r1 = Done (Some j, r2) \<and> isPersistent j \<and> running_vms_i j = 2)"
proof -
  have "img_ok i" using undisturbed_ok [OF assms(2,1)] assms(3) by (auto simp: image_ok_def)
  then have u: "running_vms_i i = 1" "i_state i = IMG_USED" using assms(4,5) by (auto simp: img_ok_def)
  moreover have "\<exists>r1 j r2. imd_protocol verb iid (Imd_success source size_mb) r = Done ((), r1) \<and>
       acquire_image iid r1 = Done (Some j, r2) \<and> isPersistent j \<and> running_vms_i j = 2" if "verb \<in> {A_CP, A_MV, A_MKFS}" for verb
  proof -
    let ?i = "(if verb \<noteq> A_MV \<or> i_source i = ''-'' then i\<lparr>i_source := source\<rparr> else i)\<lparr>i_size := size_mb, i_state := IMG_READY\<rparr>"
    let ?r = "(img_update ?i r)\<lparr>images := (images r)(iid \<mapsto> ?i)\<rparr>"
    have "imd_protocol verb iid (Imd_success source size_mb) r = Done ((), ?r)"
      using that assms(3,6) by (auto simp: imd_protocol_def with_img_def Let_def)
    moreover have "images ?r iid = Some ?i" "iid \<notin> img_locks ?r" using assms(6) by simp_all
    from acquire_image_cases [OF this]
    have "\<exists>r2. acquire_image iid ?r = Done (Some ((inc_running ?i)\<lparr>i_state := IMG_USED\<rparr>), r2)" by (simp add: Let_def)
    moreover have "isPersistent ((inc_running ?i)\<lparr>i_state := IMG_USED\<rparr>)" "running_vms_i ((inc_running ?i)\<lparr>i_state := IMG_USED\<rparr>) = 2"
      using assms(4) u(1) by (simp_all add: inc_running_def isPersistent_def)
    ultimately show ?thesis by blast
  qed
  ultimately show ?thesis using acquire_image_cases [OF assms(3,6)] assms(3,4) by (auto simp: fun_eq_iff)
qed

text \<open>Acquiring an image and releasing it without a disk to save is a round trip: the image is again
  in the state and with the count of VMs it had.\<close>

theorem acquire_release_round_trip:
  assumes "repo_ok r" "iid \<notin> img_locks r" "acquire_image iid r = Done (Some i, r1)"
  shows "\<exists>r2. release_image iid [] n [] (img_unlock iid r1) = Done r2 \<and> images r2 = images r \<and>
    img_locks r2 = img_locks r"
proof -
  obtain i0 where i0: "images r iid = Some i0"
    using assms(3) by (cases "images r iid") (auto simp: acquire_image_def with_img_def)
  then have ok: "img_ok i0" using assms(1) by (auto simp: repo_ok_def image_ok_def)
  let ?i = "(inc_running i0)\<lparr>i_state := IMG_USED\<rparr>"
  have st: "i_state i0 = IMG_READY \<or> i_state i0 = IMG_USED \<and> \<not> isPersistent i0" and i: "i = ?i"
    and r1: "r1 = (img_update ?i r)\<lparr>images := (images r)(iid \<mapsto> ?i), img_locks := insert iid (img_locks r)\<rparr>"
    using acquire_image_cases [OF i0 assms(2)] assms(3) by (auto simp: Let_def split: if_splits)
  have undone: "(if running_vms_i (dec_running ?i) = 0 then (dec_running ?i)\<lparr>i_state := IMG_READY\<rparr> else dec_running ?i) = i0"
    using st ok by (cases "i_state i0") (auto simp: dec_running_def inc_running_def img_ok_def)
  let ?r1 = "img_unlock iid r1"
  have u: "images ?r1 iid = Some ?i" "iid \<notin> img_locks ?r1" "img_locks ?r1 = img_locks r"
    using assms(2) by (auto simp: r1 img_unlock_def)
  have "release_image iid [] n [] ?r1 = Done ((img_update i0 ?r1)\<lparr>images := (images ?r1)(iid \<mapsto> i0)\<rparr>)"
    using u undone by (simp add: release_image_def with_img_def release_obj_def Let_def)
  then show ?thesis using i0 assms(2) by (auto simp: r1 img_unlock_def fun_eq_iff)
qed

subsection \<open>A sample repository\<close>

definition img_at :: "int \<Rightarrow> ImageState \<Rightarrow> int \<Rightarrow> int \<Rightarrow> image" where
  "img_at iid st rvms pers = \<lparr>i_oid = iid, i_uid = 0, i_name = ''img'', i_type = IT_OS, persistent_img = pers,
     i_source = ''/repo/img'', i_path = [], i_fstype = [], i_size = 10, i_state = st, running_vms_i = rvms,
     i_group_u = 0, i_other_u = 0, i_error = None\<rparr>"

definition repo_with :: "image \<Rightarrow> bool \<Rightarrow> repo" where
  "repo_with i up = \<lparr>images = [i_oid i \<mapsto> i], img_locks = {}, imd_up = up, imd_q = [], img_rows = [i_oid i \<mapsto> i],
     img_db_ok = True, img_junk = 0\<rparr>"

lemma repo_with_ok: "img_ok i \<Longrightarrow> repo_ok (repo_with i up)"
  by (simp add: repo_ok_def image_ok_def repo_with_def)

theorem persistent_exclusive_witness:
  "\<exists>r'. acquire_image 3 (repo_with (img_at 3 IMG_USED 1 1) True) = Done (None, r') \<and>
     images r' = images (repo_with (img_at 3 IMG_USED 1 1) True)"
proof -
  have "img_ok (img_at 3 IMG_USED 1 1)" by (simp add: img_ok_def img_at_def)
  then have "image_ok 3 (repo_with (img_at 3 IMG_USED 1 1) True)" using repo_with_ok [of _ True] by (simp add: repo_ok_def)
  from persistent_exclusive [OF this rtranclp.rtrancl_refl, of "img_at 3 IMG_USED 1 1"]
  show ?thesis by (simp add: img_at_def repo_with_def isPersistent_def)
qed

theorem acquire_release_round_trip_witness:
  "\<exists>i r1 r2. acquire_image 3 (repo_with (img_at 3 IMG_READY 0 1) True) = Done (Some i, r1) \<and>
     release_image 3 [] 0 [] (img_unlock 3 r1) = Done r2 \<and>
     images r2 = images (repo_with (img_at 3 IMG_READY 0 1) True)"
proof -
  let ?r = "repo_with (img_at 3 IMG_READY 0 1) True"
  have ok: "repo_ok ?r" by (rule repo_with_ok) (simp add: img_ok_def img_at_def)
  have l: "3 \<notin> img_locks ?r" by (simp add: repo_with_def)
  obtain i r1 where "acquire_image 3 ?r = Done (Some i, r1)"
    using acquire_image_cases [of ?r 3 "img_at 3 IMG_READY 0 1"] l by (simp add: repo_with_def img_at_def Let_def)
  with acquire_release_round_trip [OF ok l this, of 0] show ?thesis by blast
qed

text \<open>Deleting an image does not take it out of circulation: an image that is READY stays so until the
  driver answers the RM, a VM can acquire it meanwhile, and the answer then drops the image although a VM
  runs on it.\<close>

theorem delete_drops_used_image:
  "\<exists>r1 i r2 r3. delete_image 3 (repo_with (img_at 3 IMG_READY 0 0) True) = Done (0, r1) \<and>
     acquire_image 3 r1 = Done (Some i, r2) \<and> running_vms_i i = 1 \<and>
     imd_protocol A_RM 3 (Imd_failure []) (img_unlock 3 r2) = Done ((), r3) \<and> images r3 3 = None"
  by (simp add: delete_image_def acquire_image_def acquire_obj_def imd_protocol_def with_img_def img_drop_def
    img_update_def inc_running_def img_unlock_def repo_with_def img_at_def Let_def)

text \<open>\<open>delete_image\<close> without an image driver returns \<open>-1\<close> and keeps the mutex of the image: every later
  call on that image waits for ever.\<close>

theorem delete_image_leaks_lock:
  assumes "images r iid = Some i" "iid \<notin> img_locks r" "\<not> imd_up r" "i_state i \<noteq> IMG_USED" "img_ok i"
  shows "\<exists>r'. delete_image iid r = Done (-1, r') \<and> acquire_image iid r' = Blocked \<and>
    (\<forall>p n sv. release_image iid p n sv r' = Blocked) \<and> (\<forall>b. enable_image iid b r' = Blocked)"
  using assms img_ok_unused [OF assms(5,4)]
  by (simp add: delete_image_def with_img_def acquire_image_def release_image_def enable_image_def Let_def)

theorem delete_image_leaks_lock_witness:
  "\<exists>r'. delete_image 3 (repo_with (img_at 3 IMG_READY 0 0) False) = Done (-1, r') \<and> acquire_image 3 r' = Blocked"
proof -
  have "img_ok (img_at 3 IMG_READY 0 0)" by (simp add: img_ok_def img_at_def)
  then show ?thesis
    using delete_image_leaks_lock [of "repo_with (img_at 3 IMG_READY 0 0) False" 3 "img_at 3 IMG_READY 0 0"]
    by (auto simp: repo_with_def img_at_def)
qed

text \<open>A VM that used a persistent image gives its disk back: the image is LOCKED while the driver moves
  the disk, so no VM gets it, and it is READY again, with its own source, when the driver answers.\<close>

theorem persistent_save_cycle:
  assumes "images r iid = Some i" "iid \<notin> img_locks r" "img_ok i" "i_oid i = iid" "i_state i = IMG_USED"
    "isPersistent i" "imd_up r" "path \<noteq> []" "i_source i \<noteq> ''-''"
  shows "\<exists>r1. release_image iid path n save r = Done r1 \<and>
    imd_q r1 = imd_q r @ [IMD_MV iid (disk_file path n) (i_source i)] \<and>
    (\<exists>r2. acquire_image iid r1 = Done (None, r2)) \<and>
    (\<exists>r3. imd_protocol A_MV iid (Imd_success src mb) r1 = Done ((), r3) \<and>
       images r3 iid = Some (i\<lparr>running_vms_i := 0, i_size := mb, i_state := IMG_READY\<rparr>))"
proof -
  have one: "running_vms_i i = 1" using assms(3,5,6) by (auto simp: img_ok_def)
  let ?j = "(dec_running i)\<lparr>i_state := IMG_LOCKED\<rparr>"
  let ?r1 = "(img_update ?j (move_image ?j (disk_file path n) r))\<lparr>images := (images r)(iid \<mapsto> ?j)\<rparr>"
  have p: "isPersistent (dec_running i)" using assms(6) by (simp add: isPersistent_def dec_running_def)
  have "release_image iid path n save r = Done ?r1"
    using assms p by (simp add: release_image_def with_img_def release_obj_def Let_def)
  moreover have "imd_q ?r1 = imd_q r @ [IMD_MV iid (disk_file path n) (i_source i)]"
    using assms(4,7) by (simp add: move_image_def dec_running_def)
  moreover have "\<exists>r2. acquire_image iid ?r1 = Done (None, r2)"
    using acquire_image_cases [of ?r1 iid ?j] assms(2) by simp
  moreover have "\<exists>r3. imd_protocol A_MV iid (Imd_success src mb) ?r1 = Done ((), r3) \<and>
       images r3 iid = Some (i\<lparr>running_vms_i := 0, i_size := mb, i_state := IMG_READY\<rparr>)"
    using assms(2,9) one by (simp add: imd_protocol_def with_img_def dec_running_def Let_def)
  ultimately show ?thesis by blast
qed

theorem persistent_save_cycle_witness:
  "\<exists>r1 r3. release_image 3 ''/vm'' 0 [] (repo_with (img_at 3 IMG_USED 1 1) True) = Done r1 \<and>
     imd_protocol A_MV 3 (Imd_success ''/x'' 12) r1 = Done ((), r3) \<and>
     images r3 3 = Some ((img_at 3 IMG_READY 0 1)\<lparr>i_size := 12\<rparr>)"
proof -
  have "img_ok (img_at 3 IMG_USED 1 1)" by (simp add: img_ok_def img_at_def)
  then show ?thesis
    using persistent_save_cycle [of "repo_with (img_at 3 IMG_USED 1 1) True" 3 "img_at 3 IMG_USED 1 1" "''/vm''" 0 "[]" "''/x''" 12]
    by (auto simp: repo_with_def img_at_def isPersistent_def)
qed

end
