(* ===== verification/Nebula.thy ===== *)
theory Nebula
  imports VirtualMachine HostPool VirtualNetwork ImageManager
begin

text \<open>
  The daemon's shared state: the pools, the queues of the managers and the database tables, and the
  statements the manager handlers are made of.

  \<open>vm_locks\<close> is the set of VMs whose object mutex is held.  A queue holds the actions triggered and
  not yet taken, oldest first: \<open>lcm_q\<close>, \<open>dm_q\<close> those of the life-cycle and the dispatch manager, by
  action name as \<open>ActionManager\<close> keeps them; \<open>tm_q\<close>, \<open>vmm_q\<close> the requests to the transfer and the
  virtual machine manager, which hand them to their drivers.  \<open>now\<close> is the value of \<open>time(0)\<close> while one
  handler runs.  \<open>db_ok\<close> is the outcome of the next database write; the handlers ignore it.
  \<open>xm_list\<close> is the configuration attribute XM_LIST; \<open>net_pool\<close> and \<open>img_repo\<close> are the states of the
  virtual network pool and of the image manager, \<open>var_location\<close> is the daemon's local directory.
\<close>

datatype tm_action = TA_PROLOG | TA_PROLOG_MIGR | TA_PROLOG_RESUME | TA_PROLOG_BACKUP
  | TA_PROLOG_RECOVER | TA_PROLOG_BACKUPDISK | TA_EPILOG | TA_EPILOG_STOP | TA_EPILOG_DELETE
  | TA_EPILOG_DELETE_PREVIOUS | TA_CHECKPOINT | TA_DRIVER_CANCEL | TA_DELETE_RECOVER_FAIL
  | TA_DELETE_BACKUP_FAIL | TA_DELETEBAK | TA_FINALIZE | TA_ON | TA_DELETE_BACKUP_COMPRESS
  | TA_PROLOG_RECOVER_DECOMPRESS | TA_RECOVER_DECOMPRESS_FAIL

datatype vmm_action = VA_DEPLOY | VA_SAVE | VA_SHUTDOWN | VA_CANCEL | VA_OFF | VA_CANCEL_PREVIOUS
  | VA_MIGRATE | VA_RESTORE | VA_REBOOT | VA_POLL | VA_TIMER | VA_DRIVER_CANCEL | VA_FINALIZE
  | VA_ON | VA_BACKUP | VA_RECOVER | VA_BACKUPDISK

datatype dm_action = DA_SUSPEND_SUCCESS | DA_STOP_SUCCESS | DA_DONE | DA_FAILED | DA_RESUBMIT
  | DA_FINALIZE

datatype lcm_action = LA_SAVE_SUCCESS | LA_SAVE_FAILURE | LA_DEPLOY_SUCCESS | LA_DEPLOY_FAILURE
  | LA_SHUTDOWN_SUCCESS | LA_SHUTDOWN_FAILURE | LA_CANCEL_SUCCESS | LA_CANCEL_FAILURE
  | LA_OFF_SUCCESS | LA_MONITOR_FAILURE | LA_MONITOR_SUSPEND | LA_MONITOR_DONE
  | LA_PROLOG_SUCCESS | LA_PROLOG_FAILURE | LA_EPILOG_SUCCESS | LA_EPILOG_FAILURE
  | LA_DEPLOY | LA_SUSPEND | LA_RESTORE | LA_STOP | LA_CANCEL | LA_OFF | LA_ON
  | LA_XMLIST_SUCCESS | LA_XMLIST_FAILURE | LA_MIGRATE | LA_BACKUP | LA_RECOVER | LA_BACKUPDISK
  | LA_LIVE_MIGRATE | LA_SHUTDOWN | LA_RESTART | LA_REBOOT | LA_DELETE | LA_CLEAN | LA_FINALIZE
  | LA_PROLOG_RECOVER_DECOMPRESS

record one =
  vms :: "int \<Rightarrow> vm option"
  vm_locks :: "int set"
  hosts :: host_pool
  lcm_q :: "(string \<times> int) list"
  dm_q :: "(string \<times> int) list"
  tm_q :: "(tm_action \<times> int) list"
  vmm_q :: "(vmm_action \<times> int) list"
  vm_rows :: "int \<Rightarrow> vm option"
  hist_rows :: "int \<times> int \<Rightarrow> history option"
  bk_rows :: "int \<Rightarrow> backup option"
  dk_rows :: "int \<Rightarrow> backupdisk option"
  db_ok :: bool
  now :: int
  xm_list :: string
  net_pool :: nets
  img_repo :: repo
  var_location :: string

subsection \<open>Triggers\<close>

text \<open>\<open>DispatchManager::trigger\<close> and \<open>LifeCycleManager::trigger\<close>: the switch that names the action,
  and \<open>ActionManager::trigger\<close>, which appends to the queue.\<close>

fun dm_action_name :: "dm_action \<Rightarrow> string" where
  "dm_action_name DA_SUSPEND_SUCCESS = ''SUSPEND_SUCCESS''"
| "dm_action_name DA_STOP_SUCCESS = ''STOP_SUCCESS''"
| "dm_action_name DA_DONE = ''DONE''"
| "dm_action_name DA_FAILED = ''FAILED''"
| "dm_action_name DA_RESUBMIT = ''RESUBMIT''"
| "dm_action_name DA_FINALIZE = ''ACTION_FINALIZE''"

fun lcm_action_name :: "lcm_action \<Rightarrow> string" where
  "lcm_action_name LA_SAVE_SUCCESS = ''SAVE_SUCCESS''"
| "lcm_action_name LA_SAVE_FAILURE = ''SAVE_FAILURE''"
| "lcm_action_name LA_DEPLOY_SUCCESS = ''DEPLOY_SUCCESS''"
| "lcm_action_name LA_DEPLOY_FAILURE = ''DEPLOY_FAILURE''"
| "lcm_action_name LA_SHUTDOWN_SUCCESS = ''SHUTDOWN_SUCCESS''"
| "lcm_action_name LA_SHUTDOWN_FAILURE = ''SHUTDOWN_FAILURE''"
| "lcm_action_name LA_CANCEL_SUCCESS = ''CANCEL_SUCCESS''"
| "lcm_action_name LA_CANCEL_FAILURE = ''CANCEL_FAILURE''"
| "lcm_action_name LA_OFF_SUCCESS = ''OFF_SUCCESS''"
| "lcm_action_name LA_MONITOR_FAILURE = ''MONITOR_FAILURE''"
| "lcm_action_name LA_MONITOR_SUSPEND = ''MONITOR_SUSPEND''"
| "lcm_action_name LA_MONITOR_DONE = ''MONITOR_DONE''"
| "lcm_action_name LA_PROLOG_SUCCESS = ''PROLOG_SUCCESS''"
| "lcm_action_name LA_PROLOG_FAILURE = ''PROLOG_FAILURE''"
| "lcm_action_name LA_EPILOG_SUCCESS = ''EPILOG_SUCCESS''"
| "lcm_action_name LA_EPILOG_FAILURE = ''EPILOG_FAILURE''"
| "lcm_action_name LA_DEPLOY = ''DEPLOY''"
| "lcm_action_name LA_SUSPEND = ''SUSPEND''"
| "lcm_action_name LA_RESTORE = ''RESTORE''"
| "lcm_action_name LA_STOP = ''STOP''"
| "lcm_action_name LA_CANCEL = ''CANCEL''"
| "lcm_action_name LA_OFF = ''OFF''"
| "lcm_action_name LA_ON = ''ON''"
| "lcm_action_name LA_XMLIST_SUCCESS = ''XMLIST_SUCCESS''"
| "lcm_action_name LA_XMLIST_FAILURE = ''XMLIST_FAILURE''"
| "lcm_action_name LA_MIGRATE = ''MIGRATE''"
| "lcm_action_name LA_BACKUP = ''BACKUP''"
| "lcm_action_name LA_RECOVER = ''RECOVER''"
| "lcm_action_name LA_BACKUPDISK = ''BACKUPDISK''"
| "lcm_action_name LA_LIVE_MIGRATE = ''LIVE_MIGRATE''"
| "lcm_action_name LA_SHUTDOWN = ''SHUTDOWN''"
| "lcm_action_name LA_RESTART = ''RESTART''"
| "lcm_action_name LA_REBOOT = ''REBOOT''"
| "lcm_action_name LA_DELETE = ''DELETE''"
| "lcm_action_name LA_CLEAN = ''CLEAN''"
| "lcm_action_name LA_FINALIZE = ''ACTION_FINALIZE''"
| "lcm_action_name LA_PROLOG_RECOVER_DECOMPRESS = ''PROLOG_RECOVER_DECOMPRESS''"

definition lcm_trigger :: "lcm_action \<Rightarrow> int \<Rightarrow> one \<Rightarrow> one" where
  "lcm_trigger a vid w = w\<lparr>lcm_q := lcm_q w @ [(lcm_action_name a, vid)]\<rparr>"

definition dm_trigger :: "dm_action \<Rightarrow> int \<Rightarrow> one \<Rightarrow> one" where
  "dm_trigger a vid w = w\<lparr>dm_q := dm_q w @ [(dm_action_name a, vid)]\<rparr>"

definition tm_trigger :: "tm_action \<Rightarrow> int \<Rightarrow> one \<Rightarrow> one" where
  "tm_trigger a vid w = w\<lparr>tm_q := tm_q w @ [(a, vid)]\<rparr>"

definition vmm_trigger :: "vmm_action \<Rightarrow> int \<Rightarrow> one \<Rightarrow> one" where
  "vmm_trigger a vid w = w\<lparr>vmm_q := vmm_q w @ [(a, vid)]\<rparr>"

subsection \<open>Statements on a locked VM\<close>

text \<open>Inside a handler the state is the pair of the VM object it got from the pool and the rest of
  the daemon.  \<open>with_vm\<close> is \<open>vm = vmpool->get(vid, true)\<close> with the early return on a null pointer.
  The object is written back when the handler ends; \<open>vm->unlock()\<close> is a statement of the body.\<close>

type_synonym locked = "vm \<times> one"

definition with_vm :: "int \<Rightarrow> (locked \<Rightarrow> locked res) \<Rightarrow> one \<Rightarrow> one res" where
  "with_vm vid body w = (case vms w vid of
     None \<Rightarrow> Done w
   | Some v \<Rightarrow> if vid \<in> vm_locks w then Blocked
       else bind_res (body (v, w\<lparr>vm_locks := insert vid (vm_locks w)\<rparr>))
              (\<lambda>(v', w'). Done (w'\<lparr>vms := (vms w')(vid \<mapsto> v')\<rparr>)))"

text \<open>The same for the functions that return a code: \<open>-1\<close> when there is no such VM.\<close>

definition with_vm_rc :: "int \<Rightarrow> (locked \<Rightarrow> (int \<times> locked) res) \<Rightarrow> one \<Rightarrow> (int \<times> one) res" where
  "with_vm_rc vid body w = (case vms w vid of
     None \<Rightarrow> Done (-1, w)
   | Some v \<Rightarrow> if vid \<in> vm_locks w then Blocked
       else bind_res (body (v, w\<lparr>vm_locks := insert vid (vm_locks w)\<rparr>))
              (\<lambda>(rc, v', w'). Done (rc, w'\<lparr>vms := (vms w')(vid \<mapsto> v')\<rparr>)))"

definition unlock :: "locked \<Rightarrow> locked res" where
  "unlock = (\<lambda>(v, w). Done (v, w\<lparr>vm_locks := vm_locks w - {vm_oid v}\<rparr>))"

definition set_lcm :: "LcmState \<Rightarrow> locked \<Rightarrow> locked res" where
  "set_lcm s = (\<lambda>(v, w). Done (v\<lparr>lcm_state := s\<rparr>, w))"

definition set_dm :: "VmState \<Rightarrow> locked \<Rightarrow> locked res" where
  "set_dm s = (\<lambda>(v, w). Done (v\<lparr>state := s\<rparr>, w))"

definition set_lcmstate :: "LcmState \<Rightarrow> locked \<Rightarrow> locked res" where
  "set_lcmstate s = (\<lambda>(v, w). Done (v\<lparr>lcmstate := s\<rparr>, w))"

definition set_exit_time :: "locked \<Rightarrow> locked res" where
  "set_exit_time = (\<lambda>(v, w). Done (v\<lparr>exit_time := now w\<rparr>, w))"

text \<open>\<open>history->f = x\<close> and \<open>previous_history->f = x\<close>.\<close>

definition on_hist :: "(int \<Rightarrow> history \<Rightarrow> history) \<Rightarrow> locked \<Rightarrow> locked res" where
  "on_hist f = (\<lambda>(v, w). case history_records v of
     [] \<Rightarrow> Segv | h # hs \<Rightarrow> Done (v\<lparr>history_records := f (now w) h # hs\<rparr>, w))"

definition on_previous :: "(int \<Rightarrow> history \<Rightarrow> history) \<Rightarrow> locked \<Rightarrow> locked res" where
  "on_previous f = (\<lambda>(v, w). case history_records v of
     h # p # hs \<Rightarrow> Done (v\<lparr>history_records := h # f (now w) p # hs\<rparr>, w) | _ \<Rightarrow> Segv)"

definition set_stime where "set_stime = on_hist (\<lambda>t h. h\<lparr>stime := t\<rparr>)"
definition set_etime where "set_etime = on_hist (\<lambda>t h. h\<lparr>etime := t\<rparr>)"
definition set_prolog_stime where "set_prolog_stime = on_hist (\<lambda>t h. h\<lparr>prolog_stime := t\<rparr>)"
definition set_prolog_etime where "set_prolog_etime = on_hist (\<lambda>t h. h\<lparr>prolog_etime := t\<rparr>)"
definition set_running_stime where "set_running_stime = on_hist (\<lambda>t h. h\<lparr>running_stime := t\<rparr>)"
definition set_running_etime where "set_running_etime = on_hist (\<lambda>t h. h\<lparr>running_etime := t\<rparr>)"
definition set_epilog_stime where "set_epilog_stime = on_hist (\<lambda>t h. h\<lparr>epilog_stime := t\<rparr>)"
definition set_epilog_etime where "set_epilog_etime = on_hist (\<lambda>t h. h\<lparr>epilog_etime := t\<rparr>)"
definition set_reason where "set_reason r = on_hist (\<lambda>t h. h\<lparr>reason := r\<rparr>)"
definition set_previous_etime where "set_previous_etime = on_previous (\<lambda>t h. h\<lparr>etime := t\<rparr>)"
definition set_previous_running_etime where
  "set_previous_running_etime = on_previous (\<lambda>t h. h\<lparr>running_etime := t\<rparr>)"
definition set_previous_reason where
  "set_previous_reason r = on_previous (\<lambda>t h. h\<lparr>reason := r\<rparr>)"

definition set_bkstate :: "BkState \<Rightarrow> locked \<Rightarrow> locked res" where
  "set_bkstate s = (\<lambda>(v, w). case backup v of
     None \<Rightarrow> Segv | Some b \<Rightarrow> Done (v\<lparr>backup := Some (b\<lparr>bk_state := s\<rparr>)\<rparr>, w))"

definition set_bketime :: "locked \<Rightarrow> locked res" where
  "set_bketime = (\<lambda>(v, w). case backup v of
     None \<Rightarrow> Segv | Some b \<Rightarrow> Done (v\<lparr>backup := Some (b\<lparr>bk_etime := now w\<rparr>)\<rparr>, w))"

definition set_dkstate :: "DkState \<Rightarrow> locked \<Rightarrow> locked res" where
  "set_dkstate s = (\<lambda>(v, w). case backupdisk v of
     None \<Rightarrow> Segv | Some b \<Rightarrow> Done (v\<lparr>backupdisk := Some (b\<lparr>dk_state := s\<rparr>)\<rparr>, w))"

definition copy_history :: "locked \<Rightarrow> locked res" where
  "copy_history = (\<lambda>(v, w). Done (cp_history v, w))"

definition copy_previous_history :: "locked \<Rightarrow> locked res" where
  "copy_previous_history = (\<lambda>(v, w). Done (cp_previous_history v, w))"

text \<open>Database writes.  \<open>update\<close> writes the row of the VM, \<open>update_history\<close> that of its current history
  record (or nothing without one), keyed by VM and sequence number.  \<open>updatebkstate\<close> changes the
  state column of a row of the table \<open>backup\<close>, if it exists.\<close>

definition write_row :: "vm \<Rightarrow> one \<Rightarrow> one" where
  "write_row v w = (if db_ok w then w\<lparr>vm_rows := (vm_rows w)(vm_oid v \<mapsto> to_xml v)\<rparr> else w)"

definition update :: "locked \<Rightarrow> locked res" where
  "update = (\<lambda>(v, w). Done (v, write_row v w))"

definition write_history :: "int \<Rightarrow> history option \<Rightarrow> one \<Rightarrow> one" where
  "write_history vid ho w = (case ho of
     None \<Rightarrow> w
   | Some h \<Rightarrow> if db_ok w then w\<lparr>hist_rows := (hist_rows w)((vid, seq h) \<mapsto> h)\<rparr> else w)"

definition update_history :: "locked \<Rightarrow> locked res" where
  "update_history = (\<lambda>(v, w). Done (v, write_history (vm_oid v) (hist v) w))"

definition update_previous_history :: "locked \<Rightarrow> locked res" where
  "update_previous_history = (\<lambda>(v, w). Done (v, write_history (vm_oid v) (previous_hist v) w))"

definition write_backup :: "backup option \<Rightarrow> one \<Rightarrow> one" where
  "write_backup bo w = (case bo of None \<Rightarrow> w | Some b \<Rightarrow>
     if bk_vid b \<noteq> -1 \<and> db_ok w then w\<lparr>bk_rows := (bk_rows w)(bk_oid b \<mapsto> b)\<rparr> else w)"

definition update_backup :: "locked \<Rightarrow> locked res" where
  "update_backup = (\<lambda>(v, w). Done (v, write_backup (backup v) w))"

definition write_backupdisk :: "backupdisk option \<Rightarrow> one \<Rightarrow> one" where
  "write_backupdisk bo w = (case bo of None \<Rightarrow> w | Some b \<Rightarrow>
     if dk_vid b \<noteq> -1 \<and> db_ok w then w\<lparr>dk_rows := (dk_rows w)(dk_oid b \<mapsto> b)\<rparr> else w)"

definition update_backupdisk :: "locked \<Rightarrow> locked res" where
  "update_backupdisk = (\<lambda>(v, w). Done (v, write_backupdisk (backupdisk v) w))"

definition bk_set_state :: "int \<Rightarrow> BkState \<Rightarrow> one \<Rightarrow> one" where
  "bk_set_state i s w = (case bk_rows w i of
     None \<Rightarrow> w
   | Some b \<Rightarrow> if db_ok w then w\<lparr>bk_rows := (bk_rows w)(i \<mapsto> b\<lparr>bk_state := s\<rparr>)\<rparr> else w)"

definition updatebkstate :: "(vm \<Rightarrow> int) \<Rightarrow> BkState \<Rightarrow> locked \<Rightarrow> locked res" where
  "updatebkstate bid s = (\<lambda>(v, w). Done (v, bk_set_state (bid v) s w))"

definition dk_set_state :: "int \<Rightarrow> DkState \<Rightarrow> one \<Rightarrow> one" where
  "dk_set_state i s w = (case dk_rows w i of
     None \<Rightarrow> w
   | Some b \<Rightarrow> if db_ok w then w\<lparr>dk_rows := (dk_rows w)(i \<mapsto> b\<lparr>dk_state := s\<rparr>)\<rparr> else w)"

definition updatedkstate :: "(vm \<Rightarrow> int) \<Rightarrow> DkState \<Rightarrow> locked \<Rightarrow> locked res" where
  "updatedkstate did s = (\<lambda>(v, w). Done (v, dk_set_state (did v) s w))"

text \<open>\<open>vm->get_requirements(cpu,mem,disk); hpool->add_capacity(vm->get_hid(),cpu,mem,disk)\<close> and the
  two releases.\<close>

definition charge :: "int \<Rightarrow> vm \<Rightarrow> one \<Rightarrow> one" where
  "charge h v w = (let (cpu, mem, disk) = get_requirements v
     in w\<lparr>hosts := hpool_add_capacity h cpu mem disk (hosts w)\<rparr>)"

definition discharge :: "int \<Rightarrow> vm \<Rightarrow> one \<Rightarrow> one" where
  "discharge h v w = (let (cpu, mem, disk) = get_requirements v
     in w\<lparr>hosts := hpool_del_capacity h cpu mem disk (hosts w)\<rparr>)"

definition add_capacity :: "locked \<Rightarrow> locked res" where
  "add_capacity = (\<lambda>(v, w). case hist v of None \<Rightarrow> Segv | Some h \<Rightarrow> Done (v, charge (hid h) v w))"

definition del_capacity :: "locked \<Rightarrow> locked res" where
  "del_capacity = (\<lambda>(v, w). case hist v of None \<Rightarrow> Segv | Some h \<Rightarrow> Done (v, discharge (hid h) v w))"

definition del_capacity_previous :: "locked \<Rightarrow> locked res" where
  "del_capacity_previous = (\<lambda>(v, w). case previous_hist v of
     None \<Rightarrow> Segv | Some h \<Rightarrow> Done (v, discharge (hid h) v w))"

text \<open>Triggers from inside a handler.\<close>

definition tm :: "tm_action \<Rightarrow> int \<Rightarrow> locked \<Rightarrow> locked res" where
  "tm a vid = (\<lambda>(v, w). Done (v, tm_trigger a vid w))"

definition vmm :: "vmm_action \<Rightarrow> int \<Rightarrow> locked \<Rightarrow> locked res" where
  "vmm a vid = (\<lambda>(v, w). Done (v, vmm_trigger a vid w))"

definition dm :: "dm_action \<Rightarrow> int \<Rightarrow> locked \<Rightarrow> locked res" where
  "dm a vid = (\<lambda>(v, w). Done (v, dm_trigger a vid w))"

definition lcm :: "lcm_action \<Rightarrow> int \<Rightarrow> locked \<Rightarrow> locked res" where
  "lcm a vid = (\<lambda>(v, w). Done (v, lcm_trigger a vid w))"

lemmas stmt_defs [exec_simps] =
  unlock_def set_lcm_def set_dm_def set_lcmstate_def set_exit_time_def on_hist_def on_previous_def
  set_stime_def set_etime_def set_prolog_stime_def set_prolog_etime_def set_running_stime_def
  set_running_etime_def set_epilog_stime_def set_epilog_etime_def set_reason_def
  set_previous_etime_def set_previous_running_etime_def set_previous_reason_def
  set_bkstate_def set_bketime_def set_dkstate_def copy_history_def copy_previous_history_def
  update_def update_history_def update_previous_history_def update_backup_def
  update_backupdisk_def updatebkstate_def updatedkstate_def add_capacity_def del_capacity_def
  del_capacity_previous_def tm_def vmm_def dm_def lcm_def

subsection \<open>What an operation leaves alone\<close>

text \<open>Each operation changes one component of the state.\<close>

lemma write_row_frame [simp]:
  "vms (write_row v w) = vms w" "vm_locks (write_row v w) = vm_locks w"
  "hosts (write_row v w) = hosts w" "lcm_q (write_row v w) = lcm_q w"
  "dm_q (write_row v w) = dm_q w" "tm_q (write_row v w) = tm_q w"
  "vmm_q (write_row v w) = vmm_q w" "hist_rows (write_row v w) = hist_rows w"
  "bk_rows (write_row v w) = bk_rows w" "dk_rows (write_row v w) = dk_rows w"
  "db_ok (write_row v w) = db_ok w" "now (write_row v w) = now w"
  "xm_list (write_row v w) = xm_list w" "net_pool (write_row v w) = net_pool w"
  "img_repo (write_row v w) = img_repo w" "var_location (write_row v w) = var_location w"
  by (simp_all add: write_row_def)

lemma write_history_frame [simp]:
  "vms (write_history vid ho w) = vms w" "vm_locks (write_history vid ho w) = vm_locks w"
  "hosts (write_history vid ho w) = hosts w" "lcm_q (write_history vid ho w) = lcm_q w"
  "dm_q (write_history vid ho w) = dm_q w" "tm_q (write_history vid ho w) = tm_q w"
  "vmm_q (write_history vid ho w) = vmm_q w" "vm_rows (write_history vid ho w) = vm_rows w"
  "bk_rows (write_history vid ho w) = bk_rows w" "dk_rows (write_history vid ho w) = dk_rows w"
  "db_ok (write_history vid ho w) = db_ok w" "now (write_history vid ho w) = now w"
  "xm_list (write_history vid ho w) = xm_list w" "net_pool (write_history vid ho w) = net_pool w"
  "img_repo (write_history vid ho w) = img_repo w" "var_location (write_history vid ho w) = var_location w"
  by (simp_all add: write_history_def split: option.split)

lemma write_backup_frame [simp]:
  "vms (write_backup bo w) = vms w" "vm_locks (write_backup bo w) = vm_locks w"
  "hosts (write_backup bo w) = hosts w" "lcm_q (write_backup bo w) = lcm_q w"
  "dm_q (write_backup bo w) = dm_q w" "tm_q (write_backup bo w) = tm_q w"
  "vmm_q (write_backup bo w) = vmm_q w" "vm_rows (write_backup bo w) = vm_rows w"
  "hist_rows (write_backup bo w) = hist_rows w" "dk_rows (write_backup bo w) = dk_rows w"
  "db_ok (write_backup bo w) = db_ok w" "now (write_backup bo w) = now w"
  "xm_list (write_backup bo w) = xm_list w" "net_pool (write_backup bo w) = net_pool w"
  "img_repo (write_backup bo w) = img_repo w" "var_location (write_backup bo w) = var_location w"
  by (simp_all add: write_backup_def split: option.split)

lemma write_backupdisk_frame [simp]:
  "vms (write_backupdisk bdo w) = vms w" "vm_locks (write_backupdisk bdo w) = vm_locks w"
  "hosts (write_backupdisk bdo w) = hosts w" "lcm_q (write_backupdisk bdo w) = lcm_q w"
  "dm_q (write_backupdisk bdo w) = dm_q w" "tm_q (write_backupdisk bdo w) = tm_q w"
  "vmm_q (write_backupdisk bdo w) = vmm_q w" "vm_rows (write_backupdisk bdo w) = vm_rows w"
  "hist_rows (write_backupdisk bdo w) = hist_rows w" "bk_rows (write_backupdisk bdo w) = bk_rows w"
  "db_ok (write_backupdisk bdo w) = db_ok w" "now (write_backupdisk bdo w) = now w"
  "xm_list (write_backupdisk bdo w) = xm_list w" "net_pool (write_backupdisk bdo w) = net_pool w"
  "img_repo (write_backupdisk bdo w) = img_repo w" "var_location (write_backupdisk bdo w) = var_location w"
  by (simp_all add: write_backupdisk_def split: option.split)

lemma bk_set_state_frame [simp]:
  "vms (bk_set_state i bs w) = vms w" "vm_locks (bk_set_state i bs w) = vm_locks w"
  "hosts (bk_set_state i bs w) = hosts w" "lcm_q (bk_set_state i bs w) = lcm_q w"
  "dm_q (bk_set_state i bs w) = dm_q w" "tm_q (bk_set_state i bs w) = tm_q w"
  "vmm_q (bk_set_state i bs w) = vmm_q w" "vm_rows (bk_set_state i bs w) = vm_rows w"
  "hist_rows (bk_set_state i bs w) = hist_rows w" "dk_rows (bk_set_state i bs w) = dk_rows w"
  "db_ok (bk_set_state i bs w) = db_ok w" "now (bk_set_state i bs w) = now w"
  "xm_list (bk_set_state i bs w) = xm_list w" "net_pool (bk_set_state i bs w) = net_pool w"
  "img_repo (bk_set_state i bs w) = img_repo w" "var_location (bk_set_state i bs w) = var_location w"
  by (simp_all add: bk_set_state_def split: option.split)

lemma dk_set_state_frame [simp]:
  "vms (dk_set_state i ds w) = vms w" "vm_locks (dk_set_state i ds w) = vm_locks w"
  "hosts (dk_set_state i ds w) = hosts w" "lcm_q (dk_set_state i ds w) = lcm_q w"
  "dm_q (dk_set_state i ds w) = dm_q w" "tm_q (dk_set_state i ds w) = tm_q w"
  "vmm_q (dk_set_state i ds w) = vmm_q w" "vm_rows (dk_set_state i ds w) = vm_rows w"
  "hist_rows (dk_set_state i ds w) = hist_rows w" "bk_rows (dk_set_state i ds w) = bk_rows w"
  "db_ok (dk_set_state i ds w) = db_ok w" "now (dk_set_state i ds w) = now w"
  "xm_list (dk_set_state i ds w) = xm_list w" "net_pool (dk_set_state i ds w) = net_pool w"
  "img_repo (dk_set_state i ds w) = img_repo w" "var_location (dk_set_state i ds w) = var_location w"
  by (simp_all add: dk_set_state_def split: option.split)

lemma charge_frame [simp]:
  "vms (charge h v w) = vms w" "vm_locks (charge h v w) = vm_locks w"
  "lcm_q (charge h v w) = lcm_q w" "dm_q (charge h v w) = dm_q w"
  "tm_q (charge h v w) = tm_q w" "vmm_q (charge h v w) = vmm_q w"
  "vm_rows (charge h v w) = vm_rows w" "hist_rows (charge h v w) = hist_rows w"
  "bk_rows (charge h v w) = bk_rows w" "dk_rows (charge h v w) = dk_rows w"
  "db_ok (charge h v w) = db_ok w" "now (charge h v w) = now w"
  "xm_list (charge h v w) = xm_list w" "net_pool (charge h v w) = net_pool w"
  "img_repo (charge h v w) = img_repo w" "var_location (charge h v w) = var_location w"
  by (simp_all add: charge_def Let_def split: prod.split)

lemma discharge_frame [simp]:
  "vms (discharge h v w) = vms w" "vm_locks (discharge h v w) = vm_locks w"
  "lcm_q (discharge h v w) = lcm_q w" "dm_q (discharge h v w) = dm_q w"
  "tm_q (discharge h v w) = tm_q w" "vmm_q (discharge h v w) = vmm_q w"
  "vm_rows (discharge h v w) = vm_rows w" "hist_rows (discharge h v w) = hist_rows w"
  "bk_rows (discharge h v w) = bk_rows w" "dk_rows (discharge h v w) = dk_rows w"
  "db_ok (discharge h v w) = db_ok w" "now (discharge h v w) = now w"
  "xm_list (discharge h v w) = xm_list w" "net_pool (discharge h v w) = net_pool w"
  "img_repo (discharge h v w) = img_repo w" "var_location (discharge h v w) = var_location w"
  by (simp_all add: discharge_def Let_def split: prod.split)

lemma tm_trigger_frame [simp]:
  "vms (tm_trigger ta vid w) = vms w" "vm_locks (tm_trigger ta vid w) = vm_locks w"
  "hosts (tm_trigger ta vid w) = hosts w" "lcm_q (tm_trigger ta vid w) = lcm_q w"
  "dm_q (tm_trigger ta vid w) = dm_q w" "vmm_q (tm_trigger ta vid w) = vmm_q w"
  "vm_rows (tm_trigger ta vid w) = vm_rows w" "hist_rows (tm_trigger ta vid w) = hist_rows w"
  "bk_rows (tm_trigger ta vid w) = bk_rows w" "dk_rows (tm_trigger ta vid w) = dk_rows w"
  "db_ok (tm_trigger ta vid w) = db_ok w" "now (tm_trigger ta vid w) = now w"
  "xm_list (tm_trigger ta vid w) = xm_list w" "net_pool (tm_trigger ta vid w) = net_pool w"
  "img_repo (tm_trigger ta vid w) = img_repo w" "var_location (tm_trigger ta vid w) = var_location w"
  by (simp_all add: tm_trigger_def)

lemma vmm_trigger_frame [simp]:
  "vms (vmm_trigger va vid w) = vms w" "vm_locks (vmm_trigger va vid w) = vm_locks w"
  "hosts (vmm_trigger va vid w) = hosts w" "lcm_q (vmm_trigger va vid w) = lcm_q w"
  "dm_q (vmm_trigger va vid w) = dm_q w" "tm_q (vmm_trigger va vid w) = tm_q w"
  "vm_rows (vmm_trigger va vid w) = vm_rows w" "hist_rows (vmm_trigger va vid w) = hist_rows w"
  "bk_rows (vmm_trigger va vid w) = bk_rows w" "dk_rows (vmm_trigger va vid w) = dk_rows w"
  "db_ok (vmm_trigger va vid w) = db_ok w" "now (vmm_trigger va vid w) = now w"
  "xm_list (vmm_trigger va vid w) = xm_list w" "net_pool (vmm_trigger va vid w) = net_pool w"
  "img_repo (vmm_trigger va vid w) = img_repo w" "var_location (vmm_trigger va vid w) = var_location w"
  by (simp_all add: vmm_trigger_def)

lemma dm_trigger_frame [simp]:
  "vms (dm_trigger da vid w) = vms w" "vm_locks (dm_trigger da vid w) = vm_locks w"
  "hosts (dm_trigger da vid w) = hosts w" "lcm_q (dm_trigger da vid w) = lcm_q w"
  "tm_q (dm_trigger da vid w) = tm_q w" "vmm_q (dm_trigger da vid w) = vmm_q w"
  "vm_rows (dm_trigger da vid w) = vm_rows w" "hist_rows (dm_trigger da vid w) = hist_rows w"
  "bk_rows (dm_trigger da vid w) = bk_rows w" "dk_rows (dm_trigger da vid w) = dk_rows w"
  "db_ok (dm_trigger da vid w) = db_ok w" "now (dm_trigger da vid w) = now w"
  "xm_list (dm_trigger da vid w) = xm_list w" "net_pool (dm_trigger da vid w) = net_pool w"
  "img_repo (dm_trigger da vid w) = img_repo w" "var_location (dm_trigger da vid w) = var_location w"
  by (simp_all add: dm_trigger_def)

lemma lcm_trigger_frame [simp]:
  "vms (lcm_trigger la vid w) = vms w" "vm_locks (lcm_trigger la vid w) = vm_locks w"
  "hosts (lcm_trigger la vid w) = hosts w" "dm_q (lcm_trigger la vid w) = dm_q w"
  "tm_q (lcm_trigger la vid w) = tm_q w" "vmm_q (lcm_trigger la vid w) = vmm_q w"
  "vm_rows (lcm_trigger la vid w) = vm_rows w" "hist_rows (lcm_trigger la vid w) = hist_rows w"
  "bk_rows (lcm_trigger la vid w) = bk_rows w" "dk_rows (lcm_trigger la vid w) = dk_rows w"
  "db_ok (lcm_trigger la vid w) = db_ok w" "now (lcm_trigger la vid w) = now w"
  "xm_list (lcm_trigger la vid w) = xm_list w" "net_pool (lcm_trigger la vid w) = net_pool w"
  "img_repo (lcm_trigger la vid w) = img_repo w" "var_location (lcm_trigger la vid w) = var_location w"
  by (simp_all add: lcm_trigger_def)

lemma triggered [simp]:
  "tm_q (tm_trigger ta vid w) = tm_q w @ [(ta, vid)]"
  "vmm_q (vmm_trigger va vid w) = vmm_q w @ [(va, vid)]"
  "dm_q (dm_trigger da vid w) = dm_q w @ [(dm_action_name da, vid)]"
  "lcm_q (lcm_trigger la vid w) = lcm_q w @ [(lcm_action_name la, vid)]"
  by (simp_all add: tm_trigger_def vmm_trigger_def dm_trigger_def lcm_trigger_def)

end
