(* ===== verification/LcmActions.thy ===== *)
theory LcmActions
  imports Nebula
begin

text \<open>
  The life-cycle manager's actions on request of the dispatch manager
  (src/lcm/LifeCycleActions.cc): one definition per handler, with its guard, its statements in
  order and its error branch.  Log messages are left out.
\<close>

definition in_state :: "LcmState \<Rightarrow> locked \<Rightarrow> bool" where
  "in_state s = (\<lambda>(v, w). state v = ACTIVE \<and> lcm_state v = s)"

definition deploy_action :: "int \<Rightarrow> one \<Rightarrow> one res" where
  "deploy_action vid = with_vm vid (\<lambda>(v, w).
     if state v = ACTIVE then
       let resume = (case previous_hist v of None \<Rightarrow> False | Some p \<Rightarrow> reason p = R_STOP_RESUME);
           vm_state = (if resume then PROLOG_RESUME else PROLOG);
           tm_action = (if resume then TA_PROLOG_RESUME else TA_PROLOG)
       in steps [set_lcm vm_state, update, set_stime, set_prolog_stime, update_history,
                 add_capacity, tm tm_action vid, unlock] (v, w)
     else steps [unlock] (v, w))"

definition suspend_action :: "int \<Rightarrow> one \<Rightarrow> one res" where
  "suspend_action vid = with_vm vid (steps [
     branch (in_state RUNNING)
       [set_lcm SAVE_SUSPEND, update, vmm VA_SAVE vid]
       [],
     unlock])"

definition stop_action :: "int \<Rightarrow> one \<Rightarrow> one res" where
  "stop_action vid = with_vm vid (steps [
     branch (in_state RUNNING)
       [set_lcm SAVE_STOP, update, vmm VA_SAVE vid]
       [],
     unlock])"

definition migrate_action :: "int \<Rightarrow> one \<Rightarrow> one res" where
  "migrate_action vid = with_vm vid (steps [
     branch (in_state RUNNING)
       [set_lcm SAVE_MIGRATE, update, set_stime, update_history, add_capacity, vmm VA_SAVE vid]
       [],
     unlock])"

definition backup_action :: "int \<Rightarrow> one \<Rightarrow> one res" where
  "backup_action vid = with_vm vid (steps [
     branch (in_state RUNNING)
       [set_lcm OFF_BACKUP, update, vmm VA_BACKUP vid]
       [updatebkstate bakbid BK_BACKUP_FAIL],
     unlock])"

definition recover_action :: "int \<Rightarrow> one \<Rightarrow> one res" where
  "recover_action vid = with_vm vid (steps [
     branch (in_state RUNNING)
       [set_lcm OFF_RECOVER, update, vmm VA_RECOVER vid]
       [set_lcm PROLOG_RECOVER, update, tm TA_PROLOG_RECOVER vid],
     unlock])"

definition backupdisk_action :: "int \<Rightarrow> one \<Rightarrow> one res" where
  "backupdisk_action vid = with_vm vid (steps [
     branch (in_state RUNNING)
       [set_lcm OFF_BACKUPDISK, update, vmm VA_BACKUPDISK vid]
       [],
     unlock])"

definition live_migrate_action :: "int \<Rightarrow> one \<Rightarrow> one res" where
  "live_migrate_action vid = with_vm vid (steps [
     branch (in_state RUNNING)
       [set_lcm MIGRATE, update, set_stime, update_history, add_capacity, vmm VA_MIGRATE vid]
       [],
     unlock])"

definition shutdown_action :: "int \<Rightarrow> one \<Rightarrow> one res" where
  "shutdown_action vid = with_vm vid (steps [
     branch (in_state RUNNING)
       [set_lcm SHUTDOWN, update, vmm VA_SHUTDOWN vid]
       [],
     unlock])"

definition restore_action :: "int \<Rightarrow> one \<Rightarrow> one res" where
  "restore_action vid = with_vm vid (steps [
     branch (\<lambda>(v, w). state v = ACTIVE)
       [set_lcm BOOT, copy_history, update, set_stime, set_running_stime, update_history,
        add_capacity, vmm VA_RESTORE vid]
       [],
     unlock])"

definition cancel_action :: "int \<Rightarrow> one \<Rightarrow> one res" where
  "cancel_action vid = with_vm vid (steps [
     branch (in_state RUNNING)
       [set_lcm CANCEL, update, vmm VA_CANCEL vid]
       [],
     unlock])"

definition off_action :: "int \<Rightarrow> one \<Rightarrow> one res" where
  "off_action vid = with_vm vid (steps [
     branch (in_state RUNNING)
       [vmm VA_OFF vid]
       [],
     unlock])"

definition on_action :: "int \<Rightarrow> one \<Rightarrow> one res" where
  "on_action vid = with_vm vid (steps [
     branch (in_state OFF)
       [branch (\<lambda>(v, w). xm_list w = ''xen'')
          [tm TA_ON vid]
          [set_lcm BOOT, update, vmm VA_DEPLOY vid]]
       [],
     unlock])"

definition reboot_action :: "int \<Rightarrow> one \<Rightarrow> one res" where
  "reboot_action vid = with_vm vid (steps [
     branch (in_state RUNNING)
       [vmm VA_REBOOT vid]
       [],
     unlock])"

definition restart_action :: "int \<Rightarrow> one \<Rightarrow> one res" where
  "restart_action vid = with_vm vid (steps [
     branch (\<lambda>(v, w). state v = ACTIVE \<and> (lcm_state v = UNKNOWN \<or> lcm_state v = BOOT))
       [branch (\<lambda>(v, w). lcm_state v = BOOT)
          []
          [set_lcm BOOT, update],
        vmm VA_DEPLOY vid]
       [],
     unlock])"

text \<open>\<open>clean_up_vm\<close>: the requests that depend on the state the VM was in.\<close>

definition clean_up_requests :: "LcmState \<Rightarrow> int \<Rightarrow> (locked \<Rightarrow> locked res) list" where
  "clean_up_requests s vid =
    (if s = PROLOG \<or> s = PROLOG_RESUME then
       [set_prolog_etime, update_history, tm TA_DRIVER_CANCEL vid, tm TA_EPILOG_DELETE vid]
     else if s = BOOT \<or> s = RUNNING \<or> s = UNKNOWN \<or> s = SHUTDOWN \<or> s = CANCEL then
       [set_running_etime, update_history, vmm VA_DRIVER_CANCEL vid, vmm VA_CANCEL vid,
        tm TA_EPILOG_DELETE vid]
     else if s = MIGRATE then
       [set_running_etime, update_history,
        set_previous_etime, set_previous_running_etime, set_previous_reason R_USER,
        update_previous_history, del_capacity_previous,
        vmm VA_DRIVER_CANCEL vid, vmm VA_CANCEL vid, vmm VA_CANCEL_PREVIOUS vid,
        tm TA_EPILOG_DELETE vid]
     else if s = SAVE_STOP \<or> s = SAVE_SUSPEND then
       [set_running_etime, update_history, vmm VA_DRIVER_CANCEL vid, vmm VA_CANCEL vid,
        tm TA_EPILOG_DELETE vid]
     else if s = SAVE_MIGRATE then
       [set_running_etime, update_history,
        set_previous_etime, set_previous_running_etime, set_previous_reason R_USER,
        update_previous_history, del_capacity_previous,
        vmm VA_DRIVER_CANCEL vid, vmm VA_CANCEL_PREVIOUS vid,
        tm TA_EPILOG_DELETE_PREVIOUS vid]
     else if s = PROLOG_MIGRATE then
       [set_prolog_etime, update_history, tm TA_DRIVER_CANCEL vid, tm TA_EPILOG_DELETE vid,
        tm TA_EPILOG_DELETE_PREVIOUS vid]
     else if s = EPILOG_STOP \<or> s = EPILOG then
       [set_epilog_etime, update_history, tm TA_DRIVER_CANCEL vid, tm TA_EPILOG_DELETE vid]
     else if s = FAILURE then
       [tm TA_EPILOG_DELETE vid]
     else [])"

definition clean_up_vm :: "locked \<Rightarrow> locked res" where
  "clean_up_vm = (\<lambda>(v, w). let s = lcm_state v; vid = vm_oid v in
     steps ([set_lcm CLEANUP, update, set_etime, set_reason R_USER, del_capacity] @
            clean_up_requests s vid) (v, w))"

definition delete_action :: "int \<Rightarrow> one \<Rightarrow> one res" where
  "delete_action vid = with_vm vid (branch
     (\<lambda>(v, w). lcm_state v = LCM_INIT \<or> lcm_state v = CLEANUP)
     [unlock]
     [clean_up_vm, dm DA_DONE vid, unlock])"

definition clean_action :: "int \<Rightarrow> one \<Rightarrow> one res" where
  "clean_action vid = with_vm vid (branch
     (\<lambda>(v, w). lcm_state v = LCM_INIT \<or> lcm_state v = CLEANUP)
     [unlock]
     [clean_up_vm, dm DA_RESUBMIT vid, unlock])"

end
