(* ===== verification/LcmStates.thy ===== *)
theory LcmStates
  imports LcmActions
begin

text \<open>
  The life-cycle manager's reactions to the results of the drivers (src/lcm/LifeCycleStates.cc).
\<close>

text \<open>\<open>failure_action(vm)\<close>, which the failure handlers call with the VM locked.\<close>

definition failure_action :: "locked \<Rightarrow> locked res" where
  "failure_action = steps [set_lcm FAILURE, update, set_etime, set_reason R_ERROR, update_history,
     del_capacity, (\<lambda>(v, w). dm DA_FAILED (vm_oid v) (v, w))]"

definition save_success_action :: "int \<Rightarrow> one \<Rightarrow> one res" where
  "save_success_action vid = with_vm vid (steps [
     branch (\<lambda>(v, w). lcm_state v = SAVE_MIGRATE)
       [set_lcm PROLOG_MIGRATE, update,
        set_previous_etime, set_previous_running_etime, set_previous_reason R_USER,
        update_previous_history, set_prolog_stime, update_history,
        del_capacity_previous, tm TA_PROLOG_MIGR vid]
    [branch (\<lambda>(v, w). lcm_state v = SAVE_SUSPEND)
       [set_running_etime, set_etime, set_reason R_STOP_RESUME, update_history,
        del_capacity, dm DA_SUSPEND_SUCCESS vid]
    [branch (\<lambda>(v, w). lcm_state v = SAVE_STOP)
       [set_lcm EPILOG_STOP, update, set_epilog_stime, set_running_etime,
        set_reason R_STOP_RESUME, update_history, tm TA_EPILOG_STOP vid]
       []]],
     unlock])"

definition save_failure_action :: "int \<Rightarrow> one \<Rightarrow> one res" where
  "save_failure_action vid = with_vm vid (steps [
     branch (\<lambda>(v, w). lcm_state v = SAVE_MIGRATE)
       [set_lcm RUNNING, set_etime, set_reason R_ERROR, update_history, del_capacity,
        set_previous_etime, set_previous_running_etime, set_previous_reason R_USER,
        update_previous_history, copy_previous_history, update, set_stime, set_running_stime,
        update_history, vmm VA_POLL vid]
    [branch (\<lambda>(v, w). lcm_state v = SAVE_SUSPEND \<or> lcm_state v = SAVE_STOP)
       [set_lcm RUNNING, update, vmm VA_POLL vid]
       []],
     unlock])"

definition deploy_success_action :: "int \<Rightarrow> one \<Rightarrow> one res" where
  "deploy_success_action vid = with_vm vid (steps [
     branch (\<lambda>(v, w). lcm_state v = MIGRATE)
       [set_running_stime, update_history,
        set_previous_etime, set_previous_running_etime, set_previous_reason R_USER,
        update_previous_history, del_capacity_previous]
       [],
     branch (\<lambda>(v, w). lcmstate v = PROLOG_RECOVER_DECOMPRESS)
       [updatebkstate updatebkstateoid BK_RESUME_SUCESS, set_lcm DELETEBAK, update,
        set_lcmstate RUNNING, tm TA_DELETEBAK vid]
    [branch (\<lambda>(v, w). lcmstate v = PROLOG_BACKUP)
       [set_lcm DELETE_BACKUP_COMPRESS, update, set_lcmstate RUNNING,
        tm TA_DELETE_BACKUP_COMPRESS vid]
       []],
     set_lcm RUNNING, update, unlock])"

definition deploy_failure_action :: "int \<Rightarrow> one \<Rightarrow> one res" where
  "deploy_failure_action vid = with_vm vid (steps [
     branch (\<lambda>(v, w). lcm_state v = MIGRATE)
       [set_lcm RUNNING, update, set_etime, set_reason R_ERROR,
        set_previous_etime, set_previous_running_etime, set_previous_reason R_USER,
        update_previous_history, del_capacity,
        copy_previous_history, update, set_stime, set_running_stime, update_history,
        vmm VA_POLL vid]
    [branch (\<lambda>(v, w). lcm_state v = BOOT)
       [set_running_etime, failure_action]
       []],
     unlock])"

definition shutdown_success_action :: "int \<Rightarrow> one \<Rightarrow> one res" where
  "shutdown_success_action vid = with_vm vid (steps [
     set_lcm EPILOG, update, set_epilog_stime, set_running_etime, update_history,
     tm TA_EPILOG vid, unlock])"

definition shutdown_failure_action :: "int \<Rightarrow> one \<Rightarrow> one res" where
  "shutdown_failure_action vid = with_vm vid (steps [
     set_lcm RUNNING, update, vmm VA_POLL vid, unlock])"

text \<open>The states of a VM that boots again after a backup, a restore or a failure of one.\<close>

definition redeploy_state :: "LcmState \<Rightarrow> bool" where
  "redeploy_state s \<longleftrightarrow> s = PROLOG_BACKUP \<or> s = PROLOG_RECOVER_DECOMPRESS \<or>
     s = DELETE_RECOVER_FAIL \<or> s = RECOVER_DECOMPRESS_FAIL \<or> s = DELETE_BACKUP_FAIL \<or>
     s = PROLOG_BACKUPDISK"

definition prolog_success_action :: "int \<Rightarrow> one \<Rightarrow> one res" where
  "prolog_success_action vid = with_vm vid (\<lambda>(v, w).
     let s = lcm_state v;
         boot = (\<lambda>action. [
           branch (\<lambda>(v, w). lcm_state v = PROLOG_RECOVER_DECOMPRESS)
             [set_lcmstate PROLOG_RECOVER_DECOMPRESS] [],
           branch (\<lambda>(v, w). redeploy_state s \<and> xm_list w = ''xen'')
             [set_lcm OFF, update, tm TA_ON vid]
             [set_lcm BOOT, update, set_prolog_etime, set_running_stime, update_history,
              vmm action vid],
           unlock])
     in if s = PROLOG then steps (boot VA_DEPLOY) (v, w)
        else if s = PROLOG_MIGRATE \<or> s = PROLOG_RESUME then steps (boot VA_RESTORE) (v, w)
        else if s = PROLOG_BACKUP then
          steps ([set_bketime, set_bkstate BK_BACKUP_SUCESS, update_backup,
                  set_lcmstate PROLOG_BACKUP] @ boot VA_DEPLOY) (v, w)
        else if s = PROLOG_RECOVER_DECOMPRESS \<or> s = DELETE_RECOVER_FAIL \<or>
                s = RECOVER_DECOMPRESS_FAIL \<or> s = DELETE_BACKUP_FAIL
          then steps (boot VA_DEPLOY) (v, w)
        else if s = PROLOG_BACKUPDISK then
          steps ([set_dkstate DK_BACKUPDISK_SUCESS, update_backupdisk] @ boot VA_DEPLOY) (v, w)
        else steps [unlock] (v, w))"

definition prolog_failure_action :: "int \<Rightarrow> one \<Rightarrow> one res" where
  "prolog_failure_action vid = with_vm vid (steps [
     branch (\<lambda>(v, w). lcm_state v = PROLOG_BACKUP)
       [set_lcm DELETE_BACKUP_FAIL, update, updatebkstate bakbid BK_BACKUP_FAIL,
        set_lcmstate RUNNING, (\<lambda>(v, w). tm TA_DELETE_BACKUP_FAIL (vm_oid v) (v, w))]
    [branch (\<lambda>(v, w). lcm_state v = PROLOG_RECOVER)
       [set_lcm DELETE_RECOVER_FAIL, update, updatebkstate updatebkstateoid BK_RESUME_FAIL,
        set_lcmstate RUNNING, (\<lambda>(v, w). tm TA_DELETE_RECOVER_FAIL (vm_oid v) (v, w))]
    [branch (\<lambda>(v, w). lcm_state v = PROLOG_RECOVER_DECOMPRESS)
       [set_lcm RECOVER_DECOMPRESS_FAIL, update, updatebkstate updatebkstateoid BK_RESUME_FAIL,
        set_lcmstate RUNNING, (\<lambda>(v, w). tm TA_RECOVER_DECOMPRESS_FAIL (vm_oid v) (v, w))]
    [branch (\<lambda>(v, w). lcm_state v = PROLOG_BACKUPDISK)
       [updatedkstate dkbid DK_BACKUPDISK_FAIL,
        branch (\<lambda>(v, w). xm_list w = ''xen'')
          [set_lcm OFF, update, tm TA_ON vid]
          [vmm VA_DEPLOY vid]]
       [set_prolog_etime, failure_action]]]],
     unlock])"

definition epilog_success_action :: "int \<Rightarrow> one \<Rightarrow> one res" where
  "epilog_success_action vid = with_vm vid (\<lambda>(v, w).
     let finish = (\<lambda>action. steps [set_epilog_etime, set_etime, update_history, del_capacity,
                                   dm action vid, unlock])
     in if lcm_state v = EPILOG_STOP then finish DA_STOP_SUCCESS (v, w)
        else if lcm_state v = EPILOG then finish DA_DONE (v, w)
        else steps [unlock] (v, w))"

definition epilog_failure_action :: "int \<Rightarrow> one \<Rightarrow> one res" where
  "epilog_failure_action vid = with_vm vid (steps [set_epilog_etime, failure_action, unlock])"

definition cancel_success_action :: "int \<Rightarrow> one \<Rightarrow> one res" where
  "cancel_success_action vid = with_vm vid (steps [
     set_lcm EPILOG, update, set_reason R_CANCEL, set_epilog_stime, set_running_etime,
     update_history, tm TA_EPILOG vid, unlock])"

definition off_success_action :: "int \<Rightarrow> one \<Rightarrow> one res" where
  "off_success_action vid = with_vm vid (steps [
     branch (\<lambda>(v, w). lcm_state v = OFF_BACKUP)
       [set_lcm PROLOG_BACKUP, update, tm TA_PROLOG_BACKUP vid]
    [branch (\<lambda>(v, w). lcm_state v = OFF_RECOVER)
       [set_lcm PROLOG_RECOVER, update, tm TA_PROLOG_RECOVER vid]
    [branch (\<lambda>(v, w). lcm_state v = OFF_BACKUPDISK)
       [set_lcm PROLOG_BACKUPDISK, update, tm TA_PROLOG_BACKUPDISK vid]
       [set_lcm OFF, update]]],
     unlock])"

text \<open>\<open>xmlist_success_action\<close> calls \<open>vm->log\<close> on the null pointer when there is no such VM: \<open>log\<close>
  reads the member \<open>_log\<close>.\<close>

definition xmlist_success_action :: "int \<Rightarrow> one \<Rightarrow> one res" where
  "xmlist_success_action vid w = (if vms w vid = None then Segv else
     with_vm vid (branch (\<lambda>(v, w). lcm_state v = OFF)
       [set_lcm BOOT, update, vmm VA_DEPLOY vid, unlock]
       [unlock]) w)"

definition xmlist_failure_action :: "int \<Rightarrow> one \<Rightarrow> one res" where
  "xmlist_failure_action vid = with_vm vid (steps [unlock])"

definition prolog_recover_decompress_action :: "int \<Rightarrow> one \<Rightarrow> one res" where
  "prolog_recover_decompress_action vid = with_vm vid (steps [
     set_lcm PROLOG_RECOVER_DECOMPRESS, update, tm TA_PROLOG_RECOVER_DECOMPRESS vid, unlock])"

definition cancel_failure_action :: "int \<Rightarrow> one \<Rightarrow> one res" where
  "cancel_failure_action vid = with_vm vid (steps [
     branch (\<lambda>(v, w). lcm_state v = OFF_BACKUP)
       [updatebkstate bakbid BK_BACKUP_FAIL]
    [branch (\<lambda>(v, w). lcm_state v = OFF_RECOVER)
       [updatebkstate updatebkstateoid BK_RESUME_FAIL]
    [branch (\<lambda>(v, w). lcm_state v = OFF_BACKUPDISK)
       [updatedkstate dkbid DK_BACKUPDISK_FAIL]
       []]],
     set_lcm RUNNING, update, vmm VA_POLL vid, unlock])"

definition monitor_failure_action :: "int \<Rightarrow> one \<Rightarrow> one res" where
  "monitor_failure_action vid = with_vm vid (steps [set_running_etime, failure_action, unlock])"

definition monitor_suspend_action :: "int \<Rightarrow> one \<Rightarrow> one res" where
  "monitor_suspend_action vid = with_vm vid (steps [
     set_lcm SAVE_SUSPEND, update, set_running_etime, set_etime, set_reason R_STOP_RESUME,
     update_history, del_capacity, dm DA_SUSPEND_SUCCESS vid, unlock])"

definition monitor_done_action :: "int \<Rightarrow> one \<Rightarrow> one res" where
  "monitor_done_action vid = with_vm vid (steps [set_lcm UNKNOWN, update, unlock])"

end
