(* ===== verification/LcmManager.thy ===== *)
theory LcmManager
  imports LcmStates
begin

text \<open>
  The dispatch of the life-cycle manager (src/lcm/LifeCycleManager.cc).  \<open>do_action\<close> compares the name
  of the request with the known names, in the order of the source; an unknown name and
  ACTION_FINALIZE change nothing.
\<close>

definition lcm_do_action :: "string \<Rightarrow> int \<Rightarrow> one \<Rightarrow> one res" where
  "lcm_do_action action vid =
    (if action = ''SAVE_SUCCESS'' then save_success_action vid
     else if action = ''SAVE_FAILURE'' then save_failure_action vid
     else if action = ''DEPLOY_SUCCESS'' then deploy_success_action vid
     else if action = ''DEPLOY_FAILURE'' then deploy_failure_action vid
     else if action = ''SHUTDOWN_SUCCESS'' then shutdown_success_action vid
     else if action = ''SHUTDOWN_FAILURE'' then shutdown_failure_action vid
     else if action = ''CANCEL_SUCCESS'' then cancel_success_action vid
     else if action = ''OFF_SUCCESS'' then off_success_action vid
     else if action = ''CANCEL_FAILURE'' then cancel_failure_action vid
     else if action = ''XMLIST_SUCCESS'' then xmlist_success_action vid
     else if action = ''XMLIST_FAILURE'' then xmlist_failure_action vid
     else if action = ''PROLOG_RECOVER_DECOMPRESS'' then prolog_recover_decompress_action vid
     else if action = ''MONITOR_FAILURE'' then monitor_failure_action vid
     else if action = ''MONITOR_SUSPEND'' then monitor_suspend_action vid
     else if action = ''MONITOR_DONE'' then monitor_done_action vid
     else if action = ''PROLOG_SUCCESS'' then prolog_success_action vid
     else if action = ''PROLOG_FAILURE'' then prolog_failure_action vid
     else if action = ''EPILOG_SUCCESS'' then epilog_success_action vid
     else if action = ''EPILOG_FAILURE'' then epilog_failure_action vid
     else if action = ''DEPLOY'' then deploy_action vid
     else if action = ''SUSPEND'' then suspend_action vid
     else if action = ''RESTORE'' then restore_action vid
     else if action = ''STOP'' then stop_action vid
     else if action = ''CANCEL'' then cancel_action vid
     else if action = ''OFF'' then off_action vid
     else if action = ''ON'' then on_action vid
     else if action = ''MIGRATE'' then migrate_action vid
     else if action = ''BACKUP'' then backup_action vid
     else if action = ''RECOVER'' then recover_action vid
     else if action = ''BACKUPDISK'' then backupdisk_action vid
     else if action = ''LIVE_MIGRATE'' then live_migrate_action vid
     else if action = ''SHUTDOWN'' then shutdown_action vid
     else if action = ''RESTART'' then restart_action vid
     else if action = ''REBOOT'' then reboot_action vid
     else if action = ''DELETE'' then delete_action vid
     else if action = ''CLEAN'' then clean_action vid
     else if action = ''ACTION_FINALIZE'' then Done
     else Done)"

text \<open>The handler of each action of the enumeration, as the comments of the header assign them.\<close>

fun lcm_handler :: "lcm_action \<Rightarrow> int \<Rightarrow> one \<Rightarrow> one res" where
  "lcm_handler LA_SAVE_SUCCESS = save_success_action"
| "lcm_handler LA_SAVE_FAILURE = save_failure_action"
| "lcm_handler LA_DEPLOY_SUCCESS = deploy_success_action"
| "lcm_handler LA_DEPLOY_FAILURE = deploy_failure_action"
| "lcm_handler LA_SHUTDOWN_SUCCESS = shutdown_success_action"
| "lcm_handler LA_SHUTDOWN_FAILURE = shutdown_failure_action"
| "lcm_handler LA_CANCEL_SUCCESS = cancel_success_action"
| "lcm_handler LA_CANCEL_FAILURE = cancel_failure_action"
| "lcm_handler LA_OFF_SUCCESS = off_success_action"
| "lcm_handler LA_MONITOR_FAILURE = monitor_failure_action"
| "lcm_handler LA_MONITOR_SUSPEND = monitor_suspend_action"
| "lcm_handler LA_MONITOR_DONE = monitor_done_action"
| "lcm_handler LA_PROLOG_SUCCESS = prolog_success_action"
| "lcm_handler LA_PROLOG_FAILURE = prolog_failure_action"
| "lcm_handler LA_EPILOG_SUCCESS = epilog_success_action"
| "lcm_handler LA_EPILOG_FAILURE = epilog_failure_action"
| "lcm_handler LA_DEPLOY = deploy_action"
| "lcm_handler LA_SUSPEND = suspend_action"
| "lcm_handler LA_RESTORE = restore_action"
| "lcm_handler LA_STOP = stop_action"
| "lcm_handler LA_CANCEL = cancel_action"
| "lcm_handler LA_OFF = off_action"
| "lcm_handler LA_ON = on_action"
| "lcm_handler LA_XMLIST_SUCCESS = xmlist_success_action"
| "lcm_handler LA_XMLIST_FAILURE = xmlist_failure_action"
| "lcm_handler LA_MIGRATE = migrate_action"
| "lcm_handler LA_BACKUP = backup_action"
| "lcm_handler LA_RECOVER = recover_action"
| "lcm_handler LA_BACKUPDISK = backupdisk_action"
| "lcm_handler LA_LIVE_MIGRATE = live_migrate_action"
| "lcm_handler LA_SHUTDOWN = shutdown_action"
| "lcm_handler LA_RESTART = restart_action"
| "lcm_handler LA_REBOOT = reboot_action"
| "lcm_handler LA_DELETE = delete_action"
| "lcm_handler LA_CLEAN = clean_action"
| "lcm_handler LA_FINALIZE = (\<lambda>vid. Done)"
| "lcm_handler LA_PROLOG_RECOVER_DECOMPRESS = prolog_recover_decompress_action"

lemma lcm_dispatch: "lcm_do_action (lcm_action_name a) = lcm_handler a"
  by (rule ext, cases a) (simp_all add: lcm_do_action_def)

end
