(* ===== verification/Drivers.thy ===== *)
theory Drivers
  imports LcmManager
begin

text \<open>
  The answers of the drivers: \<open>TransferManagerDriver::protocol\<close> (src/tm/TransferManagerDriver.cc) and
  \<open>VirtualMachineManagerDriver::protocol\<close> (src/vmm/VirtualMachineManagerDriver.cc), which turn a line of a
  driver into an action of the life-cycle manager.

  A line is given by its action, whether its result is SUCCESS, the VM it names, the words that follow and,
  for \<open>getline\<close>, the rest of the line as one string.  \<open>cents s\<close> is the value \<open>(int)(f * 100)\<close> of the float
  read from \<open>s\<close>.  The message of the VM's ERROR attribute is kept in \<open>attrs\<close>, without its time stamp.
\<close>

definition ignoring :: "locked \<Rightarrow> bool" where
  "ignoring = (\<lambda>(v, w). lcm_state v \<in> {CLEANUP, FAILURE, LCM_INIT})"

definition set_error :: "string \<Rightarrow> string \<Rightarrow> locked \<Rightarrow> locked res" where
  "set_error msg info = (\<lambda>(v, w). Done
     (if info \<noteq> [] \<and> hd info \<noteq> CHR ''-'' then v\<lparr>attrs := (attrs v)(''ERROR'' \<mapsto> msg @ '': '' @ info)\<rparr> else v, w))"

subsection \<open>Transfer manager\<close>

fun tm_answer :: "bool \<Rightarrow> LcmState \<Rightarrow> lcm_action option" where
  "tm_answer success PROLOG = Some (if success then LA_PROLOG_SUCCESS else LA_PROLOG_FAILURE)"
| "tm_answer success PROLOG_MIGRATE = Some (if success then LA_PROLOG_SUCCESS else LA_PROLOG_FAILURE)"
| "tm_answer success PROLOG_BACKUP = Some (if success then LA_PROLOG_SUCCESS else LA_PROLOG_FAILURE)"
| "tm_answer success PROLOG_BACKUPDISK = Some (if success then LA_PROLOG_SUCCESS else LA_PROLOG_FAILURE)"
| "tm_answer success PROLOG_RESUME = Some (if success then LA_PROLOG_SUCCESS else LA_PROLOG_FAILURE)"
| "tm_answer success DELETE_RECOVER_FAIL = Some (if success then LA_PROLOG_SUCCESS else LA_PROLOG_FAILURE)"
| "tm_answer success RECOVER_DECOMPRESS_FAIL = Some (if success then LA_PROLOG_SUCCESS else LA_PROLOG_FAILURE)"
| "tm_answer success DELETE_BACKUP_FAIL = Some (if success then LA_PROLOG_SUCCESS else LA_PROLOG_FAILURE)"
| "tm_answer success PROLOG_RECOVER_DECOMPRESS = Some (if success then LA_PROLOG_SUCCESS else LA_PROLOG_FAILURE)"
| "tm_answer success PROLOG_RECOVER = Some (if success then LA_PROLOG_RECOVER_DECOMPRESS else LA_PROLOG_FAILURE)"
| "tm_answer success DELETEBAK = Some LA_DEPLOY_SUCCESS"
| "tm_answer success DELETE_BACKUP_COMPRESS = Some LA_DEPLOY_SUCCESS"
| "tm_answer success OFF = Some (if success then LA_XMLIST_SUCCESS else LA_XMLIST_FAILURE)"
| "tm_answer success EPILOG = Some (if success then LA_EPILOG_SUCCESS else LA_EPILOG_FAILURE)"
| "tm_answer success EPILOG_STOP = Some (if success then LA_EPILOG_SUCCESS else LA_EPILOG_FAILURE)"
| "tm_answer success _ = None"

definition tm_reply :: "bool \<Rightarrow> int \<Rightarrow> locked \<Rightarrow> locked res" where
  "tm_reply success vid s = (case tm_answer success (lcm_state (fst s)) of
     None \<Rightarrow> Done s | Some a \<Rightarrow> lcm a vid s)"

definition tm_transfer :: "bool \<Rightarrow> string \<Rightarrow> int \<Rightarrow> locked \<Rightarrow> locked res" where
  "tm_transfer success info vid = steps [
     branch (\<lambda>_. success \<or> info = [] \<or> hd info = CHR ''-'') []
       [set_error ''Error excuting image transfer script'' info, update],
     tm_reply success vid]"

definition tm_protocol :: "string \<Rightarrow> bool \<Rightarrow> string \<Rightarrow> int \<Rightarrow> one \<Rightarrow> one res" where
  "tm_protocol action success info vid = with_vm vid (branch ignoring [unlock]
     [branch (\<lambda>_. action = ''TRANSFER'') [tm_transfer success info vid] [], unlock])"

subsection \<open>Virtual machine manager\<close>

text \<open>\<open>replace_template_attribute\<close> from a monitoring value: an attribute of any name, which is turned to
  upper case.  The attribute replaces all those of that name, vector attributes too.\<close>

definition to_upper :: "string \<Rightarrow> string" where
  "to_upper = map (\<lambda>c. let n = of_char c :: nat in if 97 \<le> n \<and> n \<le> 122 then char_of (n - 32) else c)"

definition replace_attribute :: "(string \<Rightarrow> int) \<Rightarrow> string \<Rightarrow> string \<Rightarrow> vm \<Rightarrow> vm" where
  "replace_attribute cents var val v = (let name = to_upper var in
     if name = ''MEMORY'' then v\<lparr>req_memory := (if val = [] then 0 else fst (extract_int (req_memory v) (istr val)))\<rparr>
     else if name = ''CPU'' then v\<lparr>req_cpu := (if val = [] then None else Some (cents val))\<rparr>
     else if name = ''DISK'' then v\<lparr>disks := [None]\<rparr>
     else if name = ''NIC'' then v\<lparr>nics := [None]\<rparr>
     else if name = ''RAW'' then v\<lparr>raw_data := None\<rparr>
     else if name = ''CONTEXT'' then v\<lparr>contexts := [None]\<rparr>
     else v\<lparr>attrs := (attrs v)(name \<mapsto> val)\<rparr>)"

record poll =
  p_memory :: int
  p_cpu :: int
  p_net_tx :: int
  p_net_rx :: int
  p_state :: char
  p_error :: bool

definition new_poll :: poll where
  "new_poll = \<lparr>p_memory = -1, p_cpu = -1, p_net_tx = -1, p_net_rx = -1, p_state = CHR ''-'', p_error = False\<rparr>"

text \<open>One word of the monitoring string, \<open>VAR=value\<close> with neither part empty.\<close>

definition poll_word :: "(string \<Rightarrow> int) \<Rightarrow> string \<Rightarrow> poll \<times> vm \<Rightarrow> poll \<times> vm" where
  "poll_word cents tmp = (\<lambda>(p, v).
     let var = takeWhile (\<lambda>c. c \<noteq> CHR ''='') tmp; rest = dropWhile (\<lambda>c. c \<noteq> CHR ''='') tmp; val = tl rest in
     if rest = [] \<or> var = [] \<or> val = [] then (p\<lparr>p_error := True\<rparr>, v)
     else if var = ''USEDMEMORY'' then (p\<lparr>p_memory := fst (extract_int (p_memory p) (istr val))\<rparr>, v)
     else if var = ''USEDCPU'' then (p\<lparr>p_cpu := fst (extract_int (p_cpu p) (istr val))\<rparr>, v)
     else if var = ''NETRX'' then (p\<lparr>p_net_rx := fst (extract_int (p_net_rx p) (istr val))\<rparr>, v)
     else if var = ''NETTX'' then (p\<lparr>p_net_tx := fst (extract_int (p_net_tx p) (istr val))\<rparr>, v)
     else if var = ''STATE'' then (p\<lparr>p_state := hd val\<rparr>, v)
     else (p, replace_attribute cents var val v))"

definition poll_words :: "(string \<Rightarrow> int) \<Rightarrow> string list \<Rightarrow> vm \<Rightarrow> poll \<times> vm" where
  "poll_words cents ws v = fold (poll_word cents) ws (new_poll, v)"

definition update_info :: "poll \<Rightarrow> vm \<Rightarrow> vm" where
  "update_info p v = v\<lparr>mon_memory := (if p_memory p \<noteq> -1 then p_memory p else mon_memory v),
     mon_cpu := (if p_cpu p \<noteq> -1 then p_cpu p else mon_cpu v),
     mon_net_tx := (if p_net_tx p \<noteq> -1 then p_net_tx p else mon_net_tx v),
     mon_net_rx := (if p_net_rx p \<noteq> -1 then p_net_rx p else mon_net_rx v)\<rparr>"

definition poll_state :: "char \<Rightarrow> int \<Rightarrow> locked \<Rightarrow> locked res" where
  "poll_state st vid = branch (\<lambda>(v, w). lcm_state v = RUNNING \<or> lcm_state v = UNKNOWN)
     [branch (\<lambda>_. st = CHR ''a'')
        [branch (\<lambda>(v, w). lcm_state v = UNKNOWN) [set_lcm RUNNING, update] []]
     [branch (\<lambda>_. st = CHR ''p'') [lcm LA_MONITOR_SUSPEND vid]
     [branch (\<lambda>_. st = CHR ''e'') [lcm LA_MONITOR_FAILURE vid]
     [branch (\<lambda>_. st = CHR ''d'') [lcm LA_MONITOR_DONE vid] []]]]] []"

definition poll_success :: "(string \<Rightarrow> int) \<Rightarrow> string list \<Rightarrow> int \<Rightarrow> locked \<Rightarrow> locked res" where
  "poll_success cents ws vid = (\<lambda>(v, w).
     let (p, v) = poll_words cents ws v in
     if p_error p then steps [set_error ''Error parsing monitoring str'' ''parse'', update] (v, w)
     else steps [update, poll_state (p_state p) vid] (update_info p v, w))"

text \<open>An action that ends in one of two life-cycle actions; a failure leaves its message in the VM.\<close>

definition vmm_result :: "bool \<Rightarrow> lcm_action \<Rightarrow> lcm_action \<Rightarrow> string \<Rightarrow> string \<Rightarrow> int \<Rightarrow> locked \<Rightarrow> locked res" where
  "vmm_result success ok err msg info vid = branch (\<lambda>_. success)
     [lcm ok vid] [set_error msg info, update, lcm err vid]"

definition vmm_action_of :: "(string \<Rightarrow> int) \<Rightarrow> string \<Rightarrow> bool \<Rightarrow> string list \<Rightarrow> string \<Rightarrow> int \<Rightarrow> locked \<Rightarrow> locked res" where
  "vmm_action_of cents action success ws info vid =
     (if action = ''DEPLOY'' then
        (if success then steps [(\<lambda>(v, w). Done (v\<lparr>deploy_id := (if ws = [] then [] else hd ws), last_poll := now w\<rparr>, w)),
            update, lcm LA_DEPLOY_SUCCESS vid]
         else steps [set_error ''Error deploying virtual machine'' info, update, lcm LA_DEPLOY_FAILURE vid])
      else if action = ''SHUTDOWN'' then
        vmm_result success LA_SHUTDOWN_SUCCESS LA_SHUTDOWN_FAILURE ''Error shuting down VM'' info vid
      else if action = ''CANCEL'' then
        vmm_result success LA_CANCEL_SUCCESS LA_CANCEL_FAILURE ''Error canceling VM'' info vid
      else if action = ''OFF'' then
        vmm_result success LA_OFF_SUCCESS LA_CANCEL_FAILURE ''Error turning off VM'' info vid
      else if action = ''SAVE'' then
        vmm_result success LA_SAVE_SUCCESS LA_SAVE_FAILURE ''Error saving VM state'' info vid
      else if action = ''RESTORE'' then
        vmm_result success LA_DEPLOY_SUCCESS LA_DEPLOY_FAILURE ''Error restoring VM'' info vid
      else if action = ''MIGRATE'' then
        vmm_result success LA_DEPLOY_SUCCESS LA_DEPLOY_FAILURE ''Error live migrating VM'' info vid
      else if action = ''REBOOT'' then
        (if success then steps [] else steps [set_error ''Error rebooting VM, assume it's still running'' info, update])
      else if action = ''POLL'' then
        (if success then poll_success cents ws vid else steps [set_error ''Error monitoring VM'' info, update])
      else steps [])"

definition vmm_protocol ::
  "(string \<Rightarrow> int) \<Rightarrow> string \<Rightarrow> bool \<Rightarrow> string list \<Rightarrow> string \<Rightarrow> int \<Rightarrow> one \<Rightarrow> one res" where
  "vmm_protocol cents action success ws info vid = with_vm vid (branch ignoring [unlock]
     [vmm_action_of cents action success ws info vid, unlock])"

end
