(* ===== verification/NetworkCreate.thy ===== *)
theory NetworkCreate
  imports VirtualNetwork Templates Drivers
begin

text \<open>
  The creation of virtual networks: the range of a ranged network from its template
  (\<open>RangedLeases::process_template\<close>, src/vnm/RangedLeases.cc), \<open>VirtualNetwork::insert\<close> and
  \<open>select\<close> (src/vnm/VirtualNetwork.cc), \<open>VirtualNetworkPool::allocate\<close> and the prefix of hardware addresses
  (src/vnm/VirtualNetworkPool.cc).

  The number of bits for a number of hosts, \<open>ceil(log(size+2)/log(2))\<close> in floats, is a parameter.  A shift by
  the whole width of an \<open>unsigned int\<close> is undefined in the source and an outcome of its own.  The database is two
  tables: the rows of the networks and the rows of the leases.
\<close>

subsection \<open>The range of a network\<close>

datatype range_error = Bad_ip_start | Bad_ip_end | Greater | No_address | Bad_prefix | Bad_netmask | Bad_address | Not_base_address |
  Start_outside | End_outside

datatype range_outcome = Range "32 word" "32 word" | Range_error range_error | Undefined_shift

definition erase_attribute :: "string \<Rightarrow> tmpl \<Rightarrow> string \<times> tmpl" where
  "erase_attribute n t = (tmpl_get_string n t, snd (tmpl_erase n t))"

definition remove_attribute :: "string \<Rightarrow> tmpl \<Rightarrow> tmpl" where
  "remove_attribute n t = snd (tmpl_erase n t)"

definition replace_attribute_in :: "string \<Rightarrow> string \<Rightarrow> tmpl \<Rightarrow> tmpl" where
  "replace_attribute_in n v t = tmpl_set n (Single v) (snd (tmpl_erase n t))"

text \<open>An address that may be missing, and is 0 then.\<close>

definition optional_ip :: "junk \<Rightarrow> string \<Rightarrow> (32 word) option" where
  "optional_ip j s = (if s = [] then Some 0 else let (rc, ip) = ip_to_number (j_tmp j) 0 s in if rc \<noteq> 0 then None else Some ip)"

text \<open>The number of trailing zeros of a mask.\<close>

definition trailing_zeros :: "32 word \<Rightarrow> nat" where
  "trailing_zeros m = length (takeWhile (\<lambda>i. \<not> bit m i) [0 ..< 32])"

definition size_bits :: "(32 word \<Rightarrow> nat) \<Rightarrow> 32 word \<Rightarrow> junk \<Rightarrow> string \<Rightarrow> nat" where
  "size_bits log_bits default_size j s =
     (if s = ''C'' \<or> s = ''c'' then 8 else if s = ''B'' \<or> s = ''b'' then 16 else if s = ''A'' \<or> s = ''a'' then 24
      else log_bits (if s = [] then default_size else fst (extract_uint 10 (j_tmp j) (istr s))))"

text \<open>The bits of the host part: from the prefix after the address, from the mask or from the size.\<close>

definition host_bits ::
  "(32 word \<Rightarrow> nat) \<Rightarrow> 32 word \<Rightarrow> junk \<Rightarrow> string \<Rightarrow> tmpl \<Rightarrow> (range_error + nat) \<times> tmpl" where
  "host_bits log_bits default_size j st_addr t =
     (if CHR ''/'' \<in> set st_addr then
        (let network_bits = fst (extract_uint 10 (j_tmp j) (istr (drop 1 (dropWhile (\<lambda>c. c \<noteq> CHR ''/'') st_addr)))) in
         (if network_bits > 32 then Inl Bad_prefix else Inr (32 - unat network_bits), t))
      else case erase_attribute ''NETWORK_MASK'' t of (st_mask, t) \<Rightarrow>
        if st_mask \<noteq> [] then
          (case ip_to_number (j_tmp j) (j_ip j) st_mask of (rc, net_mask) \<Rightarrow>
             (if rc \<noteq> 0 then Inl Bad_netmask else Inr (trailing_zeros net_mask), t))
        else case erase_attribute ''NETWORK_SIZE'' t of (st_size, t) \<Rightarrow>
          (Inr (size_bits log_bits default_size j st_size), t))"

text \<open>The checks once the addresses and the bits of the host part are known.\<close>

definition net_mask_of :: "nat \<Rightarrow> 32 word" where
  "net_mask_of bits = push_bit bits 0xFFFFFFFF"

definition checked_range :: "nat \<Rightarrow> 32 word \<Rightarrow> 32 word \<Rightarrow> 32 word \<Rightarrow> range_outcome" where
  "checked_range bits net_addr start0 end0 = (let
       net_mask = net_mask_of bits;
       s = (if start0 = 0 then net_addr + 1 else start0);
       e = (if end0 = 0 then net_addr + push_bit bits 1 - 2 else end0) in
     if net_addr \<noteq> and net_mask net_addr then Range_error Not_base_address
     else if and s net_mask \<noteq> net_addr then Range_error Start_outside
     else if and e net_mask \<noteq> net_addr then Range_error End_outside
     else if e < s then Range_error Greater
     else Range s e)"

definition process_template ::
  "(32 word \<Rightarrow> nat) \<Rightarrow> 32 word \<Rightarrow> junk \<Rightarrow> tmpl \<Rightarrow> range_outcome \<times> tmpl" where
  "process_template log_bits default_size j t = (case erase_attribute ''IP_START'' t of (st_ip_start, t) \<Rightarrow>
     case erase_attribute ''IP_END'' t of (st_ip_end, t) \<Rightarrow>
     case optional_ip j st_ip_start of None \<Rightarrow> (Range_error Bad_ip_start, t)
   | Some start0 \<Rightarrow> (case optional_ip j st_ip_end of None \<Rightarrow> (Range_error Bad_ip_end, t)
   | Some end0 \<Rightarrow> (case erase_attribute ''NETWORK_ADDRESS'' t of (st_addr, t) \<Rightarrow>
       if st_addr = [] then
         (if start0 \<noteq> 0 \<and> end0 \<noteq> 0 then (if end0 < start0 then Range_error Greater else Range start0 end0) else Range_error No_address, t)
       else (case host_bits log_bits default_size j st_addr t of
           (Inl err, t) \<Rightarrow> (Range_error err, t)
         | (Inr bits, t) \<Rightarrow>
             (let t = remove_attribute ''NETWORK_SIZE'' t in
              if bits \<ge> 32 then (Undefined_shift, t)
              else (let t = replace_attribute_in ''NETWORK_MASK'' (ip_to_string (net_mask_of bits)) t in
                case ip_to_number (j_tmp j) (j_ip j) (takeWhile (\<lambda>c. c \<noteq> CHR ''/'') st_addr) of (rc, net_addr) \<Rightarrow>
                  (if rc \<noteq> 0 then Range_error Bad_address else checked_range bits net_addr start0 end0, t)))))))"

subsection \<open>Tables\<close>

datatype net_kind = Ranged_net "32 word" "32 word" | Fixed_net

record net_row =
  nr_name :: string
  nr_uid :: int
  nr_bridge :: string
  nr_vlan :: bool
  nr_phydev :: string
  nr_vlan_id :: string
  nr_kind :: net_kind

record net_store =
  networks :: "(int, net_row) stdmap"
  lease_table :: "int \<Rightarrow> (32 word, lease) stdmap"
  last_net :: int

text \<open>The rows of the leases have the identifier of the network and the address as their key.\<close>

definition lease_inserts :: "(32 word, lease) stdmap \<Rightarrow> db_oracle" where
  "lease_inserts rows = \<lparr>escape_ok = (\<lambda>_. True), exec_rc = (\<lambda>k. if mfind rows k = None then 0 else -1)\<rparr>"

definition add_lease_rows :: "int \<Rightarrow> (32 word, lease) stdmap \<Rightarrow> net_store \<Rightarrow> net_store" where
  "add_lease_rows oid ls s = s\<lparr>lease_table := (lease_table s)(oid := fold (\<lambda>(k, l). minsert k l) ls (lease_table s oid))\<rparr>"

subsection \<open>Creation\<close>

datatype net_error = No_type | Wrong_type | No_name | No_bridge | Bad_range range_error | Not_written | Shift_undefined

text \<open>What the configuration and the environment give: the bits for a size, the default size, the prefix of hardware addresses,
  values of locals that are never assigned, and whether the body of the row can be written.\<close>

record net_env =
  log_bits :: "32 word \<Rightarrow> nat"
  default_size :: "32 word"
  net_prefix :: "32 word"
  env_junk :: junk
  mac_junk :: mac
  body_ok :: bool

definition lease_attr :: "attr \<Rightarrow> (string \<rightharpoonup> string) option" where
  "lease_attr a = (case a of Single _ \<Rightarrow> None | Vector m \<Rightarrow> Some (mfind m))"

text \<open>The last statements: the leases are constructed, which for a fixed network writes their rows, and then the row of the
  network is inserted; its name and owner are unique.\<close>

definition unique_net :: "string \<Rightarrow> int \<Rightarrow> net_store \<Rightarrow> bool" where
  "unique_net name uid s \<longleftrightarrow> (\<forall>(i, r) \<in> set (networks s). nr_name r \<noteq> name \<or> nr_uid r \<noteq> uid)"

definition insert_replace :: "net_env \<Rightarrow> int \<Rightarrow> net_row \<Rightarrow> net_store \<Rightarrow> int \<times> net_store" where
  "insert_replace env oid row s = (if body_ok env \<and> mfind (networks s) oid = None \<and> unique_net (nr_name row) (nr_uid row) s
     then (0, s\<lparr>networks := minsert oid row (networks s)\<rparr>) else (-1, s))"

definition insert_leases_of :: "net_env \<Rightarrow> int \<Rightarrow> net_kind \<Rightarrow> tmpl \<Rightarrow> net_store \<Rightarrow> net_store" where
  "insert_leases_of env oid kind t s = (case kind of Ranged_net _ _ \<Rightarrow> s
   | Fixed_net \<Rightarrow> add_lease_rows oid (l_rows (new_fixed (lease_inserts (lease_table s oid)) (env_junk env) (mac_junk env) oid
       (net_prefix env) (map lease_attr (attr_range ''LEASES'' (attributes t))))) s)"

definition vnet_kind :: "net_env \<Rightarrow> string \<Rightarrow> tmpl \<Rightarrow> net_error + net_kind" where
  "vnet_kind env s_type t = (if s_type = ''RANGED'' then
       (case fst (process_template (log_bits env) (default_size env) (env_junk env) t) of
          Range s e \<Rightarrow> Inr (Ranged_net s e) | Range_error err \<Rightarrow> Inl (Bad_range err) | Undefined_shift \<Rightarrow> Inl Shift_undefined)
     else Inr Fixed_net)"

definition vnet_insert :: "net_env \<Rightarrow> int \<Rightarrow> int \<Rightarrow> tmpl \<Rightarrow> net_store \<Rightarrow> net_error option \<times> net_store" where
  "vnet_insert env uid oid t s = (
     let (type0, t) = erase_attribute ''TYPE'' t; s_type = to_upper type0 in
     if s_type = [] then (Some No_type, s)
     else if s_type \<noteq> ''RANGED'' \<and> s_type \<noteq> ''FIXED'' then (Some Wrong_type, s)
     else let (name, t) = erase_attribute ''NAME'' t in
     if name = [] then (Some No_name, s)
     else let (phydev, t) = erase_attribute ''PHYDEV'' t;
              (vlan_id, t) = erase_attribute ''VLAN_ID'' t;
              (vlan_attr, t) = erase_attribute ''VLAN'' t;
              vlan = (to_upper vlan_attr = ''YES'' \<or> vlan_attr = [] \<and> phydev \<noteq> []);
              (bridge, t) = erase_attribute ''BRIDGE'' t in
     if bridge = [] \<and> phydev = [] then (Some No_bridge, s)
     else let bridge = (if bridge = [] then ''onebr'' @ int_string oid else bridge) in
     (case vnet_kind env s_type t of Inl err \<Rightarrow> (Some err, s)
      | Inr kind \<Rightarrow>
          (let s = insert_leases_of env oid kind t s;
               row = \<lparr>nr_name = name, nr_uid = uid, nr_bridge = bridge, nr_vlan = vlan, nr_phydev = phydev,
                      nr_vlan_id = vlan_id, nr_kind = kind\<rparr>
           in case insert_replace env oid row s of (rc, s) \<Rightarrow> (if rc \<noteq> 0 then Some Not_written else None, s))))"

text \<open>\<open>VirtualNetworkPool::allocate\<close> with \<open>PoolSQL::allocate\<close>: a failed insertion gives its identifier back;
  \<open>None\<close> is the undefined shift.\<close>

definition net_taken :: "string \<Rightarrow> int \<Rightarrow> net_store \<Rightarrow> bool" where
  "net_taken name uid s \<longleftrightarrow> \<not> unique_net name uid s"

definition vnet_allocate :: "net_env \<Rightarrow> int \<Rightarrow> tmpl \<Rightarrow> net_store \<Rightarrow> (int \<times> net_store) option" where
  "vnet_allocate env uid t s = (let name = tmpl_get_string ''NAME'' t in
     if name = [] \<or> length name > 128 \<or> net_taken name uid s then Some (-1, s)
     else let oid = (if last_net s = 2 ^ 31 - 1 then -1 else last_net s) + 1 in
       (case vnet_insert env uid oid t s of
          (None, s) \<Rightarrow> Some (oid, s\<lparr>last_net := oid\<rparr>)
        | (Some Shift_undefined, s) \<Rightarrow> None
        | (Some _, s) \<Rightarrow> Some (-1, s\<lparr>last_net := oid - 1\<rparr>)))"

text \<open>\<open>drop\<close> with the codes of its two statements: the row of the network, then those of its leases.\<close>

definition vnet_drop :: "int \<Rightarrow> int \<Rightarrow> int \<Rightarrow> net_store \<Rightarrow> int \<times> net_store" where
  "vnet_drop rc rc' oid s = (if rc \<noteq> 0 then (rc, s)
     else let s = s\<lparr>networks := merase oid (networks s)\<rparr> in
       (rc + rc', if rc' = 0 then s\<lparr>lease_table := (lease_table s)(oid := [])\<rparr> else s))"

subsection \<open>Loading\<close>

text \<open>\<open>select_leases\<close>: the leases of the kind without rows, to which \<open>select\<close> adds those of the table.\<close>

definition select_leases :: "net_env \<Rightarrow> int \<Rightarrow> net_kind \<Rightarrow> (32 word, lease) stdmap \<Rightarrow> net_leases" where
  "select_leases env oid kind rows = (case kind of
     Ranged_net s e \<Rightarrow> Ranged_l (snd (leases_select 0 (new_ranged oid (net_prefix env) s e\<lparr>l_rows := rows\<rparr>)))
   | Fixed_net \<Rightarrow> (let f = snd (leases_select 0 \<lparr>l_oid = oid, l_size = 0, n_used = 0, mac_prefix = net_prefix env, lmap = [],
         l_rows = rows, f_current = It_end\<rparr>) in Fixed_l (f\<lparr>l_size := of_nat (length (lmap f))\<rparr>)))"

definition select_network :: "net_env \<Rightarrow> int \<Rightarrow> net_store \<Rightarrow> vnet option" where
  "select_network env oid s = map_option (\<lambda>r. \<lparr>n_oid = oid, n_name = nr_name r, bridge = nr_bridge r,
     vlan = (if nr_vlan r then 1 else 0), phydev = nr_phydev r, vlan_id = nr_vlan_id r,
     n_leases = select_leases env oid (nr_kind r) (lease_table s oid)\<rparr>) (mfind (networks s) oid)"

subsection \<open>The prefix of hardware addresses\<close>

definition pool_mac_prefix :: "32 word \<Rightarrow> string \<Rightarrow> 32 word" where
  "pool_mac_prefix tmp prefix = (let (mac, count) = blank_out CHR '':'' prefix in
     if count \<noteq> 1 then 1
     else let (p, iss) = extract_uint 16 0 (istr mac);
              (tmp, iss) = extract_uint 16 tmp (skip_ws iss)
          in push_bit 8 p + tmp)"

end
