(* ===== verification/NetworkCreateSpec.thy ===== *)
theory NetworkCreateSpec
  imports NetworkCreate
begin

text \<open>
  What the creation of a network gives: the range lies in the network of the template, a network that is loaded has the
  leases of its rows, a new one has no user, and what a failed creation leaves behind.
\<close>

subsection \<open>The range lies in the network\<close>

lemma masked: "and s (net_mask_of bits) = push_bit bits (drop_bit bits s)"
proof -
  have "(0xFFFFFFFF :: 32 word) = - 1" by simp
  then show ?thesis unfolding net_mask_of_def by (elim ssubst) (rule bit_word_eqI, auto simp: bit_simps)
qed

lemma unat_masked:
  assumes "bits < 32"
  shows "unat (push_bit bits (drop_bit bits (s :: 32 word))) = unat s div 2 ^ bits * 2 ^ bits"
proof -
  have "unat s div 2 ^ bits * 2 ^ bits \<le> unat s" by (simp add: mult.commute)
  also have "unat s < 2 ^ 32" using unsigned_less [of s, where 'a = nat] by simp
  finally have l: "unat s div 2 ^ bits * 2 ^ bits < 2 ^ 32" .
  have "unat (push_bit bits (drop_bit bits s)) = take_bit LENGTH(32) (push_bit bits (drop_bit bits (take_bit LENGTH(32) (unat s))))"
    by (simp only: unsigned_push_bit_eq unsigned_drop_bit_eq)
  also have "take_bit LENGTH(32) (unat s) = unat s" using unsigned_less [of s, where 'a = nat] by (simp add: take_bit_nat_eq_self)
  also have "push_bit bits (drop_bit bits (unat s)) = unat s div 2 ^ bits * 2 ^ bits"
    by (simp add: push_bit_eq_mult drop_bit_eq_div)
  also have "take_bit LENGTH(32) (unat s div 2 ^ bits * 2 ^ bits) = unat s div 2 ^ bits * 2 ^ bits"
    using l by (simp add: take_bit_nat_eq_self)
  finally show ?thesis .
qed

text \<open>The addresses of a network, its own and the broadcast address included.\<close>

definition in_network :: "nat \<Rightarrow> 32 word \<Rightarrow> 32 word \<Rightarrow> bool" where
  "in_network bits net ip \<longleftrightarrow> unat net \<le> unat ip \<and> unat ip < unat net + 2 ^ bits"

lemma masked_in_network:
  assumes "bits < 32"
  shows "and s (net_mask_of bits) = net \<longleftrightarrow> in_network bits net s \<and> 2 ^ bits dvd unat net"
proof -
  let ?q = "unat s div 2 ^ bits"
  have "and s (net_mask_of bits) = net \<longleftrightarrow> ?q * 2 ^ bits = unat net"
    by (simp add: masked unat_masked [OF assms, symmetric] word_unat_eq_iff)
  also have "\<dots> \<longleftrightarrow> in_network bits net s \<and> 2 ^ bits dvd unat net"
  proof
    assume "?q * 2 ^ bits = unat net"
    moreover have "?q * 2 ^ bits + unat s mod 2 ^ bits = unat s" by (rule div_mult_mod_eq)
    moreover have "unat s mod 2 ^ bits < 2 ^ bits" by simp
    ultimately show "in_network bits net s \<and> 2 ^ bits dvd unat net"
      unfolding in_network_def by (metis add_less_cancel_left dvd_triv_right le_add1)
  next
    assume a: "in_network bits net s \<and> 2 ^ bits dvd unat net"
    then obtain k where k: "unat net = k * 2 ^ bits" by (auto simp: dvd_def mult.commute)
    have "?q = k" using a unfolding in_network_def k
      by (intro div_nat_eqI) (simp_all add: mult.commute)
    then show "?q * 2 ^ bits = unat net" by (simp add: k)
  qed
  finally show ?thesis .
qed

lemma net_below:
  assumes "bits < 32" "2 ^ bits dvd unat (net :: 32 word)"
  shows "unat net + 2 ^ bits \<le> 2 ^ 32"
proof -
  obtain k where k: "unat net = k * 2 ^ bits" using assms(2) by (auto simp: dvd_def mult.commute)
  have e: "(2 :: nat) ^ 32 = 2 ^ (32 - bits) * 2 ^ bits" using assms(1) by (simp add: power_add [symmetric])
  have "k * 2 ^ bits < 2 ^ (32 - bits) * 2 ^ bits"
    using unsigned_less [of net, where 'a = nat] k e by simp
  then have "k + 1 \<le> 2 ^ (32 - bits)" by simp
  then have "(k + 1) * 2 ^ bits \<le> 2 ^ (32 - bits) * 2 ^ bits" by (rule mult_le_mono1)
  then show ?thesis using k e by simp
qed

lemma default_bounds:
  assumes "bits < 32" "0 < bits" "2 ^ bits dvd unat (net :: 32 word)"
  shows "unat (net + 1) = unat net + 1" "unat (net + push_bit bits 1 - 2) = unat net + 2 ^ bits - 2"
proof -
  have b: "unat net + 2 ^ bits \<le> 2 ^ 32" by (rule net_below [OF assms(1,3)])
  have two: "(2 :: nat) \<le> 2 ^ bits" using assms(2) by (cases bits) auto
  show "unat (net + 1) = unat net + 1" using b two by (simp add: unat_word_ariths)
  have p: "unat (push_bit bits 1 :: 32 word) = 2 ^ bits"
  proof -
    have "(2 :: nat) ^ bits < 2 ^ 32" using assms(1) by (intro power_strict_increasing) simp_all
    then have "unat (of_nat (2 ^ bits) :: 32 word) = 2 ^ bits" by (subst unat_of_nat) simp
    then show ?thesis by simp
  qed
  have "unat (push_bit bits 1 - 2 :: 32 word) = 2 ^ bits - 2"
    using p two by (subst unat_sub) (simp_all add: word_le_nat_alt)
  then have "unat (net + (push_bit bits 1 - 2)) = unat net + (2 ^ bits - 2)"
    using b two by (simp add: unat_word_ariths)
  then show "unat (net + push_bit bits 1 - 2) = unat net + 2 ^ bits - 2" using two by (simp add: algebra_simps)
qed

lemma checked_range_in_network:
  assumes "checked_range bits net s0 e0 = Range s e" "bits < 32"
  shows "s \<le> e \<and> in_network bits net s \<and> in_network bits net e \<and> 2 ^ bits dvd unat net \<and> s \<noteq> 0 \<and>
    (s0 = 0 \<longrightarrow> unat s = unat net + 1) \<and> (e0 = 0 \<longrightarrow> unat e = unat net + 2 ^ bits - 2)"
proof -
  have r: "s = (if s0 = 0 then net + 1 else s0)" "e = (if e0 = 0 then net + push_bit bits 1 - 2 else e0)" "s \<le> e"
    "and s (net_mask_of bits) = net" "and e (net_mask_of bits) = net" "net = and (net_mask_of bits) net"
    using assms(1) by (auto simp: checked_range_def Let_def not_less split: if_splits)
  then have n: "in_network bits net s" "in_network bits net e" "2 ^ bits dvd unat net"
    using masked_in_network [OF assms(2)] by blast+
  have "bits \<noteq> 0" if "s0 = 0 \<or> e0 = 0"
  proof
    assume z: "bits = 0"
    then have "s = net" "e = net" using n by (simp_all add: in_network_def word_unat_eq_iff)
    then show False using that r(1,2) z by auto
  qed
  then have d: "s0 = 0 \<Longrightarrow> unat s = unat net + 1" "e0 = 0 \<Longrightarrow> unat e = unat net + 2 ^ bits - 2"
    using default_bounds [OF assms(2) _ n(3)] r(1,2) by auto
  have "s \<noteq> 0" using d(1) r(1) by (cases "s0 = 0") (auto simp: unat_eq_zero [symmetric])
  then show ?thesis using r(3) n d by blast
qed

lemma erase_attribute_simps [simp]:
  "fst (erase_attribute n t) = tmpl_get_string n t"
  "attributes (snd (erase_attribute n t)) = attr_erase n (attributes t)"
  by (simp_all add: erase_attribute_def tmpl_erase_def)

lemma attr_range_erased: "attr_range n (attr_erase n' xs) = (if n = n' then [] else attr_range n xs)"
  by (induction xs) (auto simp: attr_range_def attr_erase_def)

lemma get_string_erased: "n \<noteq> n' \<Longrightarrow> tmpl_get_string n (snd (erase_attribute n' t)) = tmpl_get_string n t"
  by (simp add: tmpl_get_string_def tmpl_get_def attr_range_erased)

lemma host_bits_erased:
  assumes "n \<notin> {''NETWORK_MASK'', ''NETWORK_SIZE''}"
  shows "fst (host_bits lb ds j a (snd (erase_attribute n t))) = fst (host_bits lb ds j a t)"
proof -
  have s: "tmpl_get_string ''NETWORK_MASK'' (snd (erase_attribute n t)) = tmpl_get_string ''NETWORK_MASK'' t"
    "tmpl_get_string ''NETWORK_SIZE'' (snd (erase_attribute ''NETWORK_MASK'' (snd (erase_attribute n t)))) =
      tmpl_get_string ''NETWORK_SIZE'' (snd (erase_attribute ''NETWORK_MASK'' t))"
    using assms by (auto simp: get_string_erased)
  show ?thesis
    by (simp add: host_bits_def Let_def case_prod_unfold s)
qed

lemma optional_ip_Nil [simp]: "optional_ip j [] = Some 0"
  by (simp add: optional_ip_def)

lemma process_template_Range:
  assumes "fst (process_template lb ds j t) = Range s e"
  obtains s0 e0 where "optional_ip j (tmpl_get_string ''IP_START'' t) = Some s0" "optional_ip j (tmpl_get_string ''IP_END'' t) = Some e0"
    "(if tmpl_get_string ''NETWORK_ADDRESS'' t = [] then s0 \<noteq> 0 \<and> s = s0 \<and> e = e0 \<and> s \<le> e
      else \<exists>bits net. fst (host_bits lb ds j (tmpl_get_string ''NETWORK_ADDRESS'' t) t) = Inr bits \<and> bits < 32 \<and>
        ip_to_number (j_tmp j) (j_ip j) (takeWhile (\<lambda>c. c \<noteq> CHR ''/'') (tmpl_get_string ''NETWORK_ADDRESS'' t)) = (0, net) \<and>
        checked_range bits net s0 e0 = Range s e)"
proof -
  let ?a = "tmpl_get_string ''NETWORK_ADDRESS'' t"
  let ?t = "snd (erase_attribute ''NETWORK_ADDRESS'' (snd (erase_attribute ''IP_END'' (snd (erase_attribute ''IP_START'' t)))))"
  have g: "tmpl_get_string ''IP_END'' (snd (erase_attribute ''IP_START'' t)) = tmpl_get_string ''IP_END'' t"
    "tmpl_get_string ''NETWORK_ADDRESS'' (snd (erase_attribute ''IP_END'' (snd (erase_attribute ''IP_START'' t)))) = ?a"
    by (simp_all add: get_string_erased)
  obtain s0 e0 where o: "optional_ip j (tmpl_get_string ''IP_START'' t) = Some s0" "optional_ip j (tmpl_get_string ''IP_END'' t) = Some e0"
    using assms by (auto simp: process_template_def case_prod_unfold g split: option.splits)
  have p: "fst (process_template lb ds j t) = (if ?a = [] then
      (if s0 \<noteq> 0 \<and> e0 \<noteq> 0 then (if e0 < s0 then Range_error Greater else Range s0 e0) else Range_error No_address)
     else (case fst (host_bits lb ds j ?a ?t) of Inl err \<Rightarrow> Range_error err | Inr bits \<Rightarrow>
       if bits \<ge> 32 then Undefined_shift
       else (case ip_to_number (j_tmp j) (j_ip j) (takeWhile (\<lambda>c. c \<noteq> CHR ''/'') ?a) of (rc, net) \<Rightarrow>
         if rc \<noteq> 0 then Range_error Bad_address else checked_range bits net s0 e0)))"
    by (simp add: process_template_def case_prod_unfold Let_def g o split: sum.splits)
  have "if ?a = [] then s0 \<noteq> 0 \<and> s = s0 \<and> e = e0 \<and> s \<le> e
    else \<exists>bits net. fst (host_bits lb ds j ?a t) = Inr bits \<and> bits < 32 \<and>
      ip_to_number (j_tmp j) (j_ip j) (takeWhile (\<lambda>c. c \<noteq> CHR ''/'') ?a) = (0, net) \<and> checked_range bits net s0 e0 = Range s e"
  proof (cases "?a = []")
    case True
    then show ?thesis using assms p by (auto simp: not_less split: if_splits)
  next
    case False
    then obtain bits net where b: "fst (host_bits lb ds j ?a ?t) = Inr bits" "bits < 32" "checked_range bits net s0 e0 = Range s e"
      "ip_to_number (j_tmp j) (j_ip j) (takeWhile (\<lambda>c. c \<noteq> CHR ''/'') ?a) = (0, net)"
      using assms p by (auto split: sum.splits if_splits prod.splits)
    have "fst (host_bits lb ds j ?a t) = Inr bits" using b(1) by (simp add: host_bits_erased)
    then show ?thesis using b False by auto
  qed
  then show thesis using that o by blast
qed

lemma process_template_not_empty:
  assumes "fst (process_template lb ds j t) = Range s e"
  shows "s \<le> e \<and> s \<noteq> 0"
  by (rule process_template_Range [OF assms]) (auto dest: checked_range_in_network split: if_splits)

text \<open>C7. The range of a ranged network is never empty, and where the template has a NETWORK_ADDRESS the range lies in the network
  of this address, which is a multiple of its size: without IP_START it begins after the address of the network, without
  IP_END it ends before the broadcast address, so that it has all other addresses of the network.  Without a
  NETWORK_ADDRESS it is not checked against any network.\<close>

theorem range_in_network:
  assumes "fst (process_template lb ds j t) = Range s e"
  shows "s \<le> e \<and> s \<noteq> 0 \<and> (tmpl_get_string ''NETWORK_ADDRESS'' t \<noteq> [] \<longrightarrow> (\<exists>bits net.
    ip_to_number (j_tmp j) (j_ip j) (takeWhile (\<lambda>c. c \<noteq> CHR ''/'') (tmpl_get_string ''NETWORK_ADDRESS'' t)) = (0, net) \<and>
    fst (host_bits lb ds j (tmpl_get_string ''NETWORK_ADDRESS'' t) t) = Inr bits \<and> bits < 32 \<and> 2 ^ bits dvd unat net \<and>
    in_network bits net s \<and> in_network bits net e \<and>
    (tmpl_get_string ''IP_START'' t = [] \<longrightarrow> unat s = unat net + 1) \<and>
    (tmpl_get_string ''IP_END'' t = [] \<longrightarrow> unat e = unat net + 2 ^ bits - 2)))"
proof -
  obtain s0 e0 where r: "optional_ip j (tmpl_get_string ''IP_START'' t) = Some s0" "optional_ip j (tmpl_get_string ''IP_END'' t) = Some e0"
    "if tmpl_get_string ''NETWORK_ADDRESS'' t = [] then s0 \<noteq> 0 \<and> s = s0 \<and> e = e0 \<and> s \<le> e
      else \<exists>bits net. fst (host_bits lb ds j (tmpl_get_string ''NETWORK_ADDRESS'' t) t) = Inr bits \<and> bits < 32 \<and>
        ip_to_number (j_tmp j) (j_ip j) (takeWhile (\<lambda>c. c \<noteq> CHR ''/'') (tmpl_get_string ''NETWORK_ADDRESS'' t)) = (0, net) \<and>
        checked_range bits net s0 e0 = Range s e"
    by (rule process_template_Range [OF assms])
  have z: "tmpl_get_string ''IP_START'' t = [] \<Longrightarrow> s0 = 0" "tmpl_get_string ''IP_END'' t = [] \<Longrightarrow> e0 = 0" using r by auto
  show ?thesis
  proof (cases "tmpl_get_string ''NETWORK_ADDRESS'' t = []")
    case True
    then show ?thesis using r(3) by auto
  next
    case False
    then obtain bits net where b: "fst (host_bits lb ds j (tmpl_get_string ''NETWORK_ADDRESS'' t) t) = Inr bits" "bits < 32"
      "checked_range bits net s0 e0 = Range s e"
      "ip_to_number (j_tmp j) (j_ip j) (takeWhile (\<lambda>c. c \<noteq> CHR ''/'') (tmpl_get_string ''NETWORK_ADDRESS'' t)) = (0, net)" using r(3) by auto
    show ?thesis using checked_range_in_network [OF b(3,2)] b(1,2,4) z by blast
  qed
qed

subsection \<open>Loading a network\<close>

lemma fold_minsert: "map_ok (m @ rows) \<Longrightarrow> fold (\<lambda>(k, l). minsert k l) rows m = m @ rows"
proof (induction rows arbitrary: m)
  case (Cons r rows)
  obtain k l where r: "r = (k, l)" by force
  then have o: "map_ok ((m @ [(k, l)]) @ rows)" using Cons.prems by simp
  show ?case using Cons.IH [OF o] minsert_last [OF map_ok_append [OF o]] r by simp
qed simp

definition rows_ok :: "(32 word, lease) stdmap \<Rightarrow> bool" where
  "rows_ok rows \<longleftrightarrow> map_ok rows \<and> (\<forall>k l. mfind rows k = Some l \<longrightarrow> l_ip l = k)"

lemma fold_select_cb:
  "\<forall>(k, l) \<in> set rows. l_ip l = k \<Longrightarrow>
    fold (\<lambda>(_, l). select_cb l) rows ls = ls\<lparr>lmap := fold (\<lambda>(k, l). minsert k l) rows (lmap ls),
      n_used := n_used ls + int (mcount l_used rows)\<rparr>"
  by (induction rows arbitrary: ls) (auto simp: select_cb_def)

lemma leases_select_rows:
  assumes "rows_ok rows" "lmap ls = []" "l_rows ls = rows"
  shows "snd (leases_select 0 ls) = ls\<lparr>lmap := rows, n_used := int (mcount l_used rows)\<rparr>"
proof -
  have "\<forall>(k, l) \<in> set rows. l_ip l = k"
    using assms(1) map_of_is_SomeI [OF map_ok_distinct] by (fastforce simp: rows_ok_def)
  then have "fold (\<lambda>(_, l). select_cb l) rows (ls\<lparr>n_used := 0\<rparr>) = ls\<lparr>n_used := 0, lmap := fold (\<lambda>(k, l). minsert k l) rows [],
      n_used := 0 + int (mcount l_used rows)\<rparr>"
    using fold_select_cb [of rows "ls\<lparr>n_used := 0\<rparr>"] assms(2) by simp
  moreover have "fold (\<lambda>(k, l). minsert k l) rows [] = rows"
    using fold_minsert [of "[]" rows] assms(1) by (simp add: rows_ok_def)
  ultimately show ?thesis using assms(3) by (simp add: leases_select_def Let_def)
qed

lemma map_wf_rows: "map_wf ls \<Longrightarrow> rows_ok (lmap ls)"
  by (simp add: map_wf_def rows_ok_def)

lemma owner_rows: "lmap ls = lmap ls' \<Longrightarrow> owner ls = owner ls'"
  by (simp add: owner_def fun_eq_iff)

fun kind_of :: "net_leases \<Rightarrow> net_kind" where
  "kind_of (Ranged_l r) = Ranged_net (ip_start r) (ip_end r)"
| "kind_of (Fixed_l f) = Fixed_net"

fun rows_of :: "net_leases \<Rightarrow> (32 word, lease) stdmap" where
  "rows_of (Ranged_l r) = l_rows r"
| "rows_of (Fixed_l f) = l_rows f"

fun prefix_of :: "net_leases \<Rightarrow> 32 word" where
  "prefix_of (Ranged_l r) = mac_prefix r"
| "prefix_of (Fixed_l f) = mac_prefix f"

text \<open>C8. A network that was dropped from the cache and is loaded again from its rows is the network it was: every lease has
  the holder it had, and the invariants hold on which the operations on its leases rest.\<close>

theorem reload_keeps_leases:
  assumes "pool_ok p" "prefix_of p = net_prefix env"
  shows "pool_ok (select_leases env oid (kind_of p) (rows_of p)) \<and> pool_owner (select_leases env oid (kind_of p) (rows_of p)) = pool_owner p"
proof (cases p)
  case (Ranged_l r)
  have r: "ranged_ok r" "rows_ok (l_rows r)" "l_rows r = lmap r" "mac_prefix r = net_prefix env"
    using assms Ranged_l map_wf_rows [of r] by (auto simp: ranged_ok_def map_wf_def)
  let ?r = "snd (leases_select 0 (new_ranged oid (net_prefix env) (ip_start r) (ip_end r)\<lparr>l_rows := l_rows r\<rparr>))"
  have l: "?r = new_ranged oid (net_prefix env) (ip_start r) (ip_end r)\<lparr>l_rows := l_rows r, lmap := l_rows r,
      n_used := int (mcount l_used (l_rows r))\<rparr>"
    by (subst leases_select_rows [OF r(2)]) (simp_all add: new_ranged_def)
  have "0 < l_size r" using r(1) by (auto simp: ranged_ok_def intro: le_less_trans [of _ "current r"])
  then have "ranged_ok ?r" using r unfolding l by (auto simp: ranged_ok_def map_wf_def new_ranged_def)
  moreover have "owner ?r = owner r" by (rule owner_rows, unfold l) (simp add: new_ranged_def r(3))
  ultimately show ?thesis using Ranged_l by (simp add: select_leases_def)
next
  case (Fixed_l f)
  have f: "fixed_ok f" "rows_ok (l_rows f)" "l_rows f = lmap f"
    using assms Fixed_l map_wf_rows [of f] by (auto simp: fixed_ok_def map_wf_def)
  let ?init = "\<lparr>l_oid = oid, l_size = 0, n_used = 0, mac_prefix = net_prefix env, lmap = [], l_rows = l_rows f, f_current = It_end\<rparr>"
  let ?f = "(snd (leases_select 0 ?init))\<lparr>l_size := of_nat (length (lmap (snd (leases_select 0 ?init))))\<rparr>"
  let ?g = "\<lparr>l_oid = oid, l_size = of_nat (length (lmap f)), n_used = int (mcount l_used (lmap f)), mac_prefix = net_prefix env,
    lmap = lmap f, l_rows = lmap f, f_current = It_end\<rparr>"
  have e: "lmap ?init = []" "l_rows ?init = l_rows f" by simp_all
  have "snd (leases_select 0 ?init) = ?init\<lparr>lmap := l_rows f, n_used := int (mcount l_used (l_rows f))\<rparr>"
    by (rule leases_select_rows [OF f(2) e])
  then have l: "?f = ?g" by (simp add: f(3))
  have u: "unat (l_size f) = length (lmap f)" using f(1) by (simp add: fixed_ok_def)
  have "of_nat (length (lmap f)) = l_size f" unfolding u [symmetric] by simp
  then have "fixed_ok ?g" using f by (simp add: fixed_ok_def map_wf_def iter_ok_def)
  moreover have "owner ?g = owner f" by (rule owner_rows) simp
  ultimately have "fixed_ok ?f" "owner ?f = owner f" by (simp_all only: l)
  then show ?thesis using Fixed_l by (simp add: select_leases_def Let_def)
qed

subsection \<open>A new network\<close>

text \<open>Without rows for its identifier, the constructor of the fixed leases writes a row for each lease that it adds.\<close>

definition unused_leases :: "32 word \<Rightarrow> fixed \<Rightarrow> bool" where
  "unused_leases prefix f \<longleftrightarrow> map_wf f \<and> mac_prefix f = prefix \<and> (\<forall>k l. mfind (lmap f) k = Some l \<longrightarrow> \<not> l_used l)"

lemma fixed_add_unused:
  assumes "unused_leases prefix f"
  shows "unused_leases prefix (snd (fixed_add db j jmac ip mac vid False f)) \<and>
    length (lmap (snd (fixed_add db j jmac ip mac vid False f))) \<le> Suc (length (lmap f))"
proof -
  obtain k rc where k: "ip_to_number (j_tmp j) (j_ip j) ip = (rc, k)" by force
  obtain rc' m where m: "(if mac = [] then (0, \<lparr>PREFIX = mac_prefix f, SUFFIX = k\<rparr>) else mac_to_number (j_tmp j) jmac mac) = (rc', m)"
    by force
  let ?l = "\<lparr>l_ip = k, l_mac = m, l_vid = vid, l_used = False\<rparr>"
  let ?f = "f\<lparr>l_rows := minsert k ?l (l_rows f), lmap := minsert k ?l (lmap f), n_used := n_used f\<rparr>"
  have "snd (fixed_add db j jmac ip mac vid False f) = f \<or>
      snd (fixed_add db j jmac ip mac vid False f) = ?f \<and> mfind (lmap f) k = None"
    unfolding fixed_add_def Let_def k prod.case m by simp
  then show ?thesis
  proof (elim disjE conjE)
    assume a: "snd (fixed_add db j jmac ip mac vid False f) = f"
    show ?thesis unfolding a using assms by simp
  next
    assume a: "snd (fixed_add db j jmac ip mac vid False f) = ?f" "mfind (lmap f) k = None"
    have w: "map_ok (lmap f)" "l_rows f = lmap f" "n_used f = int (mcount l_used (lmap f))"
      using assms by (simp_all add: unused_leases_def map_wf_def)
    have "unused_leases prefix ?f" using assms w a(2) mcount_minsert_new [OF a(2), of l_used ?l]
      by (auto simp: unused_leases_def map_wf_def mfind_minsert split: if_splits)
    then show ?thesis unfolding a(1) using length_minsert_new [OF a(2), of ?l] by simp
  qed
qed

lemma new_fixed_unused:
  "unused_leases prefix (new_fixed db j jmac oid prefix vs) \<and> length (lmap (new_fixed db j jmac oid prefix vs)) \<le> length vs"
proof -
  let ?add = "\<lambda>a f. case a of None \<Rightarrow> f | Some attr \<Rightarrow>
      snd (fixed_add db j jmac (case attr ''IP'' of None \<Rightarrow> '''' | Some x \<Rightarrow> x)
        (case attr ''MAC'' of None \<Rightarrow> '''' | Some x \<Rightarrow> x) (-1) False f)"
  have step: "unused_leases prefix (?add a f) \<and> length (lmap (?add a f)) \<le> Suc (length (lmap f))" if "unused_leases prefix f" for a f
    using that fixed_add_unused [OF that] by (cases a) auto
  have "unused_leases prefix (fold ?add vs f) \<and> length (lmap (fold ?add vs f)) \<le> length vs + length (lmap f)"
    if "unused_leases prefix f" for f
    using that
  proof (induction vs arbitrary: f)
    case (Cons a vs)
    show ?case using Cons.IH [of "?add a f"] step [OF Cons.prems, of a] by simp
  qed simp
  note all = this
  have "unused_leases prefix \<lparr>l_oid = oid, l_size = 0, n_used = 0, mac_prefix = prefix, lmap = [], l_rows = [], f_current = It_end\<rparr>"
    by (simp add: unused_leases_def map_wf_def)
  note new = all [OF this]
  have "unused_leases prefix (f\<lparr>l_size := n\<rparr>) = unused_leases prefix f" for f n by (simp add: unused_leases_def map_wf_def)
  with new show ?thesis unfolding new_fixed_def Let_def by simp
qed

lemma size_of_range:
  assumes "s \<le> e" "s \<noteq> (0 :: 32 word)"
  shows "0 < e - s + 1"
proof -
  have "0 < unat s" "unat s \<le> unat e" using assms by (simp_all add: unat_gt_0 word_le_nat_alt)
  then have "unat (e - s) < unat e" by (simp only: unat_sub [OF assms(1)])
  also have "unat e \<le> unat (- 1 :: 32 word)" using word_order.extremum [of e] by (simp only: word_le_nat_alt)
  finally have "e - s \<noteq> - 1" by (metis less_irrefl)
  then have "e - s + 1 \<noteq> 0" by (metis add_diff_cancel_right' diff_0)
  then show ?thesis by (simp add: word_greater_zero_iff)
qed

text \<open>The holder of an address in the rows of a network, and rows that are the leases of a network.\<close>

definition row_owner :: "(32 word, lease) stdmap \<Rightarrow> 32 word \<Rightarrow> int option" where
  "row_owner rows k = (case mfind rows k of None \<Rightarrow> None | Some l \<Rightarrow> if l_used l then Some (l_vid l) else None)"

lemma row_owner_Nil [simp]: "row_owner [] = (\<lambda>_. None)"
  by (simp add: row_owner_def fun_eq_iff)

lemma owner_of_rows: "owner ls = row_owner (lmap ls)"
  by (simp add: owner_def row_owner_def fun_eq_iff)

lemma select_range:
  assumes "rows_ok rows"
  shows "pool_owner (select_leases env oid (Ranged_net s e) rows) = row_owner rows"
proof -
  have "lmap (snd (leases_select 0 (new_ranged oid (net_prefix env) s e\<lparr>l_rows := rows\<rparr>))) = rows"
    by (subst leases_select_rows [OF assms]) (simp_all add: new_ranged_def)
  then show ?thesis by (simp add: select_leases_def owner_of_rows)
qed

lemma select_new_range:
  assumes "s \<le> e" "s \<noteq> 0"
  shows "pool_ok (select_leases env oid (Ranged_net s e) [])"
  using assms size_of_range [OF assms]
  by (simp add: select_leases_def leases_select_def Let_def new_ranged_def ranged_ok_def map_wf_def map_ok_def owner_def fun_eq_iff)

lemma select_fixed:
  assumes "rows_ok rows"
  shows "(length rows < 2 ^ 32 \<longrightarrow> pool_ok (select_leases env oid Fixed_net rows)) \<and>
    pool_owner (select_leases env oid Fixed_net rows) = row_owner rows"
proof -
  let ?init = "\<lparr>l_oid = oid, l_size = 0, n_used = 0, mac_prefix = net_prefix env, lmap = [], l_rows = rows, f_current = It_end\<rparr>"
  let ?g = "\<lparr>l_oid = oid, l_size = of_nat (length rows), n_used = int (mcount l_used rows), mac_prefix = net_prefix env,
    lmap = rows, l_rows = rows, f_current = It_end\<rparr>"
  have e: "lmap ?init = []" "l_rows ?init = rows" by simp_all
  have "snd (leases_select 0 ?init) = ?init\<lparr>lmap := rows, n_used := int (mcount l_used rows)\<rparr>"
    by (rule leases_select_rows [OF assms e])
  then have l: "select_leases env oid Fixed_net rows = Fixed_l ?g" by (simp add: select_leases_def Let_def)
  have "fixed_ok ?g" if "length rows < 2 ^ 32"
    using assms that by (simp add: fixed_ok_def map_wf_def rows_ok_def iter_ok_def unat_of_nat)
  then show ?thesis by (simp add: l owner_of_rows)
qed

lemma vnet_insert_None:
  assumes "vnet_insert env uid oid t s = (None, s')"
  obtains kind row t' where "nr_name row = tmpl_get_string ''NAME'' t" "nr_kind row = kind"
    "mfind (networks s) oid = None" "attr_range ''LEASES'' (attributes t') = attr_range ''LEASES'' (attributes t)"
    "case kind of Ranged_net a b \<Rightarrow> a \<le> b \<and> a \<noteq> 0 | Fixed_net \<Rightarrow> True"
    "s' = insert_leases_of env oid kind t' s\<lparr>networks := minsert oid row (networks s)\<rparr>"
proof -
  let ?t1 = "snd (erase_attribute ''TYPE'' t)"
  let ?t = "snd (erase_attribute ''BRIDGE'' (snd (erase_attribute ''VLAN'' (snd (erase_attribute ''VLAN_ID''
    (snd (erase_attribute ''PHYDEV'' (snd (erase_attribute ''NAME'' ?t1)))))))))"
  let ?type = "to_upper (tmpl_get_string ''TYPE'' t)"
  have n: "tmpl_get_string ''NAME'' ?t1 = tmpl_get_string ''NAME'' t" by (simp add: get_string_erased)
  have l: "attr_range ''LEASES'' (attributes ?t) = attr_range ''LEASES'' (attributes t)" by (simp add: attr_range_erased)
  obtain kind where v: "vnet_kind env ?type ?t = Inr kind"
    using assms unfolding vnet_insert_def Let_def case_prod_unfold erase_attribute_simps n by (simp split: if_splits sum.splits)
  have "\<exists>row. fst (insert_replace env oid row (insert_leases_of env oid kind ?t s)) = 0 \<and>
      snd (insert_replace env oid row (insert_leases_of env oid kind ?t s)) = s' \<and>
      nr_name row = tmpl_get_string ''NAME'' t \<and> nr_kind row = kind"
    using assms unfolding vnet_insert_def Let_def case_prod_unfold erase_attribute_simps n v sum.case
    by (fastforce split: if_splits)
  then obtain row where k: "vnet_kind env ?type ?t = Inr kind" "nr_name row = tmpl_get_string ''NAME'' t" "nr_kind row = kind"
    "insert_replace env oid row (insert_leases_of env oid kind ?t s) = (0, s')"
    using v by (metis prod.collapse)
  have ns: "networks (insert_leases_of env oid kind ?t s) = networks s"
    by (simp add: insert_leases_of_def add_lease_rows_def split: net_kind.splits)
  have i: "mfind (networks s) oid = None" "s' = insert_leases_of env oid kind ?t s\<lparr>networks := minsert oid row (networks s)\<rparr>"
    using k(4) ns by (auto simp: insert_replace_def split: if_splits)
  have "case kind of Ranged_net a b \<Rightarrow> a \<le> b \<and> a \<noteq> 0 | Fixed_net \<Rightarrow> True"
    using k(1) by (auto simp: vnet_kind_def dest: process_template_not_empty split: if_splits range_outcome.splits net_kind.splits)
  then show thesis using that [OF k(2,3) i(1) l _ i(2)] by simp
qed

text \<open>A row of a lease has its network.\<close>

definition no_orphans :: "net_store \<Rightarrow> bool" where
  "no_orphans s \<longleftrightarrow> map_ok (networks s) \<and> (\<forall>oid. mfind (networks s) oid = None \<longrightarrow> lease_table s oid = [])"

definition tables_ok :: "net_store \<Rightarrow> bool" where
  "tables_ok s \<longleftrightarrow> map_ok (networks s) \<and> (\<forall>oid. rows_ok (lease_table s oid))"

lemma add_unused_rows:
  assumes "rows_ok m" "\<forall>(k, l) \<in> set xs. \<not> l_used l \<and> l_ip l = k"
  shows "rows_ok (fold (\<lambda>(k, l). minsert k l) xs m) \<and> row_owner (fold (\<lambda>(k, l). minsert k l) xs m) = row_owner m"
  using assms
proof (induction xs arbitrary: m)
  case (Cons x xs)
  obtain k l where x: "x = (k, l)" by force
  then have l: "\<not> l_used l" "l_ip l = k" using Cons.prems(2) by auto
  have m: "map_ok m" "\<forall>k l. mfind m k = Some l \<longrightarrow> l_ip l = k" using Cons.prems(1) by (simp_all add: rows_ok_def)
  have "rows_ok (minsert k l m)" using m l(2) by (auto simp: rows_ok_def mfind_minsert split: if_splits option.splits)
  moreover have "row_owner (minsert k l m) = row_owner m"
    using l(1) by (auto simp: row_owner_def mfind_minsert [OF m(1)] fun_eq_iff split: option.splits)
  ultimately show ?case using Cons.IH [of "minsert k l m"] Cons.prems(2) x by simp
qed simp

lemma insert_leases_owner:
  assumes "rows_ok (lease_table s x)"
  shows "rows_ok (lease_table (insert_leases_of env oid kind t s) x) \<and>
    row_owner (lease_table (insert_leases_of env oid kind t s) x) = row_owner (lease_table s x)"
proof (cases "kind = Fixed_net \<and> x = oid")
  case True
  let ?f = "new_fixed (lease_inserts (lease_table s oid)) (env_junk env) (mac_junk env) oid (net_prefix env)
    (map lease_attr (attr_range ''LEASES'' (attributes t)))"
  have f: "unused_leases (net_prefix env) ?f" by (simp add: new_fixed_unused)
  then have w: "l_rows ?f = lmap ?f" "map_ok (lmap ?f)" "\<forall>k l. mfind (lmap ?f) k = Some l \<longrightarrow> l_ip l = k"
    "\<forall>k l. mfind (lmap ?f) k = Some l \<longrightarrow> \<not> l_used l" by (simp_all add: unused_leases_def map_wf_def)
  have "\<forall>(k, l) \<in> set (l_rows ?f). \<not> l_used l \<and> l_ip l = k"
    unfolding w(1) using w(3,4) map_of_is_SomeI [OF map_ok_distinct [OF w(2)]] by blast
  from add_unused_rows [OF assms this] True show ?thesis by (simp add: insert_leases_of_def add_lease_rows_def)
next
  case False
  then show ?thesis using assms by (auto simp: insert_leases_of_def add_lease_rows_def split: net_kind.splits)
qed

lemma vnet_insert_rows:
  "\<exists>kind t'. lease_table (snd (vnet_insert env uid oid t s)) \<in> {lease_table s, lease_table (insert_leases_of env oid kind t' s)} \<and>
    networks (snd (vnet_insert env uid oid t s)) \<in> {networks s} \<union> {minsert oid row (networks s) | row. True}"
proof -
  have i: "lease_table (snd (insert_replace env oid row s')) = lease_table s' \<and>
      networks (snd (insert_replace env oid row s')) \<in> {networks s'} \<union> {minsert oid row (networks s')}" for row s'
    by (simp add: insert_replace_def)
  have n: "networks (insert_leases_of env oid kind t' s) = networks s" for kind t'
    by (simp add: insert_leases_of_def add_lease_rows_def split: net_kind.splits)
  show ?thesis
    using i [of _ "insert_leases_of env oid _ _ s"] unfolding vnet_insert_def Let_def case_prod_unfold
    by (auto simp: n split: sum.splits)
qed

lemma insert_leases_frame:
  "networks (insert_leases_of env oid kind t s) = networks s"
  "oid' \<noteq> oid \<Longrightarrow> lease_table (insert_leases_of env oid kind t s) oid' = lease_table s oid'"
  "lease_table (insert_leases_of env oid (Ranged_net a b) t s) = lease_table s"
  by (simp_all add: insert_leases_of_def add_lease_rows_def split: net_kind.split)

lemma vnet_allocate_rows:
  assumes "tables_ok s" "vnet_allocate env uid t s = Some (rc, s')"
  shows "tables_ok s' \<and> row_owner (lease_table s' x) = row_owner (lease_table s x)"
proof -
  have "tables_ok (snd (vnet_insert env uid oid t s)) \<and>
      row_owner (lease_table (snd (vnet_insert env uid oid t s)) x) = row_owner (lease_table s x)" for oid
    using vnet_insert_rows [of env uid oid t s] assms(1) insert_leases_owner unfolding tables_ok_def by auto
  moreover have "s' = s \<or> (\<exists>oid last. s' = snd (vnet_insert env uid oid t s)\<lparr>last_net := last\<rparr>)"
    using assms(2) unfolding vnet_allocate_def Let_def
    by (auto split: if_splits option.splits net_error.splits prod.splits) (metis snd_conv)+
  ultimately show ?thesis using assms(1) by (auto simp: tables_ok_def)
qed

text \<open>The invariants of the leases hold if the network is fixed, or if there was no row for its identifier.\<close>

definition loads_well :: "vnet \<Rightarrow> (32 word, lease) stdmap \<Rightarrow> (32 word, lease) stdmap \<Rightarrow> bool" where
  "loads_well n old rows \<longleftrightarrow> (case n_leases n of Fixed_l _ \<Rightarrow> length rows < 2 ^ 32 | Ranged_l _ \<Rightarrow> old = [])"

text \<open>C6. A request to create a network gives no address to anybody, whether it succeeds or fails: in the rows of the leases of
  every network the holders stay.  If it succeeds the network gets an identifier that no network has and the name of its
  template, no other network changes, and when the network is loaded the holders of its addresses are those of the rows that
  were there for its identifier before: nobody, unless a network with this identifier was dropped and its rows were not.  The
  invariants of its leases hold, except for a range when there are rows that an earlier network left
  (\<open>failed_creation_leaves_leases\<close>).\<close>

theorem created_network:
  assumes "tables_ok s" "vnet_allocate env uid t s = Some (oid, s')"
  shows "tables_ok s' \<and> (\<forall>x. row_owner (lease_table s' x) = row_owner (lease_table s x)) \<and>
    (oid \<noteq> -1 \<longrightarrow> mfind (networks s) oid = None \<and>
      (\<forall>oid'. oid' \<noteq> oid \<longrightarrow> select_network env oid' s' = select_network env oid' s) \<and>
      (\<exists>n. select_network env oid s' = Some n \<and> n_oid n = oid \<and> n_name n = tmpl_get_string ''NAME'' t \<and>
        pool_owner (n_leases n) = row_owner (lease_table s oid) \<and>
        (loads_well n (lease_table s oid) (lease_table s' oid) \<longrightarrow> pool_ok (n_leases n))))"
proof (intro conjI impI allI)
  assume ok: "oid \<noteq> -1"
  note rows = vnet_allocate_rows [OF assms]
  obtain s1 where i: "vnet_insert env uid oid t s = (None, s1)" "s' = s1\<lparr>last_net := oid\<rparr>"
    using assms(2) ok unfolding vnet_allocate_def Let_def
    by (auto split: if_splits option.splits net_error.splits prod.splits)
  obtain kind row t' where k: "nr_name row = tmpl_get_string ''NAME'' t" "nr_kind row = kind" "mfind (networks s) oid = None"
    "attr_range ''LEASES'' (attributes t') = attr_range ''LEASES'' (attributes t)"
    "case kind of Ranged_net a b \<Rightarrow> a \<le> b \<and> a \<noteq> 0 | Fixed_net \<Rightarrow> True"
    "s1 = insert_leases_of env oid kind t' s\<lparr>networks := minsert oid row (networks s)\<rparr>"
    by (rule vnet_insert_None [OF i(1)])
  have o: "map_ok (networks s)" using assms(1) by (simp add: tables_ok_def)
  have find: "mfind (networks s') x = (if x = oid then Some row else mfind (networks s) x)" for x
    using mfind_minsert [OF o] k(3) by (simp add: i(2) k(6))
  have tab: "lease_table s' = lease_table (insert_leases_of env oid kind t' s)" by (simp add: i(2) k(6))
  have lt: "lease_table s' x = lease_table s x" if "x \<noteq> oid" for x using that by (simp add: tab insert_leases_frame(2))
  show "mfind (networks s) oid = None" by (rule k(3))
  show "select_network env x s' = select_network env x s" if "x \<noteq> oid" for x
    using that by (simp add: select_network_def find lt)
  have r: "rows_ok (lease_table s' oid)" using rows [of oid] by (simp add: tables_ok_def)
  let ?p = "select_leases env oid kind (lease_table s' oid)"
  have "pool_owner ?p = row_owner (lease_table s' oid) \<and>
      ((case ?p of Fixed_l _ \<Rightarrow> length (lease_table s' oid) < 2 ^ 32 | Ranged_l _ \<Rightarrow> lease_table s oid = []) \<longrightarrow> pool_ok ?p)"
  proof (cases kind)
    case (Ranged_net a b)
    have "\<exists>l. ?p = Ranged_l l" by (simp add: Ranged_net select_leases_def)
    then show ?thesis using select_range [OF r] select_new_range [of a b env oid] k(5) Ranged_net
      by (auto simp: tab insert_leases_frame(3))
  next
    case Fixed_net
    have "\<exists>l. ?p = Fixed_l l" by (simp add: Fixed_net select_leases_def Let_def)
    then show ?thesis using select_fixed [OF r, of env oid] Fixed_net by (elim exE) simp
  qed
  then show "\<exists>n. select_network env oid s' = Some n \<and> n_oid n = oid \<and> n_name n = tmpl_get_string ''NAME'' t \<and>
      pool_owner (n_leases n) = row_owner (lease_table s oid) \<and>
      (loads_well n (lease_table s oid) (lease_table s' oid) \<longrightarrow> pool_ok (n_leases n))"
    using find [of oid] rows [of oid] k(1,2) by (simp add: select_network_def loads_well_def)
qed (use vnet_allocate_rows [OF assms] in simp_all)

text \<open>The rows of a network that is dropped stay if the second statement fails.  The rows of a fixed network that could not be
  created stay too, and the next network gets their identifier.\<close>

lemma drop_keeps_rows:
  assumes "vnet_drop 0 rc oid s = (rc', s')"
  shows "lease_table s' oid = (if rc' = 0 then [] else lease_table s oid)"
  using assms by (auto simp: vnet_drop_def Let_def split: if_splits)

definition plain_env :: "bool \<Rightarrow> net_env" where
  "plain_env ok = \<lparr>log_bits = (\<lambda>_. 8), default_size = 254, net_prefix = 0x0200, env_junk = \<lparr>j_tmp = 0, j_ip = 0\<rparr>,
     mac_junk = \<lparr>PREFIX = 0, SUFFIX = 0\<rparr>, body_ok = ok\<rparr>"

definition net_tmpl :: "(string \<times> attr) list \<Rightarrow> tmpl" where
  "net_tmpl xs = \<lparr>attributes = xs, replace_mode = False, separator = CHR ''='', xml_root = ''TEMPLATE''\<rparr>"

definition fixed_tmpl :: "string \<Rightarrow> string \<Rightarrow> tmpl" where
  "fixed_tmpl name ip = net_tmpl [(''BRIDGE'', Single ''br''), (''LEASES'', Vector [(''IP'', ip)]), (''NAME'', Single name),
     (''TYPE'', Single ''fixed'')]"

definition no_nets :: net_store where
  "no_nets = \<lparr>networks = [], lease_table = (\<lambda>_. []), last_net = -1\<rparr>"

definition lease_addresses :: "vnet \<Rightarrow> (32 word) list" where
  "lease_addresses n = map fst (case n_leases n of Ranged_l r \<Rightarrow> lmap r | Fixed_l f \<Rightarrow> lmap f)"

text \<open>Addresses and attributes of the examples.\<close>

lemma number_of_text:
  "ip_to_number tmp i ''10.1.0.0'' = (0, 0x0A010000)" "ip_to_number tmp i ''10.0.0.1'' = (0, 0x0A000001)"
  "ip_to_number tmp i ''10.0.0.2'' = (0, 0x0A000002)" "ip_to_number tmp i ''255.0.255.0'' = (0, 0xFF00FF00)"
proof -
  have "ip_to_string 0x0A010000 = ''10.1.0.0''" "ip_to_string 0x0A000001 = ''10.0.0.1''" "ip_to_string 0x0A000002 = ''10.0.0.2''"
    "ip_to_string 0xFF00FF00 = ''255.0.255.0''"
    by (simp_all add: ip_to_string_def byte_of_def num_string.simps digit_char_def) code_simp+
  then show "ip_to_number tmp i ''10.1.0.0'' = (0, 0x0A010000)" "ip_to_number tmp i ''10.0.0.1'' = (0, 0x0A000001)"
    "ip_to_number tmp i ''10.0.0.2'' = (0, 0x0A000002)" "ip_to_number tmp i ''255.0.255.0'' = (0, 0xFF00FF00)"
    by (metis ip_round_trip)+
qed

lemmas template_simps = net_tmpl_def erase_attribute_def tmpl_get_string_def tmpl_get_def attr_range_def tmpl_erase_def attr_erase_def

lemma range_of_prefix:
  "fst (process_template lb ds j (net_tmpl [(''NETWORK_ADDRESS'', Single ''10.1.0.0/24'')])) = Range 0x0A010001 0x0A0100FE"
proof -
  have "fst (extract_uint 10 tmp (istr ''24'')) = 24" for tmp
    by (simp add: extract_uint_def istr_def is_digit_def digit_val_def is_space_def good_def Let_def)
  moreover have "checked_range 8 0x0A010000 0 0 = Range 0x0A010001 0x0A0100FE"
    by (simp add: checked_range_def net_mask_of_def Let_def)
  ultimately show ?thesis by (simp add: process_template_def template_simps host_bits_def Let_def number_of_text)
qed

theorem range_in_network_witness:
  "fst (process_template (\<lambda>_. 8) 254 \<lparr>j_tmp = 0, j_ip = 0\<rparr> (net_tmpl [(''NETWORK_ADDRESS'', Single ''10.1.0.0/24'')])) =
     Range 0x0A010001 0x0A0100FE \<and> (0x0A010001 :: 32 word) \<le> 0x0A0100FE"
  using range_of_prefix range_in_network [OF range_of_prefix] by blast

text \<open>A mask need not be one, and the whole address space is a shift by the width.\<close>

lemma mask_with_holes:
  "fst (process_template lb ds j (net_tmpl [(''NETWORK_ADDRESS'', Single ''10.1.0.0''), (''NETWORK_MASK'', Single ''255.0.255.0'')])) =
     Range 0x0A010001 0x0A0100FE"
proof -
  have "trailing_zeros 0xFF00FF00 = 8" by code_simp
  moreover have "checked_range 8 0x0A010000 0 0 = Range 0x0A010001 0x0A0100FE"
    by (simp add: checked_range_def net_mask_of_def Let_def)
  ultimately show ?thesis by (simp add: process_template_def template_simps host_bits_def Let_def number_of_text)
qed

lemma prefix_zero_shifts:
  "fst (process_template lb ds j (net_tmpl [(''NETWORK_ADDRESS'', Single ''10.1.0.0/0'')])) = Undefined_shift"
proof -
  have "fst (extract_uint 10 tmp (istr ''0'')) = 0" for tmp
    by (simp add: extract_uint_def istr_def is_digit_def digit_val_def is_space_def good_def Let_def)
  then show ?thesis by (simp add: process_template_def template_simps host_bits_def Let_def)
qed

lemma create_fixed:
  assumes "ip_to_number 0 0 ip = (0, k)" "name \<in> {''a'', ''b''}" "s = no_nets\<lparr>lease_table := (\<lambda>_. [])(0 := rows)\<rparr>" "mfind rows k = None"
  defines "l \<equiv> \<lparr>l_ip = k, l_mac = \<lparr>PREFIX = 0x0200, SUFFIX = k\<rparr>, l_vid = -1, l_used = False\<rparr>"
  defines "row \<equiv> \<lparr>nr_name = name, nr_uid = 0, nr_bridge = ''br'', nr_vlan = False, nr_phydev = [], nr_vlan_id = [], nr_kind = Fixed_net\<rparr>"
  shows "vnet_allocate (plain_env ok) 0 (fixed_tmpl name ip) s = Some (if ok
    then (0, s\<lparr>lease_table := (\<lambda>_. [])(0 := minsert k l rows), networks := [(0, row)], last_net := 0\<rparr>)
    else (-1, s\<lparr>lease_table := (\<lambda>_. [])(0 := minsert k l rows)\<rparr>))"
proof -
  let ?t = "net_tmpl [(''LEASES'', Vector [(''IP'', ip)])]"
  have u: "to_upper ''fixed'' = ''FIXED''" "to_upper [] = []" by code_simp+
  have f: "l_rows (new_fixed (lease_inserts rows) \<lparr>j_tmp = 0, j_ip = 0\<rparr> m 0 0x0200 [Some [''IP'' \<mapsto> ip]]) = [(k, l)]" for m
    using assms(1,4) by (simp add: new_fixed_def fixed_add_def Let_def lease_inserts_def l_def)
  have "insert_leases_of (plain_env b) 0 Fixed_net ?t s = s\<lparr>lease_table := (\<lambda>_. [])(0 := minsert k l rows)\<rparr>" for b
    using f by (simp add: insert_leases_of_def plain_env_def template_simps lease_attr_def add_lease_rows_def assms(3) no_nets_def)
  note i = this [unfolded net_tmpl_def]
  have "body_ok (plain_env ok) = ok" by (simp add: plain_env_def)
  then show ?thesis using assms(2) u
    by (auto simp: vnet_allocate_def net_taken_def unique_net_def assms(3) no_nets_def fixed_tmpl_def template_simps
      vnet_insert_def vnet_kind_def Let_def i [unfolded assms(3) no_nets_def, simplified] insert_replace_def row_def)
qed

theorem created_network_witness:
  "\<exists>s n. vnet_allocate (plain_env True) 0 (fixed_tmpl ''a'' ''10.0.0.1'') no_nets = Some (0, s) \<and>
     select_network (plain_env True) 0 s = Some n \<and> n_name n = ''a'' \<and> pool_owner (n_leases n) = (\<lambda>_. None)"
proof -
  let ?t = "fixed_tmpl ''a'' ''10.0.0.1''"
  have t: "tmpl_get_string ''NAME'' ?t = ''a''" by (simp add: fixed_tmpl_def template_simps)
  have "no_nets = no_nets\<lparr>lease_table := (\<lambda>_. [])(0 := [])\<rparr>" by (simp add: no_nets_def fun_eq_iff)
  from create_fixed [OF number_of_text(2) _ this, of "''a''" True]
  obtain s where s: "vnet_allocate (plain_env True) 0 ?t no_nets = Some (0, s)" by auto
  have "tables_ok no_nets" by (simp add: tables_ok_def no_nets_def rows_ok_def)
  from created_network [OF this s] obtain n where n: "select_network (plain_env True) 0 s = Some n" "n_name n = ''a''"
    "pool_owner (n_leases n) = (\<lambda>_. None)" by (auto simp: t no_nets_def)
  then show ?thesis using s by blast
qed

text \<open>The lease of a network that could not be written is in the next network.\<close>

lemma failed_creation_leaves_leases:
  "\<exists>s s' n. vnet_allocate (plain_env False) 0 (fixed_tmpl ''a'' ''10.0.0.1'') no_nets = Some (-1, s) \<and>
     vnet_allocate (plain_env True) 0 (fixed_tmpl ''b'' ''10.0.0.2'') s = Some (0, s') \<and>
     select_network (plain_env True) 0 s' = Some n \<and> lease_addresses n = [0x0A000001, 0x0A000002]"
proof -
  let ?l = "\<lambda>k. \<lparr>l_ip = k, l_mac = \<lparr>PREFIX = 0x0200, SUFFIX = k\<rparr>, l_vid = -1, l_used = False\<rparr>"
  let ?row = "\<lparr>nr_name = ''b'', nr_uid = 0, nr_bridge = ''br'', nr_vlan = False, nr_phydev = [], nr_vlan_id = [], nr_kind = Fixed_net\<rparr>"
  let ?s = "no_nets\<lparr>lease_table := (\<lambda>_. [])(0 := [(0x0A000001, ?l 0x0A000001)])\<rparr>"
  let ?rows = "[(0x0A000001, ?l 0x0A000001), (0x0A000002, ?l 0x0A000002)]"
  let ?s' = "?s\<lparr>lease_table := (\<lambda>_. [])(0 := ?rows), networks := [(0, ?row)], last_net := 0\<rparr>"
  have "no_nets = no_nets\<lparr>lease_table := (\<lambda>_. [])(0 := [])\<rparr>" by (simp add: no_nets_def fun_eq_iff)
  from create_fixed [OF number_of_text(2) _ this, of "''a''" False]
  have a: "vnet_allocate (plain_env False) 0 (fixed_tmpl ''a'' ''10.0.0.1'') no_nets = Some (-1, ?s)" by simp
  from create_fixed [OF number_of_text(3) _ refl, of "''b''" "[(0x0A000001, ?l 0x0A000001)]" True]
  have b: "vnet_allocate (plain_env True) 0 (fixed_tmpl ''b'' ''10.0.0.2'') ?s = Some (0, ?s')" by simp
  have "lease_addresses (the (select_network (plain_env True) 0 ?s')) = [0x0A000001, 0x0A000002]"
    by (simp add: select_network_def lease_addresses_def select_leases_def leases_select_def select_cb_def Let_def plain_env_def)
  moreover have "select_network (plain_env True) 0 ?s' \<noteq> None" by (simp add: select_network_def)
  ultimately show ?thesis using a b by auto
qed

theorem reload_keeps_leases_witness:
  "pool_ok (select_leases (plain_env True) 0 (Ranged_net 1 5) []) \<and>
   pool_owner (select_leases (plain_env True) 0 (Ranged_net 1 5) []) = (\<lambda>_. None)"
proof -
  let ?r = "new_ranged 0 0x0200 1 5"
  have "pool_ok (Ranged_l ?r)" "prefix_of (Ranged_l ?r) = net_prefix (plain_env True)"
    by (simp_all add: new_ranged_def ranged_ok_def map_wf_def map_ok_def plain_env_def)
  note r = reload_keeps_leases [OF this, of 0]
  moreover have "select_leases (plain_env True) 0 (kind_of (Ranged_l ?r)) (rows_of (Ranged_l ?r)) =
      select_leases (plain_env True) 0 (Ranged_net 1 5) []" "pool_owner (Ranged_l ?r) = (\<lambda>_. None)"
    by (simp_all add: new_ranged_def owner_def fun_eq_iff)
  ultimately show ?thesis by simp
qed

subsection \<open>Leases that are taken out\<close>

text \<open>C9. Taking a lease out of a fixed network removes exactly this address, which nobody holds, and keeps the invariants of
  the leases, except for the address at which the search for the next free one stands: then the next search uses an
  iterator of a lease that was deleted, unless no lease is left.\<close>

theorem remove_lease_under_iterator:
  assumes "fixed_ok f" "attr ''IP'' = Some ip" "denotes ip k" "fixed_remove_leases db_fine j (Some attr # vs) f = (0, f')"
  shows "owner f' = owner f \<and> owner f k = None \<and> mfind (lmap f') = (mfind (lmap f))(k := None) \<and>
    (fixed_ok f' \<longleftrightarrow> f_current f \<noteq> It_at k) \<and> (fixed_get db_fine vid f' = Segv \<longleftrightarrow> f_current f = It_at k \<and> lmap f' \<noteq> [])"
proof -
  have k: "ip_to_number (j_tmp j) (j_ip j) ip = (0, k)" using assms(3) by (simp add: denotes_def)
  obtain l where l: "mfind (lmap f) k = Some l" "\<not> l_used l"
    "f' = f\<lparr>l_rows := merase k (l_rows f), lmap := merase k (lmap f), f_current := iter_erase k (f_current f),
      l_size := of_nat (length (merase k (lmap f)))\<rparr>"
    using assms(2,4) by (auto simp: fixed_remove_leases_def fixed_remove_def k db_fine_def split: option.splits if_splits)
  have f: "map_ok (lmap f)" "\<forall>k l. mfind (lmap f) k = Some l \<longrightarrow> l_ip l = k" "l_rows f = lmap f" "n_used f = int (mcount l_used (lmap f))"
    "unat (l_size f) = length (lmap f)" "iter_ok (lmap f) (f_current f)"
    using assms(1) by (simp_all add: fixed_ok_def map_wf_def)
  have len: "Suc (length (merase k (lmap f))) = length (lmap f)" using length_merase [OF f(1), of k] l(1) by simp
  have size: "unat (l_size f') = length (lmap f')"
    using len f(5) unsigned_less [of "l_size f", where 'a = nat] by (simp add: l(3) unat_of_nat)
  have w: "map_wf f'" using f(1-4) mcount_merase [OF f(1) l(1), of l_used] l(2) by (simp add: map_wf_def l(3) mfind_merase)
  have it: "iter_ok (lmap f') (f_current f') \<longleftrightarrow> f_current f \<noteq> It_at k"
    using f(6) by (auto simp: l(3) iter_ok_def iter_erase_def mfind_merase split: iter.splits)
  have ok: "fixed_ok f' \<longleftrightarrow> f_current f \<noteq> It_at k" using w size it by (simp add: fixed_ok_def)
  have "fixed_get db_fine vid f' = Segv \<longleftrightarrow> f_current f = It_at k \<and> lmap f' \<noteq> []"
  proof (cases "f_current f = It_at k \<and> lmap f' \<noteq> []")
    case True
    then obtain n where "unat (l_size f') = Suc n" using size by (cases "lmap f'") auto
    then show ?thesis using True by (simp add: fixed_get_def l(3) iter_erase_def)
  next
    case False
    have "fixed_get db_fine vid f' \<noteq> Segv" if "fixed_ok f'" using fixed.get_total [OF that, of vid] by auto
    moreover have "fixed_get db_fine vid f' \<noteq> Segv" if "lmap f' = []" using that by (simp add: fixed_get_def)
    ultimately show ?thesis using False ok by blast
  qed
  moreover have "owner f' = owner f" "owner f k = None"
    using l(1,2) by (auto simp: owner_def l(3) mfind_merase fun_eq_iff)
  moreover have "mfind (lmap f') = (mfind (lmap f))(k := None)" by (rule ext) (simp add: l(3) mfind_merase)
  ultimately show ?thesis using ok by blast
qed

text \<open>Two addresses: the first is handed out, the second taken out, and the next request faults.\<close>

definition two_leases :: "32 word iter \<Rightarrow> fixed" where
  "two_leases it = (let l = (\<lambda>k u. \<lparr>l_ip = k, l_mac = \<lparr>PREFIX = 0x0200, SUFFIX = k\<rparr>, l_vid = -1, l_used = u\<rparr>);
     m = [(0x0A000001, l 0x0A000001 True), (0x0A000002, l 0x0A000002 False)]
   in \<lparr>l_oid = 0, l_size = 2, n_used = 1, mac_prefix = 0x0200, lmap = m, l_rows = m, f_current = it\<rparr>)"

theorem remove_lease_under_iterator_witness:
  "fixed_get db_fine 7 (snd (fixed_remove_leases db_fine \<lparr>j_tmp = 0, j_ip = 0\<rparr> [Some [''IP'' \<mapsto> ''10.0.0.2'']] (two_leases (It_at 0x0A000002)))) = Segv"
proof -
  let ?f = "two_leases (It_at 0x0A000002)" and ?j = "\<lparr>j_tmp = 0, j_ip = 0\<rparr>"
  let ?f' = "snd (fixed_remove_leases db_fine ?j [Some [''IP'' \<mapsto> ''10.0.0.2'']] ?f)"
  have ok: "fixed_ok ?f"
    by (simp add: two_leases_def Let_def fixed_ok_def map_wf_def map_ok_def iter_ok_def mcount_def)
  have d: "denotes ''10.0.0.2'' 0x0A000002" by (simp add: denotes_def number_of_text)
  have r: "fixed_remove_leases db_fine ?j [Some [''IP'' \<mapsto> ''10.0.0.2'']] ?f = (0, ?f')" "lmap ?f' \<noteq> []"
    by (simp_all add: fixed_remove_leases_def fixed_remove_def number_of_text two_leases_def Let_def db_fine_def merase_def)
  have "f_current ?f = It_at 0x0A000002" by (simp add: two_leases_def Let_def)
  then show ?thesis using remove_lease_under_iterator [OF ok _ d r(1), of 7] r(2) by simp
qed

end
