(* ===== verification/Acl.thy ===== *)
theory Acl
  imports IoStream "HOL-Library.Word" "HOL-Library.Multiset"
begin

text \<open>
  Access control: the rules (src/acl/AclRule.cc), the permissions of an object (src/pool/PoolObjectAuth.cc)
  and the manager that matches requests against both (src/acl/AclManager.cc).

  The three numbers of a rule are \<open>long long\<close>s: \<open>64 word\<close>s.  An \<open>int\<close> that is or-ed into one is
  sign-extended: \<open>of_int\<close>; \<open>user_id\<close> and \<open>resource_id\<close> truncate to a signed 32-bit \<open>int\<close>.
  The \<open>multimap\<close> from the user number to the rules is the list of its elements in iteration order.
\<close>

unbundle bit_operations_syntax

type_synonym ll = "64 word"

definition INDIVIDUAL_ID :: ll where "INDIVIDUAL_ID = 0x100000000"
definition GROUP_ID :: ll where "GROUP_ID = 0x200000000"
definition ALL_ID :: ll where "ALL_ID = 0x400000000"
definition NONE_ID :: ll where "NONE_ID = 0x1000000000000000"

datatype ObjectType = T_VM | T_HOST | T_NET | T_IMAGE | T_USER | T_TEMPLATE | T_GROUP | T_ACL

fun type_code :: "ObjectType \<Rightarrow> ll" where
  "type_code T_VM = 0x1000000000"
| "type_code T_HOST = 0x2000000000"
| "type_code T_NET = 0x4000000000"
| "type_code T_IMAGE = 0x8000000000"
| "type_code T_USER = 0x10000000000"
| "type_code T_TEMPLATE = 0x20000000000"
| "type_code T_GROUP = 0x40000000000"
| "type_code T_ACL = 0x80000000000"

fun type_to_str :: "ObjectType \<Rightarrow> string" where
  "type_to_str T_VM = ''VM''"
| "type_to_str T_HOST = ''HOST''"
| "type_to_str T_NET = ''NET''"
| "type_to_str T_IMAGE = ''IMAGE''"
| "type_to_str T_USER = ''USER''"
| "type_to_str T_TEMPLATE = ''TEMPLATE''"
| "type_to_str T_GROUP = ''GROUP''"
| "type_to_str T_ACL = ''ACL''"

datatype Operation = USE | MANAGE | ADMIN | CREATE

fun op_code :: "Operation \<Rightarrow> ll" where
  "op_code USE = 1"
| "op_code MANAGE = 2"
| "op_code ADMIN = 4"
| "op_code CREATE = 8"

fun operation_to_str :: "Operation \<Rightarrow> string" where
  "operation_to_str USE = ''USE''"
| "operation_to_str MANAGE = ''MANAGE''"
| "operation_to_str ADMIN = ''ADMIN''"
| "operation_to_str CREATE = ''CREATE''"

subsection \<open>Rules\<close>

record acl_rule =
  acl_oid :: int
  user :: ll
  resource :: ll
  rights :: ll

text \<open>\<open>operator ==\<close> compares the three numbers, not the identifiers.\<close>

definition same_rule :: "acl_rule \<Rightarrow> acl_rule \<Rightarrow> bool" where
  "same_rule a b \<longleftrightarrow> user a = user b \<and> resource a = resource b \<and> rights a = rights b"

definition low_id :: "ll \<Rightarrow> int" where
  "low_id x = sint (ucast x :: 32 word)"

definition user_id :: "acl_rule \<Rightarrow> int" where
  "user_id r = low_id (user r)"

definition resource_id :: "acl_rule \<Rightarrow> int" where
  "resource_id r = low_id (resource r)"

definition user_code :: "acl_rule \<Rightarrow> ll" where
  "user_code r = user r AND 0xFFFFFFFF00000000"

definition resource_code :: "acl_rule \<Rightarrow> ll" where
  "resource_code r = resource r AND 0xFFFFFFFF00000000"

text \<open>The messages of \<open>malformed\<close>, in the order in which they are collected; the rule is malformed when there is
  one.  The last comparison is signed.\<close>

definition report :: "bool \<Rightarrow> string \<Rightarrow> string list" where
  "report b msg = (if b then [msg] else [])"

definition flag_errors :: "string \<Rightarrow> ll \<Rightarrow> string list" where
  "flag_errors what x =
     report (x AND INDIVIDUAL_ID \<noteq> 0 \<and> x AND GROUP_ID \<noteq> 0) (what @ '' INDIVIDUAL (#) and GROUP (@) bits are exclusive'') @
     report (x AND INDIVIDUAL_ID \<noteq> 0 \<and> x AND ALL_ID \<noteq> 0) (what @ '' INDIVIDUAL (#) and ALL (*) bits are exclusive'') @
     report (x AND GROUP_ID \<noteq> 0 \<and> x AND ALL_ID \<noteq> 0) (what @ '' GROUP (@) and ALL (*) bits are exclusive'') @
     report (x AND 0x700000000 = 0) (what @ '' is missing one of the INDIVIDUAL, GROUP or ALL bits'') @
     report (low_id x < 0) (what @ '' ID cannot be negative'') @
     report (x AND ALL_ID \<noteq> 0 \<and> low_id x \<noteq> 0) (''when using the ALL bit, '' @ what @ '' ID must be 0'')"

definition malformed_errors :: "acl_rule \<Rightarrow> string list" where
  "malformed_errors r = flag_errors ''[user]'' (user r) @ flag_errors ''[resource]'' (resource r) @
     report (resource r AND 0xFF000000000 = 0) ''[resource] type is missing'' @
     report (resource r AND 0xFFFFF00000000000 \<noteq> 0) ''wrong [resource] type'' @
     report (rights r = 0) ''wrong [rights], it cannot be 0'' @
     report (sint (rights r) > 0xF) ''wrong [rights], it cannot be bigger than 0xF''"

definition malformed :: "acl_rule \<Rightarrow> bool" where
  "malformed r \<longleftrightarrow> malformed_errors r \<noteq> []"

fun join :: "string \<Rightarrow> string list \<Rightarrow> string" where
  "join sep [] = []"
| "join sep [x] = x"
| "join sep (x # xs) = x @ sep @ join sep xs"

definition id_str :: "ll \<Rightarrow> string" where
  "id_str x = (if x AND GROUP_ID \<noteq> 0 then ''@'' @ int_string (low_id x)
     else if x AND INDIVIDUAL_ID \<noteq> 0 then ''#'' @ int_string (low_id x)
     else if x AND ALL_ID \<noteq> 0 then ''*'' else ''??'')"

definition build_str :: "acl_rule \<Rightarrow> string" where
  "build_str r = id_str (user r) @ '' '' @
     join ''+'' (map type_to_str (filter (\<lambda>t. resource r AND type_code t \<noteq> 0)
       [T_VM, T_HOST, T_NET, T_IMAGE, T_USER, T_TEMPLATE, T_GROUP])) @ ''/'' @ id_str (resource r) @ '' '' @
     join ''+'' (map operation_to_str (filter (\<lambda>a. rights r AND op_code a \<noteq> 0) [USE, MANAGE, ADMIN, CREATE]))"

subsection \<open>Permissions of an object\<close>

record permissions =
  obj_type :: ObjectType
  p_oid :: int
  p_uid :: int
  p_gid :: int
  owner_u :: int
  owner_m :: int
  owner_a :: int
  group_u :: int
  group_m :: int
  group_a :: int
  other_u :: int
  other_m :: int
  other_a :: int

definition perm_rights :: "int \<Rightarrow> int \<Rightarrow> int \<Rightarrow> ll" where
  "perm_rights u m a = (if u = 1 then op_code USE else 0) OR (if m = 1 then op_code MANAGE else 0) OR
     (if a = 1 then op_code ADMIN else 0)"

definition perm_rule :: "permissions \<Rightarrow> ll \<Rightarrow> ll \<Rightarrow> acl_rule" where
  "perm_rule p u r = \<lparr>acl_oid = 0, user = u, resource = type_code (obj_type p) OR INDIVIDUAL_ID OR of_int (p_oid p), rights = r\<rparr>"

definition get_acl_rules :: "permissions \<Rightarrow> acl_rule \<times> acl_rule \<times> acl_rule" where
  "get_acl_rules p =
     (perm_rule p (INDIVIDUAL_ID OR of_int (p_uid p)) (perm_rights (owner_u p) (owner_m p) (owner_a p)),
      perm_rule p (GROUP_ID OR of_int (p_gid p)) (perm_rights (group_u p) (group_m p) (group_a p)),
      perm_rule p ALL_ID (perm_rights (other_u p) (other_m p) (other_a p)))"

subsection \<open>The manager\<close>

text \<open>\<open>multimap::insert\<close> puts an element after those of the same or a smaller key; keys compare as signed
  numbers.\<close>

type_synonym rules = "(ll \<times> acl_rule) list"

definition mm_insert :: "ll \<Rightarrow> acl_rule \<Rightarrow> rules \<Rightarrow> rules" where
  "mm_insert k r xs = takeWhile (\<lambda>x. sint (fst x) \<le> sint k) xs @ (k, r) # dropWhile (\<lambda>x. sint (fst x) \<le> sint k) xs"

definition equal_range :: "ll \<Rightarrow> rules \<Rightarrow> acl_rule list" where
  "equal_range k xs = map snd (filter (\<lambda>x. fst x = k) xs)"

record aclm =
  lastOID :: int
  acl_rules :: rules
  acl_rules_oids :: "int \<rightharpoonup> acl_rule"
  acl_table :: "int \<rightharpoonup> acl_rule"
  acl_last_oid :: "int option"

subsubsection \<open>Authorization\<close>

text \<open>The numbers built from a request.\<close>

record acl_request =
  oid_req :: ll
  gid_req :: ll
  all_req :: ll
  rights_req :: ll
  oid_mask :: ll
  gid_mask :: ll

definition acl_request_of :: "permissions \<Rightarrow> Operation \<Rightarrow> acl_request" where
  "acl_request_of p op = (let t = type_code (obj_type p) in
     \<lparr>oid_req = (if p_oid p \<ge> 0 then t OR INDIVIDUAL_ID OR of_int (p_oid p) else NONE_ID),
      gid_req = (if p_gid p \<ge> 0 then t OR GROUP_ID OR of_int (p_gid p) else NONE_ID),
      all_req = t OR ALL_ID, rights_req = op_code op,
      oid_mask = t OR INDIVIDUAL_ID OR 0xFFFFFFFF, gid_mask = t OR GROUP_ID OR 0xFFFFFFFF\<rparr>)"

definition rule_matches :: "acl_request \<Rightarrow> acl_rule \<Rightarrow> bool" where
  "rule_matches q r \<longleftrightarrow> rights r AND rights_req q = rights_req q \<and>
     (resource r AND all_req q = all_req q \<or> resource r AND gid_mask q = gid_req q \<or>
      resource r AND oid_mask q = oid_req q)"

fun match_loop :: "acl_request \<Rightarrow> acl_rule list \<Rightarrow> bool" where
  "match_loop q [] = False"
| "match_loop q (r # rs) = (if rule_matches q r then True else match_loop q rs)"

definition match_rules :: "ll \<Rightarrow> acl_request \<Rightarrow> rules \<Rightarrow> bool" where
  "match_rules user_req q rs = match_loop q (equal_range user_req rs)"

definition match_rules_wrapper :: "ll \<Rightarrow> acl_request \<Rightarrow> rules \<Rightarrow> aclm \<Rightarrow> bool" where
  "match_rules_wrapper user_req q tmp_rules m =
     (if match_rules user_req q tmp_rules then True else match_rules user_req q (acl_rules m))"

definition authorize :: "int \<Rightarrow> int \<Rightarrow> permissions \<Rightarrow> Operation \<Rightarrow> aclm \<Rightarrow> bool" where
  "authorize uid gid p op m = (
     let q = acl_request_of p op; (owner_rule, group_rule, other_rule) = get_acl_rules p;
         tmp_rules = mm_insert (user other_rule) other_rule (mm_insert (user group_rule) group_rule
           (mm_insert (user owner_rule) owner_rule []))
     in if match_rules_wrapper ALL_ID q tmp_rules m then True
        else if match_rules_wrapper (INDIVIDUAL_ID OR of_int uid) q tmp_rules m then True
        else match_rules_wrapper (GROUP_ID OR of_int gid) q tmp_rules m)"

text \<open>\<open>AuthRequest::add_auth\<close>: the administrators are not asked for a rule.\<close>

definition add_auth :: "int \<Rightarrow> int \<Rightarrow> permissions \<Rightarrow> Operation \<Rightarrow> aclm \<Rightarrow> bool" where
  "add_auth uid gid p op m = (if uid = 0 \<or> gid = 0 then True else authorize uid gid p op m)"

subsubsection \<open>Adding and deleting rules\<close>

text \<open>\<open>ok\<close> and \<open>ok'\<close> are the outcomes of the two database statements.  The row of a rule is refused when its
  identifier, the primary key, is in use.\<close>

definition add_rule :: "ll \<Rightarrow> ll \<Rightarrow> ll \<Rightarrow> bool \<Rightarrow> bool \<Rightarrow> aclm \<Rightarrow> int \<times> string \<times> aclm" where
  "add_rule u res ri ok ok' m = (
     let m = m\<lparr>lastOID := (if lastOID m = 2147483647 then -1 else lastOID m) + 1\<rparr>;
         rule = \<lparr>acl_oid = lastOID m, user = u, resource = res, rights = ri\<rparr>;
         back = m\<lparr>lastOID := lastOID m - 1\<rparr>
     in if \<exists>r \<in> set (equal_range u (acl_rules m)). same_rule r rule
          then (-1, ''Rule '' @ build_str rule @ '' already exists'', back)
        else if malformed rule
          then (-2, ''Rule '' @ build_str rule @ '' is malformed: '' @ join ''; '' (malformed_errors rule), back)
        else if \<not> ok \<or> acl_table m (acl_oid rule) \<noteq> None then (-3, ''Error inserting rule in DB'', back)
        else (lastOID m, [], m\<lparr>acl_rules := mm_insert u rule (acl_rules m),
          acl_rules_oids := (if acl_rules_oids m (acl_oid rule) = None then (acl_rules_oids m)(acl_oid rule \<mapsto> rule)
            else acl_rules_oids m),
          acl_table := (acl_table m)(acl_oid rule \<mapsto> rule),
          acl_last_oid := (if ok' then Some (lastOID m) else acl_last_oid m)\<rparr>))"

fun erase_first :: "('a \<Rightarrow> bool) \<Rightarrow> 'a list \<Rightarrow> 'a list" where
  "erase_first P [] = []"
| "erase_first P (x # xs) = (if P x then xs else x # erase_first P xs)"

definition del_rule :: "int \<Rightarrow> bool \<Rightarrow> aclm \<Rightarrow> int \<times> string \<times> aclm" where
  "del_rule oid ok m = (case acl_rules_oids m oid of
     None \<Rightarrow> (-1, ''Rule '' @ int_string oid @ '' does not exist'', m)
   | Some rule \<Rightarrow>
       if \<not> (\<exists>r \<in> set (equal_range (user rule) (acl_rules m)). same_rule rule r) then (-1, [], m)
       else if \<not> ok then (-1, ''SQL DB error'', m)
       else (0, [], m\<lparr>acl_rules := erase_first (\<lambda>x. fst x = user rule \<and> same_rule rule (snd x)) (acl_rules m),
         acl_rules_oids := (acl_rules_oids m)(oid := None), acl_table := (acl_table m)(oid := None)\<rparr>))"

text \<open>The constructor: with no row in \<open>pool_control\<close>, the two default rules.\<close>

definition new_aclm :: "int option \<Rightarrow> (int \<rightharpoonup> acl_rule) \<Rightarrow> aclm" where
  "new_aclm lastrow rows = (
     let m = \<lparr>lastOID = (case lastrow of None \<Rightarrow> -1 | Some n \<Rightarrow> n), acl_rules = [], acl_rules_oids = Map.empty,
       acl_table = rows, acl_last_oid = lastrow\<rparr>
     in if lastOID m \<noteq> -1 then m
        else let (_, _, m) = add_rule (GROUP_ID OR 1)
               (ALL_ID OR type_code T_VM OR type_code T_NET OR type_code T_IMAGE OR type_code T_TEMPLATE) (op_code CREATE) True True m;
               (_, _, m) = add_rule (GROUP_ID OR 1) (ALL_ID OR type_code T_HOST) (op_code MANAGE) True True m
             in m)"

text \<open>\<open>start\<close>: \<open>acl_select_cb\<close> for each row of the table.\<close>

definition acl_select_cb :: "acl_rule \<Rightarrow> aclm \<Rightarrow> aclm" where
  "acl_select_cb rule m = m\<lparr>acl_rules := mm_insert (user rule) rule (acl_rules m),
     acl_rules_oids := (if acl_rules_oids m (acl_oid rule) = None then (acl_rules_oids m)(acl_oid rule \<mapsto> rule)
       else acl_rules_oids m)\<rparr>"

definition acl_start :: "acl_rule list \<Rightarrow> aclm \<Rightarrow> aclm" where
  "acl_start rows = fold acl_select_cb rows"

subsubsection \<open>Reverse search\<close>

record found =
  f_all :: bool
  f_oids :: "int list"
  f_gids :: "int list"

fun search_loop :: "ll \<Rightarrow> ll \<Rightarrow> acl_rule list \<Rightarrow> found \<Rightarrow> found" where
  "search_loop t ri [] f = f"
| "search_loop t ri (r # rs) f =
     (if rights r AND ri = ri then
        if resource r AND (t OR ALL_ID) = t OR ALL_ID then f\<lparr>f_all := True\<rparr>
        else if resource r AND (t OR GROUP_ID) = t OR GROUP_ID
          then search_loop t ri rs (f\<lparr>f_gids := f_gids f @ [resource_id r]\<rparr>)
        else if resource r AND (t OR INDIVIDUAL_ID) = t OR INDIVIDUAL_ID
          then search_loop t ri rs (f\<lparr>f_oids := f_oids f @ [resource_id r]\<rparr>)
        else search_loop t ri rs f
      else search_loop t ri rs f)"

definition search_user :: "ll \<Rightarrow> ll \<Rightarrow> ll \<Rightarrow> aclm \<Rightarrow> found \<Rightarrow> found" where
  "search_user t ri user_req m f = (let f = search_loop t ri (equal_range user_req (acl_rules m)) f
     in if f_all f then f\<lparr>f_oids := [], f_gids := []\<rparr> else f)"

definition reverse_search :: "int \<Rightarrow> int \<Rightarrow> ObjectType \<Rightarrow> Operation \<Rightarrow> aclm \<Rightarrow> found" where
  "reverse_search uid gid ty op m =
     fold (\<lambda>u. search_user (type_code ty) (op_code op) u m) [ALL_ID, INDIVIDUAL_ID OR of_int uid, GROUP_ID OR of_int gid]
       \<lparr>f_all = False, f_oids = [], f_gids = []\<rparr>"


subsection \<open>Reading the numbers\<close>

fun type_bit :: "ObjectType \<Rightarrow> nat" where
  "type_bit T_VM = 36" | "type_bit T_HOST = 37" | "type_bit T_NET = 38" | "type_bit T_IMAGE = 39"
| "type_bit T_USER = 40" | "type_bit T_TEMPLATE = 41" | "type_bit T_GROUP = 42" | "type_bit T_ACL = 43"

lemma code_bits:
  "type_code t = 2 ^ type_bit t" "INDIVIDUAL_ID = 2 ^ 32" "GROUP_ID = 2 ^ 33" "ALL_ID = 2 ^ 34" "NONE_ID = 2 ^ 60"
  "(0xFFFFFFFF :: ll) = mask 32"
  by (cases t; simp) (simp_all add: INDIVIDUAL_ID_def GROUP_ID_def ALL_ID_def NONE_ID_def mask_eq_exp_minus_1)

lemma type_bit_range: "36 \<le> type_bit t" "type_bit t \<le> 43"
  by (cases t; simp)+

text \<open>A number with two flags and an identifier in its lower half, under the mask of these fields.\<close>

lemma mask_match:
  fixes r g :: ll
  assumes "32 \<le> k" "k < 64" "32 \<le> j" "j < 64" "take_bit 32 g = g"
  shows "r AND (2 ^ k OR 2 ^ j OR mask 32) = 2 ^ k OR 2 ^ j OR g \<longleftrightarrow> bit r k \<and> bit r j \<and> take_bit 32 r = g"
proof
  have g: "\<not> bit g n" if "32 \<le> n" for n
  proof -
    have "bit g n = bit (take_bit 32 g) n" using assms(5) by simp
    then show ?thesis using that by (simp add: bit_take_bit_iff)
  qed
  assume eq: "r AND (2 ^ k OR 2 ^ j OR mask 32) = 2 ^ k OR 2 ^ j OR g"
  have b: "bit r n \<and> (n = k \<or> n = j \<or> n < 32) \<longleftrightarrow> n = k \<or> n = j \<or> bit g n" if "n < 64" for n
    using arg_cong [OF eq, of "\<lambda>x. bit x n"] that by (auto simp: bit_simps)
  have "take_bit 32 r = g"
  proof (rule bit_word_eqI)
    fix n assume "n < LENGTH(64)"
    then show "bit (take_bit 32 r) n = bit g n" using b [of n] g [of n] assms(1,3) by (auto simp: bit_take_bit_iff)
  qed
  then show "bit r k \<and> bit r j \<and> take_bit 32 r = g" using b [of k] b [of j] assms(2,4) by simp
next
  assume a: "bit r k \<and> bit r j \<and> take_bit 32 r = g"
  show "r AND (2 ^ k OR 2 ^ j OR mask 32) = 2 ^ k OR 2 ^ j OR g"
  proof (rule bit_word_eqI)
    fix n assume "n < LENGTH(64)"
    then show "bit (r AND (2 ^ k OR 2 ^ j OR mask 32)) n = bit (2 ^ k OR 2 ^ j OR g) n"
      using a by (auto simp: bit_simps)
  qed
qed

lemma flags_match:
  fixes r :: ll
  assumes "k < 64" "j < 64"
  shows "r AND (2 ^ k OR 2 ^ j) = 2 ^ k OR 2 ^ j \<longleftrightarrow> bit r k \<and> bit r j"
proof
  assume eq: "r AND (2 ^ k OR 2 ^ j) = 2 ^ k OR 2 ^ j"
  have "bit r n \<and> (n = k \<or> n = j) \<longleftrightarrow> n = k \<or> n = j" if "n < 64" for n
    using arg_cong [OF eq, of "\<lambda>x. bit x n"] that by (auto simp: bit_simps)
  then show "bit r k \<and> bit r j" using assms by blast
next
  assume "bit r k \<and> bit r j"
  then show "r AND (2 ^ k OR 2 ^ j) = 2 ^ k OR 2 ^ j" by (intro bit_word_eqI) (auto simp: bit_simps)
qed

text \<open>Identifiers.\<close>

lemma uint_id: "0 \<le> i \<Longrightarrow> i < 2 ^ 31 \<Longrightarrow> uint (of_int i :: ll) = i"
  by (simp add: unsigned_of_int take_bit_int_eq_self)

lemma low_id_of_int:
  assumes "0 \<le> i" "i < 2 ^ 31"
  shows "take_bit 32 (of_int i :: ll) = of_int i"
  using assms uint_id [OF assms]
  by (intro word_eq_iff_unsigned [where 'a = int, THEN iffD2]) (simp add: unsigned_take_bit_eq take_bit_int_eq_self)

lemma sint_nonneg:
  fixes y :: "32 word"
  assumes "0 \<le> sint y"
  shows "sint y = uint y"
proof -
  have s: "sint y = signed_take_bit 31 (uint y)" by (simp add: sint_uint)
  then have b: "\<not> bit (uint y) 31" using assms by (simp add: signed_take_bit_nonnegative_iff)
  have "uint y = take_bit (Suc 31) (uint y)" using uint_lt2p [of y] by (simp add: take_bit_int_eq_self)
  also have "\<dots> = take_bit 31 (uint y)" using b by (simp only: take_bit_Suc_from_most) simp
  finally show ?thesis using s b by (simp add: signed_take_bit_eq_if_positive)
qed

lemma low_id_eq:
  assumes "0 \<le> low_id x" "0 \<le> i" "i < 2 ^ 31"
  shows "take_bit 32 x = of_int i \<longleftrightarrow> low_id x = i"
proof -
  have "low_id x = uint (ucast x :: 32 word)" using assms(1) by (simp add: low_id_def sint_nonneg)
  also have "\<dots> = uint (take_bit 32 x)" by (simp add: unsigned_ucast_eq unsigned_take_bit_eq)
  finally show ?thesis using uint_id [OF assms(2,3)] by (metis word_eq_iff_unsigned)
qed


lemma fields_eq:
  fixes x f g :: ll
  assumes "f AND NOT (mask 32) = f" "take_bit 32 g = g"
  shows "x = f OR g \<longleftrightarrow> x AND NOT (mask 32) = f \<and> take_bit 32 x = g"
proof
  have "(f AND NOT (mask 32)) AND mask 32 = 0" "(g AND mask 32) AND NOT (mask 32) = 0" by (simp_all add: and.assoc)
  then have low: "f AND mask 32 = 0" and high: "g AND NOT (mask 32) = 0"
    using assms by (simp_all only: take_bit_eq_mask)
  assume "x = f OR g"
  then show "x AND NOT (mask 32) = f \<and> take_bit 32 x = g"
    using assms low high by (simp add: take_bit_eq_mask bit.conj_disj_distrib2)
next
  assume "x AND NOT (mask 32) = f \<and> take_bit 32 x = g"
  then have "f OR g = (x AND NOT (mask 32)) OR (x AND mask 32)" by (simp add: take_bit_eq_mask)
  also have "\<dots> = x" by (simp flip: bit.conj_disj_distrib)
  finally show "x = f OR g" by simp
qed

subsection \<open>What a rule says\<close>

datatype subject = Everyone | The_user int | The_group int

datatype scope = Anything | The_object int | In_group int

definition subject_of :: "ll \<Rightarrow> subject option" where
  "subject_of x = (let f = x AND NOT (mask 32) in
     if x = ALL_ID then Some Everyone
     else if f = INDIVIDUAL_ID then Some (The_user (low_id x))
     else if f = GROUP_ID then Some (The_group (low_id x)) else None)"

fun covers :: "subject \<Rightarrow> int \<Rightarrow> int \<Rightarrow> bool" where
  "covers Everyone uid gid = True"
| "covers (The_user u) uid gid = (u = uid)"
| "covers (The_group g) uid gid = (g = gid)"

definition scope_of :: "ll \<Rightarrow> scope" where
  "scope_of x = (if x AND ALL_ID \<noteq> 0 then Anything else if x AND GROUP_ID \<noteq> 0 then In_group (low_id x)
     else The_object (low_id x))"

fun reaches :: "scope \<Rightarrow> int \<Rightarrow> int \<Rightarrow> bool" where
  "reaches Anything oid gid = True"
| "reaches (The_object i) oid gid = (i = oid)"
| "reaches (In_group g) oid gid = (g = gid)"

definition permits :: "acl_rule \<Rightarrow> ObjectType \<Rightarrow> int \<Rightarrow> int \<Rightarrow> Operation \<Rightarrow> bool" where
  "permits r t oid gid op \<longleftrightarrow> rights r AND op_code op \<noteq> 0 \<and> resource r AND type_code t \<noteq> 0 \<and>
     reaches (scope_of (resource r)) oid gid"

fun granted :: "int \<Rightarrow> int \<Rightarrow> int \<Rightarrow> Operation \<Rightarrow> bool" where
  "granted u m a USE = (u = 1)"
| "granted u m a MANAGE = (m = 1)"
| "granted u m a ADMIN = (a = 1)"
| "granted u m a CREATE = False"

lemma perm_rights_granted: "perm_rights u m a AND op_code op = op_code op \<longleftrightarrow> granted u m a op"
  by (cases op) (simp_all add: perm_rights_def)

lemma op_code_bit: "r AND op_code op = op_code op \<longleftrightarrow> r AND op_code op \<noteq> 0"
proof -
  obtain n where n: "op_code op = 2 ^ n" "n < 64"
  proof (cases op)
    case USE then show ?thesis using that [of 0] by simp
  next
    case MANAGE then show ?thesis using that [of 1] by simp
  next
    case ADMIN then show ?thesis using that [of 2] by simp
  next
    case CREATE then show ?thesis using that [of 3] by simp
  qed
  then show ?thesis using flags_match [of n n r] by (simp add: and_exp_eq_0_iff_not_bit)
qed

lemma flag_bits:
  "x AND INDIVIDUAL_ID \<noteq> 0 \<longleftrightarrow> bit x 32" "x AND GROUP_ID \<noteq> 0 \<longleftrightarrow> bit x 33" "x AND ALL_ID \<noteq> 0 \<longleftrightarrow> bit x 34"
  "x AND type_code t \<noteq> 0 \<longleftrightarrow> bit x (type_bit t)"
  by (simp_all only: code_bits and_exp_eq_0_iff_not_bit not_not)

lemma flag_errors_Nil:
  assumes "flag_errors what x = []"
  shows "bit x 32 \<and> \<not> bit x 33 \<and> \<not> bit x 34 \<or> \<not> bit x 32 \<and> bit x 33 \<and> \<not> bit x 34 \<or> \<not> bit x 32 \<and> \<not> bit x 33 \<and> bit x 34"
    "0 \<le> low_id x" "bit x 34 \<longrightarrow> low_id x = 0"
proof -
  have "(0x700000000 :: ll) = 2 ^ 32 OR 2 ^ 33 OR 2 ^ 34" by simp
  then have "x AND 0x700000000 = 0 \<longleftrightarrow> \<not> bit x 32 \<and> \<not> bit x 33 \<and> \<not> bit x 34"
    by (simp only: bit.conj_disj_distrib or_eq_0_iff and_exp_eq_0_iff_not_bit)
  then show "bit x 32 \<and> \<not> bit x 33 \<and> \<not> bit x 34 \<or> \<not> bit x 32 \<and> bit x 33 \<and> \<not> bit x 34 \<or> \<not> bit x 32 \<and> \<not> bit x 33 \<and> bit x 34"
    "0 \<le> low_id x" "bit x 34 \<longrightarrow> low_id x = 0"
    using assms by (auto simp: flag_errors_def report_def flag_bits split: if_splits)
qed

lemma malformedD:
  assumes "\<not> malformed r"
  shows "flag_errors ''[user]'' (user r) = []" "flag_errors ''[resource]'' (resource r) = []"
  using assms by (simp_all add: malformed_def malformed_errors_def)

text \<open>The masks of a request select what the rule says.\<close>

lemma rule_matches_permits:
  assumes "\<not> malformed r" "p_oid p < 2 ^ 31" "p_gid p < 2 ^ 31"
  shows "rule_matches (acl_request_of p op) r \<longleftrightarrow> permits r (obj_type p) (p_oid p) (p_gid p) op"
proof -
  let ?x = "resource r" and ?k = "type_bit (obj_type p)"
  note f = flag_errors_Nil [OF malformedD(2) [OF assms(1)]]
  have k: "32 \<le> ?k" "?k < 64" using type_bit_range [of "obj_type p"] by simp_all
  have none: "?x AND (2 ^ ?k OR 2 ^ j OR mask 32) \<noteq> 2 ^ 60" if "j < 60" for j
  proof
    assume "?x AND (2 ^ ?k OR 2 ^ j OR mask 32) = 2 ^ 60"
    then have "bit (?x AND (2 ^ ?k OR 2 ^ j OR mask 32)) 60 = bit (2 ^ 60 :: ll) 60" by simp
    then show False using that type_bit_range [of "obj_type p"] by (simp add: bit_simps)
  qed
  have all: "?x AND all_req (acl_request_of p op) = all_req (acl_request_of p op) \<longleftrightarrow> bit ?x ?k \<and> bit ?x 34"
    using flags_match [OF k(2), of 34 ?x] by (simp add: acl_request_of_def Let_def code_bits)
  have grp: "?x AND gid_mask (acl_request_of p op) = gid_req (acl_request_of p op) \<longleftrightarrow>
      bit ?x ?k \<and> bit ?x 33 \<and> low_id ?x = p_gid p"
  proof (cases "0 \<le> p_gid p")
    case True
    show ?thesis using mask_match [OF k, of 33 "of_int (p_gid p)" ?x] low_id_of_int [OF True assms(3)]
        low_id_eq [OF f(2) True assms(3)] True by (simp add: acl_request_of_def Let_def code_bits)
  next
    case False
    then show ?thesis using none [of 33] f(2) by (simp add: acl_request_of_def Let_def code_bits)
  qed
  have ind: "?x AND oid_mask (acl_request_of p op) = oid_req (acl_request_of p op) \<longleftrightarrow>
      bit ?x ?k \<and> bit ?x 32 \<and> low_id ?x = p_oid p"
  proof (cases "0 \<le> p_oid p")
    case True
    show ?thesis using mask_match [OF k, of 32 "of_int (p_oid p)" ?x] low_id_of_int [OF True assms(2)]
        low_id_eq [OF f(2) True assms(2)] True by (simp add: acl_request_of_def Let_def code_bits)
  next
    case False
    then show ?thesis using none [of 32] f(2) by (simp add: acl_request_of_def Let_def code_bits)
  qed
  have "rights r AND rights_req (acl_request_of p op) = rights_req (acl_request_of p op) \<longleftrightarrow> rights r AND op_code op \<noteq> 0"
    using op_code_bit by (simp add: acl_request_of_def Let_def)
  then show ?thesis unfolding rule_matches_def permits_def scope_of_def all grp ind flag_bits
    using f(1) by auto
qed


lemma subject_eq:
  assumes "0 \<le> i" "i < 2 ^ 31" "flag_errors what x = []"
  shows "x = INDIVIDUAL_ID OR of_int i \<longleftrightarrow> subject_of x = Some (The_user i)"
    "x = GROUP_ID OR of_int i \<longleftrightarrow> subject_of x = Some (The_group i)"
    "x = ALL_ID \<longleftrightarrow> subject_of x = Some Everyone"
proof -
  note f = flag_errors_Nil [OF assms(3)]
  have h: "INDIVIDUAL_ID AND NOT (mask 32) = INDIVIDUAL_ID" "GROUP_ID AND NOT (mask 32) = GROUP_ID"
    "ALL_ID AND NOT (mask 32) \<noteq> INDIVIDUAL_ID" "ALL_ID AND NOT (mask 32) \<noteq> GROUP_ID" "GROUP_ID \<noteq> INDIVIDUAL_ID"
    by (simp_all add: INDIVIDUAL_ID_def GROUP_ID_def ALL_ID_def mask_eq_exp_minus_1)
  note eqs = fields_eq [OF h(1) low_id_of_int [OF assms(1,2)], of x] fields_eq [OF h(2) low_id_of_int [OF assms(1,2)], of x]
    low_id_eq [OF f(2) assms(1,2)]
  show "x = INDIVIDUAL_ID OR of_int i \<longleftrightarrow> subject_of x = Some (The_user i)"
    "x = GROUP_ID OR of_int i \<longleftrightarrow> subject_of x = Some (The_group i)"
    "x = ALL_ID \<longleftrightarrow> subject_of x = Some Everyone"
    using eqs h by (auto simp: subject_of_def Let_def)
qed

subsection \<open>The rules of a manager\<close>

definition rule_set :: "aclm \<Rightarrow> acl_rule set" where
  "rule_set m = snd ` set (acl_rules m)"

definition acl_ok :: "aclm \<Rightarrow> bool" where
  "acl_ok m \<longleftrightarrow> (\<forall>x \<in> set (acl_rules m). fst x = user (snd x) \<and> \<not> malformed (snd x)) \<and>
     (\<forall>oid r. acl_rules_oids m oid = Some r \<longleftrightarrow> r \<in> rule_set m \<and> acl_oid r = oid) \<and>
     distinct (map snd (acl_rules m)) \<and>
     (\<forall>a \<in> rule_set m. \<forall>b \<in> rule_set m. same_rule a b \<longrightarrow> a = b) \<and>
     acl_table m = acl_rules_oids m \<and> -1 \<le> lastOID m"

lemma match_loop_ex: "match_loop q rs \<longleftrightarrow> (\<exists>r \<in> set rs. rule_matches q r)"
  by (induction rs) auto

lemma equal_range_set: "set (equal_range k xs) = {r. (k, r) \<in> set xs}"
  by (force simp: equal_range_def)

lemma match_rules_ex: "match_rules u q rs \<longleftrightarrow> (\<exists>r. (u, r) \<in> set rs \<and> rule_matches q r)"
  by (auto simp: match_rules_def match_loop_ex equal_range_set)

lemma set_mm_insert [simp]: "set (mm_insert k r xs) = insert (k, r) (set xs)"
  unfolding mm_insert_def by (metis Un_insert_right list.simps(15) set_append takeWhile_dropWhile_id)

lemma acl_okD:
  assumes "acl_ok m"
  shows "x \<in> set (acl_rules m) \<Longrightarrow> fst x = user (snd x)" "r \<in> rule_set m \<Longrightarrow> \<not> malformed r"
    "acl_rules_oids m oid = Some r \<longleftrightarrow> r \<in> rule_set m \<and> acl_oid r = oid" "distinct (map snd (acl_rules m))"
    "a \<in> rule_set m \<Longrightarrow> b \<in> rule_set m \<Longrightarrow> same_rule a b \<Longrightarrow> a = b" "acl_table m = acl_rules_oids m"
    "-1 \<le> lastOID m"
  using assms by (auto simp: acl_ok_def rule_set_def)

lemma in_equal_range:
  assumes "acl_ok m"
  shows "r \<in> set (equal_range u (acl_rules m)) \<longleftrightarrow> r \<in> rule_set m \<and> user r = u"
  using acl_okD(1) [OF assms] by (force simp: equal_range_set rule_set_def)

lemma acl_matches:
  assumes "acl_ok m" "p_oid p < 2 ^ 31" "p_gid p < 2 ^ 31"
  shows "match_rules u (acl_request_of p op) (acl_rules m) \<longleftrightarrow>
    (\<exists>r \<in> rule_set m. user r = u \<and> permits r (obj_type p) (p_oid p) (p_gid p) op)"
proof -
  have ok: "\<not> malformed r \<and> user r = k" if "(k, r) \<in> set (acl_rules m)" for k r
    using assms(1) that unfolding acl_ok_def by fastforce
  have in_set: "r \<in> rule_set m \<longleftrightarrow> (user r, r) \<in> set (acl_rules m)" for r
    using ok by (force simp: rule_set_def)
  show ?thesis unfolding match_rules_ex
  proof
    assume "\<exists>r. (u, r) \<in> set (acl_rules m) \<and> rule_matches (acl_request_of p op) r"
    then obtain r where r: "(u, r) \<in> set (acl_rules m)" "rule_matches (acl_request_of p op) r" by blast
    then show "\<exists>r \<in> rule_set m. user r = u \<and> permits r (obj_type p) (p_oid p) (p_gid p) op"
      using ok [OF r(1)] in_set [of r] rule_matches_permits [OF _ assms(2,3), of r op] by blast
  next
    assume "\<exists>r \<in> rule_set m. user r = u \<and> permits r (obj_type p) (p_oid p) (p_gid p) op"
    then obtain r where r: "(u, r) \<in> set (acl_rules m)" "permits r (obj_type p) (p_oid p) (p_gid p) op"
      using in_set by blast
    then show "\<exists>r. (u, r) \<in> set (acl_rules m) \<and> rule_matches (acl_request_of p op) r"
      using ok [OF r(1)] rule_matches_permits [OF _ assms(2,3), of r op] by blast
  qed
qed

text \<open>The rules made from the permissions of the object match exactly when their rights do, also for a request
  about no object, whose identifier \<open>-1\<close> sets every bit of the resource.\<close>

lemma high_flag: "32 \<le> k \<Longrightarrow> take_bit 32 (2 ^ k :: ll) = 0"
  by (rule bit_word_eqI) (auto simp: bit_simps)

lemma perm_rule_matches:
  assumes "-1 \<le> p_oid p" "p_oid p < 2 ^ 31"
  shows "rule_matches (acl_request_of p op) (perm_rule p u r) \<longleftrightarrow> r AND op_code op = op_code op"
proof (cases "p_oid p = -1")
  case True
  then have "resource (perm_rule p u r) = NOT 0" by (simp add: perm_rule_def)
  then show ?thesis by (simp add: rule_matches_def acl_request_of_def Let_def perm_rule_def)
next
  case False
  then have i: "0 \<le> p_oid p" using assms(1) by simp
  have k: "32 \<le> type_bit (obj_type p)" "type_bit (obj_type p) < 64" using type_bit_range [of "obj_type p"] by simp_all
  let ?x = "type_code (obj_type p) OR INDIVIDUAL_ID OR of_int (p_oid p) :: ll"
  have "take_bit 32 ?x = of_int (p_oid p)"
    using low_id_of_int [OF i assms(2)] high_flag [OF k(1)] high_flag [of 32] by (simp add: code_bits take_bit_or)
  moreover have "bit ?x (type_bit (obj_type p))" "bit ?x 32" using k by (simp_all add: code_bits bit_simps)
  ultimately have "?x AND (type_code (obj_type p) OR INDIVIDUAL_ID OR 0xFFFFFFFF) = ?x"
    using mask_match [OF k, of 32 "of_int (p_oid p)" ?x] low_id_of_int [OF i assms(2)] by (simp add: code_bits)
  then show ?thesis using i by (simp add: rule_matches_def acl_request_of_def Let_def perm_rule_def)
qed

lemma id_bits:
  assumes "0 \<le> i" "i < 2 ^ 31" "32 \<le> n"
  shows "\<not> bit (of_int i :: ll) n"
  using low_id_of_int [OF assms(1,2)] assms(3) by (metis bit_take_bit_iff not_less)

lemma flags_differ:
  assumes "0 \<le> i" "i < 2 ^ 31" "-1 \<le> j" "j < 2 ^ 31" "32 \<le> a" "a < 60" "32 \<le> b" "b < 60" "a \<noteq> b"
  shows "2 ^ a OR of_int i \<noteq> (2 ^ b OR of_int j :: ll)"
proof
  assume eq: "2 ^ a OR of_int i = (2 ^ b OR of_int j :: ll)"
  show False
  proof (cases "j = -1")
    case True
    then show False using arg_cong [OF eq, of "\<lambda>x. bit x 60"] id_bits [OF assms(1,2), of 60] assms(6) by (simp add: bit_simps)
  next
    case False
    then show False using arg_cong [OF eq, of "\<lambda>x. bit x a"] id_bits [of j a] assms by (simp add: bit_simps)
  qed
qed

lemma id_eq:
  assumes "0 \<le> i" "i < 2 ^ 31" "-1 \<le> j" "j < 2 ^ 31" "32 \<le> a" "a < 60"
  shows "2 ^ a OR of_int i = (2 ^ a OR of_int j :: ll) \<longleftrightarrow> i = j"
proof
  assume eq: "2 ^ a OR of_int i = (2 ^ a OR of_int j :: ll)"
  have j: "0 \<le> j"
  proof (rule ccontr)
    assume "\<not> 0 \<le> j"
    then have "j = -1" using assms(3) by simp
    then show False using arg_cong [OF eq, of "\<lambda>x. bit x 60"] id_bits [OF assms(1,2), of 60] assms(6) by (simp add: bit_simps)
  qed
  have "take_bit 32 (2 ^ a OR of_int n :: ll) = of_int n" if "0 \<le> n" "n < 2 ^ 31" for n
    using low_id_of_int [OF that] high_flag [OF assms(5)] by (simp add: take_bit_or)
  then have "(of_int i :: ll) = of_int j" using eq assms(1,2,4) j by metis
  then show "i = j" using uint_id assms(1,2,4) j by metis
qed simp

lemma ids_differ:
  assumes "0 \<le> i" "i < 2 ^ 31" "-1 \<le> j" "j < 2 ^ 31"
  shows "INDIVIDUAL_ID OR of_int i = (INDIVIDUAL_ID OR of_int j :: ll) \<longleftrightarrow> i = j"
    "GROUP_ID OR of_int i = (GROUP_ID OR of_int j :: ll) \<longleftrightarrow> i = j"
    "INDIVIDUAL_ID OR of_int i \<noteq> (GROUP_ID OR of_int j :: ll)" "GROUP_ID OR of_int i \<noteq> (INDIVIDUAL_ID OR of_int j :: ll)"
    "ALL_ID \<noteq> (INDIVIDUAL_ID OR of_int j :: ll)" "ALL_ID \<noteq> (GROUP_ID OR of_int j :: ll)"
    "INDIVIDUAL_ID OR of_int i \<noteq> (ALL_ID :: ll)" "GROUP_ID OR of_int i \<noteq> (ALL_ID :: ll)"
  using id_eq [OF assms, of 32] id_eq [OF assms, of 33] flags_differ [OF assms, of 32 33] flags_differ [OF assms, of 33 32]
    flags_differ [OF _ _ assms(3,4), of 0 34 32] flags_differ [OF _ _ assms(3,4), of 0 34 33]
    flags_differ [OF assms(1,2), of 0 32 34] flags_differ [OF assms(1,2), of 0 33 34]
  by (simp_all add: code_bits)

text \<open>Who is meant by the user number of a rule.\<close>

lemma covers_iff:
  assumes "\<not> malformed r" "0 \<le> uid" "uid < 2 ^ 31" "0 \<le> gid" "gid < 2 ^ 31"
  shows "(\<exists>s. subject_of (user r) = Some s \<and> covers s uid gid) \<longleftrightarrow>
    user r = ALL_ID \<or> user r = INDIVIDUAL_ID OR of_int uid \<or> user r = GROUP_ID OR of_int gid"
proof -
  note u = subject_eq [OF assms(2,3) malformedD(1) [OF assms(1)]]
  note g = subject_eq [OF assms(4,5) malformedD(1) [OF assms(1)]]
  have "(\<exists>s. so = Some s \<and> covers s uid gid) \<longleftrightarrow>
      so = Some Everyone \<or> so = Some (The_user uid) \<or> so = Some (The_group gid)" for so
  proof (cases so)
    case (Some s)
    then show ?thesis by (cases s) auto
  qed simp
  then show ?thesis using u g by simp
qed

lemma authorize_iff:
  assumes "acl_ok m" "0 \<le> uid" "uid < 2 ^ 31" "0 \<le> gid" "gid < 2 ^ 31"
    "-1 \<le> p_oid p" "p_oid p < 2 ^ 31" "-1 \<le> p_uid p" "p_uid p < 2 ^ 31" "-1 \<le> p_gid p" "p_gid p < 2 ^ 31"
  shows "authorize uid gid p op m \<longleftrightarrow>
    p_uid p = uid \<and> granted (owner_u p) (owner_m p) (owner_a p) op \<or>
    p_gid p = gid \<and> granted (group_u p) (group_m p) (group_a p) op \<or>
    granted (other_u p) (other_m p) (other_a p) op \<or>
    (\<exists>r \<in> rule_set m. (\<exists>s. subject_of (user r) = Some s \<and> covers s uid gid) \<and>
       permits r (obj_type p) (p_oid p) (p_gid p) op)"
proof -
  have wf: "\<not> malformed r" if "r \<in> rule_set m" for r
    using assms(1) that by (auto simp: acl_ok_def rule_set_def)
  note u = ids_differ [OF assms(2,3,8,9)] and u' = ids_differ [OF assms(2,3,10,11)]
    and g = ids_differ [OF assms(4,5,10,11)] and g' = ids_differ [OF assms(4,5,8,9)]
  note pm = perm_rule_matches [OF assms(6,7)]
  define tmp where "tmp = mm_insert ALL_ID (perm_rule p ALL_ID (perm_rights (other_u p) (other_m p) (other_a p)))
    (mm_insert (GROUP_ID OR of_int (p_gid p)) (perm_rule p (GROUP_ID OR of_int (p_gid p)) (perm_rights (group_u p) (group_m p) (group_a p)))
    (mm_insert (INDIVIDUAL_ID OR of_int (p_uid p)) (perm_rule p (INDIVIDUAL_ID OR of_int (p_uid p)) (perm_rights (owner_u p) (owner_m p) (owner_a p))) []))"
  let ?q = "acl_request_of p op"
  have t: "match_rules ALL_ID ?q tmp \<longleftrightarrow> granted (other_u p) (other_m p) (other_a p) op"
    "match_rules (INDIVIDUAL_ID OR of_int uid) ?q tmp \<longleftrightarrow> uid = p_uid p \<and> granted (owner_u p) (owner_m p) (owner_a p) op"
    "match_rules (GROUP_ID OR of_int gid) ?q tmp \<longleftrightarrow> gid = p_gid p \<and> granted (group_u p) (group_m p) (group_a p) op"
    unfolding match_rules_ex tmp_def using u u' g g' pm perm_rights_granted by (auto simp: pm)
  have "authorize uid gid p op m \<longleftrightarrow> match_rules_wrapper ALL_ID ?q tmp m \<or>
      match_rules_wrapper (INDIVIDUAL_ID OR of_int uid) ?q tmp m \<or> match_rules_wrapper (GROUP_ID OR of_int gid) ?q tmp m"
    by (simp add: authorize_def get_acl_rules_def tmp_def Let_def perm_rule_def)
  also have "\<dots> \<longleftrightarrow> p_uid p = uid \<and> granted (owner_u p) (owner_m p) (owner_a p) op \<or>
    p_gid p = gid \<and> granted (group_u p) (group_m p) (group_a p) op \<or>
    granted (other_u p) (other_m p) (other_a p) op \<or>
    (\<exists>r \<in> rule_set m. (user r = ALL_ID \<or> user r = INDIVIDUAL_ID OR of_int uid \<or> user r = GROUP_ID OR of_int gid) \<and>
       permits r (obj_type p) (p_oid p) (p_gid p) op)"
    unfolding match_rules_wrapper_def t acl_matches [OF assms(1,7,11)] by auto
  finally show ?thesis using covers_iff [OF wf assms(2-5)] by blast
qed

text \<open>C15. Authorization is exactly what the permissions of the object and the rules say: a request of user
  \<open>uid\<close> in group \<open>gid\<close> is granted if and only if the object's permissions grant the operation to its owner, its
  group or the others the user is among, or a rule about the user, his group or everyone names the type of the
  object and the operation and reaches the object, its group or all objects.  The 64-bit masks never confuse two
  identifiers, groups and users, or types.\<close>

theorem authorize_correct:
  assumes "acl_ok m" "0 \<le> uid" "uid < 2 ^ 31" "0 \<le> gid" "gid < 2 ^ 31"
    "-1 \<le> p_oid p" "p_oid p < 2 ^ 31" "-1 \<le> p_uid p" "p_uid p < 2 ^ 31" "-1 \<le> p_gid p" "p_gid p < 2 ^ 31"
  shows "authorize uid gid p op m \<longleftrightarrow>
    p_uid p = uid \<and> granted (owner_u p) (owner_m p) (owner_a p) op \<or>
    p_gid p = gid \<and> granted (group_u p) (group_m p) (group_a p) op \<or>
    granted (other_u p) (other_m p) (other_a p) op \<or>
    (\<exists>r \<in> rule_set m. (\<exists>s. subject_of (user r) = Some s \<and> covers s uid gid) \<and>
       permits r (obj_type p) (p_oid p) (p_gid p) op)"
  by (rule authorize_iff [OF assms])


subsection \<open>Reverse search\<close>

definition hits :: "found \<Rightarrow> int \<Rightarrow> int \<Rightarrow> bool" where
  "hits f oid gid \<longleftrightarrow> f_all f \<or> oid \<in> set (f_oids f) \<or> gid \<in> set (f_gids f)"

lemma search_flags:
  "x AND (type_code t OR ALL_ID) = type_code t OR ALL_ID \<longleftrightarrow> bit x (type_bit t) \<and> bit x 34"
  "x AND (type_code t OR GROUP_ID) = type_code t OR GROUP_ID \<longleftrightarrow> bit x (type_bit t) \<and> bit x 33"
  "x AND (type_code t OR INDIVIDUAL_ID) = type_code t OR INDIVIDUAL_ID \<longleftrightarrow> bit x (type_bit t) \<and> bit x 32"
  using flags_match [of "type_bit t" 34 x] flags_match [of "type_bit t" 33 x] flags_match [of "type_bit t" 32 x]
    type_bit_range [of t] by (simp_all add: code_bits)

lemma search_loop_hits:
  assumes "\<forall>r \<in> set rs. \<not> malformed r"
  shows "hits (search_loop (type_code t) (op_code op) rs f) oid gid \<longleftrightarrow> hits f oid gid \<or> (\<exists>r \<in> set rs. permits r t oid gid op)"
  using assms
proof (induction rs arbitrary: f)
  case (Cons r rs)
  let ?x = "resource r"
  note w = flag_errors_Nil [OF malformedD(2), of r]
  have wf: "\<not> malformed r" "\<forall>r \<in> set rs. \<not> malformed r" using Cons.prems by simp_all
  have p: "permits r t oid gid op \<longleftrightarrow> rights r AND op_code op = op_code op \<and> bit ?x (type_bit t) \<and>
      (bit ?x 34 \<or> bit ?x 33 \<and> resource_id r = gid \<or> bit ?x 32 \<and> resource_id r = oid)"
    using w(1) [OF wf(1)] by (auto simp: permits_def scope_of_def flag_bits op_code_bit resource_id_def)
  show ?case
    using Cons.IH [OF wf(2)] p w(1) [OF wf(1)] by (auto simp: search_flags hits_def)
qed (simp add: hits_def)

lemma search_user_hits:
  assumes "acl_ok m"
  shows "hits (search_user (type_code t) (op_code op) u m f) oid gid \<longleftrightarrow>
    hits f oid gid \<or> (\<exists>r \<in> rule_set m. user r = u \<and> permits r t oid gid op)"
proof -
  let ?rs = "equal_range u (acl_rules m)"
  have "set ?rs = {r \<in> rule_set m. user r = u}" using in_equal_range [OF assms] by blast
  moreover from this have "\<forall>r \<in> set ?rs. \<not> malformed r" using acl_okD(2) [OF assms] by blast
  ultimately have "hits (search_loop (type_code t) (op_code op) ?rs f) oid gid \<longleftrightarrow>
      hits f oid gid \<or> (\<exists>r \<in> rule_set m. user r = u \<and> permits r t oid gid op)"
    using search_loop_hits [of ?rs t op f oid gid] by auto
  then show ?thesis by (auto simp: search_user_def Let_def hits_def)
qed

lemma reverse_hits:
  assumes "acl_ok m" "0 \<le> uid" "uid < 2 ^ 31" "0 \<le> gid" "gid < 2 ^ 31"
  shows "hits (reverse_search uid gid t op m) oid ogid \<longleftrightarrow>
    (\<exists>r \<in> rule_set m. (\<exists>s. subject_of (user r) = Some s \<and> covers s uid gid) \<and> permits r t oid ogid op)"
proof -
  have wf: "\<not> malformed r" if "r \<in> rule_set m" for r
    using assms(1) that by (auto simp: acl_ok_def rule_set_def)
  have "hits (reverse_search uid gid t op m) oid ogid \<longleftrightarrow> (\<exists>r \<in> rule_set m.
     (user r = ALL_ID \<or> user r = INDIVIDUAL_ID OR of_int uid \<or> user r = GROUP_ID OR of_int gid) \<and> permits r t oid ogid op)"
    by (auto simp: reverse_search_def search_user_hits [OF assms(1)] hits_def [of "\<lparr>f_all = False, f_oids = [], f_gids = []\<rparr>"])
  then show ?thesis using covers_iff [OF wf assms(2-5)] by blast
qed

text \<open>C16. The reverse search lists exactly what the rules allow: the objects it names, the objects of the groups it
  names, or all objects when it says so, are the ones a rule permits the user to operate on.\<close>

theorem reverse_search_correct:
  assumes "acl_ok m" "0 \<le> uid" "uid < 2 ^ 31" "0 \<le> gid" "gid < 2 ^ 31"
  shows "hits (reverse_search uid gid t op m) oid ogid \<longleftrightarrow>
    (\<exists>r \<in> rule_set m. (\<exists>s. subject_of (user r) = Some s \<and> covers s uid gid) \<and> permits r t oid ogid op)"
  by (rule reverse_hits [OF assms])

subsection \<open>Rules added and deleted\<close>

lemma mset_mm_insert: "mset (mm_insert k r xs) = add_mset (k, r) (mset xs)"
  unfolding mm_insert_def by (metis mset.simps(2) mset_append takeWhile_dropWhile_id union_mset_add_mset_right)

lemma distinct_mm_insert:
  assumes "distinct (map snd xs)" "r \<notin> snd ` set xs"
  shows "distinct (map snd (mm_insert k r xs))"
proof -
  have "mset (map snd (mm_insert k r xs)) = mset (map snd ((k, r) # xs))" by (simp add: mset_mm_insert)
  then show ?thesis using assms mset_eq_imp_distinct_iff by fastforce
qed

lemma add_rule_spec:
  assumes "acl_ok m" "add_rule u res ri ok ok' m = (rc, err, m')"
  shows "acl_ok m' \<and>
    (if 0 \<le> rc then rule_set m' = insert \<lparr>acl_oid = rc, user = u, resource = res, rights = ri\<rparr> (rule_set m) \<and>
       rc = lastOID m' \<and> acl_rules_oids m rc = None \<and> (\<forall>r \<in> rule_set m. \<not> (user r = u \<and> resource r = res \<and> rights r = ri))
     else rule_set m' = rule_set m \<and> acl_table m' = acl_table m \<and>
       (rc = -1 \<longleftrightarrow> (\<exists>r \<in> rule_set m. user r = u \<and> resource r = res \<and> rights r = ri)))"
proof -
  let ?n = "(if lastOID m = 2147483647 then -1 else lastOID m) + 1"
  let ?rule = "\<lparr>acl_oid = ?n, user = u, resource = res, rights = ri\<rparr>"
  have n: "0 \<le> ?n" using acl_okD(7) [OF assms(1)] by auto
  have dup: "(\<exists>r \<in> set (equal_range u (acl_rules m)). same_rule r ?rule) \<longleftrightarrow>
      (\<exists>r \<in> rule_set m. user r = u \<and> resource r = res \<and> rights r = ri)"
    using in_equal_range [OF assms(1)] by (auto simp: same_rule_def)
  have undone: "acl_ok (m\<lparr>lastOID := ?n - 1\<rparr>)" using assms(1) n by (simp add: acl_ok_def rule_set_def)
  consider "\<exists>r \<in> set (equal_range u (acl_rules m)). same_rule r ?rule"
    | "\<not> (\<exists>r \<in> set (equal_range u (acl_rules m)). same_rule r ?rule)" "malformed ?rule \<or> \<not> ok \<or> acl_table m ?n \<noteq> None"
    | "\<not> (\<exists>r \<in> set (equal_range u (acl_rules m)). same_rule r ?rule)" "\<not> malformed ?rule" "ok" "acl_table m ?n = None" by blast
  then show ?thesis
  proof cases
    case 1
    then have "rc = -1" "m' = m\<lparr>lastOID := ?n - 1\<rparr>" using assms(2) by (simp_all add: add_rule_def Let_def)
    then show ?thesis using undone 1 dup by (simp add: rule_set_def)
  next
    case 2
    then have "rc \<in> {-2, -3}" "m' = m\<lparr>lastOID := ?n - 1\<rparr>" using assms(2) by (auto simp: add_rule_def Let_def split: if_splits)
    then show ?thesis using undone 2 dup by (auto simp: rule_set_def)
  next
    case 3
    have new: "?rule \<notin> rule_set m" using 3(4) acl_okD(3) [OF assms(1), of ?n ?rule] acl_okD(6) [OF assms(1)] by auto
    have free: "acl_rules_oids m ?n = None" using 3(4) acl_okD(6) [OF assms(1)] by simp
    have m': "rc = ?n" "m' = m\<lparr>lastOID := ?n, acl_rules := mm_insert u ?rule (acl_rules m), acl_rules_oids := (acl_rules_oids m)(?n \<mapsto> ?rule),
        acl_table := (acl_table m)(?n \<mapsto> ?rule), acl_last_oid := (if ok' then Some ?n else acl_last_oid m)\<rparr>"
      using assms(2) 3 free by (auto simp: add_rule_def Let_def)
    have rs: "rule_set m' = insert ?rule (rule_set m)" by (simp add: m'(2) rule_set_def)
    have "acl_ok m'" unfolding acl_ok_def rs
    proof (intro conjI)
      show "\<forall>x \<in> set (acl_rules m'). fst x = user (snd x) \<and> \<not> malformed (snd x)"
        using acl_okD(1,2) [OF assms(1)] 3(2) by (auto simp: m'(2) rule_set_def)
      show "\<forall>oid r. acl_rules_oids m' oid = Some r \<longleftrightarrow> r \<in> insert ?rule (rule_set m) \<and> acl_oid r = oid"
      proof -
        have "acl_oid r \<noteq> ?n" if "r \<in> rule_set m" for r using acl_okD(3) [OF assms(1), of ?n r] free that by auto
        then show ?thesis using acl_okD(3) [OF assms(1)] by (auto simp: m'(2))
      qed
      show "distinct (map snd (acl_rules m'))"
        using distinct_mm_insert acl_okD(4) [OF assms(1)] new by (simp add: m'(2) rule_set_def)
      show "\<forall>a \<in> insert ?rule (rule_set m). \<forall>b \<in> insert ?rule (rule_set m). same_rule a b \<longrightarrow> a = b"
        using acl_okD(5) [OF assms(1)] 3(1) dup by (auto simp: same_rule_def)
      show "acl_table m' = acl_rules_oids m'" using acl_okD(6) [OF assms(1)] by (simp add: m'(2))
      show "-1 \<le> lastOID m'" using n by (simp add: m'(2))
    qed
    then show ?thesis using rs m' n free 3(1) dup by auto
  qed
qed

text \<open>A rule is added at most once, and only when it is well formed: the code returned tells which, and the
  manager's two indexes and the table change together or not at all.\<close>

theorem add_rule_correct:
  assumes "acl_ok m" "add_rule u res ri ok ok' m = (rc, err, m')"
  shows "acl_ok m' \<and>
    (if 0 \<le> rc then rule_set m' = insert \<lparr>acl_oid = rc, user = u, resource = res, rights = ri\<rparr> (rule_set m) \<and>
       rc = lastOID m' \<and> acl_rules_oids m rc = None \<and> (\<forall>r \<in> rule_set m. \<not> (user r = u \<and> resource r = res \<and> rights r = ri))
     else rule_set m' = rule_set m \<and> acl_table m' = acl_table m \<and>
       (rc = -1 \<longleftrightarrow> (\<exists>r \<in> rule_set m. user r = u \<and> resource r = res \<and> rights r = ri)))"
  by (rule add_rule_spec [OF assms])


lemma mset_erase_first: "x \<in> set xs \<Longrightarrow> P x \<Longrightarrow> (\<And>y. y \<in> set xs \<Longrightarrow> P y \<Longrightarrow> y = x) \<Longrightarrow>
   mset (erase_first P xs) = mset xs - {#x#}"
proof (induction xs)
  case (Cons a xs)
  show ?case
  proof (cases "P a")
    case True
    then show ?thesis using Cons.prems(3) [of a] by simp
  next
    case False
    then have "x \<in> set xs" "x \<noteq> a" using Cons.prems(1,2) by auto
    then show ?thesis using Cons.IH [OF _ Cons.prems(2)] Cons.prems(3) False by auto
  qed
qed simp

lemma del_rule_spec:
  assumes "acl_ok m" "del_rule oid ok m = (rc, err, m')"
  shows "acl_ok m' \<and> (if ok \<and> acl_rules_oids m oid \<noteq> None
    then rc = 0 \<and> rule_set m' = {r \<in> rule_set m. acl_oid r \<noteq> oid} \<and> acl_table m' = (acl_table m)(oid := None)
    else rc = -1 \<and> m' = m)"
proof (cases "acl_rules_oids m oid")
  case None
  then show ?thesis using assms by (simp add: del_rule_def)
next
  case (Some rule)
  then have r: "rule \<in> rule_set m" "acl_oid rule = oid" using acl_okD(3) [OF assms(1)] by simp_all
  then have f: "\<exists>r \<in> set (equal_range (user rule) (acl_rules m)). same_rule rule r"
    using in_equal_range [OF assms(1)] by (auto simp: same_rule_def)
  show ?thesis
  proof (cases ok)
    case True
    let ?P = "\<lambda>x. fst x = user rule \<and> same_rule rule (snd x)"
    have m': "rc = 0" "m' = m\<lparr>acl_rules := erase_first ?P (acl_rules m),
        acl_rules_oids := (acl_rules_oids m)(oid := None), acl_table := (acl_table m)(oid := None)\<rparr>"
      using assms(2) Some f True by (auto simp: del_rule_def)
    obtain k where k: "(k, rule) \<in> set (acl_rules m)" using r(1) by (auto simp: rule_set_def)
    define x where "x = (user rule, rule)"
    then have x: "x \<in> set (acl_rules m)" "x = (user rule, rule)" using k acl_okD(1) [OF assms(1) k] by simp_all
    have only: "y = x" if "y \<in> set (acl_rules m)" "?P y" for y
    proof -
      have "snd y \<in> rule_set m" using that(1) by (simp add: rule_set_def)
      then have "rule = snd y" using acl_okD(5) [OF assms(1) r(1)] that(2) by blast
      then show ?thesis using that(2) x(2) by (metis prod.collapse)
    qed
    have px: "?P x" using x(2) by (simp add: same_rule_def)
    have "acl_rules m' = erase_first ?P (acl_rules m)" by (simp add: m'(2))
    then have ms: "mset (acl_rules m') = mset (acl_rules m) - {#x#}"
      using mset_erase_first [OF x(1), of ?P, OF px only] by metis
    then have ad: "mset (acl_rules m) = add_mset x (mset (acl_rules m'))" using x(1) by simp
    then have d: "distinct (map snd (x # acl_rules m'))"
      using acl_okD(4) [OF assms(1)] mset_eq_imp_distinct_iff [of "map snd (acl_rules m)" "map snd (x # acl_rules m')"] by simp
    have st: "set (acl_rules m) = insert x (set (acl_rules m'))" using arg_cong [OF ad, of set_mset] by simp
    then have rs: "rule_set m = insert rule (rule_set m')" "rule \<notin> rule_set m'" using x(2) d by (auto simp: rule_set_def)
    have uniq: "a = rule" if "a \<in> rule_set m" "acl_oid a = oid" for a
      using acl_okD(3) [OF assms(1), of oid a] Some that by simp
    have rs': "rule_set m' = {r \<in> rule_set m. acl_oid r \<noteq> oid}"
    proof (intro set_eqI iffI)
      fix a assume a: "a \<in> rule_set m'"
      then have "a \<in> rule_set m" "a \<noteq> rule" using rs by blast+
      then show "a \<in> {r \<in> rule_set m. acl_oid r \<noteq> oid}" using uniq by blast
    next
      fix a assume a: "a \<in> {r \<in> rule_set m. acl_oid r \<noteq> oid}"
      then have "a \<noteq> rule" using r(2) by blast
      then show "a \<in> rule_set m'" using a rs(1) by blast
    qed
    have "acl_ok m'" unfolding acl_ok_def
    proof (intro conjI)
      show "\<forall>x \<in> set (acl_rules m'). fst x = user (snd x) \<and> \<not> malformed (snd x)"
        using assms(1) st by (auto simp: acl_ok_def)
      show "\<forall>oid r. acl_rules_oids m' oid = Some r \<longleftrightarrow> r \<in> rule_set m' \<and> acl_oid r = oid"
        using acl_okD(3) [OF assms(1)] rs' by (auto simp: m'(2))
      show "distinct (map snd (acl_rules m'))" using d by simp
      show "\<forall>a \<in> rule_set m'. \<forall>b \<in> rule_set m'. same_rule a b \<longrightarrow> a = b" using acl_okD(5) [OF assms(1)] rs' by auto
      show "acl_table m' = acl_rules_oids m'" "-1 \<le> lastOID m'" using acl_okD(6,7) [OF assms(1)] by (simp_all add: m'(2))
    qed
    then show ?thesis using m' rs' True Some by simp
  next
    case False
    then show ?thesis using assms Some f by (auto simp: del_rule_def)
  qed
qed

text \<open>A deletion removes the rule with that identifier, from both indexes and from the table, and no other; with
  an unknown identifier or a failed statement nothing changes.\<close>

theorem del_rule_correct:
  assumes "acl_ok m" "del_rule oid ok m = (rc, err, m')"
  shows "acl_ok m' \<and> (if ok \<and> acl_rules_oids m oid \<noteq> None
    then rc = 0 \<and> rule_set m' = {r \<in> rule_set m. acl_oid r \<noteq> oid} \<and> acl_table m' = (acl_table m)(oid := None)
    else rc = -1 \<and> m' = m)"
  by (rule del_rule_spec [OF assms])

subsection \<open>The default rules\<close>

definition default_acl :: aclm where
  "default_acl = new_aclm None Map.empty"

lemma empty_acl_ok: "acl_ok \<lparr>lastOID = -1, acl_rules = [], acl_rules_oids = Map.empty, acl_table = Map.empty, acl_last_oid = None\<rparr>"
  by (simp add: acl_ok_def rule_set_def)

lemma default_acl_ok: "acl_ok default_acl"
proof -
  have keep: "acl_ok (snd (snd (add_rule u res ri ok ok' m)))" if "acl_ok m" for u res ri ok ok' m
    using add_rule_spec [OF that] by (metis prod.collapse)
  show ?thesis
    using keep [OF keep [OF empty_acl_ok]] by (simp add: default_acl_def new_aclm_def Let_def case_prod_unfold)
qed


text \<open>A user of the group USERS, and a request about no object in particular.\<close>

definition create_vm :: permissions where
  "create_vm = \<lparr>obj_type = T_VM, p_oid = -1, p_uid = -1, p_gid = -1, owner_u = 1, owner_m = 1, owner_a = 0,
     group_u = 0, group_m = 0, group_a = 0, other_u = 0, other_m = 0, other_a = 0\<rparr>"

lemma default_rules:
  "rule_set default_acl = {\<lparr>acl_oid = 0, user = 0x200000001, resource = 0x2D400000000, rights = 8\<rparr>,
     \<lparr>acl_oid = 1, user = 0x200000001, resource = 0x2400000000, rights = 2\<rparr>}"
  unfolding default_acl_def rule_set_def by code_simp

theorem authorize_correct_witness:
  "authorize 5 1 create_vm CREATE default_acl \<and> \<not> authorize 5 2 create_vm CREATE default_acl"
proof -
  have s: "subject_of 0x200000001 = Some (The_group 1)" by code_simp
  have "authorize 5 g create_vm CREATE default_acl \<longleftrightarrow> g = 1" if "g = 1 \<or> g = 2" for g
    using authorize_correct [OF default_acl_ok, of 5 g create_vm CREATE] that s
    by (auto simp: create_vm_def default_rules permits_def scope_of_def ALL_ID_def)
  then show ?thesis by simp
qed

theorem reverse_search_correct_witness:
  "hits (reverse_search 5 1 T_HOST MANAGE default_acl) 12 0 \<and> \<not> hits (reverse_search 5 2 T_HOST MANAGE default_acl) 12 0"
proof -
  have s: "subject_of 0x200000001 = Some (The_group 1)" by code_simp
  have "hits (reverse_search 5 g T_HOST MANAGE default_acl) 12 0 \<longleftrightarrow> g = 1" if "g = 1 \<or> g = 2" for g
    using reverse_search_correct [OF default_acl_ok, of 5 g T_HOST MANAGE 12 0] that s
    by (auto simp: default_rules permits_def scope_of_def ALL_ID_def)
  then show ?thesis by simp
qed

theorem add_rule_correct_witness:
  "acl_ok (snd (snd (add_rule 0x100000005 0x1100000003 1 True True default_acl)))"
proof -
  obtain rc err m' where a: "add_rule 0x100000005 0x1100000003 1 True True default_acl = (rc, err, m')" by (metis prod_cases3)
  show ?thesis using add_rule_correct [OF default_acl_ok a] a by simp
qed

theorem del_rule_correct_witness:
  "\<exists>err m'. del_rule 1 True default_acl = (0, err, m') \<and> rule_set m' = {r \<in> rule_set default_acl. acl_oid r \<noteq> 1}"
proof -
  obtain rc err m' where d: "del_rule 1 True default_acl = (rc, err, m')" by (metis prod_cases3)
  moreover have "acl_rules_oids default_acl 1 \<noteq> None" unfolding default_acl_def by code_simp
  ultimately show ?thesis using del_rule_correct [OF default_acl_ok d] by auto
qed

text \<open>The check of the rights compares signed numbers and lets every negative one through: a rule whose rights
  have the top bit set is well formed, and with all bits set it grants every operation.\<close>

theorem negative_rights_accepted:
  "\<not> malformed \<lparr>acl_oid = 0, user = INDIVIDUAL_ID OR 5, resource = ALL_ID OR type_code T_HOST, rights = -1\<rparr> \<and>
   permits \<lparr>acl_oid = 0, user = INDIVIDUAL_ID OR 5, resource = ALL_ID OR type_code T_HOST, rights = -1\<rparr> T_HOST oid gid op"
proof
  show "\<not> malformed \<lparr>acl_oid = 0, user = INDIVIDUAL_ID OR 5, resource = ALL_ID OR type_code T_HOST, rights = -1\<rparr>"
    by code_simp
  show "permits \<lparr>acl_oid = 0, user = INDIVIDUAL_ID OR 5, resource = ALL_ID OR type_code T_HOST, rights = -1\<rparr> T_HOST oid gid op"
    by (cases op) (simp_all add: permits_def scope_of_def ALL_ID_def)
qed

end
