(* ===== verification/Users.thy ===== *)
theory Users
  imports Acl IoStream
begin

text \<open>
  Users and groups: src/um (the pool of users and the authentication of a request), src/group, and the requests on them
  in src/rm (RequestManagerUser.cc, \<open>UserAllocate\<close>, \<open>GroupAllocate\<close>, \<open>UserChown\<close>, \<open>UserDelete\<close>, \<open>GroupDelete\<close>).

  \<open>users\<close> and \<open>groups\<close> are the objects of the two pools, \<open>user_rows\<close> and \<open>group_rows\<close> the rows of their tables; the
  order of the lists does not matter.  Every operation takes the mutex of one object at a time and releases it before
  it takes the next.  What other threads do in between is an argument \<open>w\<close> of the operations that read an object again.

  Inputs: the clock before and after such a wait, the SHA1 digest, the authentication driver (\<open>None\<close>: no driver is
  loaded), its decision on an authorization, the access-control rules, and which writes the database accepts.
\<close>

subsection \<open>Objects and tables\<close>

record user =
  u_oid :: int
  u_name :: string
  u_gid :: int
  u_gname :: string
  password :: string
  auth_driver :: string
  enabled :: bool
  session_token :: string
  session_expiration_time :: int

record group =
  g_oid :: int
  g_name :: string
  g_users :: "int set"

record um =
  users :: "user list"
  groups :: "group list"
  user_rows :: "user list"
  group_rows :: "group list"
  last_uid :: int
  last_gid :: int

datatype db_write = Insert_user | Update_user | Drop_user | Insert_group | Update_group int | Drop_group

record um_env =
  now :: int
  later :: int
  session_validity :: int
  sha1_digest :: "string \<Rightarrow> string"
  authm :: "(string \<Rightarrow> string \<Rightarrow> string \<Rightarrow> string \<Rightarrow> bool \<times> string) option"
  authz :: "(int \<Rightarrow> (permissions \<times> Operation) list \<Rightarrow> bool \<Rightarrow> bool) option"
  acl :: aclm
  um_db :: "db_write \<Rightarrow> bool"

definition row_find :: "('a \<Rightarrow> int) \<Rightarrow> int \<Rightarrow> 'a list \<Rightarrow> 'a option" where
  "row_find k i xs = find (\<lambda>x. k x = i) xs"

definition row_drop :: "('a \<Rightarrow> int) \<Rightarrow> int \<Rightarrow> 'a list \<Rightarrow> 'a list" where
  "row_drop k i xs = filter (\<lambda>x. k x \<noteq> i) xs"

definition row_put :: "('a \<Rightarrow> int) \<Rightarrow> 'a \<Rightarrow> 'a list \<Rightarrow> 'a list" where
  "row_put k x xs = row_drop k (k x) xs @ [x]"

abbreviation find_user :: "int \<Rightarrow> um \<Rightarrow> user option" where
  "find_user i s \<equiv> row_find u_oid i (users s)"

abbreviation find_group :: "int \<Rightarrow> um \<Rightarrow> group option" where
  "find_group i s \<equiv> row_find g_oid i (groups s)"

definition find_uname :: "string \<Rightarrow> um \<Rightarrow> user option" where
  "find_uname n s = find (\<lambda>u. u_name u = n) (users s)"

definition find_gname :: "string \<Rightarrow> um \<Rightarrow> group option" where
  "find_gname n s = find (\<lambda>g. g_name g = n) (groups s)"

text \<open>The session of a user is not in its XML.\<close>

definition no_session :: "user \<Rightarrow> user" where
  "no_session u = u\<lparr>session_token := '''', session_expiration_time := 0\<rparr>"

text \<open>A change of an object, and a change that is followed by \<open>update\<close>.  Nobody looks at the result of a write.\<close>

definition set_user :: "user \<Rightarrow> um \<Rightarrow> um" where
  "set_user u s = s\<lparr>users := row_put u_oid u (users s)\<rparr>"

definition set_group :: "group \<Rightarrow> um \<Rightarrow> um" where
  "set_group g s = s\<lparr>groups := row_put g_oid g (groups s)\<rparr>"

definition update_user :: "um_env \<Rightarrow> user \<Rightarrow> um \<Rightarrow> um" where
  "update_user e u s = (let s = set_user u s in
     if um_db e Update_user then s\<lparr>user_rows := row_put u_oid (no_session u) (user_rows s)\<rparr> else s)"

definition update_group :: "um_env \<Rightarrow> group \<Rightarrow> um \<Rightarrow> um" where
  "update_group e g s = (let s = set_group g s in
     if um_db e (Update_group (g_oid g)) then s\<lparr>group_rows := row_put g_oid g (group_rows s)\<rparr> else s)"

text \<open>An object leaves the cache and is read again from its row, without the session.\<close>

definition reload_user :: "int \<Rightarrow> um \<Rightarrow> um" where
  "reload_user i s = (case row_find u_oid i (user_rows s) of None \<Rightarrow> s | Some u \<Rightarrow> set_user u s)"

subsection \<open>Names, passwords and sessions\<close>

definition CORE_AUTH :: string where "CORE_AUTH = ''core''"
definition PUBLIC_AUTH :: string where "PUBLIC_AUTH = ''public''"
definition DEFAULT_AUTH :: string where "DEFAULT_AUTH = ''default''"
definition ONEADMIN_ID :: int where "ONEADMIN_ID = 0"
definition USERS_ID :: int where "USERS_ID = 1"
definition USERS_NAME :: string where "USERS_NAME = ''users''"

text \<open>\<open>fnmatch\<close> with the pattern \<open>server*\<close>.\<close>

definition server_auth :: "string \<Rightarrow> bool" where
  "server_auth driver \<longleftrightarrow> take 6 driver = ''server''"

definition split_secret :: "string \<Rightarrow> (string \<times> string) option" where
  "split_secret secret = (case dropWhile (\<lambda>c. c \<noteq> CHR '':'') secret of [] \<Rightarrow> None
     | _ # pass \<Rightarrow> Some (takeWhile (\<lambda>c. c \<noteq> CHR '':'') secret, pass))"

text \<open>The error message; \<open>None\<close> is a valid name or password.\<close>

definition name_error :: "string \<Rightarrow> string option" where
  "name_error uname =
     (if uname = [] then Some ''Invalid NAME, it cannot be empty''
      else case find (\<lambda>c. is_space c \<or> c = CHR '':'') uname of
        Some c \<Rightarrow> Some (''Invalid NAME, character '' @ CHR 0x27 # c # CHR 0x27 # '' is not allowed'')
      | None \<Rightarrow> if 128 < length uname then Some ''Invalid NAME, max length is 128 chars'' else None)"

definition pass_error :: "string \<Rightarrow> string option" where
  "pass_error pass =
     (if pass = [] then Some ''Invalid password, it cannot be empty''
      else case find is_space pass of
        Some c \<Rightarrow> Some (''Invalid password, character '' @ CHR 0x27 # c # CHR 0x27 # '' is not allowed'')
      | None \<Rightarrow> None)"

definition valid_session :: "int \<Rightarrow> user \<Rightarrow> string \<Rightarrow> bool" where
  "valid_session t u token \<longleftrightarrow> session_token u = token \<and> t < session_expiration_time u"

definition invalidate_session :: "user \<Rightarrow> user" where
  "invalidate_session u = u\<lparr>session_token := '''', session_expiration_time := 0\<rparr>"

definition set_session :: "um_env \<Rightarrow> string \<Rightarrow> user \<Rightarrow> user" where
  "set_session e token u = u\<lparr>session_token := token, session_expiration_time := later e + session_validity e\<rparr>"

definition set_password :: "string \<Rightarrow> user \<Rightarrow> int \<times> user" where
  "set_password passwd u =
     (if pass_error passwd = None then (0, invalidate_session (u\<lparr>password := passwd\<rparr>)) else (- 1, u))"

definition set_auth_driver :: "string \<Rightarrow> user \<Rightarrow> user" where
  "set_auth_driver driver u = invalidate_session (u\<lparr>auth_driver := driver\<rparr>)"

subsection \<open>The pools\<close>

definition add_user :: "int \<Rightarrow> group \<Rightarrow> group" where
  "add_user i g = g\<lparr>g_users := insert i (g_users g)\<rparr>"

definition del_user :: "int \<Rightarrow> group \<Rightarrow> group" where
  "del_user i g = g\<lparr>g_users := g_users g - {i}\<rparr>"

text \<open>The next identifier of a pool: the greatest \<open>int\<close> is followed by 0.\<close>

definition next_id :: "int \<Rightarrow> int" where
  "next_id i = (if i = 2147483647 then - 1 else i) + 1"

text \<open>\<open>UserPool::allocate\<close>: what it returns, the identifier it writes through its first argument, and the error.\<close>

definition user_allocate ::
  "um_env \<Rightarrow> int \<Rightarrow> string \<Rightarrow> string \<Rightarrow> string \<Rightarrow> string \<Rightarrow> bool \<Rightarrow> um \<Rightarrow> (int \<times> int \<times> string) \<times> um" where
  "user_allocate e gid uname gname passwd auth en s =
     (case pass_error passwd of Some m \<Rightarrow> ((- 1, - 1, m @ ''.''), s)
      | None \<Rightarrow> case name_error uname of Some m \<Rightarrow> ((- 1, - 1, m @ ''.''), s)
      | None \<Rightarrow> case find_uname uname s of
          Some u \<Rightarrow> ((- 1, - 1, ''NAME is already taken by USER '' @ int_string (u_oid u) @ ''.''), s)
      | None \<Rightarrow>
          let driver = (if auth = [] then CORE_AUTH else auth);
              upass = (if driver = CORE_AUTH then sha1_digest e passwd else passwd);
              i = next_id (last_uid s);
              u = \<lparr>u_oid = i, u_name = uname, u_gid = gid, u_gname = gname, password = upass,
                   auth_driver = driver, enabled = en, session_token = '''', session_expiration_time = 0\<rparr>
          in if row_find u_oid i (user_rows s) \<noteq> None \<or> \<not> um_db e Insert_user
             then ((- 1, - 1, ''''), s\<lparr>last_uid := i - 1\<rparr>)
             else let s = s\<lparr>users := row_put u_oid u (users s), user_rows := row_put u_oid u (user_rows s), last_uid := i\<rparr>
               in (case find_group gid s of None \<Rightarrow> ((- 1, i, ''''), s)
                   | Some g \<Rightarrow> ((i, i, ''''), update_group e (add_user i g) s)))"

definition group_allocate :: "um_env \<Rightarrow> string \<Rightarrow> um \<Rightarrow> (int \<times> string) \<times> um" where
  "group_allocate e nm s =
     (if nm = [] then ((- 1, ''NAME cannot be empty.''), s)
      else if 128 < length nm then ((- 1, ''NAME is too long; max length is 128 chars.''), s)
      else case find_gname nm s of
        Some g \<Rightarrow> ((- 1, ''NAME is already taken by GROUP '' @ int_string (g_oid g) @ ''.''), s)
      | None \<Rightarrow> let i = next_id (last_gid s); g = \<lparr>g_oid = i, g_name = nm, g_users = {}\<rparr> in
          if row_find g_oid i (group_rows s) \<noteq> None \<or> \<not> um_db e Insert_group
          then ((- 1, ''''), s\<lparr>last_gid := i - 1\<rparr>)
          else ((i, ''''), s\<lparr>groups := row_put g_oid g (groups s), group_rows := row_put g_oid g (group_rows s),
                            last_gid := i\<rparr>))"

definition drop_user :: "um_env \<Rightarrow> int \<Rightarrow> um \<Rightarrow> int \<times> um" where
  "drop_user e i s = (if um_db e Drop_user
     then (0, s\<lparr>users := row_drop u_oid i (users s), user_rows := row_drop u_oid i (user_rows s)\<rparr>) else (- 1, s))"

definition drop_group :: "um_env \<Rightarrow> group \<Rightarrow> um \<Rightarrow> int \<times> um" where
  "drop_group e g s =
     (if g_oid g < 100 then (- 2, s)
      else if g_users g \<noteq> {} then (- 3, s)
      else if um_db e Drop_group
        then (0, s\<lparr>groups := row_drop g_oid (g_oid g) (groups s), group_rows := row_drop g_oid (g_oid g) (group_rows s)\<rparr>)
      else (- 1, s))"

subsection \<open>Authentication\<close>

record login =
  l_uid :: int
  l_gid :: int
  l_uname :: string
  l_gname :: string

definition login_of :: "user \<Rightarrow> login" where
  "login_of u = \<lparr>l_uid = u_oid u, l_gid = u_gid u, l_uname = u_name u, l_gname = u_gname u\<rparr>"

text \<open>\<open>trigger\<close> and \<open>wait\<close>: the decision of the driver and its message.  Without a driver the callers do not ask.\<close>

definition driver_accepts :: "um_env \<Rightarrow> string \<Rightarrow> string \<Rightarrow> string \<Rightarrow> string \<Rightarrow> bool" where
  "driver_accepts e driver n pw token = (case authm e of None \<Rightarrow> False | Some d \<Rightarrow> fst (d driver n pw token))"

definition core_authenticate :: "um_env \<Rightarrow> string \<Rightarrow> string \<Rightarrow> bool" where
  "core_authenticate e pw session \<longleftrightarrow> pw = sha1_digest e session"

text \<open>The session is set on the object that is in the pool when the decision has come.\<close>

definition open_session :: "um_env \<Rightarrow> int \<Rightarrow> string \<Rightarrow> um \<Rightarrow> um" where
  "open_session e i token s = (case find_user i s of None \<Rightarrow> s | Some u \<Rightarrow> set_user (set_session e token u) s)"

definition authenticate_internal :: "um_env \<Rightarrow> (um \<Rightarrow> um) \<Rightarrow> user \<Rightarrow> string \<Rightarrow> um \<Rightarrow> login option \<times> um" where
  "authenticate_internal e w u token s =
     (if valid_session (now e) u token then (Some (login_of u), s)
      else if (if auth_driver u = CORE_AUTH then core_authenticate e (password u) token
               else if auth_driver u = PUBLIC_AUTH then False
               else driver_accepts e (auth_driver u) (u_name u) (password u) token)
        then (Some (login_of u), open_session e (u_oid u) token (w s))
      else (None, w s))"

text \<open>A user of a server driver names the user it acts for in its token.\<close>

definition authenticate_server :: "um_env \<Rightarrow> (um \<Rightarrow> um) \<Rightarrow> user \<Rightarrow> string \<Rightarrow> um \<Rightarrow> login option \<times> um" where
  "authenticate_server e w srv token s = (case split_secret token of
     None \<Rightarrow> (None, s)
   | Some (target, second_token) \<Rightarrow> (case find_uname target s of
       None \<Rightarrow> (None, s)
     | Some u \<Rightarrow>
         if valid_session (now e) u second_token then (Some (login_of u), s)
         else if driver_accepts e (auth_driver srv) (u_name srv) (password srv) second_token
           then (Some (login_of u), open_session e (u_oid u) second_token (w s))
         else (None, w s)))"

text \<open>The reply of the driver to the token of an unknown user: the driver, the name and the password of a new one.\<close>

definition driver_reply :: "string \<Rightarrow> (string \<times> string \<times> string) option" where
  "driver_reply message =
     (let a = dropWhile is_space message; driver_name = takeWhile (\<lambda>c. \<not> is_space c) a;
          b = dropWhile is_space (dropWhile (\<lambda>c. \<not> is_space c) a); mad_name = takeWhile (\<lambda>c. \<not> is_space c) b;
          c = dropWhile is_space (dropWhile (\<lambda>c. \<not> is_space c) b)
      in if driver_name = [] \<or> mad_name = [] \<or> c = [] then None
         else Some (driver_name, mad_name, takeWhile (\<lambda>c. c \<noteq> CHR 0x0A) c))"

definition authenticate_external ::
  "um_env \<Rightarrow> (um \<Rightarrow> um) \<Rightarrow> string \<Rightarrow> string \<Rightarrow> um \<Rightarrow> login option \<times> um" where
  "authenticate_external e w n token s = (case authm e of
     None \<Rightarrow> (None, s)
   | Some d \<Rightarrow> (case d DEFAULT_AUTH n ''-'' token of (accepted, message) \<Rightarrow>
       if \<not> accepted then (None, w s)
       else (case driver_reply message of
          None \<Rightarrow> (None, w s)
        | Some (driver_name, mad_name, mad_pass) \<Rightarrow>
            (case user_allocate e USERS_ID mad_name USERS_NAME mad_pass driver_name True (w s) of
               ((rc, i, err), s') \<Rightarrow>
                 if i = - 1 then (None, s')
                 else (Some \<lparr>l_uid = i, l_gid = USERS_ID, l_uname = mad_name, l_gname = USERS_NAME\<rparr>, s')))))"

text \<open>\<open>UserPool::authenticate\<close>: who the request comes from.  \<open>None\<close>: the call is answered by an error.\<close>

definition authenticate :: "um_env \<Rightarrow> (um \<Rightarrow> um) \<Rightarrow> string \<Rightarrow> um \<Rightarrow> login option \<times> um" where
  "authenticate e w session s = (case split_secret session of
     None \<Rightarrow> (None, s)
   | Some (uname, token) \<Rightarrow> (case find_uname uname s of
       Some u \<Rightarrow> if server_auth (auth_driver u) then authenticate_server e w u token s
                 else authenticate_internal e w u token s
     | None \<Rightarrow> authenticate_external e w uname token s))"

subsection \<open>The requests\<close>

datatype um_error = E_AUTHORIZATION | E_NO_EXISTS | E_XML_RPC_API | E_INTERNAL

datatype um_answer = Answer int | Refused um_error

definition user_perms :: "user \<Rightarrow> permissions" where
  "user_perms u = \<lparr>obj_type = T_USER, p_oid = u_oid u, p_uid = u_oid u, p_gid = u_gid u, owner_u = 1, owner_m = 1,
     owner_a = 0, group_u = 0, group_m = 0, group_a = 0, other_u = 0, other_m = 0, other_a = 0\<rparr>"

definition group_perms :: "group \<Rightarrow> permissions" where
  "group_perms g = \<lparr>obj_type = T_GROUP, p_oid = g_oid g, p_uid = 0, p_gid = g_oid g, owner_u = 1, owner_m = 1,
     owner_a = 0, group_u = 1, group_m = 0, group_a = 0, other_u = 0, other_m = 0, other_a = 0\<rparr>"

text \<open>No object yet (\<open>add_create_auth\<close>), or a negative identifier.\<close>

definition no_perms :: "ObjectType \<Rightarrow> int \<Rightarrow> permissions" where
  "no_perms t owner = \<lparr>obj_type = t, p_oid = - 1, p_uid = owner, p_gid = - 1, owner_u = 1, owner_m = 1,
     owner_a = 0, group_u = 0, group_m = 0, group_a = 0, other_u = 0, other_m = 0, other_a = 0\<rparr>"

definition um_authorize :: "um_env \<Rightarrow> login \<Rightarrow> (permissions \<times> Operation) list \<Rightarrow> bool" where
  "um_authorize e att auths =
     (let self_authorize = list_all (\<lambda>(p, op). add_auth (l_uid att) (l_gid att) p op (acl e)) auths
      in case authz e of None \<Rightarrow> self_authorize | Some d \<Rightarrow> d (l_uid att) auths self_authorize)"

definition may :: "um_env \<Rightarrow> login \<Rightarrow> (permissions \<times> Operation) list \<Rightarrow> bool" where
  "may e att auths \<longleftrightarrow> l_uid att = 0 \<or> um_authorize e att auths"

text \<open>\<open>basic_authorization\<close> on a user, and \<open>delete_authorization\<close>, which looks up every identifier.\<close>

definition user_refusal :: "um_env \<Rightarrow> login \<Rightarrow> Operation \<Rightarrow> int \<Rightarrow> um \<Rightarrow> um_error option" where
  "user_refusal e att op i s =
     (if l_uid att = 0 then None
      else if i < 0 then (if um_authorize e att [(no_perms T_USER (- 1), op)] then None else Some E_AUTHORIZATION)
      else case find_user i s of None \<Rightarrow> Some E_NO_EXISTS
        | Some u \<Rightarrow> if um_authorize e att [(user_perms u, op)] then None else Some E_AUTHORIZATION)"

definition delete_refusal :: "um_env \<Rightarrow> login \<Rightarrow> permissions option \<Rightarrow> um_error option" where
  "delete_refusal e att p =
     (if l_uid att = 0 then None
      else case p of None \<Rightarrow> Some E_NO_EXISTS
        | Some p \<Rightarrow> if um_authorize e att [(p, ADMIN)] then None else Some E_AUTHORIZATION)"

definition UserAllocate :: "um_env \<Rightarrow> login \<Rightarrow> string \<Rightarrow> string \<Rightarrow> string \<Rightarrow> um \<Rightarrow> um_answer \<times> um" where
  "UserAllocate e att uname passwd driver s =
     (if \<not> may e att [(no_perms T_USER (l_uid att), CREATE)] then (Refused E_AUTHORIZATION, s)
      else let (ugid, ugname) = (if l_gid att = ONEADMIN_ID then (USERS_ID, USERS_NAME) else (l_gid att, l_gname att));
               driver = (if driver = [] then CORE_AUTH else driver)
        in case user_allocate e ugid uname ugname passwd driver True s of
             ((rc, i, err), s') \<Rightarrow> (if rc < 0 then Refused E_INTERNAL else Answer i, s'))"

definition GroupAllocate :: "um_env \<Rightarrow> login \<Rightarrow> string \<Rightarrow> um \<Rightarrow> um_answer \<times> um" where
  "GroupAllocate e att gname s =
     (if \<not> may e att [(no_perms T_GROUP (l_uid att), CREATE)] then (Refused E_AUTHORIZATION, s)
      else case group_allocate e gname s of ((i, err), s') \<Rightarrow> (if i < 0 then Refused E_INTERNAL else Answer i, s'))"

definition change_password :: "um_env \<Rightarrow> string \<Rightarrow> user \<Rightarrow> um \<Rightarrow> int \<times> um" where
  "change_password e new_pass u s =
     (case set_password (if auth_driver u = CORE_AUTH then sha1_digest e new_pass else new_pass) u of
        (rc, u') \<Rightarrow> (rc, if rc = 0 then update_user e u' s else s))"

definition change_auth :: "um_env \<Rightarrow> string \<Rightarrow> string \<Rightarrow> user \<Rightarrow> um \<Rightarrow> int \<times> um" where
  "change_auth e new_auth new_pass u s =
     (case (if new_pass = [] then (0, u)
            else set_password (if new_auth = CORE_AUTH then sha1_digest e new_pass else new_pass) u) of
        (rc, u') \<Rightarrow> if rc = 0 then (0, update_user e (set_auth_driver new_auth u') s) else (rc, s))"

definition user_request ::
  "um_env \<Rightarrow> login \<Rightarrow> Operation \<Rightarrow> int \<Rightarrow> (user \<Rightarrow> um \<Rightarrow> int \<times> um) \<Rightarrow> um \<Rightarrow> um_answer \<times> um" where
  "user_request e att op i user_action s = (case user_refusal e att op i s of
     Some c \<Rightarrow> (Refused c, s)
   | None \<Rightarrow> (case find_user i s of
       None \<Rightarrow> (Refused E_NO_EXISTS, s)
     | Some u \<Rightarrow> (case user_action u s of (rc, s') \<Rightarrow> (if rc < 0 then Refused E_INTERNAL else Answer i, s'))))"

definition UserChangePassword :: "um_env \<Rightarrow> login \<Rightarrow> int \<Rightarrow> string \<Rightarrow> um \<Rightarrow> um_answer \<times> um" where
  "UserChangePassword e att i new_pass = user_request e att MANAGE i (change_password e new_pass)"

definition UserChangeAuth :: "um_env \<Rightarrow> login \<Rightarrow> int \<Rightarrow> string \<Rightarrow> string \<Rightarrow> um \<Rightarrow> um_answer \<times> um" where
  "UserChangeAuth e att i new_auth new_pass = user_request e att ADMIN i (change_auth e new_auth new_pass)"

text \<open>The user moves to another group.  \<open>w\<close>: what others do between its row and the two groups.\<close>

definition leave_group :: "um_env \<Rightarrow> int \<Rightarrow> int \<Rightarrow> um \<Rightarrow> um" where
  "leave_group e gid i s = (case find_group gid s of None \<Rightarrow> s | Some g \<Rightarrow> update_group e (del_user i g) s)"

definition UserChown :: "um_env \<Rightarrow> (um \<Rightarrow> um) \<Rightarrow> login \<Rightarrow> int \<Rightarrow> int \<Rightarrow> um \<Rightarrow> um_answer \<times> um" where
  "UserChown e w att i ngid s =
     (if ngid < 0 then (Refused E_XML_RPC_API, s)
      else case find_user i s of None \<Rightarrow> (Refused E_NO_EXISTS, s)
      | Some u \<Rightarrow> (case find_group ngid s of None \<Rightarrow> (Refused E_NO_EXISTS, s)
      | Some ng \<Rightarrow>
          if \<not> may e att [(user_perms u, MANAGE), (group_perms ng, USE)] then (Refused E_AUTHORIZATION, s)
          else if u_gid u = ngid then (Answer i, s)
          else let s = w (update_user e (u\<lparr>u_gid := ngid, u_gname := g_name ng\<rparr>) s)
            in (case find_group ngid s of
                  None \<Rightarrow> (Refused E_NO_EXISTS, s)
                | Some g \<Rightarrow> (Answer i, leave_group e (u_gid u) i (update_group e (add_user i g) s)))))"

definition UserDelete :: "um_env \<Rightarrow> login \<Rightarrow> int \<Rightarrow> um \<Rightarrow> um_answer \<times> um" where
  "UserDelete e att i s = (case delete_refusal e att (map_option user_perms (find_user i s)) of
     Some c \<Rightarrow> (Refused c, s)
   | None \<Rightarrow> (case find_user i s of
       None \<Rightarrow> (Refused E_NO_EXISTS, s)
     | Some u \<Rightarrow>
         if i = 0 then (Refused E_INTERNAL, s)
         else (case drop_user e i s of (rc, s') \<Rightarrow>
           if rc = 0 then (Answer i, leave_group e (u_gid u) i s') else (Refused E_INTERNAL, s'))))"

definition GroupDelete :: "um_env \<Rightarrow> login \<Rightarrow> int \<Rightarrow> um \<Rightarrow> um_answer \<times> um" where
  "GroupDelete e att i s = (case delete_refusal e att (map_option group_perms (find_group i s)) of
     Some c \<Rightarrow> (Refused c, s)
   | None \<Rightarrow> (case find_group i s of
       None \<Rightarrow> (Refused E_NO_EXISTS, s)
     | Some g \<Rightarrow> (case drop_group e g s of (rc, s') \<Rightarrow> (if rc = 0 then Answer i else Refused E_INTERNAL, s'))))"

subsection \<open>The first start\<close>

text \<open>The constructors of the two pools on an empty database: the groups, the administrator whose name and password are
  in a file, and the user of the servers.  \<open>None\<close>: the daemon does not start.  Groups get identifiers from 100 on.\<close>

definition first_groups :: "group list" where
  "first_groups = [\<lparr>g_oid = ONEADMIN_ID, g_name = ''oneadmin'', g_users = {}\<rparr>,
     \<lparr>g_oid = USERS_ID, g_name = USERS_NAME, g_users = {}\<rparr>]"

definition um_bootstrap :: "um_env \<Rightarrow> string \<Rightarrow> string \<Rightarrow> um option" where
  "um_bootstrap e one_token random = (case split_secret one_token of
     None \<Rightarrow> None
   | Some (one_name, one_pass) \<Rightarrow>
       if one_name = ''serveradmin'' \<or> \<not> um_db e Insert_group then None
       else let s = \<lparr>users = [], groups = first_groups, user_rows = [], group_rows = first_groups, last_uid = - 1, last_gid = 99\<rparr>
         in (case user_allocate e ONEADMIN_ID one_name ''oneadmin'' one_pass CORE_AUTH True s of
               ((_, one_uid, _), s) \<Rightarrow>
             if one_uid \<noteq> 0 then None
             else (case user_allocate e ONEADMIN_ID ''serveradmin'' ''oneadmin'' (sha1_digest e random) ''server_cipher'' True s of
               ((_, server_uid, _), s) \<Rightarrow> if server_uid \<noteq> 1 then None else Some s)))"

subsection \<open>Runs\<close>

text \<open>
  One operation after the other.  The user of a \<open>UserAllocate\<close> is as it was when it was authenticated.  \<open>Reload\<close> is
  the eviction of a user from the cache.
\<close>

inductive um_step :: "um_env \<Rightarrow> um \<Rightarrow> um \<Rightarrow> bool" for e :: um_env where
  Login: "um_step e s (snd (authenticate e id session s))"
| New_user: "find_user (l_uid att) s = Some u \<Longrightarrow> att = login_of u \<Longrightarrow> um_step e s (snd (UserAllocate e att n p d s))"
| New_group: "um_step e s (snd (GroupAllocate e att n s))"
| New_password: "um_step e s (snd (UserChangePassword e att i p s))"
| New_driver: "um_step e s (snd (UserChangeAuth e att i d p s))"
| Move: "um_step e s (snd (UserChown e id att i j s))"
| Delete_user: "um_step e s (snd (UserDelete e att i s))"
| Delete_group: "um_step e s (snd (GroupDelete e att i s))"
| Reload: "um_step e s (reload_user i s)"

text \<open>
  What is fixed in a run: the digest, and an upper bound \<open>vouch\<close> on what the authentication drivers ever accept.  The
  updates of rows succeed; an insertion or a deletion may fail.
\<close>

definition um_env_ok ::
  "(string \<Rightarrow> string) \<Rightarrow> (string \<Rightarrow> string \<Rightarrow> string \<Rightarrow> string \<Rightarrow> bool) \<Rightarrow> um_env \<Rightarrow> bool" where
  "um_env_ok sha vouch e \<longleftrightarrow> sha1_digest e = sha \<and> 0 \<le> now e \<and> um_db e Update_user \<and> (\<forall>i. um_db e (Update_group i)) \<and>
     (\<forall>d n p t. driver_accepts e d n p t \<longrightarrow> vouch d n p t)"

inductive um_run ::
  "(string \<Rightarrow> string) \<Rightarrow> (string \<Rightarrow> string \<Rightarrow> string \<Rightarrow> string \<Rightarrow> bool) \<Rightarrow> um \<Rightarrow> bool"
  for sha :: "string \<Rightarrow> string" and vouch :: "string \<Rightarrow> string \<Rightarrow> string \<Rightarrow> string \<Rightarrow> bool" where
  Start: "um_env_ok sha vouch e \<Longrightarrow> um_bootstrap e one_token random = Some s \<Longrightarrow> um_run sha vouch s"
| Step: "um_run sha vouch s \<Longrightarrow> um_env_ok sha vouch e \<Longrightarrow> um_step e s s' \<Longrightarrow> um_run sha vouch s'"

end
