(* ===== verification/UsersSpec.thy ===== *)
theory UsersSpec
  imports Users
begin

text \<open>
  What holds in every run of users and groups: the groups list exactly the users that are in them, the rows are the
  objects without their sessions, names are unique, and a session is open only for a token that somebody vouched for.
\<close>

subsection \<open>Lists of objects\<close>

lemma row_find_put: "row_find k i (row_put k x xs) = (if i = k x then Some x else row_find k i xs)"
  by (induction xs) (auto simp: row_find_def row_put_def row_drop_def)

lemma row_find_drop: "row_find k i (row_drop k j xs) = (if i = j then None else row_find k i xs)"
  by (induction xs) (auto simp: row_find_def row_drop_def)

lemma row_find_key: "row_find k i xs = Some x \<Longrightarrow> k x = i"
  by (induction xs) (auto simp: row_find_def split: if_splits)

lemma row_find_in: "row_find k i xs = Some x \<Longrightarrow> x \<in> set xs"
  by (induction xs) (auto simp: row_find_def split: if_splits)

lemma row_find_mem:
  assumes "distinct (map k xs)" "x \<in> set xs"
  shows "row_find k (k x) xs = Some x"
  using assms by (induction xs) (auto simp: row_find_def)

lemma set_row_put: "set (row_put k x xs) = insert x {y \<in> set xs. k y \<noteq> k x}"
  by (auto simp: row_put_def row_drop_def)

lemma set_row_drop: "set (row_drop k i xs) = {y \<in> set xs. k y \<noteq> i}"
  by (auto simp: row_drop_def)

lemma distinct_row_drop: "distinct (map k xs) \<Longrightarrow> distinct (map k (row_drop k i xs))"
  by (simp add: row_drop_def distinct_map_filter)

lemma distinct_row_put: "distinct (map k xs) \<Longrightarrow> distinct (map k (row_put k x xs))"
  by (auto simp: row_put_def distinct_row_drop set_row_drop)

lemmas row_simps = row_find_put row_find_drop set_row_put set_row_drop distinct_row_drop distinct_row_put

subsection \<open>The invariant\<close>

definition in_group :: "(int \<Rightarrow> group option) \<Rightarrow> int \<Rightarrow> int \<Rightarrow> bool" where
  "in_group G j i \<longleftrightarrow> (case G j of None \<Rightarrow> False | Some g \<Rightarrow> i \<in> g_users g)"

definition has_gid :: "(int \<Rightarrow> user option) \<Rightarrow> int \<Rightarrow> int \<Rightarrow> bool" where
  "has_gid U i j \<longleftrightarrow> (case U i of None \<Rightarrow> False | Some u \<Rightarrow> u_gid u = j)"

definition members :: "(int \<Rightarrow> user option) \<Rightarrow> (int \<Rightarrow> group option) \<Rightarrow> bool" where
  "members U G \<longleftrightarrow> (\<forall>i j. has_gid U i j \<longleftrightarrow> in_group G j i)"

definition rows_saved :: "um \<Rightarrow> bool" where
  "rows_saved s \<longleftrightarrow> (\<forall>i. row_find u_oid i (user_rows s) = map_option no_session (find_user i s)) \<and>
     (\<forall>j. row_find g_oid j (group_rows s) = find_group j s)"

definition names_ok :: "um \<Rightarrow> bool" where
  "names_ok s \<longleftrightarrow> distinct (map u_oid (users s)) \<and> (\<forall>u \<in> set (users s). name_error (u_name u) = None) \<and>
     (\<forall>u \<in> set (users s). \<forall>v \<in> set (users s). u_name u = u_name v \<longrightarrow> u_oid u = u_oid v)"

text \<open>
  A token proves that a request is from \<open>u\<close> if it is the password of \<open>u\<close>, the driver of \<open>u\<close> vouches for it, or the
  driver of a server does.
\<close>

definition proves ::
  "(string \<Rightarrow> string) \<Rightarrow> (string \<Rightarrow> string \<Rightarrow> string \<Rightarrow> string \<Rightarrow> bool) \<Rightarrow> string \<Rightarrow> user \<Rightarrow> bool" where
  "proves sha vouch token u \<longleftrightarrow> auth_driver u = CORE_AUTH \<and> password u = sha token \<or>
     auth_driver u \<notin> {CORE_AUTH, PUBLIC_AUTH} \<and> vouch (auth_driver u) (u_name u) (password u) token \<or>
     (\<exists>d n p. server_auth d \<and> vouch d n p token)"

definition sessions_ok ::
  "(string \<Rightarrow> string) \<Rightarrow> (string \<Rightarrow> string \<Rightarrow> string \<Rightarrow> string \<Rightarrow> bool) \<Rightarrow> um \<Rightarrow> bool" where
  "sessions_ok sha vouch s \<longleftrightarrow>
     (\<forall>u \<in> set (users s). session_expiration_time u = 0 \<or> proves sha vouch (session_token u) u)"

definition system_groups :: "um \<Rightarrow> bool" where
  "system_groups s \<longleftrightarrow> (\<exists>g. find_group USERS_ID s = Some g)"

definition um_inv ::
  "(string \<Rightarrow> string) \<Rightarrow> (string \<Rightarrow> string \<Rightarrow> string \<Rightarrow> string \<Rightarrow> bool) \<Rightarrow> um \<Rightarrow> bool" where
  "um_inv sha vouch s \<longleftrightarrow> members (\<lambda>i. find_user i s) (\<lambda>j. find_group j s) \<and> rows_saved s \<and> names_ok s \<and>
     sessions_ok sha vouch s \<and> system_groups s"

subsection \<open>Changes of the members\<close>

lemma members_touch:
  assumes "members U G" "U i = Some u" "u_gid u' = u_gid u"
  shows "members (U(i \<mapsto> u')) G"
proof -
  have "has_gid (U(i \<mapsto> u')) = has_gid U" using assms(2,3) by (auto simp: has_gid_def fun_eq_iff)
  with assms(1) show ?thesis by (simp add: members_def)
qed

lemma membersD: "members U G \<Longrightarrow> has_gid U i j \<longleftrightarrow> in_group G j i"
  by (simp add: members_def)

lemma members_group:
  assumes "members U G" "U i = Some u"
  obtains h where "G (u_gid u) = Some h" "i \<in> g_users h"
  using membersD [OF assms(1), of i "u_gid u"] assms(2) that
  by (auto simp: has_gid_def in_group_def split: option.splits)

lemma members_no_user:
  assumes "members U G" "U i = None" "G j = Some g"
  shows "i \<notin> g_users g"
  using membersD [OF assms(1), of i j] assms(2,3) by (auto simp: has_gid_def in_group_def split: option.splits)

lemma members_add:
  assumes "members U G" "U i = None" "G (u_gid u) = Some g"
  shows "members (U(i \<mapsto> u)) (G(u_gid u \<mapsto> add_user i g))"
proof -
  have "has_gid (U(i \<mapsto> u)) k l \<longleftrightarrow> in_group (G(u_gid u \<mapsto> add_user i g)) l k" for k l
    using membersD [OF assms(1), of k l] assms(2,3)
    by (auto simp: has_gid_def in_group_def add_user_def split: option.splits)
  then show ?thesis by (simp add: members_def)
qed

lemma members_move:
  assumes "members U G" "U i = Some u" "G j = Some g" "u_gid u \<noteq> j" "u_gid u' = j" "G (u_gid u) = Some h"
  shows "members (U(i \<mapsto> u')) (G(j \<mapsto> add_user i g, u_gid u \<mapsto> del_user i h))"
proof -
  have "has_gid (U(i \<mapsto> u')) k l \<longleftrightarrow> in_group (G(j \<mapsto> add_user i g, u_gid u \<mapsto> del_user i h)) l k" for k l
    using membersD [OF assms(1), of k l] assms(2-)
    by (auto simp: has_gid_def in_group_def add_user_def del_user_def split: option.splits)
  then show ?thesis by (simp add: members_def)
qed

lemma members_remove:
  assumes "members U G" "U i = Some u" "G (u_gid u) = Some h"
  shows "members (U(i := None)) (G(u_gid u \<mapsto> del_user i h))"
proof -
  have "has_gid (U(i := None)) k l \<longleftrightarrow> in_group (G(u_gid u \<mapsto> del_user i h)) l k" for k l
    using membersD [OF assms(1), of k l] assms(2-)
    by (auto simp: has_gid_def in_group_def del_user_def split: option.splits)
  then show ?thesis by (simp add: members_def)
qed

lemma members_empty_group:
  assumes "members U G" "\<And>i. \<not> in_group G j i" "\<And>i. \<not> in_group (G(j := x)) j i"
  shows "members U (G(j := x))"
proof -
  have "has_gid U k l \<longleftrightarrow> in_group (G(j := x)) l k" for k l
    using assms(1) assms(2) [of k] assms(3) [of k] by (cases "l = j") (auto simp: members_def in_group_def)
  then show ?thesis by (simp add: members_def)
qed

subsection \<open>The operations keep the invariant\<close>

lemma no_session_fields [simp]:
  "u_oid (no_session u) = u_oid u" "u_name (no_session u) = u_name u" "u_gid (no_session u) = u_gid u"
  by (simp_all add: no_session_def)

lemma group_edits [simp]:
  "g_oid (add_user i g) = g_oid g" "g_oid (del_user i g) = g_oid g"
  by (simp_all add: add_user_def del_user_def)

lemma names_valid: "names_ok s \<Longrightarrow> u \<in> set (users s) \<Longrightarrow> name_error (u_name u) = None"
  by (simp add: names_ok_def)

lemma names_unique:
  "names_ok s \<Longrightarrow> u \<in> set (users s) \<Longrightarrow> v \<in> set (users s) \<Longrightarrow> u_name u = u_name v \<Longrightarrow> u_oid u = u_oid v"
  unfolding names_ok_def by blast

lemma names_touch:
  assumes "names_ok s" "find_user (u_oid u') s = Some u" "u_name u' = u_name u"
  shows "names_ok (s\<lparr>users := row_put u_oid u' (users s)\<rparr>)"
proof -
  have u: "u \<in> set (users s)" "u_oid u = u_oid u'"
    using assms(2) by (auto intro: row_find_in dest: row_find_key)
  have old: "\<exists>x0 \<in> set (users s). u_oid x0 = u_oid x \<and> u_name x0 = u_name x"
    if "x \<in> set (row_put u_oid u' (users s))" for x
    using that u assms(3) by (auto simp: set_row_put)
  show ?thesis unfolding names_ok_def
  proof (intro conjI ballI impI)
    show "distinct (map u_oid (users (s\<lparr>users := row_put u_oid u' (users s)\<rparr>)))"
      using assms(1) by (simp add: names_ok_def distinct_row_put)
  next
    fix x assume "x \<in> set (users (s\<lparr>users := row_put u_oid u' (users s)\<rparr>))"
    then have "x \<in> set (row_put u_oid u' (users s))" by simp
    from old [OF this] show "name_error (u_name x) = None" using names_valid [OF assms(1)] by metis
  next
    fix x y
    assume "x \<in> set (users (s\<lparr>users := row_put u_oid u' (users s)\<rparr>))"
      "y \<in> set (users (s\<lparr>users := row_put u_oid u' (users s)\<rparr>))" and same: "u_name x = u_name y"
    then have "x \<in> set (row_put u_oid u' (users s))" "y \<in> set (row_put u_oid u' (users s))" by simp_all
    from old [OF this(1)] old [OF this(2)] show "u_oid x = u_oid y"
      using names_unique [OF assms(1)] same by metis
  qed
qed

lemma inv_touch:
  assumes "um_inv sha vouch s" "find_user (u_oid u') s = Some u" "u_gid u' = u_gid u" "u_name u' = u_name u"
    "session_expiration_time u' = 0 \<or> proves sha vouch (session_token u') u'"
  shows "um_db e Update_user \<Longrightarrow> um_inv sha vouch (update_user e u' s)"
    and "no_session u' = no_session u \<Longrightarrow> um_inv sha vouch (set_user u' s)"
proof -
  have m: "members ((\<lambda>i. find_user i s)(u_oid u' \<mapsto> u')) (\<lambda>j. find_group j s)"
    using assms(1-3) by (intro members_touch) (auto simp: um_inv_def)
  have n: "names_ok (s\<lparr>users := row_put u_oid u' (users s)\<rparr>)"
    using assms(1,2,4) by (intro names_touch) (auto simp: um_inv_def)
  have "names_ok (update_user e u' s) = names_ok (s\<lparr>users := row_put u_oid u' (users s)\<rparr>)"
    "names_ok (set_user u' s) = names_ok (s\<lparr>users := row_put u_oid u' (users s)\<rparr>)"
    by (simp_all add: names_ok_def update_user_def set_user_def Let_def)
  with m [unfolded fun_upd_def] n assms show "um_db e Update_user \<Longrightarrow> um_inv sha vouch (update_user e u' s)"
    and "no_session u' = no_session u \<Longrightarrow> um_inv sha vouch (set_user u' s)"
    by (auto simp: um_inv_def update_user_def set_user_def Let_def rows_saved_def row_simps
        sessions_ok_def system_groups_def)
qed

lemma proves_name: "proves sha vouch t (u\<lparr>session_token := x, session_expiration_time := y\<rparr>) = proves sha vouch t u"
  by (simp add: proves_def)

lemma inv_open_session:
  assumes "um_inv sha vouch s" "\<And>u. find_user i s = Some u \<Longrightarrow> proves sha vouch token u"
  shows "um_inv sha vouch (open_session e i token s)"
proof (cases "find_user i s")
  case None
  with assms(1) show ?thesis by (simp add: open_session_def)
next
  case (Some u)
  then have "u_oid u = i" by (rule row_find_key)
  with Some assms inv_touch(2) [OF assms(1), of "set_session e token u" u] show ?thesis
    by (simp add: open_session_def set_session_def no_session_def proves_name)
qed

lemma inv_reload:
  assumes "um_inv sha vouch s"
  shows "um_inv sha vouch (reload_user i s)"
proof (cases "row_find u_oid i (user_rows s)")
  case None
  with assms show ?thesis by (simp add: reload_user_def)
next
  case (Some v)
  then obtain u where u: "find_user i s = Some u" "v = no_session u"
    using assms by (auto simp: um_inv_def rows_saved_def)
  then have "u_oid u = i" by (auto dest: row_find_key)
  with u Some assms inv_touch(2) [OF assms, of v u] show ?thesis
    by (simp add: reload_user_def no_session_def)
qed

lemma inv_counters [simp]:
  "um_inv sha vouch (s\<lparr>last_uid := i\<rparr>) = um_inv sha vouch s"
  "um_inv sha vouch (s\<lparr>last_gid := i\<rparr>) = um_inv sha vouch s"
  by (simp_all add: um_inv_def rows_saved_def names_ok_def sessions_ok_def system_groups_def)

lemma names_new:
  assumes "names_ok s" "find_uname (u_name u) s = None" "name_error (u_name u) = None"
  shows "names_ok (s\<lparr>users := row_put u_oid u (users s)\<rparr>)"
proof -
  have new: "u_name v \<noteq> u_name u" if "v \<in> set (users s)" for v
    using assms(2) that by (auto simp: find_uname_def find_None_iff)
  show ?thesis unfolding names_ok_def
  proof (intro conjI ballI impI)
    show "distinct (map u_oid (users (s\<lparr>users := row_put u_oid u (users s)\<rparr>)))"
      using assms(1) by (simp add: names_ok_def distinct_row_put)
  next
    fix x assume "x \<in> set (users (s\<lparr>users := row_put u_oid u (users s)\<rparr>))"
    then show "name_error (u_name x) = None"
      using assms(3) names_valid [OF assms(1)] by (auto simp: set_row_put)
  next
    fix x y
    assume "x \<in> set (users (s\<lparr>users := row_put u_oid u (users s)\<rparr>))"
      "y \<in> set (users (s\<lparr>users := row_put u_oid u (users s)\<rparr>))" and same: "u_name x = u_name y"
    then have "x = u \<and> y = u \<or> x \<in> set (users s) \<and> y \<in> set (users s)"
      using new [of x] new [of y] by (auto simp: set_row_put)
    then show "u_oid x = u_oid y" using names_unique [OF assms(1) _ _ same] by blast
  qed
qed

text \<open>What the new user is, if there is one.\<close>

definition user_created :: "um \<Rightarrow> int \<Rightarrow> string \<Rightarrow> int \<Rightarrow> um \<Rightarrow> bool" where
  "user_created s i n gid s' \<longleftrightarrow> find_uname n s = None \<and> find_user i s = None \<and>
     (\<exists>u. find_user i s' = Some u \<and> u_name u = n \<and> u_gid u = gid \<and> session_expiration_time u = 0)"

lemma inv_new_user:
  assumes inv: "um_inv sha vouch s" and g: "find_group (u_gid u) s = Some g" and "find_uname (u_name u) s = None"
    "name_error (u_name u) = None" "find_user (u_oid u) s = None" "no_session u = u" "um_db e (Update_group (u_gid u))"
  shows "um_inv sha vouch (update_group e (add_user (u_oid u) g)
    (s\<lparr>users := row_put u_oid u (users s), user_rows := row_put u_oid u (user_rows s), last_uid := i\<rparr>))"
    (is "um_inv sha vouch ?s")
proof -
  have gg: "g_oid g = u_gid u" using g by (rule row_find_key)
  have st: "users ?s = row_put u_oid u (users s)" "user_rows ?s = row_put u_oid u (user_rows s)"
    "groups ?s = row_put g_oid (add_user (u_oid u) g) (groups s)"
    "group_rows ?s = row_put g_oid (add_user (u_oid u) g) (group_rows s)"
    using assms(7) gg by (simp_all add: update_group_def set_group_def Let_def)
  have "members ((\<lambda>k. find_user k s)(u_oid u \<mapsto> u)) ((\<lambda>j. find_group j s)(u_gid u \<mapsto> add_user (u_oid u) g))"
    using members_add [of "\<lambda>k. find_user k s" "\<lambda>j. find_group j s" "u_oid u" u g] assms by (simp add: um_inv_def)
  then have "members (\<lambda>k. find_user k ?s) (\<lambda>j. find_group j ?s)"
    using gg by (simp add: st row_simps fun_upd_def)
  moreover have "names_ok ?s = names_ok (s\<lparr>users := row_put u_oid u (users s)\<rparr>)"
    by (simp add: names_ok_def st)
  then have "names_ok ?s" using names_new [of s u] inv assms(3,4) by (simp add: um_inv_def)
  moreover have "rows_saved ?s"
    using inv assms(6) by (simp add: um_inv_def rows_saved_def st row_simps)
  moreover have "session_expiration_time u = 0"
    using arg_cong [OF assms(6), of session_expiration_time] by (simp add: no_session_def)
  then have "sessions_ok sha vouch ?s"
    using inv by (auto simp: um_inv_def sessions_ok_def st set_row_put)
  moreover have "system_groups ?s"
    using inv by (auto simp: um_inv_def system_groups_def st row_simps)
  ultimately show ?thesis by (simp add: um_inv_def)
qed

lemma inv_user_allocate:
  assumes inv: "um_inv sha vouch s" and env: "um_env_ok sha vouch e" and g: "find_group gid s = Some g"
    and run: "user_allocate e gid n gn p d en s = ((rc, i, err), s')"
  shows "um_inv sha vouch s'" "i \<noteq> - 1 \<Longrightarrow> user_created s i n gid s' \<and> rc = i"
proof -
  let ?i = "next_id (last_uid s)"
  let ?d = "if d = [] then CORE_AUTH else d"
  let ?u = "\<lparr>u_oid = ?i, u_name = n, u_gid = gid, u_gname = gn,
    password = if ?d = CORE_AUTH then sha1_digest e p else p, auth_driver = ?d, enabled = en,
    session_token = '''', session_expiration_time = 0\<rparr>"
  let ?s = "s\<lparr>users := row_put u_oid ?u (users s), user_rows := row_put u_oid ?u (user_rows s), last_uid := ?i\<rparr>"
  let ?ok = "pass_error p = None \<and> name_error n = None \<and> find_uname n s = None \<and>
    row_find u_oid ?i (user_rows s) = None \<and> um_db e Insert_user"
  have kept: "um_inv sha vouch s'" "i = - 1" if "\<not> ?ok"
    using that run inv by (auto simp: user_allocate_def Let_def split: option.splits if_splits)
  have made: "s' = update_group e (add_user ?i g) ?s" "i = ?i" "rc = ?i" if "?ok"
    using that run g by (auto simp: user_allocate_def Let_def split: option.splits if_splits)
  have free: "find_user ?i s = None" if "?ok"
    using that inv by (auto simp: um_inv_def rows_saved_def)
  have "um_inv sha vouch (update_group e (add_user ?i g) ?s)" if ok: "?ok"
    using inv_new_user [OF inv, of ?u g e ?i] g ok free [OF ok] env
    by (simp add: no_session_def um_env_ok_def)
  with kept made show "um_inv sha vouch s'" by blast
  show "user_created s i n gid s' \<and> rc = i" if "i \<noteq> - 1"
  proof -
    have ok: ?ok using kept(2) that by blast
    with made [OF ok] free [OF ok] show ?thesis
      by (simp add: user_created_def update_group_def set_group_def Let_def row_simps)
  qed
qed

lemma inv_user_action:
  assumes "um_inv sha vouch s" "um_env_ok sha vouch e" "find_user i s = Some u"
  shows "um_inv sha vouch (snd (change_password e p u s))" "um_inv sha vouch (snd (change_auth e d p u s))"
proof -
  have u: "u_oid u = i" using assms(3) by (rule row_find_key)
  have put: "um_inv sha vouch (update_user e u' s)"
    if "u_oid u' = i" "u_gid u' = u_gid u" "u_name u' = u_name u" "session_expiration_time u' = 0" for u'
    using that assms by (intro inv_touch(1) [OF assms(1), of u' u]) (auto simp: um_env_ok_def)
  show "um_inv sha vouch (snd (change_password e p u s))"
    using u assms(1) by (auto simp: change_password_def set_password_def invalidate_session_def split: prod.split intro!: put)
  show "um_inv sha vouch (snd (change_auth e d p u s))"
    using u assms(1) by (auto simp: change_auth_def set_password_def set_auth_driver_def invalidate_session_def
        split: prod.split intro!: put)
qed

lemma inv_user_request:
  assumes "um_inv sha vouch s" "\<And>u. find_user i s = Some u \<Longrightarrow> um_inv sha vouch (snd (act u s))"
  shows "um_inv sha vouch (snd (user_request e att op i act s))"
  using assms by (auto simp: user_request_def split: option.split prod.split)

lemma leave_group_fields [simp]:
  "users (leave_group e j i s) = users s" "user_rows (leave_group e j i s) = user_rows s"
  by (auto simp: leave_group_def update_group_def set_group_def Let_def split: option.split)

lemma update_group_fields [simp]:
  "users (update_group e g s) = users s" "user_rows (update_group e g s) = user_rows s"
  "groups (update_group e g s) = row_put g_oid g (groups s)"
  by (auto simp: update_group_def set_group_def Let_def)

lemma group_rows_update:
  "um_db e (Update_group (g_oid g)) \<Longrightarrow> group_rows (update_group e g s) = row_put g_oid g (group_rows s)"
  by (simp add: update_group_def set_group_def Let_def)

lemma inv_same_users:
  assumes "um_inv sha vouch s" "users s' = users s" "user_rows s' = user_rows s"
    "members (\<lambda>i. find_user i s) (\<lambda>j. find_group j s')" "\<And>j. row_find g_oid j (group_rows s') = find_group j s'"
    "system_groups s'"
  shows "um_inv sha vouch s'"
proof -
  have "names_ok s' = names_ok s" by (simp add: names_ok_def assms(2))
  moreover have "rows_saved s'" using assms(1,2,3,5) by (simp add: um_inv_def rows_saved_def)
  moreover have "sessions_ok sha vouch s' = sessions_ok sha vouch s" by (simp add: sessions_ok_def assms(2))
  ultimately show ?thesis using assms(1,2,4,6) by (simp add: um_inv_def)
qed

lemma inv_group_allocate:
  assumes inv: "um_inv sha vouch s"
  shows "um_inv sha vouch (snd (group_allocate e n s))"
proof -
  let ?i = "next_id (last_gid s)"
  let ?g = "\<lparr>g_oid = ?i, g_name = n, g_users = {}\<rparr>"
  let ?s = "s\<lparr>groups := row_put g_oid ?g (groups s), group_rows := row_put g_oid ?g (group_rows s), last_gid := ?i\<rparr>"
  have "um_inv sha vouch ?s" if "row_find g_oid ?i (group_rows s) = None"
  proof (rule inv_same_users [OF inv])
    have "find_group ?i s = None" using that inv by (simp add: um_inv_def rows_saved_def)
    then have "members (\<lambda>i. find_user i s) ((\<lambda>j. find_group j s)(?i := Some ?g))"
      using inv by (intro members_empty_group) (auto simp: um_inv_def in_group_def)
    then show "members (\<lambda>i. find_user i s) (\<lambda>j. find_group j ?s)" by (simp add: row_simps fun_upd_def)
    show "row_find g_oid j (group_rows ?s) = find_group j ?s" for j
      using inv by (simp add: um_inv_def rows_saved_def row_simps)
    show "system_groups ?s" using inv by (simp add: um_inv_def system_groups_def row_simps)
  qed simp_all
  with inv show ?thesis by (auto simp: group_allocate_def Let_def split: option.split)
qed

lemma inv_drop_group:
  assumes inv: "um_inv sha vouch s" and g: "find_group j s = Some g"
  shows "um_inv sha vouch (snd (drop_group e g s))"
proof -
  have gg: "g_oid g = j" using g by (rule row_find_key)
  let ?s = "s\<lparr>groups := row_drop g_oid j (groups s), group_rows := row_drop g_oid j (group_rows s)\<rparr>"
  have "um_inv sha vouch ?s" if "100 \<le> j" "g_users g = {}"
  proof (rule inv_same_users [OF inv])
    have "members (\<lambda>i. find_user i s) ((\<lambda>j. find_group j s)(j := None))"
      using inv that g by (intro members_empty_group) (auto simp: um_inv_def in_group_def)
    then show "members (\<lambda>i. find_user i s) (\<lambda>j. find_group j ?s)" by (simp add: row_simps fun_upd_def)
    show "row_find g_oid k (group_rows ?s) = find_group k ?s" for k
      using inv by (simp add: um_inv_def rows_saved_def row_simps)
    show "system_groups ?s" using inv that by (simp add: um_inv_def system_groups_def row_simps USERS_ID_def)
  qed simp_all
  with inv gg show ?thesis by (simp add: drop_group_def)
qed

lemma inv_with_users:
  assumes inv: "um_inv sha vouch s" and "names_ok s'" "sessions_ok sha vouch s'"
    "members (\<lambda>i. find_user i s') (\<lambda>j. find_group j s')" "rows_saved s'" "system_groups s'"
  shows "um_inv sha vouch s'"
  using assms by (simp add: um_inv_def)

lemma inv_move:
  assumes inv: "um_inv sha vouch s" and env: "um_env_ok sha vouch e" and u: "find_user i s = Some u"
    and g: "find_group j s = Some g" and j: "u_gid u \<noteq> j"
  shows "um_inv sha vouch (leave_group e (u_gid u) i (update_group e (add_user i g)
    (update_user e (u\<lparr>u_gid := j, u_gname := n\<rparr>) s)))" (is "um_inv sha vouch ?s")
proof -
  let ?u = "u\<lparr>u_gid := j, u_gname := n\<rparr>"
  have keys: "u_oid u = i" "g_oid g = j" using u g by (auto dest: row_find_key)
  obtain h where h: "find_group (u_gid u) s = Some h"
    using inv u members_group [of "\<lambda>i. find_user i s" "\<lambda>j. find_group j s" i u] by (auto simp: um_inv_def)
  have hk: "g_oid h = u_gid u" using h by (rule row_find_key)
  have w: "um_db e Update_user" "\<And>k. um_db e (Update_group k)" using env by (simp_all add: um_env_ok_def)
  have us: "groups (update_user e ?u s) = groups s" "group_rows (update_user e ?u s) = group_rows s"
    "users (update_user e ?u s) = row_put u_oid ?u (users s)"
    "user_rows (update_user e ?u s) = row_put u_oid (no_session ?u) (user_rows s)"
    using w by (simp_all add: update_user_def set_user_def Let_def)
  have st: "groups ?s = row_put g_oid (del_user i h) (row_put g_oid (add_user i g) (groups s))"
    "group_rows ?s = row_put g_oid (del_user i h) (row_put g_oid (add_user i g) (group_rows s))"
    using w h keys j hk
    by (simp_all add: leave_group_def us row_simps group_rows_update)
  note st = st us
  show ?thesis
  proof (rule inv_with_users [OF inv])
    have "names_ok ?s = names_ok (s\<lparr>users := row_put u_oid ?u (users s)\<rparr>)" by (simp add: names_ok_def st)
    moreover have "names_ok (s\<lparr>users := row_put u_oid ?u (users s)\<rparr>)"
      using inv u keys by (intro names_touch [of s ?u u]) (auto simp: um_inv_def)
    ultimately show "names_ok ?s" by simp
    have "u \<in> set (users s)" using u by (rule row_find_in)
    then show "sessions_ok sha vouch ?s"
      using inv by (auto simp: um_inv_def sessions_ok_def st set_row_put proves_def)
    have "members ((\<lambda>i. find_user i s)(i \<mapsto> ?u)) ((\<lambda>j. find_group j s)(j \<mapsto> add_user i g, u_gid u \<mapsto> del_user i h))"
      using inv u g j h by (intro members_move) (auto simp: um_inv_def)
    then show "members (\<lambda>k. find_user k ?s) (\<lambda>k. find_group k ?s)"
      using keys hk by (simp add: st row_simps fun_upd_def cong: if_cong)
    show "rows_saved ?s" using inv by (simp add: um_inv_def rows_saved_def st row_simps cong: if_cong)
    show "system_groups ?s" using inv by (simp add: um_inv_def system_groups_def st row_simps)
  qed
qed

lemma inv_remove:
  assumes inv: "um_inv sha vouch s" and env: "um_env_ok sha vouch e" and u: "find_user i s = Some u"
    and d: "drop_user e i s = (0, t)"
  shows "um_inv sha vouch (leave_group e (u_gid u) i t)" (is "um_inv sha vouch ?s")
proof -
  obtain h where h: "find_group (u_gid u) s = Some h"
    using inv u members_group [of "\<lambda>i. find_user i s" "\<lambda>j. find_group j s" i u] by (auto simp: um_inv_def)
  have hk: "g_oid h = u_gid u" using h by (rule row_find_key)
  have t: "t = s\<lparr>users := row_drop u_oid i (users s), user_rows := row_drop u_oid i (user_rows s)\<rparr>"
    using d by (simp add: drop_user_def split: if_splits)
  have st: "users t = row_drop u_oid i (users s)" "user_rows t = row_drop u_oid i (user_rows s)"
    "groups ?s = row_put g_oid (del_user i h) (groups s)" "group_rows ?s = row_put g_oid (del_user i h) (group_rows s)"
    using h env by (simp_all add: t leave_group_def group_rows_update um_env_ok_def)
  show ?thesis
  proof (rule inv_with_users [OF inv])
    show "names_ok ?s" unfolding names_ok_def
    proof (intro conjI ballI impI)
      show "distinct (map u_oid (users ?s))" using inv by (simp add: um_inv_def names_ok_def st distinct_row_drop)
      have n: "names_ok s" using inv by (simp add: um_inv_def)
      show "name_error (u_name x) = None" if "x \<in> set (users ?s)" for x
        using that names_valid [OF n] by (simp add: st set_row_drop)
      show "u_oid x = u_oid y" if "x \<in> set (users ?s)" "y \<in> set (users ?s)" "u_name x = u_name y" for x y
        using that(1,2) names_unique [OF n _ _ that(3)] by (simp add: st set_row_drop)
    qed
    show "sessions_ok sha vouch ?s" using inv by (auto simp: um_inv_def sessions_ok_def st set_row_drop)
    have "members ((\<lambda>k. find_user k s)(i := None)) ((\<lambda>k. find_group k s)(u_gid u \<mapsto> del_user i h))"
      using inv u h by (intro members_remove) (auto simp: um_inv_def)
    then show "members (\<lambda>k. find_user k ?s) (\<lambda>k. find_group k ?s)" using hk by (simp add: st row_simps fun_upd_def)
    show "rows_saved ?s" using inv by (simp add: um_inv_def rows_saved_def st row_simps)
    show "system_groups ?s" using inv by (simp add: um_inv_def system_groups_def st row_simps)
  qed
qed

lemma inv_UserChown:
  assumes "um_inv sha vouch s" "um_env_ok sha vouch e"
  shows "um_inv sha vouch (snd (UserChown e id att i j s))"
proof -
  have "find_group j (update_user e u s) = find_group j s" for u
    by (simp add: update_user_def set_user_def Let_def)
  then show ?thesis
    using assms(1) inv_move [OF assms] by (auto simp: UserChown_def Let_def split: option.split)
qed

lemma inv_UserDelete:
  assumes "um_inv sha vouch s" "um_env_ok sha vouch e"
  shows "um_inv sha vouch (snd (UserDelete e att i s))"
proof (cases "drop_user e i s")
  case (Pair rc t)
  have "t = s" if "rc \<noteq> 0" using that Pair by (simp add: drop_user_def split: if_splits)
  with Pair show ?thesis
    using assms(1) inv_remove [OF assms] by (auto simp: UserDelete_def split: option.split)
qed

lemma inv_GroupDelete:
  assumes "um_inv sha vouch s"
  shows "um_inv sha vouch (snd (GroupDelete e att i s))"
  using assms inv_drop_group [OF assms, of i _ e]
  by (auto simp: GroupDelete_def split: option.split prod.split)

lemma inv_UserAllocate:
  assumes "um_inv sha vouch s" "um_env_ok sha vouch e" "find_user (l_uid att) s = Some u" "att = login_of u"
  shows "um_inv sha vouch (snd (UserAllocate e att n p d s))"
proof -
  obtain g where "find_group (l_gid att) s = Some g"
    using assms members_group [of "\<lambda>i. find_user i s" "\<lambda>j. find_group j s" "l_uid att" u]
    by (auto simp: um_inv_def login_of_def)
  moreover obtain h where "find_group USERS_ID s = Some h"
    using assms(1) by (auto simp: um_inv_def system_groups_def)
  ultimately have "um_inv sha vouch (snd (user_allocate e k n gn p x en s))" if "k \<in> {USERS_ID, l_gid att}" for k gn x en
    using that inv_user_allocate(1) [OF assms(1,2)] by (metis empty_iff insert_iff prod.collapse)
  with assms(1) show ?thesis by (simp add: UserAllocate_def Let_def case_prod_beta)
qed

subsection \<open>Authentication\<close>

lemma split_secret_eq: "split_secret x = Some (n, t) \<Longrightarrow> x = n @ CHR '':'' # t"
proof -
  assume "split_secret x = Some (n, t)"
  then obtain c where "n = takeWhile (\<lambda>c. c \<noteq> CHR '':'') x" and d: "dropWhile (\<lambda>c. c \<noteq> CHR '':'') x = c # t"
    by (auto simp: split_secret_def split: list.splits)
  moreover have "c = CHR '':''" using d hd_dropWhile [of "\<lambda>c. c \<noteq> CHR '':''" x] by auto
  ultimately show ?thesis by (metis takeWhile_dropWhile_id)
qed

lemma find_uname_in: "find_uname n s = Some u \<Longrightarrow> u \<in> set (users s) \<and> u_name u = n"
  by (auto simp: find_uname_def find_Some_iff)

lemma find_uname_id:
  assumes "um_inv sha vouch s" "find_uname n s = Some u"
  shows "find_user (u_oid u) s = Some u"
  using assms find_uname_in [OF assms(2)] by (auto simp: um_inv_def names_ok_def intro: row_find_mem)

text \<open>The login \<open>l\<close> of a request: a known user for whom the token is a proof, given by the user or by a server, or a new
  user whom the default driver accepts.\<close>

definition admitted ::
  "(string \<Rightarrow> string) \<Rightarrow> (string \<Rightarrow> string \<Rightarrow> string \<Rightarrow> string \<Rightarrow> bool) \<Rightarrow> um \<Rightarrow> string \<Rightarrow> login \<Rightarrow> um \<Rightarrow> bool" where
  "admitted sha vouch s session l s' \<longleftrightarrow>
     (\<exists>u t. find_user (l_uid l) s = Some u \<and> l = login_of u \<and> proves sha vouch t u \<and>
        (session = u_name u @ CHR '':'' # t \<or>
         (\<exists>srv. find_uname (u_name srv) s = Some srv \<and> server_auth (auth_driver srv) \<and>
            session = u_name srv @ CHR '':'' # u_name u @ CHR '':'' # t))) \<or>
     (\<exists>n t u. session = n @ CHR '':'' # t \<and> find_uname n s = None \<and> vouch DEFAULT_AUTH n ''-'' t \<and>
        find_user (l_uid l) s = None \<and> find_user (l_uid l) s' = Some u \<and> l_gid l = USERS_ID \<and> u_gid u = USERS_ID \<and>
        l_uname l = u_name u)"

text \<open>Other threads may act while the driver decides: here they do nothing.\<close>

lemma session_proves:
  assumes "um_inv sha vouch s" "u \<in> set (users s)" "valid_session (now e) u token" "0 \<le> now e"
  shows "proves sha vouch token u"
  using assms by (auto simp: um_inv_def sessions_ok_def valid_session_def)

lemma internal_ok:
  assumes inv: "um_inv sha vouch s" and env: "um_env_ok sha vouch e" and u: "find_uname n s = Some u"
    and run: "authenticate_internal e id u token s = (r, s')"
  shows "um_inv sha vouch s'" "r = Some l \<Longrightarrow> l = login_of u \<and> proves sha vouch token u"
proof -
  have u': "find_user (u_oid u) s = Some u" by (rule find_uname_id [OF inv u])
  have t: "0 \<le> now e" using env by (simp add: um_env_ok_def)
  let ?asked = "if auth_driver u = CORE_AUTH then core_authenticate e (password u) token
    else if auth_driver u = PUBLIC_AUTH then False else driver_accepts e (auth_driver u) (u_name u) (password u) token"
  have p: "proves sha vouch token u" if ?asked
    using that env by (auto simp: proves_def core_authenticate_def um_env_ok_def split: if_splits)
  have "um_inv sha vouch (open_session e (u_oid u) token s)" if ?asked
    using inv_open_session [OF inv, of "u_oid u" token e] u' p [OF that] by simp
  then show "um_inv sha vouch s'"
    using run inv by (auto simp: authenticate_internal_def split: if_splits)
  show "l = login_of u \<and> proves sha vouch token u" if "r = Some l"
  proof (cases "valid_session (now e) u token")
    case True
    then show ?thesis using run that session_proves [OF inv _ True t] find_uname_in [OF u]
      by (simp add: authenticate_internal_def)
  next
    case False
    then show ?thesis using run that p by (auto simp: authenticate_internal_def split: if_splits)
  qed
qed

lemma server_ok:
  assumes inv: "um_inv sha vouch s" and env: "um_env_ok sha vouch e" and srv: "server_auth (auth_driver srv)"
    and run: "authenticate_server e id srv token s = (r, s')"
  shows "um_inv sha vouch s'"
    "r = Some l \<Longrightarrow> \<exists>u t. token = u_name u @ CHR '':'' # t \<and> find_user (u_oid u) s = Some u \<and> l = login_of u \<and>
       proves sha vouch t u"
proof -
  have t: "0 \<le> now e" using env by (simp add: um_env_ok_def)
  have p: "proves sha vouch t u" if "driver_accepts e (auth_driver srv) (u_name srv) (password srv) t" for t u
  proof -
    have "vouch (auth_driver srv) (u_name srv) (password srv) t" using that env unfolding um_env_ok_def by blast
    then show ?thesis using srv unfolding proves_def by blast
  qed
  show "um_inv sha vouch s'"
    using run inv inv_open_session [OF inv p]
    by (auto simp: authenticate_server_def split: option.splits if_splits)
  show "\<exists>u t. token = u_name u @ CHR '':'' # t \<and> find_user (u_oid u) s = Some u \<and> l = login_of u \<and>
       proves sha vouch t u" if r: "r = Some l"
  proof -
    obtain n t u where n: "split_secret token = Some (n, t)" "find_uname n s = Some u"
      and l: "l = login_of u" "valid_session (now e) u t \<or> driver_accepts e (auth_driver srv) (u_name srv) (password srv) t"
      using run r by (auto simp: authenticate_server_def split: option.splits if_splits)
    have "u \<in> set (users s)" "u_name u = n" using find_uname_in [OF n(2)] by simp_all
    with l session_proves [OF inv _ _ t, of u t] p [of t u] have "proves sha vouch t u" by blast
    with n l \<open>u_name u = n\<close> split_secret_eq [OF n(1)] find_uname_id [OF inv n(2)] show ?thesis by blast
  qed
qed

lemma external_ok:
  assumes inv: "um_inv sha vouch s" and env: "um_env_ok sha vouch e"
    and run: "authenticate_external e id n token s = (r, s')"
  shows "um_inv sha vouch s'"
    "r = Some l \<Longrightarrow> vouch DEFAULT_AUTH n ''-'' token \<and> find_user (l_uid l) s = None \<and> l_gid l = USERS_ID \<and>
       (\<exists>u. find_user (l_uid l) s' = Some u \<and> u_gid u = USERS_ID \<and> l_uname l = u_name u)"
proof -
  obtain g where g: "find_group USERS_ID s = Some g" using inv by (auto simp: um_inv_def system_groups_def)
  note new = inv_user_allocate [OF inv env g]
  show "um_inv sha vouch s'"
    using run inv new(1)
    by (auto simp: authenticate_external_def split: option.splits prod.splits if_splits)
  assume r: "r = Some l"
  obtain d m dn mn mp rc i err where d: "authm e = Some d" "d DEFAULT_AUTH n ''-'' token = (True, m)"
    "driver_reply m = Some (dn, mn, mp)"
    and a: "user_allocate e USERS_ID mn USERS_NAME mp dn True s = ((rc, i, err), s')" "i \<noteq> - 1"
      "l = \<lparr>l_uid = i, l_gid = USERS_ID, l_uname = mn, l_gname = USERS_NAME\<rparr>"
    using run r by (auto simp: authenticate_external_def split: option.splits prod.splits if_splits)
  have "vouch DEFAULT_AUTH n ''-'' token"
    using d env by (auto simp: um_env_ok_def driver_accepts_def dest!: spec [of _ DEFAULT_AUTH] spec [of _ n])
  with new(2) [OF a(1,2)] a(3) show "vouch DEFAULT_AUTH n ''-'' token \<and> find_user (l_uid l) s = None \<and> l_gid l = USERS_ID \<and>
       (\<exists>u. find_user (l_uid l) s' = Some u \<and> u_gid u = USERS_ID \<and> l_uname l = u_name u)"
    by (auto simp: user_created_def)
qed

lemma authenticate_ok:
  assumes inv: "um_inv sha vouch s" and env: "um_env_ok sha vouch e"
    and run: "authenticate e id session s = (r, s')"
  shows "um_inv sha vouch s'" "r = Some l \<Longrightarrow> admitted sha vouch s session l s'"
proof -
  consider (bad) "split_secret session = None" "s' = s" "r = None"
    | (srv) n t u where "split_secret session = Some (n, t)" "find_uname n s = Some u" "server_auth (auth_driver u)"
        "authenticate_server e id u t s = (r, s')"
    | (int) n t u where "split_secret session = Some (n, t)" "find_uname n s = Some u"
        "authenticate_internal e id u t s = (r, s')"
    | (ext) n t where "split_secret session = Some (n, t)" "find_uname n s = None"
        "authenticate_external e id n t s = (r, s')"
    using run by (auto simp: authenticate_def split: option.splits if_splits)
  then have "um_inv sha vouch s' \<and> (r = Some l \<longrightarrow> admitted sha vouch s session l s')"
  proof cases
    case bad
    with inv show ?thesis by simp
  next
    case srv
    have "u_name u = n" using find_uname_in [OF srv(2)] by simp
    with srv server_ok [OF inv env srv(3,4)] split_secret_eq [OF srv(1)] show ?thesis
      unfolding admitted_def by (fastforce simp: login_of_def)
  next
    case int
    have "u_name u = n" using find_uname_in [OF int(2)] by simp
    with int internal_ok [OF inv env int(2,3)] split_secret_eq [OF int(1)] find_uname_id [OF inv int(2)] show ?thesis
      unfolding admitted_def by (fastforce simp: login_of_def)
  next
    case ext
    with external_ok [OF inv env ext(3)] split_secret_eq [OF ext(1)] show ?thesis
      unfolding admitted_def by blast
  qed
  then show "um_inv sha vouch s'" "r = Some l \<Longrightarrow> admitted sha vouch s session l s'" by blast+
qed

subsection \<open>Every run\<close>

lemma um_step_inv:
  assumes "um_step e s s'" "um_inv sha vouch s" "um_env_ok sha vouch e"
  shows "um_inv sha vouch s'"
  using assms
proof induction
  case (Login session s)
  then show ?case using authenticate_ok(1) by (metis prod.collapse)
next
  case (New_user att s u n p d)
  then show ?case by (intro inv_UserAllocate)
next
  case (New_group att n s)
  then show ?case by (auto simp: GroupAllocate_def case_prod_beta intro: inv_group_allocate)
next
  case (New_password att i p s)
  then show ?case unfolding UserChangePassword_def by (intro inv_user_request inv_user_action)
next
  case (New_driver att i d p s)
  then show ?case unfolding UserChangeAuth_def by (intro inv_user_request inv_user_action)
qed (intro inv_UserChown inv_UserDelete inv_GroupDelete inv_reload, assumption+)+

lemma inv_first: "um_inv sha vouch \<lparr>users = [], groups = first_groups, user_rows = [], group_rows = first_groups,
    last_uid = - 1, last_gid = 99\<rparr>"
  by (simp add: um_inv_def members_def has_gid_def in_group_def rows_saved_def names_ok_def sessions_ok_def
      system_groups_def row_find_def first_groups_def ONEADMIN_ID_def USERS_ID_def)

lemma um_bootstrap_inv:
  assumes "um_env_ok sha vouch e" "um_bootstrap e tok random = Some s"
  shows "um_inv sha vouch s"
proof -
  let ?s = "\<lparr>users = [], groups = first_groups, user_rows = [], group_rows = first_groups, last_uid = - 1, last_gid = 99\<rparr>"
  obtain n p rc err s1 rc2 err2 where
    a: "user_allocate e ONEADMIN_ID n ''oneadmin'' p CORE_AUTH True ?s = ((rc, 0, err), s1)"
    and b: "user_allocate e ONEADMIN_ID ''serveradmin'' ''oneadmin'' (sha1_digest e random) ''server_cipher'' True s1 =
      ((rc2, 1, err2), s)"
    using assms(2) by (auto simp: um_bootstrap_def Let_def split: option.splits prod.splits if_splits)
  obtain g where g: "find_group ONEADMIN_ID ?s = Some g" by (simp add: row_find_def first_groups_def)
  have i1: "um_inv sha vouch s1" using inv_user_allocate(1) [OF inv_first assms(1) g a] .
  have "user_created ?s 0 n ONEADMIN_ID s1" using inv_user_allocate(2) [OF inv_first assms(1) g a] by simp
  then obtain u where "find_user 0 s1 = Some u" "u_gid u = ONEADMIN_ID" by (auto simp: user_created_def)
  moreover have "members (\<lambda>i. find_user i s1) (\<lambda>j. find_group j s1)" using i1 by (simp add: um_inv_def)
  ultimately obtain h where "find_group ONEADMIN_ID s1 = Some h" by (metis members_group)
  then show ?thesis using inv_user_allocate(1) [OF i1 assms(1) _ b] by blast
qed

lemma um_run_inv: "um_run sha vouch s \<Longrightarrow> um_inv sha vouch s"
  by (induction rule: um_run.induct) (auto intro: um_bootstrap_inv um_step_inv)

lemma members_views:
  "members U G \<longleftrightarrow> (\<forall>i u. U i = Some u \<longrightarrow> (\<exists>g. G (u_gid u) = Some g \<and> i \<in> g_users g)) \<and>
     (\<forall>j g i. G j = Some g \<and> i \<in> g_users g \<longrightarrow> (\<exists>u. U i = Some u \<and> u_gid u = j))"
  unfolding members_def has_gid_def in_group_def
  by (rule iffI; (intro conjI allI impI)?) (force split: option.splits)+

lemma names_distinct:
  assumes "names_ok s"
  shows "distinct (map u_name (users s))"
proof -
  have d: "distinct (map u_oid (users s))" using assms unfolding names_ok_def by (elim conjE)
  have "inj_on u_name (set (users s))"
  proof (rule inj_onI)
    fix x y assume xy: "x \<in> set (users s)" "y \<in> set (users s)" "u_name x = u_name y"
    show "x = y"
      using row_find_mem [OF d xy(1)] row_find_mem [OF d xy(2)] names_unique [OF assms xy] by (metis option.inject)
  qed
  moreover have "distinct (users s)" using d by (simp add: distinct_map)
  ultimately show ?thesis by (simp add: distinct_map)
qed

lemma split_secret_join:
  assumes "CHR '':'' \<notin> set n"
  shows "split_secret (n @ CHR '':'' # t) = Some (n, t)"
proof -
  have n: "c \<noteq> CHR '':''" if "c \<in> set n" for c using that assms by auto
  have "dropWhile (\<lambda>c. c \<noteq> CHR '':'') (n @ CHR '':'' # t) = CHR '':'' # t"
    using n by (subst dropWhile_append2) auto
  moreover have "takeWhile (\<lambda>c. c \<noteq> CHR '':'') (n @ CHR '':'' # t) = n"
    using n by (subst takeWhile_append2) auto
  ultimately show ?thesis by (simp add: split_secret_def)
qed

subsection \<open>What is not checked\<close>

text \<open>The new password of a core user is hashed before it is checked: any password is accepted, the empty one too.\<close>

lemma core_password_unchecked:
  assumes "find_user i s = Some u" "auth_driver u = CORE_AUTH" "l_uid att = 0"
    "\<And>x. pass_error (sha1_digest e x) = None"
  shows "\<exists>s' u'. UserChangePassword e att i '''' s = (Answer i, s') \<and> find_user i s' = Some u' \<and>
      core_authenticate e (password u') ''''"
    and "fst (fst (user_allocate e g n gn '''' d en s)) = - 1"
proof -
  have "u_oid u = i" using assms(1) by (rule row_find_key)
  then show "\<exists>s' u'. UserChangePassword e att i '''' s = (Answer i, s') \<and> find_user i s' = Some u' \<and>
      core_authenticate e (password u') ''''"
    using assms by (simp add: UserChangePassword_def user_request_def user_refusal_def change_password_def
        set_password_def update_user_def set_user_def Let_def row_simps invalidate_session_def core_authenticate_def)
  show "fst (fst (user_allocate e g n gn '''' d en s)) = - 1"
    by (simp add: user_allocate_def pass_error_def)
qed

text \<open>A password that is changed while the old one is being checked opens a session for the old one.\<close>

lemma login_races_new_password:
  assumes "find_uname n s = Some u" "CHR '':'' \<notin> set n" "auth_driver u = CORE_AUTH" "\<not> valid_session (now e) u t"
    "password u = sha1_digest e t" "find_user (u_oid u) (w s) = Some u2"
  shows "\<exists>s' u3. authenticate e w (n @ CHR '':'' # t) s = (Some (login_of u), s') \<and> find_user (u_oid u) s' = Some u3 \<and>
    password u3 = password u2 \<and> session_token u3 = t \<and> session_expiration_time u3 = later e + session_validity e"
proof -
  have "authenticate e w (n @ CHR '':'' # t) s = authenticate_internal e w u t s"
    using assms(1,3) split_secret_join [OF assms(2), of t]
    by (simp add: authenticate_def server_auth_def CORE_AUTH_def)
  also have "\<dots> = (Some (login_of u), open_session e (u_oid u) t (w s))"
    unfolding authenticate_internal_def using assms(3,4,5) by (simp add: core_authenticate_def)
  finally show ?thesis
    using assms(6) row_find_key [OF assms(6)] by (simp add: open_session_def set_session_def set_user_def row_simps)
qed

text \<open>A group that is deleted while a user moves to it leaves the user without a group, and the old group lists it.\<close>

lemma move_races_delete:
  assumes "find_user i s = Some u" "find_group j s = Some g" "0 \<le> j" "u_gid u \<noteq> j" "l_uid att = 0"
    "w = (\<lambda>s. snd (drop_group e g s))" "100 \<le> j" "g_users g = {}" "um_db e Drop_group"
  shows "\<exists>s' u'. UserChown e w att i j s = (Refused E_NO_EXISTS, s') \<and> find_user i s' = Some u' \<and> u_gid u' = j \<and>
    find_group j s' = None \<and> find_group (u_gid u) s' = find_group (u_gid u) s"
proof -
  have "u_oid u = i" "g_oid g = j" using assms(1,2) by (auto dest: row_find_key)
  then show ?thesis
    using assms by (simp add: UserChown_def may_def drop_group_def update_user_def set_user_def Let_def row_simps)
qed

subsection \<open>Properties\<close>

text \<open>C31. Along the runs of \<open>um_step\<close> since the first start, a user is listed by its group and by no other, a group lists no
  one else, names are unique and valid, and the tables hold the objects without their sessions.  In these runs insertions and
  deletions of rows may fail, but an update of a row succeeds (the source ignores its failure), and each request is one step:
  between the new row of a user that changes its group and the update of the two groups nothing else happens.  If the
  new group is deleted there, the user is in a group that does not exist and is listed by the old one (\<open>move_races_delete\<close>).\<close>

theorem users_and_groups_agree:
  assumes "um_run sha vouch s"
  shows "(\<forall>i u. find_user i s = Some u \<longrightarrow> (\<exists>g. find_group (u_gid u) s = Some g \<and> i \<in> g_users g)) \<and>
    (\<forall>j g i. find_group j s = Some g \<and> i \<in> g_users g \<longrightarrow> (\<exists>u. find_user i s = Some u \<and> u_gid u = j)) \<and>
    distinct (map u_name (users s)) \<and> (\<forall>u \<in> set (users s). name_error (u_name u) = None) \<and>
    (\<forall>i. row_find u_oid i (user_rows s) = map_option no_session (find_user i s)) \<and>
    (\<forall>j. row_find g_oid j (group_rows s) = find_group j s)"
proof -
  have inv: "members (\<lambda>i. find_user i s) (\<lambda>j. find_group j s)" "rows_saved s" "names_ok s"
    using um_run_inv [OF assms] unfolding um_inv_def by blast+
  show ?thesis
    using inv(1) [unfolded members_views] inv(2) [unfolded rows_saved_def] names_distinct [OF inv(3)]
      names_valid [OF inv(3)] by blast
qed

text \<open>C32. Whoever is let in by \<open>authenticate\<close>, by a session or by its credentials, in a state that a run of \<open>um_step\<close> reaches,
  is a user for whom the token of the request is a proof: its password, a token its own driver vouches for, or one that the driver
  of a server vouches for (the session may then name the server first); or it is a new user of the group of users, for
  whom the default driver vouches.  As in these runs, updates of rows succeed, and nothing else happens while a driver
  decides about a login.  In the source the user is unlocked meanwhile: if the password is changed then, a session for
  the old one is opened after the change, and a later login by this session has no proof (\<open>login_races_new_password\<close>).\<close>

theorem logins_admitted:
  assumes "um_run sha vouch s" "um_env_ok sha vouch e" "authenticate e id session s = (Some l, s')"
  shows "admitted sha vouch s session l s'"
  using authenticate_ok(2) [OF um_run_inv [OF assms(1)] assms(2,3)] by simp

subsection \<open>A first start and a new user\<close>

definition sha_sample :: "string \<Rightarrow> string" where
  "sha_sample x = CHR ''h'' # x"

definition sample_um_env :: um_env where
  "sample_um_env = \<lparr>now = 100, later = 100, session_validity = 900, sha1_digest = sha_sample, authm = None, authz = None,
     acl = default_acl, um_db = (\<lambda>_. True)\<rparr>"

definition oneadmin :: user where
  "oneadmin = \<lparr>u_oid = 0, u_name = ''one'', u_gid = 0, u_gname = ''oneadmin'', password = ''hpw'', auth_driver = ''core'',
     enabled = True, session_token = '''', session_expiration_time = 0\<rparr>"

definition serveradmin :: user where
  "serveradmin = \<lparr>u_oid = 1, u_name = ''serveradmin'', u_gid = 0, u_gname = ''oneadmin'', password = ''hr'',
     auth_driver = ''server_cipher'', enabled = True, session_token = '''', session_expiration_time = 0\<rparr>"

definition started_um :: um where
  "started_um = \<lparr>users = [oneadmin, serveradmin],
     groups = [\<lparr>g_oid = 1, g_name = ''users'', g_users = {}\<rparr>, \<lparr>g_oid = 0, g_name = ''oneadmin'', g_users = {1, 0}\<rparr>],
     user_rows = [oneadmin, serveradmin],
     group_rows = [\<lparr>g_oid = 1, g_name = ''users'', g_users = {}\<rparr>, \<lparr>g_oid = 0, g_name = ''oneadmin'', g_users = {1, 0}\<rparr>],
     last_uid = 1, last_gid = 99\<rparr>"

lemmas um_eval = user_allocate_def pass_error_def name_error_def find_uname_def row_find_def row_put_def row_drop_def
  next_id_def update_group_def set_group_def add_user_def Let_def is_space_def CORE_AUTH_def ONEADMIN_ID_def
  USERS_ID_def USERS_NAME_def first_groups_def sample_um_env_def sha_sample_def

lemma sample_started: "um_bootstrap sample_um_env ''one:pw'' ''r'' = Some started_um"
  by (simp add: um_bootstrap_def split_secret_def um_eval started_um_def oneadmin_def serveradmin_def)

lemma sample_env_ok: "um_env_ok sha_sample (\<lambda>_ _ _ _. False) sample_um_env"
  by (simp add: um_env_ok_def sample_um_env_def driver_accepts_def)

lemma sample_run: "um_run sha_sample (\<lambda>_ _ _ _. False) started_um"
  by (rule um_run.Start [OF sample_env_ok sample_started])

definition with_bob :: um where
  "with_bob = snd (UserAllocate sample_um_env (login_of oneadmin) ''bob'' ''pw'' '''' started_um)"

lemma with_bob_run: "um_run sha_sample (\<lambda>_ _ _ _. False) with_bob"
  unfolding with_bob_def
  by (rule um_run.Step [OF sample_run sample_env_ok], rule New_user [of _ _ oneadmin])
    (simp_all add: login_of_def started_um_def oneadmin_def row_find_def)

lemma with_bob_user: "\<exists>u. find_user 2 with_bob = Some u \<and> u_gid u = 1"
  by (simp add: with_bob_def UserAllocate_def may_def login_of_def um_eval started_um_def oneadmin_def serveradmin_def)

theorem users_and_groups_agree_witness:
  "\<exists>g. find_group 1 with_bob = Some g \<and> 2 \<in> g_users g"
proof -
  obtain u where "find_user 2 with_bob = Some u" "u_gid u = 1" using with_bob_user by blast
  with conjunct1 [OF users_and_groups_agree [OF with_bob_run]] show ?thesis by metis
qed

theorem logins_admitted_witness:
  "\<exists>l s'. authenticate sample_um_env id ''one:pw'' started_um = (Some l, s') \<and> l_uid l = 0 \<and>
     admitted sha_sample (\<lambda>_ _ _ _. False) started_um ''one:pw'' l s'"
proof -
  obtain s' where "authenticate sample_um_env id ''one:pw'' started_um = (Some (login_of oneadmin), s')"
    by (simp add: authenticate_def split_secret_def find_uname_def started_um_def oneadmin_def server_auth_def
        authenticate_internal_def valid_session_def core_authenticate_def CORE_AUTH_def sample_um_env_def sha_sample_def)
  moreover have "l_uid (login_of oneadmin) = 0" by (simp add: login_of_def oneadmin_def)
  ultimately show ?thesis using logins_admitted [OF sample_run sample_env_ok] by blast
qed

end
