(* ===== verification/Hooks.thy ===== *)
theory Hooks
  imports Drivers Templates
begin

text \<open>
  Hooks: commands that run when a VM or a host enters a state.  The hooks that the pools register from the configuration
  (the constructors in src/vm/VirtualMachinePool.cc and src/host/HostPool.cc), their \<open>do_hook\<close>
  (src/vm/VirtualMachineHook.cc, src/host/HostHook.cc), the line that is written to the driver and the driver's answer
  (src/hm/HookManagerDriver.cc).

  A state hook compares the object with the state that was recorded for it at its last write (\<open>vm_states\<close>,
  \<open>host_states\<close>), static maps that are empty when the daemon starts.  They are kept by a hook of their own, which is
  registered last, if any state hook is.  \<open>hm_lines\<close> are the lines written to the driver.  The XML of an object is an
  argument.
\<close>

subsection \<open>The driver\<close>

record hooks_state =
  vm_states :: "int \<Rightarrow> (LcmState \<times> VmState) option"
  host_states :: "int \<Rightarrow> host_state option"
  hm_loaded :: bool
  hm_lines :: "string list"

record hook =
  hook_name :: string
  hook_cmd :: string
  hook_args :: string
  hook_remote :: bool

definition execute_line :: "int \<Rightarrow> string \<Rightarrow> string \<Rightarrow> string \<Rightarrow> string \<Rightarrow> string" where
  "execute_line i nm target cmd arguments = ''EXECUTE '' @ int_string i @ '' '' @ nm @ '' '' @ target @ '' '' @ cmd @ '' '' @
     (if arguments = [] then ''-'' else arguments)"

definition hm_execute :: "int \<Rightarrow> hook \<Rightarrow> string \<Rightarrow> string \<Rightarrow> hooks_state \<Rightarrow> hooks_state" where
  "hm_execute i h target arguments s =
     (if hm_loaded s then s\<lparr>hm_lines := hm_lines s @ [execute_line i (hook_name h) target (hook_cmd h) arguments]\<rparr> else s)"

definition LOCAL :: string where
  "LOCAL = ''LOCAL''"

text \<open>\<open>find\<close> and \<open>replace\<close>: the first occurrence only.\<close>

definition replace_first :: "string \<Rightarrow> string \<Rightarrow> string \<Rightarrow> string" where
  "replace_first pat by s = (case find_sub pat s of None \<Rightarrow> s | Some n \<Rightarrow> take n s @ by @ drop (n + length pat) s)"

definition parse_arguments :: "string \<Rightarrow> int \<Rightarrow> string \<Rightarrow> string \<Rightarrow> string" where
  "parse_arguments id_name i xml64 arguments =
     replace_first ''$TEMPLATE'' xml64 (replace_first id_name (int_string i) arguments)"

subsection \<open>The configuration\<close>

text \<open>A vector attribute VM_HOOK or HOST_HOOK: its event in upper case and the hook; \<open>None\<close> is not registered.\<close>

definition hook_of :: "string \<Rightarrow> string \<Rightarrow> vector_map \<Rightarrow> (string \<times> hook) option" where
  "hook_of hook_location remotes_location a =
     (let on = to_upper (attr_value ''ON'' a); cmd = attr_value ''COMMAND'' a; nm = attr_value ''NAME'' a;
          rmt = (to_upper (attr_value ''REMOTE'' a) = ''YES'')
      in if on = [] \<or> cmd = [] then None
         else Some (on, \<lparr>hook_name = (if nm = [] then cmd else nm),
           hook_cmd = (if hd cmd = CHR ''/'' then cmd
                       else if rmt then hook_location @ ''/'' @ cmd else remotes_location @ ''/hooks/'' @ cmd),
           hook_args = attr_value ''ARGUMENTS'' a, hook_remote = rmt\<rparr>))"

datatype vm_hook = Vm_allocate hook | Vm_state hook LcmState VmState | Vm_update_state

definition vm_hook_on :: "string \<times> hook \<Rightarrow> vm_hook option" where
  "vm_hook_on x = (case x of (on, h) \<Rightarrow>
     if on = ''CREATE'' then Some (Vm_allocate (h\<lparr>hook_remote := False\<rparr>))
     else if on = ''PROLOG'' then Some (Vm_state h PROLOG ACTIVE)
     else if on = ''RUNNING'' then Some (Vm_state h RUNNING ACTIVE)
     else if on = ''SHUTDOWN'' then Some (Vm_state h EPILOG ACTIVE)
     else if on = ''STOP'' then Some (Vm_state h LCM_INIT STOPPED)
     else if on = ''DONE'' then Some (Vm_state h LCM_INIT DONE)
     else if on = ''FAILED'' then Some (Vm_state h LCM_INIT FAILED)
     else None)"

fun is_vm_state_hook :: "vm_hook \<Rightarrow> bool" where
  "is_vm_state_hook (Vm_state _ _ _) = True"
| "is_vm_state_hook _ = False"

definition vm_pool_hooks :: "string \<Rightarrow> string \<Rightarrow> vector_map list \<Rightarrow> vm_hook list" where
  "vm_pool_hooks loc rem conf =
     (let hs = List.map_filter (\<lambda>a. case hook_of loc rem a of None \<Rightarrow> None | Some x \<Rightarrow> vm_hook_on x) conf
      in hs @ (if \<exists>h \<in> set hs. is_vm_state_hook h then [Vm_update_state] else []))"

datatype host_hook = Host_allocate hook | Host_state hook host_state | Host_update_state

definition host_hook_on :: "string \<times> hook \<Rightarrow> host_hook option" where
  "host_hook_on x = (case x of (on, h) \<Rightarrow>
     if on = ''CREATE'' then Some (Host_allocate h)
     else if on = ''DISABLE'' then Some (Host_state h H_DISABLED)
     else if on = ''ERROR'' then Some (Host_state h H_ERROR)
     else None)"

fun is_host_state_hook :: "host_hook \<Rightarrow> bool" where
  "is_host_state_hook (Host_state _ _) = True"
| "is_host_state_hook _ = False"

definition host_pool_hooks :: "string \<Rightarrow> string \<Rightarrow> vector_map list \<Rightarrow> host_hook list" where
  "host_pool_hooks loc rem conf =
     (let hs = List.map_filter (\<lambda>a. case hook_of loc rem a of None \<Rightarrow> None | Some x \<Rightarrow> host_hook_on x) conf
      in hs @ (if \<exists>h \<in> set hs. is_host_state_hook h then [Host_update_state] else []))"

subsection \<open>Hooks of virtual machines\<close>

datatype hook_event = On_allocate | On_update

definition vm_view :: "vm \<Rightarrow> LcmState \<times> VmState" where
  "vm_view v = (lcm_state v, state v)"

definition vm_update_state :: "vm \<Rightarrow> (int \<Rightarrow> (LcmState \<times> VmState) option) \<Rightarrow> int \<Rightarrow> (LcmState \<times> VmState) option" where
  "vm_update_state v m = (case m (vm_oid v) of
     None \<Rightarrow> m(vm_oid v \<mapsto> vm_view v)
   | Some _ \<Rightarrow> if state v = DONE then m(vm_oid v := None) else m(vm_oid v \<mapsto> vm_view v))"

fun vm_do_hook :: "(vm \<Rightarrow> string) \<Rightarrow> vm \<Rightarrow> vm_hook \<Rightarrow> hooks_state \<Rightarrow> hooks_state" where
  "vm_do_hook xml64 v (Vm_allocate h) s =
     hm_execute (vm_oid v) h LOCAL (parse_arguments ''$VMID'' (vm_oid v) (xml64 v) (hook_args h)) s"
| "vm_do_hook xml64 v (Vm_state h l st) s = (case vm_states s (vm_oid v) of
     None \<Rightarrow> s
   | Some prev \<Rightarrow>
       if prev = vm_view v then s
       else if lcm_state v = l \<and> state v = st
       then (let arguments = parse_arguments ''$VMID'' (vm_oid v) (xml64 v) (hook_args h) in
             if \<not> hook_remote h then hm_execute (vm_oid v) h LOCAL arguments s
             else (case hist v of None \<Rightarrow> s | Some r \<Rightarrow> hm_execute (vm_oid v) h (hostname r) arguments s))
       else s)"
| "vm_do_hook xml64 v Vm_update_state s = s\<lparr>vm_states := vm_update_state v (vm_states s)\<rparr>"

text \<open>\<open>do_hooks\<close> with the mask of the event.  The hooks of a state are called for both events.\<close>

fun vm_hook_runs :: "hook_event \<Rightarrow> vm_hook \<Rightarrow> bool" where
  "vm_hook_runs ev (Vm_allocate _) = (ev = On_allocate)"
| "vm_hook_runs ev _ = True"

definition vm_do_hooks :: "(vm \<Rightarrow> string) \<Rightarrow> vm_hook list \<Rightarrow> hook_event \<Rightarrow> vm \<Rightarrow> hooks_state \<Rightarrow> hooks_state" where
  "vm_do_hooks xml64 hs ev v s = foldl (\<lambda>s h. if vm_hook_runs ev h then vm_do_hook xml64 v h s else s) s hs"

text \<open>\<open>allocate\<close> and \<open>update\<close> of the pool: the hooks run if the row was written.\<close>

definition vm_written :: "(vm \<Rightarrow> string) \<Rightarrow> vm_hook list \<Rightarrow> hook_event \<times> bool \<times> vm \<Rightarrow> hooks_state \<Rightarrow> hooks_state" where
  "vm_written xml64 hs x s = (case x of (ev, wrote, v) \<Rightarrow> if wrote then vm_do_hooks xml64 hs ev v s else s)"

subsection \<open>Hooks of hosts\<close>

definition host_update_state :: "int \<times> host \<Rightarrow> (int \<Rightarrow> host_state option) \<Rightarrow> int \<Rightarrow> host_state option" where
  "host_update_state x m = m(fst x \<mapsto> h_state (snd x))"

text \<open>A remote hook runs on the host itself.\<close>

definition host_target :: "hook \<Rightarrow> host \<Rightarrow> string" where
  "host_target h ho = (if hook_remote h then hostname_of ho else LOCAL)"

fun host_do_hook :: "(int \<times> host \<Rightarrow> string) \<Rightarrow> int \<times> host \<Rightarrow> host_hook \<Rightarrow> hooks_state \<Rightarrow> hooks_state" where
  "host_do_hook xml64 x (Host_allocate h) s =
     hm_execute (fst x) h (host_target h (snd x)) (parse_arguments ''$HID'' (fst x) (xml64 x) (hook_args h)) s"
| "host_do_hook xml64 x (Host_state h st) s = (case host_states s (fst x) of
     None \<Rightarrow> s
   | Some prev \<Rightarrow>
       if prev = h_state (snd x) then s
       else if h_state (snd x) = st
       then hm_execute (fst x) h (host_target h (snd x)) (parse_arguments ''$HID'' (fst x) (xml64 x) (hook_args h)) s
       else s)"
| "host_do_hook xml64 x Host_update_state s = s\<lparr>host_states := host_update_state x (host_states s)\<rparr>"

fun host_hook_runs :: "hook_event \<Rightarrow> host_hook \<Rightarrow> bool" where
  "host_hook_runs ev (Host_allocate _) = (ev = On_allocate)"
| "host_hook_runs ev _ = True"

definition host_do_hooks ::
  "(int \<times> host \<Rightarrow> string) \<Rightarrow> host_hook list \<Rightarrow> hook_event \<Rightarrow> int \<times> host \<Rightarrow> hooks_state \<Rightarrow> hooks_state" where
  "host_do_hooks xml64 hs ev x s = foldl (\<lambda>s h. if host_hook_runs ev h then host_do_hook xml64 x h s else s) s hs"

definition host_written ::
  "(int \<times> host \<Rightarrow> string) \<Rightarrow> host_hook list \<Rightarrow> hook_event \<times> bool \<times> int \<times> host \<Rightarrow> hooks_state \<Rightarrow> hooks_state" where
  "host_written xml64 hs x s = (case x of (ev, wrote, h) \<Rightarrow> if wrote then host_do_hooks xml64 hs ev h s else s)"

subsection \<open>The answer of the driver\<close>

text \<open>\<open>is >> s >> ws\<close> for a string, and \<open>getline\<close>; what cannot be read leaves the string as it is, empty here.\<close>

definition extract_string :: "istream \<Rightarrow> string \<times> istream" where
  "extract_string i =
     (if \<not> good i then ([], i\<lparr>failbit := True\<rparr>)
      else let r = dropWhile is_space (rest i); r' = dropWhile (\<lambda>c. \<not> is_space c) r in
        if r = [] then ([], i\<lparr>rest := [], eofbit := True, failbit := True\<rparr>)
        else (takeWhile (\<lambda>c. \<not> is_space c) r, i\<lparr>rest := r', eofbit := (r' = [])\<rparr>))"

definition getline :: "istream \<Rightarrow> string \<times> istream" where
  "getline i =
     (if \<not> good i then ([], i\<lparr>failbit := True\<rparr>)
      else if rest i = [] then ([], i\<lparr>eofbit := True, failbit := True\<rparr>)
      else let r' = dropWhile (\<lambda>c. c \<noteq> CHR 0x0A) (rest i) in
        (takeWhile (\<lambda>c. c \<noteq> CHR 0x0A) (rest i), i\<lparr>rest := drop 1 r', eofbit := (r' = [])\<rparr>))"

text \<open>
  What a message does: \<open>None\<close> if it is not about a VM that the pool knows, else the identifier and the message that
  is put into the ERROR attribute of the VM, whose row is then written.
\<close>

definition hook_failure :: "string \<Rightarrow> string \<Rightarrow> istream \<Rightarrow> string option" where
  "hook_failure action result i =
     (if action \<noteq> ''EXECUTE'' then None
      else let (nm, i) = (if good i then getline i else ([], i)); (info, i) = getline i in
        if result = ''SUCCESS'' then None
        else if info \<noteq> [] \<and> hd info \<noteq> CHR ''-'' then Some (''Error executing Hook: '' @ nm @ ''. '' @ info) else None)"

definition hm_protocol :: "string \<Rightarrow> (int \<times> string option) option" where
  "hm_protocol message =
     (case extract_string (istr message) of (action, i) \<Rightarrow> let i = skip_ws i in
        if \<not> good i then None
        else case extract_string i of (result, i) \<Rightarrow> let i = skip_ws i in
        if \<not> good i then None
        else case extract_int 0 i of (vid, i) \<Rightarrow> let i = skip_ws i in
        if failbit i then None else Some (vid, hook_failure action result i))"

definition hook_answer :: "string \<Rightarrow> string \<Rightarrow> (int \<Rightarrow> tmpl option) \<Rightarrow> int \<Rightarrow> tmpl option" where
  "hook_answer date message tmpls = (case hm_protocol message of
     None \<Rightarrow> tmpls
   | Some (vid, failure) \<Rightarrow> (case (tmpls vid, failure) of
       (Some t, Some m) \<Rightarrow> tmpls(vid \<mapsto> tmpl_set ''ERROR'' (Vector [(''MESSAGE'', m), (''TIMESTAMP'', date)]) t)
     | _ \<Rightarrow> tmpls))"

end
