(* ===== verification/Samples.thy ===== *)
theory Samples
  imports Nebula
begin

text \<open>
  Small concrete states on which the witnesses of the properties are evaluated: two hosts, and one
  VM on the first of them, or migrating from the first to the second.
\<close>

definition host_a :: host where
  "host_a = \<lparr>h_state = H_MONITORED, hostname_of = ''node-a'', vmm_mad_of = ''vmm_kvm'',
     vnm_mad_of = ''dummy'', tm_mad_of = ''tm_shared'', last_monitored = 90,
     host_share = \<lparr>disk_usage = 0, mem_usage = 524288, cpu_usage = 100, max_disk = 0,
       max_mem = 4194304, max_cpu = 400, running_vms = 1\<rparr>\<rparr>"

definition host_b :: host where
  "host_b = \<lparr>h_state = H_MONITORED, hostname_of = ''node-b'', vmm_mad_of = ''vmm_kvm'',
     vnm_mad_of = ''dummy'', tm_mad_of = ''tm_shared'', last_monitored = 91,
     host_share = new_share 0 4194304 400\<rparr>"

definition record_a :: history where
  "record_a = (new_history 0 1 ''node-a'' ''/var/lib/one'' ''vmm_kvm'' ''dummy'' ''tm_shared'')
     \<lparr>stime := 10, prolog_stime := 10, prolog_etime := 20, running_stime := 20\<rparr>"

definition record_b :: history where
  "record_b = new_history 1 2 ''node-b'' ''/var/lib/one'' ''vmm_kvm'' ''dummy'' ''tm_shared''"

definition vm_at :: "LcmState \<Rightarrow> history list \<Rightarrow> vm" where
  "vm_at s hs = \<lparr>vm_oid = 7, vm_uid = 3, state = ACTIVE, lcm_state = s, last_poll = 30, exit_time = 0,
     deploy_id = ''one-7'', mon_memory = 0, mon_cpu = 0, mon_net_tx = 0, mon_net_rx = 0,
     history_records = hs, backup = None, backupdisk = None, bakbid = 0, updatebkstateoid = 0,
     dkbid = 0, lcmstate = LCM_INIT, recover_dir = [], req_memory = 512, req_cpu = Some 100, disks = [], nics = [],
     attrs = Map.empty, raw_data = None, contexts = []\<rparr>"

definition one_at :: "LcmState \<Rightarrow> history list \<Rightarrow> one" where
  "one_at s hs = \<lparr>vms = [7 \<mapsto> vm_at s hs], vm_locks = {}, hosts = [1 \<mapsto> host_a, 2 \<mapsto> host_b],
     lcm_q = [], dm_q = [], tm_q = [], vmm_q = [], vm_rows = [7 \<mapsto> to_xml (vm_at s hs)],
     hist_rows = [(7, 0) \<mapsto> record_a], bk_rows = Map.empty, dk_rows = Map.empty, db_ok = True,
     now = 100, xm_list = '''', net_pool = nets3, img_repo = repo_with (img_at 3 IMG_READY 0 0) True,
     var_location = ''/var/lib/one/''\<rparr>"

lemmas samples = host_a_def host_b_def record_a_def record_b_def vm_at_def one_at_def

end
