(* ===== verification/HooksSpec.thy ===== *)
theory HooksSpec
  imports Hooks Samples "HOL-Library.Sublist"
begin

text \<open>
  A state hook runs exactly at the writes by which an object enters the state of the hook.  The map of the states is
  behind a locale, interpreted on machines, whose entry is removed by the state DONE, and on hosts.
\<close>

subsection \<open>The map of states\<close>

text \<open>The view of an object at its last write in a list of writes.\<close>

definition last_view :: "('v \<Rightarrow> int) \<Rightarrow> ('v \<Rightarrow> 's) \<Rightarrow> 'v list \<Rightarrow> int \<Rightarrow> 's option" where
  "last_view key view us i = (case rev (filter (\<lambda>u. key u = i) us) of [] \<Rightarrow> None | u # _ \<Rightarrow> Some (view u))"

text \<open>Nothing is written after it is gone.\<close>

definition ends_gone :: "('v \<Rightarrow> int) \<Rightarrow> ('v \<Rightarrow> bool) \<Rightarrow> 'v list \<Rightarrow> bool" where
  "ends_gone key gone us \<longleftrightarrow> sorted_wrt (\<lambda>u v. gone u \<longrightarrow> key v \<noteq> key u) us"

lemma last_view_snoc: "last_view key view (us @ [v]) i = (if key v = i then Some (view v) else last_view key view us i)"
  by (simp add: last_view_def)

locale state_map =
  fixes key :: "'v \<Rightarrow> int" and view :: "'v \<Rightarrow> 's" and gone :: "'v \<Rightarrow> bool"
    and step :: "'v \<Rightarrow> (int \<Rightarrow> 's option) \<Rightarrow> int \<Rightarrow> 's option"
  assumes first: "m (key v) = None \<Longrightarrow> step v m = m(key v \<mapsto> view v)"
    and later: "m (key v) \<noteq> None \<Longrightarrow> \<not> gone v \<Longrightarrow> step v m = m(key v \<mapsto> view v)"
    and last: "m (key v) \<noteq> None \<Longrightarrow> gone v \<Longrightarrow> step v m = m(key v := None)"
begin

lemma step_other: "i \<noteq> key v \<Longrightarrow> step v m i = m i"
  using first [of m v] later [of m v] last [of m v] by (cases "m (key v) = None"; cases "gone v") auto

lemma step_same: "\<not> gone v \<Longrightarrow> step v m (key v) = Some (view v)"
  using first [of m v] later [of m v] by (cases "m (key v) = None") auto

lemma map_is_last:
  assumes "\<forall>u \<in> set us. key u = i \<longrightarrow> \<not> gone u"
  shows "foldl (\<lambda>m u. step u m) Map.empty us i = last_view key view us i"
  using assms
proof (induction us rule: rev_induct)
  case Nil
  then show ?case by (simp add: last_view_def)
next
  case (snoc v us)
  then show ?case
    by (cases "key v = i") (auto simp: last_view_snoc step_other step_same)
qed

lemma map_before_write:
  assumes "ends_gone key gone (us @ [v])"
  shows "foldl (\<lambda>m u. step u m) Map.empty us (key v) = last_view key view us (key v)"
  using assms by (intro map_is_last) (auto simp: ends_gone_def sorted_wrt_append)

end

text \<open>The lines that the hooks write for a list of writes, each with the last one of its object before.\<close>

fun hook_expected ::
  "('e \<Rightarrow> 's option \<Rightarrow> 'v \<Rightarrow> 'h \<Rightarrow> string list) \<Rightarrow> ('v \<Rightarrow> int) \<Rightarrow> ('v \<Rightarrow> 's) \<Rightarrow> 'h list \<Rightarrow> 'v list \<Rightarrow>
    ('e \<times> bool \<times> 'v) list \<Rightarrow> string list" where
  "hook_expected lines key view hs past [] = []"
| "hook_expected lines key view hs past ((ev, wrote, v) # xs) =
     (if wrote then concat (map (lines ev (last_view key view past (key v)) v) hs) @
        hook_expected lines key view hs (past @ [v]) xs
      else hook_expected lines key view hs past xs)"

definition writes :: "('e \<times> bool \<times> 'v) list \<Rightarrow> 'v list" where
  "writes xs = map (\<lambda>(ev, wrote, v). v) (filter (\<lambda>(ev, wrote, v). wrote) xs)"

text \<open>Hooks as the constructors register them: the one that keeps the map is the last, and there if it is needed.\<close>

definition hooks_ok :: "'h \<Rightarrow> ('h \<Rightarrow> bool) \<Rightarrow> 'h list \<Rightarrow> bool" where
  "hooks_ok keeper is_state hs \<longleftrightarrow>
     (\<exists>ks. keeper \<notin> set ks \<and> hs = ks @ (if \<exists>h \<in> set ks. is_state h then [keeper] else []))"

lemma ends_gone_prefix: "ends_gone key gone (us @ vs) \<Longrightarrow> ends_gone key gone us"
  by (simp add: ends_gone_def sorted_wrt_append)

subsection \<open>A pool with hooks\<close>

text \<open>The hooks of a pool: what each writes (\<open>lines\<close>), and that only \<open>keeper\<close> changes the map.\<close>

locale hook_pool = state_map key view gone step
  for key :: "'v \<Rightarrow> int" and view :: "'v \<Rightarrow> 's" and gone :: "'v \<Rightarrow> bool"
    and step :: "'v \<Rightarrow> (int \<Rightarrow> 's option) \<Rightarrow> int \<Rightarrow> 's option" +
  fixes states :: "hooks_state \<Rightarrow> int \<Rightarrow> 's option" and do_hook :: "'v \<Rightarrow> 'h \<Rightarrow> hooks_state \<Rightarrow> hooks_state"
    and runs :: "hook_event \<Rightarrow> 'h \<Rightarrow> bool" and lines :: "hook_event \<Rightarrow> 's option \<Rightarrow> 'v \<Rightarrow> 'h \<Rightarrow> string list"
    and keeper :: 'h and is_state :: "'h \<Rightarrow> bool"
  assumes writes_lines: "h \<noteq> keeper \<Longrightarrow> hm_loaded s \<Longrightarrow> runs ev h \<Longrightarrow> hm_loaded (do_hook v h s) \<and>
      states (do_hook v h s) = states s \<and> hm_lines (do_hook v h s) = hm_lines s @ lines ev (states s (key v)) v h"
    and keeps_map: "hm_loaded (do_hook v keeper s) = hm_loaded s \<and> hm_lines (do_hook v keeper s) = hm_lines s \<and>
      states (do_hook v keeper s) = step v (states s)"
    and not_called: "\<not> runs ev h \<Longrightarrow> lines ev prev v h = []"
    and keeper_called: "runs ev keeper" "lines ev prev v keeper = []" "\<not> is_state keeper"
    and any_state: "\<not> is_state h \<Longrightarrow> lines ev prev v h = lines ev prev' v h"
begin

abbreviation do_all :: "'h list \<Rightarrow> hook_event \<Rightarrow> 'v \<Rightarrow> hooks_state \<Rightarrow> hooks_state" where
  "do_all hs ev v s \<equiv> foldl (\<lambda>s h. if runs ev h then do_hook v h s else s) s hs"

lemma fold_hooks:
  assumes "keeper \<notin> set ks" "hm_loaded s"
  shows "states (do_all ks ev v s) = states s \<and> hm_loaded (do_all ks ev v s) \<and>
    hm_lines (do_all ks ev v s) = hm_lines s @ concat (map (lines ev (states s (key v)) v) ks)"
  using assms
proof (induction ks arbitrary: s)
  case Nil
  then show ?case by simp
next
  case (Cons h ks)
  show ?case
  proof (cases "runs ev h")
    case True
    then show ?thesis
      using Cons.IH [of "do_hook v h s"] Cons.prems writes_lines [of h s ev v] by auto
  next
    case False
    then show ?thesis using Cons.IH [of s] Cons.prems not_called by simp
  qed
qed

lemma all_hooks:
  assumes "hooks_ok keeper is_state hs" "hm_loaded s"
  shows "hm_loaded (do_all hs ev v s)"
    "hm_lines (do_all hs ev v s) = hm_lines s @ concat (map (lines ev (states s (key v)) v) hs)"
    "\<exists>h \<in> set hs. is_state h \<Longrightarrow> states (do_all hs ev v s) = step v (states s)"
proof -
  obtain ks where ks: "keeper \<notin> set ks" and hs: "hs = ks @ (if \<exists>h \<in> set ks. is_state h then [keeper] else [])"
    using assms(1) unfolding hooks_ok_def by blast
  have "do_all hs ev v s = (if \<exists>h \<in> set ks. is_state h then do_hook v keeper (do_all ks ev v s) else do_all ks ev v s)"
    by (simp add: hs keeper_called)
  then show "hm_loaded (do_all hs ev v s)"
    "hm_lines (do_all hs ev v s) = hm_lines s @ concat (map (lines ev (states s (key v)) v) hs)"
    "\<exists>h \<in> set hs. is_state h \<Longrightarrow> states (do_all hs ev v s) = step v (states s)"
    using fold_hooks [OF ks assms(2), of ev v] keeps_map [of v "do_all ks ev v s"]
    by (auto simp: hs keeper_called split: if_splits)
qed

lemma run_lines:
  assumes "hooks_ok keeper is_state hs" "hm_loaded s" "ends_gone key gone (past @ writes xs)"
    "(\<exists>h \<in> set hs. is_state h) \<Longrightarrow> states s = foldl (\<lambda>m u. step u m) Map.empty past"
  shows "hm_lines (foldl (\<lambda>s (ev, wrote, v). if wrote then do_all hs ev v s else s) s xs) =
    hm_lines s @ hook_expected lines key view hs past xs"
  using assms(2-)
proof (induction xs arbitrary: s past)
  case Nil
  then show ?case by simp
next
  case (Cons x xs)
  obtain ev wrote v where x: "x = (ev, wrote, v)" by (cases x)
  show ?case
  proof (cases wrote)
    case False
    then show ?thesis using Cons.IH [of s past] Cons.prems by (simp add: x writes_def)
  next
    case True
    have g: "ends_gone key gone ((past @ [v]) @ writes xs)"
      using Cons.prems(2) True by (simp add: x writes_def)
    have "states s (key v) = last_view key view past (key v)" if "\<exists>h \<in> set hs. is_state h"
      using map_before_write [OF ends_gone_prefix [OF g]] Cons.prems(3) that by simp
    then have "lines ev (states s (key v)) v h = lines ev (last_view key view past (key v)) v h" if "h \<in> set hs" for h
      using that any_state by metis
    then have l: "map (lines ev (states s (key v)) v) hs = map (lines ev (last_view key view past (key v)) v) hs" by simp
    note all = all_hooks [OF assms(1) Cons.prems(1), of ev v]
    have "hm_lines (foldl (\<lambda>s (ev, wrote, v). if wrote then do_all hs ev v s else s) (do_all hs ev v s) xs) =
        hm_lines (do_all hs ev v s) @ hook_expected lines key view hs (past @ [v]) xs"
      using Cons.IH [OF all(1) g] Cons.prems(3) all(3) by simp
    then show ?thesis using True by (simp add: x all(2) l)
  qed
qed

end

subsection \<open>What each hook writes\<close>

text \<open>The lines a hook writes for an object whose recorded state is \<open>prev\<close>.\<close>

definition vm_arguments :: "(vm \<Rightarrow> string) \<Rightarrow> hook \<Rightarrow> vm \<Rightarrow> string" where
  "vm_arguments xml64 h v = parse_arguments ''$VMID'' (vm_oid v) (xml64 v) (hook_args h)"

definition vm_targets :: "hook \<Rightarrow> vm \<Rightarrow> string list" where
  "vm_targets h v = (if \<not> hook_remote h then [LOCAL] else case hist v of None \<Rightarrow> [] | Some r \<Rightarrow> [hostname r])"

definition hook_line :: "int \<Rightarrow> hook \<Rightarrow> string \<Rightarrow> string \<Rightarrow> string" where
  "hook_line i h target arguments = execute_line i (hook_name h) target (hook_cmd h) arguments"

fun vm_hook_lines ::
  "(vm \<Rightarrow> string) \<Rightarrow> hook_event \<Rightarrow> (LcmState \<times> VmState) option \<Rightarrow> vm \<Rightarrow> vm_hook \<Rightarrow> string list" where
  "vm_hook_lines xml64 ev prev v (Vm_allocate h) =
     (if ev = On_allocate then [hook_line (vm_oid v) h LOCAL (vm_arguments xml64 h v)] else [])"
| "vm_hook_lines xml64 ev prev v (Vm_state h l st) =
     (if prev \<notin> {None, Some (l, st)} \<and> vm_view v = (l, st)
      then map (\<lambda>t. hook_line (vm_oid v) h t (vm_arguments xml64 h v)) (vm_targets h v) else [])"
| "vm_hook_lines xml64 ev prev v Vm_update_state = []"

definition host_line :: "(int \<times> host \<Rightarrow> string) \<Rightarrow> int \<times> host \<Rightarrow> hook \<Rightarrow> string" where
  "host_line xml64 x h = hook_line (fst x) h (host_target h (snd x))
     (parse_arguments ''$HID'' (fst x) (xml64 x) (hook_args h))"

fun host_hook_lines ::
  "(int \<times> host \<Rightarrow> string) \<Rightarrow> hook_event \<Rightarrow> host_state option \<Rightarrow> int \<times> host \<Rightarrow> host_hook \<Rightarrow> string list" where
  "host_hook_lines xml64 ev prev x (Host_allocate h) = (if ev = On_allocate then [host_line xml64 x h] else [])"
| "host_hook_lines xml64 ev prev x (Host_state h st) =
     (if prev \<notin> {None, Some st} \<and> h_state (snd x) = st then [host_line xml64 x h] else [])"
| "host_hook_lines xml64 ev prev x Host_update_state = []"

lemma hm_execute_simps [simp]:
  "vm_states (hm_execute i h t a s) = vm_states s" "host_states (hm_execute i h t a s) = host_states s"
  "hm_loaded (hm_execute i h t a s) = hm_loaded s"
  "hm_lines (hm_execute i h t a s) = hm_lines s @ (if hm_loaded s then [hook_line i h t a] else [])"
  by (simp_all add: hm_execute_def hook_line_def)

definition vm_gone :: "vm \<Rightarrow> bool" where
  "vm_gone v \<longleftrightarrow> state v = DONE"

interpretation vmap: state_map vm_oid vm_view vm_gone vm_update_state
  by unfold_locales (auto simp: vm_update_state_def vm_gone_def split: option.split)

interpretation hmap: state_map fst "\<lambda>x. h_state (snd x)" "\<lambda>_. False" host_update_state
  by unfold_locales (auto simp: host_update_state_def)

lemma vm_hook_effect:
  assumes "h \<noteq> Vm_update_state" "hm_loaded s" "vm_hook_runs ev h"
  shows "hm_loaded (vm_do_hook xml64 v h s) \<and> vm_states (vm_do_hook xml64 v h s) = vm_states s \<and>
    hm_lines (vm_do_hook xml64 v h s) = hm_lines s @ vm_hook_lines xml64 ev (vm_states s (vm_oid v)) v h"
  using assms by (cases h) (auto simp: Let_def vm_view_def vm_arguments_def vm_targets_def split: option.split)

lemma host_hook_effect:
  assumes "h \<noteq> Host_update_state" "hm_loaded s" "host_hook_runs ev h"
  shows "hm_loaded (host_do_hook xml64 x h s) \<and> host_states (host_do_hook xml64 x h s) = host_states s \<and>
    hm_lines (host_do_hook xml64 x h s) = hm_lines s @ host_hook_lines xml64 ev (host_states s (fst x)) x h"
  using assms by (cases h) (auto simp: host_line_def split: option.split)

interpretation vhooks: hook_pool vm_oid vm_view vm_gone vm_update_state vm_states "vm_do_hook xml64" vm_hook_runs
    "vm_hook_lines xml64" Vm_update_state is_vm_state_hook
  for xml64 :: "vm \<Rightarrow> string"
proof (unfold_locales, goal_cases)
  case (3 ev h prev v)
  then show ?case by (cases h) auto
next
  case (7 h ev prev v prev')
  then show ?case by (cases h) auto
qed (use vm_hook_effect in auto)

interpretation hhooks: hook_pool fst "\<lambda>x. h_state (snd x)" "\<lambda>_. False" host_update_state host_states
    "host_do_hook xml64" host_hook_runs "host_hook_lines xml64" Host_update_state is_host_state_hook
  for xml64 :: "int \<times> host \<Rightarrow> string"
proof (unfold_locales, goal_cases)
  case (3 ev h prev v)
  then show ?case by (cases h) auto
next
  case (7 h ev prev v prev')
  then show ?case by (cases h) auto
qed (use host_hook_effect in auto)

lemma vm_pool_hooks_ok: "hooks_ok Vm_update_state is_vm_state_hook (vm_pool_hooks loc rem conf)"
proof -
  have "vm_hook_on x \<noteq> Some Vm_update_state" for x by (cases x) (simp add: vm_hook_on_def)
  then have "Vm_update_state \<notin> set (List.map_filter (\<lambda>a. case hook_of loc rem a of None \<Rightarrow> None | Some x \<Rightarrow> vm_hook_on x) conf)"
    by (auto simp: List.map_filter_def split: option.splits)
  then show ?thesis unfolding hooks_ok_def vm_pool_hooks_def Let_def by blast
qed

lemma host_pool_hooks_ok: "hooks_ok Host_update_state is_host_state_hook (host_pool_hooks loc rem conf)"
proof -
  have "host_hook_on x \<noteq> Some Host_update_state" for x by (cases x) (simp add: host_hook_on_def)
  then have "Host_update_state \<notin>
      set (List.map_filter (\<lambda>a. case hook_of loc rem a of None \<Rightarrow> None | Some x \<Rightarrow> host_hook_on x) conf)"
    by (auto simp: List.map_filter_def split: option.splits)
  then show ?thesis unfolding hooks_ok_def host_pool_hooks_def Let_def by blast
qed

text \<open>C33. From the start of the daemon on, for any order of writes of virtual machines, of which some may fail, the lines
  that go to the hook driver are those of the table \<open>vm_hook_lines\<close>, applied to the state of the machine at its last
  successful write since the start: a hook of a state runs once at each write that enters the state from the state written before;
  a hook of the creation runs at the creation.  The first write of a machine after a start of the daemon runs no hook of a
  state, whichever state it enters: the daemon does not know the state before (\<open>restart_misses_hook\<close>), although the configuration
  file promises the hook.  Nothing is written about a machine after the write of its state DONE.\<close>

theorem vm_hooks_run_on_entry:
  assumes "hm_loaded s" "vm_states s = Map.empty" "ends_gone vm_oid vm_gone (writes xs)"
  shows "hm_lines (foldl (\<lambda>s x. vm_written xml64 (vm_pool_hooks loc rem conf) x s) s xs) =
    hm_lines s @ hook_expected (vm_hook_lines xml64) vm_oid vm_view (vm_pool_hooks loc rem conf) [] xs"
proof -
  have "vm_written xml64 hs x s = (case x of (ev, wrote, v) \<Rightarrow> if wrote
      then foldl (\<lambda>s h. if vm_hook_runs ev h then vm_do_hook xml64 v h s else s) s hs else s)" for hs x s
    by (cases x) (simp add: vm_written_def vm_do_hooks_def)
  then show ?thesis using vhooks.run_lines [OF vm_pool_hooks_ok assms(1), of "[]" xs] assms(2,3) by simp
qed

lemma host_hooks_run_on_entry:
  assumes "hm_loaded s" "host_states s = Map.empty"
  shows "hm_lines (foldl (\<lambda>s x. host_written xml64 (host_pool_hooks loc rem conf) x s) s xs) =
    hm_lines s @ hook_expected (host_hook_lines xml64) fst (\<lambda>x. h_state (snd x)) (host_pool_hooks loc rem conf) [] xs"
proof -
  have "host_written xml64 hs x s = (case x of (ev, wrote, v) \<Rightarrow> if wrote
      then foldl (\<lambda>s h. if host_hook_runs ev h then host_do_hook xml64 v h s else s) s hs else s)" for hs x s
    by (cases x) (simp add: host_written_def host_do_hooks_def)
  moreover have "ends_gone fst (\<lambda>_. False) us" for us :: "(int \<times> host) list"
    by (simp add: ends_gone_def sorted_wrt_iff_nth_less)
  ultimately show ?thesis using hhooks.run_lines [OF host_pool_hooks_ok assms(1), of "[]" xs] assms(2) by simp
qed

subsection \<open>What hooks miss\<close>

text \<open>After a restart the maps are empty: the first write of a machine runs no state hook, whatever it changes.\<close>

lemma restart_misses_hook:
  assumes "vm_states s (vm_oid v) = None"
  shows "vm_do_hook xml64 v (Vm_state h l st) s = s"
  using assms by simp

text \<open>
  A message is one line that ends with a newline.  \<open>getline\<close> reads the whole rest of it as the name of the hook, so that
  the information is always empty: the failure of a hook is never recorded in the machine.
\<close>

lemma suffix_extract_string: "suffix (rest (snd (extract_string i))) (rest i)"
  by (auto simp: extract_string_def Let_def intro: suffix_order.trans [OF suffix_dropWhile suffix_dropWhile])

lemma suffix_skip_ws: "suffix (rest (skip_ws i)) (rest i)"
  by (simp add: skip_ws_def Let_def suffix_dropWhile)

lemma suffix_split_sign: "suffix (snd (split_sign s)) s"
  by (cases s) (auto intro: suffix_ConsI)

lemma suffix_extract_int: "suffix (rest (snd (extract_int x i))) (rest i)"
proof -
  let ?d = "snd (split_sign (dropWhile is_space (rest i)))"
  have "suffix (dropWhile (is_digit 10) ?d) (rest i)"
    using suffix_dropWhile suffix_split_sign suffix_dropWhile by (metis suffix_order.trans)
  then show ?thesis by (auto simp: extract_int_def Let_def case_prod_beta)
qed

lemma one_line_suffix:
  assumes "suffix t s" "CHR 0x0A \<notin> set (butlast s)"
  shows "CHR 0x0A \<notin> set (butlast t)"
proof -
  obtain p where "s = p @ t" using assms(1) by (auto simp: suffix_def)
  with assms(2) show ?thesis by (cases "t = []") (auto simp: butlast_append)
qed

lemma one_line_no_info:
  assumes "CHR 0x0A \<notin> set (butlast (rest i))"
  shows "fst (getline (snd (getline i))) = []"
proof (cases "good i \<and> CHR 0x0A \<in> set (rest i)")
  case True
  then obtain p t where r: "rest i = p @ CHR 0x0A # t" "CHR 0x0A \<notin> set p" by (metis split_list_first)
  then have "t = []" using assms by (cases t) (auto simp: butlast_append)
  moreover have "dropWhile (\<lambda>c. c \<noteq> CHR 0x0A) (rest i) = CHR 0x0A # t"
    using r by (subst r(1), subst dropWhile_append2) auto
  ultimately have "rest (snd (getline i)) = []" using True r(1) by (simp add: getline_def Let_def)
  then show ?thesis by (simp add: getline_def)
next
  case False
  have "dropWhile (\<lambda>c. c \<noteq> CHR 0x0A) (rest i) = []" if "CHR 0x0A \<notin> set (rest i)"
    using that by (auto simp: dropWhile_eq_Nil_conv)
  with False show ?thesis by (auto simp: getline_def Let_def good_def)
qed

lemma hook_failure_none:
  assumes "CHR 0x0A \<notin> set (butlast (rest i))"
  shows "hook_failure action result i = None"
  using one_line_no_info [OF assms] by (auto simp: hook_failure_def Let_def case_prod_beta getline_def)

lemma hook_failures_not_recorded:
  assumes "CHR 0x0A \<notin> set line"
  shows "hook_answer date (line @ [CHR 0x0A]) tmpls = tmpls"
proof -
  let ?i1 = "skip_ws (snd (extract_string (istr (line @ [CHR 0x0A]))))"
  let ?i2 = "skip_ws (snd (extract_string ?i1))"
  let ?i3 = "skip_ws (snd (extract_int 0 ?i2))"
  have "suffix (rest ?i3) (rest ?i2)"
    by (rule suffix_order.trans [OF suffix_skip_ws suffix_extract_int])
  also have "suffix (rest ?i2) (rest ?i1)"
    by (rule suffix_order.trans [OF suffix_skip_ws suffix_extract_string])
  also have "suffix (rest ?i1) (rest (istr (line @ [CHR 0x0A])))"
    by (rule suffix_order.trans [OF suffix_skip_ws suffix_extract_string])
  finally have "CHR 0x0A \<notin> set (butlast (rest ?i3))"
    by (rule one_line_suffix) (use assms in \<open>simp add: istr_def\<close>)
  then have none: "hook_failure action result ?i3 = None" for action result by (rule hook_failure_none)
  have "hm_protocol (line @ [CHR 0x0A]) = (if \<not> good ?i1 then None else if \<not> good ?i2 then None
      else if failbit ?i3 then None else Some (fst (extract_int 0 ?i2), None))"
    unfolding hm_protocol_def Let_def case_prod_beta none ..
  then show ?thesis by (simp add: hook_answer_def split: option.split)
qed

subsection \<open>A run\<close>

definition hooked_conf :: "vector_map list" where
  "hooked_conf = [[(''ARGUMENTS'', ''$VMID''), (''COMMAND'', ''/on.sh''), (''NAME'', ''on''), (''ON'', ''running'')]]"

definition start_hooks :: hooks_state where
  "start_hooks = \<lparr>vm_states = Map.empty, host_states = Map.empty, hm_loaded = True, hm_lines = []\<rparr>"

definition hooked_run :: "(hook_event \<times> bool \<times> vm) list" where
  "hooked_run = [(On_allocate, True, vm_at BOOT []), (On_update, True, vm_at RUNNING []), (On_update, True, vm_at RUNNING [])]"

lemma hooked_conf_hooks: "vm_pool_hooks [] [] hooked_conf =
    [Vm_state \<lparr>hook_name = ''on'', hook_cmd = ''/on.sh'', hook_args = ''$VMID'', hook_remote = False\<rparr> RUNNING ACTIVE,
     Vm_update_state]"
  by code_simp

theorem vm_hooks_run_on_entry_witness:
  "hm_lines (foldl (\<lambda>s x. vm_written (\<lambda>_. []) (vm_pool_hooks [] [] hooked_conf) x s) start_hooks hooked_run) =
     [''EXECUTE 7 on LOCAL /on.sh 7'']"
proof -
  have "ends_gone vm_oid vm_gone (writes hooked_run)"
    by (simp add: ends_gone_def writes_def hooked_run_def vm_gone_def vm_at_def)
  then have "hm_lines (foldl (\<lambda>s x. vm_written (\<lambda>_. []) (vm_pool_hooks [] [] hooked_conf) x s) start_hooks hooked_run) =
      hm_lines start_hooks @
      hook_expected (vm_hook_lines (\<lambda>_. [])) vm_oid vm_view (vm_pool_hooks [] [] hooked_conf) [] hooked_run"
    by (intro vm_hooks_run_on_entry) (simp_all add: start_hooks_def)
  also have "\<dots> = [''EXECUTE 7 on LOCAL /on.sh 7'']"
    unfolding hooked_conf_hooks hooked_run_def start_hooks_def by code_simp
  finally show ?thesis .
qed

end
