(* ===== verification/Chmod.thy ===== *)
theory Chmod
  imports Acl Drivers
begin

text \<open>
  The change of the permissions of a VM, a template, a network or an image: \<open>set_permissions\<close>
  (src/pool/PoolObjectSQL.cc) and the request (src/rm/RequestManagerChmod.cc).  \<open>objs\<close> are the permissions of the
  objects of the pool; \<open>permitted\<close> is the answer of \<open>UserPool::authorize\<close> for an operation on an object, \<open>enable_other\<close>
  the configuration attribute ENABLE_OTHER_PERMISSIONS.  \<open>w\<close> is what others do to the pool between the authorization
  and the update.
\<close>

subsection \<open>Permission values\<close>

text \<open>The nine values in the order of the arguments: use, manage and admin of the owner, the group and the others.\<close>

record perm_values =
  n_owner_u :: int
  n_owner_m :: int
  n_owner_a :: int
  n_group_u :: int
  n_group_m :: int
  n_group_a :: int
  n_other_u :: int
  n_other_m :: int
  n_other_a :: int

definition perm_value_ok :: "int \<Rightarrow> bool" where
  "perm_value_ok x \<longleftrightarrow> \<not> (x < - 1 \<or> x > 1)"

definition set_perm :: "int \<Rightarrow> int \<Rightarrow> int" where
  "set_perm perm new_perm = (if new_perm \<noteq> - 1 then new_perm else perm)"

definition set_permissions :: "perm_values \<Rightarrow> permissions \<Rightarrow> int \<times> permissions" where
  "set_permissions n p =
     (if list_all perm_value_ok [n_owner_u n, n_owner_m n, n_owner_a n, n_group_u n, n_group_m n, n_group_a n,
          n_other_u n, n_other_m n, n_other_a n]
      then (0, p\<lparr>owner_u := set_perm (owner_u p) (n_owner_u n), owner_m := set_perm (owner_m p) (n_owner_m n),
                 owner_a := set_perm (owner_a p) (n_owner_a n), group_u := set_perm (group_u p) (n_group_u n),
                 group_m := set_perm (group_m p) (n_group_m n), group_a := set_perm (group_a p) (n_group_a n),
                 other_u := set_perm (other_u p) (n_other_u n), other_m := set_perm (other_m p) (n_other_m n),
                 other_a := set_perm (other_a p) (n_other_a n)\<rparr>)
      else (- 1, p))"

subsection \<open>The request\<close>

datatype chmod_answer = Chmod_ok int | Chmod_no_exists | Chmod_unauthorized | Chmod_invalid

text \<open>A value that would not change a permission that needs more rights is left out.\<close>

definition unchanged :: "int \<Rightarrow> int \<Rightarrow> int" where
  "unchanged new_perm perm = (if new_perm = perm then - 1 else new_perm)"

definition chmod_reduce :: "permissions \<Rightarrow> perm_values \<Rightarrow> perm_values" where
  "chmod_reduce p n = n\<lparr>n_owner_a := unchanged (n_owner_a n) (owner_a p), n_group_a := unchanged (n_group_a n) (group_a p),
     n_other_u := unchanged (n_other_u n) (other_u p), n_other_m := unchanged (n_other_m n) (other_m p),
     n_other_a := unchanged (n_other_a n) (other_a p)\<rparr>"

definition chmod_op :: "perm_values \<Rightarrow> Operation" where
  "chmod_op n = (if n_owner_a n \<noteq> - 1 \<or> n_group_a n \<noteq> - 1 \<or> n_other_a n \<noteq> - 1 then ADMIN else MANAGE)"

definition touches_other :: "perm_values \<Rightarrow> bool" where
  "touches_other n \<longleftrightarrow> n_other_u n \<noteq> - 1 \<or> n_other_m n \<noteq> - 1 \<or> n_other_a n \<noteq> - 1"

text \<open>The values to set, or the refusal.\<close>

definition chmod_check ::
  "(permissions \<Rightarrow> Operation \<Rightarrow> bool) \<Rightarrow> string \<Rightarrow> int \<Rightarrow> int \<Rightarrow> permissions option \<Rightarrow> perm_values \<Rightarrow>
    chmod_answer + perm_values" where
  "chmod_check permitted enable_other uid gid ob n =
     (if uid \<noteq> 0 \<and> gid \<noteq> 0
      then (case ob of None \<Rightarrow> Inl Chmod_no_exists
        | Some p \<Rightarrow>
            let n = chmod_reduce p n in
            if touches_other n \<and> to_upper enable_other \<noteq> ''YES'' then Inl Chmod_unauthorized
            else if \<not> permitted p (chmod_op n) then Inl Chmod_unauthorized
            else Inr n)
      else Inr n)"

definition chmod ::
  "(permissions \<Rightarrow> Operation \<Rightarrow> bool) \<Rightarrow> string \<Rightarrow> ((int \<Rightarrow> permissions option) \<Rightarrow> int \<Rightarrow> permissions option) \<Rightarrow>
    int \<Rightarrow> int \<Rightarrow> int \<Rightarrow> perm_values \<Rightarrow> (int \<Rightarrow> permissions option) \<Rightarrow> chmod_answer \<times> (int \<Rightarrow> permissions option)" where
  "chmod permitted enable_other w uid gid i n objs =
     (case chmod_check permitted enable_other uid gid (objs i) n of
        Inl a \<Rightarrow> (a, objs)
      | Inr n \<Rightarrow> let objs = w objs in
          (case objs i of None \<Rightarrow> (Chmod_no_exists, objs)
           | Some p \<Rightarrow> (case set_permissions n p of (rc, p') \<Rightarrow>
               if rc \<noteq> 0 then (Chmod_invalid, objs) else (Chmod_ok i, objs(i \<mapsto> p')))))"

subsection \<open>What a change needs\<close>

definition same_admin :: "permissions \<Rightarrow> permissions \<Rightarrow> bool" where
  "same_admin p q \<longleftrightarrow> owner_a q = owner_a p \<and> group_a q = group_a p \<and> other_a q = other_a p"

definition same_other :: "permissions \<Rightarrow> permissions \<Rightarrow> bool" where
  "same_other p q \<longleftrightarrow> other_u q = other_u p \<and> other_m q = other_m p \<and> other_a q = other_a p"

definition perm_bits :: "permissions \<Rightarrow> int list" where
  "perm_bits p = [owner_u p, owner_m p, owner_a p, group_u p, group_m p, group_a p, other_u p, other_m p, other_a p]"

definition same_object :: "permissions \<Rightarrow> permissions \<Rightarrow> bool" where
  "same_object p q \<longleftrightarrow> obj_type q = obj_type p \<and> p_oid q = p_oid p \<and> p_uid q = p_uid p \<and> p_gid q = p_gid p"

lemma set_perm_bit: "perm_value_ok x \<Longrightarrow> b \<in> {0, 1} \<Longrightarrow> set_perm b x \<in> {0, 1}"
  by (auto simp: set_perm_def perm_value_ok_def)

lemma set_permissions_ok:
  assumes "set_permissions n p = (0, q)"
  shows "set (perm_bits p) \<subseteq> {0, 1} \<Longrightarrow> set (perm_bits q) \<subseteq> {0, 1}" "same_object p q"
    "chmod_op n = MANAGE \<Longrightarrow> same_admin p q" "\<not> touches_other n \<Longrightarrow> same_other p q"
proof -
  have ok: "perm_value_ok (n_owner_u n)" "perm_value_ok (n_owner_m n)" "perm_value_ok (n_owner_a n)"
      "perm_value_ok (n_group_u n)" "perm_value_ok (n_group_m n)" "perm_value_ok (n_group_a n)"
      "perm_value_ok (n_other_u n)" "perm_value_ok (n_other_m n)" "perm_value_ok (n_other_a n)"
    and q: "q = p\<lparr>owner_u := set_perm (owner_u p) (n_owner_u n), owner_m := set_perm (owner_m p) (n_owner_m n),
                 owner_a := set_perm (owner_a p) (n_owner_a n), group_u := set_perm (group_u p) (n_group_u n),
                 group_m := set_perm (group_m p) (n_group_m n), group_a := set_perm (group_a p) (n_group_a n),
                 other_u := set_perm (other_u p) (n_other_u n), other_m := set_perm (other_m p) (n_other_m n),
                 other_a := set_perm (other_a p) (n_other_a n)\<rparr>"
    using assms by (simp_all add: set_permissions_def split: if_splits)
  show "set (perm_bits q) \<subseteq> {0, 1}" if "set (perm_bits p) \<subseteq> {0, 1}"
    using that ok [THEN set_perm_bit] by (simp add: q perm_bits_def)
  show "same_object p q" by (simp add: q same_object_def)
  show "same_admin p q" if "chmod_op n = MANAGE"
    using that by (simp add: q same_admin_def chmod_op_def set_perm_def split: if_splits)
  show "same_other p q" if "\<not> touches_other n"
    using that by (simp add: q same_other_def touches_other_def set_perm_def)
qed

text \<open>C34. a change of permissions that succeeds changes the permission bits of this object only, which stay 0 or 1.  A
  caller outside the administrators was authorized: to administrate the object if an ADMIN bit changed, else at least to
  manage it; and if a bit of the others changed, the configuration allows it.  A change that is refused changes nothing.\<close>

theorem chmod_authorized:
  assumes "chmod permitted enable_other id uid gid i n objs = (a, objs')" "\<And>p. objs i = Some p \<Longrightarrow> set (perm_bits p) \<subseteq> {0, 1}"
  shows "(a \<noteq> Chmod_ok i \<and> objs' = objs) \<or>
    (\<exists>p q. a = Chmod_ok i \<and> objs i = Some p \<and> objs' = objs(i \<mapsto> q) \<and> same_object p q \<and> set (perm_bits q) \<subseteq> {0, 1} \<and>
       (uid \<noteq> 0 \<and> gid \<noteq> 0 \<longrightarrow>
          (permitted p ADMIN \<or> permitted p MANAGE \<and> same_admin p q) \<and>
          (same_other p q \<or> to_upper enable_other = ''YES'')))"
proof (cases "chmod_check permitted enable_other uid gid (objs i) n")
  case (Inl e)
  then have "e \<noteq> Chmod_ok i" by (auto simp: chmod_check_def Let_def split: if_splits option.splits)
  with Inl assms(1) show ?thesis by (auto simp: chmod_def)
next
  case (Inr m)
  show ?thesis
  proof (cases "\<exists>p q. objs i = Some p \<and> set_permissions m p = (0, q)")
    case False
    then show ?thesis using assms(1) Inr by (auto simp: chmod_def split: option.splits prod.splits if_splits)
  next
    case True
    then obtain p q where p: "objs i = Some p" and q: "set_permissions m p = (0, q)" by blast
    have "a = Chmod_ok i" "objs' = objs(i \<mapsto> q)" using assms(1) Inr p q by (auto simp: chmod_def)
    moreover have "(permitted p ADMIN \<or> permitted p MANAGE \<and> same_admin p q) \<and>
        (same_other p q \<or> to_upper enable_other = ''YES'')" if "uid \<noteq> 0 \<and> gid \<noteq> 0"
    proof -
      have "permitted p (chmod_op m)" "touches_other m \<Longrightarrow> to_upper enable_other = ''YES''"
        using Inr that p by (auto simp: chmod_check_def Let_def split: if_splits)
      then show ?thesis using set_permissions_ok(3,4) [OF q] by (cases "chmod_op m = MANAGE") (auto simp: chmod_op_def split: if_splits)
    qed
    ultimately show ?thesis using p set_permissions_ok(1,2) [OF q] assms(2) [OF p] by blast
  qed
qed

definition image_perms :: "int \<Rightarrow> permissions" where
  "image_perms gu = \<lparr>obj_type = T_IMAGE, p_oid = 4, p_uid = 3, p_gid = 1, owner_u = 1, owner_m = 1, owner_a = 0,
     group_u = gu, group_m = 0, group_a = 0, other_u = 0, other_m = 0, other_a = 0\<rparr>"

definition share_with_group :: perm_values where
  "share_with_group = \<lparr>n_owner_u = - 1, n_owner_m = - 1, n_owner_a = - 1, n_group_u = 1, n_group_m = - 1, n_group_a = - 1,
     n_other_u = - 1, n_other_m = - 1, n_other_a = 0\<rparr>"

text \<open>The owner of an image lets its group use it; the last value, which changes nothing, needs no more rights.\<close>

lemma owner_manages: "add_auth 3 1 (image_perms 0) MANAGE default_acl"
  by code_simp

theorem chmod_authorized_witness:
  "\<exists>objs'. chmod (\<lambda>p op. add_auth 3 1 p op default_acl) [] id 3 1 4 share_with_group [4 \<mapsto> image_perms 0] =
      (Chmod_ok 4, objs') \<and> objs' 4 = Some (image_perms 1) \<and> same_other (image_perms 0) (image_perms 1)"
proof -
  let ?chmod = "chmod (\<lambda>p op. add_auth 3 1 p op default_acl) [] id 3 1 4 share_with_group [4 \<mapsto> image_perms 0]"
  have run: "?chmod = (Chmod_ok 4, [4 \<mapsto> image_perms 1])"
    using owner_manages
    by (simp add: chmod_def chmod_check_def chmod_reduce_def chmod_op_def touches_other_def unchanged_def
        set_permissions_def perm_value_ok_def set_perm_def share_with_group_def image_perms_def to_upper_def fun_eq_iff)
  moreover have "same_other (image_perms 0) (image_perms 1)"
    using chmod_authorized [OF run] by (auto simp: perm_bits_def image_perms_def to_upper_def fun_eq_iff split: if_splits)
  ultimately show ?thesis by simp
qed

end
