(* ===== verification/PoolInfo.thy ===== *)
theory PoolInfo
  imports Acl
begin

text \<open>
  The lists of a pool that users ask for (src/rm/RequestManagerPoolInfoFilter.cc): the WHERE clause by which the table is
  filtered for the user, and the rows that are shown.

  A row has the identifiers and permissions of its object and, in the table of virtual machines, the two states as
  numbers.  The clause is a tree instead of a text; the text that the source prints parses to it, as AND binds tighter than
  OR.  \<open>failed\<close> says whether the database rejects the statement.
\<close>

subsection \<open>Clauses\<close>

record pool_row = permissions +
  row_state :: int
  row_lcm :: int

datatype column = C_oid | C_uid | C_gid | C_group_u | C_other_u | C_state

fun column_value :: "column \<Rightarrow> pool_row \<Rightarrow> int" where
  "column_value C_oid r = p_oid r"
| "column_value C_uid r = p_uid r"
| "column_value C_gid r = p_gid r"
| "column_value C_group_u r = group_u r"
| "column_value C_other_u r = other_u r"
| "column_value C_state r = row_state r"

datatype clause = Equal column int | Differ column int | At_least column int | At_most column int
  | Lcm_in "int list" | And clause clause | Or clause clause

fun satisfies :: "clause \<Rightarrow> pool_row \<Rightarrow> bool" where
  "satisfies (Equal c x) r = (column_value c r = x)"
| "satisfies (Differ c x) r = (column_value c r \<noteq> x)"
| "satisfies (At_least c x) r = (column_value c r \<ge> x)"
| "satisfies (At_most c x) r = (column_value c r \<le> x)"
| "satisfies (Lcm_in xs) r = (row_lcm r \<in> set xs)"
| "satisfies (And a b) r = (satisfies a r \<and> satisfies b r)"
| "satisfies (Or a b) r = (satisfies a r \<or> satisfies b r)"

subsection \<open>The clause of a user\<close>

definition ALL_OBJECTS :: int where "ALL_OBJECTS = - 2"
definition MINE :: int where "MINE = - 3"
definition MINE_GROUP :: int where "MINE_GROUP = - 1"

text \<open>The objects and groups of the reverse search, each appended with OR.\<close>

definition acl_filter :: "found \<Rightarrow> clause \<Rightarrow> clause" where
  "acl_filter f c = foldl Or c (map (Equal C_oid) (f_oids f) @ map (Equal C_gid) (f_gids f))"

definition in_group_filter :: "int \<Rightarrow> clause" where
  "in_group_filter gid = And (Equal C_gid gid) (Equal C_group_u 1)"

text \<open>\<open>None\<close> is an empty clause.\<close>

definition uid_filter :: "int \<Rightarrow> int \<Rightarrow> ObjectType \<Rightarrow> int \<Rightarrow> aclm \<Rightarrow> clause option" where
  "uid_filter uid gid ty filter_flag m =
     (let admin = (uid = 0 \<or> gid = 0);
          f = (if admin then \<lparr>f_all = True, f_oids = [], f_gids = []\<rparr> else reverse_search uid gid ty USE m)
      in if filter_flag = MINE then Some (Equal C_uid uid)
         else if filter_flag = MINE_GROUP then Some (Or (Equal C_uid uid) (in_group_filter gid))
         else if filter_flag = ALL_OBJECTS
         then (if f_all f then None
               else Some (acl_filter f (Or (Or (Equal C_uid uid) (in_group_filter gid)) (Equal C_other_u 1))))
         else if filter_flag \<noteq> uid \<and> \<not> f_all f
         then Some (And (Equal C_uid filter_flag) (acl_filter f (Or (in_group_filter gid) (Equal C_other_u 1))))
         else Some (Equal C_uid filter_flag))"

definition id_filter :: "int \<Rightarrow> int \<Rightarrow> clause option" where
  "id_filter start_id end_id =
     (if start_id = - 1 then None
      else if end_id = - 1 then Some (At_least C_oid start_id)
      else Some (And (At_least C_oid start_id) (At_most C_oid end_id)))"

fun join_with :: "(clause \<Rightarrow> clause \<Rightarrow> clause) \<Rightarrow> clause option \<Rightarrow> clause option \<Rightarrow> clause option" where
  "join_with f None c = c"
| "join_with f (Some a) None = Some a"
| "join_with f (Some a) (Some b) = Some (f a b)"

text \<open>\<open>( id ) AND ( uid ) AND ( and_clause ) OR ( or_clause )\<close>, with the empty ones left out.\<close>

definition where_string :: "clause option \<Rightarrow> clause option \<Rightarrow> clause option \<Rightarrow> clause option \<Rightarrow> clause option" where
  "where_string id_clause uid_clause and_clause or_clause =
     join_with Or (join_with And (join_with And id_clause uid_clause) and_clause) or_clause"

definition select_where :: "clause option \<Rightarrow> pool_row list \<Rightarrow> pool_row list" where
  "select_where w rs = filter (\<lambda>r. case w of None \<Rightarrow> True | Some c \<Rightarrow> satisfies c r) rs"

datatype info = Listed "pool_row list" | Wrong_filter | Internal_error

definition info_dump ::
  "int \<Rightarrow> int \<Rightarrow> ObjectType \<Rightarrow> aclm \<Rightarrow> int \<Rightarrow> int \<Rightarrow> int \<Rightarrow> clause option \<Rightarrow> clause option \<Rightarrow> bool \<Rightarrow> pool_row list \<Rightarrow> info" where
  "info_dump uid gid ty m filter_flag start_id end_id and_clause or_clause failed rs =
     (if filter_flag < MINE then Wrong_filter
      else let w = where_string (id_filter start_id end_id) (uid_filter uid gid ty filter_flag m) and_clause or_clause
        in if failed then Internal_error else Listed (sort_key p_oid (select_where w rs)))"

subsection \<open>The requests\<close>

definition PoolInfoFilter :: "int \<Rightarrow> int \<Rightarrow> ObjectType \<Rightarrow> aclm \<Rightarrow> int \<Rightarrow> int \<Rightarrow> int \<Rightarrow> bool \<Rightarrow> pool_row list \<Rightarrow> info" where
  "PoolInfoFilter uid gid ty m filter_flag start_id end_id = info_dump uid gid ty m filter_flag start_id end_id None None"

text \<open>Hosts, groups and users are listed in full to those who may ask.\<close>

definition FullPoolInfo :: "int \<Rightarrow> int \<Rightarrow> ObjectType \<Rightarrow> aclm \<Rightarrow> bool \<Rightarrow> pool_row list \<Rightarrow> info" where
  "FullPoolInfo uid gid ty m = info_dump uid gid ty m ALL_OBJECTS (- 1) (- 1) None None"

definition ALL_VM :: int where "ALL_VM = - 2"
definition NOT_DONE :: int where "NOT_DONE = - 1"
definition S_DONE :: int where "S_DONE = 6"
definition S_FAILED :: int where "S_FAILED = 7"

definition state_filter :: "int \<Rightarrow> clause option" where
  "state_filter st = (if st = ALL_VM then None else if st = NOT_DONE then Some (Differ C_state S_DONE)
     else Some (Equal C_state st))"

definition VirtualMachinePoolInfo ::
  "int \<Rightarrow> int \<Rightarrow> aclm \<Rightarrow> int \<Rightarrow> int \<Rightarrow> int \<Rightarrow> int \<Rightarrow> bool \<Rightarrow> pool_row list \<Rightarrow> info" where
  "VirtualMachinePoolInfo uid gid m filter_flag start_id end_id st failed rs =
     (if st < ALL_VM \<or> st > S_FAILED then Wrong_filter
      else info_dump uid gid T_VM m filter_flag start_id end_id (state_filter st) None failed rs)"

text \<open>
  \<open>get_statistic\<close>: a list as above, if it is asked for, and the identifiers of the machines in a state.  \<open>lcm_states\<close> are
  the numbers in the text \<open>lcm_state\<close>, \<open>None\<close> if it is empty.  The condition of the second statement is malformed when
  that text is empty: it ends with \<open>or\<close>, or there is none after WHERE.  The order of the identifiers, by \<open>last_poll\<close>, is
  not modelled.
\<close>

definition statistic_where :: "int \<Rightarrow> int list option \<Rightarrow> clause option" where
  "statistic_where st lcm_states = (case lcm_states of
     None \<Rightarrow> None
   | Some xs \<Rightarrow> if st \<noteq> - 1 then Some (Or (Equal C_state st) (Lcm_in xs)) else Some (Lcm_in xs))"

definition get_statistic ::
  "int \<Rightarrow> int \<Rightarrow> aclm \<Rightarrow> int \<Rightarrow> int \<Rightarrow> int list option \<Rightarrow> bool \<Rightarrow> clause option \<Rightarrow> pool_row list \<Rightarrow> info \<times> int list" where
  "get_statistic uid gid m filter_flag st lcm_states returnxml and_clause rs =
     (if filter_flag < MINE then (Wrong_filter, [])
      else let w = where_string (map_option Lcm_in lcm_states) (uid_filter uid gid T_VM filter_flag m) and_clause None;
               xml = (if returnxml then sort_key p_oid (select_where w rs) else [])
        in (case statistic_where st lcm_states of
              None \<Rightarrow> (Internal_error, [])
            | Some c \<Rightarrow> (Listed xml, map p_oid (select_where (Some c) rs))))"

definition VirtualMachinePoolStatistic ::
  "int \<Rightarrow> int \<Rightarrow> aclm \<Rightarrow> int \<Rightarrow> int \<Rightarrow> int list option \<Rightarrow> bool \<Rightarrow> pool_row list \<Rightarrow> info \<times> int list" where
  "VirtualMachinePoolStatistic uid gid m filter_flag st lcm_states returnxml rs =
     (if st < ALL_VM \<or> st > S_FAILED then (Wrong_filter, [])
      else get_statistic uid gid m filter_flag st lcm_states returnxml (state_filter st) rs)"

subsection \<open>What a user sees\<close>

definition in_range :: "int \<Rightarrow> int \<Rightarrow> int \<Rightarrow> bool" where
  "in_range start_id end_id i \<longleftrightarrow> start_id = - 1 \<or> start_id \<le> i \<and> (end_id = - 1 \<or> i \<le> end_id)"

definition holds :: "clause option \<Rightarrow> pool_row \<Rightarrow> bool" where
  "holds w r = (case w of None \<Rightarrow> True | Some c \<Rightarrow> satisfies c r)"

lemma holds_simps [simp]: "holds None r" "holds (Some c) r = satisfies c r"
  by (simp_all add: holds_def)

lemma holds_join_And [simp]: "holds (join_with And a b) r \<longleftrightarrow> holds a r \<and> holds b r"
  by (cases a; cases b) simp_all

lemma where_holds: "holds (where_string i u a None) r \<longleftrightarrow> holds i r \<and> holds u r \<and> holds a r"
proof -
  have "join_with Or c None = c" for c by (cases c) simp_all
  then show ?thesis by (simp add: where_string_def)
qed

lemma id_filter_holds: "holds (id_filter s e) r \<longleftrightarrow> in_range s e (p_oid r)"
  by (simp add: id_filter_def in_range_def)

lemma satisfies_acl_filter:
  "satisfies (acl_filter f c) r \<longleftrightarrow> satisfies c r \<or> p_oid r \<in> set (f_oids f) \<or> p_gid r \<in> set (f_gids f)"
proof -
  have "satisfies (foldl Or c cs) r \<longleftrightarrow> satisfies c r \<or> (\<exists>x \<in> set cs. satisfies x r)" for c cs
    by (induction cs arbitrary: c) auto
  then show ?thesis by (auto simp: acl_filter_def)
qed

text \<open>The rows that a filter flag is about.\<close>

definition in_scope :: "int \<Rightarrow> int \<Rightarrow> int \<Rightarrow> pool_row \<Rightarrow> bool" where
  "in_scope uid gid flag r \<longleftrightarrow>
     (if flag = MINE then p_uid r = uid
      else if flag = MINE_GROUP then p_uid r = uid \<or> p_gid r = gid \<and> group_u r = 1
      else if flag = ALL_OBJECTS then True else p_uid r = flag)"

definition row_ids :: "pool_row \<Rightarrow> bool" where
  "row_ids r \<longleftrightarrow> p_oid r \<in> {-1 ..< 2 ^ 31} \<and> p_uid r \<in> {-1 ..< 2 ^ 31} \<and> p_gid r \<in> {-1 ..< 2 ^ 31}"

text \<open>What a user may use, with his own objects, whatever their permissions say.\<close>

definition visible :: "int \<Rightarrow> int \<Rightarrow> aclm \<Rightarrow> pool_row \<Rightarrow> bool" where
  "visible uid gid m r \<longleftrightarrow> uid = 0 \<or> gid = 0 \<or> p_uid r = uid \<or> authorize uid gid (permissions.truncate r) USE m"

lemma visible_iff:
  assumes "acl_ok m" "uid \<in> {1 ..< 2 ^ 31}" "gid \<in> {1 ..< 2 ^ 31}" "row_ids r" "obj_type r = ty"
  shows "visible uid gid m r \<longleftrightarrow> p_uid r = uid \<or> p_gid r = gid \<and> group_u r = 1 \<or> other_u r = 1 \<or>
    hits (reverse_search uid gid ty USE m) (p_oid r) (p_gid r)"
proof -
  have t: "obj_type (permissions.truncate r) = obj_type r" "p_oid (permissions.truncate r) = p_oid r"
    "p_uid (permissions.truncate r) = p_uid r" "p_gid (permissions.truncate r) = p_gid r"
    "group_u (permissions.truncate r) = group_u r" "other_u (permissions.truncate r) = other_u r"
    "owner_u (permissions.truncate r) = owner_u r"
    by (simp_all add: permissions.truncate_def)
  have "authorize uid gid (permissions.truncate r) USE m \<longleftrightarrow> p_uid r = uid \<and> owner_u r = 1 \<or>
      p_gid r = gid \<and> group_u r = 1 \<or> other_u r = 1 \<or> hits (reverse_search uid gid ty USE m) (p_oid r) (p_gid r)"
    using authorize_iff [OF assms(1), of uid gid "permissions.truncate r" USE]
      reverse_hits [OF assms(1), of uid gid ty USE "p_oid r" "p_gid r"] assms(2-5)
    by (simp add: t row_ids_def)
  then show ?thesis using assms(2,3) by (auto simp: visible_def)
qed

lemma uid_filter_holds:
  assumes "acl_ok m" "uid \<in> {0 ..< 2 ^ 31}" "gid \<in> {0 ..< 2 ^ 31}" "row_ids r" "obj_type r = ty"
  shows "holds (uid_filter uid gid ty flag m) r \<longleftrightarrow> in_scope uid gid flag r \<and> visible uid gid m r"
proof (cases "uid = 0 \<or> gid = 0")
  case True
  then show ?thesis
    by (auto simp: uid_filter_def in_scope_def visible_def in_group_filter_def MINE_def MINE_GROUP_def ALL_OBJECTS_def)
next
  case False
  then have "visible uid gid m r \<longleftrightarrow> p_uid r = uid \<or> p_gid r = gid \<and> group_u r = 1 \<or> other_u r = 1 \<or>
      hits (reverse_search uid gid ty USE m) (p_oid r) (p_gid r)"
    using assms by (intro visible_iff) auto
  with False show ?thesis
    by (auto simp: uid_filter_def in_scope_def in_group_filter_def Let_def satisfies_acl_filter hits_def)
qed

text \<open>C35. A list of a pool shows, in the order of their identifiers, exactly the objects that the filter flag asks for, in
  the range of identifiers, that the user owns or is authorized to use by their permissions or by a rule; an
  administrator sees all.  So the clause in SQL and the authorization of single requests agree.\<close>

theorem listing_exact:
  assumes "acl_ok m" "uid \<in> {0 ..< 2 ^ 31}" "gid \<in> {0 ..< 2 ^ 31}" "\<forall>r \<in> set rs. row_ids r \<and> obj_type r = ty" "MINE \<le> flag"
  shows "info_dump uid gid ty m flag s e c None False rs =
    Listed (sort_key p_oid (filter (\<lambda>r. in_range s e (p_oid r) \<and> in_scope uid gid flag r \<and> visible uid gid m r \<and> holds c r) rs))"
proof -
  have "select_where (where_string (id_filter s e) (uid_filter uid gid ty flag m) c None) rs =
      filter (\<lambda>r. in_range s e (p_oid r) \<and> in_scope uid gid flag r \<and> visible uid gid m r \<and> holds c r) rs"
    unfolding select_where_def holds_def [symmetric]
    using assms(1-4) by (intro filter_cong refl) (auto simp: where_holds id_filter_holds uid_filter_holds)
  then show ?thesis using assms(5) by (simp add: info_dump_def)
qed

text \<open>The identifiers of \<open>get_statistic\<close> are not filtered for the user at all.\<close>

lemma statistic_shows_all:
  assumes "MINE \<le> flag" "st \<in> {0 .. 7}"
  shows "snd (VirtualMachinePoolStatistic uid gid m flag st (Some xs) b rs) =
    map p_oid (filter (\<lambda>r. row_state r = st \<or> row_lcm r \<in> set xs) rs)"
  using assms by (simp add: VirtualMachinePoolStatistic_def get_statistic_def statistic_where_def select_where_def Let_def
      ALL_VM_def S_FAILED_def)

lemma statistic_without_lcm_fails:
  assumes "MINE \<le> flag" "st \<in> {-2 .. 7}"
  shows "VirtualMachinePoolStatistic uid gid m flag st None b rs = (Internal_error, [])"
  using assms by (simp add: VirtualMachinePoolStatistic_def get_statistic_def statistic_where_def Let_def
      ALL_VM_def S_FAILED_def)

definition vm_row :: "int \<Rightarrow> int \<Rightarrow> int \<Rightarrow> pool_row" where
  "vm_row i u gu = \<lparr>obj_type = T_VM, p_oid = i, p_uid = u, p_gid = 1, owner_u = 1, owner_m = 1, owner_a = 0,
     group_u = gu, group_m = 0, group_a = 0, other_u = 0, other_m = 0, other_a = 0, row_state = 3, row_lcm = 3\<rparr>"

lemma vm_row_visible:
  assumes "i \<in> {0 .. 9}" "u \<in> {0 .. 9}"
  shows "visible 3 1 default_acl (vm_row i u gu) \<longleftrightarrow> u = 3 \<or> gu = 1"
proof -
  have "\<not> hits (reverse_search 3 1 T_VM USE default_acl) i 1"
    using reverse_hits [OF default_acl_ok, of 3 1 T_VM USE i 1] by (auto simp: default_rules permits_def)
  then show ?thesis
    using visible_iff [OF default_acl_ok, of 3 1 "vm_row i u gu" T_VM] assms by (simp add: vm_row_def row_ids_def)
qed

theorem listing_exact_witness:
  "\<exists>rs. info_dump 3 1 T_VM default_acl ALL_OBJECTS (- 1) (- 1) None None False [vm_row 9 5 0, vm_row 4 3 0, vm_row 2 5 1] =
     Listed rs \<and> map p_oid rs = [2, 4]"
proof -
  let ?rs = "[vm_row 9 5 0, vm_row 4 3 0, vm_row 2 5 1]"
  have o: "p_oid (vm_row i u g) = i" for i u g by (simp add: vm_row_def)
  have "info_dump 3 1 T_VM default_acl ALL_OBJECTS (- 1) (- 1) None None False ?rs =
      Listed (sort_key p_oid (filter (\<lambda>r. in_range (-1) (-1) (p_oid r) \<and> in_scope 3 1 ALL_OBJECTS r \<and>
        visible 3 1 default_acl r \<and> holds None r) ?rs))"
    by (rule listing_exact [OF default_acl_ok]) (simp_all add: vm_row_def row_ids_def ALL_OBJECTS_def MINE_def)
  also have "\<dots> = Listed [vm_row 2 5 1, vm_row 4 3 0]"
    by (simp add: vm_row_visible o in_range_def in_scope_def ALL_OBJECTS_def MINE_def MINE_GROUP_def)
  finally show ?thesis by (simp add: o)
qed

end
