(* ===== verification/ActionManager.thy ===== *)
theory ActionManager
  imports Prelude
begin

text \<open>
  The queue of a manager (src/common/ActionManager.cc): other threads trigger actions, the thread of the manager takes
  them in its loop and calls \<open>do_action\<close>.  The mutex makes \<open>trigger\<close> and one round of the test and the removal single
  steps; waiting for the condition gives the mutex back.  \<open>am_pc\<close> is where the thread of the manager is, \<open>pushed\<close> and
  \<open>handled\<close> are the actions queued and those given to the listener since the start.  A timer of 0 is no timer.
\<close>

subsection \<open>The loop\<close>

type_synonym 'a request = "string \<times> 'a"

datatype 'a am_pc = At_test | Asleep | In_action "'a request" | Ended

record 'a am =
  am_queue :: "'a request list"
  am_pc :: "'a am_pc"
  am_now :: int
  am_timeout :: int
  pushed :: "'a request list"
  handled :: "'a request list"

definition ACTION_TIMER :: string where "ACTION_TIMER = ''ACTION_TIMER''"
definition ACTION_FINALIZE :: string where "ACTION_FINALIZE = ''ACTION_FINALIZE''"

definition am_push :: "'a request \<Rightarrow> 'a am \<Rightarrow> 'a am" where
  "am_push a s = s\<lparr>am_queue := am_queue s @ [a], pushed := pushed s @ [a]\<rparr>"

definition am_start :: "int \<Rightarrow> int \<Rightarrow> 'a am" where
  "am_start t timer = \<lparr>am_queue = [], am_pc = At_test, am_now = t, am_timeout = t + timer, pushed = [], handled = []\<rparr>"

text \<open>The thread of the manager tests the queue, with the mutex, and takes its front or goes to sleep.\<close>

definition am_test :: "'a am \<Rightarrow> 'a am" where
  "am_test s = (case am_queue s of [] \<Rightarrow> s\<lparr>am_pc := Asleep\<rparr>
     | a # q \<Rightarrow> s\<lparr>am_queue := q, am_pc := In_action a, handled := handled s @ [a]\<rparr>)"

text \<open>The end of \<open>do_action\<close>.\<close>

definition am_return :: "int \<Rightarrow> 'a request \<Rightarrow> 'a am \<Rightarrow> 'a am" where
  "am_return timer a s =
     (if fst a = ACTION_TIMER then s\<lparr>am_pc := At_test, am_timeout := am_now s + timer\<rparr>
      else if fst a = ACTION_FINALIZE then s\<lparr>am_pc := Ended\<rparr> else s\<lparr>am_pc := At_test\<rparr>)"

text \<open>
  The steps: another thread triggers an action or time goes on, and the steps of the manager.  A sleeping thread wakes up
  at any time, by a signal or for no reason; \<open>Expire\<close> is a wait that has timed out, which queues the timer even if an
  action has come meanwhile.
\<close>

inductive am_step :: "int \<Rightarrow> 'a \<Rightarrow> 'a am \<Rightarrow> 'a am \<Rightarrow> bool" for timer :: int and timer_args :: 'a where
  Trigger: "am_step timer timer_args s (am_push a s)"
| Tick: "0 \<le> d \<Longrightarrow> am_step timer timer_args s (s\<lparr>am_now := am_now s + d\<rparr>)"
| Test: "am_pc s = At_test \<Longrightarrow> am_step timer timer_args s (am_test s)"
| Wake: "am_pc s = Asleep \<Longrightarrow> am_step timer timer_args s (s\<lparr>am_pc := At_test\<rparr>)"
| Expire: "am_pc s = Asleep \<Longrightarrow> timer \<noteq> 0 \<Longrightarrow> am_timeout s \<le> am_now s \<Longrightarrow>
    am_step timer timer_args s ((am_push (ACTION_TIMER, timer_args) s)\<lparr>am_pc := At_test\<rparr>)"
| Return: "am_pc s = In_action a \<Longrightarrow> am_step timer timer_args s (am_return timer a s)"

inductive am_run :: "int \<Rightarrow> 'a \<Rightarrow> 'a am \<Rightarrow> 'a am \<Rightarrow> bool" for timer :: int and timer_args :: 'a where
  Here: "am_run timer timer_args s s"
| Then: "am_run timer timer_args s t \<Longrightarrow> am_step timer timer_args t u \<Longrightarrow> am_run timer timer_args s u"

inductive_cases am_stepE: "am_step timer timer_args s t"

subsection \<open>What is handled\<close>

text \<open>Nothing is lost, doubled or overtaken; an end is handled last.\<close>

definition am_inv :: "'a am \<Rightarrow> bool" where
  "am_inv s \<longleftrightarrow> pushed s = handled s @ am_queue s \<and>
     (case am_pc s of In_action a \<Rightarrow> \<exists>hs. handled s = hs @ [a] \<and> ACTION_FINALIZE \<notin> fst ` set hs
        | Ended \<Rightarrow> \<exists>hs x. handled s = hs @ [(ACTION_FINALIZE, x)] \<and> ACTION_FINALIZE \<notin> fst ` set hs
        | _ \<Rightarrow> ACTION_FINALIZE \<notin> fst ` set (handled s))"

lemma finalize_not_timer [simp]: "ACTION_TIMER \<noteq> ACTION_FINALIZE" "ACTION_FINALIZE \<noteq> ACTION_TIMER"
  by (simp_all add: ACTION_TIMER_def ACTION_FINALIZE_def)

lemma am_push_simps [simp]:
  "am_queue (am_push a s) = am_queue s @ [a]" "pushed (am_push a s) = pushed s @ [a]" "handled (am_push a s) = handled s"
  "am_pc (am_push a s) = am_pc s" "am_now (am_push a s) = am_now s" "am_timeout (am_push a s) = am_timeout s"
  by (simp_all add: am_push_def)

lemma am_step_inv:
  assumes "am_step timer timer_args s t" "am_inv s"
  shows "am_inv t"
  using assms
proof cases
  case (Return a)
  then obtain hs where "handled s = hs @ [a]" "ACTION_FINALIZE \<notin> fst ` set hs" "pushed s = handled s @ am_queue s"
    using assms(2) by (auto simp: am_inv_def)
  with Return show ?thesis by (cases a) (auto simp: am_inv_def am_return_def)
qed (auto simp: am_inv_def am_test_def split: list.split am_pc.splits)

lemma am_run_inv:
  assumes "am_run timer timer_args s t" "am_inv s"
  shows "am_inv t"
  using assms by induction (auto intro: am_step_inv)

lemma am_run_trans:
  assumes "am_run timer timer_args t u" "am_run timer timer_args s t"
  shows "am_run timer timer_args s u"
  using assms by induction (auto intro: am_run.intros)

lemma am_start_inv: "am_inv (am_start t timer)"
  by (simp add: am_inv_def am_start_def)

text \<open>C36. In every interleaving with the threads that trigger actions, a manager handles its actions in the order in which
  they were queued, each once, and none is lost: what was queued is what was handled, followed by what is in the queue.
  The loop ends with the first end that was queued; what was queued after it is never handled.\<close>

theorem actions_in_order:
  assumes "am_run timer timer_args (am_start t timer) s"
  shows "pushed s = handled s @ am_queue s \<and>
    (am_pc s = Ended \<longrightarrow> (\<exists>hs x. handled s = hs @ [(ACTION_FINALIZE, x)])) \<and>
    (ACTION_FINALIZE \<in> fst ` set (butlast (handled s)) \<longrightarrow> False)"
  using am_run_inv [OF assms am_start_inv]
  by (auto simp: am_inv_def butlast_append split: am_pc.splits dest: in_set_butlastD)

subsection \<open>Every action is taken\<close>

text \<open>The steps of the manager alone: whatever the others do, one of them is possible until the loop has ended.\<close>

definition am_own :: "int \<Rightarrow> 'a am \<Rightarrow> 'a am" where
  "am_own timer s = (case am_pc s of At_test \<Rightarrow> am_test s | Asleep \<Rightarrow> s\<lparr>am_pc := At_test\<rparr>
     | In_action a \<Rightarrow> am_return timer a s | Ended \<Rightarrow> s)"

lemma am_own_step: "am_pc s \<noteq> Ended \<Longrightarrow> am_step timer timer_args s (am_own timer s)"
  by (cases "am_pc s") (auto simp: am_own_def intro: am_step.intros)

lemma takes_front:
  assumes "am_pc s \<noteq> Ended" "\<forall>a. am_pc s = In_action a \<longrightarrow> fst a \<noteq> ACTION_FINALIZE" "am_queue s = a # q"
  shows "\<exists>n \<le> 2. handled ((am_own timer ^^ n) s) = handled s @ [a] \<and> am_queue ((am_own timer ^^ n) s) = q \<and>
    am_pc ((am_own timer ^^ n) s) = In_action a"
proof (cases "am_pc s")
  case At_test
  then show ?thesis using assms(3) by (intro exI [of _ 1]) (simp add: am_own_def am_test_def)
next
  case Asleep
  then show ?thesis using assms(3) by (intro exI [of _ 2]) (simp add: am_own_def am_test_def numeral_2_eq_2)
next
  case (In_action b)
  then show ?thesis using assms(2,3) by (intro exI [of _ 2]) (simp add: am_own_def am_test_def am_return_def numeral_2_eq_2)
next
  case Ended
  then show ?thesis using assms(1) by simp
qed

lemma takes_all:
  assumes "am_pc s \<noteq> Ended" "\<forall>a. am_pc s = In_action a \<longrightarrow> fst a \<noteq> ACTION_FINALIZE" "am_queue s = q @ r"
    "ACTION_FINALIZE \<notin> fst ` set q"
  shows "\<exists>n \<le> 2 * length q. handled ((am_own timer ^^ n) s) = handled s @ q \<and> am_queue ((am_own timer ^^ n) s) = r"
  using assms
proof (induction q arbitrary: s)
  case Nil
  then show ?case by (intro exI [of _ 0]) simp
next
  case (Cons a q)
  obtain n where n: "n \<le> 2" "handled ((am_own timer ^^ n) s) = handled s @ [a]" "am_queue ((am_own timer ^^ n) s) = q @ r"
    "am_pc ((am_own timer ^^ n) s) = In_action a"
    using takes_front [of s a "q @ r" timer] Cons.prems by auto
  define t where "t = (am_own timer ^^ n) s"
  have "\<exists>k \<le> 2 * length q. handled ((am_own timer ^^ k) t) = handled t @ q \<and> am_queue ((am_own timer ^^ k) t) = r"
    using Cons.IH [of t] Cons.prems(4) n(3,4) by (auto simp: t_def)
  then obtain k where k: "k \<le> 2 * length q" "handled ((am_own timer ^^ k) t) = handled t @ q" "am_queue ((am_own timer ^^ k) t) = r"
    by blast
  moreover have "(am_own timer ^^ (k + n)) s = (am_own timer ^^ k) t" by (simp add: funpow_add t_def)
  ultimately show ?case using n(1,2) by (intro exI [of _ "k + n"]) (simp add: t_def)
qed

subsection \<open>The timer\<close>

text \<open>The time is looked at only when the queue is empty: with an action in the queue at each test the timer does not run,
  however late it is.\<close>

fun busy_rounds :: "int \<Rightarrow> 'a request \<Rightarrow> nat \<Rightarrow> 'a am \<Rightarrow> 'a am" where
  "busy_rounds timer a 0 s = s"
| "busy_rounds timer a (Suc n) s =
     busy_rounds timer a n (am_own timer (am_own timer ((am_push a s)\<lparr>am_now := am_now s + 1\<rparr>)))"

lemma busy_round_state:
  assumes "am_pc s = At_test" "am_queue s = []" "fst a \<notin> {ACTION_TIMER, ACTION_FINALIZE}"
  shows "am_own timer (am_own timer ((am_push a s)\<lparr>am_now := am_now s + 1\<rparr>)) =
    s\<lparr>am_now := am_now s + 1, pushed := pushed s @ [a], handled := handled s @ [a]\<rparr>"
  using assms by (simp add: am_own_def am_test_def am_return_def am_push_def)

lemma busy_timer_starves:
  assumes "am_pc s = At_test" "am_queue s = []" "fst a \<notin> {ACTION_TIMER, ACTION_FINALIZE}"
  shows "am_run timer timer_args s (busy_rounds timer a n s) \<and>
    am_now (busy_rounds timer a n s) = am_now s + int n \<and> handled (busy_rounds timer a n s) = handled s @ replicate n a"
  using assms
proof (induction n arbitrary: s)
  case 0
  then show ?case by (simp add: am_run.Here)
next
  case (Suc n)
  let ?p = "am_push a s"
  let ?u = "?p\<lparr>am_now := am_now s + 1\<rparr>"
  let ?t = "am_own timer (am_own timer ?u)"
  have t: "?t = s\<lparr>am_now := am_now s + 1, pushed := pushed s @ [a], handled := handled s @ [a]\<rparr>"
    by (rule busy_round_state [OF Suc.prems])
  have "am_step timer timer_args ?p ?u" using am_step.Tick [of 1 timer timer_args ?p] by simp
  then have "am_run timer timer_args s ?u" by (meson am_run.intros am_step.Trigger)
  moreover have "am_pc ?u \<noteq> Ended" using Suc.prems(1) by simp
  moreover have "am_pc (am_own timer ?u) \<noteq> Ended" using Suc.prems by (simp add: am_own_def am_test_def)
  ultimately have r: "am_run timer timer_args s ?t" by (meson am_run.Then am_own_step)
  have "am_run timer timer_args ?t (busy_rounds timer a n ?t) \<and> am_now (busy_rounds timer a n ?t) = am_now ?t + int n \<and>
      handled (busy_rounds timer a n ?t) = handled ?t @ replicate n a"
    using Suc.prems by (intro Suc.IH) (simp_all add: t)
  then show ?case using am_run_trans [OF _ r] by (simp add: t replicate_append_same)
qed

theorem actions_in_order_witness:
  "\<exists>s. am_run 0 (0::nat) (am_start 5 0) s \<and> pushed s = [(''POLL'', 7), (''LOG'', 8)] \<and>
     handled s @ am_queue s = [(''POLL'', 7), (''LOG'', 8)] \<and> handled s = [(''POLL'', 7)]"
proof -
  let ?s2 = "am_push (''LOG'', 8) (am_push (''POLL'', 7) (am_start 5 0))"
  have "am_run 0 (0::nat) (am_start 5 0) ?s2" by (meson am_run.intros am_step.Trigger)
  moreover have "am_pc ?s2 = At_test" by (simp add: am_start_def)
  ultimately have run: "am_run 0 (0::nat) (am_start 5 0) (am_test ?s2)" by (meson am_run.Then am_step.Test)
  have "pushed (am_test ?s2) = [(''POLL'', 7), (''LOG'', 8)]" "handled (am_test ?s2) = [(''POLL'', 7)]"
    by (simp_all add: am_test_def am_start_def)
  with actions_in_order [OF run] run show ?thesis by metis
qed

end
