(* ===== verification/Statements.thy ===== *)
theory Statements
  imports LcmManager
begin

text \<open>
  What can be said of a handler from the statements it is made of.

  \<open>prim vid f\<close> lists the statements on a locked VM \<open>vid\<close>, \<open>body vid f\<close> the bodies built from them.  The
  locale \<open>handler_rel\<close> is the interface of a relation between the state before and after: reflexive,
  transitive and respected by each statement; inside it, every body respects the relation.  Its
  instances below give the frame of a handler (what it leaves alone), and the history discipline.
\<close>

text \<open>An update of a history record that leaves the fields that identify it.\<close>

definition annotates :: "(int \<Rightarrow> history \<Rightarrow> history) \<Rightarrow> bool" where
  "annotates f \<longleftrightarrow> (\<forall>t h. seq (f t h) = seq h \<and> hid (f t h) = hid h)"

inductive prim :: "int \<Rightarrow> (locked \<Rightarrow> locked res) \<Rightarrow> bool" for vid where
  p_set_lcm: "prim vid (set_lcm s)"
| p_set_dm: "prim vid (set_dm d)"
| p_set_lcmstate: "prim vid (set_lcmstate s)"
| p_set_exit_time: "prim vid set_exit_time"
| p_on_hist: "annotates f \<Longrightarrow> prim vid (on_hist f)"
| p_on_previous: "annotates f \<Longrightarrow> prim vid (on_previous f)"
| p_set_bkstate: "prim vid (set_bkstate b)"
| p_set_bketime: "prim vid set_bketime"
| p_set_dkstate: "prim vid (set_dkstate k)"
| p_copy: "prim vid copy_history"
| p_copy_previous: "prim vid copy_previous_history"
| p_update: "prim vid update"
| p_update_history: "prim vid update_history"
| p_update_previous: "prim vid update_previous_history"
| p_update_backup: "prim vid update_backup"
| p_update_backupdisk: "prim vid update_backupdisk"
| p_updatebkstate: "prim vid (updatebkstate bid b)"
| p_updatedkstate: "prim vid (updatedkstate bid k)"
| p_add: "prim vid add_capacity"
| p_del: "prim vid del_capacity"
| p_del_previous: "prim vid del_capacity_previous"
| p_tm: "prim vid (tm ta vid)"
| p_tm_oid: "prim vid (\<lambda>(v, w). tm ta (vm_oid v) (v, w))"
| p_vmm: "prim vid (vmm va vid)"
| p_dm: "prim vid (dm da vid)"
| p_dm_oid: "prim vid (\<lambda>(v, w). dm da (vm_oid v) (v, w))"
| p_lcm: "prim vid (lcm la vid)"

inductive body :: "int \<Rightarrow> (locked \<Rightarrow> locked res) \<Rightarrow> bool" for vid where
  b_prim: "prim vid f \<Longrightarrow> body vid f"
| b_Nil: "body vid (steps [])"
| b_Cons: "body vid f \<Longrightarrow> body vid (steps fs) \<Longrightarrow> body vid (steps (f # fs))"
| b_branch: "body vid (steps fs) \<Longrightarrow> body vid (steps gs) \<Longrightarrow> body vid (branch c fs gs)"
| b_local: "(\<And>s. vm_oid (fst s) = vid \<Longrightarrow> body vid (g s)) \<Longrightarrow> body vid (\<lambda>s. g s s)"

named_theorems body_intros \<open>bodies, statement by statement\<close>

lemmas prim_bodies [body_intros] = prim.intros [THEN b_prim]

lemma annotates_simps [simp]:
  "annotates (\<lambda>t h. h\<lparr>stime := t\<rparr>)" "annotates (\<lambda>t h. h\<lparr>etime := t\<rparr>)"
  "annotates (\<lambda>t h. h\<lparr>prolog_stime := t\<rparr>)" "annotates (\<lambda>t h. h\<lparr>prolog_etime := t\<rparr>)"
  "annotates (\<lambda>t h. h\<lparr>running_stime := t\<rparr>)" "annotates (\<lambda>t h. h\<lparr>running_etime := t\<rparr>)"
  "annotates (\<lambda>t h. h\<lparr>epilog_stime := t\<rparr>)" "annotates (\<lambda>t h. h\<lparr>epilog_etime := t\<rparr>)"
  "annotates (\<lambda>t h. h\<lparr>reason := r\<rparr>)"
  by (simp_all add: annotates_def)

lemma body_setters [body_intros]:
  "body vid set_stime" "body vid set_etime" "body vid set_prolog_stime" "body vid set_prolog_etime"
  "body vid set_running_stime" "body vid set_running_etime" "body vid set_epilog_stime"
  "body vid set_epilog_etime" "body vid (set_reason r)" "body vid set_previous_etime"
  "body vid set_previous_running_etime" "body vid (set_previous_reason r)"
  unfolding set_stime_def set_etime_def set_prolog_stime_def set_prolog_etime_def
    set_running_stime_def set_running_etime_def set_epilog_stime_def set_epilog_etime_def
    set_reason_def set_previous_etime_def set_previous_running_etime_def set_previous_reason_def
  by (rule b_prim, rule p_on_hist p_on_previous, simp)+

lemmas body_structure [body_intros] = b_Nil b_Cons b_branch

lemma body_failure_action [body_intros]: "body vid failure_action"
  unfolding failure_action_def by (intro body_intros)

lemma body_clean_up_requests [body_intros]: "body vid (steps (clean_up_requests s vid))"
  by (cases s) (simp_all add: clean_up_requests_def del: steps.simps, (intro body_intros)+)

lemma body_clean_up_vm [body_intros]: "body vid clean_up_vm"
proof -
  define f where "f s = steps ([set_lcm CLEANUP, update, set_etime, set_reason R_USER, del_capacity] @
     clean_up_requests (lcm_state (fst s)) (vm_oid (fst s)))" for s :: locked
  have "clean_up_vm = (\<lambda>s. f s s)"
    by (simp add: clean_up_vm_def f_def fun_eq_iff Let_def del: steps.simps)
  moreover have "body vid (\<lambda>s. f s s)"
    unfolding f_def append.simps by (rule b_local, simp only:, intro body_intros)
  ultimately show ?thesis by simp
qed

subsection \<open>Relations a body respects\<close>

definition obeys :: "int \<Rightarrow> (locked \<Rightarrow> locked \<Rightarrow> bool) \<Rightarrow> (locked \<Rightarrow> locked res) \<Rightarrow> bool" where
  "obeys vid R f \<longleftrightarrow> (\<forall>s s'. vm_oid (fst s) = vid \<longrightarrow> f s = Done s' \<longrightarrow>
     vm_oid (fst s') = vid \<and> R s s')"

lemma obeysI:
  "(\<And>s s'. vm_oid (fst s) = vid \<Longrightarrow> f s = Done s' \<Longrightarrow> vm_oid (fst s') = vid \<and> R s s') \<Longrightarrow> obeys vid R f"
  by (simp add: obeys_def)

lemma obeysD:
  assumes "obeys vid R f" "vm_oid (fst s) = vid" "f s = Done s'"
  shows "vm_oid (fst s') = vid" "R s s'"
  using assms unfolding obeys_def by blast+

locale handler_rel =
  fixes vid :: int and R :: "locked \<Rightarrow> locked \<Rightarrow> bool"
  assumes R_refl: "R s s"
    and R_trans: "R a b \<Longrightarrow> R b c \<Longrightarrow> R a c"
    and R_prim: "prim vid f \<Longrightarrow> obeys vid R f"
begin

lemma obeys_bind:
  assumes "obeys vid R f" "obeys vid R g"
  shows "obeys vid R (\<lambda>s. bind_res (f s) g)"
proof (rule obeysI)
  fix s s' assume o: "vm_oid (fst s) = vid" and d: "bind_res (f s) g = Done s'"
  obtain t where t: "f s = Done t" "g t = Done s'" using d by (auto simp: bind_res_Done_iff)
  have 1: "vm_oid (fst t) = vid" "R s t" using obeysD [OF assms(1) o t(1)] by auto
  have 2: "vm_oid (fst s') = vid" "R t s'" using obeysD [OF assms(2) 1(1) t(2)] by auto
  show "vm_oid (fst s') = vid \<and> R s s'" using 2(1) R_trans [OF 1(2) 2(2)] by simp
qed

lemma obeys_body: "body vid f \<Longrightarrow> obeys vid R f"
proof (induction rule: body.induct)
  case (b_prim f)
  then show ?case by (rule R_prim)
next
  case b_Nil
  show ?case by (auto simp: obeys_def R_refl)
next
  case (b_Cons f fs)
  have "obeys vid R (\<lambda>s. bind_res (f s) (steps fs))" by (rule obeys_bind) fact+
  then show ?case by (simp add: obeys_def)
next
  case (b_branch fs gs c)
  show ?case
  proof (rule obeysI)
    fix s s' assume o: "vm_oid (fst s) = vid" and d: "branch c fs gs s = Done s'"
    from d show "vm_oid (fst s') = vid \<and> R s s'"
    proof (rule branchE)
      assume "steps fs s = Done s'"
      then show ?thesis using obeysD [OF b_branch.IH(1) o] by blast
    next
      assume "steps gs s = Done s'"
      then show ?thesis using obeysD [OF b_branch.IH(2) o] by blast
    qed
  qed
next
  case (b_local g)
  show ?case
  proof (rule obeysI)
    fix s s' assume "vm_oid (fst s) = vid" "g s s = Done s'"
    then show "vm_oid (fst s') = vid \<and> R s s'"
      using obeysD [OF b_local.IH, of s s s'] by simp
  qed
qed

end

text \<open>No statement changes the VM's id.\<close>

interpretation oid_rel: handler_rel vid "\<lambda>_ _. True" for vid
proof
  show "prim vid f \<Longrightarrow> obeys vid (\<lambda>_ _. True) f" for f
    by (induction rule: prim.induct)
       (auto simp: obeys_def stmt_defs cp_history_def cp_previous_history_def
             split: list.splits option.splits)
qed simp_all

lemma body_keeps_oid: "body vid f \<Longrightarrow> vm_oid (fst s) = vid \<Longrightarrow> f s = Done s' \<Longrightarrow> vm_oid (fst s') = vid"
  using oid_rel.obeys_body [of vid f] by (rule obeysD)

subsection \<open>Handlers\<close>

text \<open>A handler is its body on the locked VM, with the unlock last: \<open>releases vid g\<close> says that \<open>g\<close> does
  what a body does and then unlocks the VM.\<close>

definition releases :: "int \<Rightarrow> (locked \<Rightarrow> locked res) \<Rightarrow> bool" where
  "releases vid g \<longleftrightarrow> (\<forall>s. vm_oid (fst s) = vid \<longrightarrow>
     (\<exists>f. body vid f \<and> g s = bind_res (f s) unlock))"

lemma releases_unlock: "releases vid (steps [unlock])"
proof -
  have "steps [unlock] s = bind_res (steps [] s) unlock" for s :: locked
    by (cases "unlock s") (auto simp: unlock_def split: prod.splits)
  then show ?thesis unfolding releases_def using b_Nil by blast
qed

lemma releases_Cons:
  assumes "body vid f" "releases vid (steps fs)"
  shows "releases vid (steps (f # fs))"
  unfolding releases_def
proof (intro allI impI)
  fix s :: locked assume o: "vm_oid (fst s) = vid"
  show "\<exists>g. body vid g \<and> steps (f # fs) s = bind_res (g s) unlock"
  proof (cases "f s")
    case (Done s')
    show ?thesis
    proof (cases "vm_oid (fst s') = vid")
      case True
      obtain g where g: "body vid g" "steps fs s' = bind_res (g s') unlock"
        using assms(2) True unfolding releases_def by blast
      have "body vid (steps [f, g])"
        by (intro b_Cons b_Nil assms(1) g(1))
      moreover have "steps (f # fs) s = bind_res (steps [f, g] s) unlock"
        using Done g(2) by (cases "g s'") auto
      ultimately show ?thesis by blast
    next
      case False
      then show ?thesis using body_keeps_oid [OF assms(1) o Done] by simp
    qed
  next
    case Blocked
    then show ?thesis using assms(1) by (intro exI [of _ f]) auto
  next
    case Segv
    then show ?thesis using assms(1) by (intro exI [of _ f]) auto
  qed
qed

lemma releases_branch:
  "releases vid (steps fs) \<Longrightarrow> releases vid (steps gs) \<Longrightarrow> releases vid (branch c fs gs)"
  unfolding releases_def branch_def by auto

lemma releases_local:
  "(\<And>s. vm_oid (fst s) = vid \<Longrightarrow> releases vid (g s)) \<Longrightarrow> releases vid (\<lambda>s. g s s)"
  unfolding releases_def by auto

lemmas releases_intros = releases_unlock releases_Cons releases_branch body_intros

definition handler_ok :: "int \<Rightarrow> (one \<Rightarrow> one res) \<Rightarrow> bool" where
  "handler_ok vid h \<longleftrightarrow>
     (\<forall>w. vms w vid \<noteq> None \<longrightarrow> (\<exists>g. releases vid g \<and> h w = with_vm vid g w))"

lemma handler_okI: "releases vid g \<Longrightarrow> handler_ok vid (with_vm vid g)"
  by (auto simp: handler_ok_def)

lemma straight_handlers_ok:
  "handler_ok vid (suspend_action vid)"
  "handler_ok vid (stop_action vid)"
  "handler_ok vid (migrate_action vid)"
  "handler_ok vid (backup_action vid)"
  "handler_ok vid (recover_action vid)"
  "handler_ok vid (backupdisk_action vid)"
  "handler_ok vid (live_migrate_action vid)"
  "handler_ok vid (shutdown_action vid)"
  "handler_ok vid (restore_action vid)"
  "handler_ok vid (cancel_action vid)"
  "handler_ok vid (off_action vid)"
  "handler_ok vid (on_action vid)"
  "handler_ok vid (reboot_action vid)"
  "handler_ok vid (restart_action vid)"
  "handler_ok vid (delete_action vid)"
  "handler_ok vid (clean_action vid)"
  "handler_ok vid (save_success_action vid)"
  "handler_ok vid (save_failure_action vid)"
  "handler_ok vid (deploy_success_action vid)"
  "handler_ok vid (deploy_failure_action vid)"
  "handler_ok vid (shutdown_success_action vid)"
  "handler_ok vid (shutdown_failure_action vid)"
  "handler_ok vid (prolog_failure_action vid)"
  "handler_ok vid (epilog_failure_action vid)"
  "handler_ok vid (cancel_success_action vid)"
  "handler_ok vid (off_success_action vid)"
  "handler_ok vid (xmlist_failure_action vid)"
  "handler_ok vid (prolog_recover_decompress_action vid)"
  "handler_ok vid (cancel_failure_action vid)"
  "handler_ok vid (monitor_failure_action vid)"
  "handler_ok vid (monitor_suspend_action vid)"
  "handler_ok vid (monitor_done_action vid)"
  unfolding suspend_action_def
    stop_action_def
    migrate_action_def
    backup_action_def
    recover_action_def
    backupdisk_action_def
    live_migrate_action_def
    shutdown_action_def
    restore_action_def
    cancel_action_def
    off_action_def
    on_action_def
    reboot_action_def
    restart_action_def
    delete_action_def
    clean_action_def
    save_success_action_def
    save_failure_action_def
    deploy_success_action_def
    deploy_failure_action_def
    shutdown_success_action_def
    shutdown_failure_action_def
    prolog_failure_action_def
    epilog_failure_action_def
    cancel_success_action_def
    off_success_action_def
    xmlist_failure_action_def
    prolog_recover_decompress_action_def
    cancel_failure_action_def
    monitor_failure_action_def
    monitor_suspend_action_def
    monitor_done_action_def
  by (rule handler_okI, (intro releases_intros))+

text \<open>The handlers that choose their statements by local variables.\<close>

definition ends_unlocked :: "int \<Rightarrow> locked \<Rightarrow> locked res \<Rightarrow> bool" where
  "ends_unlocked vid s r \<longleftrightarrow> (\<exists>f. body vid f \<and> r = bind_res (f s) unlock)"

lemma releasesI:
  "(\<And>v w. vm_oid v = vid \<Longrightarrow> ends_unlocked vid (v, w) (g (v, w))) \<Longrightarrow> releases vid g"
  by (auto simp: releases_def ends_unlocked_def)

lemma ends_unlockedI:
  "vm_oid v = vid \<Longrightarrow> releases vid f \<Longrightarrow> ends_unlocked vid (v, w) (f (v, w))"
  unfolding releases_def ends_unlocked_def by auto

lemma deploy_ok: "handler_ok vid (deploy_action vid)"
  unfolding deploy_action_def Let_def
  by (intro handler_okI releasesI)
     (simp only: prod.case split: if_split, intro conjI impI; rule ends_unlockedI, assumption,
      intro releases_intros)

lemma epilog_success_ok: "handler_ok vid (epilog_success_action vid)"
  unfolding epilog_success_action_def Let_def
  by (intro handler_okI releasesI)
     (simp only: prod.case split: if_split, intro conjI impI; rule ends_unlockedI, assumption,
      intro releases_intros)

lemma prolog_success_ok: "handler_ok vid (prolog_success_action vid)"
  unfolding prolog_success_action_def Let_def append.simps
  by (intro handler_okI releasesI)
     (simp only: prod.case split: if_split, intro conjI impI; rule ends_unlockedI, assumption,
      intro releases_intros)

lemma xmlist_success_ok: "handler_ok vid (xmlist_success_action vid)"
proof -
  have "releases vid (branch (\<lambda>(v, w). lcm_state v = OFF)
       [set_lcm BOOT, update, vmm VA_DEPLOY vid, unlock] [unlock])"
    by (intro releases_intros)
  then show ?thesis by (auto simp: handler_ok_def xmlist_success_action_def)
qed

lemma lcm_handler_ok: "a \<noteq> LA_FINALIZE \<Longrightarrow> handler_ok vid (lcm_handler a vid)"
  by (cases a) (simp_all add: straight_handlers_ok deploy_ok epilog_success_ok prolog_success_ok
    xmlist_success_ok)

end
