(* ===== verification/Dispatch.thy ===== *)
theory Dispatch
  imports Statements
begin

text \<open>
  The dispatch manager (src/dm): the requests it takes from the front end
  (src/dm/DispatchManagerActions.cc) and the messages of the life-cycle manager
  (src/dm/DispatchManagerStates.cc), with what a VM gives back when it ends
  (\<open>release_network_leases\<close>, \<open>release_disk_images\<close> of src/vm/VirtualMachine.cc).

  The functions that get the VM from the pool are functions of the daemon's state; \<open>deploy\<close>, \<open>migrate\<close>,
  \<open>live_migrate\<close>, \<open>backup\<close>, \<open>recover\<close> and \<open>backupdisk\<close> are called with a VM that is locked, and unlock it.
\<close>

text \<open>\<open>if (c) { fs; return rc } else { gs; return rc' }\<close>\<close>

definition rc_branch :: "('a \<Rightarrow> bool) \<Rightarrow> ('a \<Rightarrow> 'a res) list \<Rightarrow> int \<Rightarrow> ('a \<Rightarrow> 'a res) list \<Rightarrow> int \<Rightarrow> 'a \<Rightarrow> (int \<times> 'a) res" where
  "rc_branch c fs rc gs rc' s = (if c s then returning rc fs s else returning rc' gs s)"

definition lcm_self :: "lcm_action \<Rightarrow> locked \<Rightarrow> locked res" where
  "lcm_self a = (\<lambda>(v, w). lcm a (vm_oid v) (v, w))"

definition is_running :: "locked \<Rightarrow> bool" where
  "is_running = (\<lambda>(v, w). state v = ACTIVE \<and> lcm_state v = RUNNING)"

subsection \<open>What a VM gives back\<close>

definition vm_release_network_leases :: "locked \<Rightarrow> locked res" where
  "vm_release_network_leases = (\<lambda>(v, w).
     bind_res (release_network_leases (nics v) (net_pool w)) (\<lambda>s. Done (v, w\<lparr>net_pool := s\<rparr>)))"

definition release_disk :: "string \<Rightarrow> int \<Rightarrow> vattr option \<Rightarrow> repo \<Rightarrow> repo res" where
  "release_disk path i a r = (case a of None \<Rightarrow> Done r | Some disk \<Rightarrow>
     let iid = vector_value disk ''IMAGE_ID''; saveas = vector_value disk ''SAVE_AS'' in
     if iid = [] then (if saveas \<noteq> [] then disk_to_image path i saveas r else Done r)
     else release_image_str iid path i saveas r)"

fun release_disks :: "string \<Rightarrow> int \<Rightarrow> vattr option list \<Rightarrow> repo \<Rightarrow> repo res" where
  "release_disks path i [] r = Done r"
| "release_disks path i (a # as) r = bind_res (release_disk path i a r) (release_disks path (i + 1) as)"

definition get_local_dir :: "vm \<Rightarrow> one \<Rightarrow> string" where
  "get_local_dir v w = var_location w @ int_string (vm_oid v)"

definition disk_base_path :: "vm \<Rightarrow> one \<Rightarrow> string" where
  "disk_base_path v w = (if hasHistory v then get_local_dir v w else [])"

definition release_disk_images :: "locked \<Rightarrow> locked res" where
  "release_disk_images = (\<lambda>(v, w).
     bind_res (release_disks (disk_base_path v w) 0 (disks v) (img_repo w)) (\<lambda>r. Done (v, w\<lparr>img_repo := r\<rparr>)))"

lemma disk_base_path_upd [simp]:
  "disk_base_path (v\<lparr>state := a\<rparr>) w = disk_base_path v w"
  "disk_base_path (v\<lparr>lcm_state := b\<rparr>) w = disk_base_path v w"
  "disk_base_path (v\<lparr>exit_time := c\<rparr>) w = disk_base_path v w"
  "disk_base_path v (w\<lparr>vm_locks := d\<rparr>) = disk_base_path v w"
  "disk_base_path v (w\<lparr>vm_rows := e\<rparr>) = disk_base_path v w"
  "disk_base_path v (w\<lparr>net_pool := f\<rparr>) = disk_base_path v w"
  "disk_base_path v (w\<lparr>tm_q := g\<rparr>) = disk_base_path v w"
  by (simp_all add: disk_base_path_def hasHistory_def hist_def get_local_dir_def)

subsection \<open>Requests on a locked VM\<close>

definition dm_deploy :: "locked \<Rightarrow> (int \<times> locked) res" where
  "dm_deploy = rc_branch (\<lambda>(v, w). state v = PENDING)
     [set_dm ACTIVE, update, lcm_self LA_DEPLOY, unlock] 0 [unlock] (-1)"

definition dm_migrate :: "locked \<Rightarrow> (int \<times> locked) res" where
  "dm_migrate = rc_branch is_running [lcm_self LA_MIGRATE, unlock] 0 [unlock] (-1)"

definition dm_backup :: "locked \<Rightarrow> (int \<times> locked) res" where
  "dm_backup = rc_branch is_running [lcm_self LA_BACKUP, unlock] 0
     [updatebkstate bakbid BK_BACKUP_FAIL, unlock] (-1)"

definition dm_recover :: "locked \<Rightarrow> (int \<times> locked) res" where
  "dm_recover = returning 0 [lcm_self LA_RECOVER, unlock]"

definition dm_backupdisk :: "locked \<Rightarrow> (int \<times> locked) res" where
  "dm_backupdisk = rc_branch is_running [lcm_self LA_BACKUPDISK, unlock] 0 [unlock] (-1)"

definition dm_live_migrate :: "locked \<Rightarrow> (int \<times> locked) res" where
  "dm_live_migrate = rc_branch is_running [lcm_self LA_LIVE_MIGRATE, unlock] 0 [unlock] (-1)"

subsection \<open>Requests by id\<close>

definition dm_shutdown :: "int \<Rightarrow> one \<Rightarrow> (int \<times> one) res" where
  "dm_shutdown vid = with_vm_rc vid (rc_branch is_running [lcm LA_SHUTDOWN vid, unlock] 0 [unlock] (-2))"

definition dm_hold :: "int \<Rightarrow> one \<Rightarrow> (int \<times> one) res" where
  "dm_hold vid = with_vm_rc vid (rc_branch (\<lambda>(v, w). state v = PENDING)
     [set_dm HOLD, update, unlock] 0 [unlock] (-2))"

definition dm_release :: "int \<Rightarrow> one \<Rightarrow> (int \<times> one) res" where
  "dm_release vid = with_vm_rc vid (rc_branch (\<lambda>(v, w). state v = HOLD)
     [set_dm PENDING, update, unlock] 0 [unlock] (-2))"

definition dm_stop :: "int \<Rightarrow> one \<Rightarrow> (int \<times> one) res" where
  "dm_stop vid = with_vm_rc vid (rc_branch is_running [lcm LA_STOP vid, unlock] 0 [unlock] (-2))"

definition dm_cancel :: "int \<Rightarrow> one \<Rightarrow> (int \<times> one) res" where
  "dm_cancel vid = with_vm_rc vid (rc_branch is_running [unlock, lcm LA_CANCEL vid] 0 [unlock] (-2))"

definition dm_off :: "int \<Rightarrow> one \<Rightarrow> (int \<times> one) res" where
  "dm_off vid = with_vm_rc vid (rc_branch is_running [unlock, lcm LA_OFF vid] 0 [unlock] (-2))"

definition dm_on :: "int \<Rightarrow> one \<Rightarrow> (int \<times> one) res" where
  "dm_on vid = with_vm_rc vid (rc_branch (\<lambda>(v, w). state v = ACTIVE \<and> lcm_state v = OFF)
     [unlock, lcm LA_ON vid] 0 [unlock] (-2))"

definition dm_suspend :: "int \<Rightarrow> one \<Rightarrow> (int \<times> one) res" where
  "dm_suspend vid = with_vm_rc vid (rc_branch is_running [lcm LA_SUSPEND vid, unlock] 0 [unlock] (-2))"

definition dm_resume :: "int \<Rightarrow> one \<Rightarrow> (int \<times> one) res" where
  "dm_resume vid = with_vm_rc vid (\<lambda>s.
     if state (fst s) = STOPPED then returning 0 [set_dm PENDING, update, unlock] s
     else rc_branch (\<lambda>(v, w). state v = SUSPENDED)
       [set_dm ACTIVE, update, lcm LA_RESTORE vid, unlock] 0 [unlock] (-2) s)"

definition dm_restart :: "int \<Rightarrow> one \<Rightarrow> (int \<times> one) res" where
  "dm_restart vid = with_vm_rc vid (rc_branch
     (\<lambda>(v, w). state v = ACTIVE \<and> (lcm_state v = UNKNOWN \<or> lcm_state v = BOOT))
     [lcm LA_RESTART vid, unlock] 0 [unlock] (-2))"

definition dm_reboot :: "int \<Rightarrow> one \<Rightarrow> (int \<times> one) res" where
  "dm_reboot vid = with_vm_rc vid (rc_branch is_running [lcm LA_REBOOT vid, unlock] 0 [unlock] (-2))"

text \<open>The two switches.  A SUSPENDED or FAILED VM falls through to the case of the VMs without files on
  a host.\<close>

definition finalize_done :: "(locked \<Rightarrow> locked res) list" where
  "finalize_done = [set_exit_time, set_lcm LCM_INIT, set_dm DONE, update, vm_release_network_leases,
     release_disk_images]"

definition finalize_case :: "int \<Rightarrow> VmState \<Rightarrow> (locked \<Rightarrow> locked res) list" where
  "finalize_case vid st =
     (if st = SUSPENDED \<or> st = FAILED then tm TA_EPILOG_DELETE vid # finalize_done
      else if st = ACTIVE then [lcm LA_DELETE vid]
      else if st = DONE then [] else finalize_done)"

definition dm_finalize :: "int \<Rightarrow> one \<Rightarrow> (int \<times> one) res" where
  "dm_finalize vid = with_vm_rc vid (\<lambda>s. returning 0 (finalize_case vid (state (fst s)) @ [unlock]) s)"

definition resubmit_case :: "int \<Rightarrow> VmState \<Rightarrow> int \<times> (locked \<Rightarrow> locked res) list" where
  "resubmit_case vid st = (
     let pending = [set_lcm LCM_INIT, set_dm PENDING, update] in
     case st of
       SUSPENDED \<Rightarrow> (-2, []) | INIT \<Rightarrow> (0, []) | PENDING \<Rightarrow> (0, [])
     | FAILED \<Rightarrow> (0, tm TA_EPILOG_DELETE vid # pending)
     | HOLD \<Rightarrow> (0, pending) | STOPPED \<Rightarrow> (0, pending)
     | ACTIVE \<Rightarrow> (0, [lcm LA_CLEAN vid]) | DONE \<Rightarrow> (-2, []))"

definition dm_resubmit :: "int \<Rightarrow> one \<Rightarrow> (int \<times> one) res" where
  "dm_resubmit vid = with_vm_rc vid (\<lambda>s.
     let (rc, fs) = resubmit_case vid (state (fst s)) in returning rc (fs @ [unlock]) s)"

subsection \<open>Messages of the life-cycle manager\<close>

definition suspend_success_action :: "int \<Rightarrow> one \<Rightarrow> one res" where
  "suspend_success_action vid = with_vm vid (steps [
     branch (\<lambda>(v, w). state v = ACTIVE \<and> lcm_state v = SAVE_SUSPEND)
       [set_dm SUSPENDED, set_lcm LCM_INIT, update] [],
     unlock])"

definition stop_success_action :: "int \<Rightarrow> one \<Rightarrow> one res" where
  "stop_success_action vid = with_vm vid (steps [
     branch (\<lambda>(v, w). state v = ACTIVE \<and> lcm_state v = EPILOG_STOP)
       [set_dm STOPPED, set_lcm LCM_INIT, update] [],
     unlock])"

definition done_action :: "int \<Rightarrow> one \<Rightarrow> one res" where
  "done_action vid = with_vm vid (steps [
     branch (\<lambda>(v, w). state v = ACTIVE \<and> lcm_state v \<in> {EPILOG, CANCEL, CLEANUP})
       [set_dm DONE, set_lcm LCM_INIT, set_exit_time, update, vm_release_network_leases, release_disk_images] [],
     unlock])"

text \<open>The next two unlock the VM in the branch they expect only.\<close>

definition failed_action :: "int \<Rightarrow> one \<Rightarrow> one res" where
  "failed_action vid = with_vm vid (branch (\<lambda>(v, w). lcm_state v = FAILURE)
     [set_lcm LCM_INIT, set_dm FAILED, set_exit_time, update, unlock] [])"

definition resubmit_action :: "int \<Rightarrow> one \<Rightarrow> one res" where
  "resubmit_action vid = with_vm vid (branch (\<lambda>(v, w). lcm_state v = CLEANUP)
     [set_lcm LCM_INIT, set_dm PENDING, update, unlock] [])"

definition dm_do_action :: "string \<Rightarrow> int \<Rightarrow> one \<Rightarrow> one res" where
  "dm_do_action action vid w =
     (if action = ''SUSPEND_SUCCESS'' then suspend_success_action vid w
      else if action = ''STOP_SUCCESS'' then stop_success_action vid w
      else if action = ''DONE'' then done_action vid w
      else if action = ''FAILED'' then failed_action vid w
      else if action = ''RESUBMIT'' then resubmit_action vid w
      else Done w)"

end
