(* ===== verification/TransferManager.thy ===== *)
theory TransferManager
  imports Drivers Dispatch
begin

text \<open>
  The transfer manager: \<open>TransferManager\<close> (src/tm/TransferManager.cc), which takes the requests of the
  life-cycle manager one by one, writes the script of the transfer and hands it to the driver of the host
  (\<open>TransferManagerDriver::transfer\<close>), or gives the request back as a failure; with
  \<open>VirtualMachine::generate_context\<close> and the paths of \<open>History::non_persistent_data\<close>.

  What the manager does outside the daemon's memory is the record \<open>io\<close>: the files it writes, the lines it
  writes to the drivers and the commands it runs.  \<open>mad_env\<close> is its environment: the drivers that are loaded, by
  name, the files that can be opened for writing and the name of the front-end.
\<close>

record io =
  files :: "string \<rightharpoonup> string"
  piped :: "(string \<times> string) list"
  commands :: "string list"

record mad_env =
  loaded :: "string \<Rightarrow> bool"
  can_open :: "string \<Rightarrow> bool"
  nebula_host :: string

type_synonym locked_io = "locked \<times> io"

definition endl :: string where
  "endl = [CHR 0x0A]"

definition write_file :: "string \<Rightarrow> string \<Rightarrow> io \<Rightarrow> io" where
  "write_file path s u = u\<lparr>files := (files u)(path \<mapsto> s)\<rparr>"

definition write_mad :: "string \<Rightarrow> string \<Rightarrow> io \<Rightarrow> io" where
  "write_mad mad s u = u\<lparr>piped := piped u @ [(mad, s)]\<rparr>"

text \<open>The statements of the daemon inside a handler that also writes outside.\<close>

definition daemon :: "(locked \<Rightarrow> locked res) list \<Rightarrow> locked_io \<Rightarrow> locked_io res" where
  "daemon fs = (\<lambda>(s, u). bind_res (steps fs s) (\<lambda>s'. Done (s', u)))"

definition with_vm_io :: "int \<Rightarrow> (locked_io \<Rightarrow> locked_io res) \<Rightarrow> one \<times> io \<Rightarrow> (one \<times> io) res" where
  "with_vm_io vid act = (\<lambda>(w, u). case vms w vid of
     None \<Rightarrow> Done (w, u)
   | Some v \<Rightarrow> if vid \<in> vm_locks w then Blocked
       else bind_res (act ((v, w\<lparr>vm_locks := insert vid (vm_locks w)\<rparr>), u))
              (\<lambda>((v', w'), u'). Done (w'\<lparr>vms := (vms w')(vid \<mapsto> v')\<rparr>, u')))"

subsection \<open>Paths of a history record\<close>

definition get_transfer_file :: "vm \<Rightarrow> history \<Rightarrow> one \<Rightarrow> string" where
  "get_transfer_file v h w = get_local_dir v w @ ''/transfer.'' @ int_string (seq h)"

definition get_deployment_file :: "vm \<Rightarrow> history \<Rightarrow> one \<Rightarrow> string" where
  "get_deployment_file v h w = get_local_dir v w @ ''/deployment.'' @ int_string (seq h)"

definition get_context_file :: "vm \<Rightarrow> one \<Rightarrow> string" where
  "get_context_file v w = get_local_dir v w @ ''/context.sh''"

definition get_remote_dir :: "vm \<Rightarrow> history \<Rightarrow> string" where
  "get_remote_dir v h = vm_dir h @ ''/'' @ int_string (vm_oid v) @ ''/images''"

definition get_checkpoint_file :: "vm \<Rightarrow> history \<Rightarrow> string" where
  "get_checkpoint_file v h = get_remote_dir v h @ ''/checkpoint''"

definition get_remote_deployment_file :: "vm \<Rightarrow> history \<Rightarrow> string" where
  "get_remote_deployment_file v h = get_remote_dir v h @ ''/deployment.'' @ int_string (seq h)"

text \<open>\<open>host:directory\<close>, for the host of the record and for the front-end.\<close>

definition at_host :: "vm \<Rightarrow> history \<Rightarrow> string" where
  "at_host v h = hostname h @ '':'' @ get_remote_dir v h"

definition at_front :: "mad_env \<Rightarrow> string \<Rightarrow> string" where
  "at_front env dir = nebula_host env @ '':'' @ dir"

subsection \<open>The frame of a handler\<close>

text \<open>Every handler that transfers looks up the driver, opens the script \<open>transfer.<seq><suffix>\<close>, writes it
  and passes its name to the driver; each of the failures logs a message, runs the statements \<open>fail\<close> and
  unlocks the VM.  \<open>act\<close> is what writes the script: it may give up (\<open>None\<close>), after having written
  something, and change the daemon and other files.\<close>

type_synonym script = "history \<Rightarrow> locked_io \<Rightarrow> (bool \<times> string \<times> locked_io) res"

definition transfer :: "int \<Rightarrow> string \<Rightarrow> string \<Rightarrow> io \<Rightarrow> io" where
  "transfer vid mad path = write_mad mad (''TRANSFER '' @ int_string vid @ '' '' @ path @ endl)"

definition transfer_with ::
  "mad_env \<Rightarrow> string \<Rightarrow> script \<Rightarrow> (locked \<Rightarrow> locked res) list \<Rightarrow> int \<Rightarrow> locked_io \<Rightarrow> locked_io res" where
  "transfer_with env suffix act fail vid = (\<lambda>((v, w), u).
     case hist v of None \<Rightarrow> daemon (fail @ [unlock]) ((v, w), u)
   | Some h \<Rightarrow>
     let path = get_transfer_file v h w @ suffix in
     if \<not> loaded env (tm_mad_name h) \<or> \<not> can_open env path then daemon (fail @ [unlock]) ((v, w), u)
     else bind_res (act h ((v, w), u)) (\<lambda>(ok, text, s, u').
       let u'' = write_file path text u' in
       if ok then daemon [unlock] (s, transfer vid (tm_mad_name h) path u'')
       else daemon (fail @ [unlock]) (s, u'')))"

text \<open>A script that depends on the VM only, and cannot be given up.\<close>

definition plain :: "(history \<Rightarrow> locked \<Rightarrow> string) \<Rightarrow> script" where
  "plain f h = (\<lambda>(s, u). Done (True, f h s, s, u))"

subsection \<open>The prolog: copy or create the disks\<close>

text \<open>\<open>Some text\<close>: what the loop writes for the disk; \<open>None\<close>: it has no source.  The second component is
  what is written before the loop gives up.\<close>

definition clone_word :: "vattr \<Rightarrow> string" where
  "clone_word disk = (let clon = vector_value disk ''CLONE'' in
     if clon = [] \<or> to_upper clon = ''YES'' then ''CLONE '' else ''LN '')"

definition prolog_disk :: "mad_env \<Rightarrow> vm \<Rightarrow> history \<Rightarrow> nat \<Rightarrow> vattr \<Rightarrow> bool \<times> string" where
  "prolog_disk env v h i disk = (let
       type = to_upper (vector_value disk ''TYPE'');
       sz = vector_value disk ''SIZE''; fmt = vector_value disk ''FORMAT'';
       target = at_host v h @ ''/disk.'' @ num_string 10 i;
       source = vector_value disk ''SOURCE'' in
     if type = ''SWAP'' then
       (True, if sz = [] then [] else ''MKSWAP '' @ sz @ '' '' @ target @ endl)
     else if type = ''FS'' then
       (True, if sz = [] \<or> fmt = [] then []
              else ''MKIMAGE '' @ sz @ '' '' @ fmt @ '' '' @ target @ endl)
     else if source = [] then (False, clone_word disk)
     else (True, clone_word disk @ (if CHR '':'' \<in> set source then source else at_front env source) @ '' '' @
            target @ (if sz = [] then [] else '' '' @ sz) @ endl))"

fun prolog_disks :: "mad_env \<Rightarrow> vm \<Rightarrow> history \<Rightarrow> nat \<Rightarrow> vattr option list \<Rightarrow> bool \<times> string" where
  "prolog_disks env v h i [] = (True, [])"
| "prolog_disks env v h i (None # ds) = prolog_disks env v h (Suc i) ds"
| "prolog_disks env v h i (Some disk # ds) =
     (let (ok, text) = prolog_disk env v h i disk in
      if \<not> ok then (False, text)
      else (let (ok', text') = prolog_disks env v h (Suc i) ds in (ok', text @ text')))"

text \<open>\<open>generate_context\<close>: -1 when the file cannot be written, 0 without a context, 1 otherwise, and the
  value FILES.\<close>

definition context_line :: "string \<times> string \<Rightarrow> string" where
  "context_line = (\<lambda>(name, value). name @ [CHR ''='', CHR 0x22] @ value @ [CHR 0x22] @ endl)"

definition context_text :: "(string \<times> string) list \<Rightarrow> string" where
  "context_text values = ''# Context variables generated by OpenNebula'' @ endl @ concat (map context_line values)"

definition generate_context :: "mad_env \<Rightarrow> vm \<Rightarrow> one \<Rightarrow> io \<Rightarrow> int \<times> string \<times> io" where
  "generate_context env v w u = (if \<not> hasHistory v then (-1, [], u) else case contexts v of
     [c] \<Rightarrow> if \<not> can_open env (get_context_file v w) then (-1, [], u)
       else (case c of
         None \<Rightarrow> (-1, [], write_file (get_context_file v w) [] u)
       | Some values \<Rightarrow> (1, case map_of values ''FILES'' of None \<Rightarrow> [] | Some fs \<Rightarrow> fs,
           write_file (get_context_file v w) (context_text values) u))
   | _ \<Rightarrow> (0, [], u))"

definition context_command :: "string \<Rightarrow> vm \<Rightarrow> history \<Rightarrow> one \<Rightarrow> string" where
  "context_command fs v h w = ''CONTEXT '' @ get_context_file v w @ '' '' @ (if fs = [] then [] else fs @ '' '') @
     at_host v h @ ''/disk.'' @ num_string 10 (length (disks v)) @ endl"

definition prolog_script :: "mad_env \<Rightarrow> script" where
  "prolog_script env h = (\<lambda>((v, w), u).
     let (ok, text) = prolog_disks env v h 0 (disks v) in
     if \<not> ok then Done (False, text, (v, w), u)
     else (let (rc, fs, u') = generate_context env v w u in
       if rc = -1 then Done (False, text, (v, w), u')
       else Done (True, text @ (if rc \<noteq> 0 then context_command fs v h w else []), (v, w), u')))"

definition prolog_action :: "mad_env \<Rightarrow> int \<Rightarrow> one \<times> io \<Rightarrow> (one \<times> io) res" where
  "prolog_action env vid = with_vm_io vid
     (transfer_with env ''.prolog'' (prolog_script env) [lcm LA_PROLOG_FAILURE vid] vid)"

subsection \<open>Migration, stop and resume\<close>

text \<open>\<open>previous_history\<close> is dereferenced without a check.\<close>

definition migr_script :: script where
  "migr_script h = (\<lambda>((v, w), u). case previous_hist v of None \<Rightarrow> Segv | Some p \<Rightarrow>
     Done (True, ''MV '' @ hostname p @ '':'' @ get_remote_dir v h @ '' '' @ at_host v h @ endl, (v, w), u))"

definition prolog_migr_action :: "mad_env \<Rightarrow> int \<Rightarrow> one \<times> io \<Rightarrow> (one \<times> io) res" where
  "prolog_migr_action env vid = with_vm_io vid
     (transfer_with env ''.migrate'' migr_script [lcm LA_PROLOG_FAILURE vid] vid)"

definition resume_script :: "mad_env \<Rightarrow> history \<Rightarrow> locked \<Rightarrow> string" where
  "resume_script env h = (\<lambda>(v, w).
     ''MV '' @ at_front env (get_local_dir v w) @ ''/images '' @ at_host v h @ endl)"

definition prolog_resume_action :: "mad_env \<Rightarrow> int \<Rightarrow> one \<times> io \<Rightarrow> (one \<times> io) res" where
  "prolog_resume_action env vid = with_vm_io vid
     (transfer_with env ''.resume'' (plain (resume_script env)) [lcm LA_PROLOG_FAILURE vid] vid)"

definition stop_script :: "mad_env \<Rightarrow> history \<Rightarrow> locked \<Rightarrow> string" where
  "stop_script env h = (\<lambda>(v, w). ''MV '' @ at_host v h @ '' '' @ at_front env (get_local_dir v w) @ endl)"

definition epilog_stop_action :: "mad_env \<Rightarrow> int \<Rightarrow> one \<times> io \<Rightarrow> (one \<times> io) res" where
  "epilog_stop_action env vid = with_vm_io vid
     (transfer_with env ''.stop'' (plain (stop_script env)) [lcm LA_EPILOG_FAILURE vid] vid)"

subsection \<open>The epilog: save disks, and clean the host\<close>

definition epilog_disk :: "mad_env \<Rightarrow> vm \<Rightarrow> history \<Rightarrow> one \<Rightarrow> nat \<Rightarrow> vattr option \<Rightarrow> string" where
  "epilog_disk env v h w i a = (case a of None \<Rightarrow> [] | Some disk \<Rightarrow>
     if to_upper (vector_value disk ''SAVE'') = ''YES''
     then ''MV '' @ at_host v h @ ''/disk.'' @ num_string 10 i @ '' '' @
       at_front env (get_local_dir v w) @ ''/disk.'' @ num_string 10 i @ endl
     else [])"

fun epilog_disks :: "mad_env \<Rightarrow> vm \<Rightarrow> history \<Rightarrow> one \<Rightarrow> nat \<Rightarrow> vattr option list \<Rightarrow> string" where
  "epilog_disks env v h w i [] = []"
| "epilog_disks env v h w i (a # as) = epilog_disk env v h w i a @ epilog_disks env v h w (Suc i) as"

text \<open>\<open>DELETE host:directory\<close> and the other commands on the directory of the VM on its host.\<close>

definition delete_command :: "vm \<Rightarrow> history \<Rightarrow> string \<Rightarrow> string" where
  "delete_command v h ext = ''DELETE '' @ at_host v h @ ext @ endl"

definition rename_command :: "vm \<Rightarrow> history \<Rightarrow> string \<Rightarrow> string \<Rightarrow> string" where
  "rename_command v h ext ext' = ''RENAME '' @ at_host v h @ ext @ '' '' @ at_host v h @ ext' @ endl"

definition epilog_script :: "mad_env \<Rightarrow> history \<Rightarrow> locked \<Rightarrow> string" where
  "epilog_script env h = (\<lambda>(v, w). epilog_disks env v h w 0 (disks v) @ delete_command v h [])"

definition epilog_action :: "mad_env \<Rightarrow> int \<Rightarrow> one \<times> io \<Rightarrow> (one \<times> io) res" where
  "epilog_action env vid = with_vm_io vid
     (transfer_with env ''.epilog'' (plain (epilog_script env)) [lcm LA_EPILOG_FAILURE vid] vid)"

definition epilog_delete_action :: "mad_env \<Rightarrow> int \<Rightarrow> one \<times> io \<Rightarrow> (one \<times> io) res" where
  "epilog_delete_action env vid = with_vm_io vid
     (transfer_with env ''.delete'' (plain (\<lambda>h (v, w). delete_command v h [])) [] vid)"

text \<open>The directory on the previous host: the driver is that of the previous record, the paths are the
  current ones.\<close>

definition epilog_delete_previous_action :: "mad_env \<Rightarrow> int \<Rightarrow> one \<times> io \<Rightarrow> (one \<times> io) res" where
  "epilog_delete_previous_action env vid = with_vm_io vid (\<lambda>((v, w), u).
     case (hist v, previous_hist v) of
       (Some h, Some p) \<Rightarrow>
         let path = get_transfer_file v h w @ ''.delete_prev'' in
         if \<not> loaded env (tm_mad_name p) \<or> \<not> can_open env path then daemon [unlock] ((v, w), u)
         else daemon [unlock] ((v, w), transfer vid (tm_mad_name p) path (write_file path
           (''DELETE '' @ hostname p @ '':'' @ get_remote_dir v h @ endl) u))
     | _ \<Rightarrow> daemon [unlock] ((v, w), u))"

definition tm_driver_cancel_action :: "mad_env \<Rightarrow> int \<Rightarrow> one \<times> io \<Rightarrow> (one \<times> io) res" where
  "tm_driver_cancel_action env vid = with_vm_io vid (\<lambda>((v, w), u).
     case hist v of None \<Rightarrow> daemon [unlock] ((v, w), u)
   | Some h \<Rightarrow> daemon [unlock] ((v, w), if loaded env (tm_mad_name h)
       then write_mad (tm_mad_name h) (''DRIVER_CANCEL '' @ int_string vid @ endl) u else u))"

definition checkpoint_action :: "mad_env \<Rightarrow> int \<Rightarrow> one \<times> io \<Rightarrow> (one \<times> io) res" where
  "checkpoint_action env vid = Done"

definition prolog_on_action :: "mad_env \<Rightarrow> int \<Rightarrow> one \<times> io \<Rightarrow> (one \<times> io) res" where
  "prolog_on_action env vid = with_vm_io vid
     (transfer_with env ''.xm_list'' (plain (\<lambda>h _. ''XMLIST '' @ hostname h @ endl)) [] vid)"

subsection \<open>Backup and recovery\<close>

text \<open>\<open>get_bk_dir\<close>, \<open>get_dk_dir\<close> and \<open>get_dk_name\<close> dereference the record of the backup.\<close>

definition backup_script :: "mad_env \<Rightarrow> script" where
  "backup_script env h = (\<lambda>((v, w), u). case backup v of None \<Rightarrow> Segv | Some b \<Rightarrow>
     Done (True, ''BK_CPS '' @ at_host v h @ '' '' @ at_front env (bk_dir b) @ ''/images'' @ endl, (v, w), u))"

definition prolog_backup_action :: "mad_env \<Rightarrow> int \<Rightarrow> one \<times> io \<Rightarrow> (one \<times> io) res" where
  "prolog_backup_action env vid = with_vm_io vid (transfer_with env ''.backup'' (backup_script env)
     [lcm LA_PROLOG_FAILURE vid, updatebkstate bakbid BK_BACKUP_FAIL] vid)"

definition backupdisk_script :: "mad_env \<Rightarrow> script" where
  "backupdisk_script env h = (\<lambda>((v, w), u). case backupdisk v of None \<Rightarrow> Segv | Some b \<Rightarrow>
     Done (True, ''MKVMIMAGE '' @ at_host v h @ ''/disk.0 '' @ at_front env (dk_dir b) @ ''/'' @ dk_name b @ endl,
       (v, w), u))"

definition prolog_backupdisk_action :: "mad_env \<Rightarrow> int \<Rightarrow> one \<times> io \<Rightarrow> (one \<times> io) res" where
  "prolog_backupdisk_action env vid = with_vm_io vid
     (transfer_with env ''.backupdisk'' (backupdisk_script env) [lcm LA_PROLOG_FAILURE vid] vid)"

text \<open>A failed VM becomes active again; the directory of any other is put aside first.\<close>

definition recover_script :: "mad_env \<Rightarrow> script" where
  "recover_script env h = (\<lambda>((v, w), u).
     let bring = ''BK '' @ at_front env (recover_dir v) @ ''/images '' @ at_host v h @ ''_compress'' @ endl in
     if state v = FAILED
     then bind_res (steps [set_dm ACTIVE, update] (v, w)) (\<lambda>s. Done (True, bring, s, u))
     else Done (True, rename_command v h [] ''_bak'' @ bring, (v, w), u))"

definition prolog_recover_action :: "mad_env \<Rightarrow> int \<Rightarrow> one \<times> io \<Rightarrow> (one \<times> io) res" where
  "prolog_recover_action env vid = with_vm_io vid (transfer_with env ''.recover'' (recover_script env)
     [lcm LA_PROLOG_FAILURE vid, updatebkstate updatebkstateoid BK_RESUME_FAIL] vid)"

definition epilog_decompress_action :: "mad_env \<Rightarrow> int \<Rightarrow> one \<times> io \<Rightarrow> (one \<times> io) res" where
  "epilog_decompress_action env vid = with_vm_io vid
     (transfer_with env ''.decompress'' (plain (\<lambda>h (v, w). ''DECOMPRESS '' @ at_host v h @ endl))
       [set_lcm PROLOG_RECOVER, update, lcm LA_PROLOG_FAILURE vid,
        updatebkstate updatebkstateoid BK_RESUME_FAIL] vid)"

definition delete_recover_fail_action :: "mad_env \<Rightarrow> int \<Rightarrow> one \<times> io \<Rightarrow> (one \<times> io) res" where
  "delete_recover_fail_action env vid = with_vm_io vid (transfer_with env ''.recover_fail''
     (plain (\<lambda>h (v, w). delete_command v h ''_compress'' @ rename_command v h ''_bak'' [])) [] vid)"

definition recover_decompress_fail_action :: "mad_env \<Rightarrow> int \<Rightarrow> one \<times> io \<Rightarrow> (one \<times> io) res" where
  "recover_decompress_fail_action env vid = with_vm_io vid (transfer_with env ''.decompress_fail''
     (plain (\<lambda>h (v, w). delete_command v h ''_compress'' @ delete_command v h [] @
        rename_command v h ''_bak'' [])) [] vid)"

definition delete_backup_fail_action :: "mad_env \<Rightarrow> int \<Rightarrow> one \<times> io \<Rightarrow> (one \<times> io) res" where
  "delete_backup_fail_action env vid = with_vm_io vid
     (transfer_with env ''.delete_backup'' (plain (\<lambda>h (v, w). delete_command v h ''_compress'')) [] vid)"

definition epilog_deletebak_action :: "mad_env \<Rightarrow> int \<Rightarrow> one \<times> io \<Rightarrow> (one \<times> io) res" where
  "epilog_deletebak_action env vid = with_vm_io vid (transfer_with env ''.deletebak''
     (plain (\<lambda>h (v, w). delete_command v h ''_bak'' @ delete_command v h ''_compress'')) [] vid)"

definition epilog_deletecps_action :: "mad_env \<Rightarrow> int \<Rightarrow> one \<times> io \<Rightarrow> (one \<times> io) res" where
  "epilog_deletecps_action env vid = with_vm_io vid
     (transfer_with env ''.deletecps'' (plain (\<lambda>h (v, w). delete_command v h ''_compress'')) [] vid)"

text \<open>The deletion of a backup, from the request manager: a command run by the shell.\<close>

definition delete_backup_action :: "mad_env \<Rightarrow> string \<Rightarrow> io \<Rightarrow> io" where
  "delete_backup_action env bkdir u = u\<lparr>commands := commands u @
     [''/opt/nebula/ONE/lib/tm_commands/ssh/delete_backup.sh '' @ nebula_host env @ '' '' @ bkdir]\<rparr>"

subsection \<open>The action loop\<close>

fun tm_action_name :: "tm_action \<Rightarrow> string" where
  "tm_action_name TA_PROLOG = ''PROLOG''"
| "tm_action_name TA_PROLOG_MIGR = ''PROLOG_MIGR''"
| "tm_action_name TA_PROLOG_RESUME = ''PROLOG_RESUME''"
| "tm_action_name TA_PROLOG_BACKUP = ''PROLOG_BACKUP''"
| "tm_action_name TA_PROLOG_RECOVER = ''PROLOG_RECOVER''"
| "tm_action_name TA_PROLOG_BACKUPDISK = ''PROLOG_BACKUPDISK''"
| "tm_action_name TA_EPILOG = ''EPILOG''"
| "tm_action_name TA_EPILOG_STOP = ''EPILOG_STOP''"
| "tm_action_name TA_EPILOG_DELETE = ''EPILOG_DELETE''"
| "tm_action_name TA_EPILOG_DELETE_PREVIOUS = ''EPILOG_DELETE_PREVIOUS''"
| "tm_action_name TA_CHECKPOINT = ''CHECKPOINT''"
| "tm_action_name TA_DRIVER_CANCEL = ''DRIVER_CANCEL''"
| "tm_action_name TA_DELETE_RECOVER_FAIL = ''DELETE_RECOVER_FAIL''"
| "tm_action_name TA_RECOVER_DECOMPRESS_FAIL = ''RECOVER_DECOMPRESS_FAIL''"
| "tm_action_name TA_DELETE_BACKUP_FAIL = ''DELETE_BACKUP_FAIL''"
| "tm_action_name TA_DELETEBAK = ''DELETEBAK''"
| "tm_action_name TA_ON = ''ON''"
| "tm_action_name TA_DELETE_BACKUP_COMPRESS = ''DELETE_BACKUP_COMPRESS''"
| "tm_action_name TA_PROLOG_RECOVER_DECOMPRESS = ''PROLOG_RECOVER_DECOMPRESS''"
| "tm_action_name TA_FINALIZE = ''ACTION_FINALIZE''"

definition tm_do_action :: "mad_env \<Rightarrow> string \<Rightarrow> int \<Rightarrow> one \<times> io \<Rightarrow> (one \<times> io) res" where
  "tm_do_action env action vid =
     (if action = ''PROLOG'' then prolog_action env vid
      else if action = ''PROLOG_MIGR'' then prolog_migr_action env vid
      else if action = ''PROLOG_RESUME'' then prolog_resume_action env vid
      else if action = ''PROLOG_BACKUP'' then prolog_backup_action env vid
      else if action = ''PROLOG_RECOVER'' then prolog_recover_action env vid
      else if action = ''PROLOG_BACKUPDISK'' then prolog_backupdisk_action env vid
      else if action = ''EPILOG'' then epilog_action env vid
      else if action = ''EPILOG_STOP'' then epilog_stop_action env vid
      else if action = ''EPILOG_DELETE'' then epilog_delete_action env vid
      else if action = ''EPILOG_DELETE_PREVIOUS'' then epilog_delete_previous_action env vid
      else if action = ''CHECKPOINT'' then checkpoint_action env vid
      else if action = ''DRIVER_CANCEL'' then tm_driver_cancel_action env vid
      else if action = ''DELETE_RECOVER_FAIL'' then delete_recover_fail_action env vid
      else if action = ''RECOVER_DECOMPRESS_FAIL'' then recover_decompress_fail_action env vid
      else if action = ''DELETE_BACKUP_FAIL'' then delete_backup_fail_action env vid
      else if action = ''DELETEBAK'' then epilog_deletebak_action env vid
      else if action = ''DELETE_BACKUP_COMPRESS'' then epilog_deletecps_action env vid
      else if action = ''PROLOG_RECOVER_DECOMPRESS'' then epilog_decompress_action env vid
      else if action = ''ON'' then prolog_on_action env vid
      else Done)"

lemma tm_dispatch:
  "tm_do_action env (tm_action_name a) = (case a of
     TA_PROLOG \<Rightarrow> prolog_action env | TA_PROLOG_MIGR \<Rightarrow> prolog_migr_action env
   | TA_PROLOG_RESUME \<Rightarrow> prolog_resume_action env | TA_PROLOG_BACKUP \<Rightarrow> prolog_backup_action env
   | TA_PROLOG_RECOVER \<Rightarrow> prolog_recover_action env | TA_PROLOG_BACKUPDISK \<Rightarrow> prolog_backupdisk_action env
   | TA_EPILOG \<Rightarrow> epilog_action env | TA_EPILOG_STOP \<Rightarrow> epilog_stop_action env
   | TA_EPILOG_DELETE \<Rightarrow> epilog_delete_action env
   | TA_EPILOG_DELETE_PREVIOUS \<Rightarrow> epilog_delete_previous_action env
   | TA_CHECKPOINT \<Rightarrow> checkpoint_action env | TA_DRIVER_CANCEL \<Rightarrow> tm_driver_cancel_action env
   | TA_DELETE_RECOVER_FAIL \<Rightarrow> delete_recover_fail_action env
   | TA_RECOVER_DECOMPRESS_FAIL \<Rightarrow> recover_decompress_fail_action env
   | TA_DELETE_BACKUP_FAIL \<Rightarrow> delete_backup_fail_action env | TA_DELETEBAK \<Rightarrow> epilog_deletebak_action env
   | TA_ON \<Rightarrow> prolog_on_action env | TA_DELETE_BACKUP_COMPRESS \<Rightarrow> epilog_deletecps_action env
   | TA_PROLOG_RECOVER_DECOMPRESS \<Rightarrow> epilog_decompress_action env | TA_FINALIZE \<Rightarrow> (\<lambda>_. Done))"
  by (cases a) (simp_all add: tm_do_action_def fun_eq_iff)

end
