(* ===== verification/DeployFile.thy ===== *)
theory DeployFile
  imports Templates TransferManager
begin

text \<open>
  The deployment files: \<open>LibVirtDriver::deployment_description\<close> with its two kinds
  (src/vmm/LibVirtDriverKVM.cc, src/vmm/LibVirtDriverVMware.cc) and \<open>XenDriver::deployment_description\<close>
  (src/vmm/XenDriver.cc): from the template of a VM and the defaults of a driver, the text of the file that the driver
  gets, or the reason why there is none.

  A part of a file is what its statements write, and where they stop.  The defaults are the attributes of the
  configuration file of the driver; \<open>get_default\<close> takes one of its vector attributes for granted, and a single one
  of that name, whose cast is undefined in the source, is outside the model.  The names of tags and attributes are
  written by the functions \<open>open_tag\<close>, \<open>empty_tag\<close>, \<open>element\<close> and \<open>close_tag\<close>, which give the strings of the source.
\<close>

subsection \<open>What a part of a file is\<close>

text \<open>\<open>Stops msg s\<close>: the file ends with \<open>s\<close>, the message goes to the log of the VM and the result is -1;
  \<open>Faults\<close>: a null pointer is dereferenced.\<close>

datatype part = Writes string | Stops string string | Faults

fun followed_by :: "part \<Rightarrow> part \<Rightarrow> part" where
  "followed_by (Writes s) (Writes r) = Writes (s @ r)"
| "followed_by (Writes s) (Stops e r) = Stops e (s @ r)"
| "followed_by (Writes s) Faults = Faults"
| "followed_by (Stops e s) _ = Stops e s"
| "followed_by Faults _ = Faults"

fun in_order :: "part list \<Rightarrow> part" where
  "in_order [] = Writes []"
| "in_order (x # xs) = followed_by x (in_order xs)"

definition tabs :: "nat \<Rightarrow> string" where
  "tabs n = replicate n (CHR 0x09)"

definition quoted :: "string \<Rightarrow> string" where
  "quoted v = CHR 0x27 # v @ [CHR 0x27]"

definition attribute :: "string \<times> string \<Rightarrow> string" where
  "attribute nv = CHR '' '' # fst nv @ ''='' @ quoted (snd nv)"

definition start_tag :: "string \<Rightarrow> (string \<times> string) list \<Rightarrow> string" where
  "start_tag name as = ''<'' @ name @ concat (map attribute as)"

definition open_tag :: "nat \<Rightarrow> string \<Rightarrow> (string \<times> string) list \<Rightarrow> string" where
  "open_tag n name as = tabs n @ start_tag name as @ ''>'' @ endl"

definition empty_tag :: "nat \<Rightarrow> string \<Rightarrow> (string \<times> string) list \<Rightarrow> string" where
  "empty_tag n name as = tabs n @ start_tag name as @ ''/>'' @ endl"

definition close_tag :: "nat \<Rightarrow> string \<Rightarrow> string" where
  "close_tag n name = tabs n @ ''</'' @ name @ ''>'' @ endl"

definition element :: "nat \<Rightarrow> string \<Rightarrow> (string \<times> string) list \<Rightarrow> string \<Rightarrow> string" where
  "element n name as s = tabs n @ start_tag name as @ ''>'' @ s @ ''</'' @ name @ ''>'' @ endl"

text \<open>A part or an attribute that is left out when the value is empty.\<close>

definition unless_empty :: "string \<Rightarrow> 'a list \<Rightarrow> 'a list" where
  "unless_empty v s = (if v = [] then [] else s)"

subsection \<open>Values of the template and defaults\<close>

text \<open>What a deployment file is made of: the object, and from its last history record the directory on the host
  and the network driver.\<close>

record deployable =
  dv_oid :: int
  dv_template :: tmpl
  dv_remote_dir :: string
  dv_vnm_mad :: string

definition all_of :: "string \<Rightarrow> deployable \<Rightarrow> attr list" where
  "all_of name v = snd (tmpl_get name [] (dv_template v))"

text \<open>The values of the first attribute of a name, none when there is no attribute or a single one.\<close>

definition first_of :: "string \<Rightarrow> deployable \<Rightarrow> vector_map" where
  "first_of name v = (case all_of name v of Vector m # _ \<Rightarrow> m | _ \<Rightarrow> [])"

definition get_default_single :: "tmpl \<Rightarrow> string \<Rightarrow> string" where
  "get_default_single conf name = tmpl_get_string name conf"

definition get_default :: "tmpl \<Rightarrow> string \<Rightarrow> string \<Rightarrow> string" where
  "get_default conf name vname = (case tmpl_get name [] conf of (n, vs) \<Rightarrow>
     if n = 1 then (case hd vs of Vector m \<Rightarrow> attr_value vname m | Single _ \<Rightarrow> []) else [])"

definition or_default :: "string \<Rightarrow> string \<Rightarrow> string" where
  "or_default v d = (if v = [] then d else v)"

text \<open>An attribute of the VM with the default of the driver: a single one, or a value of a vector.\<close>

definition single_value :: "tmpl \<Rightarrow> deployable \<Rightarrow> string \<Rightarrow> string" where
  "single_value conf v name = or_default (tmpl_get_string name (dv_template v)) (get_default_single conf name)"

definition vector_default :: "tmpl \<Rightarrow> deployable \<Rightarrow> string \<Rightarrow> string \<Rightarrow> string" where
  "vector_default conf v name vname = or_default (attr_value vname (first_of name v)) (get_default conf name vname)"

definition read_only :: "vector_map \<Rightarrow> bool" where
  "read_only disk \<longleftrightarrow> to_upper (attr_value ''READONLY'' disk) = ''YES''"

definition disk_path :: "deployable \<Rightarrow> nat \<Rightarrow> string" where
  "disk_path v n = dv_remote_dir v @ ''/disk.'' @ num_string 10 n"

text \<open>The raw attributes for one hypervisor, each on a line of its own.\<close>

fun raw_text :: "string \<Rightarrow> string \<Rightarrow> attr list \<Rightarrow> string" where
  "raw_text kind pre [] = []"
| "raw_text kind pre (Single _ # rs) = raw_text kind pre rs"
| "raw_text kind pre (Vector m # rs) =
     (if to_upper (attr_value ''TYPE'' m) = kind then pre @ attr_value ''DATA'' m @ endl else []) @ raw_text kind pre rs"

subsection \<open>KVM\<close>

definition memory_error :: string where
  "memory_error = ''No MEMORY defined and no default provided.''"

definition arch_error :: string where
  "arch_error = ''No ARCH defined and no default provided.''"

definition boot_error :: string where
  "boot_error = ''No BOOT device defined and no default provided.''"

definition disk_error :: string where
  "disk_error = ''Wrong target value in DISK.''"

text \<open>The name of the domain, its processors and its memory in kilobytes; the same for VMware.\<close>

definition libvirt_capacity :: "tmpl \<Rightarrow> deployable \<Rightarrow> part" where
  "libvirt_capacity conf v = (let
       name = element 1 ''name'' [] (''one-'' @ int_string (dv_oid v));
       vcpu = single_value conf v ''VCPU'';
       memory = single_value conf v ''MEMORY'';
       text = name @ unless_empty vcpu (element 1 ''vcpu'' [] vcpu) in
     if memory = [] then Stops memory_error text
     else Writes (text @ element 1 ''memory'' [] (int_string (in_kb (atoi memory)))))"

definition kvm_domain_start :: "string \<Rightarrow> string" where
  "kvm_domain_start emulator =
     open_tag 0 ''domain'' [(''type'', emulator), (''xmlns:qemu'', ''http://libvirt.org/schemas/domain/qemu/1.0'')]"

text \<open>The kernel and how it is started.\<close>

definition kvm_boot_method :: "(string \<Rightarrow> string) \<Rightarrow> string" where
  "kvm_boot_method os = (let
       kernel = os ''KERNEL''; initrd = os ''INITRD''; root = os ''ROOT''; kernel_cmd = os ''KERNEL_CMD'';
       bootloader = os ''BOOTLOADER'';
       cmd = (if root = [] then kernel_cmd else ''root=/dev/'' @ root @ '' '' @ kernel_cmd) in
     if kernel \<noteq> [] then
       element 2 ''kernel'' [] kernel @
       unless_empty initrd (element 2 ''initrd'' [] initrd) @
       unless_empty cmd (element 2 ''cmdline'' [] cmd)
     else unless_empty bootloader (element 2 ''bootloader'' [] bootloader))"

definition kvm_os :: "string \<Rightarrow> tmpl \<Rightarrow> deployable \<Rightarrow> part" where
  "kvm_os emulator conf v = (let
       os = vector_default conf v ''OS'';
       arch = os ''ARCH''; boot = os ''BOOT'';
       start = open_tag 1 ''os'' [];
       type = (if emulator = ''kvm'' then element 2 ''type'' [(''arch'', arch)] ''hvm'' else []) in
     if arch = [] then Stops arch_error start
     else if boot = [] then Stops boot_error (start @ type)
     else Writes (start @ type @ kvm_boot_method os @ empty_tag 2 ''boot'' [(''dev'', boot)] @ close_tag 1 ''os''))"

definition kvm_emulator :: "string \<Rightarrow> tmpl \<Rightarrow> string" where
  "kvm_emulator emulator conf = (if emulator = ''kvm''
     then element 2 ''emulator'' [] (or_default (get_default_single conf ''EMULATOR'') ''/usr/bin/kvm'') else [])"

subsubsection \<open>Disks\<close>

text \<open>\<open>order\<close> numbers the disks without those that were attached to the running machine.  The result tells
  whether the disk is one of these.\<close>

definition attached :: "vector_map \<Rightarrow> bool" where
  "attached disk \<longleftrightarrow> to_upper (attr_value ''TYPE'' disk) = ''BLOCK'' \<and> attr_value ''SOURCE_DM'' disk \<noteq> []"

definition kvm_disk_source :: "deployable \<Rightarrow> nat \<Rightarrow> vector_map \<Rightarrow> string" where
  "kvm_disk_source v order disk = (let type = to_upper (attr_value ''TYPE'' disk) in
     if type = ''BLOCK'' then
       open_tag 2 ''disk'' [(''type'', ''block''), (''device'', ''disk'')] @
       empty_tag 3 ''source'' [(''dev'', if attr_value ''SOURCE_DM'' disk = [] then disk_path v order
         else attr_value ''SOURCE_DM'' disk)]
     else if type = ''CDROM'' then
       open_tag 2 ''disk'' [(''type'', ''file''), (''device'', ''cdrom'')] @
       empty_tag 3 ''source'' [(''file'', disk_path v order)]
     else
       open_tag 2 ''disk'' [(''type'', ''file''), (''device'', ''disk'')] @
       empty_tag 3 ''source'' [(''file'', disk_path v order)])"

definition kvm_disk :: "deployable \<Rightarrow> string \<Rightarrow> string \<Rightarrow> nat \<Rightarrow> vector_map \<Rightarrow> string" where
  "kvm_disk v default_driver default_cache order disk = (let
       target = attr_value ''TARGET'' disk; bus = attr_value ''BUS'' disk;
       driver = attr_value ''DRIVER'' disk; cache = attr_value ''CACHE'' disk in
     kvm_disk_source v order disk @
     empty_tag 3 ''target'' ((''dev'', target) # unless_empty bus [(''bus'', bus)]) @
     (if read_only disk then empty_tag 3 ''readonly'' [] else []) @
     empty_tag 3 ''driver'' [(''name'', ''qemu''), (''type'', or_default driver default_driver),
       (''cache'', or_default cache default_cache)] @
     close_tag 2 ''disk'')"

text \<open>The loop, with \<open>i\<close> and \<open>source_dm_num\<close>; the second result is the value of the latter at its end.\<close>

fun kvm_disks :: "deployable \<Rightarrow> string \<Rightarrow> string \<Rightarrow> nat \<Rightarrow> nat \<Rightarrow> attr list \<Rightarrow> part \<times> nat" where
  "kvm_disks v dd dc i source_dm_num [] = (Writes [], source_dm_num)"
| "kvm_disks v dd dc i source_dm_num (Single _ # ds) = kvm_disks v dd dc (Suc i) source_dm_num ds"
| "kvm_disks v dd dc i source_dm_num (Vector disk # ds) =
     (if attr_value ''TARGET'' disk = [] then (Stops disk_error [], source_dm_num)
      else case kvm_disks v dd dc (Suc i) (if attached disk then Suc source_dm_num else source_dm_num) ds of
        (text, n) \<Rightarrow> (followed_by (Writes (kvm_disk v dd dc (i - source_dm_num) disk)) text, n))"

text \<open>The context; a context that is a single attribute is a null pointer.\<close>

definition kvm_context :: "deployable \<Rightarrow> string \<Rightarrow> nat \<Rightarrow> part" where
  "kvm_context v default_driver order = (case all_of ''CONTEXT'' v of
     [Single _] \<Rightarrow> Faults
   | [Vector context] \<Rightarrow> (let target = attr_value ''TARGET'' context in
       Writes (unless_empty target (
         open_tag 2 ''disk'' [(''type'', ''file''), (''device'', ''cdrom'')] @
         empty_tag 3 ''source'' [(''file'', disk_path v order)] @
         empty_tag 3 ''target'' [(''dev'', target)] @
         empty_tag 3 ''readonly'' [] @
         empty_tag 3 ''driver'' [(''name'', ''qemu''), (''type'', or_default (attr_value ''DRIVER'' context) default_driver)] @
         close_tag 2 ''disk'')))
   | _ \<Rightarrow> Writes [])"

definition kvm_disk_section :: "tmpl \<Rightarrow> deployable \<Rightarrow> part" where
  "kvm_disk_section conf v = (let
       default_driver = or_default (get_default conf ''DISK'' ''DRIVER'') ''raw'';
       default_cache = or_default (get_default conf ''DISK'' ''CACHE'') ''default'';
       ds = all_of ''DISK'' v in
     case kvm_disks v default_driver default_cache 0 0 ds of (text, source_dm_num) \<Rightarrow>
       followed_by text (kvm_context v default_driver (length ds - source_dm_num)))"

subsubsection \<open>Network interfaces, graphics, input and features\<close>

text \<open>The lines that an interface has on both kinds.\<close>

definition interface_lines :: "vector_map \<Rightarrow> string" where
  "interface_lines nic = (let mac = attr_value ''MAC'' nic; target = attr_value ''TARGET'' nic;
       script = attr_value ''SCRIPT'' nic; model = attr_value ''MODEL'' nic in
     unless_empty mac (empty_tag 3 ''mac'' [(''address'', mac)]) @
     unless_empty target (empty_tag 3 ''target'' [(''dev'', target)]) @
     unless_empty script (empty_tag 3 ''script'' [(''path'', script)]) @
     unless_empty model (empty_tag 3 ''model'' [(''type'', model)]))"

definition kvm_nic :: "string \<Rightarrow> vector_map \<Rightarrow> string" where
  "kvm_nic default_filter nic = (let bridge = attr_value ''BRIDGE'' nic; ip = attr_value ''IP'' nic;
       the_filter = or_default (attr_value ''FILTER'' nic) default_filter in
     (if bridge = [] then open_tag 2 ''interface'' [(''type'', ''ethernet'')]
      else open_tag 2 ''interface'' [(''type'', ''bridge'')] @ empty_tag 3 ''source'' [(''bridge'', bridge)]) @
     interface_lines nic @
     (if ip \<noteq> [] \<and> the_filter \<noteq> [] then
        open_tag 3 ''filterref'' [(''filter'', the_filter)] @
        empty_tag 4 ''parameter'' [(''name'', ''IP''), (''value'', ip)] @
        close_tag 3 ''filterref''
      else []) @
     close_tag 2 ''interface'')"

fun of_vectors :: "(vector_map \<Rightarrow> 'a list) \<Rightarrow> attr list \<Rightarrow> 'a list" where
  "of_vectors f [] = []"
| "of_vectors f (Single _ # as) = of_vectors f as"
| "of_vectors f (Vector m # as) = f m @ of_vectors f as"

definition kvm_graphics :: "deployable \<Rightarrow> string" where
  "kvm_graphics v = (let g = first_of ''GRAPHICS'' v; type = attr_value ''TYPE'' g;
       listen = attr_value ''LISTEN'' g; port = attr_value ''PORT'' g;
       passwd = attr_value ''PASSWD'' g; keymap = attr_value ''KEYMAP'' g in
     if type = ''vnc'' \<or> type = ''VNC'' then
       empty_tag 2 ''graphics'' ([(''type'', ''vnc'')] @ unless_empty listen [(''listen'', listen)] @
         unless_empty port [(''port'', port)] @ unless_empty passwd [(''passwd'', passwd)] @
         unless_empty keymap [(''keymap'', keymap)])
     else [])"

definition kvm_input :: "deployable \<Rightarrow> string" where
  "kvm_input v = (let g = first_of ''INPUT'' v; type = attr_value ''TYPE'' g; bus = attr_value ''BUS'' g in
     unless_empty type (empty_tag 2 ''input'' ((''type'', type) # unless_empty bus [(''bus'', bus)])))"

definition kvm_features :: "tmpl \<Rightarrow> deployable \<Rightarrow> string" where
  "kvm_features conf v = (let pae = vector_default conf v ''FEATURES'' ''PAE'';
       acpi = vector_default conf v ''FEATURES'' ''ACPI'' in
     if acpi = ''yes'' \<or> pae = ''yes'' then
       open_tag 1 ''features'' [] @
       (if pae = ''yes'' then empty_tag 2 ''pae'' [] else []) @
       (if acpi = ''yes'' then empty_tag 2 ''acpi'' [] else []) @
       close_tag 1 ''features''
     else [])"

definition kvm_file :: "string \<Rightarrow> tmpl \<Rightarrow> deployable \<Rightarrow> part" where
  "kvm_file emulator conf v = in_order [
     Writes (kvm_domain_start emulator),
     libvirt_capacity conf v,
     kvm_os emulator conf v,
     Writes (open_tag 1 ''devices'' [] @ kvm_emulator emulator conf),
     kvm_disk_section conf v,
     Writes (of_vectors (kvm_nic (get_default conf ''NIC'' ''FILTER'')) (all_of ''NIC'' v) @
       kvm_graphics v @ kvm_input v @ close_tag 1 ''devices'' @ kvm_features conf v @
       raw_text ''KVM'' (tabs 1) (all_of ''RAW'' v) @ close_tag 0 ''domain'')]"

end
