(* ===== verification/XmlText.thy ===== *)
theory XmlText
  imports DeployFile
begin

text \<open>
  What a reader of XML makes of a text, as far as the deployment files need it: tags with attributes between
  single quotes, and character data.  The reader is the specification of the files that src/vmm writes for libvirt; it
  is no part of the program.  It knows no entities, and drops tabs and line ends between characters.
\<close>

subsection \<open>The reader\<close>

datatype xtok = Open string "(string \<times> string) list" | Close string | Ch char

definition name_char :: "char \<Rightarrow> bool" where
  "name_char c \<longleftrightarrow> c \<in> set ''abcdefghijklmnopqrstuvwxyzABCDEFGHIJKLMNOPQRSTUVWXYZ0123456789:-_.''"

definition qt :: char where
  "qt = CHR 0x27"

text \<open>A value between quotes holds none of the characters that mark something.\<close>

definition value_char :: "char \<Rightarrow> bool" where
  "value_char c \<longleftrightarrow> c \<noteq> qt \<and> c \<noteq> CHR ''<'' \<and> c \<noteq> CHR ''&''"

fun read_attr :: "string \<Rightarrow> ((string \<times> string) \<times> string) option" where
  "read_attr s = (let n = takeWhile name_char s; s1 = dropWhile name_char s in
     case s1 of e # q # s2 \<Rightarrow>
       if n \<noteq> [] \<and> e = CHR ''='' \<and> q = qt
       then (let v = takeWhile value_char s2 in case dropWhile value_char s2 of
         q' # s3 \<Rightarrow> if q' = qt then Some ((n, v), s3) else None
       | [] \<Rightarrow> None)
       else None
     | _ \<Rightarrow> None)"

lemma read_attr_shorter: "read_attr s = Some (a, r) \<Longrightarrow> length r < length s"
  using length_dropWhile_le [of name_char s]
  by (auto simp: Let_def split: list.splits if_splits)
    (metis (no_types, lifting) Suc_leD Suc_le_eq le_trans length_Cons length_dropWhile_le)

declare read_attr.simps [simp del]

function read_attrs :: "string \<Rightarrow> ((string \<times> string) list \<times> string) option" where
  "read_attrs [] = Some ([], [])"
| "read_attrs (c # s) = (if c = CHR '' '' then (case read_attr s of None \<Rightarrow> None
     | Some (a, r) \<Rightarrow> map_option (\<lambda>(as, r'). (a # as, r')) (read_attrs r)) else Some ([], c # s))"
  by pat_completeness auto
termination
  by (relation "measure length") (auto dest: read_attr_shorter)

definition read_tag :: "string \<Rightarrow> (xtok list \<times> string) option" where
  "read_tag s = (case s of [] \<Rightarrow> None | c # s1 \<Rightarrow>
     if c = CHR ''/'' then (let n = takeWhile name_char s1 in case dropWhile name_char s1 of
         d # r \<Rightarrow> if d = CHR ''>'' \<and> n \<noteq> [] then Some ([Close n], r) else None
       | [] \<Rightarrow> None)
     else (let n = takeWhile name_char s in if n = [] then None else
       (case read_attrs (dropWhile name_char s) of
          Some (as, d # r) \<Rightarrow> if d = CHR ''>'' then Some ([Open n as], r)
            else if d = CHR ''/'' then (case r of e # r' \<Rightarrow>
              if e = CHR ''>'' then Some ([Open n as, Close n], r') else None | [] \<Rightarrow> None) else None
        | _ \<Rightarrow> None)))"

lemma read_attrs_shorter: "read_attrs s = Some (as, r) \<Longrightarrow> length r \<le> length s"
  by (induction s arbitrary: as r rule: read_attrs.induct)
    (fastforce dest: read_attr_shorter split: if_splits option.splits)+

lemma read_tag_shorter: "read_tag s = Some (ts, r) \<Longrightarrow> length r \<le> length s"
  by (auto simp: read_tag_def Let_def split: list.splits if_splits option.splits prod.splits
      dest!: read_attrs_shorter dest: arg_cong [where f = length])
    (metis Suc_leD le_trans length_Cons length_dropWhile_le nat_le_linear)+

fun before :: "xtok list \<Rightarrow> xtok list option \<Rightarrow> xtok list option" where
  "before ts None = None"
| "before ts (Some us) = Some (ts @ us)"

lemma before_simps [simp]: "before [] x = x" "before ts (before us x) = before (ts @ us) x"
  by (cases x; simp)+

function scan :: "string \<Rightarrow> xtok list option" where
  "scan [] = Some []"
| "scan (c # s) = (if c = CHR ''<'' then (case read_tag s of None \<Rightarrow> None
       | Some (ts, r) \<Rightarrow> before ts (scan r))
     else if c = CHR ''&'' then None
     else if c = CHR 0x09 \<or> c = CHR 0x0A then scan s
     else before [Ch c] (scan s))"
  by pat_completeness auto
termination
  by (relation "measure length") (auto simp: less_Suc_eq_le dest: read_tag_shorter)

text \<open>The reader decides by what it has seen: a text that it reads can be followed by another.\<close>

lemma span_append:
  "dropWhile P s = c # x \<Longrightarrow> takeWhile P (s @ r) = takeWhile P s"
  "dropWhile P s = c # x \<Longrightarrow> dropWhile P (s @ r) = c # x @ r"
  by (induction s) (auto split: if_splits)

lemma read_attr_append:
  assumes "read_attr s = Some (a, q)"
  shows "read_attr (s @ r) = Some (a, q @ r)"
proof -
  obtain e c s2 where d: "dropWhile name_char s = e # c # s2" "takeWhile name_char s \<noteq> []" "e = CHR ''=''" "c = qt"
    "a = (takeWhile name_char s, takeWhile value_char s2)" "dropWhile value_char s2 = qt # q"
    using assms by (auto simp: read_attr.simps Let_def split: list.splits if_splits)
  then show ?thesis using span_append [OF d(1), of r] span_append [OF d(6), of r]
    by (simp add: read_attr.simps)
qed

lemma read_attrs_append: "read_attrs s = Some (as, q) \<Longrightarrow> q \<noteq> [] \<Longrightarrow> read_attrs (s @ r) = Some (as, q @ r)"
proof (induction s arbitrary: as q rule: read_attrs.induct)
  case (2 c s)
  show ?case
  proof (cases "c = CHR '' ''")
    case True
    with "2.prems"(1) obtain a x as' where a: "read_attr s = Some (a, x)" "read_attrs x = Some (as', q)" "as = a # as'"
      by (auto split: option.splits)
    show ?thesis using "2.IH" [OF True a(1) refl a(2) "2.prems"(2)] True read_attr_append [OF a(1), of r] a(3) by simp
  qed (use 2 in auto)
qed simp

lemma read_tag_append:
  assumes "read_tag s = Some (ts, q)"
  shows "read_tag (s @ r) = Some (ts, q @ r)"
proof -
  obtain c s1 where s: "s = c # s1" using assms by (cases s) (auto simp: read_tag_def)
  show ?thesis
  proof (cases "c = CHR ''/''")
    case True
    then have d: "dropWhile name_char s1 = CHR ''>'' # q" "takeWhile name_char s1 \<noteq> []" "ts = [Close (takeWhile name_char s1)]"
      using assms s by (auto simp: read_tag_def Let_def split: list.splits if_splits)
    then show ?thesis using span_append [OF d(1), of r] True s by (simp add: read_tag_def)
  next
    case False
    let ?n = "takeWhile name_char s"
    obtain as d x where a: "read_attrs (dropWhile name_char s) = Some (as, d # x)" "?n \<noteq> []"
      and k: "(if d = CHR ''>'' then Some ([Open ?n as], x) else if d = CHR ''/'' then (case x of e # r' \<Rightarrow>
              if e = CHR ''>'' then Some ([Open ?n as, Close ?n], r') else None | [] \<Rightarrow> None) else None) = Some (ts, q)"
      using assms s False by (auto simp: read_tag_def Let_def simp del: takeWhile.simps dropWhile.simps
          split: list.splits if_splits option.splits)
    obtain e y where y: "dropWhile name_char s = e # y" using a(1) by (cases "dropWhile name_char s") auto
    have "read_attrs (dropWhile name_char (s @ r)) = Some (as, d # x @ r)"
      using read_attrs_append [OF a(1), of r] span_append(2) [OF y, of r] y by simp
    then show ?thesis using span_append(1) [OF y, of r] k a(2) False s
      by (auto simp: read_tag_def Let_def simp del: takeWhile.simps dropWhile.simps split: list.splits if_splits)
  qed
qed

lemma before_Some: "before ts x = Some us \<longleftrightarrow> (\<exists>vs. x = Some vs \<and> us = ts @ vs)"
  by (cases x) auto

lemma scan_append: "scan s = Some ts \<Longrightarrow> scan (s @ r) = before ts (scan r)"
proof (induction s arbitrary: ts rule: scan.induct)
  case (2 c s)
  show ?case
  proof (cases "c = CHR ''<''")
    case True
    with "2.prems" obtain us q vs where u: "read_tag s = Some (us, q)" "scan q = Some vs" "ts = us @ vs"
      by (auto simp: before_Some split: option.splits)
    then show ?thesis using "2.IH"(1) [OF True u(1) refl u(2)] True read_tag_append [OF u(1), of r] by simp
  next
    case False
    then show ?thesis using 2 by (auto simp: before_Some split: if_splits)
  qed
qed simp

subsection \<open>Trees\<close>

datatype xml = Node string "(string \<times> string) list" "xml list" | Data string

fun toks :: "xml \<Rightarrow> xtok list" where
  "toks (Node n as ks) = Open n as # concat (map toks ks) @ [Close n]"
| "toks (Data s) = map Ch s"

text \<open>Tags are put together on a stack of open ones, each with what came before it, the last first.\<close>

fun add_char :: "char \<Rightarrow> xml list \<Rightarrow> xml list" where
  "add_char c (Data s # xs) = Data (s @ [c]) # xs"
| "add_char c xs = Data [c] # xs"

fun build :: "(string \<times> (string \<times> string) list \<times> xml list) list \<Rightarrow> xml list \<Rightarrow> xtok list \<Rightarrow> xml list option" where
  "build [] acc [] = Some (rev acc)"
| "build (f # fs) acc [] = None"
| "build st acc (Open n as # ts) = build ((n, as, acc) # st) [] ts"
| "build [] acc (Close m # ts) = None"
| "build ((n, as, up) # st) acc (Close m # ts) = (if m = n then build st (Node n as (rev acc) # up) ts else None)"
| "build st acc (Ch c # ts) = build st (add_char c acc) ts"

definition parse_xml :: "string \<Rightarrow> xml list option" where
  "parse_xml s = (case scan s of None \<Rightarrow> None | Some ts \<Rightarrow> build [] [] ts)"

text \<open>An element with some text, or with elements.\<close>

fun proper :: "xml \<Rightarrow> bool" where
  "proper (Data s) = False"
| "proper (Node n as ks) = ((case ks of [Data s] \<Rightarrow> s \<noteq> [] | _ \<Rightarrow> False) \<or> (\<forall>k \<in> set ks. proper k))"

lemma build_chars: "build st (Data s # acc) (map Ch r @ ts) = build st (Data (s @ r) # acc) ts"
  by (induction r arbitrary: s) auto

lemma build_text: "s \<noteq> [] \<Longrightarrow> build st [] (map Ch s @ ts) = build st [Data s] ts"
  using build_chars [of st "[hd s]" "[]" "tl s" ts] by (cases s) auto

lemma build_tree: "proper x \<Longrightarrow> build st acc (toks x @ ts) = build st (x # acc) ts"
proof (induction x arbitrary: st acc ts rule: toks.induct)
  case (1 n as ks)
  have kids: "build st' acc' (concat (map toks xs) @ ts') = build st' (rev xs @ acc') ts'"
    if "set xs \<subseteq> set ks" "\<forall>k \<in> set xs. proper k" for xs st' acc' ts'
    using that
  proof (induction xs arbitrary: acc')
    case (Cons x xs)
    then show ?case using "1.IH" [of x st' acc' "concat (map toks xs) @ ts'"] by simp
  qed simp
  show ?case
  proof (cases "\<forall>k \<in> set ks. proper k")
    case True
    then show ?thesis using kids [of ks "(n, as, acc) # st" "[]" "Close n # ts"] by simp
  next
    case False
    with "1.prems" obtain s where "ks = [Data s]" "s \<noteq> []"
      by (cases ks; cases "tl ks"; cases "hd ks") auto
    then show ?thesis using build_text [of s "(n, as, acc) # st" "Close n # ts"] by simp
  qed
qed simp

lemma build_trees:
  "\<forall>x \<in> set xs. proper x \<Longrightarrow> build [] acc (concat (map toks xs)) = Some (rev acc @ xs)"
proof (induction xs arbitrary: acc)
  case (Cons x xs)
  then show ?case using build_tree [of x "[]" acc "concat (map toks xs)"] by simp
qed simp

subsection \<open>What a text spells\<close>

definition spells :: "string \<Rightarrow> xml list \<Rightarrow> bool" where
  "spells s xs \<longleftrightarrow> (\<forall>r. scan (s @ r) = before (concat (map toks xs)) (scan r))"

lemma spells_parse: "spells s xs \<Longrightarrow> \<forall>x \<in> set xs. proper x \<Longrightarrow> parse_xml s = Some xs"
  using build_trees [of xs "[]"] by (auto simp: spells_def parse_xml_def dest: spec [of _ "[]"])

lemma scan_spells: "scan s = Some (concat (map toks xs)) \<Longrightarrow> spells s xs"
  by (simp add: spells_def scan_append)

lemma spells_Nil [intro, simp]: "spells [] []"
  by (simp add: spells_def)

lemma spells_append: "spells a xs \<Longrightarrow> spells b ys \<Longrightarrow> spells (a @ b) (xs @ ys)"
  by (simp add: spells_def)

text \<open>The characters of values.\<close>

definition safe_char :: "char \<Rightarrow> bool" where
  "safe_char c \<longleftrightarrow> value_char c \<and> c \<noteq> CHR 0x09 \<and> c \<noteq> CHR 0x0A"

definition safe :: "string \<Rightarrow> bool" where
  "safe s \<longleftrightarrow> (\<forall>c \<in> set s. safe_char c)"

lemma safe_simps [simp]: "safe []" "safe (c # s) \<longleftrightarrow> safe_char c \<and> safe s" "safe (s @ r) \<longleftrightarrow> safe s \<and> safe r"
  by (auto simp: safe_def)

lemma scan_safe: "safe s \<Longrightarrow> scan (s @ r) = before (map Ch s) (scan r)"
  by (induction s) (auto simp: safe_char_def value_char_def)

lemma scan_tabs [simp]: "scan (tabs n @ r) = scan r"
  by (induction n) (auto simp: tabs_def)

lemma scan_endl [simp]: "scan (endl @ r) = scan r"
  by (simp add: endl_def)

text \<open>Tags with the names of the source.\<close>

definition tag_ok :: "string \<Rightarrow> bool" where
  "tag_ok n \<longleftrightarrow> n \<noteq> [] \<and> (\<forall>c \<in> set n. name_char c)"

definition atts_ok :: "(string \<times> string) list \<Rightarrow> bool" where
  "atts_ok as \<longleftrightarrow> (\<forall>(n, v) \<in> set as. tag_ok n \<and> safe v)"

lemma stop_chars [simp]:
  "\<not> name_char (CHR ''='')" "\<not> name_char (CHR '' '')" "\<not> name_char (CHR ''/'')" "\<not> name_char (CHR ''>'')"
  "\<not> value_char qt" "\<not> name_char qt"
  by (simp_all add: name_char_def value_char_def qt_def)

lemma read_attr_attribute:
  assumes "tag_ok n" "safe v"
  shows "read_attr (n @ CHR ''='' # CHR 0x27 # v @ CHR 0x27 # r) = Some ((n, v), r)"
proof -
  have "takeWhile name_char (n @ CHR ''='' # x) = n" "dropWhile name_char (n @ CHR ''='' # x) = CHR ''='' # x" for x
    using assms(1) by (simp_all add: tag_ok_def)
  moreover have "takeWhile value_char (v @ CHR 0x27 # r) = v" "dropWhile value_char (v @ CHR 0x27 # r) = CHR 0x27 # r"
    using assms(2) by (simp_all add: safe_def safe_char_def value_char_def qt_def)
  ultimately show ?thesis using assms(1) by (simp add: read_attr.simps tag_ok_def qt_def)
qed

lemma read_attrs_attributes:
  "atts_ok as \<Longrightarrow> c \<noteq> CHR '' '' \<Longrightarrow> read_attrs (concat (map attribute as) @ c # r) = Some (as, c # r)"
  by (induction as) (auto simp: atts_ok_def attribute_def quoted_def read_attr_attribute)

lemma tag_hd: "tag_ok n \<Longrightarrow> \<exists>c cs. n = c # cs \<and> c \<noteq> CHR ''/''"
  by (cases n) (auto simp: tag_ok_def)

lemma tag_name:
  assumes "tag_ok n" "\<not> name_char c"
  shows "takeWhile name_char (n @ c # r) = n" "dropWhile name_char (n @ c # r) = c # r"
  using assms by (simp_all add: tag_ok_def)

lemma after_name: "\<not> name_char c \<Longrightarrow> \<exists>d x. concat (map attribute as) @ c # r = d # x \<and> \<not> name_char d"
  by (cases as) (auto simp: attribute_def)

lemma read_tag_start:
  assumes "tag_ok n" "atts_ok as"
  shows "read_tag (n @ concat (map attribute as) @ CHR ''>'' # r) = Some ([Open n as], r)"
    "read_tag (n @ concat (map attribute as) @ CHR ''/'' # CHR ''>'' # r) = Some ([Open n as, Close n], r)"
proof -
  have t: "read_tag (n @ concat (map attribute as) @ c # x) = (if c = CHR ''>'' then Some ([Open n as], x)
      else case x of e # r' \<Rightarrow> if e = CHR ''>'' then Some ([Open n as, Close n], r') else None | [] \<Rightarrow> None)"
    if c: "c = CHR ''>'' \<or> c = CHR ''/''" for c x
  proof -
    have "\<not> name_char c" using c by auto
    then obtain d y where y: "concat (map attribute as) @ c # x = d # y" "\<not> name_char d" using after_name by blast
    have a: "read_attrs (d # y) = Some (as, c # x)"
      using read_attrs_attributes [OF assms(2), of c x] c y(1) by auto
    have "takeWhile name_char (n @ d # y) = n" "dropWhile name_char (n @ d # y) = d # y"
      using tag_name [OF assms(1) y(2)] by simp_all
    moreover obtain e cs where "n = e # cs" "e \<noteq> CHR ''/''" using tag_hd [OF assms(1)] by blast
    ultimately show ?thesis using a c unfolding y(1) by (auto simp: read_tag_def Let_def
      simp del: read_attrs.simps takeWhile.simps dropWhile.simps split: list.splits)
  qed
  show "read_tag (n @ concat (map attribute as) @ CHR ''>'' # r) = Some ([Open n as], r)"
    by (simp add: t)
  show "read_tag (n @ concat (map attribute as) @ CHR ''/'' # CHR ''>'' # r) = Some ([Open n as, Close n], r)"
    using t [of "CHR ''/''" "CHR ''>'' # r"] by simp
qed

lemma scan_start:
  assumes "tag_ok n" "atts_ok as"
  shows "scan (start_tag n as @ ''>'' @ r) = before [Open n as] (scan r)"
    "scan (start_tag n as @ ''/>'' @ r) = before [Open n as, Close n] (scan r)"
  using read_tag_start [OF assms, of r] by (simp_all add: start_tag_def)

lemma scan_close: "tag_ok n \<Longrightarrow> scan (''</'' @ n @ ''>'' @ r) = before [Close n] (scan r)"
  using tag_name [of n "CHR ''>''" r] by (simp add: read_tag_def tag_ok_def)

lemma spells_empty_tag: "tag_ok n \<Longrightarrow> atts_ok as \<Longrightarrow> spells (empty_tag k n as) [Node n as []]"
  using scan_start(2) [of n as] by (auto simp: spells_def empty_tag_def)

lemma spells_element:
  "tag_ok n \<Longrightarrow> atts_ok as \<Longrightarrow> safe s \<Longrightarrow> spells (element k n as s) [Node n as [Data s]]"
  using scan_start(1) [of n as] scan_close [of n] scan_safe [of s]
  by (auto simp: spells_def element_def)

lemma spells_node:
  "tag_ok n \<Longrightarrow> atts_ok as \<Longrightarrow> spells s xs \<Longrightarrow> spells (open_tag k n as @ s @ close_tag j n) [Node n as xs]"
  using scan_start(1) [of n as] scan_close [of n]
  by (auto simp: spells_def open_tag_def close_tag_def)

end
