(* ===== verification/DeployOthers.thy ===== *)
theory DeployOthers
  imports DeployFile
begin

text \<open>
  The deployment files for VMware (src/vmm/LibVirtDriverVMware.cc) and Xen (src/vmm/XenDriver.cc), and the
  functions that write a file: \<open>deployment_description\<close> of both kinds of driver, with the file system of the
  transfer manager's model.  The text of the processor credits of Xen, a product of two floats, is a parameter.
\<close>

subsection \<open>VMware\<close>

definition vmware_os :: "tmpl \<Rightarrow> deployable \<Rightarrow> part" where
  "vmware_os conf v = (let arch = vector_default conf v ''OS'' ''ARCH'' in
     if arch = [] then Stops arch_error []
     else Writes (open_tag 1 ''os'' [] @ element 2 ''type'' [(''arch'', arch)] ''hvm'' @ close_tag 1 ''os''))"

text \<open>The name of a file in the datastore.  The first two strings of the source open no quote.\<close>

definition datastore_dir :: "string \<Rightarrow> deployable \<Rightarrow> string" where
  "datastore_dir datastore v = ''['' @ datastore @ ''] '' @ int_string (dv_oid v)"

definition unquoted_source :: "string \<Rightarrow> string" where
  "unquoted_source path = tabs 3 @ ''<source file='' @ path @ [CHR 0x27] @ ''/>'' @ endl"

definition vmware_disk_source :: "string \<Rightarrow> deployable \<Rightarrow> nat \<Rightarrow> vector_map \<Rightarrow> string" where
  "vmware_disk_source datastore v i disk = (let type = to_upper (attr_value ''TYPE'' disk);
       image = datastore_dir datastore v @ ''/images/disk.'' @ num_string 10 i in
     if type = ''BLOCK'' then
       open_tag 2 ''disk'' [(''type'', ''block''), (''device'', ''disk'')] @ unquoted_source image
     else if type = ''CDROM'' then
       open_tag 2 ''disk'' [(''type'', ''file''), (''device'', ''cdrom'')] @ unquoted_source (image @ ''.iso'')
     else
       open_tag 2 ''disk'' [(''type'', ''file''), (''device'', ''disk'')] @
       empty_tag 3 ''source'' [(''file'', image @ ''/disk.vmdk'')])"

definition vmware_disk :: "string \<Rightarrow> string \<Rightarrow> deployable \<Rightarrow> nat \<Rightarrow> vector_map \<Rightarrow> string" where
  "vmware_disk datastore default_driver v i disk = (let
       target = attr_value ''TARGET'' disk; bus = attr_value ''BUS'' disk;
       driver = or_default (attr_value ''DRIVER'' disk) default_driver in
     vmware_disk_source datastore v i disk @
     empty_tag 3 ''target'' ((''dev'', target) # unless_empty bus [(''bus'', bus)]) @
     unless_empty driver (empty_tag 3 ''driver'' [(''name'', driver)]) @
     (if read_only disk then empty_tag 3 ''readonly'' [] else []) @
     close_tag 2 ''disk'')"

fun vmware_disks :: "string \<Rightarrow> string \<Rightarrow> deployable \<Rightarrow> nat \<Rightarrow> attr list \<Rightarrow> part" where
  "vmware_disks datastore dd v i [] = Writes []"
| "vmware_disks datastore dd v i (Single _ # ds) = vmware_disks datastore dd v (Suc i) ds"
| "vmware_disks datastore dd v i (Vector disk # ds) =
     (if attr_value ''TARGET'' disk = [] then Stops disk_error []
      else followed_by (Writes (vmware_disk datastore dd v i disk)) (vmware_disks datastore dd v (Suc i) ds))"

definition vmware_context :: "string \<Rightarrow> deployable \<Rightarrow> nat \<Rightarrow> part" where
  "vmware_context datastore v num = (case all_of ''CONTEXT'' v of
     [Single _] \<Rightarrow> Faults
   | [Vector context] \<Rightarrow> (let target = attr_value ''TARGET'' context in
       Writes (unless_empty target (
         open_tag 2 ''disk'' [(''type'', ''file''), (''device'', ''cdrom'')] @
         empty_tag 3 ''source'' [(''file'', datastore_dir datastore v @ ''/disk.'' @ num_string 10 num @ ''.iso'')] @
         empty_tag 3 ''target'' [(''dev'', target)] @
         empty_tag 3 ''readonly'' [] @
         close_tag 2 ''disk'')))
   | _ \<Rightarrow> Writes [])"

text \<open>The datastore is read from the defaults when there is a disk.\<close>

definition vmware_disk_section :: "tmpl \<Rightarrow> deployable \<Rightarrow> part" where
  "vmware_disk_section conf v = (let ds = all_of ''DISK'' v;
       datastore = (if ds = [] then [] else get_default_single conf ''DATASTORE'') in
     followed_by (vmware_disks datastore (get_default conf ''DISK'' ''DRIVER'') v 0 ds)
       (vmware_context datastore v (length ds)))"

definition vmware_nic :: "deployable \<Rightarrow> vector_map \<Rightarrow> string" where
  "vmware_nic v nic = (let bridge = (if dv_vnm_mad v = ''vmware'' then ''one-pg-'' @ attr_value ''NETWORK_ID'' nic
       else attr_value ''BRIDGE'' nic) in
     open_tag 2 ''interface'' [(''type'', ''bridge'')] @ empty_tag 3 ''source'' [(''bridge'', bridge)] @
     interface_lines nic @ close_tag 2 ''interface'')"

definition vmware_file :: "string \<Rightarrow> tmpl \<Rightarrow> deployable \<Rightarrow> part" where
  "vmware_file emulator conf v = in_order [
     Writes (open_tag 0 ''domain'' [(''type'', emulator)]),
     libvirt_capacity conf v,
     vmware_os conf v,
     Writes (open_tag 1 ''devices'' []),
     vmware_disk_section conf v,
     Writes (of_vectors (vmware_nic v) (all_of ''NIC'' v) @ close_tag 1 ''devices'' @
       raw_text ''VMWARE'' (tabs 1) (all_of ''RAW'' v) @ close_tag 0 ''domain'')]"

subsection \<open>Xen\<close>

definition xen_memory_error :: string where
  "xen_memory_error = ''No memory defined and no default provided.''"

definition xen_boot_error :: string where
  "xen_boot_error = ''No kernel or bootloader defined and no default provided.''"

definition vncdisplay_error :: string where
  "vncdisplay_error = ''Could not generate a valid xen vncdisplay number, vnc port number must be equal or above 5900.''"

text \<open>\<open>credit\<close>: the text of \<open>ceil(cpu_units * base_credit)\<close> for the texts of CPU and CREDIT.\<close>

definition xen_capacity :: "(string \<Rightarrow> string \<Rightarrow> string) \<Rightarrow> tmpl \<Rightarrow> deployable \<Rightarrow> part" where
  "xen_capacity credit conf v = (let
       cpu = tmpl_get_string ''CPU'' (dv_template v);
       memory = single_value conf v ''MEMORY''; vcpu = single_value conf v ''VCPU'';
       text = ''name = '' @ quoted (''one-'' @ int_string (dv_oid v)) @ endl @
         ''#O CPU_CREDITS = '' @ credit cpu (get_default_single conf ''CREDIT'') @ endl in
     if memory = [] then Stops xen_memory_error text
     else Writes (text @ ''memory  = '' @ quoted memory @ endl @
       unless_empty vcpu (''vcpus  = '' @ quoted vcpu @ endl)))"

definition xen_boot_method :: "tmpl \<Rightarrow> deployable \<Rightarrow> part" where
  "xen_boot_method conf v = (let os = vector_default conf v ''OS'';
       kernel = os ''KERNEL''; initrd = os ''INITRD''; bootloader = os ''BOOTLOADER''; root = os ''ROOT'';
       kernel_cmd = os ''KERNEL_CMD'' in
     if kernel \<noteq> [] then Writes (
       ''kernel = '' @ quoted kernel @ endl @
       unless_empty initrd (''ramdisk = '' @ quoted initrd @ endl) @
       unless_empty root (''root = '' @ quoted (''/dev/'' @ root) @ endl) @
       unless_empty kernel_cmd (''extra = '' @ quoted kernel_cmd @ endl))
     else if bootloader \<noteq> [] then Writes (''bootloader = '' @ [CHR 0x22] @ bootloader @ [CHR 0x22] @ endl)
     else Stops xen_boot_error [])"

definition xen_disk :: "deployable \<Rightarrow> string \<Rightarrow> nat \<Rightarrow> vector_map \<Rightarrow> string" where
  "xen_disk v default_driver i disk = (let
       target = attr_value ''TARGET'' disk; driver = attr_value ''DRIVER'' disk;
       mode = (if read_only disk then ''r'' else ''w'');
       access = (if driver \<noteq> [] then driver
         else if to_upper (attr_value ''TYPE'' disk) = ''BLOCK'' then ''phy:'' else default_driver) in
     ''    '' @ quoted (access @ disk_path v i @ '','' @ target @ '','' @ mode) @ '','' @ endl)"

fun xen_disks :: "deployable \<Rightarrow> string \<Rightarrow> nat \<Rightarrow> attr list \<Rightarrow> part" where
  "xen_disks v dd i [] = Writes []"
| "xen_disks v dd i (Single _ # ds) = xen_disks v dd (Suc i) ds"
| "xen_disks v dd i (Vector disk # ds) =
     (if attr_value ''TARGET'' disk = [] then Stops disk_error []
      else followed_by (Writes (xen_disk v dd i disk)) (xen_disks v dd (Suc i) ds))"

definition xen_context :: "deployable \<Rightarrow> string \<Rightarrow> nat \<Rightarrow> part" where
  "xen_context v default_driver num = (case all_of ''CONTEXT'' v of
     [Single _] \<Rightarrow> Faults
   | [Vector context] \<Rightarrow> (let target = attr_value ''TARGET'' context in
       Writes (unless_empty target (''    '' @ quoted (or_default (attr_value ''DRIVER'' context) default_driver @
         disk_path v num @ '','' @ target @ '','' @ ''r'') @ '','' @ endl)))
   | _ \<Rightarrow> Writes [])"

definition xen_disk_section :: "tmpl \<Rightarrow> deployable \<Rightarrow> part" where
  "xen_disk_section conf v = (let ds = all_of ''DISK'' v;
       default_driver = or_default (get_default conf ''DISK'' ''DRIVER'') ''tap:aio:'' in
     in_order [Writes (''disk = ['' @ endl), xen_disks v default_driver 0 ds,
       xen_context v default_driver (length ds), Writes ('']'' @ endl)])"

text \<open>A NIC is a list of pairs with commas between them: each of the values that the NIC has writes \<open>pre_char\<close>, a
  blank before the first pair, but nothing before the model.\<close>

definition xen_pair :: "string \<Rightarrow> string \<Rightarrow> string \<times> char \<Rightarrow> string \<times> char" where
  "xen_pair name value = (\<lambda>(text, pre_char). if value = [] then (text, pre_char)
     else (text @ [pre_char] @ name @ ''='' @ value, CHR '',''))"

definition xen_nic :: "vector_map \<Rightarrow> string" where
  "xen_nic nic = (let model = attr_value ''MODEL'' nic;
       s0 = (if model = [] then ([], CHR '' '') else (''model='' @ model, CHR '',''));
       s1 = xen_pair ''mac'' (attr_value ''MAC'' nic) s0;
       s2 = xen_pair ''ip'' (attr_value ''IP'' nic) s1;
       s3 = xen_pair ''bridge'' (attr_value ''BRIDGE'' nic) s2 in
     ''    '' @ quoted (fst s3) @ '','' @ endl)"

definition xen_graphics :: "deployable \<Rightarrow> part" where
  "xen_graphics v = (let g = first_of ''GRAPHICS'' v; type = attr_value ''TYPE'' g;
       listen = attr_value ''LISTEN'' g; port = attr_value ''PORT'' g;
       passwd = attr_value ''PASSWD'' g; keymap = attr_value ''KEYMAP'' g;
       (display, iss) = extract_int 0 (istr port);
       start = ''vfb = ['' @ [CHR 0x27] @ ''type=vnc'' @ unless_empty listen ('',vnclisten='' @ listen) in
     if type = ''vnc'' \<or> type = ''VNC'' then
       (if port \<noteq> [] \<and> (failbit iss \<or> display < 5900) then Stops vncdisplay_error start
        else Writes (start @
          unless_empty port ('',vncdisplay='' @ int_string (display - 5900)) @
          unless_empty passwd ('',vncpasswd='' @ passwd) @
          unless_empty keymap ('',keymap='' @ keymap) @ [CHR 0x27] @ '']'' @ endl))
     else Writes [])"

definition xen_file :: "(string \<Rightarrow> string \<Rightarrow> string) \<Rightarrow> tmpl \<Rightarrow> deployable \<Rightarrow> part" where
  "xen_file credit conf v = in_order [
     xen_capacity credit conf v,
     xen_boot_method conf v,
     xen_disk_section conf v,
     Writes (''vif = ['' @ endl @ of_vectors xen_nic (all_of ''NIC'' v) @ '']'' @ endl),
     xen_graphics v,
     Writes (raw_text ''XEN'' [] (all_of ''RAW'' v))]"

subsection \<open>Writing a file\<close>

definition written :: "mad_env \<Rightarrow> string \<Rightarrow> part \<Rightarrow> io \<Rightarrow> (int \<times> io) res" where
  "written env file_name p u = (if \<not> can_open env file_name then Done (- 1, u)
     else case p of Writes s \<Rightarrow> Done (0, write_file file_name s u)
     | Stops _ s \<Rightarrow> Done (- 1, write_file file_name s u)
     | Faults \<Rightarrow> Segv)"

definition libvirt_deployment_description ::
  "mad_env \<Rightarrow> string \<Rightarrow> tmpl \<Rightarrow> deployable \<Rightarrow> string \<Rightarrow> io \<Rightarrow> (int \<times> io) res" where
  "libvirt_deployment_description env emulator conf v file_name u =
     (if emulator = ''kvm'' then written env file_name (kvm_file emulator conf v) u
      else if emulator = ''vmware'' then written env file_name (vmware_file emulator conf v) u
      else Done (- 1, u))"

definition xen_deployment_description ::
  "mad_env \<Rightarrow> (string \<Rightarrow> string \<Rightarrow> string) \<Rightarrow> tmpl \<Rightarrow> deployable \<Rightarrow> string \<Rightarrow> io \<Rightarrow> (int \<times> io) res" where
  "xen_deployment_description env credit conf v file_name u = written env file_name (xen_file credit conf v) u"

text \<open>The driver for any other hypervisor gets the template (src/vmm/XMLDriver.cc).\<close>

definition xml_deployment_description :: "mad_env \<Rightarrow> deployable \<Rightarrow> string \<Rightarrow> io \<Rightarrow> (int \<times> io) res" where
  "xml_deployment_description env v file_name u = written env file_name (Writes (tmpl_to_xml (dv_template v))) u"

end
