(* ===== verification/DeploySpec.thy ===== *)
theory DeploySpec
  imports XmlText DeployOthers
begin

text \<open>
  What the deployment files say.  For libvirt a file is the XML of a domain: \<open>kvm_domain\<close> and \<open>vmware_domain\<close> are
  the trees, and a reader of XML makes just these of the files, as long as the values hold none of the characters that
  mark something.  Then the conditions under which there is a file, where the disks are, and what becomes of a
  disk that was attached to the running machine.
\<close>

subsection \<open>Values without marks\<close>

fun safe_attr :: "attr \<Rightarrow> bool" where
  "safe_attr (Single s) \<longleftrightarrow> safe s"
| "safe_attr (Vector m) \<longleftrightarrow> (\<forall>nv \<in> set m. safe (snd nv))"

definition safe_template :: "tmpl \<Rightarrow> bool" where
  "safe_template t \<longleftrightarrow> (\<forall>na \<in> set (attributes t). fst na \<noteq> ''RAW'' \<longrightarrow> safe_attr (snd na))"

definition safe_deployable :: "tmpl \<Rightarrow> deployable \<Rightarrow> bool" where
  "safe_deployable conf v \<longleftrightarrow> safe_template conf \<and> safe_template (dv_template v) \<and> safe (dv_remote_dir v)"

named_theorems safe_rules

lemma safe_attr_value [safe_rules]: "safe_attr (Vector m) \<Longrightarrow> safe (attr_value k m)"
  by (force simp: attr_value_def split: option.splits dest: map_of_SomeD)

lemma safe_range: "safe_template t \<Longrightarrow> n \<noteq> ''RAW'' \<Longrightarrow> \<forall>a \<in> set (attr_range n (attributes t)). safe_attr a"
  by (auto simp: safe_template_def attr_range_def)

lemma safe_get_string [safe_rules]: "safe_template t \<Longrightarrow> n \<noteq> ''RAW'' \<Longrightarrow> safe (tmpl_get_string n t)"
  using safe_range [of t n]
  by (cases "attr_range n (attributes t)") (auto simp: tmpl_get_string_def tmpl_get_def split: attr.splits)

lemma safe_or_default [safe_rules]: "safe x \<Longrightarrow> safe d \<Longrightarrow> safe (or_default x d)"
  by (simp add: or_default_def)

lemma safe_default [safe_rules]: "safe_template t \<Longrightarrow> n \<noteq> ''RAW'' \<Longrightarrow> safe (get_default t n k)"
  using safe_range [of t n] safe_attr_value [of _ k]
  by (cases "attr_range n (attributes t)") (auto simp: get_default_def tmpl_get_def split: attr.splits)

lemma safe_all_of: "safe_deployable conf v \<Longrightarrow> n \<noteq> ''RAW'' \<Longrightarrow> \<forall>a \<in> set (all_of n v). safe_attr a"
  using safe_range [of "dv_template v" n] by (simp add: all_of_def tmpl_get_def safe_deployable_def)

lemma safe_first_of [safe_rules]: "safe_deployable conf v \<Longrightarrow> n \<noteq> ''RAW'' \<Longrightarrow> safe_attr (Vector (first_of n v))"
  using safe_all_of [of conf v n] by (cases "all_of n v") (force simp: first_of_def split: attr.splits)+

lemma safe_single [safe_rules]: "safe_deployable conf v \<Longrightarrow> n \<noteq> ''RAW'' \<Longrightarrow> safe (single_value conf v n)"
  by (simp add: single_value_def get_default_single_def safe_deployable_def safe_rules)

lemma safe_vector_default [safe_rules]:
  "safe_deployable conf v \<Longrightarrow> n \<noteq> ''RAW'' \<Longrightarrow> safe (vector_default conf v n k)"
  using safe_attr_value [OF safe_first_of, of conf v n k]
  by (simp add: vector_default_def safe_deployable_def safe_rules)

lemma digit_char_codes: "d < 10 \<Longrightarrow> (of_char (digit_char d) :: nat) = 48 + d"
  by (simp add: digit_char_def)

lemma safe_digit: "d < 10 \<Longrightarrow> safe_char (digit_char d)"
  using digit_char_codes [of d] by (auto simp: safe_char_def value_char_def qt_def)

lemma safe_num [safe_rules]: "safe (num_string 10 n)"
proof (induction n rule: less_induct)
  case (less n)
  then show ?case by (subst num_string.simps) (simp add: safe_digit)
qed

lemma safe_int [safe_rules]: "safe (int_string n)"
  by (simp add: int_string_def safe_num) (simp add: safe_char_def value_char_def qt_def)

lemma safe_disk_path [safe_rules]: "safe_deployable conf v \<Longrightarrow> safe (disk_path v n)"
  by (simp add: disk_path_def safe_deployable_def safe_num) (simp add: safe_char_def value_char_def qt_def)

subsection \<open>The domain of libvirt\<close>

abbreviation leaf :: "string \<Rightarrow> (string \<times> string) list \<Rightarrow> xml" where
  "leaf n as \<equiv> Node n as []"

abbreviation text_node :: "string \<Rightarrow> string \<Rightarrow> xml" where
  "text_node n s \<equiv> Node n [] [Data s]"

definition capacity_nodes :: "tmpl \<Rightarrow> deployable \<Rightarrow> xml list" where
  "capacity_nodes conf v = [text_node ''name'' (''one-'' @ int_string (dv_oid v))] @
     unless_empty (single_value conf v ''VCPU'') [text_node ''vcpu'' (single_value conf v ''VCPU'')] @
     [text_node ''memory'' (int_string (atoi (single_value conf v ''MEMORY'') * 1024))]"

text \<open>A memory whose kilobytes are in the range of an \<open>int\<close>.\<close>

definition memory_fits :: "tmpl \<Rightarrow> deployable \<Rightarrow> bool" where
  "memory_fits conf v \<longleftrightarrow> \<bar>atoi (single_value conf v ''MEMORY'')\<bar> < 2 ^ 21"

text \<open>Two terabytes are written as a negative number.\<close>

lemma memory_wraps:
  assumes "single_value conf v ''MEMORY'' = m" "atoi m = 2 ^ 21" "libvirt_capacity conf v = Writes s"
  shows "\<exists>pre. s = pre @ element 1 ''memory'' [] (int_string (- (2 ^ 31)))"
  using assms in_kb_wraps by (auto simp: libvirt_capacity_def Let_def split: if_splits)

text \<open>The kernel is only started directly when there is one.\<close>

definition boot_nodes :: "(string \<Rightarrow> string) \<Rightarrow> xml list" where
  "boot_nodes os = (let
       cmd = (if os ''ROOT'' = [] then os ''KERNEL_CMD'' else ''root=/dev/'' @ os ''ROOT'' @ '' '' @ os ''KERNEL_CMD'') in
     if os ''KERNEL'' = [] then unless_empty (os ''BOOTLOADER'') [text_node ''bootloader'' (os ''BOOTLOADER'')]
     else [text_node ''kernel'' (os ''KERNEL'')] @
       unless_empty (os ''INITRD'') [text_node ''initrd'' (os ''INITRD'')] @
       unless_empty cmd [text_node ''cmdline'' cmd])"

definition kvm_os_node :: "tmpl \<Rightarrow> deployable \<Rightarrow> xml" where
  "kvm_os_node conf v = (let os = vector_default conf v ''OS'' in Node ''os'' []
     ([Node ''type'' [(''arch'', os ''ARCH'')] [Data ''hvm'']] @ boot_nodes os @ [leaf ''boot'' [(''dev'', os ''BOOT'')]]))"

text \<open>Where the data of a disk is.\<close>

definition source_node :: "deployable \<Rightarrow> nat \<Rightarrow> vector_map \<Rightarrow> xml" where
  "source_node v order disk = (if to_upper (attr_value ''TYPE'' disk) = ''BLOCK''
     then leaf ''source'' [(''dev'', if attached disk then attr_value ''SOURCE_DM'' disk else disk_path v order)]
     else leaf ''source'' [(''file'', disk_path v order)])"

definition disk_kind :: "vector_map \<Rightarrow> (string \<times> string) list" where
  "disk_kind disk = (let type = to_upper (attr_value ''TYPE'' disk) in
     [(''type'', if type = ''BLOCK'' then ''block'' else ''file''),
      (''device'', if type = ''CDROM'' then ''cdrom'' else ''disk'')])"

definition kvm_disk_node :: "deployable \<Rightarrow> string \<Rightarrow> string \<Rightarrow> nat \<Rightarrow> vector_map \<Rightarrow> xml" where
  "kvm_disk_node v dd dc order disk = Node ''disk'' (disk_kind disk)
     ([source_node v order disk] @
      [leaf ''target'' ((''dev'', attr_value ''TARGET'' disk) #
        unless_empty (attr_value ''BUS'' disk) [(''bus'', attr_value ''BUS'' disk)])] @
      (if read_only disk then [leaf ''readonly'' []] else []) @
      [leaf ''driver'' [(''name'', ''qemu''), (''type'', or_default (attr_value ''DRIVER'' disk) dd),
        (''cache'', or_default (attr_value ''CACHE'' disk) dc)]])"

text \<open>The disks that are no attached ones are numbered from 0; the context comes after them.\<close>

definition attached_attr :: "attr \<Rightarrow> bool" where
  "attached_attr a = (case a of Vector m \<Rightarrow> attached m | Single _ \<Rightarrow> False)"

definition disk_number :: "attr list \<Rightarrow> nat" where
  "disk_number ds = length (filter (\<lambda>d. \<not> attached_attr d) ds)"

definition kvm_disk_nodes :: "deployable \<Rightarrow> string \<Rightarrow> string \<Rightarrow> attr list \<Rightarrow> xml list" where
  "kvm_disk_nodes v dd dc ds = concat (map (\<lambda>i. case ds ! i of Single _ \<Rightarrow> []
     | Vector disk \<Rightarrow> [kvm_disk_node v dd dc (disk_number (take i ds)) disk]) [0 ..< length ds])"

definition context_node :: "deployable \<Rightarrow> string \<Rightarrow> nat \<Rightarrow> vector_map \<Rightarrow> xml list" where
  "context_node v dd order context = (let target = attr_value ''TARGET'' context in
     unless_empty target [Node ''disk'' [(''type'', ''file''), (''device'', ''cdrom'')]
       ([leaf ''source'' [(''file'', disk_path v order)]] @ [leaf ''target'' [(''dev'', target)]] @
        [leaf ''readonly'' []] @
        [leaf ''driver'' [(''name'', ''qemu''), (''type'', or_default (attr_value ''DRIVER'' context) dd)]])])"

definition kvm_context_nodes :: "deployable \<Rightarrow> string \<Rightarrow> nat \<Rightarrow> xml list" where
  "kvm_context_nodes v dd order = (case all_of ''CONTEXT'' v of [Vector c] \<Rightarrow> context_node v dd order c | _ \<Rightarrow> [])"

definition interface_nodes :: "vector_map \<Rightarrow> xml list" where
  "interface_nodes nic =
     unless_empty (attr_value ''MAC'' nic) [leaf ''mac'' [(''address'', attr_value ''MAC'' nic)]] @
     unless_empty (attr_value ''TARGET'' nic) [leaf ''target'' [(''dev'', attr_value ''TARGET'' nic)]] @
     unless_empty (attr_value ''SCRIPT'' nic) [leaf ''script'' [(''path'', attr_value ''SCRIPT'' nic)]] @
     unless_empty (attr_value ''MODEL'' nic) [leaf ''model'' [(''type'', attr_value ''MODEL'' nic)]]"

definition kvm_nic_node :: "string \<Rightarrow> vector_map \<Rightarrow> xml" where
  "kvm_nic_node df nic = (let bridge = attr_value ''BRIDGE'' nic; ip = attr_value ''IP'' nic;
       the_filter = or_default (attr_value ''FILTER'' nic) df in
     Node ''interface'' [(''type'', if bridge = [] then ''ethernet'' else ''bridge'')]
       (unless_empty bridge [leaf ''source'' [(''bridge'', bridge)]] @ interface_nodes nic @
        (if ip \<noteq> [] \<and> the_filter \<noteq> [] then [Node ''filterref'' [(''filter'', the_filter)]
           [leaf ''parameter'' [(''name'', ''IP''), (''value'', ip)]]] else [])))"

definition kvm_graphics_nodes :: "deployable \<Rightarrow> xml list" where
  "kvm_graphics_nodes v = (let g = first_of ''GRAPHICS'' v;
       opt = \<lambda>key name. unless_empty (attr_value key g) [(name, attr_value key g)] in
     if attr_value ''TYPE'' g \<in> {''vnc'', ''VNC''}
     then [leaf ''graphics'' ([(''type'', ''vnc'')] @ opt ''LISTEN'' ''listen'' @ opt ''PORT'' ''port'' @
       opt ''PASSWD'' ''passwd'' @ opt ''KEYMAP'' ''keymap'')] else [])"

definition kvm_input_nodes :: "deployable \<Rightarrow> xml list" where
  "kvm_input_nodes v = (let g = first_of ''INPUT'' v in unless_empty (attr_value ''TYPE'' g)
     [leaf ''input'' ((''type'', attr_value ''TYPE'' g) # unless_empty (attr_value ''BUS'' g) [(''bus'', attr_value ''BUS'' g)])])"

definition kvm_features_nodes :: "tmpl \<Rightarrow> deployable \<Rightarrow> xml list" where
  "kvm_features_nodes conf v = (let on = \<lambda>n. vector_default conf v ''FEATURES'' n = ''yes'' in
     if on ''ACPI'' \<or> on ''PAE'' then [Node ''features'' []
       ((if on ''PAE'' then [leaf ''pae'' []] else []) @ (if on ''ACPI'' then [leaf ''acpi'' []] else []))] else [])"

definition disk_driver :: "tmpl \<Rightarrow> string" where
  "disk_driver conf = or_default (get_default conf ''DISK'' ''DRIVER'') ''raw''"

definition disk_cache :: "tmpl \<Rightarrow> string" where
  "disk_cache conf = or_default (get_default conf ''DISK'' ''CACHE'') ''default''"

definition kvm_device_nodes :: "tmpl \<Rightarrow> deployable \<Rightarrow> xml list" where
  "kvm_device_nodes conf v = (let ds = all_of ''DISK'' v in
     [text_node ''emulator'' (or_default (get_default_single conf ''EMULATOR'') ''/usr/bin/kvm'')] @
     kvm_disk_nodes v (disk_driver conf) (disk_cache conf) ds @
     kvm_context_nodes v (disk_driver conf) (disk_number ds) @
     of_vectors (\<lambda>nic. [kvm_nic_node (get_default conf ''NIC'' ''FILTER'') nic]) (all_of ''NIC'' v) @
     kvm_graphics_nodes v @ kvm_input_nodes v)"

definition kvm_domain :: "tmpl \<Rightarrow> deployable \<Rightarrow> xml list \<Rightarrow> xml" where
  "kvm_domain conf v raws = Node ''domain''
     [(''type'', ''kvm''), (''xmlns:qemu'', ''http://libvirt.org/schemas/domain/qemu/1.0'')]
     (capacity_nodes conf v @ [kvm_os_node conf v] @ [Node ''devices'' [] (kvm_device_nodes conf v)] @
      kvm_features_nodes conf v @ raws)"

subsection \<open>A KVM file is the XML of the domain\<close>

named_theorems spelling

lemmas [spelling] = spells_append spells_empty_tag spells_element spells_node

lemma spells_unless [spelling]: "(v \<noteq> [] \<Longrightarrow> spells s xs) \<Longrightarrow> spells (unless_empty v s) (unless_empty v xs)"
  by (simp add: unless_empty_def)

lemma spells_if [spelling]:
  "(b \<Longrightarrow> spells s xs) \<Longrightarrow> (\<not> b \<Longrightarrow> spells s' xs') \<Longrightarrow> spells (if b then s else s') (if b then xs else xs')"
  by simp

lemma set_unless [simp]: "x \<in> set (unless_empty v s) \<longleftrightarrow> v \<noteq> [] \<and> x \<in> set s"
  by (simp add: unless_empty_def)

lemma atts_ok_simps [simp]:
  "atts_ok []" "atts_ok (nv # as) \<longleftrightarrow> tag_ok (fst nv) \<and> safe (snd nv) \<and> atts_ok as"
  "atts_ok (as @ bs) \<longleftrightarrow> atts_ok as \<and> atts_ok bs" "atts_ok (unless_empty v as) \<longleftrightarrow> (v \<noteq> [] \<longrightarrow> atts_ok as)"
  by (auto simp: atts_ok_def unless_empty_def)

text \<open>The names of the source, and the characters of its strings.\<close>

lemmas literal_simps = safe_char_def value_char_def qt_def

lemma tag_names [simp]:
  "\<forall>n \<in> {''domain'', ''type'', ''xmlns:qemu'', ''name'', ''vcpu'', ''memory'', ''os'', ''arch'', ''kernel'', ''initrd'',
     ''cmdline'', ''bootloader'', ''boot'', ''dev'', ''devices'', ''emulator'', ''disk'', ''device'', ''source'', ''file''}. tag_ok n"
  "\<forall>n \<in> {''target'', ''bus'', ''readonly'', ''driver'', ''cache'', ''interface'', ''bridge'', ''mac'', ''address'', ''script'',
     ''path'', ''model'', ''filterref'', ''filter'', ''parameter'', ''value'', ''graphics'', ''listen'', ''port'', ''passwd''}. tag_ok n"
  "\<forall>n \<in> {''keymap'', ''input'', ''features'', ''pae'', ''acpi''}. tag_ok n"
  by (simp_all add: tag_ok_def name_char_def)

lemma capacity_spells:
  assumes "safe_deployable conf v" "memory_fits conf v" "libvirt_capacity conf v = Writes s"
  shows "spells s (capacity_nodes conf v)"
proof -
  let ?vcpu = "single_value conf v ''VCPU''"
  have "s = element 1 ''name'' [] (''one-'' @ int_string (dv_oid v)) @
      unless_empty ?vcpu (element 1 ''vcpu'' [] ?vcpu) @
      element 1 ''memory'' [] (int_string (atoi (single_value conf v ''MEMORY'') * 1024))"
    using assms(2,3) by (auto simp: libvirt_capacity_def Let_def memory_fits_def in_kb_exact split: if_splits)
  then show ?thesis unfolding capacity_nodes_def
    by (elim ssubst, intro spelling) (simp_all add: safe_rules assms(1) literal_simps)
qed

lemma boot_spells:
  assumes "\<And>k. safe (os k)"
  shows "spells (kvm_boot_method os) (boot_nodes os)"
proof -
  let ?cmd = "if os ''ROOT'' = [] then os ''KERNEL_CMD'' else ''root=/dev/'' @ os ''ROOT'' @ '' '' @ os ''KERNEL_CMD''"
  have "kvm_boot_method os = (if os ''KERNEL'' = [] then unless_empty (os ''BOOTLOADER'') (element 2 ''bootloader'' [] (os ''BOOTLOADER''))
      else element 2 ''kernel'' [] (os ''KERNEL'') @ unless_empty (os ''INITRD'') (element 2 ''initrd'' [] (os ''INITRD'')) @
        unless_empty ?cmd (element 2 ''cmdline'' [] ?cmd))"
    by (simp add: kvm_boot_method_def Let_def)
  then show ?thesis unfolding boot_nodes_def Let_def
    by (elim ssubst, intro spelling) (simp_all add: assms literal_simps)
qed

lemma kvm_os_spells:
  assumes "safe_deployable conf v" "kvm_os ''kvm'' conf v = Writes s"
  shows "spells s [kvm_os_node conf v]"
proof -
  let ?os = "vector_default conf v ''OS''"
  have "s = open_tag 1 ''os'' [] @ (element 2 ''type'' [(''arch'', ?os ''ARCH'')] ''hvm'' @ kvm_boot_method ?os @
      empty_tag 2 ''boot'' [(''dev'', ?os ''BOOT'')]) @ close_tag 1 ''os''"
    using assms(2) by (auto simp: kvm_os_def Let_def split: if_splits)
  then show ?thesis unfolding kvm_os_node_def Let_def
    by (elim ssubst, intro spelling boot_spells) (simp_all add: safe_rules assms(1) literal_simps)
qed

lemma source_spells:
  assumes "safe_deployable conf v" "safe_attr (Vector disk)"
  shows "kvm_disk_source v n disk = open_tag 2 ''disk'' (disk_kind disk) @
      (if to_upper (attr_value ''TYPE'' disk) = ''BLOCK''
       then empty_tag 3 ''source'' [(''dev'', if attached disk then attr_value ''SOURCE_DM'' disk else disk_path v n)]
       else empty_tag 3 ''source'' [(''file'', disk_path v n)])"
  by (simp add: kvm_disk_source_def disk_kind_def attached_def Let_def)

lemma disk_kind_ok [simp]: "atts_ok (disk_kind disk)"
  by (simp add: disk_kind_def Let_def literal_simps)

lemma kvm_disk_spells:
  assumes "safe_deployable conf v" "safe_attr (Vector disk)" "safe dd" "safe dc"
  shows "spells (kvm_disk v dd dc n disk) [kvm_disk_node v dd dc n disk]"
proof -
  have "kvm_disk v dd dc n disk = open_tag 2 ''disk'' (disk_kind disk) @
      ((if to_upper (attr_value ''TYPE'' disk) = ''BLOCK''
        then empty_tag 3 ''source'' [(''dev'', if attached disk then attr_value ''SOURCE_DM'' disk else disk_path v n)]
        else empty_tag 3 ''source'' [(''file'', disk_path v n)]) @
       empty_tag 3 ''target'' ((''dev'', attr_value ''TARGET'' disk) #
         unless_empty (attr_value ''BUS'' disk) [(''bus'', attr_value ''BUS'' disk)]) @
       (if read_only disk then empty_tag 3 ''readonly'' [] else []) @
       empty_tag 3 ''driver'' [(''name'', ''qemu''), (''type'', or_default (attr_value ''DRIVER'' disk) dd),
         (''cache'', or_default (attr_value ''CACHE'' disk) dc)]) @ close_tag 2 ''disk''"
    by (simp add: kvm_disk_def source_spells [OF assms(1,2)] Let_def)
  moreover have "spells (if to_upper (attr_value ''TYPE'' disk) = ''BLOCK''
        then empty_tag 3 ''source'' [(''dev'', if attached disk then attr_value ''SOURCE_DM'' disk else disk_path v n)]
        else empty_tag 3 ''source'' [(''file'', disk_path v n)]) [source_node v n disk]"
    by (simp add: source_node_def spells_empty_tag safe_disk_path [OF assms(1)] safe_attr_value [OF assms(2)])
  ultimately show ?thesis unfolding kvm_disk_node_def
    by (elim ssubst, intro spelling)
      (simp_all add: safe_or_default safe_attr_value [OF assms(2)] assms(3,4) literal_simps)
qed

text \<open>The loop over the disks.\<close>

lemma followed_by_Writes: "followed_by p q = Writes s \<longleftrightarrow> (\<exists>x y. p = Writes x \<and> q = Writes y \<and> s = x @ y)"
  by (cases p; cases q) auto

lemma followed_by_Nil [simp]: "followed_by p (Writes []) = p"
  by (cases p) auto

lemma disk_number_simps [simp]:
  "disk_number [] = 0" "disk_number (d # ds) = (if attached_attr d then disk_number ds else Suc (disk_number ds))"
  "disk_number (ds @ es) = disk_number ds + disk_number es"
  by (simp_all add: disk_number_def)

lemma attached_attr_simps [simp]: "attached_attr (Vector m) = attached m" "\<not> attached_attr (Single s)"
  by (simp_all add: attached_attr_def)

fun nodes_from :: "(nat \<Rightarrow> vector_map \<Rightarrow> 'a) \<Rightarrow> nat \<Rightarrow> attr list \<Rightarrow> 'a list" where
  "nodes_from f n [] = []"
| "nodes_from f n (Single _ # ds) = nodes_from f (Suc n) ds"
| "nodes_from f n (Vector disk # ds) = f n disk # nodes_from f (if attached disk then n else Suc n) ds"

lemma nodes_from_comprehension:
  "nodes_from f n ds = concat (map (\<lambda>i. case ds ! i of Single _ \<Rightarrow> []
     | Vector disk \<Rightarrow> [f (n + disk_number (take i ds)) disk]) [0 ..< length ds])"
proof (induction f n ds rule: nodes_from.induct)
  case (2 f n s ds)
  then show ?case by (simp add: upt_conv_Cons map_Suc_upt [symmetric] comp_def del: upt_Suc cong: attr.case_cong)
next
  case (3 f n disk ds)
  then show ?case by (cases "attached disk") (simp_all add: upt_conv_Cons map_Suc_upt [symmetric] comp_def del: upt_Suc cong: attr.case_cong)
qed simp

lemma kvm_disk_nodes_from: "kvm_disk_nodes v dd dc ds = nodes_from (kvm_disk_node v dd dc) 0 ds"
  by (simp add: kvm_disk_nodes_def nodes_from_comprehension cong: attr.case_cong)

lemma kvm_disks_spells:
  assumes safe_deps: "safe_deployable conf v" "safe dd" "safe dc"
  shows "k \<le> i \<Longrightarrow> \<forall>a \<in> set ds. safe_attr a \<Longrightarrow> kvm_disks v dd dc i k ds = (Writes s, n) \<Longrightarrow>
    spells s (nodes_from (kvm_disk_node v dd dc) (i - k) ds) \<and> n + disk_number ds = k + length ds"
proof (induction ds arbitrary: i k s)
  case (Cons d ds)
  show ?case
  proof (cases d)
    case (Single a)
    then show ?thesis using Cons.IH [of k "Suc i" s] Cons.prems by (auto simp: Suc_diff_le)
  next
    case (Vector disk)
    let ?k = "if attached disk then Suc k else k"
    obtain x where x: "kvm_disks v dd dc (Suc i) ?k ds = (Writes x, n)" "s = kvm_disk v dd dc (i - k) disk @ x"
      using Cons.prems(3) Vector by (auto simp: followed_by_Writes split: if_splits prod.splits)
    have r: "spells x (nodes_from (kvm_disk_node v dd dc) (Suc i - ?k) ds) \<and> n + disk_number ds = ?k + length ds"
      using Cons.prems(1,2) x(1) by (intro Cons.IH) auto
    have d: "spells (kvm_disk v dd dc (i - k) disk) [kvm_disk_node v dd dc (i - k) disk]"
      using kvm_disk_spells [OF safe_deps(1) _ safe_deps(2,3)] Cons.prems(2) Vector by simp
    have "Suc i - ?k = (if attached disk then i - k else Suc (i - k))" using Cons.prems(1) by auto
    then show ?thesis using spells_append [OF d conjunct1 [OF r]] r x(2) Vector by auto
  qed
qed simp

text \<open>Context, interfaces, graphics, input, features.\<close>

lemma kvm_context_spells:
  assumes "safe_deployable conf v" "safe dd" "kvm_context v dd n = Writes s"
  shows "spells s (kvm_context_nodes v dd n)"
proof (cases "\<exists>c. all_of ''CONTEXT'' v = [Vector c]")
  case True
  then obtain c where c: "all_of ''CONTEXT'' v = [Vector c]" by blast
  let ?t = "attr_value ''TARGET'' c"
  have safe_c: "safe (attr_value k c)" for k
    using safe_all_of [OF assms(1), of "''CONTEXT''"] c by (intro safe_attr_value) simp
  have "s = unless_empty ?t (open_tag 2 ''disk'' [(''type'', ''file''), (''device'', ''cdrom'')] @
      (empty_tag 3 ''source'' [(''file'', disk_path v n)] @ empty_tag 3 ''target'' [(''dev'', ?t)] @
       empty_tag 3 ''readonly'' [] @
       empty_tag 3 ''driver'' [(''name'', ''qemu''), (''type'', or_default (attr_value ''DRIVER'' c) dd)]) @
      close_tag 2 ''disk'')"
    using assms(3) c by (auto simp: kvm_context_def Let_def)
  moreover have "kvm_context_nodes v dd n = context_node v dd n c" using c by (simp add: kvm_context_nodes_def)
  ultimately show ?thesis unfolding context_node_def Let_def
    by (elim ssubst, intro spelling)
      (simp_all add: safe_c safe_disk_path [OF assms(1)] safe_or_default assms(2) literal_simps)
next
  case False
  then have "kvm_context v dd n \<in> {Faults, Writes []}" "kvm_context_nodes v dd n = []"
    by (auto simp: kvm_context_def kvm_context_nodes_def split: list.splits attr.splits)
  with assms(3) show ?thesis by auto
qed

lemma interface_spells:
  assumes "safe_attr (Vector nic)"
  shows "spells (interface_lines nic) (interface_nodes nic)"
  unfolding interface_lines_def interface_nodes_def Let_def
  by (intro spelling) (simp_all add: safe_attr_value [OF assms])

lemma kvm_nic_spells:
  assumes "safe_attr (Vector nic)" "safe df"
  shows "spells (kvm_nic df nic) [kvm_nic_node df nic]"
proof -
  let ?b = "attr_value ''BRIDGE'' nic" and ?ip = "attr_value ''IP'' nic" and ?f = "or_default (attr_value ''FILTER'' nic) df"
  have "kvm_nic df nic = open_tag 2 ''interface'' [(''type'', if ?b = [] then ''ethernet'' else ''bridge'')] @
      (unless_empty ?b (empty_tag 3 ''source'' [(''bridge'', ?b)]) @ interface_lines nic @
       (if ?ip \<noteq> [] \<and> ?f \<noteq> [] then open_tag 3 ''filterref'' [(''filter'', ?f)] @
          empty_tag 4 ''parameter'' [(''name'', ''IP''), (''value'', ?ip)] @ close_tag 3 ''filterref'' else [])) @
      close_tag 2 ''interface''"
    by (simp add: kvm_nic_def Let_def unless_empty_def)
  then show ?thesis unfolding kvm_nic_node_def Let_def
    by (elim ssubst, intro spelling interface_spells)
      (simp_all add: safe_attr_value [OF assms(1)] safe_or_default assms literal_simps del: safe_attr.simps)
qed

lemma of_vectors_spells:
  assumes "\<And>m. Vector m \<in> set as \<Longrightarrow> spells (f m) (g m)"
  shows "spells (of_vectors f as) (of_vectors g as)"
  using assms by (induction f as rule: of_vectors.induct) (auto intro: spells_append)

lemma graphics_spells:
  assumes "safe_deployable conf v"
  shows "spells (kvm_graphics v) (kvm_graphics_nodes v)"
proof -
  have "safe (attr_value k (first_of ''GRAPHICS'' v))" for k
    by (intro safe_attr_value safe_first_of [OF assms]) simp
  then show ?thesis
    by (auto simp: kvm_graphics_def kvm_graphics_nodes_def Let_def literal_simps intro!: spells_empty_tag)
qed

lemma input_spells:
  assumes "safe_deployable conf v"
  shows "spells (kvm_input v) (kvm_input_nodes v)"
proof -
  have "safe (attr_value k (first_of ''INPUT'' v))" for k
    by (intro safe_attr_value safe_first_of [OF assms]) simp
  then show ?thesis unfolding kvm_input_def kvm_input_nodes_def Let_def
    by (intro spelling) simp_all
qed

lemma features_spells: "spells (kvm_features conf v) (kvm_features_nodes conf v)"
proof -
  let ?on = "\<lambda>n. vector_default conf v ''FEATURES'' n = ''yes''"
  have "kvm_features conf v = (if ?on ''ACPI'' \<or> ?on ''PAE'' then open_tag 1 ''features'' [] @
      ((if ?on ''PAE'' then empty_tag 2 ''pae'' [] else []) @ (if ?on ''ACPI'' then empty_tag 2 ''acpi'' [] else [])) @
      close_tag 1 ''features'' else [])"
    by (simp add: kvm_features_def Let_def)
  then show ?thesis unfolding kvm_features_nodes_def Let_def
    by (elim ssubst, intro spelling) simp_all
qed

lemma kvm_disk_section_spells:
  assumes "safe_deployable conf v" "kvm_disk_section conf v = Writes s"
  shows "spells s (kvm_disk_nodes v (disk_driver conf) (disk_cache conf) (all_of ''DISK'' v) @
    kvm_context_nodes v (disk_driver conf) (disk_number (all_of ''DISK'' v)))"
proof -
  let ?ds = "all_of ''DISK'' v" and ?dd = "disk_driver conf" and ?dc = "disk_cache conf"
  have dd: "safe ?dd" "safe ?dc"
    using assms(1) by (simp_all add: disk_driver_def disk_cache_def safe_deployable_def safe_rules literal_simps)
  obtain x n y where x: "kvm_disks v ?dd ?dc 0 0 ?ds = (Writes x, n)" "kvm_context v ?dd (length ?ds - n) = Writes y" "s = x @ y"
    using assms(2) by (auto simp: kvm_disk_section_def Let_def disk_driver_def disk_cache_def followed_by_Writes split: prod.splits)
  have "spells x (kvm_disk_nodes v ?dd ?dc ?ds) \<and> n + disk_number ?ds = length ?ds"
    using kvm_disks_spells [OF assms(1) dd _ _ x(1)] safe_all_of [OF assms(1), of "''DISK''"]
    by (simp add: kvm_disk_nodes_from)
  then have "spells x (kvm_disk_nodes v ?dd ?dc ?ds)" "length ?ds - n = disk_number ?ds" by linarith+
  then show ?thesis using kvm_context_spells [OF assms(1) dd(1) x(2)] x(3) by (simp add: spells_append)
qed

subsubsection \<open>The whole file\<close>

lemma kvm_file_Writes:
  "kvm_file ''kvm'' conf v = Writes s \<longleftrightarrow> (\<exists>c os ds. libvirt_capacity conf v = Writes c \<and> kvm_os ''kvm'' conf v = Writes os \<and>
    kvm_disk_section conf v = Writes ds \<and> s = open_tag 0 ''domain'' [(''type'', ''kvm''),
      (''xmlns:qemu'', ''http://libvirt.org/schemas/domain/qemu/1.0'')] @ (c @ os @ (open_tag 1 ''devices'' [] @
        (kvm_emulator ''kvm'' conf @ ds @ of_vectors (kvm_nic (get_default conf ''NIC'' ''FILTER'')) (all_of ''NIC'' v) @
         kvm_graphics v @ kvm_input v) @ close_tag 1 ''devices'') @ kvm_features conf v @
       raw_text ''KVM'' (tabs 1) (all_of ''RAW'' v)) @ close_tag 0 ''domain'')"
  by (auto simp: kvm_file_def followed_by_Writes kvm_domain_start_def)

lemma kvm_file_spells:
  assumes "safe_deployable conf v" "memory_fits conf v" "kvm_file ''kvm'' conf v = Writes s"
    "spells (raw_text ''KVM'' (tabs 1) (all_of ''RAW'' v)) raws"
  shows "spells s [kvm_domain conf v raws]"
proof -
  obtain c os ds where w: "libvirt_capacity conf v = Writes c" "kvm_os ''kvm'' conf v = Writes os"
      "kvm_disk_section conf v = Writes ds" and s: "s = open_tag 0 ''domain'' [(''type'', ''kvm''),
      (''xmlns:qemu'', ''http://libvirt.org/schemas/domain/qemu/1.0'')] @ (c @ os @ (open_tag 1 ''devices'' [] @
        (kvm_emulator ''kvm'' conf @ ds @ of_vectors (kvm_nic (get_default conf ''NIC'' ''FILTER'')) (all_of ''NIC'' v) @
         kvm_graphics v @ kvm_input v) @ close_tag 1 ''devices'') @ kvm_features conf v @
       raw_text ''KVM'' (tabs 1) (all_of ''RAW'' v)) @ close_tag 0 ''domain''"
    using assms(3) kvm_file_Writes by blast
  let ?df = "get_default conf ''NIC'' ''FILTER''"
  have t: "safe_template conf" using assms(1) by (simp add: safe_deployable_def)
  have "spells (kvm_emulator ''kvm'' conf) [text_node ''emulator'' (or_default (get_default_single conf ''EMULATOR'') ''/usr/bin/kvm'')]"
    by (simp add: kvm_emulator_def get_default_single_def) (intro spelling, simp_all add: safe_rules t literal_simps)
  moreover have "spells (of_vectors (kvm_nic ?df) (all_of ''NIC'' v)) (of_vectors (\<lambda>nic. [kvm_nic_node ?df nic]) (all_of ''NIC'' v))"
    using safe_all_of [OF assms(1), of "''NIC''"] by (intro of_vectors_spells kvm_nic_spells safe_default t) (auto simp del: safe_attr.simps)
  ultimately have "spells (kvm_emulator ''kvm'' conf @ ds @ of_vectors (kvm_nic ?df) (all_of ''NIC'' v) @ kvm_graphics v @ kvm_input v)
      (kvm_device_nodes conf v)"
    using spells_append [OF kvm_disk_section_spells [OF assms(1) w(3)]] unfolding kvm_device_nodes_def Let_def
    by (simp add: spells_append graphics_spells [OF assms(1)] input_spells [OF assms(1)] del: append.simps)
  then have d: "spells (open_tag 1 ''devices'' [] @ (kvm_emulator ''kvm'' conf @ ds @
      of_vectors (kvm_nic ?df) (all_of ''NIC'' v) @ kvm_graphics v @ kvm_input v) @ close_tag 1 ''devices'')
      [Node ''devices'' [] (kvm_device_nodes conf v)]"
    by (rule spells_node [rotated 2]) simp_all
  show ?thesis unfolding s kvm_domain_def
    by (rule spells_node [OF _ _ spells_append [OF capacity_spells [OF assms(1,2) w(1)]
        spells_append [OF kvm_os_spells [OF assms(1) w(2)] spells_append [OF d
        spells_append [OF features_spells assms(4)]]]]]) (simp_all add: literal_simps)
qed

text \<open>The tree is one that the reader can give back: an element has elements, or a text that is not empty.\<close>

lemma proper_text: "s \<noteq> [] \<Longrightarrow> proper (Node n as [Data s])"
  by simp

lemma proper_kids: "(\<And>k. k \<in> set ks \<Longrightarrow> proper k) \<Longrightarrow> proper (Node n as ks)"
  by simp

lemma int_string_not_Nil [simp]: "int_string n \<noteq> []"
  by (simp add: int_string_def num_string.simps)

lemma set_of_vectors: "x \<in> set (of_vectors f as) \<longleftrightarrow> (\<exists>m. Vector m \<in> set as \<and> x \<in> set (f m))"
  by (induction f as rule: of_vectors.induct) auto

lemma set_nodes_from: "x \<in> set (nodes_from f n ds) \<Longrightarrow> \<exists>i m. x = f i m"
  by (induction f n ds rule: nodes_from.induct) auto

lemma capacity_proper: "x \<in> set (capacity_nodes conf v) \<Longrightarrow> proper x"
  by (auto simp: capacity_nodes_def)

lemma kvm_os_proper: "proper (kvm_os_node conf v)"
  unfolding kvm_os_node_def Let_def by (rule proper_kids) (auto simp: boot_nodes_def Let_def split: if_splits)

lemma kvm_disk_proper: "proper (kvm_disk_node v dd dc n disk)"
  unfolding kvm_disk_node_def source_node_def by (rule proper_kids) (auto split: if_splits)

lemma context_proper: "x \<in> set (context_node v dd n c) \<Longrightarrow> proper x"
  by (auto simp: context_node_def Let_def intro!: proper_kids)

lemma kvm_nic_proper: "proper (kvm_nic_node df nic)"
  unfolding kvm_nic_node_def Let_def by (rule proper_kids) (auto simp: interface_nodes_def split: if_splits)

lemma kvm_devices_proper: "x \<in> set (kvm_device_nodes conf v) \<Longrightarrow> proper x"
  by (auto simp: kvm_device_nodes_def Let_def kvm_disk_nodes_from kvm_disk_proper or_default_def set_of_vectors kvm_nic_proper
      kvm_context_nodes_def kvm_graphics_nodes_def kvm_input_nodes_def context_proper
      split: list.splits attr.splits if_splits dest!: set_nodes_from)

lemma kvm_domain_proper: "\<forall>x \<in> set raws. proper x \<Longrightarrow> proper (kvm_domain conf v raws)"
  unfolding kvm_domain_def
  by (rule proper_kids) (auto simp: capacity_proper kvm_os_proper kvm_features_nodes_def Let_def
      kvm_devices_proper split: if_splits)

subsection \<open>When there is a file\<close>

definition targets_given :: "attr list \<Rightarrow> bool" where
  "targets_given ds \<longleftrightarrow> (\<forall>d \<in> set ds. case d of Single _ \<Rightarrow> True | Vector m \<Rightarrow> attr_value ''TARGET'' m \<noteq> [])"

definition context_is_vector :: "deployable \<Rightarrow> bool" where
  "context_is_vector v \<longleftrightarrow> (\<forall>s. all_of ''CONTEXT'' v \<noteq> [Single s])"

definition kvm_complete :: "tmpl \<Rightarrow> deployable \<Rightarrow> bool" where
  "kvm_complete conf v \<longleftrightarrow> single_value conf v ''MEMORY'' \<noteq> [] \<and> vector_default conf v ''OS'' ''ARCH'' \<noteq> [] \<and>
     vector_default conf v ''OS'' ''BOOT'' \<noteq> [] \<and> targets_given (all_of ''DISK'' v)"

lemma kvm_disks_written: "(\<exists>s. fst (kvm_disks v dd dc i k ds) = Writes s) \<longleftrightarrow> targets_given ds"
  by (induction v dd dc i k ds rule: kvm_disks.induct)
    (auto simp: targets_given_def followed_by_Writes split: prod.splits)

lemma kvm_disks_stop: "\<not> targets_given ds \<Longrightarrow> \<exists>e s. fst (kvm_disks v dd dc i k ds) = Stops e s"
  by (induction v dd dc i k ds rule: kvm_disks.induct)
    (fastforce simp: targets_given_def split: prod.splits)+

lemma context_written: "(\<exists>s. kvm_context v dd n = Writes s) \<longleftrightarrow> context_is_vector v"
  by (auto simp: kvm_context_def context_is_vector_def Let_def split: list.splits attr.splits)

lemma capacity_written: "(\<exists>s. libvirt_capacity conf v = Writes s) \<longleftrightarrow> single_value conf v ''MEMORY'' \<noteq> []"
  by (auto simp: libvirt_capacity_def Let_def)

lemma kvm_disk_section_written:
  "(\<exists>s. kvm_disk_section conf v = Writes s) \<longleftrightarrow> targets_given (all_of ''DISK'' v) \<and> context_is_vector v"
  using kvm_disks_written [of v "disk_driver conf" "disk_cache conf" 0 0 "all_of ''DISK'' v"]
    context_written [of v "disk_driver conf"]
  by (auto simp: kvm_disk_section_def Let_def followed_by_Writes disk_driver_def disk_cache_def split: prod.splits)

lemma kvm_written: "(\<exists>s. kvm_file ''kvm'' conf v = Writes s) \<longleftrightarrow> kvm_complete conf v \<and> context_is_vector v"
proof -
  have "(\<exists>s. kvm_os ''kvm'' conf v = Writes s) \<longleftrightarrow>
      vector_default conf v ''OS'' ''ARCH'' \<noteq> [] \<and> vector_default conf v ''OS'' ''BOOT'' \<noteq> []"
    by (auto simp: kvm_os_def Let_def)
  moreover have "(\<exists>s. kvm_file ''kvm'' conf v = Writes s) \<longleftrightarrow> (\<exists>s. libvirt_capacity conf v = Writes s) \<and>
      (\<exists>s. kvm_os ''kvm'' conf v = Writes s) \<and> (\<exists>s. kvm_disk_section conf v = Writes s)"
    unfolding kvm_file_Writes by blast
  ultimately show ?thesis by (simp add: capacity_written kvm_disk_section_written kvm_complete_def conj_assoc)
qed

text \<open>C37. The KVM driver writes a deployment file for a machine with a memory, an architecture, a boot device and a target
  for each disk, and what libvirt reads in it is the domain of the machine: the file parses to the tree \<open>kvm_domain\<close>.
  Three conditions are on the values.  None of them, in the template and in the defaults of the driver, holds a quote, an angle
  bracket or an ampersand, for these are written as they are and can add elements to the file.  The kilobytes of the memory,
  which is below two terabytes, are an \<open>int\<close> (\<open>memory_wraps\<close> shows what is written from there on).  And the raw attributes,
  which are copied as they are, spell some nodes: these are at the end of the domain.\<close>

theorem kvm_file_is_domain:
  assumes "can_open env f" "kvm_complete conf v" "context_is_vector v" "safe_deployable conf v" "memory_fits conf v"
    "scan (raw_text ''KVM'' (tabs 1) (all_of ''RAW'' v)) = Some (concat (map toks raws))" "\<forall>x \<in> set raws. proper x"
  shows "\<exists>s. libvirt_deployment_description env ''kvm'' conf v f u = Done (0, write_file f s u) \<and>
    parse_xml s = Some [kvm_domain conf v raws]"
proof -
  obtain s where s: "kvm_file ''kvm'' conf v = Writes s" using kvm_written assms(2,3) by blast
  have "parse_xml s = Some [kvm_domain conf v raws]"
    using kvm_file_spells [OF assms(4,5) s scan_spells [OF assms(6)]] kvm_domain_proper [OF assms(7)] by (intro spells_parse) simp_all
  then show ?thesis using assms(1) s
    by (intro exI [of _ s]) (simp add: libvirt_deployment_description_def written_def)
qed

subsection \<open>A VMware file\<close>

definition unread :: "string \<Rightarrow> bool" where
  "unread s \<longleftrightarrow> (\<forall>r. scan (s @ r) = None)"

lemma unread_after: "spells a xs \<Longrightarrow> unread b \<Longrightarrow> unread (a @ b)"
  by (simp add: spells_def unread_def)

lemma unread_before: "unread a \<Longrightarrow> unread (a @ b)"
  by (simp add: unread_def)

lemma unread_in: "tag_ok n \<Longrightarrow> atts_ok as \<Longrightarrow> unread s \<Longrightarrow> unread (open_tag k n as @ s)"
  using scan_start(1) [of n as] by (simp add: unread_def open_tag_def)

lemma unread_parse: "unread s \<Longrightarrow> parse_xml s = None"
  by (auto simp: unread_def parse_xml_def dest: spec [of _ "[]"])

lemma unquoted_unread: "unread (unquoted_source (CHR ''['' # p))"
proof -
  have "read_attr (''file=['' @ r) = None" for r
    by (simp add: read_attr.simps name_char_def qt_def)
  then have "read_attrs ('' file=['' @ r) = None" for r by simp
  then have "read_tag (''source file=['' @ r) = None" for r
    by (simp add: read_tag_def name_char_def)
  then have "scan (''<source file=['' @ r) = None" for r by simp
  then show ?thesis by (simp add: unread_def unquoted_source_def)
qed

definition unquoted :: "vector_map \<Rightarrow> bool" where
  "unquoted disk \<longleftrightarrow> to_upper (attr_value ''TYPE'' disk) \<in> {''BLOCK'', ''CDROM''}"

definition vmware_disk_node :: "string \<Rightarrow> string \<Rightarrow> deployable \<Rightarrow> nat \<Rightarrow> vector_map \<Rightarrow> xml" where
  "vmware_disk_node datastore dd v i disk = (let driver = or_default (attr_value ''DRIVER'' disk) dd in
     Node ''disk'' [(''type'', ''file''), (''device'', ''disk'')]
       ([leaf ''source'' [(''file'', datastore_dir datastore v @ ''/images/disk.'' @ num_string 10 i @ ''/disk.vmdk'')]] @
        [leaf ''target'' ((''dev'', attr_value ''TARGET'' disk) #
          unless_empty (attr_value ''BUS'' disk) [(''bus'', attr_value ''BUS'' disk)])] @
        unless_empty driver [leaf ''driver'' [(''name'', driver)]] @
        (if read_only disk then [leaf ''readonly'' []] else [])))"

fun vmware_disk_nodes :: "string \<Rightarrow> string \<Rightarrow> deployable \<Rightarrow> nat \<Rightarrow> attr list \<Rightarrow> xml list" where
  "vmware_disk_nodes datastore dd v i [] = []"
| "vmware_disk_nodes datastore dd v i (Single _ # ds) = vmware_disk_nodes datastore dd v (Suc i) ds"
| "vmware_disk_nodes datastore dd v i (Vector disk # ds) =
     vmware_disk_node datastore dd v i disk # vmware_disk_nodes datastore dd v (Suc i) ds"

definition vmware_context_nodes :: "string \<Rightarrow> deployable \<Rightarrow> nat \<Rightarrow> xml list" where
  "vmware_context_nodes datastore v num = (case all_of ''CONTEXT'' v of [Vector c] \<Rightarrow>
     unless_empty (attr_value ''TARGET'' c) [Node ''disk'' [(''type'', ''file''), (''device'', ''cdrom'')]
       ([leaf ''source'' [(''file'', datastore_dir datastore v @ ''/disk.'' @ num_string 10 num @ ''.iso'')]] @
        [leaf ''target'' [(''dev'', attr_value ''TARGET'' c)]] @ [leaf ''readonly'' []])] | _ \<Rightarrow> [])"

definition vmware_nic_node :: "deployable \<Rightarrow> vector_map \<Rightarrow> xml" where
  "vmware_nic_node v nic = Node ''interface'' [(''type'', ''bridge'')] ([leaf ''source'' [(''bridge'',
     if dv_vnm_mad v = ''vmware'' then ''one-pg-'' @ attr_value ''NETWORK_ID'' nic else attr_value ''BRIDGE'' nic)]] @
     interface_nodes nic)"

text \<open>The datastore of the defaults, which is not looked up for a machine without disks.\<close>

definition datastore_of :: "tmpl \<Rightarrow> deployable \<Rightarrow> string" where
  "datastore_of conf v = (if all_of ''DISK'' v = [] then [] else get_default_single conf ''DATASTORE'')"

definition vmware_domain :: "tmpl \<Rightarrow> deployable \<Rightarrow> xml list \<Rightarrow> xml" where
  "vmware_domain conf v raws = (let ds = all_of ''DISK'' v; datastore = datastore_of conf v in
     Node ''domain'' [(''type'', ''vmware'')] (capacity_nodes conf v @
       [Node ''os'' [] [Node ''type'' [(''arch'', vector_default conf v ''OS'' ''ARCH'')] [Data ''hvm'']]] @
       [Node ''devices'' [] (vmware_disk_nodes datastore (get_default conf ''DISK'' ''DRIVER'') v 0 ds @
         vmware_context_nodes datastore v (length ds) @
         of_vectors (\<lambda>nic. [vmware_nic_node v nic]) (all_of ''NIC'' v))] @ raws))"

lemma datastore_dir_safe: "safe datastore \<Longrightarrow> safe (datastore_dir datastore v)"
  by (simp add: datastore_dir_def safe_rules literal_simps)

lemma vmware_disk_text:
  assumes "\<not> unquoted disk"
  shows "vmware_disk datastore dd v i disk = open_tag 2 ''disk'' [(''type'', ''file''), (''device'', ''disk'')] @
    (empty_tag 3 ''source'' [(''file'', datastore_dir datastore v @ ''/images/disk.'' @ num_string 10 i @ ''/disk.vmdk'')] @
     empty_tag 3 ''target'' ((''dev'', attr_value ''TARGET'' disk) #
       unless_empty (attr_value ''BUS'' disk) [(''bus'', attr_value ''BUS'' disk)]) @
     unless_empty (or_default (attr_value ''DRIVER'' disk) dd)
       (empty_tag 3 ''driver'' [(''name'', or_default (attr_value ''DRIVER'' disk) dd)]) @
     (if read_only disk then empty_tag 3 ''readonly'' [] else [])) @ close_tag 2 ''disk''"
  using assms by (simp add: vmware_disk_def vmware_disk_source_def unquoted_def Let_def)

lemma vmware_disk_spells:
  assumes "safe_attr (Vector disk)" "safe datastore" "safe dd" "\<not> unquoted disk"
  shows "spells (vmware_disk datastore dd v i disk) [vmware_disk_node datastore dd v i disk]"
  unfolding vmware_disk_text [OF assms(4)] vmware_disk_node_def Let_def
  by (intro spelling) (simp_all add: safe_attr_value [OF assms(1)] safe_or_default safe_num assms(3)
      datastore_dir_safe [OF assms(2)] literal_simps)

lemma vmware_disk_unread:
  assumes "unquoted disk"
  shows "unread (vmware_disk datastore dd v i disk)"
proof -
  let ?p = "datastore @ ''] '' @ int_string (dv_oid v) @ ''/images/disk.'' @ num_string 10 i"
  have "vmware_disk_source datastore v i disk \<in>
      {open_tag 2 ''disk'' [(''type'', ''block''), (''device'', ''disk'')] @ unquoted_source (CHR ''['' # ?p),
       open_tag 2 ''disk'' [(''type'', ''file''), (''device'', ''cdrom'')] @ unquoted_source (CHR ''['' # ?p @ ''.iso'')}"
    using assms by (auto simp: vmware_disk_source_def unquoted_def datastore_dir_def Let_def)
  then have "unread (vmware_disk_source datastore v i disk)"
    by (elim insertE emptyE ssubst) (intro unread_in unquoted_unread, simp_all add: literal_simps)+
  then show ?thesis unfolding vmware_disk_def Let_def by (rule unread_before)
qed

definition any_unquoted :: "attr list \<Rightarrow> bool" where
  "any_unquoted ds \<longleftrightarrow> (\<exists>d \<in> set ds. case d of Single _ \<Rightarrow> False | Vector m \<Rightarrow> unquoted m)"

lemma vmware_disks_read:
  assumes "safe datastore" "safe dd"
  shows "\<forall>a \<in> set ds. safe_attr a \<Longrightarrow> vmware_disks datastore dd v i ds = Writes s \<Longrightarrow>
    (if any_unquoted ds then unread s else spells s (vmware_disk_nodes datastore dd v i ds))"
proof (induction ds arbitrary: i s)
  case (Cons d ds)
  show ?case
  proof (cases d)
    case (Single a)
    then show ?thesis using Cons.IH [of "Suc i" s] Cons.prems by (auto simp: any_unquoted_def)
  next
    case (Vector disk)
    obtain x where x: "vmware_disks datastore dd v (Suc i) ds = Writes x" "s = vmware_disk datastore dd v i disk @ x"
      using Cons.prems(2) Vector by (auto simp: followed_by_Writes split: if_splits)
    have r: "if any_unquoted ds then unread x else spells x (vmware_disk_nodes datastore dd v (Suc i) ds)"
      using Cons.prems(1) by (intro Cons.IH x(1)) simp
    show ?thesis
    proof (cases "unquoted disk")
      case True
      then show ?thesis using vmware_disk_unread [of disk datastore dd v i] x(2) Vector
        by (simp add: any_unquoted_def unread_before)
    next
      case False
      then have "spells (vmware_disk datastore dd v i disk) [vmware_disk_node datastore dd v i disk]"
        using Cons.prems(1) Vector by (intro vmware_disk_spells assms) simp_all
      then show ?thesis using r x(2) Vector False spells_append [of _ "[_]" x] unread_after
        by (auto simp: any_unquoted_def split: if_splits)
    qed
  qed
qed (simp add: any_unquoted_def)

lemma vmware_context_spells:
  assumes "safe_deployable conf v" "safe datastore" "vmware_context datastore v n = Writes s"
  shows "spells s (vmware_context_nodes datastore v n)"
proof (cases "\<exists>c. all_of ''CONTEXT'' v = [Vector c]")
  case True
  then obtain c where c: "all_of ''CONTEXT'' v = [Vector c]" by blast
  let ?t = "attr_value ''TARGET'' c"
  have safe_c: "safe (attr_value k c)" for k
    using safe_all_of [OF assms(1), of "''CONTEXT''"] c by (intro safe_attr_value) simp
  have "s = unless_empty ?t (open_tag 2 ''disk'' [(''type'', ''file''), (''device'', ''cdrom'')] @
      (empty_tag 3 ''source'' [(''file'', datastore_dir datastore v @ ''/disk.'' @ num_string 10 n @ ''.iso'')] @
       empty_tag 3 ''target'' [(''dev'', ?t)] @ empty_tag 3 ''readonly'' []) @ close_tag 2 ''disk'')"
    using assms(3) c by (auto simp: vmware_context_def Let_def)
  moreover have "vmware_context_nodes datastore v n = unless_empty ?t [Node ''disk'' [(''type'', ''file''), (''device'', ''cdrom'')]
       ([leaf ''source'' [(''file'', datastore_dir datastore v @ ''/disk.'' @ num_string 10 n @ ''.iso'')]] @
        [leaf ''target'' [(''dev'', ?t)]] @ [leaf ''readonly'' []])]"
    using c by (simp add: vmware_context_nodes_def)
  ultimately show ?thesis
    by (elim ssubst, intro spelling) (simp_all add: safe_c safe_num datastore_dir_safe [OF assms(2)] literal_simps)
next
  case False
  then have "vmware_context datastore v n \<in> {Faults, Writes []}" "vmware_context_nodes datastore v n = []"
    by (auto simp: vmware_context_def vmware_context_nodes_def split: list.splits attr.splits)
  with assms(3) show ?thesis by auto
qed

lemma vmware_nic_spells:
  assumes "safe_attr (Vector nic)"
  shows "spells (vmware_nic v nic) [vmware_nic_node v nic]"
  using spells_node [of "''interface''" "[(''type'', ''bridge'')]", OF _ _
      spells_append [OF spells_empty_tag interface_spells [OF assms]], of "''source''" "[(''bridge'',
     if dv_vnm_mad v = ''vmware'' then ''one-pg-'' @ attr_value ''NETWORK_ID'' nic else attr_value ''BRIDGE'' nic)]" 2 3 2]
  by (simp add: vmware_nic_def vmware_nic_node_def Let_def literal_simps safe_attr_value [OF assms])

definition vmware_complete :: "tmpl \<Rightarrow> deployable \<Rightarrow> bool" where
  "vmware_complete conf v \<longleftrightarrow> single_value conf v ''MEMORY'' \<noteq> [] \<and> vector_default conf v ''OS'' ''ARCH'' \<noteq> [] \<and>
     targets_given (all_of ''DISK'' v)"

lemma vmware_file_Writes:
  "vmware_file ''vmware'' conf v = Writes s \<longleftrightarrow> (\<exists>c os ds. libvirt_capacity conf v = Writes c \<and> vmware_os conf v = Writes os \<and>
    vmware_disk_section conf v = Writes ds \<and> s = open_tag 0 ''domain'' [(''type'', ''vmware'')] @ (c @ os @
      (open_tag 1 ''devices'' [] @ (ds @ of_vectors (vmware_nic v) (all_of ''NIC'' v)) @ close_tag 1 ''devices'') @
       raw_text ''VMWARE'' (tabs 1) (all_of ''RAW'' v)) @ close_tag 0 ''domain'')"
  by (auto simp: vmware_file_def followed_by_Writes)

lemma vmware_disks_written: "(\<exists>s. vmware_disks datastore dd v i ds = Writes s) \<longleftrightarrow> targets_given ds"
  by (induction datastore dd v i ds rule: vmware_disks.induct) (auto simp: targets_given_def followed_by_Writes)

lemma vmware_context_written: "(\<exists>s. vmware_context datastore v n = Writes s) \<longleftrightarrow> context_is_vector v"
  by (auto simp: vmware_context_def context_is_vector_def Let_def split: list.splits attr.splits)

lemma vmware_written: "(\<exists>s. vmware_file ''vmware'' conf v = Writes s) \<longleftrightarrow> vmware_complete conf v \<and> context_is_vector v"
proof -
  have "(\<exists>s. vmware_os conf v = Writes s) \<longleftrightarrow> vector_default conf v ''OS'' ''ARCH'' \<noteq> []"
    by (auto simp: vmware_os_def Let_def)
  moreover have "(\<exists>s. vmware_disk_section conf v = Writes s) \<longleftrightarrow> targets_given (all_of ''DISK'' v) \<and> context_is_vector v"
    unfolding vmware_disk_section_def Let_def followed_by_Writes
    using vmware_disks_written vmware_context_written by metis
  moreover have "(\<exists>s. vmware_file ''vmware'' conf v = Writes s) \<longleftrightarrow> (\<exists>s. libvirt_capacity conf v = Writes s) \<and>
      (\<exists>s. vmware_os conf v = Writes s) \<and> (\<exists>s. vmware_disk_section conf v = Writes s)"
    unfolding vmware_file_Writes by blast
  ultimately show ?thesis by (simp add: capacity_written vmware_complete_def conj_assoc)
qed

lemma vmware_file_read:
  assumes "safe_deployable conf v" "memory_fits conf v" "vmware_file ''vmware'' conf v = Writes s"
    "spells (raw_text ''VMWARE'' (tabs 1) (all_of ''RAW'' v)) raws"
  shows "if any_unquoted (all_of ''DISK'' v) then unread s else spells s [vmware_domain conf v raws]"
proof -
  let ?ds = "all_of ''DISK'' v" and ?dir = "datastore_of conf v" and ?dd = "get_default conf ''DISK'' ''DRIVER''"
  obtain c os x y where w: "libvirt_capacity conf v = Writes c" "vmware_os conf v = Writes os"
    "vmware_disks ?dir ?dd v 0 ?ds = Writes x" "vmware_context ?dir v (length ?ds) = Writes y"
    and s: "s = open_tag 0 ''domain'' [(''type'', ''vmware'')] @ (c @ os @ (open_tag 1 ''devices'' [] @
       (x @ y @ of_vectors (vmware_nic v) (all_of ''NIC'' v)) @ close_tag 1 ''devices'') @
       raw_text ''VMWARE'' (tabs 1) (all_of ''RAW'' v)) @ close_tag 0 ''domain''"
    using assms(3) by (auto simp: vmware_file_Writes vmware_disk_section_def Let_def followed_by_Writes datastore_of_def)
  have t: "safe ?dir" "safe ?dd" using assms(1)
    by (simp_all add: safe_deployable_def datastore_of_def get_default_single_def safe_rules)
  have os: "spells os [Node ''os'' [] [Node ''type'' [(''arch'', vector_default conf v ''OS'' ''ARCH'')] [Data ''hvm'']]]"
    using w(2) by (auto simp: vmware_os_def Let_def safe_rules assms(1) literal_simps split: if_splits intro!: spells_node spells_element)
  have d: "if any_unquoted ?ds then unread x else spells x (vmware_disk_nodes ?dir ?dd v 0 ?ds)"
    using vmware_disks_read [OF t _ w(3)] safe_all_of [OF assms(1), of "''DISK''"] by simp
  show ?thesis
  proof (cases "any_unquoted ?ds")
    case True
    then have "unread (open_tag 1 ''devices'' [] @ x @ z)" for z using d unread_in [of "''devices''" "[]" "x @ z"] unread_before by simp
    then have "unread (c @ os @ open_tag 1 ''devices'' [] @ x @ z)" for z
      using unread_after capacity_spells [OF assms(1,2) w(1)] os by metis
    then have "unread s" unfolding s using unread_in [of "''domain''" "[(''type'', ''vmware'')]"] by (simp add: literal_simps)
    then show ?thesis using True by simp
  next
    case False
    have n: "spells (of_vectors (vmware_nic v) (all_of ''NIC'' v)) (of_vectors (\<lambda>nic. [vmware_nic_node v nic]) (all_of ''NIC'' v))"
      using safe_all_of [OF assms(1), of "''NIC''"] by (intro of_vectors_spells vmware_nic_spells) (auto simp del: safe_attr.simps)
    have "spells x (vmware_disk_nodes ?dir ?dd v 0 ?ds)" using d False by simp
    then have "spells (x @ y @ of_vectors (vmware_nic v) (all_of ''NIC'' v)) (vmware_disk_nodes ?dir ?dd v 0 ?ds @
        vmware_context_nodes ?dir v (length ?ds) @ of_vectors (\<lambda>nic. [vmware_nic_node v nic]) (all_of ''NIC'' v))"
      by (intro spells_append n vmware_context_spells [OF assms(1) t(1) w(4)])
    then have "spells (open_tag 1 ''devices'' [] @ (x @ y @ of_vectors (vmware_nic v) (all_of ''NIC'' v)) @ close_tag 1 ''devices'')
        [Node ''devices'' [] (vmware_disk_nodes ?dir ?dd v 0 ?ds @ vmware_context_nodes ?dir v (length ?ds) @
          of_vectors (\<lambda>nic. [vmware_nic_node v nic]) (all_of ''NIC'' v))]"
      by (rule spells_node [rotated 2]) simp_all
    note d = this
    have "spells s [vmware_domain conf v raws]" unfolding s vmware_domain_def Let_def
      by (rule spells_node [OF _ _ spells_append [OF capacity_spells [OF assms(1,2) w(1)]
          spells_append [OF os spells_append [OF d assms(4)]]]]) (simp_all add: literal_simps)
    then show ?thesis using False by simp
  qed
qed

lemma vmware_disk_nodes_proper: "x \<in> set (vmware_disk_nodes datastore dd v i ds) \<Longrightarrow> proper x"
  by (induction datastore dd v i ds rule: vmware_disk_nodes.induct)
    (auto simp: vmware_disk_node_def Let_def intro!: proper_kids split: if_splits)

lemma vmware_nic_proper: "proper (vmware_nic_node v nic)"
  unfolding vmware_nic_node_def by (rule proper_kids) (auto simp: interface_nodes_def)

lemma vmware_context_proper: "x \<in> set (vmware_context_nodes datastore v n) \<Longrightarrow> proper x"
  by (auto simp: vmware_context_nodes_def split: list.splits attr.splits)

lemma vmware_domain_proper:
  assumes "\<forall>x \<in> set raws. proper x"
  shows "proper (vmware_domain conf v raws)"
proof -
  have "proper (Node ''devices'' [] (vmware_disk_nodes d dd v 0 ds @ vmware_context_nodes d v n @
      of_vectors (\<lambda>nic. [vmware_nic_node v nic]) nics))" for d dd ds n nics
    by (rule proper_kids) (auto simp: set_of_vectors intro: vmware_disk_nodes_proper vmware_context_proper vmware_nic_proper)
  moreover have "proper (Node ''os'' [] [Node ''type'' as [Data ''hvm'']])" for as by simp
  ultimately show ?thesis unfolding vmware_domain_def Let_def
    by (intro proper_kids) (auto simp del: proper.simps(2) intro: capacity_proper simp: assms)
qed

text \<open>C38. The VMware driver writes a file for a machine with a memory, an architecture and a target for each disk.  If the
  values hold no mark (no quote, angle bracket or ampersand), the memory is below two terabytes and the raw attributes spell
  some nodes, then the file parses to the tree \<open>vmware_domain\<close> exactly if no disk is a block device or a CD: the source of
  such a disk is written without its first quote, and no reader of XML takes the file.\<close>

theorem vmware_file_is_read:
  assumes "can_open env f" "vmware_complete conf v" "context_is_vector v" "safe_deployable conf v" "memory_fits conf v"
    "scan (raw_text ''VMWARE'' (tabs 1) (all_of ''RAW'' v)) = Some (concat (map toks raws))" "\<forall>x \<in> set raws. proper x"
  shows "\<exists>s. libvirt_deployment_description env ''vmware'' conf v f u = Done (0, write_file f s u) \<and>
    parse_xml s = (if any_unquoted (all_of ''DISK'' v) then None else Some [vmware_domain conf v raws])"
proof -
  obtain s where s: "vmware_file ''vmware'' conf v = Writes s" using vmware_written assms(2,3) by blast
  have "parse_xml s = (if any_unquoted (all_of ''DISK'' v) then None else Some [vmware_domain conf v raws])"
    using vmware_file_read [OF assms(4,5) s scan_spells [OF assms(6)]] vmware_domain_proper [OF assms(7)]
    by (simp add: unread_parse spells_parse split: if_splits)
  then show ?thesis using assms(1) s
    by (intro exI [of _ s]) (simp add: libvirt_deployment_description_def written_def)
qed

subsection \<open>When a driver gives up\<close>

definition vnc_ok :: "deployable \<Rightarrow> bool" where
  "vnc_ok v \<longleftrightarrow> (let g = first_of ''GRAPHICS'' v; port = attr_value ''PORT'' g in
     attr_value ''TYPE'' g \<in> {''vnc'', ''VNC''} \<and> port \<noteq> [] \<longrightarrow>
       \<not> failbit (snd (extract_int 0 (istr port))) \<and> 5900 \<le> fst (extract_int 0 (istr port)))"

definition xen_complete :: "tmpl \<Rightarrow> deployable \<Rightarrow> bool" where
  "xen_complete conf v \<longleftrightarrow> single_value conf v ''MEMORY'' \<noteq> [] \<and>
     (vector_default conf v ''OS'' ''KERNEL'' \<noteq> [] \<or> vector_default conf v ''OS'' ''BOOTLOADER'' \<noteq> []) \<and>
     targets_given (all_of ''DISK'' v) \<and> vnc_ok v"

lemma xen_disks_written: "(\<exists>s. xen_disks v dd i ds = Writes s) \<longleftrightarrow> targets_given ds"
  by (induction v dd i ds rule: xen_disks.induct) (auto simp: targets_given_def followed_by_Writes)

lemma xen_context_written: "(\<exists>s. xen_context v dd n = Writes s) \<longleftrightarrow> context_is_vector v"
  by (auto simp: xen_context_def context_is_vector_def Let_def split: list.splits attr.splits)

lemma xen_graphics_written: "(\<exists>s. xen_graphics v = Writes s) \<longleftrightarrow> vnc_ok v"
  by (auto simp: xen_graphics_def vnc_ok_def Let_def split: prod.splits)

lemma xen_written: "(\<exists>s. xen_file credit conf v = Writes s) \<longleftrightarrow> xen_complete conf v \<and> context_is_vector v"
proof -
  have "(\<exists>s. xen_capacity credit conf v = Writes s) \<longleftrightarrow> single_value conf v ''MEMORY'' \<noteq> []"
    by (auto simp: xen_capacity_def Let_def)
  moreover have "(\<exists>s. xen_boot_method conf v = Writes s) \<longleftrightarrow>
      vector_default conf v ''OS'' ''KERNEL'' \<noteq> [] \<or> vector_default conf v ''OS'' ''BOOTLOADER'' \<noteq> []"
    by (auto simp: xen_boot_method_def Let_def)
  moreover have "(\<exists>s. xen_disk_section conf v = Writes s) \<longleftrightarrow> targets_given (all_of ''DISK'' v) \<and> context_is_vector v"
  proof -
    let ?dd = "or_default (get_default conf ''DISK'' ''DRIVER'') ''tap:aio:''"
    have "(\<exists>s. xen_disk_section conf v = Writes s) \<longleftrightarrow> (\<exists>s. xen_disks v ?dd 0 (all_of ''DISK'' v) = Writes s) \<and>
        (\<exists>s. xen_context v ?dd (length (all_of ''DISK'' v)) = Writes s)"
      by (auto simp: xen_disk_section_def Let_def followed_by_Writes)
    then show ?thesis by (simp add: xen_disks_written xen_context_written)
  qed
  moreover have "(\<exists>s. xen_file credit conf v = Writes s) \<longleftrightarrow> (\<exists>s. xen_capacity credit conf v = Writes s) \<and>
      (\<exists>s. xen_boot_method conf v = Writes s) \<and> (\<exists>s. xen_disk_section conf v = Writes s) \<and> (\<exists>s. xen_graphics v = Writes s)"
    by (auto simp: xen_file_def followed_by_Writes)
  ultimately show ?thesis by (auto simp: xen_complete_def xen_graphics_written)
qed

lemma written_success: "(\<exists>u'. written env f p u = Done (0, u')) \<longleftrightarrow> can_open env f \<and> (\<exists>s. p = Writes s)"
  by (auto simp: written_def split: part.splits)

text \<open>A driver makes a deployment file exactly if it can open the file and finds what its hypervisor needs, in the template or
  in its defaults: always a memory, a target for each disk and a context that is a vector; for KVM an architecture and a boot
  device, for VMware an architecture, for Xen a kernel or a boot loader and a VNC port of at least 5900.
  The driver that takes the template as XML needs nothing.\<close>

theorem deployment_file_iff:
  "((\<exists>u'. libvirt_deployment_description env ''kvm'' conf v f u = Done (0, u')) \<longleftrightarrow>
     can_open env f \<and> kvm_complete conf v \<and> context_is_vector v) \<and>
   ((\<exists>u'. libvirt_deployment_description env ''vmware'' conf v f u = Done (0, u')) \<longleftrightarrow>
     can_open env f \<and> vmware_complete conf v \<and> context_is_vector v) \<and>
   ((\<exists>u'. xen_deployment_description env credit conf v f u = Done (0, u')) \<longleftrightarrow>
     can_open env f \<and> xen_complete conf v \<and> context_is_vector v) \<and>
   ((\<exists>u'. xml_deployment_description env v f u = Done (0, u')) \<longleftrightarrow> can_open env f)"
  by (simp add: xml_deployment_description_def libvirt_deployment_description_def xen_deployment_description_def written_success kvm_written vmware_written xen_written)

end
