(* ===== verification/Requests.thy ===== *)
theory Requests
  imports Dispatch
begin

text \<open>
  The requests on virtual machines (src/rm/RequestManagerVirtualMachine.cc): what the front end does with
  a decoded XML-RPC call before and after it hands it to the dispatch manager.

  \<open>uid\<close> is the user of the request and \<open>allowed\<close> the answer of \<open>UserPool::authorize\<close>.  Identifiers the pool
  draws from the database (\<open>bkoid\<close>, \<open>dkoid\<close>) are arguments.  A C++ exception leaves \<open>request_execute\<close> at
  once, with the VM locked: the XML-RPC library answers with a fault, the response \<open>Thrown\<close>.
\<close>

datatype error_code = NO_EXISTS | AUTHORIZATION | ACTION | INTERNAL

datatype response = Success int | Failure error_code | No_response | Thrown

definition vm_authorization :: "int \<Rightarrow> bool \<Rightarrow> int \<Rightarrow> one \<Rightarrow> error_code option res" where
  "vm_authorization uid allowed oid w =
     (if uid = 0 then Done None else case vms w oid of
        None \<Rightarrow> Done (Some NO_EXISTS)
      | Some v \<Rightarrow> if oid \<in> vm_locks w then Blocked
          else Done (if allowed then None else Some AUTHORIZATION))"

definition authorized :: "int \<Rightarrow> bool \<Rightarrow> int \<Rightarrow> (one \<Rightarrow> (response \<times> one) res) \<Rightarrow> one \<Rightarrow> (response \<times> one) res" where
  "authorized uid allowed oid act w = bind_res (vm_authorization uid allowed oid w)
     (\<lambda>e. case e of Some c \<Rightarrow> Done (Failure c, w) | None \<Rightarrow> act w)"

text \<open>\<open>get_vm\<close>, the body and what it answers.\<close>

definition get_vm :: "int \<Rightarrow> (locked \<Rightarrow> (response \<times> locked) res) \<Rightarrow> one \<Rightarrow> (response \<times> one) res" where
  "get_vm vid act w = (case vms w vid of
     None \<Rightarrow> Done (Failure NO_EXISTS, w)
   | Some v \<Rightarrow> if vid \<in> vm_locks w then Blocked
       else bind_res (act (v, w\<lparr>vm_locks := insert vid (vm_locks w)\<rparr>))
              (\<lambda>(a, v', w'). Done (a, w'\<lparr>vms := (vms w')(vid \<mapsto> v')\<rparr>)))"

definition answer :: "response \<Rightarrow> locked \<Rightarrow> (response \<times> locked) res" where
  "answer a s = bind_res (unlock s) (\<lambda>s. Done (a, s))"

subsection \<open>Actions by name\<close>

text \<open>The action names of \<open>one.vm.action\<close>.  For any other name the variable \<open>rc\<close> is never assigned:
  \<open>junk\<close>.\<close>

definition vm_action :: "int \<Rightarrow> string \<Rightarrow> int \<Rightarrow> one \<Rightarrow> (int \<times> one) res" where
  "vm_action junk action vid w =
     (if action = ''shutdown'' then dm_shutdown vid w
      else if action = ''hold'' then dm_hold vid w
      else if action = ''release'' then dm_release vid w
      else if action = ''stop'' then dm_stop vid w
      else if action = ''cancel'' then dm_cancel vid w
      else if action = ''off'' then dm_off vid w
      else if action = ''on'' then dm_on vid w
      else if action = ''suspend'' then dm_suspend vid w
      else if action = ''resume'' then dm_resume vid w
      else if action = ''restart'' then dm_restart vid w
      else if action = ''finalize'' then dm_finalize vid w
      else if action = ''resubmit'' then dm_resubmit vid w
      else if action = ''reboot'' then dm_reboot vid w
      else Done (junk, w))"

definition action_response :: "int \<Rightarrow> int \<Rightarrow> response" where
  "action_response rc vid =
     (if rc = 0 then Success vid else if rc = -1 then Failure NO_EXISTS
      else if rc = -2 then Failure ACTION else if rc = -3 then Failure ACTION else Failure INTERNAL)"

definition VirtualMachineAction :: "int \<Rightarrow> bool \<Rightarrow> int \<Rightarrow> string \<Rightarrow> int \<Rightarrow> one \<Rightarrow> (response \<times> one) res" where
  "VirtualMachineAction uid allowed junk action vid = authorized uid allowed vid (\<lambda>w.
     bind_res (vm_action junk action vid w) (\<lambda>(rc, w'). Done (action_response rc vid, w')))"

subsection \<open>Deployment and migration\<close>

text \<open>\<open>RequestManagerVirtualMachine::add_history\<close>: the record is in memory even when its row could not
  be written.\<close>

definition rm_add_history :: "string \<Rightarrow> int \<Rightarrow> host \<Rightarrow> locked \<Rightarrow> (int \<times> locked) res" where
  "rm_add_history vmdir h host = (\<lambda>(v, w).
     let v' = add_history h (hostname_of host) vmdir (vmm_mad_of host) (vnm_mad_of host) (tm_mad_of host) v;
         w' = write_history (vm_oid v') (hist v') w
     in if \<not> db_ok w then Done (-1, v', w') else Done (0, v', write_row v' w'))"

text \<open>\<open>dm\<close> unlocks the VM, and the request unlocks it again.\<close>

definition dispatch_to ::
  "string \<Rightarrow> int \<Rightarrow> host \<Rightarrow> (locked \<Rightarrow> (int \<times> locked) res) \<Rightarrow> int \<Rightarrow> locked \<Rightarrow> (response \<times> locked) res" where
  "dispatch_to vmdir h host dm_op vid s = bind_res (rm_add_history vmdir h host s) (\<lambda>(rc, s).
     if rc \<noteq> 0 then answer (Failure INTERNAL) s
     else bind_res (dm_op s) (\<lambda>(_, s). answer (Success vid) s))"

definition VirtualMachineDeploy :: "int \<Rightarrow> bool \<Rightarrow> string \<Rightarrow> int \<Rightarrow> int \<Rightarrow> one \<Rightarrow> (response \<times> one) res" where
  "VirtualMachineDeploy uid allowed vmdir vid h w = (case hosts w h of
     None \<Rightarrow> Done (Failure NO_EXISTS, w)
   | Some host \<Rightarrow> authorized uid allowed vid (get_vm vid (\<lambda>s.
       if state (fst s) \<noteq> PENDING then answer (Failure ACTION) s
       else dispatch_to vmdir h host dm_deploy vid s)) w)"

definition VirtualMachineMigrate :: "int \<Rightarrow> bool \<Rightarrow> string \<Rightarrow> int \<Rightarrow> int \<Rightarrow> bool \<Rightarrow> one \<Rightarrow> (response \<times> one) res" where
  "VirtualMachineMigrate uid allowed vmdir vid h live w = (case hosts w h of
     None \<Rightarrow> Done (Failure NO_EXISTS, w)
   | Some host \<Rightarrow> authorized uid allowed vid (get_vm vid (\<lambda>s.
       if state (fst s) \<noteq> ACTIVE \<or> lcm_state (fst s) \<noteq> RUNNING \<or>
          (case previous_hist (fst s) of None \<Rightarrow> False | Some p \<Rightarrow> reason p = R_NONE)
       then answer (Failure ACTION) s
       else dispatch_to vmdir h host (if live then dm_live_migrate else dm_migrate) vid s)) w)"

subsection \<open>Backup and recovery\<close>

text \<open>None of these checks the user's authorization.  Each of the three requests locks a mutex of its own, \<open>bkmutex\<close>, a local
  variable that is never initialised and that no other thread can see: to lock it is undefined, and it excludes nobody.  The
  model leaves it out.\<close>

definition add_backup :: "int \<Rightarrow> int \<Rightarrow> string \<Rightarrow> vm \<Rightarrow> vm" where
  "add_backup oid vid dir v = v\<lparr>backup := Some \<lparr>bk_oid = oid, bk_vid = vid,
     bk_dir = dir @ ''/'' @ int_string vid @ ''/'' @ int_string vid @ ''_'' @ int_string oid,
     bk_state = BK_INIT, bk_stime = 0, bk_etime = 0\<rparr>\<rparr>"

definition add_backupdisk :: "int \<Rightarrow> int \<Rightarrow> string \<Rightarrow> string \<Rightarrow> vm \<Rightarrow> vm" where
  "add_backupdisk oid vid name dir v =
     v\<lparr>backupdisk := Some \<lparr>dk_oid = oid, dk_vid = vid, dk_name = name, dk_dir = dir, dk_state = DK_INIT\<rparr>\<rparr>"

definition insert_backup :: "locked \<Rightarrow> locked res" where
  "insert_backup = (\<lambda>(v, w). case backup v of
     None \<Rightarrow> Done (v, w)
   | Some b \<Rightarrow> Done (v, if bk_rows w (bk_oid b) = None then write_backup (Some b) w else w))"

definition insert_backupdisk :: "locked \<Rightarrow> locked res" where
  "insert_backupdisk = (\<lambda>(v, w). case backupdisk v of
     None \<Rightarrow> Done (v, w)
   | Some b \<Rightarrow> Done (v, if dk_rows w (dk_oid b) = None then write_backupdisk (Some b) w else w))"

definition set_bkstime :: "locked \<Rightarrow> locked res" where
  "set_bkstime = (\<lambda>(v, w). case backup v of
     None \<Rightarrow> Segv | Some b \<Rightarrow> Done (v\<lparr>backup := Some (b\<lparr>bk_stime := now w\<rparr>)\<rparr>, w))"

definition VirtualMachineBackup :: "int \<Rightarrow> string \<Rightarrow> int \<Rightarrow> one \<Rightarrow> (response \<times> one) res" where
  "VirtualMachineBackup bkoid bkdir vid = get_vm vid (\<lambda>s.
     if \<not> is_running s then answer (Failure ACTION) s
     else bind_res (steps [(\<lambda>(v, w). Done (add_backup bkoid vid bkdir (v\<lparr>bakbid := bkoid\<rparr>), w)),
         set_bkstate BK_START_BACKUP, set_bkstime, insert_backup] s)
       (\<lambda>s. bind_res (dm_backup s) (\<lambda>(_, s). answer (Success bkoid) s)))"

text \<open>The identifier is checked against the table first; with an unknown one the request ends without
  an answer of its own.\<close>

definition VirtualMachineRecover :: "int \<Rightarrow> int \<Rightarrow> one \<Rightarrow> (response \<times> one) res" where
  "VirtualMachineRecover vid bid w = (case bk_rows w bid of
     None \<Rightarrow> Done (No_response, w)
   | Some b \<Rightarrow> get_vm vid (\<lambda>s.
       bind_res (steps [(\<lambda>(v, w). Done (v\<lparr>recover_dir := bk_dir b, updatebkstateoid := bid\<rparr>, w)),
           updatebkstate (\<lambda>_. bid) BK_START_RESUME] s)
         (\<lambda>s. bind_res (dm_recover s) (\<lambda>(_, s). answer (Success vid) s))) w)"

definition VirtualMachineBackupDisk :: "int \<Rightarrow> int \<Rightarrow> string \<Rightarrow> string \<Rightarrow> one \<Rightarrow> (response \<times> one) res" where
  "VirtualMachineBackupDisk dkoid vid dkname dkdir = get_vm vid (\<lambda>s.
     if \<not> is_running s then answer (Failure ACTION) s
     else bind_res (steps [(\<lambda>(v, w). Done (add_backupdisk dkoid vid dkname dkdir (v\<lparr>dkbid := dkoid\<rparr>), w)),
         set_dkstate DK_START_BACKUPDISK, insert_backupdisk] s)
       (\<lambda>s. bind_res (dm_backupdisk s) (\<lambda>(_, s). answer (Success dkoid) s)))"

subsection \<open>Change of the template\<close>

text \<open>\<open>std::string::find\<close> (\<open>npos\<close> becomes \<open>-1\<close> in an \<open>int\<close>) and \<open>replace\<close>, which throws when the position
  is past the end and takes a negative length for the whole rest.\<close>

fun find_str :: "string \<Rightarrow> string \<Rightarrow> int" where
  "find_str p [] = (if p = [] then 0 else -1)"
| "find_str p (c # cs) = (if take (length p) (c # cs) = p then 0
     else let i = find_str p cs in if i < 0 then -1 else i + 1)"

definition replace_str :: "int \<Rightarrow> int \<Rightarrow> string \<Rightarrow> string \<Rightarrow> string option" where
  "replace_str pos len v s = (if pos < 0 \<or> pos > int (length s) then None
     else Some (take (nat pos) s @ v @ (if len < 0 then [] else drop (nat (pos + len)) s)))"

definition xen_vcpu :: "string \<Rightarrow> string \<Rightarrow> string option" where
  "xen_vcpu v d = (let p1 = find_str ''vcpus'' d; p2 = find_str ''pae'' d
     in replace_str (p1 + 8) (p2 - (p1 + 9)) v d)"

text \<open>The new values are not written to the database.\<close>

definition set_memory :: "string \<Rightarrow> vm \<Rightarrow> vm" where
  "set_memory m v = v\<lparr>req_memory := (if m = [] then 0 else fst (extract_int (req_memory v) (istr m)))\<rparr>"

definition VirtualMachineChangeTemplate :: "int \<Rightarrow> string \<Rightarrow> string \<Rightarrow> one \<Rightarrow> (response \<times> one) res" where
  "VirtualMachineChangeTemplate vid vcpu memory = get_vm vid (\<lambda>(v, w).
     if state v \<noteq> ACTIVE \<or> lcm_state v \<noteq> OFF then answer (Failure ACTION) (v, w)
     else if xm_list w = ''xen'' then
       (case raw_data v of
          None \<Rightarrow> Segv
        | Some d \<Rightarrow> (case xen_vcpu vcpu d of
            None \<Rightarrow> Done (Thrown, v, w)
          | Some d' \<Rightarrow> answer (Success vid) (set_memory memory (v\<lparr>raw_data := Some d'\<rparr>), w)))
     else answer (Success vid) (set_memory memory (v\<lparr>attrs := (attrs v)(''VCPU'' \<mapsto> vcpu)\<rparr>), w))"

end
