(* ===== verification/DynamicMount.thy ===== *)
theory DynamicMount
  imports Requests Samples
begin

text \<open>
  A disk that is attached to a running machine, or detached from it: \<open>VirtualMachineDynamicMount\<close>
  (src/rm/RequestManagerVirtualMachine.cc) and \<open>dymount_template_attribute\<close> (include/PoolObjectSQL.h).
\<close>

text \<open>The loop that looks for the target, over the attributes that were removed: the first with it is left out; an
  attribute that is no vector, on the way, is a null pointer.\<close>

fun without_target :: "string \<Rightarrow> vattr option list \<Rightarrow> vattr option list res" where
  "without_target target [] = Done []"
| "without_target target (None # ds) = Segv"
| "without_target target (Some disk # ds) = (if vector_value disk ''TARGET'' = target then Done ds
     else bind_res (without_target target ds) (\<lambda>r. Done (Some disk # r)))"

definition dm_disk :: "string \<Rightarrow> string \<Rightarrow> vattr" where
  "dm_disk target source = [''SOURCE_DM'' \<mapsto> source, ''TARGET'' \<mapsto> target, ''TYPE'' \<mapsto> ''BLOCK'']"

text \<open>The attributes that remain are set again, which dereferences each.\<close>

definition dymount_template_attribute :: "string \<Rightarrow> string \<Rightarrow> vattr option list \<Rightarrow> vattr option list res" where
  "dymount_template_attribute target source ds =
     (if source = [] then bind_res (without_target target ds) (\<lambda>r. if None \<in> set r then Segv else Done r)
      else Done (ds @ [Some (dm_disk target source)]))"

text \<open>With Xen the request does nothing, and answers that it has.\<close>

definition VirtualMachineDynamicMount :: "int \<Rightarrow> string \<Rightarrow> string \<Rightarrow> one \<Rightarrow> (response \<times> one) res" where
  "VirtualMachineDynamicMount vid target source = get_vm vid (\<lambda>(v, w).
     if \<not> is_running (v, w) then answer (Failure ACTION) (v, w)
     else if xm_list w = ''xen'' then answer (Success vid) (v, w)
     else bind_res (dymount_template_attribute target source (disks v)) (\<lambda>ds.
       bind_res (update (v\<lparr>disks := ds\<rparr>, w)) (\<lambda>s. answer (Success vid) s)))"

subsection \<open>Attaching and detaching\<close>

definition has_target :: "string \<Rightarrow> vattr option list \<Rightarrow> bool" where
  "has_target target ds \<longleftrightarrow> (\<exists>d. Some d \<in> set ds \<and> vector_value d ''TARGET'' = target)"

lemma has_target_simps [simp]:
  "\<not> has_target target []" "has_target target (Some d # ds) \<longleftrightarrow> vector_value d ''TARGET'' = target \<or> has_target target ds"
  by (auto simp: has_target_def)

lemma without_target_append:
  "None \<notin> set ds \<Longrightarrow> \<not> has_target target ds \<Longrightarrow> vector_value d ''TARGET'' = target \<Longrightarrow>
    without_target target (ds @ Some d # es) = Done (ds @ es)"
  by (induction target ds rule: without_target.induct) auto

lemma without_target_absent: "None \<notin> set ds \<Longrightarrow> \<not> has_target target ds \<Longrightarrow> without_target target ds = Done ds"
  by (induction target ds rule: without_target.induct) auto

text \<open>What is attached under a new target can be detached, and the disks are as before.\<close>

lemma detach_attached:
  assumes "None \<notin> set ds" "\<not> has_target target ds" "source \<noteq> []"
  shows "bind_res (dymount_template_attribute target source ds) (dymount_template_attribute target []) = Done ds"
  using assms without_target_append [of ds target "dm_disk target source" "[]"]
  by (simp add: dymount_template_attribute_def dm_disk_def vector_value_def)

text \<open>A request to detach a disk that the machine does not have is answered as done.\<close>

lemma detach_nothing_succeeds:
  assumes "vms w vid = Some v" "vm_oid v = vid" "vid \<notin> vm_locks w" "is_running (v, w)" "xm_list w \<noteq> ''xen''"
    "None \<notin> set (disks v)" "\<not> has_target target (disks v)"
  shows "\<exists>w'. VirtualMachineDynamicMount vid target [] w = Done (Success vid, w') \<and> vms w' = vms w"
  using assms without_target_absent [of "disks v" target]
  by (auto simp: VirtualMachineDynamicMount_def get_vm_def dymount_template_attribute_def answer_def update_def is_running_def
      unlock_def write_row_def fun_eq_iff)

end
