(* ===== verification/TransferSpec.thy ===== *)
theory TransferSpec
  imports TransferManager Samples
begin

text \<open>
  What the transfer manager promises: a request reaches the driver of the host, with a script, or comes
  back as a failure; and what the scripts of the prolog and the epilog do with the disks.
\<close>

subsection \<open>The table of the requests\<close>

fun tm_suffix :: "tm_action \<Rightarrow> string" where
  "tm_suffix TA_PROLOG = ''.prolog''"
| "tm_suffix TA_PROLOG_MIGR = ''.migrate''"
| "tm_suffix TA_PROLOG_RESUME = ''.resume''"
| "tm_suffix TA_PROLOG_BACKUP = ''.backup''"
| "tm_suffix TA_PROLOG_RECOVER = ''.recover''"
| "tm_suffix TA_PROLOG_BACKUPDISK = ''.backupdisk''"
| "tm_suffix TA_EPILOG = ''.epilog''"
| "tm_suffix TA_EPILOG_STOP = ''.stop''"
| "tm_suffix TA_EPILOG_DELETE = ''.delete''"
| "tm_suffix TA_EPILOG_DELETE_PREVIOUS = ''.delete_prev''"
| "tm_suffix TA_DELETE_RECOVER_FAIL = ''.recover_fail''"
| "tm_suffix TA_RECOVER_DECOMPRESS_FAIL = ''.decompress_fail''"
| "tm_suffix TA_DELETE_BACKUP_FAIL = ''.delete_backup''"
| "tm_suffix TA_DELETEBAK = ''.deletebak''"
| "tm_suffix TA_ON = ''.xm_list''"
| "tm_suffix TA_DELETE_BACKUP_COMPRESS = ''.deletecps''"
| "tm_suffix TA_PROLOG_RECOVER_DECOMPRESS = ''.decompress''"
| "tm_suffix _ = []"

definition transfers :: "tm_action \<Rightarrow> bool" where
  "transfers a \<longleftrightarrow> a \<notin> {TA_CHECKPOINT, TA_DRIVER_CANCEL, TA_FINALIZE}"

text \<open>The life-cycle action that answers a request the manager cannot pass on; some have none.\<close>

fun tm_failure :: "tm_action \<Rightarrow> lcm_action list" where
  "tm_failure TA_EPILOG = [LA_EPILOG_FAILURE]"
| "tm_failure TA_EPILOG_STOP = [LA_EPILOG_FAILURE]"
| "tm_failure TA_PROLOG = [LA_PROLOG_FAILURE]"
| "tm_failure TA_PROLOG_MIGR = [LA_PROLOG_FAILURE]"
| "tm_failure TA_PROLOG_RESUME = [LA_PROLOG_FAILURE]"
| "tm_failure TA_PROLOG_BACKUP = [LA_PROLOG_FAILURE]"
| "tm_failure TA_PROLOG_RECOVER = [LA_PROLOG_FAILURE]"
| "tm_failure TA_PROLOG_BACKUPDISK = [LA_PROLOG_FAILURE]"
| "tm_failure TA_PROLOG_RECOVER_DECOMPRESS = [LA_PROLOG_FAILURE]"
| "tm_failure _ = []"

definition tm_driver :: "tm_action \<Rightarrow> vm \<Rightarrow> string option" where
  "tm_driver a v = (if a = TA_EPILOG_DELETE_PREVIOUS
     then (if hasHistory v then map_option tm_mad_name (previous_hist v) else None)
     else map_option tm_mad_name (hist v))"

definition tm_path :: "tm_action \<Rightarrow> vm \<Rightarrow> one \<Rightarrow> string" where
  "tm_path a v w = (case hist v of None \<Rightarrow> [] | Some h \<Rightarrow> get_transfer_file v h w @ tm_suffix a)"

text \<open>A disk that is copied needs a source; a context must be a vector attribute and its file be writable.\<close>

definition disk_type :: "vattr \<Rightarrow> string" where
  "disk_type disk = to_upper (vector_value disk ''TYPE'')"

definition disk_usable :: "vattr \<Rightarrow> bool" where
  "disk_usable disk \<longleftrightarrow> disk_type disk \<in> {''SWAP'', ''FS''} \<or> vector_value disk ''SOURCE'' \<noteq> []"

definition context_usable :: "mad_env \<Rightarrow> vm \<Rightarrow> one \<Rightarrow> bool" where
  "context_usable env v w \<longleftrightarrow>
     (length (contexts v) = 1 \<longrightarrow> contexts v \<noteq> [None] \<and> can_open env (get_context_file v w))"

definition tm_accepts :: "mad_env \<Rightarrow> tm_action \<Rightarrow> vm \<Rightarrow> one \<Rightarrow> bool" where
  "tm_accepts env a v w \<longleftrightarrow> (\<exists>mad. tm_driver a v = Some mad \<and> loaded env mad) \<and> can_open env (tm_path a v w) \<and>
     (a = TA_PROLOG \<longrightarrow> (\<forall>disk. Some disk \<in> set (disks v) \<longrightarrow> disk_usable disk) \<and> context_usable env v w)"

text \<open>The change the manager makes to the VM itself.\<close>

definition tm_vm :: "tm_action \<Rightarrow> bool \<Rightarrow> vm \<Rightarrow> vm" where
  "tm_vm a acc v = (if a = TA_PROLOG_RECOVER \<and> acc \<and> state v = FAILED then v\<lparr>state := ACTIVE\<rparr>
     else if a = TA_PROLOG_RECOVER_DECOMPRESS \<and> \<not> acc then v\<lparr>lcm_state := PROLOG_RECOVER\<rparr> else v)"

definition tm_outcome :: "mad_env \<Rightarrow> tm_action \<Rightarrow> int \<Rightarrow> vm \<Rightarrow> one \<times> io \<Rightarrow> one \<times> io \<Rightarrow> bool" where
  "tm_outcome env a vid v = (\<lambda>(w, u) (w', u').
     vms w' = (vms w)(vid \<mapsto> tm_vm a (tm_accepts env a v w) v) \<and> vm_locks w' = vm_locks w \<and> hosts w' = hosts w \<and>
     dm_q w' = dm_q w \<and> tm_q w' = tm_q w \<and> vmm_q w' = vmm_q w \<and>
     (if tm_accepts env a v w
      then lcm_q w' = lcm_q w \<and> files u' (tm_path a v w) \<noteq> None \<and>
        piped u' = piped u @ [(the (tm_driver a v),
          ''TRANSFER '' @ int_string vid @ '' '' @ tm_path a v w @ endl)]
      else piped u' = piped u \<and> lcm_q w' = lcm_q w @ map (\<lambda>f. (lcm_action_name f, vid)) (tm_failure a)))"

definition tm_ready :: "tm_action \<Rightarrow> vm \<Rightarrow> bool" where
  "tm_ready a v \<longleftrightarrow> (a = TA_PROLOG_MIGR \<longrightarrow> previous_hist v \<noteq> None) \<and>
     (a = TA_PROLOG_BACKUP \<longrightarrow> backup v \<noteq> None) \<and> (a = TA_PROLOG_BACKUPDISK \<longrightarrow> backupdisk v \<noteq> None)"

subsection \<open>The scripts of the disks\<close>

lemma prolog_disk_usable: "fst (prolog_disk env v h i disk) = disk_usable disk"
  by (simp add: prolog_disk_def disk_usable_def disk_type_def Let_def)

lemma prolog_disks_Some:
  "prolog_disks env v h i (Some disk # ds) = (if disk_usable disk
     then (fst (prolog_disks env v h (Suc i) ds),
       snd (prolog_disk env v h i disk) @ snd (prolog_disks env v h (Suc i) ds))
     else (False, snd (prolog_disk env v h i disk)))"
  using prolog_disk_usable [of env v h i disk]
  by (cases "prolog_disk env v h i disk"; cases "prolog_disks env v h (Suc i) ds") simp

lemma prolog_disks_usable:
  "fst (prolog_disks env v h i ds) \<longleftrightarrow> (\<forall>disk. Some disk \<in> set ds \<longrightarrow> disk_usable disk)"
proof (induction ds arbitrary: i)
  case (Cons a ds)
  then show ?case by (cases a) (auto simp: prolog_disks_Some simp del: prolog_disks.simps(3))
qed simp

text \<open>The loops as comprehensions: the command of each disk, by its position.\<close>

definition disk_command :: "mad_env \<Rightarrow> vm \<Rightarrow> history \<Rightarrow> nat \<Rightarrow> vattr option \<Rightarrow> string" where
  "disk_command env v h i a = (case a of None \<Rightarrow> [] | Some disk \<Rightarrow> snd (prolog_disk env v h i disk))"

lemma disk_command_simps [simp]:
  "disk_command env v h i None = []" "disk_command env v h i (Some disk) = snd (prolog_disk env v h i disk)"
  by (simp_all add: disk_command_def)

lemma upt_shift: "map f [0..<Suc n] = f 0 # map (\<lambda>j. f (Suc j)) [0..<n]"
  by (simp add: upt_conv_Cons map_Suc_upt [symmetric] comp_def del: upt_Suc)

lemma prolog_disks_text:
  assumes "fst (prolog_disks env v h i ds)"
  shows "snd (prolog_disks env v h i ds) = concat (map (\<lambda>j. disk_command env v h (i + j) (ds ! j)) [0..<length ds])"
  using assms
proof (induction ds arbitrary: i)
  case (Cons a ds)
  then show ?case using Cons.IH [of "Suc i"]
    by (cases a) (simp_all add: upt_shift prolog_disks_Some
        del: prolog_disks.simps(3) upt_Suc split: if_splits)
qed simp

lemma epilog_disks_text:
  "epilog_disks env v h w i ds = concat (map (\<lambda>j. epilog_disk env v h w (i + j) (ds ! j)) [0..<length ds])"
proof (induction ds arbitrary: i)
  case (Cons a ds)
  then show ?case using Cons.IH [of "Suc i"] by (simp add: upt_shift del: upt_Suc)
qed simp

subsection \<open>The frame of the handlers\<close>

lemma with_vm_io_some:
  assumes "vms w vid = Some v" "vid \<notin> vm_locks w"
  shows "with_vm_io vid act (w, u) = bind_res (act ((v, w\<lparr>vm_locks := insert vid (vm_locks w)\<rparr>), u))
     (\<lambda>((v', w'), u'). Done (w'\<lparr>vms := (vms w')(vid \<mapsto> v')\<rparr>, u'))"
  using assms by (simp add: with_vm_io_def)

lemma local_dir_locks [simp]:
  "get_local_dir v (w\<lparr>vm_locks := l\<rparr>) = get_local_dir v w"
  "get_transfer_file v h (w\<lparr>vm_locks := l\<rparr>) = get_transfer_file v h w"
  "get_context_file v (w\<lparr>vm_locks := l\<rparr>) = get_context_file v w"
  by (simp_all add: get_local_dir_def get_transfer_file_def get_context_file_def)

text \<open>Two states of the daemon with the same VMs, hosts, locks and messages.\<close>

definition same_queues :: "one \<Rightarrow> one \<Rightarrow> bool" where
  "same_queues w w' \<longleftrightarrow> vms w' = vms w \<and> vm_locks w' = vm_locks w \<and> hosts w' = hosts w \<and> lcm_q w' = lcm_q w \<and>
     dm_q w' = dm_q w \<and> tm_q w' = tm_q w \<and> vmm_q w' = vmm_q w"

lemma same_queues_refl [simp]: "same_queues w w" "same_queues w (write_row v w)"
  by (simp_all add: same_queues_def)

lemma accepts_locks [simp]:
  "tm_accepts env a v (w\<lparr>vm_locks := l\<rparr>) = tm_accepts env a v w" "tm_path a v (w\<lparr>vm_locks := l\<rparr>) = tm_path a v w"
  by (simp_all add: tm_accepts_def tm_path_def context_usable_def split: option.split)

text \<open>A handler of the common frame has the outcome its body and its failure statements give it.\<close>

lemma transfer_outcome:
  assumes vm: "vms w vid = Some v" "vm_oid v = vid" "vid \<notin> vm_locks w" and a: "a \<noteq> TA_EPILOG_DELETE_PREVIOUS"
    and suffix: "suffix = tm_suffix a"
    and ok: "\<And>h. hist v = Some h \<Longrightarrow> tm_accepts env a v w \<Longrightarrow> \<exists>text w1 u1.
      act h ((v, w\<lparr>vm_locks := insert vid (vm_locks w)\<rparr>), u) = Done (True, text, (tm_vm a True v, w1), u1) \<and>
      same_queues (w\<lparr>vm_locks := insert vid (vm_locks w)\<rparr>) w1 \<and> piped u1 = piped u"
    and gives_up: "\<And>h. hist v = Some h \<Longrightarrow> loaded env (tm_mad_name h) \<Longrightarrow> can_open env (tm_path a v w) \<Longrightarrow>
      \<not> tm_accepts env a v w \<Longrightarrow> \<exists>text u1.
      act h ((v, w\<lparr>vm_locks := insert vid (vm_locks w)\<rparr>), u) =
        Done (False, text, (v, w\<lparr>vm_locks := insert vid (vm_locks w)\<rparr>), u1) \<and> piped u1 = piped u"
    and fail: "\<And>w2. \<exists>w3. steps fs (v, w2) = Done (tm_vm a False v, w3) \<and> vms w3 = vms w2 \<and> vm_locks w3 = vm_locks w2 \<and>
      hosts w3 = hosts w2 \<and> dm_q w3 = dm_q w2 \<and> tm_q w3 = tm_q w2 \<and> vmm_q w3 = vmm_q w2 \<and>
      lcm_q w3 = lcm_q w2 @ map (\<lambda>f. (lcm_action_name f, vid)) (tm_failure a)"
  shows "\<exists>s'. with_vm_io vid (transfer_with env suffix act fs vid) (w, u) = Done s' \<and> tm_outcome env a vid v (w, u) s'"
proof -
  let ?w = "w\<lparr>vm_locks := insert vid (vm_locks w)\<rparr>"
  have oid: "vm_oid (tm_vm a acc v) = vid" for acc using vm(2) by (simp add: tm_vm_def)
  have refused: "\<exists>s'. bind_res (daemon (fs @ [unlock]) ((v, ?w), u1))
      (\<lambda>((v', w'), u'). Done (w'\<lparr>vms := (vms w')(vid \<mapsto> v')\<rparr>, u')) = Done s' \<and> tm_outcome env a vid v (w, u) s'"
    if "\<not> tm_accepts env a v w" "piped u1 = piped u" for u1
    using fail [of ?w] that oid [of False] vm(3)
    by (auto simp: daemon_def steps_append unlock_def tm_outcome_def)
  show ?thesis
  proof (cases "hist v")
    case None
    then have "\<not> tm_accepts env a v w" using a by (simp add: tm_accepts_def tm_driver_def)
    from refused [OF this refl] show ?thesis using None by (simp add: with_vm_io_some [OF vm(1,3)] transfer_with_def)
  next
    case (Some h)
    have path: "get_transfer_file v h w @ suffix = tm_path a v w" using Some suffix by (simp add: tm_path_def)
    have drv: "tm_driver a v = Some (tm_mad_name h)" using Some a by (simp add: tm_driver_def)
    consider (closed) "\<not> (loaded env (tm_mad_name h) \<and> can_open env (tm_path a v w))"
      | (served) "tm_accepts env a v w" "loaded env (tm_mad_name h)" "can_open env (tm_path a v w)"
      | (given_up) "\<not> tm_accepts env a v w" "loaded env (tm_mad_name h)" "can_open env (tm_path a v w)" by blast
    then show ?thesis
    proof cases
      case closed
      then have "\<not> tm_accepts env a v w" using drv by (auto simp: tm_accepts_def)
      from refused [OF this refl] show ?thesis using Some closed
        by (auto simp: with_vm_io_some [OF vm(1,3)] transfer_with_def Let_def path)
    next
      case served
      obtain sc w1 u1 where b: "act h ((v, ?w), u) = Done (True, sc, (tm_vm a True v, w1), u1)"
        "same_queues ?w w1" "piped u1 = piped u" using ok [OF Some served(1)] by blast
      have "with_vm_io vid (transfer_with env suffix act fs vid) (w, u) =
        Done (w1\<lparr>vm_locks := vm_locks w1 - {vid}, vms := (vms w1)(vid \<mapsto> tm_vm a True v)\<rparr>,
          transfer vid (tm_mad_name h) (tm_path a v w) (write_file (tm_path a v w) sc u1))"
        using Some served b(1) oid [of True]
        by (simp add: with_vm_io_some [OF vm(1,3)] transfer_with_def Let_def path daemon_def unlock_def)
      moreover have "tm_outcome env a vid v (w, u) (w1\<lparr>vm_locks := vm_locks w1 - {vid}, vms := (vms w1)(vid \<mapsto> tm_vm a True v)\<rparr>,
          transfer vid (tm_mad_name h) (tm_path a v w) (write_file (tm_path a v w) sc u1))"
        using served(1) b(2,3) drv vm(3)
        by (simp add: tm_outcome_def same_queues_def transfer_def write_mad_def write_file_def)
      ultimately show ?thesis by blast
    next
      case given_up
      obtain sc u1 where b: "act h ((v, ?w), u) = Done (False, sc, (v, ?w), u1)" "piped u1 = piped u"
        using gives_up [OF Some given_up(2,3,1)] by blast
      from refused [OF given_up(1), of "write_file (tm_path a v w) sc u1"] show ?thesis
        using Some given_up b by (simp add: with_vm_io_some [OF vm(1,3)] transfer_with_def Let_def path write_file_def)
    qed
  qed
qed

text \<open>The prolog, the only script that can be given up.\<close>

lemma context_outcome:
  assumes "hist v \<noteq> None"
  shows "fst (generate_context env v w u) = -1 \<longleftrightarrow> \<not> context_usable env v w"
    "piped (snd (snd (generate_context env v w u))) = piped u"
  using assms unfolding generate_context_def context_usable_def hasHistory_def
  by (auto simp: write_file_def split: list.split option.split)

lemma prolog_script_outcome:
  assumes "hist v = Some h"
  shows "\<exists>sc u1. prolog_script env h ((v, w), u) = Done ((\<forall>disk. Some disk \<in> set (disks v) \<longrightarrow> disk_usable disk) \<and>
      context_usable env v w, sc, (v, w), u1) \<and> piped u1 = piped u"
proof -
  obtain ok sc where d: "prolog_disks env v h 0 (disks v) = (ok, sc)" by fastforce
  obtain rc fs u1 where c: "generate_context env v w u = (rc, fs, u1)" by (metis prod_cases3)
  have "ok \<longleftrightarrow> (\<forall>disk. Some disk \<in> set (disks v) \<longrightarrow> disk_usable disk)"
    using prolog_disks_usable [of env v h 0 "disks v"] d by simp
  moreover have "rc = -1 \<longleftrightarrow> \<not> context_usable env v w" "piped u1 = piped u"
    using context_outcome [of v env w u] c assms by simp_all
  ultimately show ?thesis unfolding prolog_script_def by (simp add: d c Let_def)
qed

lemma context_usable_locks [simp]: "context_usable env v (w\<lparr>vm_locks := l\<rparr>) = context_usable env v w"
  by (simp add: context_usable_def)

lemma prolog_outcome:
  assumes "vms w vid = Some v" "vm_oid v = vid" "vid \<notin> vm_locks w"
  shows "\<exists>s'. prolog_action env vid (w, u) = Done s' \<and> tm_outcome env TA_PROLOG vid v (w, u) s'"
  unfolding prolog_action_def
proof (rule transfer_outcome [OF assms])
  let ?w = "w\<lparr>vm_locks := insert vid (vm_locks w)\<rparr>"
  fix h assume h: "hist v = Some h"
  obtain sc u1 where "prolog_script env h ((v, ?w), u) = Done ((\<forall>disk. Some disk \<in> set (disks v) \<longrightarrow> disk_usable disk) \<and>
      context_usable env v w, sc, (v, ?w), u1)" "piped u1 = piped u"
    using prolog_script_outcome [OF h, of env ?w u] by auto
  then show "tm_accepts env TA_PROLOG v w \<Longrightarrow> \<exists>text w1 u1. prolog_script env h ((v, ?w), u) =
      Done (True, text, (tm_vm TA_PROLOG True v, w1), u1) \<and> same_queues ?w w1 \<and> piped u1 = piped u"
    and "loaded env (tm_mad_name h) \<Longrightarrow> can_open env (tm_path TA_PROLOG v w) \<Longrightarrow> \<not> tm_accepts env TA_PROLOG v w \<Longrightarrow>
      \<exists>text u1. prolog_script env h ((v, ?w), u) = Done (False, text, (v, ?w), u1) \<and> piped u1 = piped u"
    using h by (auto simp: tm_accepts_def tm_vm_def tm_driver_def)
qed (simp_all add: exec_simps tm_vm_def)

text \<open>The other handlers.\<close>

lemma plain_outcome:
  assumes "vms w vid = Some v" "vm_oid v = vid" "vid \<notin> vm_locks w" "transfers a" "a \<notin> {TA_PROLOG, TA_EPILOG_DELETE_PREVIOUS}"
    "suffix = tm_suffix a" "\<And>h. hist v = Some h \<Longrightarrow> \<exists>text w1.
       act h ((v, w\<lparr>vm_locks := insert vid (vm_locks w)\<rparr>), u) = Done (True, text, (tm_vm a True v, w1), u) \<and>
       same_queues (w\<lparr>vm_locks := insert vid (vm_locks w)\<rparr>) w1"
    "\<And>w2. \<exists>w3. steps fs (v, w2) = Done (tm_vm a False v, w3) \<and> vms w3 = vms w2 \<and> vm_locks w3 = vm_locks w2 \<and>
      hosts w3 = hosts w2 \<and> dm_q w3 = dm_q w2 \<and> tm_q w3 = tm_q w2 \<and> vmm_q w3 = vmm_q w2 \<and>
      lcm_q w3 = lcm_q w2 @ map (\<lambda>f. (lcm_action_name f, vid)) (tm_failure a)"
  shows "\<exists>s'. with_vm_io vid (transfer_with env suffix act fs vid) (w, u) = Done s' \<and> tm_outcome env a vid v (w, u) s'"
proof (rule transfer_outcome [OF assms(1-3) _ assms(6) _ _ assms(8)])
  show "a \<noteq> TA_EPILOG_DELETE_PREVIOUS" using assms(5) by simp
next
  fix h assume "hist v = Some h"
  then show "\<exists>text w1 u1. act h ((v, w\<lparr>vm_locks := insert vid (vm_locks w)\<rparr>), u) = Done (True, text, (tm_vm a True v, w1), u1) \<and>
      same_queues (w\<lparr>vm_locks := insert vid (vm_locks w)\<rparr>) w1 \<and> piped u1 = piped u"
    using assms(7) by blast
next
  fix h assume "hist v = Some h" "loaded env (tm_mad_name h)" "can_open env (tm_path a v w)" "\<not> tm_accepts env a v w"
  then have False using assms(5) by (simp add: tm_accepts_def tm_driver_def)
  then show "\<exists>text u1. act h ((v, w\<lparr>vm_locks := insert vid (vm_locks w)\<rparr>), u) =
      Done (False, text, (v, w\<lparr>vm_locks := insert vid (vm_locks w)\<rparr>), u1) \<and> piped u1 = piped u" ..
qed

lemma delete_previous_outcome:
  assumes "vms w vid = Some v" "vm_oid v = vid" "vid \<notin> vm_locks w"
  shows "\<exists>s'. epilog_delete_previous_action env vid (w, u) = Done s' \<and>
    tm_outcome env TA_EPILOG_DELETE_PREVIOUS vid v (w, u) s'"
proof -
  have locks: "insert vid (vm_locks w) - {vid} = vm_locks w" using assms(3) by blast
  show ?thesis
  proof (cases "hist v")
    case None
    then show ?thesis using assms
      by (simp add: epilog_delete_previous_action_def with_vm_io_some daemon_def unlock_def tm_outcome_def
          tm_accepts_def tm_driver_def tm_vm_def hasHistory_def locks)
  next
    case (Some h)
    then show ?thesis using assms
      by (cases "previous_hist v")
         (auto simp: epilog_delete_previous_action_def with_vm_io_some daemon_def unlock_def tm_outcome_def Let_def
          tm_accepts_def tm_driver_def tm_path_def tm_vm_def hasHistory_def locks transfer_def write_mad_def write_file_def)
  qed
qed

lemma tm_outcomes:
  assumes "vms w vid = Some v" "vm_oid v = vid" "vid \<notin> vm_locks w" "tm_ready a v" "transfers a"
  shows "\<exists>s'. tm_do_action env (tm_action_name a) vid (w, u) = Done s' \<and> tm_outcome env a vid v (w, u) s'"
proof -
  note rule = plain_outcome [OF assms(1-3)]
  note unf = tm_dispatch prolog_migr_action_def prolog_resume_action_def epilog_stop_action_def epilog_action_def
    epilog_delete_action_def prolog_on_action_def prolog_backup_action_def prolog_backupdisk_action_def
    prolog_recover_action_def epilog_decompress_action_def delete_recover_fail_action_def
    recover_decompress_fail_action_def delete_backup_fail_action_def epilog_deletebak_action_def
    epilog_deletecps_action_def tm_action.case
  note scripts = plain_def migr_script_def backup_script_def backupdisk_script_def recover_script_def
  show ?thesis
  proof (cases "a \<in> {TA_PROLOG, TA_EPILOG_DELETE_PREVIOUS}")
    case True
    then show ?thesis using prolog_outcome [OF assms(1-3)] delete_previous_outcome [OF assms(1-3)]
      by (auto simp: tm_dispatch)
  next
    case False
    show ?thesis
      by (insert False assms(4,5) [unfolded transfers_def tm_ready_def], cases a; (simp; fail)?; simp only: unf; intro rule;
          auto simp: transfers_def scripts tm_vm_def exec_simps same_queues_def)
  qed
qed

subsection \<open>Properties\<close>

text \<open>C20. Every request of the life-cycle manager is answered.  When the driver of the host is loaded, the
  script can be written and, for the prolog, the disks have sources and the context can be written, exactly one
  line goes to that driver, which names the VM and a script that exists, and the life-cycle manager gets no
  message; otherwise no line is written and the life-cycle manager gets the failure the table lists, at once.
  The mutex of the VM is free again, the hosts, the other VMs and the other queues are as before, and the VM itself
  changes in two cases only: a failed VM whose recovery starts becomes active, and a VM whose decompression cannot be
  started goes back to PROLOG_RECOVER.\<close>

theorem transfer_requests_answered:
  assumes "vms w vid = Some v" "vm_oid v = vid" "vid \<notin> vm_locks w" "tm_ready a v" "transfers a"
  shows "\<exists>s'. tm_do_action env (tm_action_name a) vid (w, u) = Done s' \<and> tm_outcome env a vid v (w, u) s'"
  by (rule tm_outcomes [OF assms])

text \<open>A script that is accepted is in its file.\<close>

lemma script_served:
  assumes "vms w vid = Some v" "vm_oid v = vid" "vid \<notin> vm_locks w" "hist v = Some h" "tm_accepts env a v w"
    "a \<noteq> TA_EPILOG_DELETE_PREVIOUS"
    "act h ((v, w\<lparr>vm_locks := insert vid (vm_locks w)\<rparr>), u) =
       Done (True, sc, (v, w\<lparr>vm_locks := insert vid (vm_locks w)\<rparr>), u1)"
  shows "with_vm_io vid (transfer_with env (tm_suffix a) act fs vid) (w, u) = Done (w\<lparr>vms := (vms w)(vid \<mapsto> v)\<rparr>,
     transfer vid (tm_mad_name h) (tm_path a v w) (write_file (tm_path a v w) sc u1))"
proof -
  have "insert vid (vm_locks w) - {vid} = vm_locks w" using assms(3) by blast
  moreover have "loaded env (tm_mad_name h)" "can_open env (tm_path a v w)"
    "get_transfer_file v h w @ tm_suffix a = tm_path a v w"
    using assms(4-6) by (auto simp: tm_accepts_def tm_driver_def tm_path_def)
  ultimately show ?thesis using assms(2,4,7)
    by (simp add: with_vm_io_some [OF assms(1,3)] transfer_with_def daemon_def unlock_def Let_def)
qed

text \<open>The disks that are saved, and the commands.\<close>

definition saved_disks :: "vm \<Rightarrow> nat list" where
  "saved_disks v = filter (\<lambda>j. case disks v ! j of None \<Rightarrow> False
     | Some disk \<Rightarrow> to_upper (vector_value disk ''SAVE'') = ''YES'') [0..<length (disks v)]"

definition save_command :: "mad_env \<Rightarrow> vm \<Rightarrow> history \<Rightarrow> one \<Rightarrow> nat \<Rightarrow> string" where
  "save_command env v h w j = ''MV '' @ at_host v h @ ''/disk.'' @ num_string 10 j @ '' '' @
     at_front env (get_local_dir v w) @ ''/disk.'' @ num_string 10 j @ endl"

lemma save_command_locks [simp]: "save_command env v h (w\<lparr>vm_locks := l\<rparr>) = save_command env v h w"
  by (simp add: save_command_def fun_eq_iff)

lemma concat_filter: "concat (map (\<lambda>j. if P j then f j else []) js) = concat (map f (filter P js))"
  by (induction js) auto

lemma epilog_script_saved:
  "epilog_script env h (v, w) = concat (map (save_command env v h w) (saved_disks v)) @ delete_command v h []"
proof -
  have "epilog_disk env v h w j (disks v ! j) = (if case disks v ! j of None \<Rightarrow> False
     | Some disk \<Rightarrow> to_upper (vector_value disk ''SAVE'') = ''YES'' then save_command env v h w j else [])" for j
    by (simp add: epilog_disk_def save_command_def split: option.split)
  then show ?thesis by (simp add: epilog_script_def epilog_disks_text saved_disks_def concat_filter)
qed

text \<open>C21. No disk that is to be saved is deleted before it is saved: the script of the epilog moves each disk
  with SAVE=YES, whatever the case of the word, to the directory of the VM on the front-end, in order and each to
  the file of its number, and only then deletes the directory on the host.\<close>

theorem epilog_saves_before_deleting:
  assumes "vms w vid = Some v" "vm_oid v = vid" "vid \<notin> vm_locks w" "hist v = Some h" "tm_accepts env TA_EPILOG v w"
  shows "\<exists>w' u'. tm_do_action env ''EPILOG'' vid (w, u) = Done (w', u') \<and> files u' (tm_path TA_EPILOG v w) =
    Some (concat (map (save_command env v h w) (saved_disks v)) @ delete_command v h [])"
  using script_served [OF assms, of "plain (epilog_script env)" u] tm_dispatch [of env TA_EPILOG]
  by (simp add: epilog_action_def plain_def epilog_script_saved transfer_def write_mad_def write_file_def)

definition context_part :: "vm \<Rightarrow> history \<Rightarrow> one \<Rightarrow> string" where
  "context_part v h w = (case contexts v of [Some vals] \<Rightarrow>
     context_command (case map_of vals ''FILES'' of None \<Rightarrow> [] | Some fs \<Rightarrow> fs) v h w | _ \<Rightarrow> [])"

lemma context_part_locks [simp]: "context_part v h (w\<lparr>vm_locks := l\<rparr>) = context_part v h w"
  by (simp add: context_part_def context_command_def split: list.split option.split)

lemma context_not_script: "hist v = Some h \<Longrightarrow> get_context_file v w \<noteq> tm_path TA_PROLOG v w"
  by (simp add: get_context_file_def tm_path_def get_transfer_file_def)

lemma context_script:
  assumes "hist v = Some h" "prolog_disks env v h 0 (disks v) = (True, sc)" "context_usable env v w"
  shows "\<exists>u1. prolog_script env h ((v, w), u) = Done (True, sc @ context_part v h w, (v, w), u1) \<and>
    (\<forall>vals. contexts v = [Some vals] \<longrightarrow> files u1 (get_context_file v w) = Some (context_text vals))"
proof -
  consider "contexts v = []" | "contexts v = [None]" | vals where "contexts v = [Some vals]"
    | a b cs where "contexts v = a # b # cs"
    by (metis list.exhaust option.exhaust)
  then show ?thesis
    by cases (use assms in \<open>simp_all add: prolog_script_def generate_context_def context_part_def context_usable_def
        hasHistory_def write_file_def Let_def split: option.split\<close>)
qed

text \<open>The prolog prepares every disk: the script has one command for each usable disk of the template, in
  order, and each builds the file of the disk's own number on the host; the context, when there is one, becomes the
  disk after the last, and its file holds every variable of the CONTEXT attribute.\<close>

theorem prolog_builds_every_disk:
  assumes "vms w vid = Some v" "vm_oid v = vid" "vid \<notin> vm_locks w" "hist v = Some h" "tm_accepts env TA_PROLOG v w"
  shows "\<exists>w' u'. tm_do_action env ''PROLOG'' vid (w, u) = Done (w', u') \<and> files u' (tm_path TA_PROLOG v w) =
      Some (concat (map (\<lambda>j. disk_command env v h j (disks v ! j)) [0..<length (disks v)]) @ context_part v h w) \<and>
    (\<forall>vals. contexts v = [Some vals] \<longrightarrow> files u' (get_context_file v w) = Some (context_text vals))"
proof -
  let ?w = "w\<lparr>vm_locks := insert vid (vm_locks w)\<rparr>"
  have fine: "fst (prolog_disks env v h 0 (disks v))" "context_usable env v w"
    using assms(5) by (simp_all add: tm_accepts_def prolog_disks_usable)
  obtain sc where d: "prolog_disks env v h 0 (disks v) = (True, sc)"
    "sc = concat (map (\<lambda>j. disk_command env v h j (disks v ! j)) [0..<length (disks v)])"
    using prolog_disks_text [OF fine(1)] fine(1) by (cases "prolog_disks env v h 0 (disks v)") simp
  have "context_usable env v ?w" using fine(2) by simp
  from context_script [OF assms(4) d(1) this, of u]
  obtain u1 where s: "prolog_script env h ((v, ?w), u) = Done (True, sc @ context_part v h w, (v, ?w), u1)"
    and c: "\<forall>vals. contexts v = [Some vals] \<longrightarrow> files u1 (get_context_file v w) = Some (context_text vals)"
    unfolding context_part_locks local_dir_locks by blast
  have "tm_do_action env ''PROLOG'' vid (w, u) = Done (w\<lparr>vms := (vms w)(vid \<mapsto> v)\<rparr>,
      transfer vid (tm_mad_name h) (tm_path TA_PROLOG v w) (write_file (tm_path TA_PROLOG v w) (sc @ context_part v h w) u1))"
    using script_served [OF assms(1-4), of env TA_PROLOG "prolog_script env" u] assms(5) s tm_dispatch [of env TA_PROLOG]
    by (simp add: prolog_action_def)
  then show ?thesis using c context_not_script [OF assms(4), of w] d(2)
    by (simp add: transfer_def write_mad_def write_file_def)
qed

subsection \<open>Witnesses\<close>

definition new_io :: io where
  "new_io = \<lparr>files = Map.empty, piped = [], commands = []\<rparr>"

definition env_with :: "bool \<Rightarrow> mad_env" where
  "env_with b = \<lparr>loaded = (\<lambda>_. b), can_open = (\<lambda>_. True), nebula_host = ''front''\<rparr>"

definition vm_disks :: "LcmState \<Rightarrow> vm" where
  "vm_disks s = (vm_at s [record_a])\<lparr>disks := [Some [''SOURCE'' \<mapsto> ''/img/0'', ''SAVE'' \<mapsto> ''yes''], None,
     Some [''TYPE'' \<mapsto> ''swap'', ''SIZE'' \<mapsto> ''512'']], contexts := [Some [(''IP'', ''10.0.0.7'')]]\<rparr>"

definition one_disks :: "LcmState \<Rightarrow> one" where
  "one_disks s = (one_at s [record_a])\<lparr>vms := [7 \<mapsto> vm_disks s]\<rparr>"

lemma one_disks_simps [simp]:
  "vms (one_disks s) 7 = Some (vm_disks s)" "vm_oid (vm_disks s) = 7" "vm_locks (one_disks s) = {}"
  "hist (vm_disks s) = Some record_a" "lcm_q (one_disks s) = []"
  by (simp_all add: one_disks_def vm_disks_def hist_def samples)

lemma upper_words: "to_upper ''yes'' = ''YES''" "to_upper ''swap'' = ''SWAP''" "to_upper [] = []"
  by code_simp+

lemma one_disks_accepts:
  "tm_accepts (env_with True) TA_PROLOG (vm_disks PROLOG) (one_disks PROLOG)"
  "tm_accepts (env_with True) TA_EPILOG (vm_disks EPILOG) (one_disks EPILOG)"
  "\<not> tm_accepts (env_with False) TA_PROLOG (vm_disks PROLOG) (one_disks PROLOG)"
proof -
  have "hist (vm_disks s) = Some record_a" for s by simp
  then show "tm_accepts (env_with True) TA_PROLOG (vm_disks PROLOG) (one_disks PROLOG)"
    "tm_accepts (env_with True) TA_EPILOG (vm_disks EPILOG) (one_disks EPILOG)"
    "\<not> tm_accepts (env_with False) TA_PROLOG (vm_disks PROLOG) (one_disks PROLOG)"
    by (simp_all add: tm_accepts_def tm_driver_def env_with_def)
       (auto simp: vm_disks_def disk_usable_def disk_type_def vector_value_def upper_words context_usable_def)
qed

theorem transfer_requests_answered_witness:
  "\<exists>w' u'. tm_do_action (env_with False) ''PROLOG'' 7 (one_disks PROLOG, new_io) = Done (w', u') \<and>
     lcm_q w' = [(''PROLOG_FAILURE'', 7)] \<and> piped u' = []"
  using transfer_requests_answered [of "one_disks PROLOG" 7 "vm_disks PROLOG" TA_PROLOG "env_with False" new_io] one_disks_accepts(3)
  by (auto simp: tm_ready_def transfers_def tm_outcome_def new_io_def)

theorem epilog_saves_before_deleting_witness:
  "\<exists>w' u' path. tm_do_action (env_with True) ''EPILOG'' 7 (one_disks EPILOG, new_io) = Done (w', u') \<and>
     files u' path = Some (save_command (env_with True) (vm_disks EPILOG) record_a (one_disks EPILOG) 0 @
       delete_command (vm_disks EPILOG) record_a [])"
proof -
  have "saved_disks (vm_disks EPILOG) = [0]"
    by (simp add: saved_disks_def vm_disks_def upt_rec vector_value_def upper_words)
  then show ?thesis
    using epilog_saves_before_deleting [OF _ _ _ _ one_disks_accepts(2), of 7 record_a new_io] by auto
qed

theorem prolog_builds_every_disk_witness:
  "\<exists>w' u'. tm_do_action (env_with True) ''PROLOG'' 7 (one_disks PROLOG, new_io) = Done (w', u') \<and>
     files u' (get_context_file (vm_disks PROLOG) (one_disks PROLOG)) = Some (context_text [(''IP'', ''10.0.0.7'')])"
proof -
  have "contexts (vm_disks PROLOG) = [Some [(''IP'', ''10.0.0.7'')]]" by (simp add: vm_disks_def)
  then show ?thesis
    using prolog_builds_every_disk [OF _ _ _ _ one_disks_accepts(1), of 7 record_a new_io] by auto
qed

end
