(* ===== verification/DeployDisks.thy ===== *)
theory DeployDisks
  imports DeploySpec DynamicMount TransferSpec
begin

text \<open>
  Where the data of the disks is: the transfer manager puts it there (src/tm), the deployment file names it (src/vmm),
  and a disk that is attached to the running machine (src/rm) moves none of the others.
\<close>

text \<open>The template and the record of a machine, as the drivers and the managers see it.\<close>

definition vattr_of :: "attr \<Rightarrow> vattr option" where
  "vattr_of a = (case a of Single _ \<Rightarrow> None | Vector m \<Rightarrow> Some (mfind m))"

definition same_machine :: "deployable \<Rightarrow> vm \<Rightarrow> history \<Rightarrow> bool" where
  "same_machine d v h \<longleftrightarrow> dv_oid d = vm_oid v \<and> dv_remote_dir d = get_remote_dir v h \<and>
     disks v = map vattr_of (all_of ''DISK'' d)"

lemma vattr_value [simp]: "vector_value (mfind m) k = attr_value k m"
  by (simp add: vector_value_def attr_value_def)

lemma same_machine_path: "same_machine d v h \<Longrightarrow> at_host v h @ ''/disk.'' @ num_string 10 i = hostname h @ '':'' @ disk_path d i"
  by (simp add: same_machine_def at_host_def disk_path_def)

text \<open>A command of the prolog for a disk ends with its place on the host, and perhaps its size.\<close>

lemma prolog_disk_place:
  assumes "fst (prolog_disk env v h i disk)" "snd (prolog_disk env v h i disk) \<noteq> []"
  shows "\<exists>cmd size. snd (prolog_disk env v h i disk) = cmd @ '' '' @ (at_host v h @ ''/disk.'' @ num_string 10 i) @ size @ endl \<and>
    size \<in> {[], '' '' @ vector_value disk ''SIZE''}"
proof -
  define p where "p = at_host v h @ ''/disk.'' @ num_string 10 i"
  define sz where "sz = vector_value disk ''SIZE''"
  define c where "c = (let source = vector_value disk ''SOURCE'' in clone_word disk @
      (if CHR '':'' \<in> set source then source else at_front env source))"
  have "snd (prolog_disk env v h i disk) \<in> {(''MKSWAP '' @ sz) @ '' '' @ p @ [] @ endl,
      (''MKIMAGE '' @ sz @ '' '' @ vector_value disk ''FORMAT'') @ '' '' @ p @ [] @ endl,
      c @ '' '' @ p @ [] @ endl, c @ '' '' @ p @ ('' '' @ sz) @ endl}"
    using assms by (auto simp: prolog_disk_def Let_def p_def sz_def c_def split: if_splits)
  then show ?thesis unfolding p_def [symmetric] sz_def [symmetric] by blast
qed

lemma prolog_disk_at:
  assumes "same_machine d v h" "fst (prolog_disk env v h i disk)"
  shows "snd (prolog_disk env v h i disk) = [] \<or> (\<exists>cmd size. snd (prolog_disk env v h i disk) =
    cmd @ '' '' @ hostname h @ '':'' @ disk_path d i @ size @ endl \<and> size \<in> {[], '' '' @ vector_value disk ''SIZE''})"
  using prolog_disk_place [OF assms(2)] same_machine_path [OF assms(1), of i] by (metis append_assoc)

text \<open>The file or device that is the source of a disk.\<close>

definition source_of :: "xml \<Rightarrow> string" where
  "source_of x = (case x of Node _ _ (Node _ [(_, path)] _ # _) \<Rightarrow> path | _ \<Rightarrow> [])"

definition is_vector :: "attr \<Rightarrow> bool" where
  "is_vector a = (case a of Vector _ \<Rightarrow> True | Single _ \<Rightarrow> False)"

lemma source_of_disk [simp]:
  "source_of (kvm_disk_node v dd dc n m) = (if attached m then attr_value ''SOURCE_DM'' m else disk_path v n)"
  by (simp add: source_of_def kvm_disk_node_def source_node_def attached_def)

text \<open>What a reader of XML finds in the section of the disks of a file: an element for each disk of the template, and
  perhaps one for the context.\<close>

definition disks_read :: "tmpl \<Rightarrow> deployable \<Rightarrow> xml list \<Rightarrow> xml list \<Rightarrow> bool" where
  "disks_read conf d ds context \<longleftrightarrow> length ds = length (filter is_vector (all_of ''DISK'' d)) \<and>
     (\<exists>s. kvm_disk_section conf d = Writes s \<and> parse_xml s = Some (ds @ context))"

lemma length_nodes_from: "length (nodes_from f n ds) = length (filter is_vector ds)"
  by (induction f n ds rule: nodes_from.induct) (auto simp: is_vector_def)

lemma kvm_nodes_proper: "x \<in> set (kvm_disk_nodes v dd dc ds) \<Longrightarrow> proper x"
  by (auto simp: kvm_disk_nodes_from kvm_disk_proper dest!: set_nodes_from)

lemma kvm_context_proper: "x \<in> set (kvm_context_nodes v dd n) \<Longrightarrow> proper x"
  by (auto simp: kvm_context_nodes_def context_proper split: list.splits attr.splits)

lemma disks_read_nodes:
  assumes "safe_deployable conf d" "targets_given (all_of ''DISK'' d)" "context_is_vector d"
  shows "disks_read conf d ds context \<longleftrightarrow> ds = kvm_disk_nodes d (disk_driver conf) (disk_cache conf) (all_of ''DISK'' d) \<and>
    context = kvm_context_nodes d (disk_driver conf) (disk_number (all_of ''DISK'' d))"
proof -
  let ?ds = "kvm_disk_nodes d (disk_driver conf) (disk_cache conf) (all_of ''DISK'' d)"
  let ?c = "kvm_context_nodes d (disk_driver conf) (disk_number (all_of ''DISK'' d))"
  obtain s where s: "kvm_disk_section conf d = Writes s" using kvm_disk_section_written assms(2,3) by blast
  have "parse_xml s = Some (?ds @ ?c)"
    by (rule spells_parse [OF kvm_disk_section_spells [OF assms(1) s]]) (auto dest: kvm_nodes_proper kvm_context_proper)
  moreover have "length ?ds = length (filter is_vector (all_of ''DISK'' d))" by (simp add: kvm_disk_nodes_from length_nodes_from)
  ultimately show ?thesis using s by (auto simp: disks_read_def)
qed

text \<open>The sources as the template gives them: a disk is numbered by the disks before it that are no attached ones.\<close>

definition disk_sources :: "deployable \<Rightarrow> attr list \<Rightarrow> string list" where
  "disk_sources d ds = concat (map (\<lambda>i. case ds ! i of Single _ \<Rightarrow> []
     | Vector m \<Rightarrow> [if attached m then attr_value ''SOURCE_DM'' m else disk_path d (disk_number (take i ds))]) [0 ..< length ds])"

lemma sources_from:
  "map source_of (nodes_from (kvm_disk_node d dd dc) n ds) =
    nodes_from (\<lambda>n m. if attached m then attr_value ''SOURCE_DM'' m else disk_path d n) n ds"
  by (induction "kvm_disk_node d dd dc" n ds rule: nodes_from.induct) auto

lemma sources_read: "map source_of (kvm_disk_nodes d dd dc ds) = disk_sources d ds"
  unfolding kvm_disk_nodes_from sources_from unfolding nodes_from_comprehension add_0 disk_sources_def ..

lemma disk_number_none: "\<forall>a \<in> set ds. \<not> attached_attr a \<Longrightarrow> disk_number (take i ds) = min i (length ds)"
  by (induction ds arbitrary: i) (auto simp: take_Cons split: nat.splits)

lemma concat_singletons: "concat (map (\<lambda>i. if P i then [f i] else []) xs) = map f (filter P xs)"
  by (induction xs) auto

lemma sources_in_order:
  assumes "\<forall>a \<in> set ds. \<not> attached_attr a"
  shows "disk_sources d ds = map (disk_path d) (filter (\<lambda>i. is_vector (ds ! i)) [0 ..< length ds])"
proof -
  have "(case ds ! i of Single _ \<Rightarrow> [] | Vector m \<Rightarrow> [if attached m then attr_value ''SOURCE_DM'' m else disk_path d (disk_number (take i ds))]) =
      (if is_vector (ds ! i) then [disk_path d i] else [])" if "i < length ds" for i
    using assms that nth_mem [of i ds]
    by (cases "ds ! i") (force simp: is_vector_def disk_number_none)+
  then have "disk_sources d ds = concat (map (\<lambda>i. if is_vector (ds ! i) then [disk_path d i] else []) [0 ..< length ds])"
    unfolding disk_sources_def by (intro arg_cong [of _ _ concat] map_cong) auto
  then show ?thesis by (simp add: concat_singletons)
qed

text \<open>The context is the disk after the last.\<close>

lemma context_source: "x \<in> set (kvm_context_nodes d dd n) \<Longrightarrow> source_of x = disk_path d n"
  by (auto simp: kvm_context_nodes_def context_node_def source_of_def Let_def split: list.splits attr.splits)

text \<open>C39. A machine boots from the disks that its prolog made: as long as no disk was attached to it, the sources that a reader
  of its KVM file finds in the section of the disks are \<open>disk.i\<close> in its directory, by the position of the disk in the
  template, which is the place on the host that the command of the prolog for that disk ends with; the source of the context is
  the number after the last.  The values hold no quote, angle bracket or ampersand.\<close>

theorem disks_are_from_prolog:
  assumes "same_machine d v h" "\<forall>a \<in> set (all_of ''DISK'' d). \<not> attached_attr a"
    "safe_deployable conf d" "targets_given (all_of ''DISK'' d)" "context_is_vector d"
    "prolog_disks env v h 0 (disks v) = (True, text)"
  shows "(\<exists>ds context. disks_read conf d ds context \<and>
      map source_of ds = map (disk_path d) (filter (\<lambda>i. is_vector (all_of ''DISK'' d ! i)) [0 ..< length (disks v)]) \<and>
      (\<forall>x \<in> set context. source_of x = disk_path d (length (disks v)))) \<and>
    (\<exists>cmds. text = concat cmds \<and> length cmds = length (disks v) \<and> (\<forall>i < length (disks v). cmds ! i = [] \<or>
      (\<exists>cmd size. cmds ! i = cmd @ '' '' @ hostname h @ '':'' @ disk_path d i @ size @ endl \<and>
        (size = [] \<or> size = '' '' @ vector_value (the (disks v ! i)) ''SIZE''))))"
proof -
  let ?cmds = "map (\<lambda>i. disk_command env v h i (disks v ! i)) [0 ..< length (disks v)]"
  have ok: "fst (prolog_disks env v h 0 (disks v))" using assms(6) by simp
  have "?cmds ! i = [] \<or> (\<exists>cmd size. ?cmds ! i = cmd @ '' '' @ hostname h @ '':'' @ disk_path d i @ size @ endl \<and>
      (size = [] \<or> size = '' '' @ vector_value (the (disks v ! i)) ''SIZE''))" if i: "i < length (disks v)" for i
  proof (cases "disks v ! i")
    case None
    then show ?thesis using i by simp
  next
    case (Some disk)
    then have "disk_usable disk" using ok i nth_mem [OF i] by (auto simp: prolog_disks_usable)
    then show ?thesis using prolog_disk_at [OF assms(1), of env i disk] i Some by (auto simp: prolog_disk_usable)
  qed
  moreover have "text = concat ?cmds" using prolog_disks_text [OF ok] assms(6) by simp
  moreover have "length (disks v) = length (all_of ''DISK'' d)" using assms(1) by (simp add: same_machine_def)
  moreover have "disk_number (all_of ''DISK'' d) = length (all_of ''DISK'' d)"
    using disk_number_none [OF assms(2), of "length (all_of ''DISK'' d)"] by simp
  ultimately show ?thesis
    by (intro conjI exI [of _ ?cmds] exI [of _ "kvm_disk_nodes d (disk_driver conf) (disk_cache conf) (all_of ''DISK'' d)"]
        exI [of _ "kvm_context_nodes d (disk_driver conf) (disk_number (all_of ''DISK'' d))"])
      (simp_all add: disks_read_nodes [OF assms(3-5)] sources_read sources_in_order [OF assms(2)] context_source)
qed

text \<open>A machine at host \<open>node1\<close> with a disk, an attribute DISK that is no vector, and a CD.\<close>

definition os_disk :: vector_map where
  "os_disk = [(''SOURCE'', ''/images/os''), (''TARGET'', ''hda'')]"

definition cd_disk :: vector_map where
  "cd_disk = [(''READONLY'', ''yes''), (''SOURCE'', ''/images/cd''), (''TARGET'', ''hdc''), (''TYPE'', ''CDROM'')]"

definition sdb_disk :: vector_map where
  "sdb_disk = [(''SOURCE_DM'', ''/dev/sdb''), (''TARGET'', ''vdb''), (''TYPE'', ''BLOCK'')]"

definition sample_template :: "attr list \<Rightarrow> tmpl" where
  "sample_template ds = \<lparr>attributes = map (Pair ''DISK'') ds @ [(''MEMORY'', Single ''512''),
       (''OS'', Vector [(''ARCH'', ''x86_64''), (''BOOT'', ''hd'')])],
     replace_mode = False, separator = CHR ''='', xml_root = ''TEMPLATE''\<rparr>"

definition no_defaults :: tmpl where
  "no_defaults = \<lparr>attributes = [], replace_mode = False, separator = CHR ''='', xml_root = ''VMM''\<rparr>"

definition sample_deployable :: "attr list \<Rightarrow> deployable" where
  "sample_deployable ds = \<lparr>dv_oid = 7, dv_template = sample_template ds,
     dv_remote_dir = get_remote_dir (vm_at RUNNING []) record_a, dv_vnm_mad = ''dummy''\<rparr>"

definition sample_machine :: "attr list \<Rightarrow> vm" where
  "sample_machine ds = (vm_at RUNNING [record_a])\<lparr>disks := map vattr_of ds\<rparr>"

lemma sample_disks [simp]: "all_of ''DISK'' (sample_deployable ds) = ds"
  by (induction ds) (simp_all add: all_of_def tmpl_get_def attr_range_def sample_deployable_def sample_template_def)

lemma sample_same: "same_machine (sample_deployable ds) (sample_machine ds) record_a"
proof -
  have "dv_oid (sample_deployable ds) = 7" "dv_remote_dir (sample_deployable ds) = get_remote_dir (vm_at RUNNING []) record_a"
    by (simp_all add: sample_deployable_def)
  then show ?thesis by (simp add: same_machine_def sample_machine_def vm_at_def get_remote_dir_def)
qed

definition sample_env :: mad_env where
  "sample_env = \<lparr>loaded = (\<lambda>_. True), can_open = (\<lambda>_. True), nebula_host = ''front''\<rparr>"

definition no_io :: io where
  "no_io = \<lparr>files = Map.empty, piped = [], commands = []\<rparr>"

lemma not_attached: "\<not> attached os_disk" "\<not> attached cd_disk"
  by (simp_all add: attached_def os_disk_def cd_disk_def attr_value_def)

subsection \<open>The files of the sample\<close>

lemma sample_safe:
  "safe_deployable no_defaults (sample_deployable [Vector os_disk])"
  "safe_deployable no_defaults (sample_deployable [Vector os_disk, Vector cd_disk])"
  "safe_deployable no_defaults (sample_deployable [Vector os_disk, Single ''x'', Vector cd_disk])"
  "safe_deployable no_defaults (sample_deployable [Vector os_disk, Vector sdb_disk])"
  by (simp_all add: safe_deployable_def safe_template_def no_defaults_def sample_deployable_def sample_template_def os_disk_def cd_disk_def sdb_disk_def
      get_remote_dir_def record_a_def new_history_def vm_at_def safe_rules literal_simps)

lemma sample_values:
  "all_of ''CONTEXT'' (sample_deployable ds) = []" "all_of ''RAW'' (sample_deployable ds) = []"
  "single_value no_defaults (sample_deployable ds) ''MEMORY'' = ''512''"
  "vector_default no_defaults (sample_deployable ds) ''OS'' ''ARCH'' = ''x86_64''"
  "vector_default no_defaults (sample_deployable ds) ''OS'' ''BOOT'' = ''hd''"
proof -
  have f: "attr_range n (map (Pair ''DISK'') ds @ as) = (if n = ''DISK'' then ds else []) @ attr_range n as" for n as
    by (induction ds) (auto simp: attr_range_def)
  show "all_of ''CONTEXT'' (sample_deployable ds) = []" "all_of ''RAW'' (sample_deployable ds) = []"
    "single_value no_defaults (sample_deployable ds) ''MEMORY'' = ''512''"
    "vector_default no_defaults (sample_deployable ds) ''OS'' ''ARCH'' = ''x86_64''"
    "vector_default no_defaults (sample_deployable ds) ''OS'' ''BOOT'' = ''hd''"
    by (simp_all add: all_of_def tmpl_get_def sample_deployable_def sample_template_def f single_value_def or_default_def
        tmpl_get_string_def vector_default_def first_of_def) (simp_all add: attr_range_def attr_value_def)
qed

lemma sample_complete:
  assumes "targets_given ds"
  shows "kvm_complete no_defaults (sample_deployable ds)" "vmware_complete no_defaults (sample_deployable ds)"
    "context_is_vector (sample_deployable ds)"
  using assms by (simp_all add: kvm_complete_def vmware_complete_def context_is_vector_def sample_values)

lemma sample_targets: "targets_given [Vector os_disk]" "targets_given [Vector os_disk, Vector cd_disk]"
  "targets_given [Vector os_disk, Single ''x'', Vector cd_disk]"
  by (simp_all add: targets_given_def os_disk_def cd_disk_def attr_value_def)

lemma sample_fits: "memory_fits no_defaults (sample_deployable ds)"
  unfolding memory_fits_def sample_values by code_simp

theorem disks_are_from_prolog_witness:
  "\<exists>text ds. prolog_disks sample_env (sample_machine [Vector os_disk, Single ''x'', Vector cd_disk]) record_a 0
      (disks (sample_machine [Vector os_disk, Single ''x'', Vector cd_disk])) = (True, text) \<and>
    disks_read no_defaults (sample_deployable [Vector os_disk, Single ''x'', Vector cd_disk]) ds [] \<and>
    map source_of ds = map (disk_path (sample_deployable [Vector os_disk, Single ''x'', Vector cd_disk])) [0, 2]"
proof -
  let ?ds = "[Vector os_disk, Single ''x'', Vector cd_disk]"
  let ?p = "prolog_disks sample_env (sample_machine ?ds) record_a 0 (disks (sample_machine ?ds))"
  have "fst ?p"
    by (auto simp: prolog_disks_usable sample_machine_def vattr_of_def disk_usable_def os_disk_def cd_disk_def attr_value_def
        simp del: prolog_disks.simps)
  then obtain t where t: "?p = (True, t)" by (cases ?p) simp
  have n: "\<forall>a \<in> set (all_of ''DISK'' (sample_deployable ?ds)). \<not> attached_attr a" by (simp add: not_attached)
  have g: "targets_given (all_of ''DISK'' (sample_deployable ?ds))" "context_is_vector (sample_deployable ?ds)"
    using sample_targets by (simp_all add: sample_complete)
  have "disks_read no_defaults (sample_deployable ?ds) ds c \<longleftrightarrow> ds = kvm_disk_nodes (sample_deployable ?ds) (disk_driver no_defaults)
      (disk_cache no_defaults) ?ds \<and> c = []" for ds c
    unfolding disks_read_nodes [OF sample_safe(3) g] by (simp add: kvm_context_nodes_def sample_values)
  then show ?thesis
    using disks_are_from_prolog [OF sample_same n sample_safe(3) g t] t
    by (simp add: sample_machine_def is_vector_def upt_rec numeral_2_eq_2 del: prolog_disks.simps)
qed

subsection \<open>An attached disk\<close>







theorem kvm_file_is_domain_witness:
  "\<exists>s. libvirt_deployment_description sample_env ''kvm'' no_defaults (sample_deployable [Vector os_disk, Vector cd_disk])
      ''deployment.0'' no_io = Done (0, write_file ''deployment.0'' s no_io) \<and>
    parse_xml s = Some [kvm_domain no_defaults (sample_deployable [Vector os_disk, Vector cd_disk]) []]"
  by (rule kvm_file_is_domain [OF _ sample_complete(1) sample_complete(3) sample_safe(2) sample_fits])
    (simp_all add: sample_env_def sample_targets sample_values)

theorem vmware_file_is_read_witness:
  "(\<exists>s. libvirt_deployment_description sample_env ''vmware'' no_defaults (sample_deployable [Vector os_disk])
      ''deployment.0'' no_io = Done (0, write_file ''deployment.0'' s no_io) \<and>
    parse_xml s = Some [vmware_domain no_defaults (sample_deployable [Vector os_disk]) []]) \<and>
   (\<exists>s. libvirt_deployment_description sample_env ''vmware'' no_defaults (sample_deployable [Vector os_disk, Vector cd_disk])
      ''deployment.0'' no_io = Done (0, write_file ''deployment.0'' s no_io) \<and> parse_xml s = None)"
proof -
  have u: "unquoted cd_disk" "\<not> unquoted os_disk"
    by (simp_all add: unquoted_def cd_disk_def os_disk_def attr_value_def) code_simp+
  show ?thesis
    using vmware_file_is_read [OF _ sample_complete(2) sample_complete(3) sample_safe(1) sample_fits, of sample_env "''deployment.0''" "[]" no_io]
      vmware_file_is_read [OF _ sample_complete(2) sample_complete(3) sample_safe(2) sample_fits, of sample_env "''deployment.0''" "[]" no_io]
    by (simp add: sample_env_def sample_targets sample_values any_unquoted_def u)
qed

end
