(* ===== verification/PoolSQL.thy ===== *)
theory PoolSQL
  imports StdMap IoStream "HOL-Library.List_Lexorder" "HOL-Library.Char_ord"
begin

text \<open>
  src/pool/PoolSQL.cc and src/pool/PoolObjectSQL.cc: the cache of pool objects in front of a database table.

  Objects live on a heap and are shared: the map \<open>pool\<close> (by identifier) and the index \<open>name_pool\<close> (by the
  key of name and owner) hold pointers to them.  \<open>oid_queue\<close> is the order of replacement.  \<open>rows\<close> is the table,
  with the statements SELECT, INSERT, REPLACE and DELETE that the sources send, and with the constraint that the
  table declares besides the primary key.

  Every operation here holds the mutex of the pool.  While it waits for the mutex of an object, the threads that hold
  objects go on; what they do until they release it is the argument \<open>w\<close> (for "while waiting").
  \<open>Blocked\<close> is a wait for a mutex that \<open>w\<close> does not release, \<open>Segv\<close> the use of a freed object or of the front of an
  empty queue.
\<close>

subsection \<open>Objects, rows and pools\<close>

type_synonym ptr = nat

record 'a row =
  r_oid :: int
  r_name :: string
  r_uid :: int
  r_body :: 'a

record 'a pool_obj =
  oid :: int
  name :: string
  uid :: int
  contents :: 'a
  valid :: bool
  locked :: bool

record 'a pool_sql =
  pool :: "(int, ptr) stdmap"
  name_pool :: "(string, ptr) stdmap"
  heap :: "ptr \<Rightarrow> 'a pool_obj option"
  fresh :: ptr
  oid_queue :: "int list"
  lastOID :: int
  rows :: "'a row list"

text \<open>
  The kinds of table: hosts, users and groups are unique by name, images and networks by name and owner, and
  machines and templates are not constrained.  The index key is the name alone for the first kind.
\<close>

datatype table_kind = Unique_name | Unique_name_uid | Not_unique

definition key_name_uid :: "string \<Rightarrow> int \<Rightarrow> string" where
  "key_name_uid n u = n @ CHR '':'' # int_string u"

definition key_name :: "string \<Rightarrow> int \<Rightarrow> string" where
  "key_name n u = n"

definition pool_key :: "table_kind \<Rightarrow> string \<Rightarrow> int \<Rightarrow> string" where
  "pool_key k = (case k of Unique_name \<Rightarrow> key_name | _ \<Rightarrow> key_name_uid)"

definition table_unique :: "table_kind \<Rightarrow> string \<times> int \<Rightarrow> string \<times> int \<Rightarrow> bool" where
  "table_unique k a b = (case k of Unique_name \<Rightarrow> fst a = fst b | Unique_name_uid \<Rightarrow> a = b | Not_unique \<Rightarrow> False)"

text \<open>The owner with which the pools of each kind look a name up: \<open>-1\<close> where the name is enough.\<close>

definition lookup_uid :: "table_kind \<Rightarrow> int \<Rightarrow> bool" where
  "lookup_uid k u = (if k = Unique_name then u = - 1 else u \<noteq> - 1)"

subsection \<open>The table\<close>

abbreviation name_uid :: "'a row \<Rightarrow> string \<times> int" where
  "name_uid r \<equiv> (r_name r, r_uid r)"

definition select_oid :: "int \<Rightarrow> 'a row list \<Rightarrow> 'a row option" where
  "select_oid i rs = find (\<lambda>r. r_oid r = i) rs"

text \<open>The callback overwrites the object with each row that is found: the last one stays.\<close>

definition select_name :: "string \<Rightarrow> int \<Rightarrow> 'a row list \<Rightarrow> 'a row option" where
  "select_name n u rs = find (\<lambda>r. r_name r = n \<and> (u \<noteq> - 1 \<longrightarrow> r_uid r = u)) (rev rs)"

definition sql_insert :: "(string \<times> int \<Rightarrow> string \<times> int \<Rightarrow> bool) \<Rightarrow> 'a row \<Rightarrow> 'a row list \<Rightarrow> 'a row list option" where
  "sql_insert uniq r rs =
     (if \<exists>r' \<in> set rs. r_oid r' = r_oid r \<or> uniq (name_uid r') (name_uid r) then None else Some (rs @ [r]))"

text \<open>REPLACE deletes every row that violates a constraint with the new one.\<close>

definition sql_replace :: "(string \<times> int \<Rightarrow> string \<times> int \<Rightarrow> bool) \<Rightarrow> 'a row \<Rightarrow> 'a row list \<Rightarrow> 'a row list" where
  "sql_replace uniq r rs = filter (\<lambda>r'. r_oid r' \<noteq> r_oid r \<and> \<not> uniq (name_uid r') (name_uid r)) rs @ [r]"

definition sql_delete :: "int \<Rightarrow> 'a row list \<Rightarrow> 'a row list" where
  "sql_delete i rs = filter (\<lambda>r. r_oid r \<noteq> i) rs"

definition obj_row :: "'a pool_obj \<Rightarrow> 'a row" where
  "obj_row ob = \<lparr>r_oid = oid ob, r_name = name ob, r_uid = uid ob, r_body = contents ob\<rparr>"

definition row_obj :: "'a row \<Rightarrow> bool \<Rightarrow> 'a pool_obj" where
  "row_obj r l = \<lparr>oid = r_oid r, name = r_name r, uid = r_uid r, contents = r_body r, valid = True, locked = l\<rparr>"

subsection \<open>Operations on an object that its caller holds\<close>

definition set_obj :: "ptr \<Rightarrow> ('a pool_obj \<Rightarrow> 'a pool_obj) \<Rightarrow> 'a pool_sql \<Rightarrow> 'a pool_sql" where
  "set_obj p f s = s\<lparr>heap := (heap s)(p := map_option f (heap s p))\<rparr>"

definition obj_unlock :: "ptr \<Rightarrow> 'a pool_sql \<Rightarrow> 'a pool_sql" where
  "obj_unlock p = set_obj p (locked_update (\<lambda>_. False))"

definition obj_update :: "(string \<times> int \<Rightarrow> string \<times> int \<Rightarrow> bool) \<Rightarrow> ptr \<Rightarrow> 'a pool_sql \<Rightarrow> 'a pool_sql" where
  "obj_update uniq p s = (case heap s p of None \<Rightarrow> s
     | Some ob \<Rightarrow> s\<lparr>rows := sql_replace uniq (obj_row ob) (rows s)\<rparr>)"

definition obj_drop :: "bool \<Rightarrow> ptr \<Rightarrow> 'a pool_sql \<Rightarrow> int \<times> 'a pool_sql" where
  "obj_drop db_ok p s = (case heap s p of None \<Rightarrow> (- 1, s)
     | Some ob \<Rightarrow> if db_ok then (0, set_obj p (valid_update (\<lambda>_. False)) (s\<lparr>rows := sql_delete (oid ob) (rows s)\<rparr>))
                  else (- 1, s))"

text \<open>\<open>lock\<close> of an object, with the pool's mutex held.\<close>

definition obj_lock :: "('a pool_sql \<Rightarrow> 'a pool_sql) \<Rightarrow> ptr \<Rightarrow> 'a pool_sql \<Rightarrow> 'a pool_sql res" where
  "obj_lock w p s = (case heap s p of None \<Rightarrow> Segv
     | Some ob \<Rightarrow>
         let s1 = (if locked ob then w s else s) in
         (case heap s1 p of None \<Rightarrow> Segv
          | Some ob1 \<Rightarrow> if locked ob1 then Blocked else Done (set_obj p (locked_update (\<lambda>_. True)) s1)))"

subsection \<open>Operations on the pool\<close>

definition INT_MAX :: int where
  "INT_MAX = 2147483647"

definition max_pool_size :: nat where
  "max_pool_size = 15000"

definition pool_allocate ::
  "(string \<times> int \<Rightarrow> string \<times> int \<Rightarrow> bool) \<Rightarrow> bool \<Rightarrow> string \<Rightarrow> int \<Rightarrow> 'a \<Rightarrow> 'a pool_sql \<Rightarrow> int \<times> 'a pool_sql" where
  "pool_allocate uniq ok n u b s =
     (let i = (if lastOID s = INT_MAX then - 1 else lastOID s) + 1;
          r = \<lparr>r_oid = i, r_name = n, r_uid = u, r_body = b\<rparr>
      in case (if ok then sql_insert uniq r (rows s) else None) of
           None \<Rightarrow> (- 1, s\<lparr>lastOID := i - 1\<rparr>)
         | Some rs \<Rightarrow> (i, s\<lparr>lastOID := i, rows := rs\<rparr>))"

text \<open>
  \<open>replace\<close>: the loop goes round the queue until it meets an object whose mutex is free.  \<open>None\<close> is a loop that
  never ends.
\<close>

partial_function (option) pool_replace ::
  "(string \<Rightarrow> int \<Rightarrow> string) \<Rightarrow> 'a pool_sql \<Rightarrow> 'a pool_sql res option" where
  "pool_replace key s = (case oid_queue s of [] \<Rightarrow> Some Segv
     | i # q \<Rightarrow>
         (case mfind (pool s) i of None \<Rightarrow> pool_replace key (s\<lparr>oid_queue := q\<rparr>)
          | Some p \<Rightarrow>
              (case heap s p of None \<Rightarrow> Some Segv
               | Some ob \<Rightarrow>
                   if locked ob then pool_replace key (s\<lparr>oid_queue := q @ [i]\<rparr>)
                   else Some (Done (s\<lparr>pool := merase i (pool s),
                                      name_pool := merase (key (name ob) (uid ob)) (name_pool s),
                                      heap := (heap s)(p := None), oid_queue := q\<rparr>)))))"

text \<open>The end of both \<open>get\<close>s: the object just loaded enters the cache.\<close>

definition cache_insert ::
  "(string \<Rightarrow> int \<Rightarrow> string) \<Rightarrow> 'a row \<Rightarrow> bool \<Rightarrow> 'a pool_sql \<Rightarrow> (ptr option \<times> 'a pool_sql) res" where
  "cache_insert key r olock s =
     (let p = fresh s;
          s1 = s\<lparr>heap := (heap s)(p := Some (row_obj r olock)), fresh := Suc p,
                 pool := minsert (r_oid r) p (pool s),
                 name_pool := minsert (key (r_name r) (r_uid r)) p (name_pool s),
                 oid_queue := oid_queue s @ [r_oid r]\<rparr>
      in if length (pool s1) > max_pool_size
         then (case pool_replace key s1 of None \<Rightarrow> Blocked | Some o1 \<Rightarrow> bind_res o1 (\<lambda>s2. Done (Some p, s2)))
         else Done (Some p, s1))"

text \<open>The object that a new one replaces: it is locked, taken out of both maps and deleted.\<close>

definition evict ::
  "('a pool_sql \<Rightarrow> 'a pool_sql) \<Rightarrow> ('a pool_obj \<Rightarrow> string) \<Rightarrow> ptr \<Rightarrow> 'a pool_sql \<Rightarrow> 'a pool_sql res" where
  "evict w okey p s = bind_res (obj_lock w p s) (\<lambda>s1.
     case heap s1 p of None \<Rightarrow> Segv
     | Some ob \<Rightarrow> Done (s1\<lparr>name_pool := merase (okey ob) (name_pool s1), pool := merase (oid ob) (pool s1),
                          heap := (heap s1)(p := None)\<rparr>))"

definition is_valid :: "ptr \<Rightarrow> 'a pool_sql \<Rightarrow> bool" where
  "is_valid p s = (case heap s p of None \<Rightarrow> False | Some ob \<Rightarrow> valid ob)"

definition get_oid ::
  "(string \<Rightarrow> int \<Rightarrow> string) \<Rightarrow> ('a pool_sql \<Rightarrow> 'a pool_sql) \<Rightarrow> int \<Rightarrow> bool \<Rightarrow> 'a pool_sql \<Rightarrow> (ptr option \<times> 'a pool_sql) res" where
  "get_oid key w i olock s = (case mfind (pool s) i of
     Some p \<Rightarrow>
       if heap s p = None then Segv
       else if \<not> is_valid p s then Done (None, s)
       else if olock then bind_res (obj_lock w p s) (\<lambda>s1. Done (if is_valid p s1 then Some p else None, s1))
       else Done (Some p, s)
   | None \<Rightarrow>
       (case select_oid i (rows s) of None \<Rightarrow> Done (None, s)
        | Some r \<Rightarrow>
            let okey = key (r_name r) (r_uid r) in
            bind_res (case mfind (name_pool s) okey of None \<Rightarrow> Done s | Some p \<Rightarrow> evict w (\<lambda>_. okey) p s)
                     (cache_insert key r olock)))"

definition get_name ::
  "(string \<Rightarrow> int \<Rightarrow> string) \<Rightarrow> ('a pool_sql \<Rightarrow> 'a pool_sql) \<Rightarrow> string \<Rightarrow> int \<Rightarrow> bool \<Rightarrow> 'a pool_sql \<Rightarrow> (ptr option \<times> 'a pool_sql) res" where
  "get_name key w n u olock s =
     (let load = (\<lambda>old. case select_name n u (rows s) of None \<Rightarrow> Done (None, s)
                   | Some r \<Rightarrow>
                       bind_res (case old of None \<Rightarrow> Done s
                                 | Some p \<Rightarrow> evict w (\<lambda>ob. key (name ob) (uid ob)) p s)
                                (cache_insert key r olock))
      in case mfind (name_pool s) (key n u) of
           None \<Rightarrow> load None
         | Some p \<Rightarrow>
             if heap s p = None then Segv
             else if \<not> is_valid p s then load (Some p)
             else if olock then bind_res (obj_lock w p s) (\<lambda>s1.
                 if is_valid p s1 then Done (Some p, s1) else Done (None, obj_unlock p s1))
             else Done (Some p, s))"

text \<open>
  \<open>update_cache_index\<close> reads the value of the index entry through an iterator that \<open>erase\<close> has just invalidated;
  \<open>freed\<close> is what that read of the freed node returns.
\<close>

definition update_cache_index ::
  "(string \<Rightarrow> int \<Rightarrow> string) \<Rightarrow> (ptr \<Rightarrow> ptr) \<Rightarrow> string \<Rightarrow> int \<Rightarrow> string \<Rightarrow> int \<Rightarrow> 'a pool_sql \<Rightarrow> 'a pool_sql" where
  "update_cache_index key freed old_name old_uid new_name new_uid s =
     (case mfind (name_pool s) (key old_name old_uid) of None \<Rightarrow> s
      | Some p \<Rightarrow>
          let np = merase (key old_name old_uid) (name_pool s) in
          s\<lparr>name_pool := (if mfind np (key new_name new_uid) = None
                           then minsert (key new_name new_uid) (freed p) np else np)\<rparr>)"

text \<open>
  RequestManagerChown, the part that changes a locked object: it gets the new owner, its row is replaced and it is
  unlocked.  The index is updated after that.  The group of an object is in none of the keys and is not modelled here.
\<close>

definition chown_object :: "(string \<times> int \<Rightarrow> string \<times> int \<Rightarrow> bool) \<Rightarrow> int \<Rightarrow> ptr \<Rightarrow> 'a pool_sql \<Rightarrow> 'a pool_sql" where
  "chown_object uniq noid p s = obj_unlock p (obj_update uniq p (set_obj p (uid_update (\<lambda>_. noid)) s))"

definition chown ::
  "(string \<Rightarrow> int \<Rightarrow> string) \<Rightarrow> (string \<times> int \<Rightarrow> string \<times> int \<Rightarrow> bool) \<Rightarrow> (ptr \<Rightarrow> ptr) \<Rightarrow> int \<Rightarrow> ptr \<Rightarrow>
   'a pool_sql \<Rightarrow> 'a pool_sql" where
  "chown key uniq freed noid p s = (case heap s p of None \<Rightarrow> s
     | Some ob \<Rightarrow> update_cache_index key freed (name ob) (uid ob) (name ob) noid (chown_object uniq noid p s))"

text \<open>\<open>clean\<close> and the destructor: every object is locked and deleted; \<open>clean\<close> empties the maps as well.\<close>

fun delete_objects :: "('a pool_sql \<Rightarrow> 'a pool_sql) \<Rightarrow> (int \<times> ptr) list \<Rightarrow> 'a pool_sql \<Rightarrow> 'a pool_sql res" where
  "delete_objects w [] s = Done s"
| "delete_objects w (ip # ips) s = bind_res (obj_lock w (snd ip) s)
     (\<lambda>s1. delete_objects w ips (s1\<lparr>heap := (heap s1)(snd ip := None)\<rparr>))"

definition pool_clean :: "('a pool_sql \<Rightarrow> 'a pool_sql) \<Rightarrow> 'a pool_sql \<Rightarrow> 'a pool_sql res" where
  "pool_clean w s = bind_res (delete_objects w (pool s) s) (\<lambda>s1. Done (s1\<lparr>pool := [], name_pool := []\<rparr>))"

text \<open>The counters of backups and of disk backups: read from the greatest identifier in the table (none in an empty
  one), and stepped for each backup.\<close>

definition init_counter :: "int option \<Rightarrow> int" where
  "init_counter greatest = (case greatest of None \<Rightarrow> - 1 | Some n \<Rightarrow> if n = INT_MAX then - 1 else n)"

definition next_counter :: "int \<Rightarrow> int" where
  "next_counter n = (if n = INT_MAX then - 1 else n) + 1"

text \<open>The pool when the daemon starts: nothing is cached, the last identifier is read from the table.\<close>

definition new_pool :: "int \<Rightarrow> 'a row list \<Rightarrow> 'a pool_sql" where
  "new_pool i rs = \<lparr>pool = [], name_pool = [], heap = (\<lambda>_. None), fresh = 0, oid_queue = [], lastOID = i, rows = rs\<rparr>"

end
