(* ===== verification/PoolCache.thy ===== *)
theory PoolCache
  imports PoolSQL
begin

text \<open>
  The cache of a pool mirrors its table: the invariant of all runs, what \<open>replace\<close> evicts and when it returns, and
  the changes of owner that the invariant excludes.
\<close>

subsection \<open>The keys\<close>

lemma int_string_no_colon: "CHR '':'' \<notin> set (int_string i)"
proof -
  have "CHR '':'' \<notin> set (num_string 10 k)" for k
    using num_string_digits [of 10 k] is_digit_not_special(5) by fastforce
  then show ?thesis by (simp add: int_string_def)
qed

lemma num_string_inj: "num_string 10 a = num_string 10 b \<Longrightarrow> a = b"
proof -
  have v: "digits_val 10 0 (num_string 10 k) = k" for k by (rule digits_val_num_string) simp_all
  assume "num_string 10 a = num_string 10 b"
  then show "a = b" using v by metis
qed

lemma num_string_no_minus: "num_string 10 a \<noteq> CHR ''-'' # r"
  using num_string_digits [of 10 a] is_digit_not_special(2) by fastforce

lemma int_string_inj: "int_string i = int_string j \<Longrightarrow> i = j"
proof (cases "i < 0"; cases "j < 0")
  assume a: "int_string i = int_string j" "i < 0" "j < 0"
  then have "nat (- i) = nat (- j)" by (auto simp: int_string_def dest: num_string_inj)
  then show "i = j" using a by simp
next
  assume a: "int_string i = int_string j" "\<not> i < 0" "\<not> j < 0"
  then have "nat i = nat j" by (auto simp: int_string_def dest: num_string_inj)
  then show "i = j" using a by simp
qed (auto simp: int_string_def num_string_no_minus dest: sym)

lemma split_last_inj:
  assumes "xs @ c # ys = xs' @ c # ys'" "c \<notin> set ys" "c \<notin> set ys'"
  shows "xs = xs' \<and> ys = ys'"
proof -
  have "rev ys @ c # rev xs = rev ys' @ c # rev xs'" using arg_cong [OF assms(1), of rev] by simp
  moreover have tw: "takeWhile (\<lambda>x. x \<noteq> c) (rev zs @ c # r) = rev zs"
    "dropWhile (\<lambda>x. x \<noteq> c) (rev zs @ c # r) = c # r" if "c \<notin> set zs" for zs r
    using that by (auto simp: takeWhile_tail dropWhile_append)
  ultimately have "rev ys = rev ys'" "c # rev xs = c # rev xs'"
    using tw [OF assms(2), of "rev xs"] tw [OF assms(3), of "rev xs'"] by simp_all
  then show ?thesis by simp
qed

lemma key_name_uid_inj: "key_name_uid n u = key_name_uid n' u' \<longleftrightarrow> n = n' \<and> u = u'"
  unfolding key_name_uid_def
  by (auto dest!: split_last_inj [OF _ int_string_no_colon int_string_no_colon] int_string_inj)

subsection \<open>The laws of a kind of pool\<close>

locale pool_kind =
  fixes key :: "string \<Rightarrow> int \<Rightarrow> string"
    and uniq :: "string \<times> int \<Rightarrow> string \<times> int \<Rightarrow> bool"
    and asked :: "int \<Rightarrow> bool"
  assumes key_asked: "asked u \<Longrightarrow> key n' u' = key n u \<longleftrightarrow> n' = n \<and> (u \<noteq> - 1 \<longrightarrow> u' = u)"
    and uniq_sym: "uniq a b \<Longrightarrow> uniq b a"

interpretation kinds: pool_kind "pool_key k" "table_unique k" "lookup_uid k" for k
proof
  show "lookup_uid k u \<Longrightarrow> (pool_key k n' u' = pool_key k n u) = (n' = n \<and> (u \<noteq> - 1 \<longrightarrow> u' = u))" for u n' u' n
    by (cases k) (auto simp: lookup_uid_def pool_key_def key_name_def key_name_uid_inj split: if_splits)
  show "table_unique k a b \<Longrightarrow> table_unique k b a" for a b
    by (cases k) (auto simp: table_unique_def)
qed

subsection \<open>The invariant\<close>

text \<open>The two maps and the heap hold the same objects, under their identifiers and keys, all of them queued.\<close>

definition cache_maps :: "(string \<Rightarrow> int \<Rightarrow> string) \<Rightarrow> 'a pool_sql \<Rightarrow> bool" where
  "cache_maps key s \<longleftrightarrow> map_ok (pool s) \<and> map_ok (name_pool s) \<and>
     (\<forall>i p. mfind (pool s) i = Some p \<longrightarrow> (\<exists>ob. heap s p = Some ob \<and> oid ob = i)) \<and>
     (\<forall>k p. mfind (name_pool s) k = Some p \<longrightarrow> (\<exists>ob. heap s p = Some ob \<and> key (name ob) (uid ob) = k)) \<and>
     (\<forall>p ob. heap s p = Some ob \<longrightarrow> mfind (pool s) (oid ob) = Some p \<and>
        mfind (name_pool s) (key (name ob) (uid ob)) = Some p \<and> oid ob \<in> set (oid_queue s) \<and> p < fresh s)"

text \<open>A valid object is its row, a dropped one has no row, and the table keeps its constraints.\<close>

definition cache_rows :: "(string \<times> int \<Rightarrow> string \<times> int \<Rightarrow> bool) \<Rightarrow> 'a pool_sql \<Rightarrow> bool" where
  "cache_rows uniq s \<longleftrightarrow> distinct (map r_oid (rows s)) \<and> (\<forall>r \<in> set (rows s). r_oid r \<le> lastOID s) \<and>
     (\<forall>r \<in> set (rows s). \<forall>r' \<in> set (rows s). r_oid r \<noteq> r_oid r' \<longrightarrow> \<not> uniq (name_uid r) (name_uid r')) \<and>
     (\<forall>p ob. heap s p = Some ob \<longrightarrow> oid ob \<le> lastOID s \<and>
        (if valid ob then obj_row ob \<in> set (rows s) else \<forall>r \<in> set (rows s). r_oid r \<noteq> oid ob))"

lemma cache_mapsD:
  assumes "cache_maps key s"
  shows "map_ok (pool s)" "map_ok (name_pool s)"
    "mfind (pool s) i = Some p \<Longrightarrow> \<exists>ob. heap s p = Some ob \<and> oid ob = i"
    "mfind (name_pool s) k = Some p \<Longrightarrow> \<exists>ob. heap s p = Some ob \<and> key (name ob) (uid ob) = k"
    "heap s p = Some ob \<Longrightarrow> mfind (pool s) (oid ob) = Some p"
    "heap s p = Some ob \<Longrightarrow> mfind (name_pool s) (key (name ob) (uid ob)) = Some p"
    "heap s p = Some ob \<Longrightarrow> oid ob \<in> set (oid_queue s)"
    "heap s p = Some ob \<Longrightarrow> p < fresh s"
  using assms unfolding cache_maps_def by blast+

lemma cache_rowsD:
  assumes "cache_rows uniq s"
  shows "distinct (map r_oid (rows s))" "r \<in> set (rows s) \<Longrightarrow> r_oid r \<le> lastOID s"
    "r \<in> set (rows s) \<Longrightarrow> r' \<in> set (rows s) \<Longrightarrow> r_oid r \<noteq> r_oid r' \<Longrightarrow> \<not> uniq (name_uid r) (name_uid r')"
    "heap s p = Some ob \<Longrightarrow> oid ob \<le> lastOID s"
    "heap s p = Some ob \<Longrightarrow> valid ob \<Longrightarrow> obj_row ob \<in> set (rows s)"
    "heap s p = Some ob \<Longrightarrow> \<not> valid ob \<Longrightarrow> r \<in> set (rows s) \<Longrightarrow> r_oid r \<noteq> oid ob"
  using assms unfolding cache_rows_def by (auto split: if_splits)

text \<open>What a thread does with the objects it holds leaves the maps and the identities of the objects alone.\<close>

definition ident :: "'a pool_obj \<Rightarrow> int \<times> string \<times> int" where
  "ident ob = (oid ob, name ob, uid ob)"

definition same_cache :: "'a pool_sql \<Rightarrow> 'a pool_sql \<Rightarrow> bool" where
  "same_cache s t \<longleftrightarrow> pool t = pool s \<and> name_pool t = name_pool s \<and> oid_queue t = oid_queue s \<and>
     fresh t = fresh s \<and> lastOID t = lastOID s \<and> (\<forall>p. map_option ident (heap t p) = map_option ident (heap s p))"

lemma same_cache_heap:
  "same_cache s t \<Longrightarrow> heap t p = Some ob \<Longrightarrow> \<exists>ob'. heap s p = Some ob' \<and> ident ob' = ident ob"
  unfolding same_cache_def by (metis (no_types, lifting) map_option_eq_Some)

lemma same_cache_sym: "same_cache s t \<Longrightarrow> same_cache t s"
  by (simp add: same_cache_def)

lemma same_cache_trans: "same_cache s t \<Longrightarrow> same_cache t u \<Longrightarrow> same_cache s u"
  by (simp add: same_cache_def)

lemma same_cache_refl [simp]: "same_cache s s"
  by (simp add: same_cache_def)

lemma same_cache_set_obj: "(\<And>ob. ident (f ob) = ident ob) \<Longrightarrow> same_cache s (set_obj p f s)"
  by (simp add: same_cache_def set_obj_def option.map_comp comp_def)

lemma cache_maps_same:
  assumes "cache_maps key s" "same_cache s t"
  shows "cache_maps key t"
proof -
  have eq: "pool t = pool s" "name_pool t = name_pool s" "oid_queue t = oid_queue s" "fresh t = fresh s"
    using assms(2) by (simp_all add: same_cache_def)
  note h = same_cache_heap [OF assms(2)] same_cache_heap [OF same_cache_sym [OF assms(2)]]
  note d = cache_mapsD [OF assms(1)]
  show ?thesis
    unfolding cache_maps_def eq
  proof (intro conjI allI impI)
    show "map_ok (pool s)" "map_ok (name_pool s)" by (fact d)+
  next
    fix i p assume "mfind (pool s) i = Some p"
    then show "\<exists>ob. heap t p = Some ob \<and> oid ob = i" using d(3) h(2) by (fastforce simp: ident_def)
  next
    fix k p assume "mfind (name_pool s) k = Some p"
    then show "\<exists>ob. heap t p = Some ob \<and> key (name ob) (uid ob) = k" using d(4) h(2) by (fastforce simp: ident_def)
  next
    fix p ob assume "heap t p = Some ob"
    then obtain ob' where o: "heap s p = Some ob'" "ident ob' = ident ob" using h(1) by blast
    then show "mfind (pool s) (oid ob) = Some p" "mfind (name_pool s) (key (name ob) (uid ob)) = Some p"
      "oid ob \<in> set (oid_queue s)" "p < fresh s"
      using d(5-8) [OF o(1)] by (simp_all add: ident_def)
  qed
qed

subsection \<open>Threads that hold an object\<close>

text \<open>
  The holder of an object changes its contents and writes its row, drops it, or releases it.  A holder does not
  change an object it has dropped.
\<close>

inductive holder_step :: "(string \<times> int \<Rightarrow> string \<times> int \<Rightarrow> bool) \<Rightarrow> 'a pool_sql \<Rightarrow> 'a pool_sql \<Rightarrow> bool"
  for uniq :: "string \<times> int \<Rightarrow> string \<times> int \<Rightarrow> bool" where
  H_unlock: "heap s p = Some ob \<Longrightarrow> locked ob \<Longrightarrow> holder_step uniq s (obj_unlock p s)"
| H_update: "heap s p = Some ob \<Longrightarrow> locked ob \<Longrightarrow> valid ob \<Longrightarrow>
    holder_step uniq s (obj_update uniq p (set_obj p (contents_update (\<lambda>_. b)) s))"
| H_drop: "heap s p = Some ob \<Longrightarrow> locked ob \<Longrightarrow> valid ob \<Longrightarrow>
    holder_step uniq s (snd (obj_drop db_ok p s))"

abbreviation holders :: "(string \<times> int \<Rightarrow> string \<times> int \<Rightarrow> bool) \<Rightarrow> 'a pool_sql \<Rightarrow> 'a pool_sql \<Rightarrow> bool" where
  "holders uniq \<equiv> (holder_step uniq)\<^sup>*\<^sup>*"

lemma heap_set_obj: "heap (set_obj p f s) q = (if q = p then map_option f (heap s p) else heap s q)"
  by (simp add: set_obj_def)

lemma fields_set_obj [simp]:
  "pool (set_obj p f s) = pool s" "name_pool (set_obj p f s) = name_pool s" "oid_queue (set_obj p f s) = oid_queue s"
  "fresh (set_obj p f s) = fresh s" "lastOID (set_obj p f s) = lastOID s" "rows (set_obj p f s) = rows s"
  by (simp_all add: set_obj_def)

lemma holder_same: "holder_step uniq s t \<Longrightarrow> same_cache s t"
proof (induction rule: holder_step.induct)
  case (H_unlock s p ob)
  then show ?case unfolding obj_unlock_def by (intro same_cache_set_obj) (simp add: ident_def)
next
  case (H_update s p ob b)
  have "same_cache s (set_obj p (contents_update (\<lambda>_. b)) s)" by (intro same_cache_set_obj) (simp add: ident_def)
  then show ?case by (simp add: obj_update_def same_cache_def split: option.splits)
next
  case (H_drop s p ob db_ok)
  then show ?case by (auto simp: obj_drop_def same_cache_def set_obj_def ident_def)
qed

text \<open>The row of an object whose identity is unchanged replaces its old row and nothing else.\<close>

lemma sql_replace_own:
  assumes c: "cache_rows uniq s" and r: "r \<in> set (rows s)" and id: "r_oid r' = r_oid r" "name_uid r' = name_uid r"
  shows "set (sql_replace uniq r' (rows s)) = {q \<in> set (rows s). r_oid q \<noteq> r_oid r} \<union> {r'}"
  using cache_rowsD(3) [OF c] r id by (auto simp: sql_replace_def)

lemma distinct_sql_replace:
  "distinct (map r_oid rs) \<Longrightarrow> distinct (map r_oid (sql_replace uniq r rs))"
  by (auto simp: sql_replace_def intro: distinct_map_filter)

lemma holder_rows:
  assumes "holder_step uniq s t" "cache_maps key s" "cache_rows uniq s"
  shows "cache_rows uniq t"
  using assms
proof (induction rule: holder_step.induct)
  case (H_unlock s p ob)
  note d = cache_rowsD [OF H_unlock(4)]
  let ?t = "obj_unlock p s"
  have hp: "heap ?t = (heap s)(p \<mapsto> ob\<lparr>locked := False\<rparr>)" and rs: "rows ?t = rows s" "lastOID ?t = lastOID s"
    using H_unlock(1) by (simp_all add: obj_unlock_def set_obj_def)
  show ?case unfolding cache_rows_def rs
  proof (intro conjI ballI impI allI)
    fix q x assume "heap ?t q = Some x"
    then obtain y where y: "heap s q = Some y" "oid x = oid y" "valid x = valid y" "obj_row x = obj_row y"
      using H_unlock(1) by (auto simp: hp obj_row_def split: if_splits)
    show "oid x \<le> lastOID s" "if valid x then obj_row x \<in> set (rows s) else \<forall>r\<in>set (rows s). r_oid r \<noteq> oid x"
      using d(4-6) [OF y(1)] y(2-4) by auto
  qed (use d(1-3) in blast)+
next
  case (H_update s p ob b)
  note d = cache_rowsD [OF H_update(5)]
  let ?o = "ob\<lparr>contents := b\<rparr>"
  let ?t = "obj_update uniq p (set_obj p (contents_update (\<lambda>_. b)) s)"
  have rs: "rows ?t = sql_replace uniq (obj_row ?o) (rows s)" and hp: "heap ?t = (heap s)(p \<mapsto> ?o)" and l: "lastOID ?t = lastOID s"
    using H_update(1) by (simp_all add: obj_update_def set_obj_def)
  have own: "obj_row ob \<in> set (rows s)" using d(5) H_update(1,3) by blast
  have set: "set (rows ?t) = {q \<in> set (rows s). r_oid q \<noteq> oid ob} \<union> {obj_row ?o}"
    unfolding rs using sql_replace_own [OF H_update(5) own, of "obj_row ?o"] by (simp add: obj_row_def)
  have inj: "oid x \<noteq> oid ob" if "heap s q = Some x" "q \<noteq> p" for q x
    using cache_mapsD(5) [OF H_update(4)] H_update(1) that by (metis option.inject)
  show ?case unfolding cache_rows_def
  proof (intro conjI)
    show "distinct (map r_oid (rows ?t))" unfolding rs using d(1) by (rule distinct_sql_replace)
    show "\<forall>r\<in>set (rows ?t). r_oid r \<le> lastOID ?t" unfolding l set using d(2,4) H_update(1) by (auto simp: obj_row_def)
    show "\<forall>r\<in>set (rows ?t). \<forall>r'\<in>set (rows ?t). r_oid r \<noteq> r_oid r' \<longrightarrow> \<not> uniq (name_uid r) (name_uid r')"
      unfolding set using d(3) d(3) [OF _ own] d(3) [OF own] by (auto simp: obj_row_def)
    show "\<forall>q x. heap ?t q = Some x \<longrightarrow> oid x \<le> lastOID ?t \<and>
        (if valid x then obj_row x \<in> set (rows ?t) else \<forall>r\<in>set (rows ?t). r_oid r \<noteq> oid x)"
    proof (intro allI impI)
      fix q x assume x: "heap ?t q = Some x"
      show "oid x \<le> lastOID ?t \<and>
        (if valid x then obj_row x \<in> set (rows ?t) else \<forall>r\<in>set (rows ?t). r_oid r \<noteq> oid x)"
      proof (cases "q = p")
        case True
        then have "x = ?o" using x by (simp add: hp)
        then show ?thesis using d(4) [OF H_update(1)] H_update(3) by (simp add: l set)
      next
        case False
        then have y: "heap s q = Some x" using x by (simp add: hp)
        show ?thesis using d(4-6) [OF y] inj [OF y False] unfolding l set by (auto simp: obj_row_def)
      qed
    qed
  qed
next
  case (H_drop s p ob db_ok)
  note d = cache_rowsD [OF H_drop(5)]
  have inj: "oid x \<noteq> oid ob" if "heap s q = Some x" "q \<noteq> p" for q x
    using cache_mapsD(5) [OF H_drop(4)] H_drop(1) that by (metis option.inject)
  show ?case
  proof (cases db_ok)
    case True
    let ?t = "snd (obj_drop db_ok p s)"
    have rs: "rows ?t = sql_delete (oid ob) (rows s)" and hp: "heap ?t = (heap s)(p \<mapsto> ob\<lparr>valid := False\<rparr>)" and l: "lastOID ?t = lastOID s"
      using H_drop(1) True by (simp_all add: obj_drop_def set_obj_def)
    have "distinct (map r_oid (rows ?t))" unfolding rs sql_delete_def using d(1) by (rule distinct_map_filter)
    moreover have "oid x \<le> lastOID s \<and>
        (if valid x then obj_row x \<in> set (rows ?t) else \<forall>r\<in>set (rows ?t). r_oid r \<noteq> oid x)"
      if x: "heap ?t q = Some x" for q x
    proof (cases "q = p")
      case True
      then have "x = ob\<lparr>valid := False\<rparr>" using x by (simp add: hp)
      then show ?thesis using d(4) [OF H_drop(1)] by (simp add: rs sql_delete_def)
    next
      case False
      then have y: "heap s q = Some x" using x by (simp add: hp)
      show ?thesis using d(4-6) [OF y] inj [OF y False] unfolding rs sql_delete_def by (auto simp: obj_row_def)
    qed
    moreover have "\<forall>r\<in>set (rows ?t). r \<in> set (rows s)" by (simp add: rs sql_delete_def)
    ultimately show ?thesis unfolding cache_rows_def l using d(2,3) by blast
  qed (use H_drop in \<open>simp add: obj_drop_def\<close>)
qed

text \<open>A row whose object is not in the cache stays.\<close>

lemma holder_uncached_row:
  assumes "holder_step uniq s t" "cache_maps key s" "cache_rows uniq s"
    and "r \<in> set (rows s)" "mfind (pool s) (r_oid r) = None"
  shows "r \<in> set (rows t)"
  using assms
proof (induction rule: holder_step.induct)
  case (H_unlock s p ob)
  then show ?case by (simp add: obj_unlock_def)
next
  case (H_update s p ob b)
  have ne: "r_oid r \<noteq> oid ob" using cache_mapsD(5) [OF H_update(4,1)] H_update(7) by auto
  have own: "obj_row ob \<in> set (rows s)" using cache_rowsD(5) [OF H_update(5,1,3)] .
  show ?case
    using sql_replace_own [OF H_update(5) own, of "obj_row (ob\<lparr>contents := b\<rparr>)"] H_update(1,6) ne
    by (simp add: obj_update_def set_obj_def obj_row_def)
next
  case (H_drop s p ob db_ok)
  have "r_oid r \<noteq> oid ob" using cache_mapsD(5) [OF H_drop(4,1)] H_drop(7) by auto
  with H_drop show ?case by (simp add: obj_drop_def sql_delete_def)
qed

lemma holders_keep:
  assumes "holders uniq s t" "cache_maps key s" "cache_rows uniq s"
  shows "same_cache s t" "cache_maps key t" "cache_rows uniq t"
    "r \<in> set (rows s) \<Longrightarrow> mfind (pool s) (r_oid r) = None \<Longrightarrow> r \<in> set (rows t)"
proof -
  have "same_cache s t \<and> cache_maps key t \<and> cache_rows uniq t \<and>
    (\<forall>r \<in> set (rows s). mfind (pool s) (r_oid r) = None \<longrightarrow> r \<in> set (rows t))"
    using assms
  proof (induction rule: rtranclp_induct)
    case (step t u)
    then have t: "same_cache s t" "cache_maps key t" "cache_rows uniq t" by blast+
    have "same_cache t u" using step(2) by (rule holder_same)
    moreover have "pool t = pool s" using t(1) by (simp add: same_cache_def)
    ultimately show ?case
      using t step holder_rows [OF step(2) t(2,3)] holder_uncached_row [OF step(2) t(2,3)] cache_maps_same [OF t(2)]
        same_cache_trans by metis
  qed simp
  then show "same_cache s t" "cache_maps key t" "cache_rows uniq t"
    "r \<in> set (rows s) \<Longrightarrow> mfind (pool s) (r_oid r) = None \<Longrightarrow> r \<in> set (rows t)" by blast+
qed

subsection \<open>The operations keep the invariant\<close>

lemma obj_lock_keeps:
  assumes "obj_lock w p s = Done t" "holders uniq s (w s)" "cache_maps key s" "cache_rows uniq s"
  shows "same_cache s t" "cache_maps key t" "cache_rows uniq t" "heap t p \<noteq> None"
    "r \<in> set (rows s) \<Longrightarrow> mfind (pool s) (r_oid r) = None \<Longrightarrow> r \<in> set (rows t)"
proof -
  obtain ob where ob: "heap s p = Some ob" using assms(1) by (auto simp: obj_lock_def split: option.splits)
  define s1 where "s1 = (if locked ob then w s else s)"
  have t: "t = set_obj p (locked_update (\<lambda>_. True)) s1" and p: "heap s1 p \<noteq> None"
    using assms(1) ob by (auto simp: obj_lock_def Let_def s1_def split: option.splits if_splits)
  have s1: "same_cache s s1" "cache_maps key s1" "cache_rows uniq s1"
    "r \<in> set (rows s) \<Longrightarrow> mfind (pool s) (r_oid r) = None \<Longrightarrow> r \<in> set (rows s1)" for r
    using holders_keep [OF assms(2-4)] assms(3,4) by (simp_all add: s1_def)
  have st: "same_cache s1 t" unfolding t by (rule same_cache_set_obj) (simp add: ident_def)
  show "same_cache s t" using same_cache_trans [OF s1(1) st] .
  show "cache_maps key t" using cache_maps_same [OF s1(2) st] .
  show "heap t p \<noteq> None" using p by (simp add: t heap_set_obj)
  show "r \<in> set (rows s) \<Longrightarrow> mfind (pool s) (r_oid r) = None \<Longrightarrow> r \<in> set (rows t)" using s1(4) by (simp add: t)
  have hp: "\<exists>y. heap s1 q = Some y \<and> oid x = oid y \<and> valid x = valid y \<and> obj_row x = obj_row y"
    if "heap t q = Some x" for q x
    using that by (auto simp: t heap_set_obj obj_row_def split: if_splits)
  have "rows t = rows s1" "lastOID t = lastOID s1" by (simp_all add: t)
  then show "cache_rows uniq t"
    using s1(3) hp unfolding cache_rows_def by metis
qed

text \<open>Taking an object out of both maps and deleting it.\<close>

lemma remove_obj_maps:
  assumes "cache_maps key s" "heap s p = Some ob" "k = key (name ob) (uid ob)"
  shows "cache_maps key (s\<lparr>name_pool := merase k (name_pool s), pool := merase (oid ob) (pool s), heap := (heap s)(p := None)\<rparr>)"
    (is "cache_maps key ?t")
proof -
  have f: "pool ?t = merase (oid ob) (pool s)" "name_pool ?t = merase k (name_pool s)" "heap ?t = (heap s)(p := None)"
    "oid_queue ?t = oid_queue s" "fresh ?t = fresh s" by simp_all
  note d = cache_mapsD [OF assms(1)]
  have 1: "q \<noteq> p \<Longrightarrow> heap s q = Some x \<Longrightarrow> oid x \<noteq> oid ob" for q x
    using d(5) [of q x] d(5) [OF assms(2)] by auto
  have 2: "q \<noteq> p \<Longrightarrow> heap s q = Some x \<Longrightarrow> key (name x) (uid x) \<noteq> k" for q x
    using d(6) [of q x] d(6) [OF assms(2)] assms(3) by auto
  have 3: "mfind (pool s) i = Some p \<Longrightarrow> i = oid ob" for i using d(3) [of i p] assms(2) by auto
  have 4: "mfind (name_pool s) j = Some p \<Longrightarrow> j = k" for j using d(4) [of j p] assms(2,3) by auto
  show ?thesis
    unfolding cache_maps_def f mfind_merase
  proof (intro conjI allI impI)
    show "map_ok (merase (oid ob) (pool s))" "map_ok (merase k (name_pool s))" using d(1,2) by simp_all
    show "\<exists>x. ((heap s)(p := None)) q = Some x \<and> oid x = i"
      if "(if i = oid ob then None else mfind (pool s) i) = Some q" for i q
      using that d(3) [of i q] 3 by (auto split: if_splits)
    show "\<exists>x. ((heap s)(p := None)) q = Some x \<and> key (name x) (uid x) = j"
      if "(if j = k then None else mfind (name_pool s) j) = Some q" for j q
      using that d(4) [of j q] 4 by (auto split: if_splits)
    fix q x assume "((heap s)(p := None)) q = Some x"
    then have x: "q \<noteq> p" "heap s q = Some x" by (auto split: if_splits)
    show "(if oid x = oid ob then None else mfind (pool s) (oid x)) = Some q"
      "(if key (name x) (uid x) = k then None else mfind (name_pool s) (key (name x) (uid x))) = Some q"
      "oid x \<in> set (oid_queue s)" "q < fresh s"
      using 1 [OF x] 2 [OF x] d(5-8) [OF x(2)] by simp_all
  qed
qed

lemma cache_rows_mono:
  assumes "cache_rows uniq s" "rows t = rows s" "lastOID t = lastOID s"
    "\<And>q x. heap t q = Some x \<Longrightarrow> heap s q = Some x"
  shows "cache_rows uniq t"
  using assms unfolding cache_rows_def by metis

lemma evict_keeps:
  assumes "evict w okey p s = Done t" "holders uniq s (w s)" "cache_maps key s" "cache_rows uniq s"
    and k: "heap s p = Some o0" "\<And>x. ident x = ident o0 \<Longrightarrow> okey x = key (name o0) (uid o0)"
  shows "cache_maps key t" "cache_rows uniq t"
    "mfind (pool t) i = (if i = oid o0 then None else mfind (pool s) i)"
    "mfind (name_pool t) (key (name o0) (uid o0)) = None"
    "r \<in> set (rows s) \<Longrightarrow> mfind (pool s) (r_oid r) = None \<Longrightarrow> r \<in> set (rows t)"
    "lastOID t = lastOID s"
proof -
  obtain s1 ob where s1: "obj_lock w p s = Done s1" "heap s1 p = Some ob"
    and t: "t = s1\<lparr>name_pool := merase (okey ob) (name_pool s1), pool := merase (oid ob) (pool s1), heap := (heap s1)(p := None)\<rparr>"
    using assms(1) by (auto simp: evict_def bind_res_Done_iff split: option.splits)
  note l = obj_lock_keeps [OF s1(1) assms(2-4)]
  have id: "ident ob = ident o0" using same_cache_heap [OF l(1) s1(2)] k(1) by auto
  then have ok: "okey ob = key (name ob) (uid ob)" "okey ob = key (name o0) (uid o0)" "oid ob = oid o0"
    using k(2) [OF id] by (auto simp: ident_def)
  have eq: "pool s1 = pool s" "name_pool s1 = name_pool s" "lastOID s1 = lastOID s" using l(1) by (auto simp: same_cache_def)
  show "cache_maps key t" unfolding t using remove_obj_maps [OF l(2) s1(2) ok(1)] .
  show "cache_rows uniq t" by (rule cache_rows_mono [OF l(3)]) (auto simp: t split: if_splits)
  show "mfind (pool t) i = (if i = oid o0 then None else mfind (pool s) i)" by (simp add: t mfind_merase eq ok)
  show "mfind (name_pool t) (key (name o0) (uid o0)) = None" unfolding ok(2) [symmetric] by (simp add: t mfind_merase)
  show "r \<in> set (rows s) \<Longrightarrow> mfind (pool s) (r_oid r) = None \<Longrightarrow> r \<in> set (rows t)" using l(5) by (simp add: t)
  show "lastOID t = lastOID s" by (simp add: t eq)
qed

subsection \<open>Replacement\<close>

definition idle :: "'a pool_sql \<Rightarrow> int \<Rightarrow> bool" where
  "idle s i = (case mfind (pool s) i of None \<Rightarrow> False
     | Some p \<Rightarrow> (case heap s p of None \<Rightarrow> False | Some ob \<Rightarrow> \<not> locked ob))"

lemma idle_queue [simp]: "idle (s\<lparr>oid_queue := q\<rparr>) = idle s"
  by (simp add: idle_def fun_eq_iff cong: option.case_cong)

lemma replace_skips:
  assumes "cache_maps key s" "\<forall>i \<in> set xs. \<not> idle s i"
  shows "pool_replace key (s\<lparr>oid_queue := xs @ q\<rparr>) =
    pool_replace key (s\<lparr>oid_queue := q @ filter (\<lambda>i. mfind (pool s) i \<noteq> None) xs\<rparr>)"
  using assms(2)
proof (induction xs arbitrary: q)
  case (Cons i xs)
  show ?case
  proof (cases "mfind (pool s) i")
    case None
    then show ?thesis using Cons.IH [of q] Cons.prems by (subst pool_replace.simps) simp
  next
    case (Some p)
    moreover obtain ob where "heap s p = Some ob" using cache_mapsD(3) [OF assms(1) Some] by blast
    moreover have "locked ob" using Cons.prems calculation by (simp add: idle_def)
    ultimately show ?thesis using Cons.IH [of "q @ [i]"] Cons.prems by (subst pool_replace.simps) simp
  qed
qed simp

lemma replace_evicts:
  assumes c: "cache_maps key s" and q: "oid_queue s = xs @ i # q" "\<forall>j \<in> set xs. \<not> idle s j"
    and i: "mfind (pool s) i = Some p" "heap s p = Some ob" "\<not> locked ob"
  shows "pool_replace key s = Some (Done (s\<lparr>pool := merase i (pool s),
           name_pool := merase (key (name ob) (uid ob)) (name_pool s), heap := (heap s)(p := None),
           oid_queue := q @ filter (\<lambda>j. mfind (pool s) j \<noteq> None) xs\<rparr>))"
proof -
  have "s\<lparr>oid_queue := xs @ i # q\<rparr> = s" using q(1) by (intro pool_sql.equality) simp_all
  then have "pool_replace key s = pool_replace key (s\<lparr>oid_queue := xs @ i # q\<rparr>)" by (rule arg_cong [OF sym])
  also have "\<dots> = pool_replace key (s\<lparr>oid_queue := (i # q) @ filter (\<lambda>j. mfind (pool s) j \<noteq> None) xs\<rparr>)"
    by (rule replace_skips [OF c q(2)])
  finally show ?thesis using i by (simp only:) (subst pool_replace.simps, simp)
qed

lemma replace_spins:
  assumes "pool_replace key s = Some r" "\<forall>i \<in> set (oid_queue s). \<not> idle s i"
    "\<exists>i \<in> set (oid_queue s). mfind (pool s) i \<noteq> None" "\<forall>i p. mfind (pool s) i = Some p \<longrightarrow> heap s p \<noteq> None"
  shows False
proof -
  let ?busy = "\<lambda>s. (\<forall>i \<in> set (oid_queue s). \<not> idle s i) \<and> (\<exists>i \<in> set (oid_queue s). mfind (pool s) i \<noteq> None) \<and>
     (\<forall>i p. mfind (pool s) i = Some p \<longrightarrow> heap s p \<noteq> None)"
  have "\<not> ?busy s"
  proof (rule pool_replace.raw_induct [where P = "\<lambda>_ s _. \<not> ?busy s", OF _ assms(1)])
    fix f :: "(string \<Rightarrow> int \<Rightarrow> string) \<Rightarrow> 'a pool_sql \<Rightarrow> 'a pool_sql res option" and key s r
    assume IH: "\<And>key s r. f key s = Some r \<Longrightarrow> \<not> ?busy s"
      and r: "(case oid_queue s of [] \<Rightarrow> Some Segv
     | i # q \<Rightarrow>
         (case mfind (pool s) i of None \<Rightarrow> f key (s\<lparr>oid_queue := q\<rparr>)
          | Some p \<Rightarrow>
              (case heap s p of None \<Rightarrow> Some Segv
               | Some ob \<Rightarrow>
                   if locked ob then f key (s\<lparr>oid_queue := q @ [i]\<rparr>)
                   else Some (Done (s\<lparr>pool := merase i (pool s),
                                      name_pool := merase (key (name ob) (uid ob)) (name_pool s),
                                      heap := (heap s)(p := None), oid_queue := q\<rparr>))))) = Some r"
    show "\<not> ?busy s"
    proof
      assume b: "?busy s"
      then obtain i q where q: "oid_queue s = i # q" by (cases "oid_queue s") auto
      show False
      proof (cases "mfind (pool s) i")
        case None
        then have "f key (s\<lparr>oid_queue := q\<rparr>) = Some r" using r q by simp
        then have "\<not> ?busy (s\<lparr>oid_queue := q\<rparr>)" by (rule IH)
        then show False using b q None by auto
      next
        case (Some p)
        have "heap s p \<noteq> None" using b Some by blast
        then obtain ob where ob: "heap s p = Some ob" by blast
        have "locked ob" using b q Some ob by (simp add: idle_def)
        then have "f key (s\<lparr>oid_queue := q @ [i]\<rparr>) = Some r" using r q Some ob by simp
        then have "\<not> ?busy (s\<lparr>oid_queue := q @ [i]\<rparr>)" by (rule IH)
        then show False using b q by auto
      qed
    qed
  qed
  with assms(2-4) show False by blast
qed

lemma idle_iff:
  assumes "cache_maps key s"
  shows "(\<exists>i \<in> set (oid_queue s). idle s i) \<longleftrightarrow> (\<exists>p ob. heap s p = Some ob \<and> \<not> locked ob)"
proof
  assume "\<exists>i \<in> set (oid_queue s). idle s i"
  then obtain i where i: "idle s i" by blast
  then obtain p where p: "mfind (pool s) i = Some p" by (cases "mfind (pool s) i") (simp_all add: idle_def)
  then show "\<exists>p ob. heap s p = Some ob \<and> \<not> locked ob" using i by (cases "heap s p") (auto simp: idle_def)
next
  assume "\<exists>p ob. heap s p = Some ob \<and> \<not> locked ob"
  then obtain p ob where ob: "heap s p = Some ob" "\<not> locked ob" by blast
  then have "idle s (oid ob)" using cache_mapsD(5) [OF assms ob(1)] by (simp add: idle_def)
  then show "\<exists>i \<in> set (oid_queue s). idle s i" using cache_mapsD(7) [OF assms ob(1)] by blast
qed

text \<open>What \<open>replace\<close> does: it removes the first idle object of the queue, and returns exactly if there is one.\<close>

lemma replace_cases:
  assumes c: "cache_maps key s" and h: "heap s p0 = Some o0"
  obtains (evicted) xs i q p ob where "oid_queue s = xs @ i # q" "\<forall>j \<in> set xs. \<not> idle s j"
      "mfind (pool s) i = Some p" "heap s p = Some ob" "\<not> locked ob" "oid ob = i"
      "pool_replace key s = Some (Done (s\<lparr>pool := merase i (pool s),
           name_pool := merase (key (name ob) (uid ob)) (name_pool s), heap := (heap s)(p := None),
           oid_queue := q @ filter (\<lambda>j. mfind (pool s) j \<noteq> None) xs\<rparr>))"
  | (spins) "pool_replace key s = None" "\<forall>p ob. heap s p = Some ob \<longrightarrow> locked ob"
proof (cases "\<exists>i \<in> set (oid_queue s). idle s i")
  case True
  then obtain xs i q where q: "oid_queue s = xs @ i # q" "idle s i" "\<forall>j \<in> set xs. \<not> idle s j"
    using split_list_first_prop [of "oid_queue s" "idle s"] by blast
  then obtain p ob where i: "mfind (pool s) i = Some p" "heap s p = Some ob" "\<not> locked ob"
    by (auto simp: idle_def split: option.splits)
  have "oid ob = i" using cache_mapsD(3) [OF c i(1)] i(2) by auto
  then show thesis using evicted [OF q(1,3) i _ replace_evicts [OF c q(1,3) i]] by blast
next
  case False
  have l: "\<forall>p ob. heap s p = Some ob \<longrightarrow> locked ob" using False idle_iff [OF c] by blast
  have m: "mfind (pool s) (oid o0) \<noteq> None" "oid o0 \<in> set (oid_queue s)" using cache_mapsD(5,7) [OF c h] by auto
  have "pool_replace key s = None"
  proof (cases "pool_replace key s")
    case (Some r)
    have "\<forall>i p. mfind (pool s) i = Some p \<longrightarrow> heap s p \<noteq> None" using cache_mapsD(3) [OF c] by fastforce
    then show ?thesis using replace_spins [OF Some _ _] False m by blast
  qed
  then show thesis using l spins by blast
qed

lemma cache_maps_queue:
  assumes "cache_maps key s" "\<And>i. mfind (pool s) i \<noteq> None \<Longrightarrow> i \<in> set q"
  shows "cache_maps key (s\<lparr>oid_queue := q\<rparr>)"
  unfolding cache_maps_def pool_sql.simps
proof (intro conjI allI impI)
  note d = cache_mapsD [OF assms(1)]
  show "map_ok (pool (s\<lparr>oid_queue := q\<rparr>))" "map_ok (name_pool (s\<lparr>oid_queue := q\<rparr>))" using d(1,2) by simp_all
  show "\<exists>ob. heap (s\<lparr>oid_queue := q\<rparr>) p = Some ob \<and> oid ob = i" if "mfind (pool (s\<lparr>oid_queue := q\<rparr>)) i = Some p" for i p
    using that d(3) by simp
  show "\<exists>ob. heap (s\<lparr>oid_queue := q\<rparr>) p = Some ob \<and> key (name ob) (uid ob) = k"
    if "mfind (name_pool (s\<lparr>oid_queue := q\<rparr>)) k = Some p" for k p
    using that d(4) by simp
  fix p ob assume "heap (s\<lparr>oid_queue := q\<rparr>) p = Some ob"
  then have h: "heap s p = Some ob" by simp
  show "mfind (pool (s\<lparr>oid_queue := q\<rparr>)) (oid ob) = Some p"
    "mfind (name_pool (s\<lparr>oid_queue := q\<rparr>)) (key (name ob) (uid ob)) = Some p"
    "oid ob \<in> set (oid_queue (s\<lparr>oid_queue := q\<rparr>))" "p < fresh (s\<lparr>oid_queue := q\<rparr>)"
    using d(5-8) [OF h] assms(2) [of "oid ob"] by simp_all
qed

lemma replace_keeps:
  assumes c: "cache_maps key s" "cache_rows uniq s" and h: "heap s p0 = Some o0"
    and r: "pool_replace key s = Some r"
  shows "\<exists>t. r = Done t \<and> cache_maps key t \<and> cache_rows uniq t"
  using c(1) h
proof (cases rule: replace_cases)
  case (evicted xs i q p ob)
  let ?q = "q @ filter (\<lambda>j. mfind (pool s) j \<noteq> None) xs"
  let ?s = "s\<lparr>name_pool := merase (key (name ob) (uid ob)) (name_pool s), pool := merase (oid ob) (pool s), heap := (heap s)(p := None)\<rparr>"
  have m: "cache_maps key ?s" using remove_obj_maps [OF c(1) evicted(4) refl] .
  have "j \<in> set ?q" if "mfind (pool ?s) j \<noteq> None" for j
  proof -
    have j: "j \<noteq> i" "mfind (pool s) j \<noteq> None" using that evicted(6) by (auto simp: mfind_merase split: if_splits)
    then obtain p' x where "heap s p' = Some x" "oid x = j" using cache_mapsD(3) [OF c(1)] by fastforce
    then have "j \<in> set (oid_queue s)" using cache_mapsD(7) [OF c(1)] by blast
    then show ?thesis using j evicted(1) by auto
  qed
  then have t: "cache_maps key (?s\<lparr>oid_queue := ?q\<rparr>)" using cache_maps_queue [OF m] by blast
  moreover have "cache_rows uniq (?s\<lparr>oid_queue := ?q\<rparr>)" by (rule cache_rows_mono [OF c(2)]) (auto split: if_splits)
  moreover have "r = Done (?s\<lparr>oid_queue := ?q\<rparr>)"
  proof -
    have "s\<lparr>pool := merase i (pool s), name_pool := merase (key (name ob) (uid ob)) (name_pool s), heap := (heap s)(p := None),
      oid_queue := ?q\<rparr> = ?s\<lparr>oid_queue := ?q\<rparr>"
      using evicted(6) by (intro pool_sql.equality) simp_all
    then show ?thesis using r evicted(7) by simp
  qed
  ultimately show ?thesis by blast
qed (use r in simp)

subsection \<open>Loading an object\<close>

lemma obj_row_row_obj [simp]: "obj_row (row_obj r l) = r"
  by (cases r) (simp add: obj_row_def row_obj_def)

lemma cache_insert_keeps:
  assumes c: "cache_maps key s" "cache_rows uniq s"
    and n: "mfind (pool s) (r_oid r) = None" "mfind (name_pool s) (key (r_name r) (r_uid r)) = None" "r \<in> set (rows s)"
    and i: "cache_insert key r olock s = Done (x, t)"
  shows "cache_maps key t" "cache_rows uniq t" "x = Some (fresh s)"
proof -
  let ?k = "key (r_name r) (r_uid r)"
  define s1 where "s1 = s\<lparr>heap := (heap s)(fresh s := Some (row_obj r olock)), fresh := Suc (fresh s),
                 pool := minsert (r_oid r) (fresh s) (pool s), name_pool := minsert ?k (fresh s) (name_pool s),
                 oid_queue := oid_queue s @ [r_oid r]\<rparr>"
  note d = cache_mapsD [OF c(1)]
  have f: "pool s1 = minsert (r_oid r) (fresh s) (pool s)" "name_pool s1 = minsert ?k (fresh s) (name_pool s)"
    "heap s1 = (heap s)(fresh s := Some (row_obj r olock))" "fresh s1 = Suc (fresh s)"
    "oid_queue s1 = oid_queue s @ [r_oid r]" "rows s1 = rows s" "lastOID s1 = lastOID s" by (simp_all add: s1_def)
  have new: "heap s (fresh s) = None" using d(8) by (cases "heap s (fresh s)") auto
  have mp: "mfind (pool s1) i = (if i = r_oid r then Some (fresh s) else mfind (pool s) i)" for i
    using mfind_minsert [OF d(1)] n(1) by (simp add: f)
  have mn: "mfind (name_pool s1) k = (if k = ?k then Some (fresh s) else mfind (name_pool s) k)" for k
    using mfind_minsert [OF d(2)] n(2) by (simp add: f)
  have old: "oid y \<noteq> r_oid r" "key (name y) (uid y) \<noteq> ?k" if "heap s q = Some y" for q y
    using d(5,6) [OF that] n(1,2) by auto
  have m: "cache_maps key s1"
    unfolding cache_maps_def
  proof (intro conjI allI impI)
    show "map_ok (pool s1)" "map_ok (name_pool s1)" using d(1,2) by (simp_all add: f)
    show "\<exists>ob. heap s1 p = Some ob \<and> oid ob = i" if "mfind (pool s1) i = Some p" for i p
      using that d(3) [of i p] new unfolding mp f(3) by (auto simp: row_obj_def split: if_splits)
    show "\<exists>ob. heap s1 p = Some ob \<and> key (name ob) (uid ob) = k" if "mfind (name_pool s1) k = Some p" for k p
      using that d(4) [of k p] new unfolding mn f(3) by (auto simp: row_obj_def split: if_splits)
    fix p ob assume h: "heap s1 p = Some ob"
    show "mfind (pool s1) (oid ob) = Some p" "mfind (name_pool s1) (key (name ob) (uid ob)) = Some p"
      "oid ob \<in> set (oid_queue s1)" "p < fresh s1"
      using h d(5-8) [of p ob] old [of p ob] unfolding mp mn f(3-5) by (auto simp: row_obj_def split: if_splits)
  qed
  have rs: "cache_rows uniq s1"
    unfolding cache_rows_def f(6,7)
  proof (intro conjI allI impI)
    show "distinct (map r_oid (rows s))" "\<forall>r\<in>set (rows s). r_oid r \<le> lastOID s"
      "\<forall>r\<in>set (rows s). \<forall>r'\<in>set (rows s). r_oid r \<noteq> r_oid r' \<longrightarrow> \<not> uniq (name_uid r) (name_uid r')"
      using cache_rowsD(1-3) [OF c(2)] by blast+
    fix p ob assume h: "heap s1 p = Some ob"
    have "oid ob \<le> lastOID s \<and> (if valid ob then obj_row ob \<in> set (rows s) else \<forall>r\<in>set (rows s). r_oid r \<noteq> oid ob)"
    proof (cases "p = fresh s")
      case True
      then have "ob = row_obj r olock" using h by (simp add: f)
      then show ?thesis using cache_rowsD(2) [OF c(2) n(3)] n(3) by simp (simp add: row_obj_def)
    next
      case False
      then have "heap s p = Some ob" using h by (simp add: f)
      then show ?thesis using cache_rowsD(4-6) [OF c(2), of p ob] by auto
    qed
    then show "oid ob \<le> lastOID s" "if valid ob then obj_row ob \<in> set (rows s) else \<forall>r\<in>set (rows s). r_oid r \<noteq> oid ob"
      by blast+
  qed
  have "heap s1 (fresh s) = Some (row_obj r olock)" by (simp add: f)
  note rep = replace_keeps [OF m rs this]
  have "(if length (pool s1) > max_pool_size
         then (case pool_replace key s1 of None \<Rightarrow> Blocked | Some o1 \<Rightarrow> bind_res o1 (\<lambda>s2. Done (Some (fresh s), s2)))
         else Done (Some (fresh s), s1)) = Done (x, t)"
    using i by (simp only: cache_insert_def Let_def s1_def)
  then have "cache_maps key t \<and> cache_rows uniq t \<and> x = Some (fresh s)"
    using m rs rep by (auto simp: bind_res_Done_iff split: if_splits option.splits)
  then show "cache_maps key t" "cache_rows uniq t" "x = Some (fresh s)" by blast+
qed

lemma select_oid_row: "select_oid i rs = Some r \<Longrightarrow> r \<in> set rs \<and> r_oid r = i"
  by (auto simp: select_oid_def find_Some_iff)

lemma select_name_row: "select_name n u rs = Some r \<Longrightarrow> r \<in> set rs \<and> r_name r = n \<and> (u \<noteq> - 1 \<longrightarrow> r_uid r = u)"
  unfolding select_name_def find_Some_iff by (metis nth_mem set_rev)

lemma get_oid_keeps:
  assumes g: "get_oid key w i olock s = Done (x, t)" and w: "holders uniq s (w s)"
    and c: "cache_maps key s" "cache_rows uniq s"
  shows "cache_maps key t \<and> cache_rows uniq t"
proof (cases "mfind (pool s) i")
  case (Some p)
  show ?thesis
  proof (cases "is_valid p s \<and> olock")
    case True
    then obtain s1 where s1: "obj_lock w p s = Done s1" "t = s1"
      using g Some by (auto simp: get_oid_def bind_res_Done_iff split: if_splits)
    then show ?thesis using obj_lock_keeps [OF s1(1) w c] by simp
  next
    case False
    then have "t = s" using g Some by (auto simp: get_oid_def split: if_splits)
    then show ?thesis using c by simp
  qed
next
  case None
  show ?thesis
  proof (cases "select_oid i (rows s)")
    case None
    then show ?thesis using g \<open>mfind (pool s) i = None\<close> c by (simp add: get_oid_def)
  next
    case (Some r)
    then have r: "r \<in> set (rows s)" "r_oid r = i" using select_oid_row by blast+
    let ?k = "key (r_name r) (r_uid r)"
    obtain s1 where s1: "(case mfind (name_pool s) ?k of None \<Rightarrow> Done s | Some p \<Rightarrow> evict w (\<lambda>_. ?k) p s) = Done s1"
      and ins: "cache_insert key r olock s1 = Done (x, t)"
      using g None Some by (auto simp: get_oid_def Let_def bind_res_Done_iff)
    have "cache_maps key s1 \<and> cache_rows uniq s1 \<and> mfind (pool s1) i = None \<and> mfind (name_pool s1) ?k = None \<and> r \<in> set (rows s1)"
    proof (cases "mfind (name_pool s) ?k")
      case None
      then show ?thesis using s1 c \<open>mfind (pool s) i = None\<close> r by simp
    next
      case (Some p)
      obtain o0 where o0: "heap s p = Some o0" "key (name o0) (uid o0) = ?k" using cache_mapsD(4) [OF c(1) Some] by blast
      have "evict w (\<lambda>_. ?k) p s = Done s1" using s1 Some by simp
      note e = evict_keeps [OF this w c o0(1)]
      show ?thesis using e(1-5) o0(2) r \<open>mfind (pool s) i = None\<close> by auto
    qed
    then show ?thesis using cache_insert_keeps [OF _ _ _ _ _ ins, of uniq] r(2) by simp
  qed
qed

subsection \<open>Creation and change of owner\<close>

lemma pool_allocate_keeps:
  assumes a: "pool_allocate uniq ok n u b s = (i, t)" and l: "lastOID s < INT_MAX"
    and c: "cache_maps key s" "cache_rows uniq s" and sym: "\<And>x y. uniq x y \<Longrightarrow> uniq y x"
  shows "cache_maps key t \<and> cache_rows uniq t"
proof -
  let ?r = "\<lparr>r_oid = lastOID s + 1, r_name = n, r_uid = u, r_body = b\<rparr>"
  note d = cache_rowsD [OF c(2)]
  have l': "lastOID s \<noteq> INT_MAX" using l by simp
  have eq: "s\<lparr>lastOID := lastOID s + 1 - 1\<rparr> = s" by (intro pool_sql.equality) simp_all
  consider "t = s" | "\<forall>r' \<in> set (rows s). \<not> uniq (name_uid r') (n, u)"
      "t = s\<lparr>lastOID := lastOID s + 1, rows := rows s @ [?r]\<rparr>"
  proof (cases "ok \<and> \<not> (\<exists>r' \<in> set (rows s). r_oid r' = lastOID s + 1 \<or> uniq (name_uid r') (n, u))")
    case True
    then have "sql_insert uniq ?r (rows s) = Some (rows s @ [?r])" unfolding sql_insert_def by simp
    then have "pool_allocate uniq ok n u b s = (lastOID s + 1, s\<lparr>lastOID := lastOID s + 1, rows := rows s @ [?r]\<rparr>)"
      using True l' unfolding pool_allocate_def Let_def by simp
    then have "t = s\<lparr>lastOID := lastOID s + 1, rows := rows s @ [?r]\<rparr>" using a by (simp only: prod.inject)
    then show thesis using that(2) True by blast
  next
    case False
    then have "(if ok then sql_insert uniq ?r (rows s) else None) = None" unfolding sql_insert_def by auto
    then have "pool_allocate uniq ok n u b s = (- 1, s\<lparr>lastOID := lastOID s + 1 - 1\<rparr>)"
      using l' unfolding pool_allocate_def Let_def by (cases ok) simp_all
    then have "t = s\<lparr>lastOID := lastOID s + 1 - 1\<rparr>" using a by (simp only: prod.inject)
    then show thesis using that(1) eq by simp
  qed
  then show ?thesis
  proof cases
    case 2
    have "same_cache s (t\<lparr>lastOID := lastOID s\<rparr>)" by (simp add: 2 same_cache_def)
    then have m: "cache_maps key (t\<lparr>lastOID := lastOID s\<rparr>)" by (rule cache_maps_same [OF c(1)])
    have "cache_maps key t" using m by (simp add: cache_maps_def)
    moreover have "cache_rows uniq t"
      unfolding cache_rows_def
    proof (intro conjI allI impI)
      show "distinct (map r_oid (rows t))" using d(1,2) by (force simp: 2)
      show "\<forall>r\<in>set (rows t). r_oid r \<le> lastOID t" using d(2) by (force simp: 2)
      show "\<forall>r\<in>set (rows t). \<forall>r'\<in>set (rows t). r_oid r \<noteq> r_oid r' \<longrightarrow> \<not> uniq (name_uid r) (name_uid r')"
        using d(3) 2(1) sym by (auto simp: 2(2))
      fix p ob assume "heap t p = Some ob"
      then have h: "heap s p = Some ob" by (simp add: 2)
      show "oid ob \<le> lastOID t" using d(4) [OF h] by (simp add: 2)
      show "if valid ob then obj_row ob \<in> set (rows t) else \<forall>r\<in>set (rows t). r_oid r \<noteq> oid ob"
        using d(4-6) [OF h] by (auto simp: 2)
    qed
    ultimately show ?thesis by blast
  qed (use c in simp)
qed

context pool_kind
begin

lemma get_name_keeps:
  assumes g: "get_name key w n u olock s = Done (x, t)" and w: "holders uniq s (w s)" and u: "asked u"
    and c: "cache_maps key s" "cache_rows uniq s"
  shows "cache_maps key t \<and> cache_rows uniq t"
proof -
  note d = cache_mapsD [OF c(1)]
  define old where "old = mfind (name_pool s) (key n u)"
  consider (load) "(\<forall>p. old = Some p \<longrightarrow> \<not> is_valid p s \<and> heap s p \<noteq> None)"
      "(case select_name n u (rows s) of None \<Rightarrow> Done (None, s)
        | Some r \<Rightarrow> bind_res (case old of None \<Rightarrow> Done s | Some p \<Rightarrow> evict w (\<lambda>ob. key (name ob) (uid ob)) p s)
                       (cache_insert key r olock)) = Done (x, t)"
    | (lock) p s1 where "obj_lock w p s = Done s1" "t = s1 \<or> t = obj_unlock p s1"
    | (plain) "t = s"
    using g by (auto simp: get_name_def Let_def old_def bind_res_Done_iff split: if_splits option.splits)
  then show ?thesis
  proof cases
    case plain
    then show ?thesis using c by simp
  next
    case lock
    note l = obj_lock_keeps [OF lock(1) w c]
    have ob: "holders uniq s1 (obj_unlock p s1)"
    proof -
      obtain x where "heap s1 p = Some x" using l(4) by blast
      moreover have "locked x" using lock(1) calculation
        by (auto simp: obj_lock_def Let_def heap_set_obj split: option.splits if_splits)
      ultimately have "holder_step uniq s1 (obj_unlock p s1)" by (rule H_unlock)
      then show ?thesis by (rule r_into_rtranclp)
    qed
    show ?thesis using lock(2) l(2,3) holders_keep(2,3) [OF ob l(2,3)] by blast
  next
    case load
    show ?thesis
    proof (cases "select_name n u (rows s)")
      case None
      then show ?thesis using load c by simp
    next
      case (Some r)
      then have r: "r \<in> set (rows s)" "r_name r = n" "u \<noteq> - 1 \<longrightarrow> r_uid r = u" using select_name_row by blast+
      then have k: "key (r_name r) (r_uid r) = key n u" using key_asked [OF u] by blast
      have un: "mfind (pool s) (r_oid r) = None"
      proof (cases "mfind (pool s) (r_oid r)")
        case (Some q)
        then obtain y where y: "heap s q = Some y" "oid y = r_oid r" using d(3) by blast
        have v: "valid y" using cache_rowsD(6) [OF c(2) y(1) _ r(1)] y(2) by auto
        then have "obj_row y \<in> set (rows s)" using cache_rowsD(5) [OF c(2) y(1)] by blast
        moreover have "r_oid (obj_row y) = r_oid r" using y(2) by (simp add: obj_row_def)
        ultimately have "obj_row y = r" using r(1) cache_rowsD(1) [OF c(2)] by (metis (full_types) inj_on_def distinct_map)
        then have "key (name y) (uid y) = key n u" using k by (auto simp: obj_row_def)
        then have "old = Some q" using d(6) [OF y(1)] by (simp add: old_def)
        then show ?thesis using load(1) y(1) v by (simp add: is_valid_def)
      qed
      obtain s1 where s1: "(case old of None \<Rightarrow> Done s | Some p \<Rightarrow> evict w (\<lambda>ob. key (name ob) (uid ob)) p s) = Done s1"
        and ins: "cache_insert key r olock s1 = Done (x, t)"
        using load(2) Some by (auto simp: bind_res_Done_iff)
      have "cache_maps key s1 \<and> cache_rows uniq s1 \<and> mfind (pool s1) (r_oid r) = None \<and>
          mfind (name_pool s1) (key (r_name r) (r_uid r)) = None \<and> r \<in> set (rows s1)"
      proof (cases old)
        case None
        then show ?thesis using s1 c un r(1) k by (simp add: old_def)
      next
        case (Some p)
        obtain o0 where o0: "heap s p = Some o0" "key (name o0) (uid o0) = key n u" using d(4) Some by (auto simp: old_def)
        have "evict w (\<lambda>ob. key (name ob) (uid ob)) p s = Done s1" using s1 Some by simp
        note e = evict_keeps [OF this w c o0(1)]
        have "ident y = ident o0 \<Longrightarrow> key (name y) (uid y) = key (name o0) (uid o0)" for y by (simp add: ident_def)
        note e = e(1-5) [OF this]
        show ?thesis using e o0(2) r(1) un k by auto
      qed
      then show ?thesis using cache_insert_keeps [OF _ _ _ _ _ ins, of uniq] by simp
    qed
  qed
qed

lemma chown_keeps:
  assumes c: "cache_maps key s" "cache_rows uniq s" and ob: "heap s p = Some ob" "valid ob"
    and free: "\<forall>r \<in> set (rows s). uniq (name_uid r) (name ob, noid) \<longrightarrow> r_oid r = oid ob"
      "mfind (name_pool s) (key (name ob) noid) \<in> {None, Some p}"
  shows "cache_maps key (chown key uniq (\<lambda>q. q) noid p s) \<and> cache_rows uniq (chown key uniq (\<lambda>q. q) noid p s)"
proof -
  let ?t = "chown key uniq (\<lambda>q. q) noid p s" and ?o = "ob\<lparr>uid := noid, locked := False\<rparr>"
  let ?k = "key (name ob) (uid ob)" and ?k' = "key (name ob) noid"
  note d = cache_mapsD [OF c(1)] and e = cache_rowsD [OF c(2)]
  have np: "mfind (name_pool s) ?k = Some p" using d(6) [OF ob(1)] .
  have k': "mfind (merase ?k (name_pool s)) ?k' = None"
    using free(2) np d(4) [of ?k' p] ob(1) by (auto simp: mfind_merase)
  have f: "pool ?t = pool s" "oid_queue ?t = oid_queue s" "fresh ?t = fresh s" "lastOID ?t = lastOID s"
    "name_pool ?t = minsert ?k' p (merase ?k (name_pool s))" "heap ?t = (heap s)(p \<mapsto> ?o)"
    "rows ?t = sql_replace uniq (obj_row ?o) (rows s)"
    using ob(1) np k' by (simp_all add: chown_def chown_object_def update_cache_index_def obj_unlock_def obj_update_def
        set_obj_def Let_def obj_row_def)
  have mn: "mfind (name_pool ?t) j = (if j = ?k' then Some p else if j = ?k then None else mfind (name_pool s) j)" for j
    using mfind_minsert [OF map_ok_merase [OF d(2)], of ?k' p ?k j] k' by (simp add: f mfind_merase)
  have other: "oid x \<noteq> oid ob" "key (name x) (uid x) \<noteq> ?k" "key (name x) (uid x) \<noteq> ?k'"
    if "heap s q = Some x" "q \<noteq> p" for q x
    using d(5,6) [OF that(1)] d(5) [OF ob(1)] np free(2) that(2) by auto
  have m: "cache_maps key ?t"
    unfolding cache_maps_def f(1-3)
  proof (intro conjI allI impI)
    show "map_ok (pool s)" "map_ok (name_pool ?t)" using d(1,2) by (simp_all add: f)
    show "\<exists>x. heap ?t q = Some x \<and> oid x = i" if "mfind (pool s) i = Some q" for i q
      using d(3) [OF that] ob(1) by (cases "q = p") (auto simp: f)
    show "\<exists>x. heap ?t q = Some x \<and> key (name x) (uid x) = j" if "mfind (name_pool ?t) j = Some q" for j q
      using that d(4) [of j q] ob(1) by (cases "q = p") (auto simp: mn f(6) split: if_splits)
    fix q x assume h: "heap ?t q = Some x"
    have "mfind (pool s) (oid x) = Some q \<and> mfind (name_pool ?t) (key (name x) (uid x)) = Some q \<and>
      oid x \<in> set (oid_queue s) \<and> q < fresh s"
    proof (cases "q = p")
      case True
      then have "x = ?o" using h by (simp add: f)
      then show ?thesis using True d(5-8) [OF ob(1)] by (simp add: mn)
    next
      case False
      then have y: "heap s q = Some x" using h by (simp add: f)
      show ?thesis using d(5-8) [OF y] other [OF y False] by (simp add: mn)
    qed
    then show "mfind (pool s) (oid x) = Some q" "mfind (name_pool ?t) (key (name x) (uid x)) = Some q"
      "oid x \<in> set (oid_queue s)" "q < fresh s" by blast+
  qed
  have own: "obj_row ob \<in> set (rows s)" using e(5) [OF ob] .
  have rs: "set (rows ?t) = {r \<in> set (rows s). r_oid r \<noteq> oid ob} \<union> {obj_row ?o}"
    unfolding f(7) sql_replace_def using free(1) by (auto simp: obj_row_def)
  have "cache_rows uniq ?t"
    unfolding cache_rows_def f(4)
  proof (intro conjI allI impI)
    show "distinct (map r_oid (rows ?t))" unfolding f(7) using e(1) by (rule distinct_sql_replace)
    show "\<forall>r\<in>set (rows ?t). r_oid r \<le> lastOID s" unfolding rs using e(2,4) ob(1) by (auto simp: obj_row_def)
    have "\<not> uniq (name_uid r) (name ob, noid)" "\<not> uniq (name ob, noid) (name_uid r)"
      if "r \<in> set (rows s)" "r_oid r \<noteq> oid ob" for r
      using free(1) that uniq_sym by blast+
    then show "\<forall>r\<in>set (rows ?t). \<forall>r'\<in>set (rows ?t). r_oid r \<noteq> r_oid r' \<longrightarrow> \<not> uniq (name_uid r) (name_uid r')"
      unfolding rs using e(3) by (auto simp: obj_row_def)
    fix q x assume h: "heap ?t q = Some x"
    have "oid x \<le> lastOID s \<and> (if valid x then obj_row x \<in> set (rows ?t) else \<forall>r\<in>set (rows ?t). r_oid r \<noteq> oid x)"
    proof (cases "q = p")
      case True
      then have "x = ?o" using h by (simp add: f)
      then show ?thesis using e(4) [OF ob(1)] ob(2) by (simp add: rs)
    next
      case False
      then have y: "heap s q = Some x" using h by (simp add: f)
      show ?thesis using e(4-6) [OF y] other(1) [OF y False] unfolding rs by (auto simp: obj_row_def)
    qed
    then show "oid x \<le> lastOID s" "if valid x then obj_row x \<in> set (rows ?t) else \<forall>r\<in>set (rows ?t). r_oid r \<noteq> oid x"
      by blast+
  qed
  with m show ?thesis by blast
qed

end

subsection \<open>Runs\<close>

text \<open>
  Threads that hold objects, creations, both \<open>get\<close>s (the holders go on while a \<open>get\<close> waits) and changes of owner
  that find neither a row nor a cached object with the name of the object and its new owner, taken as one step.
\<close>

inductive pool_step ::
  "(string \<Rightarrow> int \<Rightarrow> string) \<Rightarrow> (string \<times> int \<Rightarrow> string \<times> int \<Rightarrow> bool) \<Rightarrow> (int \<Rightarrow> bool) \<Rightarrow>
   'a pool_sql \<Rightarrow> 'a pool_sql \<Rightarrow> bool"
  for key :: "string \<Rightarrow> int \<Rightarrow> string" and uniq :: "string \<times> int \<Rightarrow> string \<times> int \<Rightarrow> bool" and asked :: "int \<Rightarrow> bool" where
  P_holder: "holder_step uniq s t \<Longrightarrow> pool_step key uniq asked s t"
| P_allocate: "lastOID s < INT_MAX \<Longrightarrow> pool_allocate uniq ok n u b s = (i, t) \<Longrightarrow> pool_step key uniq asked s t"
| P_get: "holders uniq s (w s) \<Longrightarrow> get_oid key w i olock s = Done (x, t) \<Longrightarrow> pool_step key uniq asked s t"
| P_get_name: "holders uniq s (w s) \<Longrightarrow> asked u \<Longrightarrow> get_name key w n u olock s = Done (x, t) \<Longrightarrow>
    pool_step key uniq asked s t"
| P_chown: "heap s p = Some ob \<Longrightarrow> valid ob \<Longrightarrow> locked ob \<Longrightarrow>
    \<forall>r \<in> set (rows s). uniq (name_uid r) (name ob, noid) \<longrightarrow> r_oid r = oid ob \<Longrightarrow>
    mfind (name_pool s) (key (name ob) noid) \<in> {None, Some p} \<Longrightarrow>
    pool_step key uniq asked s (chown key uniq (\<lambda>q. q) noid p s)"

definition pool_run :: "table_kind \<Rightarrow> 'a pool_sql \<Rightarrow> bool" where
  "pool_run k s \<longleftrightarrow> (\<exists>i rs. cache_rows (table_unique k) (new_pool i rs) \<and>
     (pool_step (pool_key k) (table_unique k) (lookup_uid k))\<^sup>*\<^sup>* (new_pool i rs) s)"

context pool_kind
begin

lemma pool_step_keeps:
  assumes "pool_step key uniq asked s t" "cache_maps key s \<and> cache_rows uniq s"
  shows "cache_maps key t \<and> cache_rows uniq t"
  using assms
proof (induction rule: pool_step.induct)
  case (P_holder s t)
  then show ?case using holders_keep(2,3) [OF r_into_rtranclp [of "holder_step uniq", OF P_holder(1)]] by blast
next
  case (P_allocate s ok n u b i t)
  then show ?case using pool_allocate_keeps [OF P_allocate(2,1)] uniq_sym by blast
next
  case (P_get s w i olock x t)
  then show ?case using get_oid_keeps [OF P_get(2,1)] by blast
next
  case (P_get_name s w u n olock x t)
  then show ?case using get_name_keeps [OF P_get_name(3,1,2)] by blast
next
  case (P_chown s p ob noid)
  then show ?case using chown_keeps [OF _ _ P_chown(1,2,4,5)] by blast
qed

lemma pool_steps_keep:
  "(pool_step key uniq asked)\<^sup>*\<^sup>* s t \<Longrightarrow> cache_maps key s \<and> cache_rows uniq s \<Longrightarrow> cache_maps key t \<and> cache_rows uniq t"
proof (induction rule: rtranclp_induct)
  case (step t u)
  show ?case using pool_step_keeps [OF step(2)] step(3,4) by blast
qed blast

end

lemma cache_maps_new: "cache_maps key (new_pool i rs)"
  by (simp add: cache_maps_def new_pool_def)

lemma pool_run_inv:
  assumes "pool_run k s"
  shows "cache_maps (pool_key k) s" "cache_rows (table_unique k) s"
proof -
  obtain i rs where "cache_rows (table_unique k) (new_pool i rs)"
    "(pool_step (pool_key k) (table_unique k) (lookup_uid k))\<^sup>*\<^sup>* (new_pool i rs) s"
    using assms by (auto simp: pool_run_def)
  then show "cache_maps (pool_key k) s" "cache_rows (table_unique k) s"
    using kinds.pool_steps_keep cache_maps_new by blast+
qed

text \<open>\<open>clean\<close> waits for the objects in use and leaves nothing behind but the queue.\<close>

lemma delete_objects_unlocked:
  assumes "\<forall>p ob. heap s p = Some ob \<longrightarrow> \<not> locked ob" "\<forall>ip \<in> set ips. heap s (snd ip) \<noteq> None" "distinct (map snd ips)"
  shows "\<exists>t. delete_objects w ips s = Done t \<and> pool t = pool s \<and> name_pool t = name_pool s \<and>
    heap t = (\<lambda>p. if p \<in> snd ` set ips then None else heap s p) \<and> rows t = rows s \<and> oid_queue t = oid_queue s"
  using assms
proof (induction ips arbitrary: s)
  case (Cons ip ips)
  obtain ob where ob: "heap s (snd ip) = Some ob" "\<not> locked ob" using Cons.prems(1,2) by auto
  let ?s = "(set_obj (snd ip) (locked_update (\<lambda>_. True)) s)"
  let ?t = "?s\<lparr>heap := (heap ?s)(snd ip := None)\<rparr>"
  have h: "heap ?t = (heap s)(snd ip := None)" by (simp add: set_obj_def fun_eq_iff)
  have "\<exists>t. delete_objects w ips ?t = Done t \<and> pool t = pool ?t \<and> name_pool t = name_pool ?t \<and>
    heap t = (\<lambda>p. if p \<in> snd ` set ips then None else heap ?t p) \<and> rows t = rows ?t \<and> oid_queue t = oid_queue ?t"
    by (rule Cons.IH) (use Cons.prems h in \<open>auto simp: image_iff split: if_splits\<close>)
  then obtain t where "delete_objects w ips ?t = Done t" "pool t = pool s" "name_pool t = name_pool s"
    "heap t = (\<lambda>p. if p \<in> snd ` set ips then None else heap ?t p)" "rows t = rows s" "oid_queue t = oid_queue s"
    by auto
  then show ?case using ob unfolding h by (auto simp: obj_lock_def Let_def)
qed simp

lemma pool_clean_empties:
  assumes "cache_maps key s" "\<forall>p ob. heap s p = Some ob \<longrightarrow> \<not> locked ob"
  shows "\<exists>t. pool_clean w s = Done t \<and> pool t = [] \<and> name_pool t = [] \<and> heap t = (\<lambda>_. None) \<and> rows t = rows s"
proof -
  note d = cache_mapsD [OF assms(1)]
  have f: "mfind (pool s) i = Some p" if "(i, p) \<in> set (pool s)" for i p
    using that map_ok_distinct [OF d(1)] by simp
  have "distinct (map snd (pool s))"
  proof -
    have "inj_on snd (set (pool s))"
    proof (rule inj_onI)
      fix x y assume a: "x \<in> set (pool s)" "y \<in> set (pool s)" "snd x = snd y"
      then obtain ox oy where "heap s (snd x) = Some ox" "oid ox = fst x" "heap s (snd y) = Some oy" "oid oy = fst y"
        using d(3) f by (metis prod.collapse)
      then show "x = y" using a(3) by (simp add: prod_eq_iff)
    qed
    then show ?thesis using map_ok_distinct [OF d(1)] by (simp add: distinct_map)
  qed
  moreover have "\<forall>ip \<in> set (pool s). heap s (snd ip) \<noteq> None" using f d(3) by (metis option.distinct(1) prod.collapse)
  ultimately obtain t where t: "delete_objects w (pool s) s = Done t" "rows t = rows s"
      "heap t = (\<lambda>p. if p \<in> snd ` set (pool s) then None else heap s p)"
    using delete_objects_unlocked [OF assms(2)] by blast
  have "heap t p = None" for p
  proof (cases "heap s p")
    case (Some ob)
    then have "(oid ob, p) \<in> set (pool s)" using d(5) by (auto dest: map_of_SomeD)
    then show ?thesis by (force simp: t(3))
  qed (simp add: t(3))
  then show ?thesis using t by (simp add: pool_clean_def fun_eq_iff)
qed

text \<open>The counter starts after every identifier in use, unless that is the greatest integer.\<close>

lemma counter_fresh:
  "greatest = Some n \<Longrightarrow> n \<noteq> INT_MAX \<Longrightarrow> next_counter (init_counter greatest) = n + 1"
  by (simp add: init_counter_def next_counter_def)

subsection \<open>Two images of one user in the cache, the first in use\<close>

definition image_row :: "int \<Rightarrow> string \<Rightarrow> int \<Rightarrow> nat row" where
  "image_row i n u = \<lparr>r_oid = i, r_name = n, r_uid = u, r_body = 0\<rparr>"

definition image_obj :: "int \<Rightarrow> string \<Rightarrow> int \<Rightarrow> bool \<Rightarrow> bool \<Rightarrow> nat pool_obj" where
  "image_obj i n u v l = \<lparr>oid = i, name = n, uid = u, contents = 0, valid = v, locked = l\<rparr>"

definition two_images :: "nat pool_sql" where
  "two_images = \<lparr>pool = [(1, 0), (2, 1)], name_pool = [(''a:2'', 0), (''b:2'', 1)],
     heap = [0 \<mapsto> image_obj 1 ''a'' 2 True True, 1 \<mapsto> image_obj 2 ''b'' 2 True False], fresh = 2, oid_queue = [1, 2],
     lastOID = 2, rows = [image_row 1 ''a'' 2, image_row 2 ''b'' 2]\<rparr>"

definition images_table :: "nat row list" where
  "images_table = [image_row 1 ''a'' 2, image_row 2 ''b'' 2]"

abbreviation "image_key \<equiv> pool_key Unique_name_uid"
abbreviation "image_unique \<equiv> table_unique Unique_name_uid"

lemma image_keys [simp]: "image_key n 2 = n @ '':2''" "image_key n 3 = n @ '':3''"
  by (simp_all add: pool_key_def key_name_uid_def int_string_def num_string.simps digit_char_def) code_simp+

definition first_image :: "nat pool_sql" where
  "first_image = two_images\<lparr>pool := [(1, 0)], name_pool := [(''a:2'', 0)], heap := [0 \<mapsto> image_obj 1 ''a'' 2 True True],
     fresh := 1, oid_queue := [1]\<rparr>"

lemma load_first: "get_oid image_key (\<lambda>t. t) 1 True (new_pool 2 images_table) = Done (Some 0, first_image)"
  by (simp add: get_oid_def new_pool_def images_table_def image_row_def select_oid_def Let_def cache_insert_def
      max_pool_size_def row_obj_def first_image_def two_images_def image_obj_def)

lemma load_second: "get_oid image_key (\<lambda>t. t) 2 False first_image = Done (Some 1, two_images)"
  by (simp add: get_oid_def image_row_def select_oid_def Let_def cache_insert_def
      max_pool_size_def row_obj_def first_image_def two_images_def image_obj_def)

lemma two_images_run: "pool_run Unique_name_uid two_images"
proof -
  have "cache_rows image_unique (new_pool 2 images_table)"
    by (simp add: cache_rows_def new_pool_def images_table_def image_row_def table_unique_def)
  moreover have "pool_step image_key image_unique (lookup_uid Unique_name_uid) (new_pool 2 images_table) first_image"
    "pool_step image_key image_unique (lookup_uid Unique_name_uid) first_image two_images"
    by (rule P_get [OF _ load_first] P_get [OF _ load_second], simp)+
  then have "(pool_step image_key image_unique (lookup_uid Unique_name_uid))\<^sup>*\<^sup>* (new_pool 2 images_table) two_images"
    by (meson converse_rtranclp_into_rtranclp rtranclp.rtrancl_refl)
  ultimately show ?thesis unfolding pool_run_def by blast
qed

lemma heap_two_images: "heap two_images 0 = Some (image_obj 1 ''a'' 2 True True)" "heap two_images 1 = Some (image_obj 2 ''b'' 2 True False)"
  by (simp_all add: two_images_def)

subsection \<open>What the conditions of \<open>pool_step\<close> exclude\<close>

text \<open>
  RequestManagerChown releases the object before it updates the index.  A request that looks the object up under its
  new owner in between loads it a second time: two threads hold two objects of one row.
\<close>

lemma chown_races_get:
  "case get_name image_key (\<lambda>t. t) ''a'' 3 True (chown_object image_unique 3 0 two_images) of
     Done (Some q, t) \<Rightarrow> q \<noteq> 0 \<and> mfind (pool t) 1 = Some 0 \<and> mfind (name_pool t) ''a:3'' = Some q \<and>
       map_option oid (heap t q) = Some 1 \<and> map_option oid (heap t 0) = Some 1
   | _ \<Rightarrow> False"
  by (simp add: get_name_def chown_object_def obj_unlock_def obj_update_def set_obj_def obj_row_def sql_replace_def
      table_unique_def select_name_def two_images_def image_obj_def image_row_def Let_def cache_insert_def
      max_pool_size_def row_obj_def)

text \<open>
  A dropped object stays in the index until its name is loaded again.  If an object with its name gets its owner
  meanwhile, the index is not updated, and the next look-up by name loads a second object of the same row.
\<close>

lemma chown_to_dropped_name:
  "case get_name image_key (\<lambda>t. t) ''a'' 3 False
          (chown image_key image_unique (\<lambda>q. q) 3 0
            (two_images\<lparr>name_pool := [(''a:2'', 0), (''a:3'', 1)], rows := [image_row 1 ''a'' 2],
                        heap := [0 \<mapsto> image_obj 1 ''a'' 2 True True, 1 \<mapsto> image_obj 2 ''a'' 3 False False]\<rparr>)) of
     Done (Some q, t) \<Rightarrow> q \<noteq> 0 \<and> mfind (pool t) 1 = Some 0 \<and> mfind (name_pool t) ''a:3'' = Some q \<and>
       map_option oid (heap t q) = Some 1 \<and> map_option oid (heap t 0) = Some 1
   | _ \<Rightarrow> False"
  by (simp add: get_name_def chown_def update_cache_index_def chown_object_def obj_unlock_def obj_update_def set_obj_def
      obj_row_def sql_replace_def table_unique_def select_name_def two_images_def image_obj_def image_row_def Let_def
      cache_insert_def max_pool_size_def row_obj_def merase_def is_valid_def evict_def obj_lock_def)

text \<open>
  When the object is dropped while a thread waits for it, \<open>get\<close> by identifier returns null and keeps its mutex; \<open>get\<close> by
  name releases it.  Nobody can release it then, and the next look-up of the name that finds a row waits for it, with
  the mutex of the pool held.
\<close>

definition drops :: "ptr \<Rightarrow> 'a pool_sql \<Rightarrow> 'a pool_sql" where
  "drops p s = obj_unlock p (snd (obj_drop True p s))"

lemma get_leaks_mutex:
  assumes "mfind (pool s) i = Some p" "heap s p = Some ob" "valid ob" "locked ob"
  shows "\<exists>t. get_oid key (drops p) i True s = Done (None, t) \<and> heap t p = Some (ob\<lparr>valid := False, locked := True\<rparr>)"
  using assms
  by (simp add: get_oid_def is_valid_def obj_lock_def drops_def obj_drop_def obj_unlock_def set_obj_def Let_def)

lemma get_name_releases_mutex:
  assumes "mfind (name_pool s) (key n u) = Some p" "heap s p = Some ob" "valid ob" "locked ob"
  shows "\<exists>t. get_name key (drops p) n u True s = Done (None, t) \<and> heap t p = Some (ob\<lparr>valid := False, locked := False\<rparr>)"
  using assms
  by (simp add: get_name_def is_valid_def obj_lock_def drops_def obj_drop_def obj_unlock_def set_obj_def Let_def)

lemma leaked_mutex_blocks_pool:
  assumes "mfind (name_pool s) (key n u) = Some p" "heap s p = Some ob" "\<not> valid ob" "locked ob"
    and "select_name n u (rows s) = Some r"
  shows "get_name key (\<lambda>t. t) n u olock s = Blocked"
  using assms by (simp add: get_name_def is_valid_def evict_def obj_lock_def Let_def)

text \<open>After the identifiers have wrapped around, a new row can have the identifier of a dropped object that is cached.\<close>

lemma wrapped_identifier:
  "fst (pool_allocate image_unique True ''c'' 2 0 (two_images\<lparr>lastOID := INT_MAX\<rparr>)) = 0"
  by (simp add: pool_allocate_def two_images_def sql_insert_def image_row_def table_unique_def)

subsection \<open>Properties\<close>

text \<open>C26. Along the runs of \<open>pool_step\<close>, an object that the pool has in memory is the only one with its identifier, it is what
  both maps give for its identifier and for its name and owner, and its data are those of its row; the table has no row of
  an object that was dropped and is still in memory.  In these runs the threads get, create, change, drop and evict objects in
  any order, and insertions and deletions of rows may fail.  But an update of a row succeeds (otherwise the change stays in
  memory only); the identifiers have not come to the greatest \<open>int\<close>, after which they start again
  (\<open>wrapped_identifier\<close>); and a change of owner is one step, to an owner for whom neither the table nor the cache has the name:
  in the source another thread can get the object between the change and the update of the index (\<open>chown_races_get\<close>), and the
  name of a dropped object that is still in memory can be taken (\<open>chown_to_dropped_name\<close>).\<close>

theorem cache_mirrors_table:
  assumes "pool_run k s" "heap s p = Some ob"
  shows "mfind (pool s) (oid ob) = Some p \<and> mfind (name_pool s) (pool_key k (name ob) (uid ob)) = Some p \<and>
    (\<forall>q ob'. heap s q = Some ob' \<longrightarrow> oid ob' = oid ob \<longrightarrow> q = p) \<and>
    (if valid ob then obj_row ob \<in> set (rows s) else \<forall>r \<in> set (rows s). r_oid r \<noteq> oid ob)"
proof (intro conjI allI impI)
  note m = cache_mapsD [OF pool_run_inv(1) [OF assms(1)]] and r = cache_rowsD [OF pool_run_inv(2) [OF assms(1)]]
  show "mfind (pool s) (oid ob) = Some p" "mfind (name_pool s) (pool_key k (name ob) (uid ob)) = Some p"
    using m(5,6) [OF assms(2)] .
  show "q = p" if "heap s q = Some ob'" "oid ob' = oid ob" for q ob' using m(5) [OF that(1)] m(5) [OF assms(2)] that(2) by simp
  show "if valid ob then obj_row ob \<in> set (rows s) else \<forall>r \<in> set (rows s). r_oid r \<noteq> oid ob"
    using r(5,6) [OF assms(2)] by auto
qed

theorem cache_mirrors_table_witness:
  "mfind (pool two_images) 2 = Some 1 \<and> mfind (name_pool two_images) ''b:2'' = Some 1 \<and>
   image_row 2 ''b'' 2 \<in> set (rows two_images)"
  using cache_mirrors_table [OF two_images_run heap_two_images(2)]
  by (simp add: image_obj_def obj_row_def image_row_def)

text \<open>C27. \<open>replace\<close> returns exactly when the mutex of some cached object is free, and then it has removed the first such
  object of the queue and nothing else; with all objects in use it goes round the queue for ever.\<close>

theorem replace_evicts_first_idle:
  assumes "pool_run k s" "heap s p0 = Some o0"
  shows "(case find (idle s) (oid_queue s) of
            None \<Rightarrow> pool_replace (pool_key k) s = None \<and> (\<forall>p ob. heap s p = Some ob \<longrightarrow> locked ob)
          | Some i \<Rightarrow> (\<exists>t p. pool_replace (pool_key k) s = Some (Done t) \<and> mfind (pool s) i = Some p \<and>
               heap t = (heap s)(p := None) \<and> pool t = merase i (pool s) \<and> rows t = rows s))"
  using pool_run_inv(1) [OF assms(1)] assms(2)
proof (cases rule: replace_cases)
  case (evicted xs i q p ob)
  have "idle s i" using evicted(3-5) by (simp add: idle_def)
  then have "find (idle s) (oid_queue s) = Some i"
    unfolding evicted(1) using evicted(2) by (induction xs) auto
  then show ?thesis using evicted(3,7) by auto
next
  case spins
  then have "find (idle s) (oid_queue s) = None"
    using idle_iff [OF pool_run_inv(1) [OF assms(1)]] by (auto simp: find_None_iff)
  then show ?thesis using spins by simp
qed

theorem replace_evicts_first_idle_witness:
  "\<exists>t. pool_replace image_key two_images = Some (Done t) \<and> heap t 1 = None \<and> pool t = [(1, 0)]"
proof -
  have "find (idle two_images) (oid_queue two_images) = Some 2" "mfind (pool two_images) 2 = Some 1"
    "merase 2 (pool two_images) = [(1, 0)]"
    by (simp_all add: two_images_def idle_def image_obj_def merase_def)
  then show ?thesis using replace_evicts_first_idle [OF two_images_run heap_two_images(1)] by auto
qed

text \<open>A change of owner keeps the row of another image or network exactly if it does not have the name of the object
  and its new owner: the REPLACE statement deletes such a row, and nothing checks for one.\<close>

theorem chown_keeps_other_rows:
  assumes "heap s p = Some ob" "r \<in> set (rows s)" "r_oid r \<noteq> oid ob"
  shows "r \<in> set (rows (chown (pool_key Unique_name_uid) (table_unique Unique_name_uid) freed noid p s)) \<longleftrightarrow>
     name_uid r \<noteq> (name ob, noid)"
proof -
  have "rows (update_cache_index key freed a b c d t) = rows t" for key :: "string \<Rightarrow> int \<Rightarrow> string" and a b c d and t :: "'a pool_sql"
    by (simp add: update_cache_index_def Let_def split: option.splits)
  moreover have "r \<noteq> x" if "r_oid x = oid ob" for x using assms(3) that by auto
  ultimately show ?thesis
    using assms by (auto simp: chown_def chown_object_def obj_unlock_def obj_update_def set_obj_def sql_replace_def
        obj_row_def table_unique_def)
qed

theorem chown_keeps_other_rows_witness:
  "image_row 2 ''a'' 3 \<notin> set (rows (chown image_key image_unique (\<lambda>q. q) 3 0
     (two_images\<lparr>rows := [image_row 1 ''a'' 2, image_row 2 ''a'' 3]\<rparr>)))"
  using chown_keeps_other_rows [of "two_images\<lparr>rows := [image_row 1 ''a'' 2, image_row 2 ''a'' 3]\<rparr>" 0
      "image_obj 1 ''a'' 2 True True" "image_row 2 ''a'' 3" "\<lambda>q. q" 3]
  by (simp add: heap_two_images image_obj_def image_row_def)

end
