(* ===== verification/Monitoring.thy ===== *)
theory Monitoring
  imports HostPool Templates
begin

text \<open>
  The information manager: its timer (src/im/InformationManager.cc), the request to a driver and the driver's answer
  (src/im/InformationManagerDriver.cc), with \<open>Host::update_info\<close> (src/host/Host.cc) and \<open>HostPool::discover\<close>.

  A host has here its information driver, the template of its monitoring values and the counters that are read from it.
  \<open>im_hosts\<close> are the objects, \<open>im_rows\<close> their rows, \<open>im_piped\<close> the lines written to the drivers, \<open>im_db_ok\<close> the outcome of
  a write.  Each statement takes and releases the mutex of one host.  The parser of the monitoring values is an argument.
\<close>

subsection \<open>Hosts and their monitoring values\<close>

record im_host = host +
  im_mad_of :: string
  h_tmpl :: tmpl
  free_cpu :: int
  free_mem :: int
  used_cpu :: int
  used_mem :: int

record im_state =
  im_hosts :: "int \<Rightarrow> im_host option"
  im_rows :: "int \<Rightarrow> im_host option"
  im_db_ok :: bool
  im_piped :: "(string \<times> string) list"

definition im_update :: "int \<Rightarrow> im_host \<Rightarrow> im_state \<Rightarrow> im_state" where
  "im_update i h s = s\<lparr>im_hosts := (im_hosts s)(i \<mapsto> h),
     im_rows := (if im_db_ok s then (im_rows s)(i \<mapsto> h) else im_rows s)\<rparr>"

text \<open>
  \<open>update_info\<close>: the values are parsed into the template of the host, then the counters are read from it; a value that
  is missing reads as 0.
\<close>

definition host_counter :: "tmpl \<Rightarrow> string \<Rightarrow> int \<Rightarrow> int" where
  "host_counter t n old = snd (tmpl_get_int old n t)"

definition update_info :: "(string \<Rightarrow> tmpl \<Rightarrow> int \<times> tmpl) \<Rightarrow> string \<Rightarrow> im_host \<Rightarrow> int \<times> im_host" where
  "update_info parse info h = (case parse info (h_tmpl h) of (rc, t) \<Rightarrow>
     if rc \<noteq> 0 then (- 1, h\<lparr>h_tmpl := t\<rparr>)
     else let sh = host_share h; sh = sh\<lparr>max_cpu := host_counter t ''TOTALCPU'' (max_cpu sh),
                                         max_mem := host_counter t ''TOTALMEMORY'' (max_mem sh)\<rparr>
       in (0, h\<lparr>h_tmpl := t, host_share := sh,
                free_cpu := host_counter t ''FREECPU'' (free_cpu h), free_mem := host_counter t ''FREEMEMORY'' (free_mem h),
                used_cpu := host_counter t ''USEDCPU'' (used_cpu h), used_mem := host_counter t ''USEDMEMORY'' (used_mem h)\<rparr>))"

subsection \<open>The timer\<close>

text \<open>The \<open>SELECT\<close> of \<open>discover\<close>: the enabled hosts that were monitored longest ago.  \<open>ids\<close> are the rows of the table.\<close>

definition discover :: "int list \<Rightarrow> nat \<Rightarrow> im_state \<Rightarrow> int list" where
  "discover ids host_limit s = take host_limit (sort_key (\<lambda>i. last_monitored (the (im_rows s i)))
     (filter (\<lambda>i. case im_rows s i of None \<Rightarrow> False | Some h \<Rightarrow> h_state h \<noteq> H_DISABLED) ids))"

record im_env =
  im_loaded :: "string \<Rightarrow> bool"
  monitor_period :: int
  remotes_mtime :: int

definition monitor_line :: "int \<Rightarrow> string \<Rightarrow> bool \<Rightarrow> string" where
  "monitor_line i h update = ''MONITOR '' @ int_string i @ '' '' @ h @ '' '' @ (if update then ''1'' else ''0'')"

text \<open>
  The body of the loop for one host.  \<open>state\<close> is read before a monitoring that takes too long is given up, so that
  such a host is asked again in the next round.  The driver is the one that \<open>discover\<close> has read from the row.
\<close>

definition monitor_host :: "im_env \<Rightarrow> int \<Rightarrow> int \<times> string \<Rightarrow> im_state \<Rightarrow> im_state" where
  "monitor_host env t = (\<lambda>(i, mad) s. case im_hosts s i of None \<Rightarrow> s
     | Some h \<Rightarrow>
         let st = h_state h;
             (h, s) = (if st = H_MONITORING \<and> t - last_monitored h \<ge> 600
                       then (let h = h\<lparr>h_state := H_INIT\<rparr> in (h, im_update i h s)) else (h, s))
         in if st \<noteq> H_MONITORING \<and> st \<noteq> H_DISABLED \<and> t - last_monitored h \<ge> monitor_period env
            then (if \<not> im_loaded env mad then im_update i (h\<lparr>h_state := H_ERROR\<rparr>) s
                  else let upd = (remotes_mtime env \<noteq> 0 \<and> remotes_mtime env > last_monitored h);
                           s = s\<lparr>im_piped := im_piped s @ [(mad, monitor_line i (hostname_of h) upd)]\<rparr>
                       in im_update i (h\<lparr>h_state := H_MONITORING\<rparr>) s)
            else s)"

text \<open>The hosts are visited in the order of the map: by their identifiers.\<close>

definition im_timer_action :: "im_env \<Rightarrow> int list \<Rightarrow> nat \<Rightarrow> int \<Rightarrow> im_state \<Rightarrow> im_state" where
  "im_timer_action env ids host_limit t s =
     fold (monitor_host env t) (map (\<lambda>i. (i, im_mad_of (the (im_rows s i)))) (sort (discover ids host_limit s))) s"

subsection \<open>The answer of a driver\<close>

text \<open>The values come separated by commas, which become the ends of lines.\<close>

definition info_lines :: "string \<Rightarrow> string" where
  "info_lines hinfo = map (\<lambda>c. if c = CHR '','' then CHR 0x0A else c) hinfo @ [CHR 0x0A]"

definition set_error_message :: "string \<Rightarrow> string \<Rightarrow> im_host \<Rightarrow> im_host" where
  "set_error_message date msg h =
     h\<lparr>h_tmpl := tmpl_set ''ERROR'' (Vector [(''MESSAGE'', msg), (''TIMESTAMP'', date)]) (h_tmpl h)\<rparr>"

text \<open>
  \<open>protocol\<close>, for a line that could be read: its action, whether the result is SUCCESS, the host, the rest of the line
  and the line as a whole.
\<close>

definition im_protocol ::
  "(string \<Rightarrow> tmpl \<Rightarrow> int \<times> tmpl) \<Rightarrow> int \<Rightarrow> string \<Rightarrow> string \<Rightarrow> bool \<Rightarrow> int \<Rightarrow> string \<Rightarrow> string \<Rightarrow> im_state \<Rightarrow> im_state" where
  "im_protocol parse t date action success i hinfo line s = (
     if action \<noteq> ''MONITOR'' then s
     else case im_hosts s i of None \<Rightarrow> s
     | Some h \<Rightarrow>
         if success
         then (case update_info parse (info_lines hinfo) h of (rc, h') \<Rightarrow>
                 if rc = 0 then im_update i (host_touch t True h') s
                 else im_update i (host_touch t False (set_error_message date
                        (''Error parsing host information: '' @ info_lines hinfo) h')) s)
         else im_update i (host_touch t False (set_error_message date
                (''Error monitoring host '' @ int_string i @ '' : '' @ line) h)) s)"

end
