(* ===== verification/MonitoringSpec.thy ===== *)
theory MonitoringSpec
  imports Monitoring
begin

text \<open>
  What a round of the information manager does to every host, and which hosts it never reaches.
\<close>

subsection \<open>The hosts of a round\<close>

definition enabled_row :: "im_state \<Rightarrow> int \<Rightarrow> bool" where
  "enabled_row s i = (case im_rows s i of None \<Rightarrow> False | Some h \<Rightarrow> h_state h \<noteq> H_DISABLED)"

definition stamp :: "im_state \<Rightarrow> int \<Rightarrow> int" where
  "stamp s i = last_monitored (the (im_rows s i))"

lemma discover_eq: "discover ids n s = take n (sort_key (stamp s) (filter (enabled_row s) ids))"
  unfolding discover_def enabled_row_def [abs_def] stamp_def [abs_def] ..

lemma sort_key_take_least:
  assumes "x \<in> set (take n (sort_key f xs))" "y \<in> set xs" "y \<notin> set (take n (sort_key f xs))"
  shows "f x \<le> f y"
proof -
  have "y \<in> set (drop n (sort_key f xs))" using assms(2,3) by (metis Un_iff append_take_drop_id set_append set_sort)
  moreover have "sorted (map f (take n (sort_key f xs) @ drop n (sort_key f xs)))" by simp
  ultimately show ?thesis using assms(1) unfolding map_append sorted_append by auto
qed

lemma discover_least:
  assumes "i \<in> set ids" "enabled_row s i" "i \<notin> set (discover ids n s)"
  shows "length (discover ids n s) = n \<and> (\<forall>j \<in> set (discover ids n s). stamp s j \<le> stamp s i)"
proof
  have i: "i \<in> set (filter (enabled_row s) ids)" using assms(1,2) by simp
  show "\<forall>j \<in> set (discover ids n s). stamp s j \<le> stamp s i"
    using sort_key_take_least [OF _ i] assms(3) unfolding discover_eq by blast
  show "length (discover ids n s) = n"
  proof (rule ccontr)
    assume "length (discover ids n s) \<noteq> n"
    then have "length (sort_key (stamp s) (filter (enabled_row s) ids)) \<le> n" unfolding discover_eq by simp
    then have "discover ids n s = sort_key (stamp s) (filter (enabled_row s) ids)" unfolding discover_eq by simp
    then show False using i assms(3) by simp
  qed
qed

lemma discover_sub: "i \<in> set (discover ids n s) \<Longrightarrow> i \<in> set ids \<and> enabled_row s i"
  unfolding discover_eq by (auto dest: in_set_takeD)

lemma distinct_discover: "distinct ids \<Longrightarrow> distinct (discover ids n s)"
  unfolding discover_eq by simp

subsection \<open>One host\<close>

text \<open>Whether a host is asked, and its state after the round.\<close>

definition host_due :: "im_env \<Rightarrow> int \<Rightarrow> im_host \<Rightarrow> bool" where
  "host_due env t h \<longleftrightarrow> h_state h \<notin> {H_MONITORING, H_DISABLED} \<and> t - last_monitored h \<ge> monitor_period env"

definition state_after :: "im_env \<Rightarrow> int \<Rightarrow> string \<Rightarrow> im_host \<Rightarrow> host_state" where
  "state_after env t mad h =
     (if host_due env t h then (if im_loaded env mad then H_MONITORING else H_ERROR)
      else if h_state h = H_MONITORING \<and> t - last_monitored h \<ge> 600 then H_INIT else h_state h)"

definition asks :: "im_env \<Rightarrow> int \<Rightarrow> im_state \<Rightarrow> int \<times> string \<Rightarrow> bool" where
  "asks env t s = (\<lambda>(i, mad). im_loaded env mad \<and> (\<exists>h. im_hosts s i = Some h \<and> host_due env t h))"

definition line_for :: "im_env \<Rightarrow> im_state \<Rightarrow> int \<times> string \<Rightarrow> string \<times> string" where
  "line_for env s = (\<lambda>(i, mad). let h = the (im_hosts s i) in
     (mad, monitor_line i (hostname_of h) (remotes_mtime env \<noteq> 0 \<and> remotes_mtime env > last_monitored h)))"

lemma monitor_host_spec:
  "im_hosts (monitor_host env t (i, mad) s) =
     (\<lambda>k. if k = i then map_option (\<lambda>h. h\<lparr>h_state := state_after env t mad h\<rparr>) (im_hosts s i) else im_hosts s k)"
  "im_piped (monitor_host env t (i, mad) s) =
     im_piped s @ (if asks env t s (i, mad) then [line_for env s (i, mad)] else [])"
proof -
  have "im_hosts (monitor_host env t (i, mad) s) k =
     (if k = i then map_option (\<lambda>h. h\<lparr>h_state := state_after env t mad h\<rparr>) (im_hosts s i) else im_hosts s k)" for k
    by (cases "im_hosts s i")
       (auto simp: monitor_host_def im_update_def state_after_def host_due_def Let_def)
  then show "im_hosts (monitor_host env t (i, mad) s) =
     (\<lambda>k. if k = i then map_option (\<lambda>h. h\<lparr>h_state := state_after env t mad h\<rparr>) (im_hosts s i) else im_hosts s k)"
    by blast
  show "im_piped (monitor_host env t (i, mad) s) =
     im_piped s @ (if asks env t s (i, mad) then [line_for env s (i, mad)] else [])"
    by (cases "im_hosts s i")
       (auto simp: monitor_host_def im_update_def asks_def line_for_def host_due_def Let_def)
qed

lemma monitor_hosts_spec:
  "distinct (map fst ims) \<Longrightarrow>
   im_hosts (fold (monitor_host env t) ims s) = (\<lambda>k. case map_of ims k of None \<Rightarrow> im_hosts s k
      | Some mad \<Rightarrow> map_option (\<lambda>h. h\<lparr>h_state := state_after env t mad h\<rparr>) (im_hosts s k)) \<and>
   im_piped (fold (monitor_host env t) ims s) = im_piped s @ map (line_for env s) (filter (asks env t s) ims)"
proof (induction ims arbitrary: s)
  case (Cons im ims)
  obtain i mad where im: "im = (i, mad)" by force
  let ?s = "monitor_host env t (i, mad) s"
  have d: "distinct (map fst ims)" "i \<notin> fst ` set ims" using Cons.prems im by auto
  have h: "im_hosts ?s k = im_hosts s k" if "k \<noteq> i" for k using that by (simp add: monitor_host_spec(1))
  have "asks env t ?s x = asks env t s x \<and> line_for env ?s x = line_for env s x" if "x \<in> set ims" for x
  proof -
    have "fst x \<noteq> i" using d(2) that by force
    then show ?thesis using h by (cases x) (simp add: asks_def line_for_def)
  qed
  then have f: "map (line_for env ?s) (filter (asks env t ?s) ims) = map (line_for env s) (filter (asks env t s) ims)"
    by (induction ims) auto
  have mi: "map_of ims i = None" using d(2) by (simp add: map_of_eq_None_iff)
  show ?case
    using Cons.IH [OF d(1), of ?s] mi unfolding im f
    by (auto simp: monitor_host_spec fun_eq_iff split: option.splits)
qed simp

text \<open>C30. A round asks the right hosts.  It visits at most \<open>host_limit\<close> enabled hosts; an enabled host that it leaves out
  waits behind as many as the limit, all monitored at least as long ago.  Of a visited host it changes the state
  alone, to that of the table, and it writes one line to the driver of each that is due and has a driver.\<close>

theorem monitoring_round:
  assumes "distinct ids" "\<forall>i. im_rows s i = im_hosts s i"
  shows "(let visited = discover ids host_limit s; s' = im_timer_action env ids host_limit t s;
              mad = (\<lambda>i. im_mad_of (the (im_hosts s i))) in
     length visited \<le> host_limit \<and>
     (\<forall>i \<in> set ids. enabled_row s i \<longrightarrow> i \<notin> set visited \<longrightarrow>
        length visited = host_limit \<and> (\<forall>j \<in> set visited. stamp s j \<le> stamp s i)) \<and>
     (\<forall>i. im_hosts s' i = (if i \<in> set visited
        then map_option (\<lambda>h. h\<lparr>h_state := state_after env t (im_mad_of h) h\<rparr>) (im_hosts s i) else im_hosts s i)) \<and>
     im_piped s' = im_piped s @ map (line_for env s) (filter (asks env t s) (map (\<lambda>i. (i, mad i)) (sort visited))))"
proof -
  let ?v = "discover ids host_limit s" and ?mad = "\<lambda>i. im_mad_of (the (im_hosts s i))"
  let ?ims = "map (\<lambda>i. (i, ?mad i)) (sort ?v)"
  have d: "distinct (map fst ?ims)" using distinct_discover [OF assms(1)] by (simp add: comp_def)
  have s': "im_timer_action env ids host_limit t s = fold (monitor_host env t) ?ims s"
    using assms(2) by (simp add: im_timer_action_def)
  have m: "map_of ?ims i = (if i \<in> set ?v then Some (?mad i) else None)" for i
    by (simp add: map_of_map_restrict restrict_map_def)
  have "im_hosts (fold (monitor_host env t) ?ims s) i = (if i \<in> set ?v
      then map_option (\<lambda>h. h\<lparr>h_state := state_after env t (im_mad_of h) h\<rparr>) (im_hosts s i) else im_hosts s i)" for i
    using monitor_hosts_spec [OF d, of env t s] m [of i] by (cases "im_hosts s i") simp_all
  moreover have "length ?v \<le> host_limit" by (simp add: discover_eq)
  ultimately show ?thesis
    using monitor_hosts_spec [OF d, of env t s] discover_least [of _ ids s host_limit] unfolding s' Let_def by simp
qed

definition host_at :: "host_state \<Rightarrow> string \<Rightarrow> int \<Rightarrow> im_host" where
  "host_at st mad l = \<lparr>h_state = st, hostname_of = ''node'', vmm_mad_of = ''vmm_kvm'', vnm_mad_of = ''dummy'', tm_mad_of = ''tm_nfs'',
     last_monitored = l, host_share = new_share 0 0 0, im_mad_of = mad,
     h_tmpl = \<lparr>attributes = [], replace_mode = True, separator = CHR ''='', xml_root = ''TEMPLATE''\<rparr>,
     free_cpu = 0, free_mem = 0, used_cpu = 0, used_mem = 0\<rparr>"

definition hosts_at :: "(int \<Rightarrow> im_host option) \<Rightarrow> im_state" where
  "hosts_at hs = \<lparr>im_hosts = hs, im_rows = hs, im_db_ok = True, im_piped = []\<rparr>"

definition kvm_env :: im_env where
  "kvm_env = \<lparr>im_loaded = (\<lambda>m. m = ''im_kvm''), monitor_period = 60, remotes_mtime = 0\<rparr>"

theorem monitoring_round_witness:
  "im_hosts (im_timer_action kvm_env [1, 2] 1 100 (hosts_at [1 \<mapsto> host_at H_MONITORED ''im_kvm'' 20, 2 \<mapsto> host_at H_MONITORED ''im_kvm'' 10])) 2
     = Some (host_at H_MONITORING ''im_kvm'' 10) \<and>
   length (im_piped (im_timer_action kvm_env [1, 2] 1 100
     (hosts_at [1 \<mapsto> host_at H_MONITORED ''im_kvm'' 20, 2 \<mapsto> host_at H_MONITORED ''im_kvm'' 10]))) = 1"
proof -
  let ?s = "hosts_at [1 \<mapsto> host_at H_MONITORED ''im_kvm'' 20, 2 \<mapsto> host_at H_MONITORED ''im_kvm'' 10]"
  have v: "discover [1, 2] 1 ?s = [2]" by (simp add: discover_def hosts_at_def host_at_def)
  have d: "distinct [1, 2 :: int]" "\<forall>i. im_rows ?s i = im_hosts ?s i" by (simp_all add: hosts_at_def)
  have h: "im_hosts ?s 2 = Some (host_at H_MONITORED ''im_kvm'' 10)" "im_piped ?s = []" by (simp_all add: hosts_at_def)
  have due: "host_due kvm_env 100 (host_at H_MONITORED ''im_kvm'' 10)" "im_mad_of (host_at H_MONITORED ''im_kvm'' 10) = ''im_kvm''"
    "im_loaded kvm_env ''im_kvm''" "(host_at H_MONITORED ''im_kvm'' 10)\<lparr>h_state := H_MONITORING\<rparr> = host_at H_MONITORING ''im_kvm'' 10"
    by (simp_all add: host_due_def host_at_def kvm_env_def)
  show ?thesis
    using monitoring_round [OF d, of 1 kvm_env 100] due unfolding v Let_def
    by (simp add: h state_after_def asks_def)
qed

subsection \<open>Hosts that are never reached\<close>

text \<open>Rounds of the timer, and answers for hosts that were asked.\<close>

inductive im_step :: "im_env \<Rightarrow> int list \<Rightarrow> nat \<Rightarrow> im_state \<Rightarrow> im_state \<Rightarrow> bool"
  for env :: im_env and ids :: "int list" and host_limit :: nat where
  IM_timer: "im_step env ids host_limit s (im_timer_action env ids host_limit t s)"
| IM_answer: "im_hosts s i = Some h \<Longrightarrow> h_state h = H_MONITORING \<Longrightarrow>
    im_step env ids host_limit s (im_protocol parse t date action success i hinfo line s)"

lemma monitor_host_rows:
  "im_rows s = im_hosts s \<and> im_db_ok s \<Longrightarrow>
   im_rows (monitor_host env t im s) = im_hosts (monitor_host env t im s) \<and> im_db_ok (monitor_host env t im s)"
  by (auto simp: monitor_host_def im_update_def Let_def split: option.splits prod.splits)

lemma monitor_hosts_rows:
  "im_rows s = im_hosts s \<and> im_db_ok s \<Longrightarrow>
   im_rows (fold (monitor_host env t) ims s) = im_hosts (fold (monitor_host env t) ims s) \<and> im_db_ok (fold (monitor_host env t) ims s)"
  by (induction ims arbitrary: s) (simp_all add: monitor_host_rows)

text \<open>A host behind \<open>host_limit\<close> enabled hosts whose drivers are missing, all last monitored before it.\<close>

definition starved :: "im_env \<Rightarrow> int set \<Rightarrow> int \<Rightarrow> im_host \<Rightarrow> im_state \<Rightarrow> bool" where
  "starved env D v hv s \<longleftrightarrow> im_rows s = im_hosts s \<and> im_db_ok s \<and> im_hosts s v = Some hv \<and>
     (\<forall>d \<in> D. \<exists>h. im_hosts s d = Some h \<and> \<not> im_loaded env (im_mad_of h) \<and> h_state h \<notin> {H_MONITORING, H_DISABLED} \<and>
        last_monitored h < last_monitored hv)"

lemma starved_step:
  assumes "im_step env ids n s s'" and st: "starved env D v hv s"
    and D: "distinct ids" "D \<subseteq> set ids" "n \<le> card D" "v \<notin> D" "h_state hv \<noteq> H_MONITORING"
  shows "starved env D v hv s'"
  using assms(1)
proof cases
  case (IM_timer t)
  have rows: "im_rows s = im_hosts s" "im_db_ok s" and v: "im_hosts s v = Some hv" using st by (auto simp: starved_def)
  have dd: "\<exists>h. im_hosts s d = Some h \<and> \<not> im_loaded env (im_mad_of h) \<and> h_state h \<notin> {H_MONITORING, H_DISABLED} \<and>
        last_monitored h < last_monitored hv" if "d \<in> D" for d using st that by (auto simp: starved_def)
  let ?v = "discover ids n s"
  have "v \<notin> set ?v"
  proof
    assume a: "v \<in> set ?v"
    have "d \<in> set ?v" if d: "d \<in> D" for d
    proof (rule ccontr)
      assume "d \<notin> set ?v"
      moreover have "enabled_row s d" "stamp s d < stamp s v"
        using dd [OF d] v by (auto simp: enabled_row_def stamp_def rows)
      ultimately show False using discover_least [of d ids s n] d D(2) a by fastforce
    qed
    then have "insert v D \<subseteq> set ?v" using a by blast
    then have "card (insert v D) \<le> length ?v" by (meson card_length card_mono finite_set le_trans)
    moreover have "finite D" using D(2) finite_subset by blast
    ultimately show False using D(3,4) by (simp add: discover_eq)
  qed
  moreover note round = monitoring_round [OF D(1), of s n env t]
  ultimately have hosts: "im_hosts s' v = Some hv"
    "im_hosts s' d = (if d \<in> set ?v then map_option (\<lambda>h. h\<lparr>h_state := state_after env t (im_mad_of h) h\<rparr>) (im_hosts s d)
       else im_hosts s d)" for d
    using v rows(1) unfolding IM_timer Let_def by simp_all
  have "\<exists>h. im_hosts s' d = Some h \<and> \<not> im_loaded env (im_mad_of h) \<and> h_state h \<notin> {H_MONITORING, H_DISABLED} \<and>
        last_monitored h < last_monitored hv" if d: "d \<in> D" for d
  proof -
    obtain h where h: "im_hosts s d = Some h" "\<not> im_loaded env (im_mad_of h)" "h_state h \<notin> {H_MONITORING, H_DISABLED}"
      "last_monitored h < last_monitored hv" using dd [OF d] by blast
    have "state_after env t (im_mad_of h) h \<notin> {H_MONITORING, H_DISABLED}" using h by (simp add: state_after_def)
    then show ?thesis using h by (simp add: hosts(2))
  qed
  moreover have "im_rows s' = im_hosts s' \<and> im_db_ok s'"
    unfolding IM_timer im_timer_action_def using monitor_hosts_rows rows by blast
  ultimately show ?thesis using hosts(1) by (simp add: starved_def)
next
  case (IM_answer i h parse t date action success hinfo line)
  have ne: "i \<noteq> v" "i \<notin> D" using st IM_answer(2,3) D(5) by (auto simp: starved_def)
  have same: "im_hosts s' k = im_hosts s k" if "k \<noteq> i" for k
    using that unfolding IM_answer(1) by (auto simp: im_protocol_def im_update_def split: option.splits prod.splits)
  have "im_hosts s' v = im_hosts s v" "\<forall>d \<in> D. im_hosts s' d = im_hosts s d" using ne same by metis+
  moreover have "im_rows s' = im_hosts s' \<and> im_db_ok s'"
    using st unfolding IM_answer(1) by (auto simp: starved_def im_protocol_def im_update_def split: option.splits prod.splits)
  ultimately show ?thesis using st by (simp add: starved_def)
qed

lemma missing_drivers_starve:
  assumes "(im_step env ids n)\<^sup>*\<^sup>* s s'" "starved env D v hv s"
    and "distinct ids" "D \<subseteq> set ids" "n \<le> card D" "v \<notin> D" "h_state hv \<noteq> H_MONITORING"
  shows "im_hosts s' v = Some hv"
proof -
  have "starved env D v hv s'"
    using assms(1)
    by (induction rule: rtranclp_induct) (use assms(2-7) starved_step in blast)+
  then show ?thesis by (simp add: starved_def)
qed

end
