(* ===== verification/VmInsert.thy ===== *)
theory VmInsert
  imports Dispatch Drivers Templates
begin

text \<open>
  The creation of a virtual machine: \<open>insert\<close> of src/vm/VirtualMachine.cc with the parsing it calls, the disks that
  \<open>ImagePool::disk_attribute\<close> and \<open>Image::disk_attribute\<close> (src/image) fill in, and the rollback of a creation that fails.

  The DISK and NIC attributes of the template are changed where they are; here they are the lists that \<open>vm_insert\<close>
  works on, next to the template.  The index of images by name and owner, the users, the attributes of the images'
  templates and the default device prefix are the record \<open>img_env\<close>.
\<close>

subsection \<open>Disks from the image repository\<close>

record img_env =
  img_index :: "string \<times> int \<Rightarrow> int option"
  img_users :: "string \<Rightarrow> int option"
  img_attr :: "int \<Rightarrow> string \<Rightarrow> string"
  default_dev_prefix :: string

definition get_disk_uid :: "img_env \<Rightarrow> vattr \<Rightarrow> int \<Rightarrow> int" where
  "get_disk_uid env disk vuid = (
     let uid_s = vector_value disk ''IMAGE_UID''; uname = vector_value disk ''IMAGE_UNAME'' in
     if uid_s \<noteq> [] then (let (u, is) = extract_int 0 (istr uid_s) in if failbit is then - 1 else u)
     else if uname \<noteq> [] then (case img_users env uname of None \<Rightarrow> - 1 | Some u \<Rightarrow> u)
     else vuid)"

definition get_disk_id :: "string \<Rightarrow> int" where
  "get_disk_id id_s = (let (i, is) = extract_int 0 (istr id_s) in if failbit is then - 1 else i)"

text \<open>\<open>Image::disk_attribute\<close>: \<open>index\<close> counts the datablocks that got a target.\<close>

definition image_target :: "img_env \<Rightarrow> image \<Rightarrow> nat \<Rightarrow> string \<times> nat" where
  "image_target env img index = (
     let prefix = (if img_attr env (i_oid img) ''DEV_PREFIX'' = [] then default_dev_prefix env
                   else img_attr env (i_oid img) ''DEV_PREFIX'');
         target = img_attr env (i_oid img) ''TARGET''
     in if target \<noteq> [] then (target, index)
        else case i_type img of
          IT_OS \<Rightarrow> (prefix @ ''a'', index)
        | IT_CDROM \<Rightarrow> (prefix @ ''c'', index)
        | IT_DATABLOCK \<Rightarrow> (prefix @ [char_of (101 + index)], index + 1))"

definition image_disk_attribute :: "img_env \<Rightarrow> image \<Rightarrow> vattr \<Rightarrow> nat \<Rightarrow> vattr \<times> nat" where
  "image_disk_attribute env img disk index = (
     let bus = vector_value disk ''BUS''; target = vector_value disk ''TARGET''; driver = vector_value disk ''DRIVER'';
         tbus = img_attr env (i_oid img) ''BUS''; tdriver = img_attr env (i_oid img) ''DRIVER'';
         d = disk(''IMAGE'' \<mapsto> i_name img, ''IMAGE_ID'' \<mapsto> int_string (i_oid img), ''SOURCE'' \<mapsto> i_source img);
         d = (if bus = [] \<and> tbus \<noteq> [] then d(''BUS'' \<mapsto> tbus) else d);
         d = (if driver = [] \<and> tdriver \<noteq> [] then d(''DRIVER'' \<mapsto> tdriver) else d);
         d = (if persistent_img img \<noteq> 0 then d(''CLONE'' \<mapsto> ''NO'', ''SAVE'' \<mapsto> ''YES'', ''PERSISTENT'' \<mapsto> ''YES'')
              else d(''CLONE'' \<mapsto> ''YES'', ''SAVE'' \<mapsto> ''NO''));
         d = (if i_type img = IT_CDROM then d(''TYPE'' \<mapsto> ''CDROM'', ''READONLY'' \<mapsto> ''YES'')
              else d(''TYPE'' \<mapsto> ''DISK'', ''READONLY'' \<mapsto> ''NO''))
     in if target = [] then (let (tg, index') = image_target env img index in (d(''TARGET'' \<mapsto> tg), index'))
        else (d, index))"

definition acquire_image_name :: "img_env \<Rightarrow> string \<Rightarrow> int \<Rightarrow> repo \<Rightarrow> (image option \<times> repo) res" where
  "acquire_image_name env n u r = (case img_index env (n, u) of None \<Rightarrow> Done (None, r) | Some iid \<Rightarrow> acquire_image iid r)"

text \<open>The image of a disk, if it names one: by name and owner, or by identifier.\<close>

definition acquire_for_disk :: "img_env \<Rightarrow> int \<Rightarrow> vattr \<Rightarrow> repo \<Rightarrow> (image option \<times> repo) res" where
  "acquire_for_disk env vuid disk r = (
     let image = vector_value disk ''IMAGE'' in
     if image \<noteq> []
     then (let u = get_disk_uid env disk vuid in if u = - 1 then Done (None, r) else acquire_image_name env image u r)
     else (let i = get_disk_id (vector_value disk ''IMAGE_ID'') in if i = - 1 then Done (None, r) else acquire_image i r))"

text \<open>
  \<open>ImagePool::disk_attribute\<close>: its result code (\<open>-2\<close> for a disk that uses no image), the disk, the index, the
  type and the identifier of the image.
\<close>

definition ipool_disk_attribute ::
  "img_env \<Rightarrow> int \<Rightarrow> int \<Rightarrow> nat \<Rightarrow> vattr \<Rightarrow> repo \<Rightarrow> (int \<times> vattr \<times> nat \<times> (ImageType \<times> int) option \<times> repo) res" where
  "ipool_disk_attribute env vuid disk_id index disk r = (
     if vector_value disk ''IMAGE'' = [] \<and> vector_value disk ''IMAGE_ID'' = []
     then (let d = (if to_upper (vector_value disk ''TYPE'') = ''SWAP'' \<and> vector_value disk ''TARGET'' = []
                    then disk(''TARGET'' \<mapsto> default_dev_prefix env @ ''d'') else disk)
           in Done (- 2, d(''DISK_ID'' \<mapsto> int_string disk_id), index, None, r))
     else bind_res (acquire_for_disk env vuid disk r) (\<lambda>(io, r1). case io of
         None \<Rightarrow> Done (- 1, disk, index, None, r1)
       | Some img \<Rightarrow>
           let (d, index') = image_disk_attribute env img disk index
           in Done (0, d(''DISK_ID'' \<mapsto> int_string disk_id), index', Some (i_type img, i_oid img),
                    img_unlock (i_oid img) (img_update img r1))))"

subsection \<open>The disks of a virtual machine\<close>

fun count_type :: "ImageType \<Rightarrow> nat \<times> nat \<times> nat \<Rightarrow> nat \<times> nat \<times> nat" where
  "count_type IT_OS (os, cd, db) = (os + 1, cd, db)"
| "count_type IT_CDROM (os, cd, db) = (os, cd + 1, db)"
| "count_type IT_DATABLOCK (os, cd, db) = (os, cd, db + 1)"

fun max_error :: "nat \<times> nat \<times> nat \<Rightarrow> string option" where
  "max_error (os, cd, db) =
     (if os > 1 then Some ''VM can not use more than one OS image.''
      else if cd > 1 then Some ''VM can not use more than one CDROM image.''
      else if db > 10 then Some ''VM can not use more than 10 DATABLOCK images.''
      else None)"

text \<open>The loop of \<open>get_disk_images\<close>: the error that ends it, the disks and the images acquired so far.\<close>

fun get_disk_loop ::
  "img_env \<Rightarrow> int \<Rightarrow> int \<Rightarrow> nat \<Rightarrow> nat \<times> nat \<times> nat \<Rightarrow> vattr option list \<Rightarrow> repo \<Rightarrow>
   (string option \<times> vattr option list \<times> int list \<times> repo) res" where
  "get_disk_loop env vuid i index counts [] r = Done (None, [], [], r)"
| "get_disk_loop env vuid i index counts (None # ds) r =
     bind_res (get_disk_loop env vuid (i + 1) index counts ds r) (\<lambda>(e, ds', acq, r'). Done (e, None # ds', acq, r'))"
| "get_disk_loop env vuid i index counts (Some disk # ds) r =
     bind_res (ipool_disk_attribute env vuid i index disk r) (\<lambda>(rc, disk', index', img, r1).
       if rc = - 1 then Done (Some ''Could not get disk image for VM.'', Some disk' # ds, [], r1)
       else case img of
           None \<Rightarrow> bind_res (get_disk_loop env vuid (i + 1) index' counts ds r1)
                     (\<lambda>(e, ds', acq, r'). Done (e, Some disk' # ds', acq, r'))
         | Some (ty, iid) \<Rightarrow>
             let counts' = count_type ty counts in
             (case max_error counts' of
                Some e \<Rightarrow> Done (Some e, Some disk' # ds, [iid], r1)
              | None \<Rightarrow> bind_res (get_disk_loop env vuid (i + 1) index' counts' ds r1)
                  (\<lambda>(e, ds', acq, r'). Done (e, Some disk' # ds', iid # acq, r'))))"

fun release_acquired :: "int list \<Rightarrow> repo \<Rightarrow> repo res" where
  "release_acquired [] r = Done r"
| "release_acquired (iid # iids) r = bind_res (release_image iid [] (- 1) [] r) (release_acquired iids)"

definition get_disk_images ::
  "img_env \<Rightarrow> int \<Rightarrow> vattr option list \<Rightarrow> repo \<Rightarrow> (string option \<times> vattr option list \<times> repo) res" where
  "get_disk_images env vuid ds r = bind_res (get_disk_loop env vuid 0 0 (0, 0, 0) ds r) (\<lambda>(e, ds', acq, r1).
     case e of None \<Rightarrow> Done (None, ds', r1)
     | Some msg \<Rightarrow> bind_res (release_acquired acq r1) (\<lambda>r2. Done (Some msg, ds', r2)))"

subsection \<open>Name, requirements and graphics\<close>

text \<open>The name, and the template with VMID and NAME.\<close>

definition set_vm_name :: "int \<Rightarrow> tmpl \<Rightarrow> string \<times> tmpl" where
  "set_vm_name vid t = (
     let t1 = tmpl_set ''VMID'' (Single (int_string vid)) t; n = tmpl_get_string ''NAME'' t1 in
     if n = [] then (let n' = ''one-'' @ int_string vid in (n', tmpl_set ''NAME'' (Single n') (snd (tmpl_erase ''NAME'' t1))))
     else (n, t1))"

definition parse_requirements :: "(string \<Rightarrow> int \<times> string) \<Rightarrow> tmpl \<Rightarrow> int \<times> string \<times> tmpl" where
  "parse_requirements parse t = (case tmpl_remove ''REQUIREMENTS'' [] t of (num, reqs, t1) \<Rightarrow>
     if num = 0 then (0, [], t1)
     else if num > 1 then (- 1, ''Only one REQUIREMENTS attribute can be defined.'', t1)
     else (case hd reqs of Vector _ \<Rightarrow> (- 1, ''Wrong format for REQUIREMENTS attribute.'', t1)
       | Single v \<Rightarrow> (case parse v of (rc, parsed) \<Rightarrow>
           (rc, [], if rc = 0 then tmpl_set ''REQUIREMENTS'' (Single parsed) t1 else t1))))"

text \<open>The first GRAPHICS attribute gets a PORT, which the pointer into the template changes in place.\<close>

fun set_graphics_port :: "string \<Rightarrow> (string \<times> attr) list \<Rightarrow> (string \<times> attr) list" where
  "set_graphics_port port [] = []"
| "set_graphics_port port ((n, a) # xs) =
     (if n = ''GRAPHICS'' then
        (case a of Single _ \<Rightarrow> (n, a) # xs
         | Vector m \<Rightarrow> (n, Vector (if attr_value ''PORT'' m = [] then vector_replace ''PORT'' port m else m)) # xs)
      else (n, a) # set_graphics_port port xs)"

definition parse_graphics :: "int \<Rightarrow> int \<Rightarrow> tmpl \<Rightarrow> tmpl" where
  "parse_graphics base_port vid t = t\<lparr>attributes := set_graphics_port (int_string (base_port + vid)) (attributes t)\<rparr>"

subsection \<open>Insertion\<close>

definition attr_vattr :: "attr \<Rightarrow> vattr option" where
  "attr_vattr a = (case a of Single _ \<Rightarrow> None | Vector m \<Rightarrow> Some (mfind m))"

record creation =
  rc_of :: int
  error_of :: string
  vm_name :: string
  tmpl_of :: tmpl
  disks_of :: "vattr option list"
  nics_of :: "vattr option list"
  nets_of :: nets
  repo_of :: repo

text \<open>\<open>error_rollback\<close> and \<open>error_leases_rollback\<close>: the machine has no history, so the base path is empty.\<close>

definition leases_rollback :: "creation \<Rightarrow> creation res" where
  "leases_rollback c = bind_res (release_network_leases (nics_of c) (nets_of c)) (\<lambda>s.
     Done (c\<lparr>rc_of := - 1, nets_of := s\<rparr>))"

definition insert_rollback :: "creation \<Rightarrow> creation res" where
  "insert_rollback c = bind_res (release_disks [] 0 (disks_of c) (repo_of c)) (\<lambda>r. leases_rollback (c\<lparr>repo_of := r\<rparr>))"

record vm_env =
  v_img :: img_env
  v_parse :: "string \<Rightarrow> int \<times> string"
  v_dev_prefix :: string
  v_base_port :: int
  v_insert_ok :: bool

text \<open>What follows the images: context, requirements, graphics and the row.\<close>

definition insert_rest :: "vm_env \<Rightarrow> int \<Rightarrow> creation \<Rightarrow> creation res" where
  "insert_rest env vid c = (case parse_context (v_parse env) (v_dev_prefix env) (tmpl_of c) of
     None \<Rightarrow> Blocked
   | Some (rc, err, t) \<Rightarrow>
       if rc \<noteq> 0 then insert_rollback (c\<lparr>error_of := err, tmpl_of := t\<rparr>)
       else (case parse_requirements (v_parse env) t of (rc, err, t) \<Rightarrow>
         if rc \<noteq> 0 then insert_rollback (c\<lparr>error_of := err, tmpl_of := t\<rparr>)
         else let c = c\<lparr>tmpl_of := parse_graphics (v_base_port env) vid t\<rparr> in
           if v_insert_ok env then Done (c\<lparr>rc_of := 0\<rparr>) else insert_rollback c))"

definition vm_insert :: "vm_env \<Rightarrow> int \<Rightarrow> int \<Rightarrow> int \<Rightarrow> tmpl \<Rightarrow> nets \<Rightarrow> repo \<Rightarrow> creation res" where
  "vm_insert env vid vuid vgid t s r = (
     let c = \<lparr>rc_of = - 1, error_of = [], vm_name = [], tmpl_of = t, disks_of = map attr_vattr (attr_range ''DISK'' (attributes t)),
              nics_of = map attr_vattr (attr_range ''NIC'' (attributes t)), nets_of = s, repo_of = r\<rparr>
     in if vuid \<noteq> 0 \<and> vgid \<noteq> 0 \<and> vm_check t \<noteq> None
        then Done (c\<lparr>error_of := ''VM Template includes a restricted attribute '' @ the (vm_check t) @ ''.''\<rparr>)
        else (case set_vm_name vid t of (n, t1) \<Rightarrow>
          if length n > 128 then Done (c\<lparr>error_of := ''NAME is too long; max length is 128 chars.'', tmpl_of := t1\<rparr>)
          else bind_res (get_network_leases vuid vid (nics_of c) s) (\<lambda>(rc, ns, s1).
            let c = c\<lparr>vm_name := n, tmpl_of := t1, nics_of := ns, nets_of := s1\<rparr> in
            if rc \<noteq> 0 then leases_rollback (c\<lparr>error_of := ''Could not get virtual network for VM.''\<rparr>)
            else bind_res (get_disk_images (v_img env) vuid (disks_of c) r) (\<lambda>(e, ds, r1).
              let c = c\<lparr>disks_of := ds, repo_of := r1\<rparr> in
              case e of Some msg \<Rightarrow> leases_rollback (c\<lparr>error_of := msg\<rparr>)
              | None \<Rightarrow> insert_rest env vid c))))"

end
