(* ===== verification/TemplateSpec.thy ===== *)
theory TemplateSpec
  imports Templates
begin

text \<open>
  Reading back what \<open>marshall\<close> writes, and with it the context of a virtual machine; the attributes that a template
  holds after each operation; which restricted attributes \<open>check\<close> finds.
\<close>

subsection \<open>Searching for the separator\<close>

text \<open>
  A separator never starts inside a piece that is followed by it: it does not occur in the piece, also when all but its
  last character is appended.
\<close>

definition separable :: "string \<Rightarrow> string \<Rightarrow> bool" where
  "separable sep p \<longleftrightarrow> find_sub sep (p @ butlast sep) = None"

lemma find_sub_short: "length s < length sep \<Longrightarrow> find_sub sep s = None"
  by (induction s) auto

lemma find_sub_prefix: "find_sub sep (p @ q) = None \<Longrightarrow> find_sub sep p = None"
proof (induction p)
  case Nil
  then show ?case by (cases "sep = []"; cases q) auto
next
  case (Cons c p)
  have "take (length sep) (c # p) \<noteq> sep"
  proof
    assume a: "take (length sep) (c # p) = sep"
    then have "length sep \<le> length (c # p)" by (metis length_take min.cobounded1 min.absorb_iff2)
    then have "take (length sep) (c # p @ q) = sep" using a by (metis append_Cons take_append diff_is_0_eq take0 append_Nil2)
    then show False using Cons.prems by simp
  qed
  then show ?case using Cons by (auto split: if_splits)
qed

lemma separable_find:
  assumes "separable sep p" "sep \<noteq> []"
  shows "find_sub sep (p @ sep @ r) = Some (length p)"
  using assms(1) unfolding separable_def
proof (induction p)
  case Nil
  then show ?case using assms(2) by (cases sep) auto
next
  case (Cons c p)
  let ?n = "length sep"
  have ne: "take ?n (c # p @ butlast sep) \<noteq> sep" and none: "find_sub sep (p @ butlast sep) = None"
    using Cons.prems by (auto split: if_splits)
  have "sep @ r = butlast sep @ last sep # r" using assms(2) by (metis append.assoc append_Cons append_Nil append_butlast_last_id)
  then have "c # p @ sep @ r = (c # p @ butlast sep) @ last sep # r" by simp
  moreover have "?n \<le> length (c # p @ butlast sep)" by simp
  ultimately have "take ?n (c # p @ sep @ r) = take ?n (c # p @ butlast sep)" by (metis take_append diff_is_0_eq take0 append_Nil2)
  then show ?case using ne Cons.IH [OF none] by simp
qed

lemma separable_none: "separable sep p \<Longrightarrow> find_sub sep p = None"
  unfolding separable_def by (rule find_sub_prefix)

text \<open>The loop of \<open>unmarshall\<close> ends for every separator but the empty one, for which it never does.\<close>

lemma find_sub_length: "find_sub sep s = Some e \<Longrightarrow> e + length sep \<le> length s"
proof (induction s arbitrary: e)
  case (Cons c s)
  show ?case
  proof (cases "take (length sep) (c # s) = sep")
    case True
    then have "length sep \<le> length (c # s)" by (metis length_take min.cobounded1 min.absorb_iff2)
    then show ?thesis using True Cons.prems by simp
  next
    case False
    then show ?thesis using Cons by auto
  qed
qed (auto split: if_splits)

lemma unmarshall_ends:
  assumes "sep \<noteq> []"
  shows "\<exists>r. vector_unmarshall sep s m = Some r"
proof (induction "length s" arbitrary: s m rule: less_induct)
  case less
  show ?case
  proof (cases "find_sub sep s")
    case None
    then show ?thesis by (simp add: vector_unmarshall.simps)
  next
    case (Some e)
    have "length (drop (e + length sep) s) < length s"
      using find_sub_length [OF Some] assms by (cases sep) auto
    then obtain r where "vector_unmarshall sep (drop (e + length sep) s) (add_pair (take e s) m) = Some r"
      using less by blast
    then show ?thesis using Some by (simp add: vector_unmarshall.simps [of sep s m])
  qed
qed

lemma unmarshall_empty_separator: "vector_unmarshall [] s m = Some r \<Longrightarrow> False"
proof -
  have "sep \<noteq> []" if "vector_unmarshall sep s m = Some r" for sep s m r
  proof (rule vector_unmarshall.raw_induct [where P = "\<lambda>sep _ _ _. sep \<noteq> []", OF _ that])
    fix f :: "string \<Rightarrow> string \<Rightarrow> vector_map \<Rightarrow> vector_map option" and sep s m r
    assume IH: "\<And>sep s m r. f sep s m = Some r \<Longrightarrow> sep \<noteq> []"
      and r: "(case find_sub sep s of None \<Rightarrow> Some (add_pair s m)
        | Some e \<Rightarrow> f sep (drop (e + length sep) s) (add_pair (take e s) m)) = Some r"
    show "sep \<noteq> []"
    proof
      assume "sep = []"
      moreover from this have "find_sub sep s = Some 0" by (cases s) auto
      ultimately have "f [] (drop 0 s) (add_pair [] m) = Some r" using r by simp
      then show False using IH by blast
    qed
  qed
  then show "vector_unmarshall [] s m = Some r \<Longrightarrow> False" by blast
qed

subsection \<open>Reading back what was written\<close>

definition pairs_ok :: "string \<Rightarrow> vector_map \<Rightarrow> bool" where
  "pairs_ok sep m \<longleftrightarrow> (\<forall>nv \<in> set m. CHR ''='' \<notin> set (fst nv) \<and> separable sep (pair_string nv))"

lemma add_pair_string: "CHR ''='' \<notin> set (fst nv) \<Longrightarrow> add_pair (pair_string nv) m = minsert (fst nv) (snd nv) m"
proof -
  assume "CHR ''='' \<notin> set (fst nv)"
  then have "takeWhile (\<lambda>c. c \<noteq> CHR ''='') (fst nv @ CHR ''='' # snd nv) = fst nv"
    "dropWhile (\<lambda>c. c \<noteq> CHR ''='') (fst nv @ CHR ''='' # snd nv) = CHR ''='' # snd nv"
    by (subst takeWhile_append2 dropWhile_append2; auto)+
  then show "add_pair (pair_string nv) m = minsert (fst nv) (snd nv) m"
    by (simp add: add_pair_def pair_string_def)
qed

lemma unmarshall_separated:
  assumes "sep \<noteq> []"
  shows "m \<noteq> [] \<Longrightarrow> pairs_ok sep m \<Longrightarrow> map_ok (m0 @ m) \<Longrightarrow>
    vector_unmarshall sep (separated sep (map pair_string m)) m0 = Some (m0 @ m)"
proof (induction m arbitrary: m0)
  case (Cons nv m)
  have nv: "CHR ''='' \<notin> set (fst nv)" "separable sep (pair_string nv)" using Cons.prems(2) by (auto simp: pairs_ok_def)
  have "map_ok ((m0 @ [(fst nv, snd nv)]) @ m)" using Cons.prems(3) by simp
  then have add: "add_pair (pair_string nv) m0 = m0 @ [nv]"
    using add_pair_string [OF nv(1)] minsert_last map_ok_append by (metis prod.collapse)
  show ?case
  proof (cases m)
    case Nil
    then show ?thesis using separable_none [OF nv(2)] add by (simp add: vector_unmarshall.simps)
  next
    case (Cons nv' m')
    let ?rest = "separated sep (map pair_string m)"
    have s: "separated sep (map pair_string (nv # m)) = pair_string nv @ sep @ ?rest" using Cons by simp
    have "vector_unmarshall sep (pair_string nv @ sep @ ?rest) m0 = vector_unmarshall sep ?rest (m0 @ [nv])"
      using separable_find [OF nv(2) assms, of ?rest] add by (subst vector_unmarshall.simps) simp
    also have "\<dots> = Some ((m0 @ [nv]) @ m)"
      using Cons.IH [of "m0 @ [nv]"] Cons.prems \<open>m = nv' # m'\<close> by (simp add: pairs_ok_def)
    finally show ?thesis unfolding s by simp
  qed
qed simp

lemma unmarshall_marshall:
  assumes "sep \<noteq> []" "m \<noteq> []" "pairs_ok sep m" "map_ok m"
  shows "\<exists>s. vector_marshall sep m = Some s \<and> vector_unmarshall sep s [] = Some m"
  using unmarshall_separated [OF assms(1-3), of "[]"] assms(2,4) by (simp add: vector_marshall_def)

text \<open>A value can contain the separator, or end like it: then other names and values come back.\<close>

lemma separator_in_value:
  "vector_marshall magic_sep [(''A'', ''x@^_^''), (''B'', ''1'')] = Some ''A=x@^_^@^_^@B=1''"
  "vector_unmarshall magic_sep ''A=x@^_^@^_^@B=1'' [] = Some [(''A'', ''x''), (''^_^@B'', ''1'')]"
  by (simp_all add: vector_marshall_def magic_sep_def pair_string_def vector_unmarshall.simps add_pair_def)

subsection \<open>Operations on a template\<close>

lemma attr_range_Cons: "attr_range n ((k, a) # xs) = (if k = n then a # attr_range n xs else attr_range n xs)"
  by (simp add: attr_range_def)

lemma attr_range_insert:
  "sorted (map fst xs) \<Longrightarrow> attr_range n (attr_insert n' a xs) = (if n = n' then attr_range n xs @ [a] else attr_range n xs)"
proof (induction n' a xs rule: attr_insert.induct)
  case (2 n' a n'' a' xs)
  show ?case
  proof (cases "n' < n''")
    case True
    then have "\<forall>x \<in> set xs. fst x \<noteq> n'" using 2(2) by fastforce
    then have "attr_range n' xs = []" by (simp add: attr_range_def filter_empty_conv)
    then show ?thesis using True by (auto simp: attr_range_Cons)
  next
    case False
    then show ?thesis using 2 by (cases "n = n'") (auto simp: attr_range_Cons)
  qed
qed (simp add: attr_range_def)

lemma set_attr_insert: "set (attr_insert n a xs) = insert (n, a) (set xs)"
  by (induction n a xs rule: attr_insert.induct) auto

lemma sorted_attr_insert: "sorted (map fst xs) \<Longrightarrow> sorted (map fst (attr_insert n a xs))"
  by (induction n a xs rule: attr_insert.induct) (auto simp: set_attr_insert)

lemma sorted_attr_erase: "sorted (map fst xs) \<Longrightarrow> sorted (map fst (attr_erase n xs))"
  by (simp add: attr_erase_def sorted_filter)

lemma attr_range_erase: "attr_range n (attr_erase n' xs) = (if n = n' then [] else attr_range n xs)"
  by (auto simp: attr_range_def attr_erase_def filter_empty_conv intro!: arg_cong [of _ _ "map snd"] filter_cong)

definition tmpl_ok :: "tmpl \<Rightarrow> bool" where
  "tmpl_ok t \<longleftrightarrow> sorted (map fst (attributes t))"

abbreviation found :: "string \<Rightarrow> tmpl \<Rightarrow> attr list" where
  "found n t \<equiv> attr_range n (attributes t)"

lemma tmpl_set_found:
  "tmpl_ok t \<Longrightarrow> found n (tmpl_set n' a t) =
     (if n \<noteq> n' then found n t else if replace_mode t then [a] else found n t @ [a])"
  by (simp add: tmpl_set_def tmpl_ok_def Let_def attr_range_insert sorted_attr_erase attr_range_erase)

lemma tmpl_ok_set: "tmpl_ok t \<Longrightarrow> tmpl_ok (tmpl_set n a t)"
  by (simp add: tmpl_set_def tmpl_ok_def Let_def sorted_attr_insert sorted_attr_erase)

lemma tmpl_ok_erase: "tmpl_ok t \<Longrightarrow> tmpl_ok (t\<lparr>attributes := attr_erase n (attributes t)\<rparr>)"
  by (simp add: tmpl_ok_def sorted_attr_erase)

subsection \<open>Restricted attributes\<close>

text \<open>What \<open>check\<close> looks at: only for CONTEXT, the first of the list, are these the attributes asked for.\<close>

lemma vm_check_iff:
  "vm_check t = None \<longleftrightarrow>
     (let c = found ''CONTEXT'' t; d = found ''DISK'' t; n = found ''NIC'' t in
      (\<forall>a \<in> set c. \<not> sets_value ''FILES'' a) \<and>
      (\<forall>a \<in> set (take (length d) (c @ d)). \<not> sets_value ''SOURCE'' a) \<and>
      (\<forall>a \<in> set (take (length n) (c @ d @ n)). \<not> sets_value ''MAC'' a) \<and>
      (\<forall>a \<in> set (take (length n) (c @ d @ n @ n)). \<not> sets_value ''VLAN_ID'' a) \<and>
      found ''RANK'' t = [])"
  by (simp add: vm_check_def vm_restricted_def tmpl_get_def Let_def)

lemma image_check_iff: "image_check t = (if found ''SOURCE'' t = [] then None else Some ''SOURCE'')"
  by (simp add: image_check_def image_restricted_def tmpl_get_def)

text \<open>C28. A template with a CONTEXT gets the last of its disks past the check, whatever restricted attribute the disk has:
  the check of the disks starts at the CONTEXT that an earlier round has left in the vector.\<close>

theorem last_disk_escapes_check:
  assumes "found ''CONTEXT'' t = c # cs" "found ''DISK'' t = ds @ [d]" "found ''NIC'' t = []" "found ''RANK'' t = []"
    and "\<forall>a \<in> set (c # cs). \<not> sets_value ''FILES'' a \<and> \<not> sets_value ''SOURCE'' a"
    and "\<forall>a \<in> set ds. \<not> sets_value ''SOURCE'' a"
  shows "vm_check t = None"
proof -
  have "take (length (ds @ [d])) ((c # cs) @ ds @ [d]) = take (Suc (length ds)) ((c # cs) @ ds)" by simp
  moreover have "\<forall>a \<in> set (take (Suc (length ds)) ((c # cs) @ ds)). \<not> sets_value ''SOURCE'' a"
    using assms(5,6) by (auto dest: in_set_takeD)
  ultimately show ?thesis using assms(1-5) unfolding vm_check_iff Let_def by simp
qed

definition disk_tmpl :: tmpl where
  "disk_tmpl = \<lparr>attributes = [(''CONTEXT'', Vector [(''TARGET'', ''hdb'')]),
     (''DISK'', Vector [(''SOURCE'', ''/etc/shadow''), (''TARGET'', ''hda'')])],
     replace_mode = False, separator = CHR ''='', xml_root = ''TEMPLATE''\<rparr>"

theorem last_disk_escapes_check_witness:
  "vm_check disk_tmpl = None \<and>
   vm_check (disk_tmpl\<lparr>attributes := attr_erase ''CONTEXT'' (attributes disk_tmpl)\<rparr>) = Some ''DISK/SOURCE''"
proof
  show "vm_check disk_tmpl = None"
    by (rule last_disk_escapes_check [of _ "Vector [(''TARGET'', ''hdb'')]" "[]" "[]"
          "Vector [(''SOURCE'', ''/etc/shadow''), (''TARGET'', ''hda'')]"])
       (simp_all add: disk_tmpl_def attr_range_def sets_value_def attr_value_def)
  show "vm_check (disk_tmpl\<lparr>attributes := attr_erase ''CONTEXT'' (attributes disk_tmpl)\<rparr>) = Some ''DISK/SOURCE''"
    by (simp add: vm_check_def vm_restricted_def tmpl_get_def attr_erase_def disk_tmpl_def attr_range_def sets_value_def attr_value_def)
qed

subsection \<open>The context\<close>

text \<open>A context without variables comes out of \<open>parse_context\<close> as it was, with a TARGET if it had none, and the other
  attributes of the template are left alone.\<close>

theorem parse_context_keeps:
  assumes "tmpl_ok t" "found ''CONTEXT'' t = [Vector m]" "m \<noteq> []" "map_ok m" "pairs_ok context_sep m"
    and "vector_marshall context_sep m = Some str" "parse str = (0, str)"
  shows "\<exists>t'. parse_context parse dev_prefix t = Some (0, [], t') \<and>
    found ''CONTEXT'' t' = [Vector (if attr_value ''TARGET'' m = []
                                    then vector_replace ''TARGET'' (dev_prefix @ ''b'') m else m)] \<and>
    (\<forall>n. n \<noteq> ''CONTEXT'' \<longrightarrow> found n t' = found n t)"
proof -
  have "context_sep \<noteq> []" by (simp add: context_sep_def)
  then have u: "vector_unmarshall context_sep str [] = Some m"
    using unmarshall_marshall [OF _ assms(3,5,4)] assms(6) by auto
  let ?t1 = "t\<lparr>attributes := attr_erase ''CONTEXT'' (attributes t)\<rparr>"
  have "found ''CONTEXT'' ?t1 = []" "n \<noteq> ''CONTEXT'' \<Longrightarrow> found n ?t1 = found n t" for n
    by (simp_all add: attr_range_erase)
  then show ?thesis
    using assms(2,6,7) u tmpl_set_found [OF tmpl_ok_erase [OF assms(1)]]
    by (simp add: parse_context_def tmpl_remove_def)
qed

theorem parse_context_keeps_witness:
  "\<exists>t'. parse_context (\<lambda>s. (0, s)) ''hd'' (disk_tmpl\<lparr>attributes :=
      [(''CONTEXT'', Vector [(''HOSTNAME'', ''vm''), (''ROOT'', ''a@b'')])]\<rparr>) = Some (0, [], t') \<and>
    found ''CONTEXT'' t' = [Vector [(''HOSTNAME'', ''vm''), (''ROOT'', ''a@b''), (''TARGET'', ''hdb'')]]"
  using parse_context_keeps [of "disk_tmpl\<lparr>attributes :=
      [(''CONTEXT'', Vector [(''HOSTNAME'', ''vm''), (''ROOT'', ''a@b'')])]\<rparr>"
      "[(''HOSTNAME'', ''vm''), (''ROOT'', ''a@b'')]" "''HOSTNAME=vm @^_^@ ROOT=a@b''" "\<lambda>s. (0, s)" "''hd''"]
  by (auto simp: tmpl_ok_def attr_range_def map_ok_def pairs_ok_def separable_def context_sep_def pair_string_def
      vector_marshall_def attr_value_def vector_replace_def merase_def)

end
