(* ===== verification/VmInsertSpec.thy ===== *)
theory VmInsertSpec
  imports VmInsert TemplateSpec "HOL-Library.Multiset"
begin

text \<open>
  A creation that fails leaves the images and the leases as they were; one that succeeds has charged each image once
  for each disk that uses it.  A disk that its user gave a SAVE_AS breaks this.
\<close>

subsection \<open>Images charged for disks\<close>

text \<open>The images with a multiset of uses on top.\<close>

definition charged :: "int multiset \<Rightarrow> (int \<Rightarrow> image option) \<Rightarrow> int \<Rightarrow> image option" where
  "charged M im k = (case im k of None \<Rightarrow> None
     | Some i \<Rightarrow> Some (if k \<in># M
         then i\<lparr>i_state := IMG_USED, running_vms_i := running_vms_i i + int (count M k)\<rparr> else i))"

definition im_ok :: "(int \<Rightarrow> image option) \<Rightarrow> bool" where
  "im_ok im \<longleftrightarrow> (\<forall>k i. im k = Some i \<longrightarrow> i_oid i = k \<and> img_ok i \<and> - (2 ^ 31) \<le> k \<and> k < 2 ^ 31)"

definition repo_at :: "(int \<Rightarrow> image option) \<Rightarrow> int multiset \<Rightarrow> repo \<Rightarrow> bool" where
  "repo_at im M r \<longleftrightarrow> images r = charged M im \<and> img_locks r = {} \<and>
     (\<forall>k \<in># M. \<exists>i. im k = Some i \<and> (i_state i = IMG_READY \<or> i_state i = IMG_USED))"

lemma charged_empty [simp]: "charged {#} im = im"
  by (auto simp: charged_def fun_eq_iff split: option.splits)

lemma charged_add:
  assumes "im k = Some i" "charged M im k = Some j"
  shows "charged (add_mset k M) im = (charged M im)(k \<mapsto> (inc_running j)\<lparr>i_state := IMG_USED\<rparr>)"
proof
  fix x
  show "charged (add_mset k M) im x = ((charged M im)(k \<mapsto> (inc_running j)\<lparr>i_state := IMG_USED\<rparr>)) x"
  proof (cases "x = k")
    case True
    show ?thesis
    proof (cases "k \<in># M")
      case False
      then have "count M k = 0" by (simp add: not_in_iff)
      then show ?thesis using assms True False by (auto simp: charged_def inc_running_def)
    qed (use assms True in \<open>auto simp: charged_def inc_running_def\<close>)
  next
    case False
    then show ?thesis by (auto simp: charged_def split: option.splits)
  qed
qed

lemma acquire_charges:
  assumes im: "im_ok im" and r: "repo_at im M r"
  shows "(\<exists>r'. acquire_image k r = Done (None, r') \<and> repo_at im M r') \<or>
    (\<exists>i r1. acquire_image k r = Done (Some i, r1) \<and> i_oid i = k \<and> im k \<noteq> None \<and>
       repo_at im (add_mset k M) (img_unlock k (img_update i r1)))"
proof (cases "images r k")
  case None
  then show ?thesis using r by (simp add: acquire_image_def with_img_def)
next
  case (Some j)
  have l: "k \<notin> img_locks r" and c: "charged M im k = Some j" using r Some by (auto simp: repo_at_def)
  obtain i where i: "im k = Some i" using c by (auto simp: charged_def split: option.splits)
  have same: "i_oid j = k" "isPersistent j = isPersistent i" using im i c
    by (auto simp: im_ok_def charged_def isPersistent_def split: if_splits)
  show ?thesis
  proof (cases "i_state j = IMG_READY \<or> i_state j = IMG_USED \<and> \<not> isPersistent j")
    case True
    let ?j = "(inc_running j)\<lparr>i_state := IMG_USED\<rparr>"
    let ?r1 = "(img_update ?j r)\<lparr>images := (images r)(k \<mapsto> ?j), img_locks := insert k (img_locks r)\<rparr>"
    have a: "acquire_image k r = Done (Some ?j, ?r1)"
      using acquire_image_cases [OF Some l] True by (simp add: Let_def)
    have st: "i_state i = IMG_READY \<or> i_state i = IMG_USED"
    proof (cases "k \<in># M")
      case True
      then show ?thesis using r i by (auto simp: repo_at_def)
    next
      case False
      then have "j = i" using c i by (simp add: charged_def)
      then show ?thesis using True by blast
    qed
    have "repo_at im (add_mset k M) (img_unlock k (img_update ?j ?r1))"
      using r st i charged_add [OF i c] by (auto simp: repo_at_def img_unlock_def)
    moreover have "i_oid ?j = k" using same(1) by (simp add: inc_running_def)
    ultimately show ?thesis using a i by blast
  next
    case False
    then have "acquire_image k r = Done (None, r\<lparr>images := (images r)(k \<mapsto> j)\<rparr>)"
      using acquire_image_cases [OF Some l] by (simp only: if_False)
    moreover have "repo_at im M (r\<lparr>images := (images r)(k \<mapsto> j)\<rparr>)" using r Some by (auto simp: repo_at_def fun_eq_iff)
    ultimately show ?thesis by blast
  qed
qed

lemma release_uncharges:
  assumes im: "im_ok im" and r: "repo_at im (add_mset k M) r"
  shows "\<exists>r'. release_image k [] n [] r = Done r' \<and> repo_at im M r'"
proof -
  obtain i where i: "im k = Some i" "i_state i = IMG_READY \<or> i_state i = IMG_USED" using r by (auto simp: repo_at_def)
  have ok: "img_ok i" using im i(1) by (auto simp: im_ok_def)
  let ?j = "i\<lparr>i_state := IMG_USED, running_vms_i := running_vms_i i + int (count M k) + 1\<rparr>"
  have j: "images r k = Some ?j" and l: "img_locks r = {}" using r i(1) by (auto simp: repo_at_def charged_def)
  let ?d = "dec_running ?j"
  let ?i' = "if running_vms_i ?d = 0 then ?d\<lparr>i_state := IMG_READY\<rparr> else ?d"
  have rel: "release_image k [] n [] r = Done ((img_update ?i' r)\<lparr>images := (images r)(k \<mapsto> ?i')\<rparr>)"
    using j l by (simp add: release_image_def with_img_def release_obj_def Let_def)
  have "charged M im k = Some ?i'"
  proof (cases "k \<in># M")
    case False
    then have z: "count M k = 0" by (simp add: not_in_iff)
    show ?thesis using i ok False z by (cases "i_state i") (auto simp: charged_def dec_running_def img_ok_def)
  next
    case True
    then have "0 < count M k" by simp
    then have "running_vms_i ?d \<noteq> 0" using ok by (auto simp: dec_running_def img_ok_def simp del: count_greater_zero_iff)
    then show ?thesis using i(1) True by (simp add: charged_def dec_running_def)
  qed
  then have "(images r)(k \<mapsto> ?i') = charged M im"
    using r by (auto simp: repo_at_def charged_def fun_eq_iff split: option.splits)
  then have "repo_at im M ((img_update ?i' r)\<lparr>images := (images r)(k \<mapsto> ?i')\<rparr>)" using r by (auto simp: repo_at_def)
  with rel show ?thesis by blast
qed

lemma release_acquired_all:
  "im_ok im \<Longrightarrow> repo_at im (mset acq + M) r \<Longrightarrow> \<exists>r'. release_acquired acq r = Done r' \<and> repo_at im M r'"
proof (induction acq arbitrary: r)
  case (Cons k acq)
  obtain r1 where "release_image k [] (- 1) [] r = Done r1" "repo_at im (mset acq + M) r1"
    using release_uncharges [OF Cons.prems(1), of k "mset acq + M" r "- 1"] Cons.prems(2) by auto
  then show ?case using Cons.IH [OF Cons.prems(1), of r1] by simp
qed simp

subsection \<open>Disks and the images they hold\<close>

text \<open>The images that a list of disks gives back, one for each disk that names one.\<close>

fun holds :: "vattr option list \<Rightarrow> int list \<Rightarrow> bool" where
  "holds [] acq = (acq = [])"
| "holds (None # ds) acq = holds ds acq"
| "holds (Some d # ds) acq = (vector_value d ''SAVE_AS'' = [] \<and>
     (if vector_value d ''IMAGE_ID'' = [] then holds ds acq
      else (case acq of [] \<Rightarrow> False
            | k # acq' \<Rightarrow> vector_value d ''IMAGE_ID'' = int_string k \<and> - (2 ^ 31) \<le> k \<and> k < 2 ^ 31 \<and> holds ds acq')))"

definition no_save_as :: "vattr option \<Rightarrow> bool" where
  "no_save_as a \<longleftrightarrow> (case a of None \<Rightarrow> True | Some d \<Rightarrow> vector_value d ''SAVE_AS'' = [])"

lemma release_disks_all:
  "im_ok im \<Longrightarrow> repo_at im (mset acq + M) r \<Longrightarrow> holds ds acq \<Longrightarrow>
   \<exists>r'. release_disks [] n ds r = Done r' \<and> repo_at im M r'"
proof (induction ds acq arbitrary: n r rule: holds.induct)
  case (1 acq)
  then show ?case by simp
next
  case (2 ds acq)
  then show ?case by (simp add: release_disk_def)
next
  case (3 d ds acq)
  show ?case
  proof (cases "vector_value d ''IMAGE_ID'' = []")
    case True
    have "release_disk [] n (Some d) r = Done r" using 3(5) True by (simp add: release_disk_def Let_def)
    then show ?thesis using 3(1) [OF True 3(3,4)] 3(5) True by simp
  next
    case False
    then obtain k acq' where k: "acq = k # acq'" "vector_value d ''IMAGE_ID'' = int_string k" "- (2 ^ 31) \<le> k" "k < 2 ^ 31"
      "holds ds acq'" "vector_value d ''SAVE_AS'' = []"
      using 3(5) by (cases acq) auto
    obtain r1 where r1: "release_image k [] n [] r = Done r1" "repo_at im (mset acq' + M) r1"
      using release_uncharges [OF 3(3), of k "mset acq' + M" r n] 3(4) k(1) by auto
    have "release_disk [] n (Some d) r = Done r1"
      using False k(2,6) r1(1) extract_int_string [OF k(3,4)]
      by (simp add: release_disk_def release_image_str_def Let_def)
    then show ?thesis using 3(2) [OF False k(1) 3(3) r1(2) k(5), of "n + 1"] by simp
  qed
qed

lemma image_disk_values:
  "image_disk_attribute env img d ix = (d', ix') \<Longrightarrow>
     vector_value d' ''IMAGE_ID'' = int_string (i_oid img) \<and> vector_value d' ''SAVE_AS'' = vector_value d ''SAVE_AS''"
  by (auto simp: image_disk_attribute_def Let_def split: if_splits prod.splits)

lemma acquire_for_disk_charges:
  assumes im: "im_ok im" and r: "repo_at im M r"
  shows "(\<exists>r'. acquire_for_disk env u d r = Done (None, r') \<and> repo_at im M r') \<or>
    (\<exists>i r1. acquire_for_disk env u d r = Done (Some i, r1) \<and> im (i_oid i) \<noteq> None \<and>
       repo_at im (add_mset (i_oid i) M) (img_unlock (i_oid i) (img_update i r1)))"
proof -
  have "acquire_for_disk env u d r = Done (None, r) \<or> (\<exists>k. acquire_for_disk env u d r = acquire_image k r)"
    by (auto simp: acquire_for_disk_def acquire_image_name_def Let_def split: option.splits)
  then show ?thesis
  proof
    assume "\<exists>k. acquire_for_disk env u d r = acquire_image k r"
    then obtain k where "acquire_for_disk env u d r = acquire_image k r" ..
    then show ?thesis using acquire_charges [OF im r, of k] by auto
  qed (use r in blast)
qed

text \<open>What one disk does: it takes no image, fails, or charges the image it then names.\<close>

lemma ipool_disk_cases:
  assumes im: "im_ok im" and r: "repo_at im M r" and sv: "vector_value d ''SAVE_AS'' = []"
  obtains (volatile) d' where "ipool_disk_attribute env u n ix d r = Done (- 2, d', ix, None, r)"
      "vector_value d' ''IMAGE_ID'' = []" "vector_value d' ''SAVE_AS'' = []"
  | (refused) r' where "ipool_disk_attribute env u n ix d r = Done (- 1, d, ix, None, r')" "repo_at im M r'"
  | (charged) d' ix' ty k r' where "ipool_disk_attribute env u n ix d r = Done (0, d', ix', Some (ty, k), r')"
      "repo_at im (add_mset k M) r'" "vector_value d' ''IMAGE_ID'' = int_string k" "vector_value d' ''SAVE_AS'' = []"
      "- (2 ^ 31) \<le> k" "k < 2 ^ 31"
proof (cases "vector_value d ''IMAGE'' = [] \<and> vector_value d ''IMAGE_ID'' = []")
  case True
  then show thesis using volatile sv by (simp add: ipool_disk_attribute_def Let_def split: if_splits)
next
  case False
  from acquire_for_disk_charges [OF im r, of env u d] show thesis
  proof
    assume "\<exists>r'. acquire_for_disk env u d r = Done (None, r') \<and> repo_at im M r'"
    then obtain r' where "acquire_for_disk env u d r = Done (None, r')" "repo_at im M r'" by blast
    then show thesis using refused [of r'] False by (simp add: ipool_disk_attribute_def)
  next
    assume "\<exists>i r1. acquire_for_disk env u d r = Done (Some i, r1) \<and> im (i_oid i) \<noteq> None \<and>
       repo_at im (add_mset (i_oid i) M) (img_unlock (i_oid i) (img_update i r1))"
    then obtain i r1 where a: "acquire_for_disk env u d r = Done (Some i, r1)" "im (i_oid i) \<noteq> None"
       "repo_at im (add_mset (i_oid i) M) (img_unlock (i_oid i) (img_update i r1))" by blast
    obtain d' ix' where d': "image_disk_attribute env i d ix = (d', ix')" by force
    have "- (2 ^ 31) \<le> i_oid i \<and> i_oid i < 2 ^ 31" using im a(2) by (auto simp: im_ok_def)
    moreover have "ipool_disk_attribute env u n ix d r = Done (0, d'(''DISK_ID'' \<mapsto> int_string n), ix',
        Some (i_type i, i_oid i), img_unlock (i_oid i) (img_update i r1))"
      using False a(1) d' by (simp add: ipool_disk_attribute_def)
    ultimately show thesis using charged [OF _ a(3)] image_disk_values [OF d'] sv by simp
  qed
qed

lemma get_disk_loop_charges:
  assumes "im_ok im"
  shows "repo_at im M r \<Longrightarrow> list_all no_save_as ds \<Longrightarrow>
    \<exists>e ds' acq r'. get_disk_loop env u n ix cs ds r = Done (e, ds', acq, r') \<and> repo_at im (mset acq + M) r' \<and>
      (e = None \<longrightarrow> holds ds' acq)"
proof (induction ds arbitrary: n ix cs M r)
  case Nil
  then show ?case by simp
next
  case (Cons a ds)
  show ?case
  proof (cases a)
    case None
    then show ?thesis using Cons.IH [OF Cons.prems(1), of "n + 1" ix cs] Cons.prems(2) by fastforce
  next
    case (Some d)
    have sv: "vector_value d ''SAVE_AS'' = []" and ds: "list_all no_save_as ds"
      using Cons.prems(2) Some no_save_as_def [of "Some d"] by simp_all
    from assms Cons.prems(1) sv show ?thesis
    proof (cases rule: ipool_disk_cases [where env = env and u = u and n = n and ix = ix])
      case (volatile d')
      then show ?thesis using Cons.IH [OF Cons.prems(1) ds, of "n + 1" ix cs] Some by fastforce
    next
      case (refused r')
      then show ?thesis using Some by simp
    next
      case (charged d' ix' ty k r')
      show ?thesis
      proof (cases "max_error (count_type ty cs)")
        case None
        obtain e ds' acq r2 where i: "get_disk_loop env u (n + 1) ix' (count_type ty cs) ds r' = Done (e, ds', acq, r2)"
          "repo_at im (mset acq + add_mset k M) r2" "e = None \<longrightarrow> holds ds' acq"
          using Cons.IH [OF charged(2) ds, of "n + 1" ix' "count_type ty cs"] by blast
        have "int_string k \<noteq> []" by (rule int_string_nonempty)
        then have "e = None \<longrightarrow> holds (Some d' # ds') (k # acq)" using i(3) charged(3-6) by simp
        moreover have "get_disk_loop env u n ix cs (Some d # ds) r = Done (e, Some d' # ds', k # acq, r2)"
          using charged(1) None i(1) by simp
        moreover have "repo_at im (mset (k # acq) + M) r2" using i(2) by simp
        ultimately show ?thesis unfolding Some by blast
      next
        case (Some msg)
        then show ?thesis using charged \<open>a = Some d\<close> by simp
      qed
    qed
  qed
qed

lemma get_disk_images_charges:
  assumes "im_ok im" "repo_at im {#} r" "list_all no_save_as ds"
  shows "\<exists>e ds' r'. get_disk_images env u ds r = Done (e, ds', r') \<and>
    (if e = None then \<exists>acq. holds ds' acq \<and> repo_at im (mset acq) r' else repo_at im {#} r')"
proof -
  obtain e ds' acq r1 where l: "get_disk_loop env u 0 0 (0, 0, 0) ds r = Done (e, ds', acq, r1)"
    "repo_at im (mset acq) r1" "e = None \<longrightarrow> holds ds' acq"
    using get_disk_loop_charges [OF assms] by fastforce
  show ?thesis
  proof (cases e)
    case None
    then show ?thesis using l by (auto simp: get_disk_images_def)
  next
    case (Some msg)
    obtain r2 where "release_acquired acq r1 = Done r2" "repo_at im {#} r2"
      using release_acquired_all [OF assms(1), of acq "{#}" r1] l(2) by auto
    then show ?thesis using l(1) Some by (simp add: get_disk_images_def)
  qed
qed

subsection \<open>Creation\<close>

lemma parse_context_returns: "parse_context parse pre t \<noteq> None"
proof -
  have "\<exists>c. vector_unmarshall context_sep s [] = Some c" for s
    by (rule unmarshall_ends) (simp add: context_sep_def)
  then show ?thesis
    by (auto simp: parse_context_def tmpl_remove_def split: attr.splits option.splits prod.splits if_splits)
qed

text \<open>What a creation that fails has to leave behind, and a creation that succeeds.\<close>

definition undone :: "nets \<Rightarrow> (int \<Rightarrow> image option) \<Rightarrow> creation \<Rightarrow> bool" where
  "undone s im c \<longleftrightarrow> rc_of c = - 1 \<and> images (repo_of c) = im \<and> img_locks (repo_of c) = {} \<and>
     nets_ok (nets_of c) \<and> holder (nets_of c) = holder s"

definition created :: "nets \<Rightarrow> (int \<Rightarrow> image option) \<Rightarrow> creation \<Rightarrow> bool" where
  "created s1 im c \<longleftrightarrow> rc_of c = 0 \<and> nets_of c = s1 \<and> (\<exists>acq. holds (disks_of c) acq \<and>
     images (repo_of c) = charged (mset acq) im) \<and> img_locks (repo_of c) = {}"

lemma leases_rollback_undoes:
  assumes "nets_ok s" "list_all nic_wf ns" "get_network_leases uid vid ns s = Done (0, nics_of c, nets_of c)"
    and "repo_at im {#} (repo_of c)"
  shows "\<exists>c'. leases_rollback c = Done c' \<and> undone s im c'"
proof -
  obtain G where ok: "nets_ok (nets_of c)" and G: "\<forall>g \<in> G. holder s g = None"
    "holder (nets_of c) = (\<lambda>g. if g \<in> G then Some vid else holder s g)"
    "\<forall>t. nets_ok t \<longrightarrow> (\<forall>g \<in> G. holder t g \<noteq> None) \<longrightarrow> released (nics_of c) G t"
    using network_leases_footprint [OF assms(1-3)] by blast
  have "released (nics_of c) G (nets_of c)" using G(2,3) ok by simp
  then obtain s' where s': "release_network_leases (nics_of c) (nets_of c) = Done s'" "nets_ok s'"
    "holder s' = (\<lambda>g. if g \<in> G then None else holder (nets_of c) g)"
    unfolding released_def by blast
  have "holder s' = holder s" using s'(3) G(1,2) by (auto simp: fun_eq_iff)
  then show ?thesis using s'(1,2) assms(4) by (simp add: leases_rollback_def undone_def repo_at_def)
qed

lemma insert_rollback_undoes:
  assumes "nets_ok s" "list_all nic_wf ns" "get_network_leases uid vid ns s = Done (0, nics_of c, nets_of c)"
    and "im_ok im" "repo_at im (mset acq) (repo_of c)" "holds (disks_of c) acq"
  shows "\<exists>c'. insert_rollback c = Done c' \<and> undone s im c'"
proof -
  obtain r where r: "release_disks [] 0 (disks_of c) (repo_of c) = Done r" "repo_at im {#} r"
    using release_disks_all [OF assms(4) _ assms(6), of "{#}"] assms(5) by auto
  show ?thesis
    using leases_rollback_undoes [OF assms(1,2), of uid vid "c\<lparr>repo_of := r\<rparr>"] assms(3) r by (simp add: insert_rollback_def)
qed

lemma insert_rest_outcome:
  assumes "nets_ok s" "list_all nic_wf ns" "get_network_leases uid vid ns s = Done (0, nics_of c, nets_of c)"
    and "im_ok im" "repo_at im (mset acq) (repo_of c)" "holds (disks_of c) acq"
  shows "\<exists>c'. insert_rest env vid c = Done c' \<and> (created (nets_of c) im c' \<and> v_insert_ok env \<or> undone s im c')"
proof -
  have rolled: "\<exists>c'. insert_rollback (f c) = Done c' \<and> undone s im c'"
    if "nics_of (f c) = nics_of c" "nets_of (f c) = nets_of c" "repo_of (f c) = repo_of c" "disks_of (f c) = disks_of c" for f
    by (rule insert_rollback_undoes [OF assms(1,2) _ assms(4), of uid vid _ acq]) (use assms(3,5,6) that in simp_all)
  obtain rc err t where p: "parse_context (v_parse env) (v_dev_prefix env) (tmpl_of c) = Some (rc, err, t)"
    using parse_context_returns by (metis option.exhaust prod_cases3)
  obtain rc' err' t' where q: "parse_requirements (v_parse env) t = (rc', err', t')" by (metis prod_cases3)
  show ?thesis
  proof (cases "rc = 0")
    case False
    then show ?thesis using rolled [of "\<lambda>c. c\<lparr>error_of := err, tmpl_of := t\<rparr>"] p by (auto simp: insert_rest_def)
  next
    case rc: True
    show ?thesis
    proof (cases "rc' = 0")
      case False
      then show ?thesis using rolled [of "\<lambda>c. c\<lparr>error_of := err', tmpl_of := t'\<rparr>"] p q rc by (auto simp: insert_rest_def)
    next
      case True
      let ?f = "\<lambda>c. c\<lparr>tmpl_of := parse_graphics (v_base_port env) vid t'\<rparr>"
      show ?thesis
      proof (cases "v_insert_ok env")
        case ok: True
        have "insert_rest env vid c = Done ((?f c)\<lparr>rc_of := 0\<rparr>)" using p q rc True ok by (simp add: insert_rest_def Let_def)
        moreover have "created (nets_of c) im ((?f c)\<lparr>rc_of := 0\<rparr>)"
          using assms(5,6) by (auto simp: created_def repo_at_def)
        ultimately show ?thesis using ok by blast
      next
        case False
        then have "insert_rest env vid c = insert_rollback (?f c)" using p q rc True by (simp add: insert_rest_def Let_def)
        then show ?thesis using rolled [of ?f] by auto
      qed
    qed
  qed
qed

definition tmpl_disks :: "tmpl \<Rightarrow> vattr option list" where
  "tmpl_disks t = map attr_vattr (attr_range ''DISK'' (attributes t))"

definition tmpl_nics :: "tmpl \<Rightarrow> vattr option list" where
  "tmpl_nics t = map attr_vattr (attr_range ''NIC'' (attributes t))"

subsection \<open>A template with a NIC and a disk\<close>

definition new_env :: "bool \<Rightarrow> vm_env" where
  "new_env ok = \<lparr>v_img = \<lparr>img_index = Map.empty, img_users = Map.empty, img_attr = (\<lambda>_ _. []), default_dev_prefix = ''hd''\<rparr>,
     v_parse = (\<lambda>s. (0, s)), v_dev_prefix = ''hd'', v_base_port = 5900, v_insert_ok = ok\<rparr>"

definition new_tmpl :: "vector_map \<Rightarrow> (string \<times> attr) list \<Rightarrow> tmpl" where
  "new_tmpl disk xs = \<lparr>attributes = (''DISK'', Vector disk) # xs, replace_mode = False, separator = CHR ''='',
     xml_root = ''TEMPLATE''\<rparr>"

definition one_nic :: "(string \<times> attr) list" where
  "one_nic = [(''NIC'', Vector [(''IP'', []), (''NETWORK_ID'', int_string 3)])]"

lemma tmpl_nics_new: "tmpl_nics (new_tmpl d one_nic) = [Some (nic_by_id [])]"
  by (simp add: tmpl_nics_def new_tmpl_def one_nic_def attr_range_def attr_vattr_def nic_by_id_def fun_eq_iff)

lemma tmpl_disks_new: "tmpl_disks (new_tmpl d one_nic) = [Some (mfind d)]"
  by (simp add: tmpl_disks_def new_tmpl_def one_nic_def attr_range_def attr_vattr_def)

text \<open>C29. A creation that got its leases, of a machine none of whose disks has a SAVE_AS, returns and is all or nothing: it
  succeeds with each image charged once for each disk that uses it, or it fails with every image and every lease as before, at
  whatever point it fails.  The template of a user can hold a SAVE_AS: then the roll-back moves the image that it names, and if
  there is none it dereferences a null pointer (\<open>save_as_moves_any_image\<close>, \<open>save_as_missing_image\<close>).\<close>

theorem vm_insert_all_or_nothing:
  assumes "nets_ok s" "list_all nic_wf (tmpl_nics t)" "get_network_leases vuid vid (tmpl_nics t) s = Done (0, ns, s1)"
    and "im_ok (images r)" "img_locks r = {}" "list_all no_save_as (tmpl_disks t)"
  shows "\<exists>c. vm_insert env vid vuid vgid t s r = Done c \<and>
    (created s1 (images r) c \<and> v_insert_ok env \<or> undone s (images r) c)"
proof -
  define c0 where "c0 = \<lparr>rc_of = - 1, error_of = [], vm_name = [], tmpl_of = t, disks_of = tmpl_disks t,
     nics_of = tmpl_nics t, nets_of = s, repo_of = r\<rparr>"
  obtain n t1 where n: "set_vm_name vid t = (n, t1)" by force
  have r0: "repo_at (images r) {#} r" using assms(5) by (simp add: repo_at_def)
  have un: "undone s (images r) (f c0)" if "rc_of (f c0) = - 1" "repo_of (f c0) = r" "nets_of (f c0) = s" for f
    using that assms(1,5) by (simp add: undone_def)
  obtain e ds r1 where g: "get_disk_images (v_img env) vuid (tmpl_disks t) r = Done (e, ds, r1)"
    "if e = None then \<exists>acq. holds ds acq \<and> repo_at (images r) (mset acq) r1 else repo_at (images r) {#} r1"
    using get_disk_images_charges [OF assms(4) r0 assms(6)] by blast
  define c1 where "c1 = c0\<lparr>vm_name := n, tmpl_of := t1, nics_of := ns, nets_of := s1, disks_of := ds, repo_of := r1\<rparr>"
  consider (restricted) "vm_insert env vid vuid vgid t s r =
        Done (c0\<lparr>error_of := ''VM Template includes a restricted attribute '' @ the (vm_check t) @ ''.''\<rparr>)"
    | (name) "vm_insert env vid vuid vgid t s r =
        Done (c0\<lparr>error_of := ''NAME is too long; max length is 128 chars.'', tmpl_of := t1\<rparr>)"
    | (image) msg where "e = Some msg" "vm_insert env vid vuid vgid t s r = leases_rollback (c1\<lparr>error_of := msg\<rparr>)"
    | (rest) "e = None" "vm_insert env vid vuid vgid t s r = insert_rest env vid c1"
  proof (cases "vuid \<noteq> 0 \<and> vgid \<noteq> 0 \<and> vm_check t \<noteq> None")
    case True
    then show thesis using restricted by (simp add: vm_insert_def c0_def tmpl_disks_def tmpl_nics_def Let_def)
  next
    case chk: False
    show thesis
    proof (cases "length n > 128")
      case True
      then show thesis using name chk n by (simp add: vm_insert_def c0_def tmpl_disks_def tmpl_nics_def Let_def)
    next
      case False
      have "vm_insert env vid vuid vgid t s r = (case e of Some msg \<Rightarrow> leases_rollback (c1\<lparr>error_of := msg\<rparr>)
          | None \<Rightarrow> insert_rest env vid c1)"
        unfolding vm_insert_def Let_def if_not_P [OF chk] n prod.case if_not_P [OF False]
        using g(1) assms(3) by (cases e) (simp_all add: c1_def c0_def tmpl_disks_def tmpl_nics_def)
      then show thesis using image rest by (cases e) auto
    qed
  qed
  then show ?thesis
  proof cases
    case restricted
    then show ?thesis
      using un [of "\<lambda>c. c\<lparr>error_of := ''VM Template includes a restricted attribute '' @ the (vm_check t) @ ''.''\<rparr>"]
      by (auto simp: c0_def)
  next
    case name
    then show ?thesis
      using un [of "\<lambda>c. c\<lparr>error_of := ''NAME is too long; max length is 128 chars.'', tmpl_of := t1\<rparr>"]
      by (auto simp: c0_def)
  next
    case (image msg)
    have "\<exists>c'. leases_rollback (c1\<lparr>error_of := msg\<rparr>) = Done c' \<and> undone s (images r) c'"
      by (rule leases_rollback_undoes [OF assms(1,2), of vuid vid]) (use assms(3) g(2) image(1) in \<open>simp_all add: c1_def\<close>)
    then show ?thesis using image(2) by auto
  next
    case rest
    obtain acq where acq: "holds ds acq" "repo_at (images r) (mset acq) r1" using g(2) rest(1) by auto
    have "\<exists>c'. insert_rest env vid c1 = Done c' \<and>
        (created (nets_of c1) (images r) c' \<and> v_insert_ok env \<or> undone s (images r) c')"
      by (rule insert_rest_outcome [OF assms(1,2) _ assms(4), of vuid vid _ acq]) (use assms(3) acq in \<open>simp_all add: c1_def\<close>)
    then show ?thesis using rest(2) by (simp add: c1_def)
  qed
qed

theorem vm_insert_all_or_nothing_witness:
  "\<exists>c. vm_insert (new_env False) 9 0 0 (new_tmpl [(''IMAGE_ID'', ''3'')] one_nic) nets3
        (repo_with (img_at 3 IMG_READY 0 0) True) = Done c \<and>
     undone nets3 (images (repo_with (img_at 3 IMG_READY 0 0) True)) c"
proof -
  let ?r = "repo_with (img_at 3 IMG_READY 0 0) True" and ?t = "new_tmpl [(''IMAGE_ID'', ''3'')] one_nic"
  obtain ns s1 where g: "get_network_leases 0 9 (tmpl_nics ?t) nets3 = Done (0, ns, s1)"
    using nets3_get unfolding tmpl_nics_new by blast
  have wf: "list_all nic_wf (tmpl_nics ?t)" "list_all no_save_as (tmpl_disks ?t)"
    by (simp_all add: tmpl_nics_new tmpl_disks_new nic_wf_def nic_by_id_def vector_value_def no_save_as_def)
  have r: "im_ok (images ?r)" "img_locks ?r = {}"
    by (simp_all add: im_ok_def repo_with_def img_at_def img_ok_def)
  show ?thesis
    using vm_insert_all_or_nothing [OF nets3_ok wf(1) g r wf(2), of "new_env False" 0] by (simp add: new_env_def)
qed

subsection \<open>Disks with a SAVE_AS\<close>

text \<open>
  SAVE_AS is not a restricted attribute.  A disk without image that has one is moved, when its machine ends, into the
  image of that identifier, whoever owns it; without such an image a null pointer is dereferenced.
\<close>

lemma save_as_moves_any_image:
  assumes "images r k = Some i" "k \<notin> img_locks r" "imd_up r" "- (2 ^ 31) \<le> k" "k < 2 ^ 31"
    and "vector_value d ''IMAGE_ID'' = []" "vector_value d ''SAVE_AS'' = int_string k"
  shows "\<exists>r'. release_disk path n (Some d) r = Done r' \<and>
    imd_q r' = imd_q r @ [IMD_MV (i_oid i) (disk_file path n) (i_source i)]"
  using assms int_string_nonempty [of k] extract_int_string [OF assms(4,5)]
  by (simp add: release_disk_def disk_to_image_def save_as_def with_img_def move_image_def Let_def)

lemma save_as_missing_image:
  assumes "images r k = None" "- (2 ^ 31) \<le> k" "k < 2 ^ 31"
    and "vector_value d ''IMAGE_ID'' = []" "vector_value d ''SAVE_AS'' = int_string k"
  shows "release_disk path n (Some d) r = Segv"
  using assms int_string_nonempty [of k] extract_int_string [OF assms(2,3)]
  by (simp add: release_disk_def disk_to_image_def save_as_def Let_def)

end
