(* ===== verification/LcmSpec.thy ===== *)
theory LcmSpec
  imports Statements
begin

text \<open>
  The life cycle as a state machine.  \<open>lcm_spec\<close> gives, for each action and each state of the VM, the
  next state, the capacity the hosts gain or lose, the new history record and the requests to the other
  managers; it does not mention pointers, locks, rows or the order of the statements.
  The handlers refine it: \<open>refines\<close>, proved for each action, and collected in \<open>lcm_refines\<close>.
\<close>

datatype cap = Charge | Release | Release_previous

datatype hist_op = Keep | Copy_current | Copy_previous

datatype request = To_tm tm_action | To_vmm vmm_action | To_dm dm_action

record effect =
  e_state :: LcmState
  e_lcmstate :: LcmState
  e_caps :: "cap list"
  e_hist :: hist_op
  e_reqs :: "request list"

text \<open>What the machine reads of the daemon: the dispatch state, whether the VM resumes after a stop,
  the mark of a pending backup or restore, and whether XM_LIST is xen.\<close>

record ctx =
  c_active :: bool
  c_resume :: bool
  c_lcmstate :: LcmState
  c_xen :: bool

definition eff :: "ctx \<Rightarrow> LcmState \<Rightarrow> cap list \<Rightarrow> request list \<Rightarrow> effect" where
  "eff c s caps reqs = \<lparr>e_state = s, e_lcmstate = c_lcmstate c, e_caps = caps, e_hist = Keep,
     e_reqs = reqs\<rparr>"

definition running :: "ctx \<Rightarrow> LcmState \<Rightarrow> effect \<Rightarrow> effect" where
  "running c s e = (if c_active c \<and> s = RUNNING then e else eff c s [] [])"

definition fails :: "ctx \<Rightarrow> effect" where
  "fails c = eff c FAILURE [Release] [To_dm DA_FAILED]"

definition back_to_previous :: "ctx \<Rightarrow> effect" where
  "back_to_previous c = (eff c RUNNING [Release] [To_vmm VA_POLL])\<lparr>e_hist := Copy_previous\<rparr>"

definition reboot_or_xen :: "ctx \<Rightarrow> effect" where
  "reboot_or_xen c = (if c_xen c then eff c OFF [] [To_tm TA_ON] else eff c BOOT [] [To_vmm VA_DEPLOY])"

fun clean_requests :: "LcmState \<Rightarrow> request list" where
  "clean_requests PROLOG = [To_tm TA_DRIVER_CANCEL, To_tm TA_EPILOG_DELETE]"
| "clean_requests PROLOG_RESUME = [To_tm TA_DRIVER_CANCEL, To_tm TA_EPILOG_DELETE]"
| "clean_requests BOOT = [To_vmm VA_DRIVER_CANCEL, To_vmm VA_CANCEL, To_tm TA_EPILOG_DELETE]"
| "clean_requests RUNNING = [To_vmm VA_DRIVER_CANCEL, To_vmm VA_CANCEL, To_tm TA_EPILOG_DELETE]"
| "clean_requests UNKNOWN = [To_vmm VA_DRIVER_CANCEL, To_vmm VA_CANCEL, To_tm TA_EPILOG_DELETE]"
| "clean_requests SHUTDOWN = [To_vmm VA_DRIVER_CANCEL, To_vmm VA_CANCEL, To_tm TA_EPILOG_DELETE]"
| "clean_requests CANCEL = [To_vmm VA_DRIVER_CANCEL, To_vmm VA_CANCEL, To_tm TA_EPILOG_DELETE]"
| "clean_requests MIGRATE = [To_vmm VA_DRIVER_CANCEL, To_vmm VA_CANCEL, To_vmm VA_CANCEL_PREVIOUS,
     To_tm TA_EPILOG_DELETE]"
| "clean_requests SAVE_STOP = [To_vmm VA_DRIVER_CANCEL, To_vmm VA_CANCEL, To_tm TA_EPILOG_DELETE]"
| "clean_requests SAVE_SUSPEND = [To_vmm VA_DRIVER_CANCEL, To_vmm VA_CANCEL, To_tm TA_EPILOG_DELETE]"
| "clean_requests SAVE_MIGRATE = [To_vmm VA_DRIVER_CANCEL, To_vmm VA_CANCEL_PREVIOUS,
     To_tm TA_EPILOG_DELETE_PREVIOUS]"
| "clean_requests PROLOG_MIGRATE = [To_tm TA_DRIVER_CANCEL, To_tm TA_EPILOG_DELETE,
     To_tm TA_EPILOG_DELETE_PREVIOUS]"
| "clean_requests EPILOG_STOP = [To_tm TA_DRIVER_CANCEL, To_tm TA_EPILOG_DELETE]"
| "clean_requests EPILOG = [To_tm TA_DRIVER_CANCEL, To_tm TA_EPILOG_DELETE]"
| "clean_requests FAILURE = [To_tm TA_EPILOG_DELETE]"
| "clean_requests s = []"

definition clean_spec :: "ctx \<Rightarrow> LcmState \<Rightarrow> dm_action \<Rightarrow> effect" where
  "clean_spec c s d = (if s = LCM_INIT \<or> s = CLEANUP then eff c s [] [] else
     eff c CLEANUP (if s = MIGRATE \<or> s = SAVE_MIGRATE then [Release, Release_previous] else [Release])
       (clean_requests s @ [To_dm d]))"

fun lcm_spec :: "ctx \<Rightarrow> lcm_action \<Rightarrow> LcmState \<Rightarrow> effect" where
  "lcm_spec c LA_DEPLOY s = (if c_active c then
      (if c_resume c then eff c PROLOG_RESUME [Charge] [To_tm TA_PROLOG_RESUME]
       else eff c PROLOG [Charge] [To_tm TA_PROLOG]) else eff c s [] [])"
| "lcm_spec c LA_SUSPEND s = running c s (eff c SAVE_SUSPEND [] [To_vmm VA_SAVE])"
| "lcm_spec c LA_STOP s = running c s (eff c SAVE_STOP [] [To_vmm VA_SAVE])"
| "lcm_spec c LA_MIGRATE s = running c s (eff c SAVE_MIGRATE [Charge] [To_vmm VA_SAVE])"
| "lcm_spec c LA_LIVE_MIGRATE s = running c s (eff c MIGRATE [Charge] [To_vmm VA_MIGRATE])"
| "lcm_spec c LA_BACKUP s = running c s (eff c OFF_BACKUP [] [To_vmm VA_BACKUP])"
| "lcm_spec c LA_BACKUPDISK s = running c s (eff c OFF_BACKUPDISK [] [To_vmm VA_BACKUPDISK])"
| "lcm_spec c LA_RECOVER s = (if c_active c \<and> s = RUNNING then eff c OFF_RECOVER [] [To_vmm VA_RECOVER]
      else eff c PROLOG_RECOVER [] [To_tm TA_PROLOG_RECOVER])"
| "lcm_spec c LA_SHUTDOWN s = running c s (eff c SHUTDOWN [] [To_vmm VA_SHUTDOWN])"
| "lcm_spec c LA_CANCEL s = running c s (eff c CANCEL [] [To_vmm VA_CANCEL])"
| "lcm_spec c LA_OFF s = running c s (eff c s [] [To_vmm VA_OFF])"
| "lcm_spec c LA_REBOOT s = running c s (eff c s [] [To_vmm VA_REBOOT])"
| "lcm_spec c LA_ON s = (if c_active c \<and> s = OFF then reboot_or_xen c else eff c s [] [])"
| "lcm_spec c LA_RESTART s = (if c_active c \<and> (s = UNKNOWN \<or> s = BOOT)
      then eff c BOOT [] [To_vmm VA_DEPLOY] else eff c s [] [])"
| "lcm_spec c LA_RESTORE s = (if c_active c
      then (eff c BOOT [Charge] [To_vmm VA_RESTORE])\<lparr>e_hist := Copy_current\<rparr> else eff c s [] [])"
| "lcm_spec c LA_DELETE s = clean_spec c s DA_DONE"
| "lcm_spec c LA_CLEAN s = clean_spec c s DA_RESUBMIT"
| "lcm_spec c LA_FINALIZE s = eff c s [] []"
| "lcm_spec c LA_SAVE_SUCCESS s =
     (if s = SAVE_MIGRATE then eff c PROLOG_MIGRATE [Release_previous] [To_tm TA_PROLOG_MIGR]
      else if s = SAVE_SUSPEND then eff c s [Release] [To_dm DA_SUSPEND_SUCCESS]
      else if s = SAVE_STOP then eff c EPILOG_STOP [] [To_tm TA_EPILOG_STOP]
      else eff c s [] [])"
| "lcm_spec c LA_SAVE_FAILURE s =
     (if s = SAVE_MIGRATE then back_to_previous c
      else if s = SAVE_SUSPEND \<or> s = SAVE_STOP then eff c RUNNING [] [To_vmm VA_POLL]
      else eff c s [] [])"
| "lcm_spec c LA_DEPLOY_SUCCESS s =
     (let caps = (if s = MIGRATE then [Release_previous] else []) in
      if c_lcmstate c = PROLOG_RECOVER_DECOMPRESS
        then (eff c RUNNING caps [To_tm TA_DELETEBAK])\<lparr>e_lcmstate := RUNNING\<rparr>
      else if c_lcmstate c = PROLOG_BACKUP
        then (eff c RUNNING caps [To_tm TA_DELETE_BACKUP_COMPRESS])\<lparr>e_lcmstate := RUNNING\<rparr>
      else eff c RUNNING caps [])"
| "lcm_spec c LA_DEPLOY_FAILURE s =
     (if s = MIGRATE then back_to_previous c else if s = BOOT then fails c else eff c s [] [])"
| "lcm_spec c LA_SHUTDOWN_SUCCESS s = eff c EPILOG [] [To_tm TA_EPILOG]"
| "lcm_spec c LA_SHUTDOWN_FAILURE s = eff c RUNNING [] [To_vmm VA_POLL]"
| "lcm_spec c LA_CANCEL_SUCCESS s = eff c EPILOG [] [To_tm TA_EPILOG]"
| "lcm_spec c LA_CANCEL_FAILURE s = eff c RUNNING [] [To_vmm VA_POLL]"
| "lcm_spec c LA_OFF_SUCCESS s =
     (if s = OFF_BACKUP then eff c PROLOG_BACKUP [] [To_tm TA_PROLOG_BACKUP]
      else if s = OFF_RECOVER then eff c PROLOG_RECOVER [] [To_tm TA_PROLOG_RECOVER]
      else if s = OFF_BACKUPDISK then eff c PROLOG_BACKUPDISK [] [To_tm TA_PROLOG_BACKUPDISK]
      else eff c OFF [] [])"
| "lcm_spec c LA_XMLIST_SUCCESS s =
     (if s = OFF then eff c BOOT [] [To_vmm VA_DEPLOY] else eff c s [] [])"
| "lcm_spec c LA_XMLIST_FAILURE s = eff c s [] []"
| "lcm_spec c LA_PROLOG_RECOVER_DECOMPRESS s =
     eff c PROLOG_RECOVER_DECOMPRESS [] [To_tm TA_PROLOG_RECOVER_DECOMPRESS]"
| "lcm_spec c LA_PROLOG_SUCCESS s =
     (if s = PROLOG then eff c BOOT [] [To_vmm VA_DEPLOY]
      else if s = PROLOG_MIGRATE \<or> s = PROLOG_RESUME then eff c BOOT [] [To_vmm VA_RESTORE]
      else if s = PROLOG_BACKUP \<or> s = PROLOG_RECOVER_DECOMPRESS
        then (reboot_or_xen c)\<lparr>e_lcmstate := s\<rparr>
      else if redeploy_state s then reboot_or_xen c
      else eff c s [] [])"
| "lcm_spec c LA_PROLOG_FAILURE s =
     (if s = PROLOG_BACKUP
        then (eff c DELETE_BACKUP_FAIL [] [To_tm TA_DELETE_BACKUP_FAIL])\<lparr>e_lcmstate := RUNNING\<rparr>
      else if s = PROLOG_RECOVER
        then (eff c DELETE_RECOVER_FAIL [] [To_tm TA_DELETE_RECOVER_FAIL])\<lparr>e_lcmstate := RUNNING\<rparr>
      else if s = PROLOG_RECOVER_DECOMPRESS
        then (eff c RECOVER_DECOMPRESS_FAIL [] [To_tm TA_RECOVER_DECOMPRESS_FAIL])\<lparr>e_lcmstate := RUNNING\<rparr>
      else if s = PROLOG_BACKUPDISK
        then (if c_xen c then eff c OFF [] [To_tm TA_ON] else eff c s [] [To_vmm VA_DEPLOY])
      else fails c)"
| "lcm_spec c LA_EPILOG_SUCCESS s =
     (if s = EPILOG_STOP then eff c s [Release] [To_dm DA_STOP_SUCCESS]
      else if s = EPILOG then eff c s [Release] [To_dm DA_DONE]
      else eff c s [] [])"
| "lcm_spec c LA_EPILOG_FAILURE s = fails c"
| "lcm_spec c LA_MONITOR_FAILURE s = fails c"
| "lcm_spec c LA_MONITOR_SUSPEND s = eff c SAVE_SUSPEND [Release] [To_dm DA_SUSPEND_SUCCESS]"
| "lcm_spec c LA_MONITOR_DONE s = eff c UNKNOWN [] []"

subsection \<open>The abstraction of the daemon\<close>

definition ctx_of :: "vm \<Rightarrow> one \<Rightarrow> ctx" where
  "ctx_of v w = \<lparr>c_active = (state v = ACTIVE),
     c_resume = (case previous_hist v of None \<Rightarrow> False | Some p \<Rightarrow> reason p = R_STOP_RESUME),
     c_lcmstate = lcmstate v, c_xen = (xm_list w = ''xen'')\<rparr>"

fun apply_cap :: "vm \<Rightarrow> cap \<Rightarrow> host_pool \<Rightarrow> host_pool" where
  "apply_cap v Charge hp = (case (hist v, get_requirements v) of
     (Some h, cpu, mem, disk) \<Rightarrow> hpool_add_capacity (hid h) cpu mem disk hp | _ \<Rightarrow> hp)"
| "apply_cap v Release hp = (case (hist v, get_requirements v) of
     (Some h, cpu, mem, disk) \<Rightarrow> hpool_del_capacity (hid h) cpu mem disk hp | _ \<Rightarrow> hp)"
| "apply_cap v Release_previous hp = (case (previous_hist v, get_requirements v) of
     (Some h, cpu, mem, disk) \<Rightarrow> hpool_del_capacity (hid h) cpu mem disk hp | _ \<Rightarrow> hp)"

definition apply_caps :: "vm \<Rightarrow> cap list \<Rightarrow> host_pool \<Rightarrow> host_pool" where
  "apply_caps v = fold (apply_cap v)"

fun apply_hist :: "hist_op \<Rightarrow> int list \<Rightarrow> int list" where
  "apply_hist Copy_current (h # hs) = h # h # hs"
| "apply_hist Copy_previous (h # p # hs) = p # h # p # hs"
| "apply_hist _ hs = hs"

definition hids :: "vm \<Rightarrow> int list" where
  "hids v = map hid (history_records v)"

definition tm_reqs :: "request list \<Rightarrow> tm_action list" where
  "tm_reqs rs = concat (map (\<lambda>r. case r of To_tm a \<Rightarrow> [a] | _ \<Rightarrow> []) rs)"

definition vmm_reqs :: "request list \<Rightarrow> vmm_action list" where
  "vmm_reqs rs = concat (map (\<lambda>r. case r of To_vmm a \<Rightarrow> [a] | _ \<Rightarrow> []) rs)"

definition dm_reqs :: "request list \<Rightarrow> dm_action list" where
  "dm_reqs rs = concat (map (\<lambda>r. case r of To_dm a \<Rightarrow> [a] | _ \<Rightarrow> []) rs)"

text \<open>The pointers the handlers of a VM in this state dereference are set.\<close>

definition vm_ready :: "vm \<Rightarrow> bool" where
  "vm_ready v \<longleftrightarrow> history_records v \<noteq> [] \<and>
     (lcm_state v = MIGRATE \<or> lcm_state v = SAVE_MIGRATE \<longrightarrow> previous_hist v \<noteq> None) \<and>
     (lcm_state v = PROLOG_BACKUP \<longrightarrow> backup v \<noteq> None) \<and>
     (lcm_state v = PROLOG_BACKUPDISK \<longrightarrow> backupdisk v \<noteq> None)"

text \<open>The row of the VM shows its states.\<close>

definition row_shows :: "vm \<Rightarrow> one \<Rightarrow> bool" where
  "row_shows v w \<longleftrightarrow> map_option state (vm_rows w (vm_oid v)) = Some (state v) \<and>
     map_option lcm_state (vm_rows w (vm_oid v)) = Some (lcm_state v)"

definition matches :: "effect \<Rightarrow> int \<Rightarrow> vm \<Rightarrow> one \<Rightarrow> vm \<Rightarrow> one \<Rightarrow> bool" where
  "matches e vid v w v' w' \<longleftrightarrow>
     state v' = state v \<and> lcm_state v' = e_state e \<and> lcmstate v' = e_lcmstate e \<and>
     hids v' = apply_hist (e_hist e) (hids v) \<and>
     hosts w' = apply_caps v (e_caps e) (hosts w) \<and>
     tm_q w' = tm_q w @ map (\<lambda>a. (a, vid)) (tm_reqs (e_reqs e)) \<and>
     vmm_q w' = vmm_q w @ map (\<lambda>a. (a, vid)) (vmm_reqs (e_reqs e)) \<and>
     dm_q w' = dm_q w @ map (\<lambda>a. (dm_action_name a, vid)) (dm_reqs (e_reqs e)) \<and>
     lcm_q w' = lcm_q w \<and>
     (db_ok w \<longrightarrow> row_shows v w \<longrightarrow> row_shows v' w')"

definition refines :: "int \<Rightarrow> (one \<Rightarrow> one res) \<Rightarrow> lcm_action \<Rightarrow> bool" where
  "refines vid h a \<longleftrightarrow> (\<forall>w v. vms w vid = Some v \<longrightarrow> vm_oid v = vid \<longrightarrow> vid \<notin> vm_locks w \<longrightarrow>
     vm_ready v \<longrightarrow> (\<exists>w' v'. h w = Done w' \<and> vms w' vid = Some v' \<and>
       matches (lcm_spec (ctx_of v w) a (lcm_state v)) vid v w v' w'))"

end
