(* ===== verification/LcmRefine.thy ===== *)
theory LcmRefine
  imports LcmSpec
begin

text \<open>
  The handlers of the life-cycle manager refine the state machine \<open>lcm_spec\<close>: from a VM whose pointers
  are set (\<open>vm_ready\<close>) and whose mutex is free, each handler returns, and the states, the hosts' capacity,
  the history and the queues change as the machine says.
\<close>

lemma ctx_of_locks [simp]: "ctx_of v (w\<lparr>vm_locks := l\<rparr>) = ctx_of v w"
  by (simp add: ctx_of_def)

lemma matches_locks [simp]: "matches e vid v (w\<lparr>vm_locks := l\<rparr>) v' w' = matches e vid v w v' w'"
  by (simp add: matches_def row_shows_def)

lemma matches_vms [simp]: "matches e vid v w v' (w'\<lparr>vms := x\<rparr>) = matches e vid v w v' w'"
  by (simp add: matches_def row_shows_def)

lemma refinesI:
  assumes "\<And>v w h hs. vm_oid v = vid \<Longrightarrow> history_records v = h # hs \<Longrightarrow> vm_ready v \<Longrightarrow>
     \<exists>v' w'. g (v, w) = Done (v', w') \<and>
       matches (lcm_spec (ctx_of v w) a (lcm_state v)) vid v w v' w'"
  shows "refines vid (with_vm vid g) a"
  unfolding refines_def
proof (intro allI impI)
  fix w :: one and v assume v: "vms w vid = Some v" "vm_oid v = vid" "vid \<notin> vm_locks w" "vm_ready v"
  obtain h hs where "history_records v = h # hs" using v(4) by (auto simp: vm_ready_def neq_Nil_conv)
  from assms [OF v(2) this v(4), of "w\<lparr>vm_locks := insert vid (vm_locks w)\<rparr>"]
  obtain v' w' where g: "g (v, w\<lparr>vm_locks := insert vid (vm_locks w)\<rparr>) = Done (v', w')"
    and m: "matches (lcm_spec (ctx_of v w) a (lcm_state v)) vid v w v' w'" by auto
  have "with_vm vid g w = Done (w'\<lparr>vms := (vms w')(vid \<mapsto> v')\<rparr>)"
    using v g by (simp add: with_vm_def)
  moreover have "matches (lcm_spec (ctx_of v w) a (lcm_state v)) vid v w v' (w'\<lparr>vms := (vms w')(vid \<mapsto> v')\<rparr>)"
    using m by simp
  ultimately show "\<exists>w' v'. with_vm vid g w = Done w' \<and> vms w' vid = Some v' \<and>
       matches (lcm_spec (ctx_of v w) a (lcm_state v)) vid v w v' w'"
    by (metis (no_types, lifting) fun_upd_same one.select_convs(1) one.surjective one.update_convs(1))
qed

lemmas spec_simps = running_def eff_def fails_def back_to_previous_def reboot_or_xen_def
  clean_spec_def ctx_of_def in_state_def

lemma hosts_charge:
  "hosts (charge h v w) = (case get_requirements v of
     (cpu, mem, disk) \<Rightarrow> hpool_add_capacity h cpu mem disk (hosts w))"
  "hosts (discharge h v w) = (case get_requirements v of
     (cpu, mem, disk) \<Rightarrow> hpool_del_capacity h cpu mem disk (hosts w))"
  by (simp_all add: charge_def discharge_def Let_def split: prod.split)

lemma vm_rows_write_row: "vm_rows (write_row v w) = (if db_ok w then (vm_rows w)(vm_oid v \<mapsto> to_xml v) else vm_rows w)"
  by (simp add: write_row_def)

lemmas obs_simps = matches_def apply_caps_def hids_def tm_reqs_def vmm_reqs_def dm_reqs_def
  row_shows_def hist_def previous_hist_def hosts_charge vm_rows_write_row

lemmas refine_simps = exec_simps spec_simps obs_simps cp_history_def cp_previous_history_def
  case_prod_unfold vm_ready_def failure_action_def

lemma straight_refines:
  "refines vid (suspend_action vid) LA_SUSPEND"
  "refines vid (stop_action vid) LA_STOP"
  "refines vid (migrate_action vid) LA_MIGRATE"
  "refines vid (backup_action vid) LA_BACKUP"
  "refines vid (recover_action vid) LA_RECOVER"
  "refines vid (backupdisk_action vid) LA_BACKUPDISK"
  "refines vid (live_migrate_action vid) LA_LIVE_MIGRATE"
  "refines vid (shutdown_action vid) LA_SHUTDOWN"
  "refines vid (restore_action vid) LA_RESTORE"
  "refines vid (cancel_action vid) LA_CANCEL"
  "refines vid (off_action vid) LA_OFF"
  "refines vid (on_action vid) LA_ON"
  "refines vid (reboot_action vid) LA_REBOOT"
  "refines vid (restart_action vid) LA_RESTART"
  "refines vid (shutdown_success_action vid) LA_SHUTDOWN_SUCCESS"
  "refines vid (shutdown_failure_action vid) LA_SHUTDOWN_FAILURE"
  "refines vid (prolog_failure_action vid) LA_PROLOG_FAILURE"
  "refines vid (epilog_failure_action vid) LA_EPILOG_FAILURE"
  "refines vid (cancel_success_action vid) LA_CANCEL_SUCCESS"
  "refines vid (off_success_action vid) LA_OFF_SUCCESS"
  "refines vid (xmlist_failure_action vid) LA_XMLIST_FAILURE"
  "refines vid (prolog_recover_decompress_action vid) LA_PROLOG_RECOVER_DECOMPRESS"
  "refines vid (cancel_failure_action vid) LA_CANCEL_FAILURE"
  "refines vid (monitor_failure_action vid) LA_MONITOR_FAILURE"
  "refines vid (monitor_suspend_action vid) LA_MONITOR_SUSPEND"
  "refines vid (monitor_done_action vid) LA_MONITOR_DONE"
  "refines vid (deploy_action vid) LA_DEPLOY"
  "refines vid (epilog_success_action vid) LA_EPILOG_SUCCESS"
  unfolding suspend_action_def
    stop_action_def
    migrate_action_def
    backup_action_def
    recover_action_def
    backupdisk_action_def
    live_migrate_action_def
    shutdown_action_def
    restore_action_def
    cancel_action_def
    off_action_def
    on_action_def
    reboot_action_def
    restart_action_def
    shutdown_success_action_def
    shutdown_failure_action_def
    prolog_failure_action_def
    epilog_failure_action_def
    cancel_success_action_def
    off_success_action_def
    xmlist_failure_action_def
    prolog_recover_decompress_action_def
    cancel_failure_action_def
    monitor_failure_action_def
    monitor_suspend_action_def
    monitor_done_action_def
    deploy_action_def
    epilog_success_action_def
  by (rule refinesI, simp add: refine_simps)+

text \<open>The handlers that use the previous record: by cases on whether there is one.\<close>

lemma migration_refines:
  "refines vid (save_failure_action vid) LA_SAVE_FAILURE"
  "refines vid (save_success_action vid) LA_SAVE_SUCCESS"
  "refines vid (deploy_failure_action vid) LA_DEPLOY_FAILURE"
  "refines vid (deploy_success_action vid) LA_DEPLOY_SUCCESS"
  unfolding save_failure_action_def
    save_success_action_def
    deploy_failure_action_def
    deploy_success_action_def
  by (rule refinesI, case_tac hs; simp add: refine_simps)+

lemma clean_refines:
  "refines vid (delete_action vid) LA_DELETE"
  "refines vid (clean_action vid) LA_CLEAN"
  unfolding delete_action_def
    clean_action_def
  by (rule refinesI, case_tac hs; case_tac "lcm_state v";
      simp add: refine_simps clean_up_vm_def clean_up_requests_def)+

lemma prolog_success_refines: "refines vid (prolog_success_action vid) LA_PROLOG_SUCCESS"
  unfolding prolog_success_action_def
  by (rule refinesI, case_tac "backup v"; case_tac "backupdisk v"; case_tac "lcm_state v";
      simp add: refine_simps redeploy_state_def)

lemma xmlist_success_refines: "refines vid (xmlist_success_action vid) LA_XMLIST_SUCCESS"
proof -
  have "refines vid (with_vm vid (branch (\<lambda>(v, w). lcm_state v = OFF)
       [set_lcm BOOT, update, vmm VA_DEPLOY vid, unlock] [unlock])) LA_XMLIST_SUCCESS"
    by (rule refinesI) (simp add: refine_simps)
  then show ?thesis by (simp add: refines_def xmlist_success_action_def)
qed

lemma finalize_refines: "refines vid Done LA_FINALIZE"
  by (simp add: refines_def refine_simps)

lemma lcm_handler_refines: "refines vid (lcm_handler a vid) a"
  by (cases a) (simp_all add: straight_refines migration_refines clean_refines
    prolog_success_refines xmlist_success_refines finalize_refines)

text \<open>The same, for a message taken from the queue.\<close>

lemma lcm_do_action_refines:
  assumes "vms w vid = Some v" "vm_oid v = vid" "vid \<notin> vm_locks w" "vm_ready v"
  obtains w' v' where "lcm_do_action (lcm_action_name a) vid w = Done w'" "vms w' vid = Some v'"
    "matches (lcm_spec (ctx_of v w) a (lcm_state v)) vid v w v' w'"
  using lcm_handler_refines [of vid a] assms unfolding refines_def lcm_dispatch by blast

end
