(* ===== verification/Frame.thy ===== *)
theory Frame
  imports Statements "HOL-Library.Sublist"
begin

text \<open>
  What a handler of the managers leaves alone, by two instances of \<open>handler_rel\<close>: the frame (the other
  VMs, their rows and messages, the mutexes) and the history discipline (records are only appended,
  numbered consecutively, and keep their number and host).
\<close>

lemma handler_result:
  assumes "handler_ok vid h" "vms w vid = Some v" "vm_oid v = vid" "h w = Done w'"
  obtains f v' w1 where "body vid f"
    "f (v, w\<lparr>vm_locks := insert vid (vm_locks w)\<rparr>) = Done (v', w1)" "vm_oid v' = vid"
    "w' = w1\<lparr>vm_locks := vm_locks w1 - {vid}, vms := (vms w1)(vid \<mapsto> v')\<rparr>" "vid \<notin> vm_locks w"
proof -
  let ?w = "w\<lparr>vm_locks := insert vid (vm_locks w)\<rparr>"
  obtain g where g: "releases vid g" "h w = with_vm vid g w"
    using assms(1,2) by (auto simp: handler_ok_def)
  obtain f where f: "body vid f" "g (v, ?w) = bind_res (f (v, ?w)) unlock"
    using g(1) assms(3) unfolding releases_def by force
  have free: "vid \<notin> vm_locks w" and d: "bind_res (g (v, ?w))
      (\<lambda>(v', w'). Done (w'\<lparr>vms := (vms w')(vid \<mapsto> v')\<rparr>)) = Done w'"
    using g(2) assms(2,4) by (simp_all add: with_vm_def split: if_splits)
  then obtain v' w1 where f1: "f (v, ?w) = Done (v', w1)"
    using f(2) by (cases "f (v, ?w)") auto
  have o: "vm_oid v' = vid" using body_keeps_oid [OF f(1) _ f1] assms(3) by simp
  have "w' = w1\<lparr>vm_locks := vm_locks w1 - {vid}, vms := (vms w1)(vid \<mapsto> v')\<rparr>"
    using d f(2) f1 o by (simp add: unlock_def)
  from that [OF f(1) f1 o this free] show thesis .
qed

subsection \<open>The frame of a handler\<close>

text \<open>\<open>appends vid q q'\<close>: the queue only grows, by messages for \<open>vid\<close>.\<close>

definition appends :: "int \<Rightarrow> ('a \<times> int) list \<Rightarrow> ('a \<times> int) list \<Rightarrow> bool" where
  "appends vid q q' \<longleftrightarrow> (\<exists>as. q' = q @ map (\<lambda>a. (a, vid)) as)"

lemma appends_refl [simp]: "appends vid q q"
  unfolding appends_def by (rule exI [of _ "[]"]) simp

lemma appends_one [simp]: "appends vid q (q @ [(a, vid)])"
  unfolding appends_def by (rule exI [of _ "[a]"]) simp

lemma appends_trans: "appends vid p q \<Longrightarrow> appends vid q r \<Longrightarrow> appends vid p r"
  unfolding appends_def by (metis append.assoc map_append)

definition world_frame :: "int \<Rightarrow> one \<Rightarrow> one \<Rightarrow> bool" where
  "world_frame vid w w' \<longleftrightarrow>
     vms w' = vms w \<and> vm_locks w' = vm_locks w \<and> now w' = now w \<and> db_ok w' = db_ok w \<and>
     xm_list w' = xm_list w \<and> net_pool w' = net_pool w \<and> img_repo w' = img_repo w \<and>
     var_location w' = var_location w \<and>
     (\<forall>u. u \<noteq> vid \<longrightarrow> vm_rows w' u = vm_rows w u) \<and>
     (\<forall>u n. u \<noteq> vid \<longrightarrow> hist_rows w' (u, n) = hist_rows w (u, n)) \<and>
     appends vid (lcm_q w) (lcm_q w') \<and> appends vid (dm_q w) (dm_q w') \<and>
     appends vid (tm_q w) (tm_q w') \<and> appends vid (vmm_q w) (vmm_q w')"

lemma world_frame_refl [simp]: "world_frame vid w w"
  by (simp add: world_frame_def)

lemma world_frame_trans: "world_frame vid u v \<Longrightarrow> world_frame vid v w \<Longrightarrow> world_frame vid u w"
  unfolding world_frame_def by (auto elim: appends_trans)

lemma rows_simps:
  "u \<noteq> vm_oid v \<Longrightarrow> vm_rows (write_row v w) u = vm_rows w u"
  "u \<noteq> vid \<Longrightarrow> hist_rows (write_history vid ho w) (u, n) = hist_rows w (u, n)"
  by (simp_all add: write_row_def write_history_def split: option.split)

text \<open>What the VM keeps: its template, whether it has backup records, and what its history may become.\<close>

definition ident :: "history \<Rightarrow> int \<times> int" where
  "ident h = (seq h, hid h)"

definition vm_frame :: "vm \<Rightarrow> vm \<Rightarrow> bool" where
  "vm_frame v v' \<longleftrightarrow> vm_uid v' = vm_uid v \<and> req_memory v' = req_memory v \<and> req_cpu v' = req_cpu v \<and>
     disks v' = disks v \<and> nics v' = nics v \<and> attrs v' = attrs v \<and>
     (backup v' = None \<longleftrightarrow> backup v = None) \<and> (backupdisk v' = None \<longleftrightarrow> backupdisk v = None) \<and>
     suffix (map ident (history_records v)) (map ident (history_records v')) \<and>
     (seqs_ok v \<longrightarrow> seqs_ok v')"

lemma vm_frame_refl [simp]: "vm_frame v v"
  by (simp add: vm_frame_def)

lemma vm_frame_trans: "vm_frame u v \<Longrightarrow> vm_frame v w \<Longrightarrow> vm_frame u w"
  unfolding vm_frame_def by (auto elim: suffix_order.trans)

lemma seqs_ok_map: "map seq (history_records v') = map seq (history_records v) \<Longrightarrow> seqs_ok v' = seqs_ok v"
  unfolding seqs_ok_def by (metis length_map)

definition local_step :: "int \<Rightarrow> locked \<Rightarrow> locked \<Rightarrow> bool" where
  "local_step vid s s' \<longleftrightarrow> vm_frame (fst s) (fst s') \<and> world_frame vid (snd s) (snd s')"

lemma vm_frame_fields [simp]:
  "vm_frame v (v\<lparr>lcm_state := s\<rparr>)" "vm_frame v (v\<lparr>state := d\<rparr>)" "vm_frame v (v\<lparr>lcmstate := s\<rparr>)"
  "vm_frame v (v\<lparr>exit_time := t\<rparr>)" "backup v = Some b0 \<Longrightarrow> vm_frame v (v\<lparr>backup := Some b\<rparr>)"
  "backupdisk v = Some k0 \<Longrightarrow> vm_frame v (v\<lparr>backupdisk := Some k\<rparr>)"
  by (simp_all add: vm_frame_def seqs_ok_def)

lemma vm_frame_history:
  assumes "map ident hs' = map ident (history_records v)"
  shows "vm_frame v (v\<lparr>history_records := hs'\<rparr>)"
proof -
  have "map seq hs' = map fst (map ident hs')" by (simp add: ident_def comp_def)
  also have "\<dots> = map seq (history_records v)" by (simp add: assms) (simp add: ident_def comp_def)
  finally show ?thesis using assms seqs_ok_map [of "v\<lparr>history_records := hs'\<rparr>" v]
    by (simp add: vm_frame_def)
qed

lemma vm_frame_push:
  assumes "seqs_ok v \<Longrightarrow> seqs_ok (v\<lparr>history_records := h # history_records v\<rparr>)"
  shows "vm_frame v (v\<lparr>history_records := h # history_records v\<rparr>)"
  using assms by (simp add: vm_frame_def suffix_ConsI)

lemma vm_frame_cp: "vm_frame v (cp_history v)" "vm_frame v (cp_previous_history v)"
  using seqs_ok_cp_history [of v] seqs_ok_cp_previous [of v]
  by (auto simp: cp_history_def cp_previous_history_def intro!: vm_frame_push split: option.splits)

lemma cp_oid [simp]: "vm_oid (cp_history v) = vm_oid v" "vm_oid (cp_previous_history v) = vm_oid v"
  by (simp_all add: cp_history_def cp_previous_history_def split: option.splits)

lemma annotates_ident: "annotates f \<Longrightarrow> ident (f t h) = ident h"
  by (simp add: annotates_def ident_def)

interpretation frame_rel: handler_rel vid "local_step vid" for vid
proof
  show "local_step vid s s" for s by (simp add: local_step_def)
  show "local_step vid a c" if "local_step vid a b" "local_step vid b c" for a b c
    using that unfolding local_step_def by (blast intro: vm_frame_trans world_frame_trans)
  show "prim vid f \<Longrightarrow> obeys vid (local_step vid) f" for f
  proof (induction rule: prim.induct)
    case (p_on_hist f)
    then show ?case
      by (auto simp: obeys_def on_hist_def local_step_def annotates_ident
               intro!: vm_frame_history split: list.splits)
  next
    case (p_on_previous f)
    then show ?case
      by (auto simp: obeys_def on_previous_def local_step_def annotates_ident
               intro!: vm_frame_history split: list.splits)
  qed (auto simp: obeys_def local_step_def stmt_defs vm_frame_cp world_frame_def rows_simps
       split: option.splits)
qed

text \<open>The frame between two calls: no mutex stays locked, and only the VM of the call and the messages,
  rows and history of that VM change.\<close>

definition only_vm :: "int \<Rightarrow> one \<Rightarrow> one \<Rightarrow> bool" where
  "only_vm vid w w' \<longleftrightarrow> (\<forall>u. u \<noteq> vid \<longrightarrow> vms w' u = vms w u) \<and>
     world_frame vid w (w'\<lparr>vms := vms w\<rparr>)"

lemma only_vm_refl [simp]: "only_vm vid w w"
  by (simp add: only_vm_def)

lemma only_vm_locks: "only_vm vid w w' \<Longrightarrow> vm_locks w' = vm_locks w"
  by (simp add: only_vm_def world_frame_def)

lemma world_frame_setlocks:
  "world_frame vid (w\<lparr>vm_locks := l\<rparr>) w1 \<Longrightarrow> world_frame vid w (w1\<lparr>vm_locks := vm_locks w, vms := vms w\<rparr>)"
  by (simp add: world_frame_def)

lemma handler_frame:
  assumes "handler_ok vid h" "vms w vid = Some v" "vm_oid v = vid" "h w = Done w'"
  obtains v' where "vms w' vid = Some v'" "vm_oid v' = vid" "vm_frame v v'" "only_vm vid w w'"
proof -
  let ?w = "w\<lparr>vm_locks := insert vid (vm_locks w)\<rparr>"
  obtain f v' w1 where f: "body vid f" "f (v, ?w) = Done (v', w1)" and o: "vm_oid v' = vid"
    and w': "w' = w1\<lparr>vm_locks := vm_locks w1 - {vid}, vms := (vms w1)(vid \<mapsto> v')\<rparr>"
    and free: "vid \<notin> vm_locks w"
    by (rule handler_result [OF assms])
  have "local_step vid (v, ?w) (v', w1)"
    using obeysD(2) [OF frame_rel.obeys_body [OF f(1)] _ f(2)] assms(3) by simp
  then have fr: "vm_frame v v'" "world_frame vid ?w w1" by (simp_all add: local_step_def)
  have l: "vms w1 = vms w" "vm_locks w1 = insert vid (vm_locks w)"
    using fr(2) by (simp_all add: world_frame_def)
  have "only_vm vid w w'"
    using world_frame_setlocks [OF fr(2)] l free by (simp add: only_vm_def w' insert_Diff_if)
  with o fr(1) show thesis by (intro that [of v']) (simp_all add: w')
qed

lemma lcm_do_action_frame:
  assumes "lcm_do_action (lcm_action_name a) vid w = Done w'" "vms w vid = Some v" "vm_oid v = vid"
  obtains v' where "vms w' vid = Some v'" "vm_oid v' = vid" "vm_frame v v'" "only_vm vid w w'"
proof (cases "a = LA_FINALIZE")
  case True
  then have "w' = w" using assms(1) by (simp only: lcm_dispatch lcm_handler.simps res.inject)
  then show thesis using assms by (intro that [of v]) simp_all
next
  case False
  have "lcm_handler a vid w = Done w'" using assms(1) by (simp add: lcm_dispatch)
  from handler_frame [OF lcm_handler_ok [OF False] assms(2,3) this] that show thesis by blast
qed

end
