(* ===== verification/DispatchSpec.thy ===== *)
theory DispatchSpec
  imports Requests Samples
begin

text \<open>
  What the dispatch manager does, as tables: for each request and each pair of states the return
  code, the states the VM enters, the messages sent and whether the VM gives its leases and images
  back (\<open>dm_spec\<close>), and the same for the messages of the life-cycle manager (\<open>dm_message_spec\<close>).
  The code is the table, exactly: \<open>vm_action_exact\<close> and \<open>dm_do_action_exact\<close> give the whole state after the call.
\<close>

record dm_move =
  mv_rc :: int
  mv_new :: "(VmState \<times> LcmState) option"
  mv_exit :: bool
  mv_lcm :: "lcm_action list"
  mv_tm :: "tm_action list"
  mv_ends :: bool

definition move :: "int \<Rightarrow> dm_move" where
  "move rc = \<lparr>mv_rc = rc, mv_new = None, mv_exit = False, mv_lcm = [], mv_tm = [], mv_ends = False\<rparr>"

definition ask_lcm :: "lcm_action \<Rightarrow> dm_move" where
  "ask_lcm a = (move 0)\<lparr>mv_lcm := [a]\<rparr>"

definition enter :: "VmState \<Rightarrow> LcmState \<Rightarrow> dm_move" where
  "enter s l = (move 0)\<lparr>mv_new := Some (s, l)\<rparr>"

definition ask_running :: "lcm_action \<Rightarrow> VmState \<Rightarrow> LcmState \<Rightarrow> dm_move" where
  "ask_running a st l = (if st = ACTIVE \<and> l = RUNNING then ask_lcm a else move (-2))"

definition finish :: "dm_move" where
  "finish = (enter DONE LCM_INIT)\<lparr>mv_exit := True, mv_ends := True\<rparr>"

fun finalize_spec :: "VmState \<Rightarrow> dm_move" where
  "finalize_spec SUSPENDED = finish\<lparr>mv_tm := [TA_EPILOG_DELETE]\<rparr>"
| "finalize_spec FAILED = finish\<lparr>mv_tm := [TA_EPILOG_DELETE]\<rparr>"
| "finalize_spec ACTIVE = ask_lcm LA_DELETE"
| "finalize_spec DONE = move 0"
| "finalize_spec _ = finish"

fun resubmit_spec :: "VmState \<Rightarrow> dm_move" where
  "resubmit_spec FAILED = (enter PENDING LCM_INIT)\<lparr>mv_tm := [TA_EPILOG_DELETE]\<rparr>"
| "resubmit_spec HOLD = enter PENDING LCM_INIT"
| "resubmit_spec STOPPED = enter PENDING LCM_INIT"
| "resubmit_spec ACTIVE = ask_lcm LA_CLEAN"
| "resubmit_spec INIT = move 0"
| "resubmit_spec PENDING = move 0"
| "resubmit_spec _ = move (-2)"

definition dm_spec :: "int \<Rightarrow> string \<Rightarrow> VmState \<Rightarrow> LcmState \<Rightarrow> dm_move" where
  "dm_spec junk action st l =
     (if action = ''shutdown'' then ask_running LA_SHUTDOWN st l
      else if action = ''hold'' then if st = PENDING then enter HOLD l else move (-2)
      else if action = ''release'' then if st = HOLD then enter PENDING l else move (-2)
      else if action = ''stop'' then ask_running LA_STOP st l
      else if action = ''cancel'' then ask_running LA_CANCEL st l
      else if action = ''off'' then ask_running LA_OFF st l
      else if action = ''on'' then if st = ACTIVE \<and> l = OFF then ask_lcm LA_ON else move (-2)
      else if action = ''suspend'' then ask_running LA_SUSPEND st l
      else if action = ''resume'' then
        if st = STOPPED then enter PENDING l
        else if st = SUSPENDED then (enter ACTIVE l)\<lparr>mv_lcm := [LA_RESTORE]\<rparr> else move (-2)
      else if action = ''restart'' then
        if st = ACTIVE \<and> (l = UNKNOWN \<or> l = BOOT) then ask_lcm LA_RESTART else move (-2)
      else if action = ''finalize'' then finalize_spec st
      else if action = ''resubmit'' then resubmit_spec st
      else if action = ''reboot'' then ask_running LA_REBOOT st l
      else move junk)"

text \<open>The state after a move: \<open>s\<close>, \<open>r\<close> are the networks and the images once the VM has given back what it
  holds.\<close>

definition moved_vm :: "dm_move \<Rightarrow> int \<Rightarrow> vm \<Rightarrow> vm" where
  "moved_vm m t v = (let v = (case mv_new m of None \<Rightarrow> v | Some (st, l) \<Rightarrow> v\<lparr>state := st, lcm_state := l\<rparr>)
     in if mv_exit m then v\<lparr>exit_time := t\<rparr> else v)"

definition moved :: "dm_move \<Rightarrow> int \<Rightarrow> vm \<Rightarrow> nets \<Rightarrow> repo \<Rightarrow> one \<Rightarrow> one" where
  "moved m vid v s r w = (let v' = moved_vm m (now w) v in
     w\<lparr>vms := (vms w)(vid \<mapsto> v'),
       lcm_q := lcm_q w @ map (\<lambda>a. (lcm_action_name a, vid)) (mv_lcm m),
       tm_q := tm_q w @ map (\<lambda>a. (a, vid)) (mv_tm m),
       vm_rows := (if mv_new m \<noteq> None \<and> db_ok w then (vm_rows w)(vid \<mapsto> to_xml v') else vm_rows w),
       net_pool := (if mv_ends m then s else net_pool w),
       img_repo := (if mv_ends m then r else img_repo w)\<rparr>)"

text \<open>What the VM holds can be released: no mutex of a network or an image is held.\<close>

definition gives_back :: "vm \<Rightarrow> one \<Rightarrow> nets \<Rightarrow> repo \<Rightarrow> bool" where
  "gives_back v w s r \<longleftrightarrow> release_network_leases (nics v) (net_pool w) = Done s \<and>
     release_disks (disk_base_path v w) 0 (disks v) (img_repo w) = Done r"

lemmas move_defs = move_def ask_lcm_def enter_def ask_running_def finish_def moved_def moved_vm_def

lemmas dm_stmts = rc_branch_def is_running_def exec_simps write_row_def lcm_trigger_def tm_trigger_def
  dm_trigger_def case_prod_unfold

definition exact :: "int \<Rightarrow> vm \<Rightarrow> nets \<Rightarrow> repo \<Rightarrow> one \<Rightarrow> (int \<times> one) res \<Rightarrow> dm_move \<Rightarrow> bool" where
  "exact vid v s r w res m \<longleftrightarrow> res = Done (mv_rc m, moved m vid v s r w)"

lemma exact_if:
  assumes "P \<Longrightarrow> exact vid v s r w a x" "\<not> P \<Longrightarrow> exact vid v s r w b y"
  shows "exact vid v s r w (if P then a else b) (if P then x else y)"
  using assms by simp

lemma rc_branch_if:
  "with_vm_rc vid (rc_branch P fs c gs d) w = (case vms w vid of None \<Rightarrow> Done (-1, w)
     | Some v \<Rightarrow> if P (v, w\<lparr>vm_locks := insert vid (vm_locks w)\<rparr>) then with_vm_rc vid (returning c fs) w
         else with_vm_rc vid (returning d gs) w)"
  by (simp add: with_vm_rc_def rc_branch_def split: option.split)

lemma vm_upd_order:
  "v\<lparr>lcm_state := l, state := d\<rparr> = v\<lparr>state := d, lcm_state := l\<rparr>"
  "v\<lparr>exit_time := t, lcm_state := l\<rparr> = v\<lparr>lcm_state := l, exit_time := t\<rparr>"
  "v\<lparr>exit_time := t, state := d\<rparr> = v\<lparr>state := d, exit_time := t\<rparr>"
  "v\<lparr>state := d, lcm_state := lcm_state v\<rparr> = v\<lparr>state := d\<rparr>"
  by (simp_all add: vm.equality)

text \<open>The four shapes of a request: refuse, ask the life-cycle manager before or after the unlock, enter a
  state.\<close>

lemma shapes_exact:
  assumes "vms w vid = Some v" "vm_oid v = vid" "vid \<notin> vm_locks w"
  shows "exact vid v s r w (with_vm_rc vid (returning c [unlock]) w) (move c)"
    "exact vid v s r w (with_vm_rc vid (returning 0 [lcm a vid, unlock]) w) (ask_lcm a)"
    "exact vid v s r w (with_vm_rc vid (returning 0 [unlock, lcm a vid]) w) (ask_lcm a)"
    "exact vid v s r w (with_vm_rc vid (returning 0 [set_dm d, update, unlock]) w) (enter d (lcm_state v))"
  using assms
  by (simp_all add: exact_def with_vm_rc_def dm_stmts)
     (safe; (rule one.equality)?; simp add: move_defs Let_def vm_upd_order)+

lemma requests_exact:
  assumes "vms w vid = Some v" "vm_oid v = vid" "vid \<notin> vm_locks w"
  shows "exact vid v s r w (dm_shutdown vid w) (ask_running LA_SHUTDOWN (state v) (lcm_state v))"
    "exact vid v s r w (dm_stop vid w) (ask_running LA_STOP (state v) (lcm_state v))"
    "exact vid v s r w (dm_cancel vid w) (ask_running LA_CANCEL (state v) (lcm_state v))"
    "exact vid v s r w (dm_off vid w) (ask_running LA_OFF (state v) (lcm_state v))"
    "exact vid v s r w (dm_suspend vid w) (ask_running LA_SUSPEND (state v) (lcm_state v))"
    "exact vid v s r w (dm_reboot vid w) (ask_running LA_REBOOT (state v) (lcm_state v))"
    "exact vid v s r w (dm_on vid w) (if state v = ACTIVE \<and> lcm_state v = OFF then ask_lcm LA_ON else move (-2))"
    "exact vid v s r w (dm_restart vid w) (if state v = ACTIVE \<and> (lcm_state v = UNKNOWN \<or> lcm_state v = BOOT)
       then ask_lcm LA_RESTART else move (-2))"
    "exact vid v s r w (dm_hold vid w) (if state v = PENDING then enter HOLD (lcm_state v) else move (-2))"
    "exact vid v s r w (dm_release vid w) (if state v = HOLD then enter PENDING (lcm_state v) else move (-2))"
  using shapes_exact [OF assms] assms(1)
  by (simp_all add: dm_shutdown_def dm_stop_def dm_cancel_def dm_off_def dm_suspend_def dm_reboot_def
      dm_on_def dm_restart_def dm_hold_def dm_release_def rc_branch_if is_running_def ask_running_def) auto

lemma dm_resume_exact:
  assumes "vms w vid = Some v" "vm_oid v = vid" "vid \<notin> vm_locks w"
  shows "exact vid v s r w (dm_resume vid w) (if state v = STOPPED then enter PENDING (lcm_state v)
     else if state v = SUSPENDED then (enter ACTIVE (lcm_state v))\<lparr>mv_lcm := [LA_RESTORE]\<rparr> else move (-2))"
  using assms by (cases "state v"; simp add: exact_def dm_resume_def with_vm_rc_def dm_stmts)
    (safe; (rule one.equality)?; simp add: move_defs Let_def vm_upd_order)+

lemma dm_resubmit_exact:
  assumes "vms w vid = Some v" "vm_oid v = vid" "vid \<notin> vm_locks w"
  shows "exact vid v s r w (dm_resubmit vid w) (resubmit_spec (state v))"
  using assms by (cases "state v"; simp add: exact_def dm_resubmit_def resubmit_case_def with_vm_rc_def dm_stmts Let_def)
    (safe; (rule one.equality)?; simp add: move_defs Let_def vm_upd_order)+

lemma dm_finalize_exact:
  assumes "vms w vid = Some v" "vm_oid v = vid" "vid \<notin> vm_locks w"
    "mv_ends (finalize_spec (state v)) \<Longrightarrow> gives_back v w s r"
  shows "exact vid v s r w (dm_finalize vid w) (finalize_spec (state v))"
  using assms by (cases "state v"; simp add: exact_def dm_finalize_def finalize_case_def finalize_done_def with_vm_rc_def
      dm_stmts vm_release_network_leases_def release_disk_images_def gives_back_def)
    (safe; (rule one.equality)?; simp add: move_defs Let_def vm_upd_order)+

lemma vm_action_exact:
  assumes "vms w vid = Some v" "vm_oid v = vid" "vid \<notin> vm_locks w"
    "mv_ends (dm_spec junk action (state v) (lcm_state v)) \<Longrightarrow> gives_back v w s r"
  shows "exact vid v s r w (vm_action junk action vid w) (dm_spec junk action (state v) (lcm_state v))"
proof -
  have fin: "action = ''finalize'' \<Longrightarrow> exact vid v s r w (dm_finalize vid w) (finalize_spec (state v))"
    using assms(4) by (intro dm_finalize_exact [OF assms(1-3)]) (simp add: dm_spec_def)
  have none: "exact vid v s r w (Done (junk, w)) (move junk)"
    using assms(1) by (cases w) (simp add: exact_def move_defs fun_upd_idem)
  show ?thesis
    unfolding vm_action_def dm_spec_def
    by (intro exact_if requests_exact [OF assms(1-3)] dm_resume_exact [OF assms(1-3)]
        dm_resubmit_exact [OF assms(1-3)] fin none)
qed

subsection \<open>Messages\<close>

fun dm_message_spec :: "dm_action \<Rightarrow> VmState \<Rightarrow> LcmState \<Rightarrow> dm_move" where
  "dm_message_spec DA_SUSPEND_SUCCESS st l =
     (if st = ACTIVE \<and> l = SAVE_SUSPEND then enter SUSPENDED LCM_INIT else move 0)"
| "dm_message_spec DA_STOP_SUCCESS st l =
     (if st = ACTIVE \<and> l = EPILOG_STOP then enter STOPPED LCM_INIT else move 0)"
| "dm_message_spec DA_DONE st l = (if st = ACTIVE \<and> l \<in> {EPILOG, CANCEL, CLEANUP} then finish else move 0)"
| "dm_message_spec DA_FAILED st l =
     (if l = FAILURE then (enter FAILED LCM_INIT)\<lparr>mv_exit := True\<rparr> else move 0)"
| "dm_message_spec DA_RESUBMIT st l = (if l = CLEANUP then enter PENDING LCM_INIT else move 0)"
| "dm_message_spec DA_FINALIZE st l = move 0"

text \<open>The messages that leave the VM locked.\<close>

fun dm_leaks :: "dm_action \<Rightarrow> LcmState \<Rightarrow> bool" where
  "dm_leaks DA_FAILED l = (l \<noteq> FAILURE)"
| "dm_leaks DA_RESUBMIT l = (l \<noteq> CLEANUP)"
| "dm_leaks _ l = False"

definition dm_locks :: "dm_action \<Rightarrow> int \<Rightarrow> LcmState \<Rightarrow> int set \<Rightarrow> int set" where
  "dm_locks a vid l ls = (if dm_leaks a l then insert vid ls else ls)"

lemma dm_do_action_exact:
  assumes "vms w vid = Some v" "vm_oid v = vid" "vid \<notin> vm_locks w"
    "mv_ends (dm_message_spec a (state v) (lcm_state v)) \<Longrightarrow> gives_back v w s r"
  shows "dm_do_action (dm_action_name a) vid w =
    Done ((moved (dm_message_spec a (state v) (lcm_state v)) vid v s r w)
      \<lparr>vm_locks := dm_locks a vid (lcm_state v) (vm_locks w)\<rparr>)"
proof (cases a)
  case DA_SUSPEND_SUCCESS
  then show ?thesis using assms(1-3)
    by (cases "state v = ACTIVE \<and> lcm_state v = SAVE_SUSPEND";
        simp add: dm_do_action_def suspend_success_action_def with_vm_def dm_stmts)
       (safe; (rule one.equality)?; simp add: move_defs Let_def vm_upd_order dm_locks_def)+
next
  case DA_STOP_SUCCESS
  then show ?thesis using assms(1-3)
    by (cases "state v = ACTIVE \<and> lcm_state v = EPILOG_STOP";
        simp add: dm_do_action_def stop_success_action_def with_vm_def dm_stmts)
       (safe; (rule one.equality)?; simp add: move_defs Let_def vm_upd_order dm_locks_def)+
next
  case DA_DONE
  then show ?thesis using assms
    by (cases "state v = ACTIVE \<and> lcm_state v \<in> {EPILOG, CANCEL, CLEANUP}";
        simp add: dm_do_action_def done_action_def with_vm_def dm_stmts finish_def enter_def
          vm_release_network_leases_def release_disk_images_def gives_back_def)
       (safe; (rule one.equality)?; simp add: move_defs Let_def vm_upd_order dm_locks_def)+
next
  case DA_FAILED
  then show ?thesis using assms(1-3)
    by (cases "lcm_state v = FAILURE"; simp add: dm_do_action_def failed_action_def with_vm_def dm_stmts)
       (safe; (rule one.equality)?; simp add: move_defs Let_def vm_upd_order dm_locks_def)+
next
  case DA_RESUBMIT
  then show ?thesis using assms(1-3)
    by (cases "lcm_state v = CLEANUP"; simp add: dm_do_action_def resubmit_action_def with_vm_def dm_stmts)
       (safe; (rule one.equality)?; simp add: move_defs Let_def vm_upd_order dm_locks_def)+
next
  case DA_FINALIZE
  then show ?thesis using assms(1-3)
    by (simp add: dm_do_action_def) (rule one.equality; simp add: move_defs Let_def dm_locks_def fun_upd_idem)
qed

subsection \<open>Properties\<close>

text \<open>C10. A request on a VM is exactly its row of the table: for every action name and every pair of
  states, an authorised request on a VM that is not locked returns, answers what the table says, and leaves the
  daemon in the state it was in but for the VM's states, its row, the messages sent and, when the VM ends, the
  leases and images it gives back; in particular no mutex is left locked.\<close>

theorem request_table:
  assumes "vms w vid = Some v" "vm_oid v = vid" "vid \<notin> vm_locks w"
    "mv_ends (dm_spec junk action (state v) (lcm_state v)) \<Longrightarrow> gives_back v w s r"
  shows "VirtualMachineAction uid True junk action vid w =
    Done (action_response (mv_rc (dm_spec junk action (state v) (lcm_state v))) vid,
      moved (dm_spec junk action (state v) (lcm_state v)) vid v s r w)"
proof -
  have "vm_authorization uid True vid w = Done None"
    using assms(1,3) by (simp add: vm_authorization_def)
  then show ?thesis
    using vm_action_exact [OF assms]
    by (simp add: VirtualMachineAction_def authorized_def exact_def)
qed

theorem request_table_witness:
  "VirtualMachineAction 3 True 0 ''suspend'' 7 (one_at RUNNING [record_a]) =
     Done (Success 7, (one_at RUNNING [record_a])\<lparr>lcm_q := [(''SUSPEND'', 7)]\<rparr>)"
  using request_table [of "one_at RUNNING [record_a]" 7 "vm_at RUNNING [record_a]" 0 "''suspend''" _ _ 3]
  by (simp add: one_at_def vm_at_def dm_spec_def move_defs action_response_def Let_def)

text \<open>C12. The messages of the life-cycle manager move a VM as their table says; two of them, FAILED and
  RESUBMIT, leave it locked when it is not in the state they expect.\<close>

theorem message_table:
  assumes "vms w vid = Some v" "vm_oid v = vid" "vid \<notin> vm_locks w"
    "mv_ends (dm_message_spec a (state v) (lcm_state v)) \<Longrightarrow> gives_back v w s r"
  shows "dm_do_action (dm_action_name a) vid w =
    Done ((moved (dm_message_spec a (state v) (lcm_state v)) vid v s r w)
      \<lparr>vm_locks := dm_locks a vid (lcm_state v) (vm_locks w)\<rparr>)"
  by (rule dm_do_action_exact [OF assms]) blast

theorem message_table_witness:
  "\<exists>w' v'. dm_do_action ''STOP_SUCCESS'' 7 (one_at EPILOG_STOP [record_a]) = Done w' \<and> vms w' 7 = Some v' \<and>
     state v' = STOPPED \<and> lcm_state v' = LCM_INIT \<and> vm_locks w' = {}"
  using message_table [of "one_at EPILOG_STOP [record_a]" 7 "vm_at EPILOG_STOP [record_a]" DA_STOP_SUCCESS]
  by (simp add: one_at_def vm_at_def move_defs dm_locks_def Let_def)

lemma lcm_blocked:
  assumes "vms w vid = Some v" "vid \<in> vm_locks w" "a \<noteq> LA_FINALIZE"
  shows "lcm_do_action (lcm_action_name a) vid w = Blocked"
proof -
  obtain g where "lcm_handler a vid w = with_vm vid g w"
    using lcm_handler_ok [OF assms(3), of vid] assms(1) unfolding handler_ok_def by blast
  then show ?thesis using assms(1,2) by (simp add: lcm_dispatch with_vm_def)
qed

lemma dm_blocked:
  assumes "vms w vid = Some v" "vid \<in> vm_locks w" "a \<noteq> DA_FINALIZE"
  shows "dm_do_action (dm_action_name a) vid w = Blocked"
  using assms by (cases a) (simp_all add: dm_do_action_def suspend_success_action_def stop_success_action_def
    done_action_def failed_action_def resubmit_action_def with_vm_def)

lemma request_blocked:
  assumes "vms w vid = Some v" "vid \<in> vm_locks w" "uid \<noteq> 0"
  shows "VirtualMachineAction uid allowed junk action vid w = Blocked"
  using assms by (simp add: VirtualMachineAction_def authorized_def vm_authorization_def)

text \<open>After such a message the VM is lost to the daemon: every life-cycle action, every message and
  every request on it waits for its mutex for ever.\<close>

theorem leaked_lock_blocks:
  assumes "vms w vid = Some v" "vm_oid v = vid" "vid \<notin> vm_locks w" "dm_leaks a (lcm_state v)"
  shows "\<exists>w'. dm_do_action (dm_action_name a) vid w = Done w' \<and>
    (\<forall>b. b \<noteq> LA_FINALIZE \<longrightarrow> lcm_do_action (lcm_action_name b) vid w' = Blocked) \<and>
    (\<forall>b. b \<noteq> DA_FINALIZE \<longrightarrow> dm_do_action (dm_action_name b) vid w' = Blocked) \<and>
    (\<forall>uid junk action. uid \<noteq> 0 \<longrightarrow> VirtualMachineAction uid True junk action vid w' = Blocked)"
proof -
  let ?m = "dm_message_spec a (state v) (lcm_state v)"
  have same: "?m = move 0" using assms(4) by (cases a) auto
  then have "\<not> mv_ends ?m" by (simp add: move_def)
  then have run: "dm_do_action (dm_action_name a) vid w = Done ((moved ?m vid v (net_pool w) (img_repo w) w)
      \<lparr>vm_locks := insert vid (vm_locks w)\<rparr>)" (is "_ = Done ?w")
    using dm_do_action_exact [OF assms(1-3), of a "net_pool w" "img_repo w"] assms(4) by (simp add: dm_locks_def)
  have "vms ?w vid = Some (moved_vm ?m (now w) v)" "vid \<in> vm_locks ?w" by (simp_all add: moved_def Let_def)
  note locked = lcm_blocked [OF this] dm_blocked [OF this] request_blocked [OF this]
  show ?thesis using run locked by blast
qed

theorem leaked_lock_blocks_witness:
  "\<exists>w'. dm_do_action ''FAILED'' 7 (one_at RUNNING [record_a]) = Done w' \<and>
     lcm_do_action ''SHUTDOWN'' 7 w' = Blocked"
proof -
  have "\<exists>w'. dm_do_action (dm_action_name DA_FAILED) 7 (one_at RUNNING [record_a]) = Done w' \<and>
     lcm_do_action (lcm_action_name LA_SHUTDOWN) 7 w' = Blocked"
    using leaked_lock_blocks [of "one_at RUNNING [record_a]" 7 "vm_at RUNNING [record_a]" DA_FAILED]
    by (auto simp: one_at_def vm_at_def)
  then show ?thesis by simp
qed

end
