(* ===== verification/Ledger.thy ===== *)
theory Ledger
  imports LcmRefine Frame
begin

text \<open>
  The capacity ledger: what the hosts must show as allocated, given the VMs and the messages on their
  way, and that a life-cycle action keeps it.

  \<open>claims\<close> lists the hosts on which a VM is charged.  A VM between two managers is told by the message
  that waits for it: after \<open>save_success\<close> of a suspension the capacity is released although the VM is still
  SAVE_SUSPEND, since \<open>SUSPEND_SUCCESS\<close> is queued; a VM to be migrated has the new host on top of its
  history before the life-cycle manager has charged it.
\<close>

subsection \<open>Capacity of a host\<close>

definition shift :: "int \<Rightarrow> int \<times> int \<times> int \<Rightarrow> host_share \<Rightarrow> host_share" where
  "shift n = (\<lambda>(cpu, mem, disk) sh. sh\<lparr>cpu_usage := cpu_usage sh + n * cpu, mem_usage := mem_usage sh + n * mem,
     disk_usage := disk_usage sh + n * disk, running_vms := running_vms sh + n\<rparr>)"

definition shift_host :: "int \<Rightarrow> int \<times> int \<times> int \<Rightarrow> host \<Rightarrow> host" where
  "shift_host n req x = x\<lparr>host_share := shift n req (host_share x)\<rparr>"

lemma shift_0 [simp]: "shift 0 req sh = sh"
  by (cases req) (simp add: shift_def)

lemma shift_shift: "shift m req (shift n req sh) = shift (n + m) req sh"
  by (cases req) (simp add: shift_def algebra_simps)

lemma shift_host_0 [simp]: "shift_host 0 req x = x"
  by (simp add: shift_host_def)

lemma shift_host_shift: "shift_host m req (shift_host n req x) = shift_host (n + m) req x"
  by (simp add: shift_host_def shift_shift)

lemma map_shift_0 [simp]: "map_option (shift_host 0 req) x = x"
  by (cases x) simp_all

lemma hpool_add_shift:
  "hpool_add_capacity oid cpu mem disk hp h = map_option (shift_host (if h = oid then 1 else 0) (cpu, mem, disk)) (hp h)"
  by (auto simp: hpool_add_capacity_def shift_host_def shift_def share_add_def split: option.split)

lemma hpool_del_shift:
  "hpool_del_capacity oid cpu mem disk hp h = map_option (shift_host (if h = oid then -1 else 0) (cpu, mem, disk)) (hp h)"
  by (auto simp: hpool_del_capacity_def shift_host_def shift_def share_del_def split: option.split)

text \<open>The net change of a list of capacity operations at a host, for a VM with hosts \<open>hs\<close>, newest first.\<close>

fun cap_delta :: "int list \<Rightarrow> int \<Rightarrow> cap \<Rightarrow> int" where
  "cap_delta (c # hs) h Charge = (if c = h then 1 else 0)"
| "cap_delta (c # hs) h Release = (if c = h then -1 else 0)"
| "cap_delta (c # p # hs) h Release_previous = (if p = h then -1 else 0)"
| "cap_delta _ h _ = 0"

lemma apply_cap_delta:
  "apply_cap v c hp h = map_option (shift_host (cap_delta (hids v) h c) (get_requirements v)) (hp h)"
proof -
  obtain cpu mem disk where r: "get_requirements v = (cpu, mem, disk)" by (metis prod_cases3)
  consider "history_records v = []" | x where "history_records v = [x]"
    | x y xs where "history_records v = x # y # xs" by (metis neq_Nil_conv)
  then show ?thesis
    by cases (use r in \<open>cases c; simp add: hids_def hist_def previous_hist_def hpool_add_shift hpool_del_shift\<close>)+
qed

lemma apply_caps_delta:
  "apply_caps v cs hp h =
     map_option (shift_host (\<Sum>c \<leftarrow> cs. cap_delta (hids v) h c) (get_requirements v)) (hp h)"
proof (induction cs arbitrary: hp)
  case Nil
  show ?case by (cases "hp h") (simp_all add: apply_caps_def)
next
  case (Cons c cs)
  have "apply_caps v (c # cs) hp h = apply_caps v cs (apply_cap v c hp) h" by (simp add: apply_caps_def)
  also have "\<dots> = map_option (shift_host (\<Sum>c \<leftarrow> cs. cap_delta (hids v) h c) (get_requirements v)) (apply_cap v c hp h)"
    by (rule Cons.IH)
  finally show ?case by (simp add: apply_cap_delta option.map_comp comp_def shift_host_shift add.commute)
qed

subsection \<open>The hosts a VM is charged on\<close>

text \<open>\<open>pl\<close> and \<open>pd\<close> are the life-cycle actions and the dispatch messages that wait for the VM.\<close>

definition is_migration :: "lcm_action list \<Rightarrow> bool" where
  "is_migration pl \<longleftrightarrow> pl = [LA_MIGRATE] \<or> pl = [LA_LIVE_MIGRATE]"

definition claims :: "VmState \<Rightarrow> LcmState \<Rightarrow> int list \<Rightarrow> lcm_action list \<Rightarrow> dm_action list \<Rightarrow> int list" where
  "claims st l hs pl pd =
     (if st \<noteq> ACTIVE \<or> l \<in> {LCM_INIT, FAILURE, CLEANUP} \<or> pd \<noteq> [] then []
      else if is_migration pl then take 1 (drop 1 hs)
      else if l = MIGRATE \<or> l = SAVE_MIGRATE then take 2 hs
      else take 1 hs)"

text \<open>Where a VM can be: with nothing waiting for it, with one life-cycle action, or with one message to the
  dispatch manager.\<close>

definition alive :: "LcmState \<Rightarrow> bool" where
  "alive l \<longleftrightarrow> l \<notin> {LCM_INIT, FAILURE, CLEANUP}"

definition settled :: "VmState \<Rightarrow> LcmState \<Rightarrow> bool" where
  "settled st l \<longleftrightarrow> (if st = ACTIVE then alive l else l = LCM_INIT)"

text \<open>The actions that can wait for a VM in a state: what the dispatch manager asks for, and the answers of
  the drivers to what they were asked.\<close>

fun awaits :: "lcm_action \<Rightarrow> LcmState \<Rightarrow> bool" where
  "awaits LA_DEPLOY l = (l = LCM_INIT)"
| "awaits LA_RESTORE l = (l = LCM_INIT)"
| "awaits LA_MIGRATE l = (l = RUNNING)"
| "awaits LA_LIVE_MIGRATE l = (l = RUNNING)"
| "awaits LA_RECOVER l = (l = RUNNING)"
| "awaits LA_BACKUP l = (l = RUNNING)"
| "awaits LA_BACKUPDISK l = (l = RUNNING)"
| "awaits LA_SAVE_SUCCESS l = alive l"
| "awaits LA_SAVE_FAILURE l = alive l"
| "awaits LA_DEPLOY_SUCCESS l = (alive l \<and> l \<noteq> SAVE_MIGRATE)"
| "awaits LA_DEPLOY_FAILURE l = alive l"
| "awaits LA_DELETE l = alive l"
| "awaits LA_CLEAN l = alive l"
| "awaits LA_FINALIZE l = False"
| "awaits a l = (alive l \<and> l \<noteq> MIGRATE \<and> l \<noteq> SAVE_MIGRATE)"

fun ends :: "dm_action \<Rightarrow> LcmState \<Rightarrow> bool" where
  "ends DA_SUSPEND_SUCCESS l = (l = SAVE_SUSPEND)"
| "ends DA_STOP_SUCCESS l = (l = EPILOG_STOP)"
| "ends DA_DONE l = (l = EPILOG \<or> l = CLEANUP)"
| "ends DA_FAILED l = (l = FAILURE)"
| "ends DA_RESUBMIT l = (l = CLEANUP)"
| "ends DA_FINALIZE l = False"

definition phase :: "VmState \<Rightarrow> LcmState \<Rightarrow> lcm_action list \<Rightarrow> dm_action list \<Rightarrow> bool" where
  "phase st l pl pd \<longleftrightarrow> (case (pl, pd) of
     ([], []) \<Rightarrow> settled st l
   | ([a], []) \<Rightarrow> st = ACTIVE \<and> awaits a l
   | ([], [a]) \<Rightarrow> st = ACTIVE \<and> ends a l
   | _ \<Rightarrow> False)"

text \<open>The records its handlers need.\<close>

definition records_ok :: "VmState \<Rightarrow> LcmState \<Rightarrow> int list \<Rightarrow> lcm_action list \<Rightarrow> bool \<Rightarrow> bool \<Rightarrow> bool" where
  "records_ok st l hs pl bk dk \<longleftrightarrow> (st = ACTIVE \<longrightarrow> hs \<noteq> [] \<and>
     (l = MIGRATE \<or> l = SAVE_MIGRATE \<or> l = PROLOG_MIGRATE \<or> is_migration pl \<longrightarrow> tl hs \<noteq> []) \<and>
     (l = OFF_BACKUP \<or> l = PROLOG_BACKUP \<or> pl = [LA_BACKUP] \<longrightarrow> bk) \<and>
     (l = OFF_BACKUPDISK \<or> l = PROLOG_BACKUPDISK \<or> pl = [LA_BACKUPDISK] \<longrightarrow> dk))"

definition charged :: "VmState \<Rightarrow> LcmState \<Rightarrow> int list \<Rightarrow> lcm_action list \<Rightarrow> dm_action list \<Rightarrow> int \<Rightarrow> int" where
  "charged st l hs pl pd h = int (count_list (claims st l hs pl pd) h)"

text \<open>The heart of the ledger: a life-cycle action that may wait for a VM changes the capacity of the hosts by
  what it changes of the VM's claims, and leaves the VM where it can be.\<close>

definition step_ok :: "ctx \<Rightarrow> lcm_action \<Rightarrow> LcmState \<Rightarrow> int list \<Rightarrow> bool \<Rightarrow> bool \<Rightarrow> bool" where
  "step_ok c a l hs bk dk \<longleftrightarrow> (let e = lcm_spec c a l; hs' = apply_hist (e_hist e) hs; pd = dm_reqs (e_reqs e) in
     phase ACTIVE (e_state e) [] pd \<and> records_ok ACTIVE (e_state e) hs' [] bk dk \<and>
     (\<forall>h. charged ACTIVE (e_state e) hs' [] pd h - charged ACTIVE l hs [a] [] h =
        (\<Sum>c \<leftarrow> e_caps e. cap_delta hs h c)))"

lemmas ledger_simps = step_ok_def phase_def settled_def alive_def records_ok_def charged_def is_migration_def
  claims_def dm_reqs_def running_def eff_def fails_def back_to_previous_def reboot_or_xen_def clean_spec_def Let_def

lemma clean_requests_no_dm [simp]:
  "concat (map (\<lambda>r. case r of To_dm a \<Rightarrow> [a] | _ \<Rightarrow> []) (clean_requests l)) = []"
  by (cases l) simp_all

text \<open>By groups of actions.\<close>

definition step_goal :: "ctx \<Rightarrow> lcm_action \<Rightarrow> LcmState \<Rightarrow> int list \<Rightarrow> bool \<Rightarrow> bool \<Rightarrow> bool" where
  "step_goal c a l hs bk dk \<longleftrightarrow> (awaits a l \<longrightarrow> records_ok ACTIVE l hs [a] bk dk \<longrightarrow> step_ok c a l hs bk dk)"

lemma step_save:
  assumes "c_active c"
  shows "step_goal c LA_SAVE_SUCCESS l (h0 # t) bk dk"
    "step_goal c LA_SAVE_FAILURE l (h0 # t) bk dk"
    "step_goal c LA_DEPLOY_SUCCESS l (h0 # t) bk dk"
    "step_goal c LA_DEPLOY_FAILURE l (h0 # t) bk dk"
  using assms by (cases t; auto simp: step_goal_def ledger_simps redeploy_state_def)+

lemma step_prolog:
  assumes "c_active c"
  shows "step_goal c LA_PROLOG_SUCCESS l (h0 # t) bk dk"
    "step_goal c LA_PROLOG_FAILURE l (h0 # t) bk dk"
    "step_goal c LA_PROLOG_RECOVER_DECOMPRESS l (h0 # t) bk dk"
    "step_goal c LA_EPILOG_SUCCESS l (h0 # t) bk dk"
    "step_goal c LA_EPILOG_FAILURE l (h0 # t) bk dk"
  using assms by (cases t; auto simp: step_goal_def ledger_simps redeploy_state_def)+

lemma step_shutdown:
  assumes "c_active c"
  shows "step_goal c LA_SHUTDOWN_SUCCESS l (h0 # t) bk dk"
    "step_goal c LA_SHUTDOWN_FAILURE l (h0 # t) bk dk"
    "step_goal c LA_CANCEL_SUCCESS l (h0 # t) bk dk"
    "step_goal c LA_CANCEL_FAILURE l (h0 # t) bk dk"
    "step_goal c LA_OFF_SUCCESS l (h0 # t) bk dk"
  using assms by (cases t; auto simp: step_goal_def ledger_simps redeploy_state_def)+

lemma step_monitor:
  assumes "c_active c"
  shows "step_goal c LA_MONITOR_FAILURE l (h0 # t) bk dk"
    "step_goal c LA_MONITOR_SUSPEND l (h0 # t) bk dk"
    "step_goal c LA_MONITOR_DONE l (h0 # t) bk dk"
    "step_goal c LA_XMLIST_SUCCESS l (h0 # t) bk dk"
    "step_goal c LA_XMLIST_FAILURE l (h0 # t) bk dk"
  using assms by (cases t; auto simp: step_goal_def ledger_simps redeploy_state_def)+

lemma step_start:
  assumes "c_active c"
  shows "step_goal c LA_DEPLOY l (h0 # t) bk dk"
    "step_goal c LA_RESTORE l (h0 # t) bk dk"
    "step_goal c LA_MIGRATE l (h0 # t) bk dk"
    "step_goal c LA_LIVE_MIGRATE l (h0 # t) bk dk"
    "step_goal c LA_BACKUP l (h0 # t) bk dk"
    "step_goal c LA_RECOVER l (h0 # t) bk dk"
    "step_goal c LA_BACKUPDISK l (h0 # t) bk dk"
  using assms by (cases t; auto simp: step_goal_def ledger_simps redeploy_state_def)+

lemma step_request:
  assumes "c_active c"
  shows "step_goal c LA_SUSPEND l (h0 # t) bk dk"
    "step_goal c LA_STOP l (h0 # t) bk dk"
    "step_goal c LA_CANCEL l (h0 # t) bk dk"
    "step_goal c LA_OFF l (h0 # t) bk dk"
    "step_goal c LA_ON l (h0 # t) bk dk"
    "step_goal c LA_SHUTDOWN l (h0 # t) bk dk"
    "step_goal c LA_RESTART l (h0 # t) bk dk"
    "step_goal c LA_REBOOT l (h0 # t) bk dk"
  using assms by (cases t; auto simp: step_goal_def ledger_simps redeploy_state_def)+

lemma step_cleanup:
  assumes "c_active c"
  shows "step_goal c LA_DELETE l (h0 # t) bk dk"
    "step_goal c LA_CLEAN l (h0 # t) bk dk"
    "step_goal c LA_FINALIZE l (h0 # t) bk dk"
  using assms by (cases t; auto simp: step_goal_def ledger_simps redeploy_state_def)+

lemma lcm_step_ok:
  assumes "awaits a l" "records_ok ACTIVE l hs [a] bk dk" "c_active c"
  shows "step_ok c a l hs bk dk"
proof -
  obtain h0 t where hs: "hs = h0 # t" using assms(2) by (auto simp: records_ok_def neq_Nil_conv)
  note all = step_save step_prolog step_shutdown step_monitor step_start step_request step_cleanup
  have "step_goal c a l (h0 # t) bk dk" by (cases a) (simp_all only: all [OF assms(3)])
  then show ?thesis using assms(1,2) by (simp add: step_goal_def hs)
qed

end
