(* ===== verification/VmmManager.thy ===== *)
theory VmmManager
  imports TransferManager
begin

text \<open>
  The virtual machine manager: \<open>VirtualMachineManager\<close> (src/vmm/VirtualMachineManager.cc), which takes the
  requests of the life-cycle manager, formats the message for the hypervisor and writes it to the driver of the host
  (\<open>VirtualMachineManagerDriver\<close>, src/vmm/VirtualMachineManagerDriver.cc), or gives the request back as a
  failure; and its timer, which polls the running VMs.

  The environment adds to that of the transfer manager what the code takes from elsewhere: whether the driver
  writes the deployment file of a VM, the XML of a VM and the base64 encoding of OpenSSL.
\<close>

record vmm_env = mad_env +
  describes :: "string \<Rightarrow> vm \<Rightarrow> string \<Rightarrow> bool"
  vm_xml :: "vm \<Rightarrow> string"
  base64 :: "string \<Rightarrow> string"

subsection \<open>The message\<close>

definition element :: "string \<Rightarrow> string \<Rightarrow> string" where
  "element name s = ''<'' @ name @ ''>'' @ s @ ''</'' @ name @ ''>''"

definition element_or_empty :: "string \<Rightarrow> string \<Rightarrow> string" where
  "element_or_empty name s = (if s = [] then ''<'' @ name @ ''/>'' else element name s)"

record vmm_msg =
  m_host :: string
  m_net :: string
  m_migr_host :: string
  m_migr_net :: string
  m_domain :: string
  m_ldfile :: string
  m_rdfile :: string
  m_cfile :: string
  m_tmpl :: string

definition message_text :: "vmm_msg \<Rightarrow> string" where
  "message_text m = ''<VMM_DRIVER_ACTION_DATA>'' @
     element ''HOST'' (m_host m) @ element ''NET_DRV'' (m_net m) @
     (if m_migr_host m \<noteq> [] then element ''MIGR_HOST'' (m_migr_host m) @ element ''MIGR_NET_DRV'' (m_migr_net m)
      else ''<MIGR_HOST/><MIGR_NET_DRV/>'') @
     element_or_empty ''DEPLOY_ID'' (m_domain m) @
     (if m_ldfile m \<noteq> []
      then element ''LOCAL_DEPLOYMENT_FILE'' (m_ldfile m) @ element ''REMOTE_DEPLOYMENT_FILE'' (m_rdfile m)
      else ''<LOCAL_DEPLOYMENT_FILE/><REMOTE_DEPLOYMENT_FILE/>'') @
     element_or_empty ''CHECKPOINT_FILE'' (m_cfile m) @ m_tmpl m @ ''</VMM_DRIVER_ACTION_DATA>''"

definition format_message :: "vmm_env \<Rightarrow> vmm_msg \<Rightarrow> string" where
  "format_message env m = base64 env (message_text m)"

text \<open>The arguments of the calls: a VM on its host, and what some calls add.\<close>

definition msg_on :: "vmm_env \<Rightarrow> history \<Rightarrow> string \<Rightarrow> vm \<Rightarrow> vmm_msg" where
  "msg_on env h domain v = \<lparr>m_host = hostname h, m_net = vnm_mad_name h, m_migr_host = [], m_migr_net = [],
     m_domain = domain, m_ldfile = [], m_rdfile = [], m_cfile = [], m_tmpl = vm_xml env v\<rparr>"

subsection \<open>The frame of a handler\<close>

text \<open>\<open>message v h w\<close> is \<open>None\<close> when the handler gives up after it has found the driver.\<close>

definition vmm_write :: "string \<Rightarrow> int \<Rightarrow> string \<Rightarrow> string \<Rightarrow> io \<Rightarrow> io" where
  "vmm_write cmd vid mad s = write_mad mad (cmd @ '' '' @ int_string vid @ '' '' @ s @ endl)"

definition vmm_send :: "vmm_env \<Rightarrow> string \<Rightarrow> (vm \<Rightarrow> history \<Rightarrow> one \<Rightarrow> vmm_msg option) \<Rightarrow>
    (locked \<Rightarrow> locked res) list \<Rightarrow> int \<Rightarrow> locked_io \<Rightarrow> locked_io res" where
  "vmm_send env cmd message fail vid = (\<lambda>((v, w), u). case hist v of
     None \<Rightarrow> daemon (fail @ [unlock]) ((v, w), u)
   | Some h \<Rightarrow> if \<not> loaded env (vmm_mad_name h) then daemon (fail @ [unlock]) ((v, w), u)
     else (case message v h w of
         None \<Rightarrow> daemon (fail @ [unlock]) ((v, w), u)
       | Some m \<Rightarrow> daemon [unlock] ((v, w), vmm_write cmd vid (vmm_mad_name h) (format_message env m) u)))"

subsection \<open>The handlers\<close>

definition deploy_message :: "vmm_env \<Rightarrow> vm \<Rightarrow> history \<Rightarrow> one \<Rightarrow> vmm_msg option" where
  "deploy_message env v h w = (let f = get_deployment_file v h w in
     if \<not> describes env (vmm_mad_name h) v f then None
     else Some ((msg_on env h [] v)\<lparr>m_ldfile := f, m_rdfile := get_remote_deployment_file v h\<rparr>))"

definition vmm_deploy_action :: "vmm_env \<Rightarrow> int \<Rightarrow> one \<times> io \<Rightarrow> (one \<times> io) res" where
  "vmm_deploy_action env vid = with_vm_io vid
     (vmm_send env ''DEPLOY'' (deploy_message env) [lcm LA_DEPLOY_FAILURE vid] vid)"

definition vmm_on_action :: "vmm_env \<Rightarrow> int \<Rightarrow> one \<times> io \<Rightarrow> (one \<times> io) res" where
  "vmm_on_action env vid = with_vm_io vid
     (vmm_send env ''DEPLOY'' (deploy_message env) [lcm LA_DEPLOY_FAILURE vid] vid)"

definition save_message :: "vmm_env \<Rightarrow> vm \<Rightarrow> history \<Rightarrow> one \<Rightarrow> vmm_msg option" where
  "save_message env v h w = (let cf = get_checkpoint_file v h in
     if lcm_state v = SAVE_MIGRATE
     then map_option (\<lambda>p. (msg_on env p (deploy_id v) v)\<lparr>m_cfile := cf\<rparr>) (previous_hist v)
     else Some ((msg_on env h (deploy_id v) v)\<lparr>m_cfile := cf\<rparr>))"

definition vmm_save_action :: "vmm_env \<Rightarrow> int \<Rightarrow> one \<times> io \<Rightarrow> (one \<times> io) res" where
  "vmm_save_action env vid = with_vm_io vid
     (vmm_send env ''SAVE'' (save_message env) [lcm LA_SAVE_FAILURE vid] vid)"

definition vm_message :: "vmm_env \<Rightarrow> vm \<Rightarrow> history \<Rightarrow> one \<Rightarrow> vmm_msg option" where
  "vm_message env v h w = Some (msg_on env h (deploy_id v) v)"

definition vmm_backup_action :: "vmm_env \<Rightarrow> int \<Rightarrow> one \<times> io \<Rightarrow> (one \<times> io) res" where
  "vmm_backup_action env vid = with_vm_io vid (vmm_send env ''OFF'' (vm_message env)
     [lcm LA_CANCEL_FAILURE vid, updatebkstate bakbid BK_BACKUP_FAIL] vid)"

definition vmm_recover_action :: "vmm_env \<Rightarrow> int \<Rightarrow> one \<times> io \<Rightarrow> (one \<times> io) res" where
  "vmm_recover_action env vid = with_vm_io vid (vmm_send env ''OFF'' (vm_message env)
     [lcm LA_CANCEL_FAILURE vid, updatebkstate updatebkstateoid BK_RESUME_FAIL] vid)"

text \<open>The only failure that changes the VM itself and tells nobody.\<close>

definition vmm_backupdisk_action :: "vmm_env \<Rightarrow> int \<Rightarrow> one \<times> io \<Rightarrow> (one \<times> io) res" where
  "vmm_backupdisk_action env vid = with_vm_io vid (vmm_send env ''OFF'' (vm_message env)
     [set_lcm RUNNING, update, updatedkstate dkbid DK_BACKUPDISK_FAIL] vid)"

definition vmm_shutdown_action :: "vmm_env \<Rightarrow> int \<Rightarrow> one \<times> io \<Rightarrow> (one \<times> io) res" where
  "vmm_shutdown_action env vid = with_vm_io vid
     (vmm_send env ''SHUTDOWN'' (vm_message env) [lcm LA_SHUTDOWN_FAILURE vid] vid)"

definition vmm_reboot_action :: "vmm_env \<Rightarrow> int \<Rightarrow> one \<times> io \<Rightarrow> (one \<times> io) res" where
  "vmm_reboot_action env vid = with_vm_io vid (vmm_send env ''REBOOT'' (vm_message env) [] vid)"

definition vmm_cancel_action :: "vmm_env \<Rightarrow> int \<Rightarrow> one \<times> io \<Rightarrow> (one \<times> io) res" where
  "vmm_cancel_action env vid = with_vm_io vid (vmm_send env ''CANCEL'' (vm_message env)
     [branch (\<lambda>(v, w). lcm_state v = CANCEL) [lcm LA_CANCEL_FAILURE vid] []] vid)"

definition vmm_off_action :: "vmm_env \<Rightarrow> int \<Rightarrow> one \<times> io \<Rightarrow> (one \<times> io) res" where
  "vmm_off_action env vid = with_vm_io vid (vmm_send env ''OFF'' (vm_message env)
     [branch (\<lambda>(v, w). lcm_state v = OFF) [lcm LA_CANCEL_FAILURE vid] []] vid)"

definition vmm_cancel_previous_action :: "vmm_env \<Rightarrow> int \<Rightarrow> one \<times> io \<Rightarrow> (one \<times> io) res" where
  "vmm_cancel_previous_action env vid = with_vm_io vid (\<lambda>((v, w), u).
     case previous_hist v of None \<Rightarrow> daemon [unlock] ((v, w), u)
   | Some p \<Rightarrow> daemon [unlock] ((v, w), if loaded env (vmm_mad_name p)
       then vmm_write ''CANCEL'' vid (vmm_mad_name p) (format_message env (msg_on env p (deploy_id v) v)) u else u))"

definition migrate_message :: "vmm_env \<Rightarrow> vm \<Rightarrow> history \<Rightarrow> one \<Rightarrow> vmm_msg option" where
  "migrate_message env v h w = map_option (\<lambda>p. (msg_on env p (deploy_id v) v)
     \<lparr>m_migr_host := hostname h, m_migr_net := vnm_mad_name h\<rparr>) (previous_hist v)"

definition vmm_migrate_action :: "vmm_env \<Rightarrow> int \<Rightarrow> one \<times> io \<Rightarrow> (one \<times> io) res" where
  "vmm_migrate_action env vid = with_vm_io vid
     (vmm_send env ''MIGRATE'' (migrate_message env) [lcm LA_DEPLOY_FAILURE vid] vid)"

definition restore_message :: "vmm_env \<Rightarrow> vm \<Rightarrow> history \<Rightarrow> one \<Rightarrow> vmm_msg option" where
  "restore_message env v h w = Some ((msg_on env h (deploy_id v) v)\<lparr>m_cfile := get_checkpoint_file v h\<rparr>)"

definition vmm_restore_action :: "vmm_env \<Rightarrow> int \<Rightarrow> one \<times> io \<Rightarrow> (one \<times> io) res" where
  "vmm_restore_action env vid = with_vm_io vid
     (vmm_send env ''RESTORE'' (restore_message env) [lcm LA_DEPLOY_FAILURE vid] vid)"

definition vmm_poll_action :: "vmm_env \<Rightarrow> int \<Rightarrow> one \<times> io \<Rightarrow> (one \<times> io) res" where
  "vmm_poll_action env vid = with_vm_io vid (vmm_send env ''POLL'' (vm_message env) [] vid)"

definition vmm_driver_cancel_action :: "vmm_env \<Rightarrow> int \<Rightarrow> one \<times> io \<Rightarrow> (one \<times> io) res" where
  "vmm_driver_cancel_action env vid = with_vm_io vid (\<lambda>((v, w), u).
     case hist v of None \<Rightarrow> daemon [unlock] ((v, w), u)
   | Some h \<Rightarrow> daemon [unlock] ((v, w), if loaded env (vmm_mad_name h)
       then write_mad (vmm_mad_name h) (''DRIVER_CANCEL '' @ int_string vid @ endl) u else u))"

subsection \<open>The timer\<close>

text \<open>\<open>get_running\<close> reads the table: \<open>ids\<close> are the identifiers of its rows.\<close>

definition due_poll :: "int \<Rightarrow> vm \<Rightarrow> bool" where
  "due_poll t r \<longleftrightarrow> last_poll r \<le> t \<and> state r = ACTIVE \<and> (lcm_state r = RUNNING \<or> lcm_state r = UNKNOWN)"

definition get_running :: "int list \<Rightarrow> nat \<Rightarrow> int \<Rightarrow> one \<Rightarrow> int list" where
  "get_running ids vm_limit t w = take vm_limit (sort_key (\<lambda>i. last_poll (the (vm_rows w i)))
     (filter (\<lambda>i. case vm_rows w i of None \<Rightarrow> False | Some r \<Rightarrow> due_poll t r) ids))"

definition poll_vm :: "vmm_env \<Rightarrow> int \<Rightarrow> one \<times> io \<Rightarrow> (one \<times> io) res" where
  "poll_vm env vid = with_vm_io vid (\<lambda>((v, w), u). case hist v of
     None \<Rightarrow> daemon [unlock] ((v, w), u)
   | Some h \<Rightarrow> let v = v\<lparr>last_poll := now w\<rparr> in
     if \<not> loaded env (vmm_mad_name h) then daemon [unlock] ((v, w), u)
     else daemon [update, unlock]
       ((v, w), vmm_write ''POLL'' vid (vmm_mad_name h) (format_message env (msg_on env h (deploy_id v) v)) u))"

fun poll_vms :: "vmm_env \<Rightarrow> int list \<Rightarrow> one \<times> io \<Rightarrow> (one \<times> io) res" where
  "poll_vms env [] s = Done s"
| "poll_vms env (vid # vids) s = bind_res (poll_vm env vid s) (poll_vms env vids)"

definition timer_action :: "vmm_env \<Rightarrow> int list \<Rightarrow> nat \<Rightarrow> int \<Rightarrow> one \<times> io \<Rightarrow> (one \<times> io) res" where
  "timer_action env ids vm_limit poll_period = (\<lambda>(w, u).
     poll_vms env (get_running ids vm_limit (now w - poll_period) w) (w, u))"

subsection \<open>The action loop\<close>

fun vmm_action_name :: "vmm_action \<Rightarrow> string" where
  "vmm_action_name VA_DEPLOY = ''DEPLOY''"
| "vmm_action_name VA_SAVE = ''SAVE''"
| "vmm_action_name VA_BACKUP = ''BACKUP''"
| "vmm_action_name VA_RECOVER = ''RECOVER''"
| "vmm_action_name VA_BACKUPDISK = ''BACKUPDISK''"
| "vmm_action_name VA_RESTORE = ''RESTORE''"
| "vmm_action_name VA_REBOOT = ''REBOOT''"
| "vmm_action_name VA_SHUTDOWN = ''SHUTDOWN''"
| "vmm_action_name VA_CANCEL = ''CANCEL''"
| "vmm_action_name VA_OFF = ''OFF''"
| "vmm_action_name VA_ON = ''ON''"
| "vmm_action_name VA_CANCEL_PREVIOUS = ''CANCEL_PREVIOUS''"
| "vmm_action_name VA_MIGRATE = ''MIGRATE''"
| "vmm_action_name VA_POLL = ''POLL''"
| "vmm_action_name VA_DRIVER_CANCEL = ''DRIVER_CANCEL''"
| "vmm_action_name VA_FINALIZE = ''ACTION_FINALIZE''"
| "vmm_action_name VA_TIMER = []"

text \<open>The actions with a VM; the timer has none, and comes from the action manager.\<close>

definition vmm_do_action :: "vmm_env \<Rightarrow> string \<Rightarrow> int \<Rightarrow> one \<times> io \<Rightarrow> (one \<times> io) res" where
  "vmm_do_action env action vid =
     (if action = ''DEPLOY'' then vmm_deploy_action env vid
      else if action = ''SAVE'' then vmm_save_action env vid
      else if action = ''BACKUP'' then vmm_backup_action env vid
      else if action = ''RECOVER'' then vmm_recover_action env vid
      else if action = ''BACKUPDISK'' then vmm_backupdisk_action env vid
      else if action = ''RESTORE'' then vmm_restore_action env vid
      else if action = ''REBOOT'' then vmm_reboot_action env vid
      else if action = ''SHUTDOWN'' then vmm_shutdown_action env vid
      else if action = ''CANCEL'' then vmm_cancel_action env vid
      else if action = ''OFF'' then vmm_off_action env vid
      else if action = ''ON'' then vmm_on_action env vid
      else if action = ''CANCEL_PREVIOUS'' then vmm_cancel_previous_action env vid
      else if action = ''MIGRATE'' then vmm_migrate_action env vid
      else if action = ''POLL'' then vmm_poll_action env vid
      else if action = ''DRIVER_CANCEL'' then vmm_driver_cancel_action env vid
      else Done)"

lemma vmm_dispatch:
  "vmm_do_action env (vmm_action_name a) = (case a of
     VA_DEPLOY \<Rightarrow> vmm_deploy_action env | VA_SAVE \<Rightarrow> vmm_save_action env | VA_BACKUP \<Rightarrow> vmm_backup_action env
   | VA_RECOVER \<Rightarrow> vmm_recover_action env | VA_BACKUPDISK \<Rightarrow> vmm_backupdisk_action env
   | VA_RESTORE \<Rightarrow> vmm_restore_action env | VA_REBOOT \<Rightarrow> vmm_reboot_action env
   | VA_SHUTDOWN \<Rightarrow> vmm_shutdown_action env | VA_CANCEL \<Rightarrow> vmm_cancel_action env | VA_OFF \<Rightarrow> vmm_off_action env
   | VA_ON \<Rightarrow> vmm_on_action env | VA_CANCEL_PREVIOUS \<Rightarrow> vmm_cancel_previous_action env
   | VA_MIGRATE \<Rightarrow> vmm_migrate_action env | VA_POLL \<Rightarrow> vmm_poll_action env
   | VA_DRIVER_CANCEL \<Rightarrow> vmm_driver_cancel_action env | VA_FINALIZE \<Rightarrow> (\<lambda>_. Done) | VA_TIMER \<Rightarrow> (\<lambda>_. Done))"
  by (cases a) (simp_all add: vmm_do_action_def fun_eq_iff)

end
