(* ===== verification/VmmSpec.thy ===== *)
theory VmmSpec
  imports VmmManager TransferSpec
begin

text \<open>
  What the virtual machine manager promises: a request is written to the driver of the host or comes back
  as a failure, the message can be read back, and the timer polls the VMs that have waited longest.
\<close>

subsection \<open>The table of the requests\<close>

definition vmm_requests :: "vmm_action set" where
  "vmm_requests = - {VA_CANCEL_PREVIOUS, VA_DRIVER_CANCEL, VA_TIMER, VA_FINALIZE}"

fun vmm_command :: "vmm_action \<Rightarrow> string" where
  "vmm_command VA_BACKUP = ''OFF''"
| "vmm_command VA_RECOVER = ''OFF''"
| "vmm_command VA_BACKUPDISK = ''OFF''"
| "vmm_command VA_ON = ''DEPLOY''"
| "vmm_command a = vmm_action_name a"

fun vmm_message :: "vmm_env \<Rightarrow> vmm_action \<Rightarrow> vm \<Rightarrow> history \<Rightarrow> one \<Rightarrow> vmm_msg option" where
  "vmm_message env VA_DEPLOY = deploy_message env"
| "vmm_message env VA_ON = deploy_message env"
| "vmm_message env VA_SAVE = save_message env"
| "vmm_message env VA_MIGRATE = migrate_message env"
| "vmm_message env VA_RESTORE = restore_message env"
| "vmm_message env _ = vm_message env"

text \<open>The life-cycle action that answers a request the manager cannot pass on, for a VM in a state.\<close>

fun vmm_failure :: "vmm_action \<Rightarrow> LcmState \<Rightarrow> lcm_action list" where
  "vmm_failure VA_DEPLOY l = [LA_DEPLOY_FAILURE]"
| "vmm_failure VA_ON l = [LA_DEPLOY_FAILURE]"
| "vmm_failure VA_MIGRATE l = [LA_DEPLOY_FAILURE]"
| "vmm_failure VA_RESTORE l = [LA_DEPLOY_FAILURE]"
| "vmm_failure VA_SAVE l = [LA_SAVE_FAILURE]"
| "vmm_failure VA_BACKUP l = [LA_CANCEL_FAILURE]"
| "vmm_failure VA_RECOVER l = [LA_CANCEL_FAILURE]"
| "vmm_failure VA_SHUTDOWN l = [LA_SHUTDOWN_FAILURE]"
| "vmm_failure VA_CANCEL l = (if l = CANCEL then [LA_CANCEL_FAILURE] else [])"
| "vmm_failure VA_OFF l = (if l = OFF then [LA_CANCEL_FAILURE] else [])"
| "vmm_failure _ l = []"

definition vmm_accepted :: "vmm_env \<Rightarrow> vmm_action \<Rightarrow> vm \<Rightarrow> one \<Rightarrow> (string \<times> vmm_msg) option" where
  "vmm_accepted env a v w = (case hist v of None \<Rightarrow> None | Some h \<Rightarrow>
     if loaded env (vmm_mad_name h) then map_option (Pair (vmm_mad_name h)) (vmm_message env a v h w) else None)"

definition vmm_vm :: "vmm_action \<Rightarrow> bool \<Rightarrow> vm \<Rightarrow> vm" where
  "vmm_vm a acc v = (if a = VA_BACKUPDISK \<and> \<not> acc then v\<lparr>lcm_state := RUNNING\<rparr> else v)"

definition vmm_outcome :: "vmm_env \<Rightarrow> vmm_action \<Rightarrow> int \<Rightarrow> vm \<Rightarrow> one \<times> io \<Rightarrow> one \<times> io \<Rightarrow> bool" where
  "vmm_outcome env a vid v = (\<lambda>(w, u) (w', u').
     vms w' = (vms w)(vid \<mapsto> vmm_vm a (vmm_accepted env a v w \<noteq> None) v) \<and> vm_locks w' = vm_locks w \<and>
     hosts w' = hosts w \<and> dm_q w' = dm_q w \<and> tm_q w' = tm_q w \<and> vmm_q w' = vmm_q w \<and>
     (case vmm_accepted env a v w of
        Some (mad, m) \<Rightarrow> lcm_q w' = lcm_q w \<and> u' = vmm_write (vmm_command a) vid mad (format_message env m) u
      | None \<Rightarrow> u' = u \<and> lcm_q w' = lcm_q w @ map (\<lambda>f. (lcm_action_name f, vid)) (vmm_failure a (lcm_state v))))"

lemma message_locks [simp]: "vmm_message env a v h (w\<lparr>vm_locks := l\<rparr>) = vmm_message env a v h w"
  by (cases a) (simp_all add: deploy_message_def save_message_def migrate_message_def restore_message_def
      vm_message_def get_deployment_file_def)

lemma vmm_send_outcome:
  assumes "vms w vid = Some v" "vm_oid v = vid" "vid \<notin> vm_locks w" "cmd = vmm_command a" "message = vmm_message env a"
    "\<And>w2. \<exists>w3. steps fs (v, w2) = Done (vmm_vm a False v, w3) \<and> vms w3 = vms w2 \<and> vm_locks w3 = vm_locks w2 \<and>
      hosts w3 = hosts w2 \<and> dm_q w3 = dm_q w2 \<and> tm_q w3 = tm_q w2 \<and> vmm_q w3 = vmm_q w2 \<and>
      lcm_q w3 = lcm_q w2 @ map (\<lambda>f. (lcm_action_name f, vid)) (vmm_failure a (lcm_state v))"
  shows "\<exists>s'. with_vm_io vid (vmm_send env cmd message fs vid) (w, u) = Done s' \<and> vmm_outcome env a vid v (w, u) s'"
proof -
  let ?w = "w\<lparr>vm_locks := insert vid (vm_locks w)\<rparr>"
  have oid: "vm_oid (vmm_vm a acc v) = vid" for acc using assms(2) by (simp add: vmm_vm_def)
  have locks: "insert vid (vm_locks w) - {vid} = vm_locks w" using assms(3) by blast
  have refused: "\<exists>s'. bind_res (daemon (fs @ [unlock]) ((v, ?w), u))
      (\<lambda>((v', w'), u'). Done (w'\<lparr>vms := (vms w')(vid \<mapsto> v')\<rparr>, u')) = Done s' \<and> vmm_outcome env a vid v (w, u) s'"
    if "vmm_accepted env a v w = None"
    using assms(6) [of ?w] that oid [of False] locks
    by (auto simp: daemon_def steps_append unlock_def vmm_outcome_def)
  show ?thesis
  proof (cases "vmm_accepted env a v w")
    case None
    from refused [OF None] None show ?thesis
      by (auto simp: with_vm_io_some [OF assms(1,3)] vmm_send_def assms(5) vmm_accepted_def split: option.splits)
  next
    case (Some r)
    obtain mad m where r: "r = (mad, m)" by (cases r)
    with Some obtain h where h: "hist v = Some h" "mad = vmm_mad_name h" "loaded env mad" "vmm_message env a v h w = Some m"
      by (auto simp: vmm_accepted_def split: option.splits if_splits)
    have "vmm_vm a True v = v" by (simp add: vmm_vm_def)
    with h r Some show ?thesis using locks assms(2,4)
      by (simp add: with_vm_io_some [OF assms(1,3)] vmm_send_def assms(5) daemon_def unlock_def vmm_outcome_def)
  qed
qed

lemma vmm_outcomes:
  assumes "vms w vid = Some v" "vm_oid v = vid" "vid \<notin> vm_locks w" "a \<in> vmm_requests"
  shows "\<exists>s'. vmm_do_action env (vmm_action_name a) vid (w, u) = Done s' \<and> vmm_outcome env a vid v (w, u) s'"
proof -
  note unf = vmm_dispatch vmm_deploy_action_def vmm_on_action_def vmm_save_action_def vmm_backup_action_def
    vmm_recover_action_def vmm_backupdisk_action_def vmm_shutdown_action_def vmm_reboot_action_def
    vmm_cancel_action_def vmm_off_action_def vmm_migrate_action_def vmm_restore_action_def vmm_poll_action_def
    vmm_action.case
  show ?thesis
    by (insert assms(4) [unfolded vmm_requests_def], cases a; (simp; fail)?; simp only: unf;
        intro vmm_send_outcome [OF assms(1-3)]; auto simp: vmm_vm_def exec_simps)
qed

subsection \<open>Reading the message\<close>

text \<open>A reader of the message: the elements in their order, each of them empty or with a text.\<close>

definition expect :: "string \<Rightarrow> string \<Rightarrow> string option" where
  "expect p s = (if take (length p) s = p then Some (drop (length p) s) else None)"

definition read_element :: "string \<Rightarrow> string \<Rightarrow> (string \<times> string) option" where
  "read_element name s = (case expect (''<'' @ name @ ''/>'') s of
     Some r \<Rightarrow> Some ([], r)
   | None \<Rightarrow> (case expect (''<'' @ name @ ''>'') s of
       None \<Rightarrow> None
     | Some r \<Rightarrow> map_option (Pair (takeWhile (\<lambda>c. c \<noteq> CHR ''<'') r))
         (expect (''</'' @ name @ ''>'') (dropWhile (\<lambda>c. c \<noteq> CHR ''<'') r))))"

fun read_elements :: "string list \<Rightarrow> string \<Rightarrow> (string list \<times> string) option" where
  "read_elements [] s = Some ([], s)"
| "read_elements (name # names) s = (case read_element name s of
     None \<Rightarrow> None
   | Some (x, r) \<Rightarrow> (case read_elements names r of None \<Rightarrow> None | Some (xs, r') \<Rightarrow> Some (x # xs, r')))"

definition message_names :: "string list" where
  "message_names = [''HOST'', ''NET_DRV'', ''MIGR_HOST'', ''MIGR_NET_DRV'', ''DEPLOY_ID'', ''LOCAL_DEPLOYMENT_FILE'',
     ''REMOTE_DEPLOYMENT_FILE'', ''CHECKPOINT_FILE'']"

definition read_message :: "string \<Rightarrow> vmm_msg option" where
  "read_message s = (case expect ''<VMM_DRIVER_ACTION_DATA>'' s of None \<Rightarrow> None | Some r \<Rightarrow>
     (case read_elements message_names r of
        Some ([h, n, mh, mn, d, l, rd, c], r') \<Rightarrow>
          Some \<lparr>m_host = h, m_net = n, m_migr_host = mh, m_migr_net = mn, m_domain = d, m_ldfile = l, m_rdfile = rd,
            m_cfile = c, m_tmpl = take (length r' - length ''</VMM_DRIVER_ACTION_DATA>'') r'\<rparr>
      | _ \<Rightarrow> None))"

definition plain_text :: "string \<Rightarrow> bool" where
  "plain_text s \<longleftrightarrow> CHR ''<'' \<notin> set s"

lemma expect_prefix [simp]: "expect p (p @ s) = Some s"
  by (simp add: expect_def)

lemma expect_other: "expect (q @ c # p) (q @ d # s) = None" if "c \<noteq> d"
  using that by (simp add: expect_def)

lemma read_element_text:
  assumes "plain_text x"
  shows "read_element name (element name x @ s) = Some (x, s)"
proof -
  have "expect (''<'' @ name @ ''/>'') (element name x @ s) = None"
    using expect_other [of "CHR ''/''" "CHR ''>''" "''<'' @ name" "''>''" "x @ ''</'' @ name @ ''>'' @ s"]
    by (simp add: element_def)
  moreover have "expect (''<'' @ name @ ''>'') (element name x @ s) = Some (x @ ''</'' @ name @ ''>'' @ s)"
    using expect_prefix [of "''<'' @ name @ ''>''" "x @ ''</'' @ name @ ''>'' @ s"] by (simp add: element_def)
  moreover have "takeWhile (\<lambda>c. c \<noteq> CHR ''<'') (x @ ''</'' @ name @ ''>'' @ s) = x"
    "dropWhile (\<lambda>c. c \<noteq> CHR ''<'') (x @ ''</'' @ name @ ''>'' @ s) = ''</'' @ name @ ''>'' @ s"
  proof -
    have "\<forall>c \<in> set x. c \<noteq> CHR ''<''" using assms unfolding plain_text_def by blast
    then show "takeWhile (\<lambda>c. c \<noteq> CHR ''<'') (x @ ''</'' @ name @ ''>'' @ s) = x"
      "dropWhile (\<lambda>c. c \<noteq> CHR ''<'') (x @ ''</'' @ name @ ''>'' @ s) = ''</'' @ name @ ''>'' @ s"
      by (simp_all add: takeWhile_append2 dropWhile_append2)
  qed
  moreover have "expect (''</'' @ name @ ''>'') (''</'' @ name @ ''>'' @ s) = Some s"
    using expect_prefix [of "''</'' @ name @ ''>''" s] by simp
  ultimately show ?thesis by (simp only: read_element_def option.case option.map)
qed

lemma read_element_empty: "read_element name ((''<'' @ name @ ''/>'') @ s) = Some ([], s)"
  by (simp only: read_element_def expect_prefix option.case)

lemma read_element_or_empty:
  assumes "plain_text x"
  shows "read_element name (element_or_empty name x @ s) = Some (x, s)"
  using read_element_text [OF assms] read_element_empty [of name s] by (simp add: element_or_empty_def)

text \<open>The elements one after the other.\<close>

definition element_of :: "string \<Rightarrow> string \<Rightarrow> string \<Rightarrow> bool" where
  "element_of name x t \<longleftrightarrow> (\<forall>s. read_element name (t @ s) = Some (x, s))"

lemma element_ofI:
  "plain_text x \<Longrightarrow> element_of name x (element name x)"
  "plain_text x \<Longrightarrow> element_of name x (element_or_empty name x)"
  "t = ''<'' @ name @ ''/>'' \<Longrightarrow> element_of name [] t"
  using read_element_text read_element_or_empty read_element_empty unfolding element_of_def by blast+

lemma read_elements_list:
  assumes "list_all2 (\<lambda>name (x, t). element_of name x t) names xs"
  shows "read_elements names (concat (map snd xs) @ s) = Some (map fst xs, s)"
  using assms
proof (induction names xs rule: list_all2_induct)
  case (Cons name names xt xs)
  obtain x t where "xt = (x, t)" by fastforce
  then show ?case using Cons by (simp add: element_of_def)
qed simp

definition message_fine :: "vmm_msg \<Rightarrow> bool" where
  "message_fine m \<longleftrightarrow> (\<forall>x \<in> set [m_host m, m_net m, m_migr_host m, m_migr_net m, m_domain m, m_ldfile m, m_rdfile m, m_cfile m].
     plain_text x) \<and> (m_migr_host m = [] \<longrightarrow> m_migr_net m = []) \<and> (m_ldfile m = [] \<longrightarrow> m_rdfile m = [])"

lemma read_message_text:
  assumes "message_fine m"
  shows "read_message (message_text m) = Some m"
proof -
  let ?mig = "m_migr_host m \<noteq> []" and ?ld = "m_ldfile m \<noteq> []"
  let ?xs = "[(m_host m, element ''HOST'' (m_host m)), (m_net m, element ''NET_DRV'' (m_net m)),
    (m_migr_host m, if ?mig then element ''MIGR_HOST'' (m_migr_host m) else ''<MIGR_HOST/>''),
    (m_migr_net m, if ?mig then element ''MIGR_NET_DRV'' (m_migr_net m) else ''<MIGR_NET_DRV/>''),
    (m_domain m, element_or_empty ''DEPLOY_ID'' (m_domain m)),
    (m_ldfile m, if ?ld then element ''LOCAL_DEPLOYMENT_FILE'' (m_ldfile m) else ''<LOCAL_DEPLOYMENT_FILE/>''),
    (m_rdfile m, if ?ld then element ''REMOTE_DEPLOYMENT_FILE'' (m_rdfile m) else ''<REMOTE_DEPLOYMENT_FILE/>''),
    (m_cfile m, element_or_empty ''CHECKPOINT_FILE'' (m_cfile m))]"
  let ?rest = "m_tmpl m @ ''</VMM_DRIVER_ACTION_DATA>''"
  have "message_text m = ''<VMM_DRIVER_ACTION_DATA>'' @ concat (map snd ?xs) @ ?rest"
    by (simp add: message_text_def)
  then have "expect ''<VMM_DRIVER_ACTION_DATA>'' (message_text m) = Some (concat (map snd ?xs) @ ?rest)"
    by (simp only: expect_prefix)
  moreover have "list_all2 (\<lambda>name (x, t). element_of name x t) message_names ?xs"
    using assms unfolding message_names_def message_fine_def
    by (auto intro!: element_ofI)
  then have "read_elements message_names (concat (map snd ?xs) @ ?rest) = Some (map fst ?xs, ?rest)"
    by (rule read_elements_list)
  ultimately show ?thesis by (simp add: read_message_def)
qed

subsection \<open>The timer\<close>

text \<open>The VMs that are chosen: those due, the longest unpolled first, as many as the limit allows.\<close>

lemma sorted_parts: "sorted (map f (xs @ ys)) \<Longrightarrow> x \<in> set xs \<Longrightarrow> y \<in> set ys \<Longrightarrow> f x \<le> f y"
  by (auto simp: sorted_append)

lemma get_running_oldest:
  assumes "distinct ids"
  shows "distinct (get_running ids n t w)" "length (get_running ids n t w) \<le> n"
    "i \<in> set (get_running ids n t w) \<Longrightarrow> i \<in> set ids \<and> (\<exists>r. vm_rows w i = Some r \<and> due_poll t r)"
    "\<lbrakk>i \<in> set ids; vm_rows w i = Some r; due_poll t r; i \<notin> set (get_running ids n t w)\<rbrakk> \<Longrightarrow>
      length (get_running ids n t w) = n \<and>
      (\<forall>j \<in> set (get_running ids n t w). last_poll (the (vm_rows w j)) \<le> last_poll r)"
proof -
  let ?due = "\<lambda>i. case vm_rows w i of None \<Rightarrow> False | Some r \<Rightarrow> due_poll t r"
  let ?key = "\<lambda>i. last_poll (the (vm_rows w i))"
  let ?s = "sort_key ?key (filter ?due ids)"
  have g: "get_running ids n t w = take n ?s" by (simp add: get_running_def)
  show "distinct (get_running ids n t w)" "length (get_running ids n t w) \<le> n"
    using assms by (simp_all add: g)
  show "i \<in> set (get_running ids n t w) \<Longrightarrow> i \<in> set ids \<and> (\<exists>r. vm_rows w i = Some r \<and> due_poll t r)"
    unfolding g by (drule in_set_takeD) (auto split: option.splits)
  assume i: "i \<in> set ids" "vm_rows w i = Some r" "due_poll t r" "i \<notin> set (get_running ids n t w)"
  then have "i \<in> set ?s" by simp
  then have drop: "i \<in> set (drop n ?s)" using i(4) unfolding g
    by (metis Un_iff append_take_drop_id set_append)
  then have "n < length ?s" by (metis drop_all empty_iff linorder_not_le list.set(1))
  moreover have "sorted (map ?key (take n ?s @ drop n ?s))" by (simp only: append_take_drop_id sorted_sort_key)
  then have "\<forall>j \<in> set (take n ?s). ?key j \<le> ?key i" using drop sorted_parts by fast
  ultimately show "length (get_running ids n t w) = n \<and>
      (\<forall>j \<in> set (get_running ids n t w). last_poll (the (vm_rows w j)) \<le> last_poll r)"
    using i(2) by (simp add: g)
qed

text \<open>A VM that can be polled, and the line its driver gets.\<close>

definition pollable :: "vmm_env \<Rightarrow> int \<Rightarrow> one \<Rightarrow> bool" where
  "pollable env vid w \<longleftrightarrow> vid \<notin> vm_locks w \<and> (case vms w vid of None \<Rightarrow> False | Some v \<Rightarrow> vm_oid v = vid \<and>
     (case hist v of None \<Rightarrow> False | Some h \<Rightarrow> loaded env (vmm_mad_name h)))"

definition poll_line :: "vmm_env \<Rightarrow> one \<Rightarrow> int \<Rightarrow> string \<times> string" where
  "poll_line env w vid = (let v = (the (vms w vid))\<lparr>last_poll := now w\<rparr>; h = the (hist v) in
     (vmm_mad_name h, ''POLL '' @ int_string vid @ '' '' @ format_message env (msg_on env h (deploy_id v) v) @ endl))"

text \<open>A mutex that is free, of the VM with that identifier if it is in the pool.\<close>

definition free_vm :: "one \<Rightarrow> int \<Rightarrow> bool" where
  "free_vm w i \<longleftrightarrow> i \<notin> vm_locks w \<and> (case vms w i of None \<Rightarrow> True | Some v \<Rightarrow> vm_oid v = i)"

text \<open>What a poll writes: the line and the row of a VM with a host and a driver, and nothing of another.\<close>

definition polled_one :: "vmm_env \<Rightarrow> int \<Rightarrow> one \<times> io \<Rightarrow> one \<times> io \<Rightarrow> bool" where
  "polled_one env vid = (\<lambda>(w, u) (w', u').
     vm_locks w' = vm_locks w \<and> now w' = now w \<and> db_ok w' = db_ok w \<and> (\<forall>j. j \<noteq> vid \<longrightarrow> vms w' j = vms w j) \<and>
     piped u' = piped u @ (if pollable env vid w then [poll_line env w vid] else []) \<and>
     vm_rows w' = (if pollable env vid w \<and> db_ok w
       then (vm_rows w)(vid \<mapsto> to_xml ((the (vms w vid))\<lparr>last_poll := now w\<rparr>)) else vm_rows w))"

lemma poll_vm_step:
  assumes "free_vm w vid"
  shows "\<exists>s'. poll_vm env vid (w, u) = Done s' \<and> polled_one env vid (w, u) s'"
proof (cases "vms w vid")
  case None
  then show ?thesis by (simp add: poll_vm_def with_vm_io_def polled_one_def pollable_def)
next
  case (Some v)
  have v: "vms w vid = Some v" "vid \<notin> vm_locks w" "vm_oid v = vid" using assms Some by (simp_all add: free_vm_def)
  have locks: "insert vid (vm_locks w) - {vid} = vm_locks w" using v(2) by blast
  have h': "hist (v\<lparr>last_poll := t\<rparr>) = hist v" for t by (simp add: hist_def)
  show ?thesis using v locks h'
    by (cases "hist v") (auto simp: poll_vm_def with_vm_io_some daemon_def unlock_def update_def write_row_def poll_line_def Let_def
        vmm_write_def write_mad_def polled_one_def pollable_def exec_simps)
qed

lemma poll_vms_steps:
  assumes "distinct vids" "\<forall>i \<in> set vids. free_vm w i"
  shows "\<exists>w' u'. poll_vms env vids (w, u) = Done (w', u') \<and>
    piped u' = piped u @ map (poll_line env w) (filter (\<lambda>i. pollable env i w) vids) \<and>
    (\<forall>i. if i \<in> set vids \<and> pollable env i w \<and> db_ok w then \<exists>r. vm_rows w' i = Some r \<and> last_poll r = now w
      else vm_rows w' i = vm_rows w i)"
  using assms
proof (induction vids arbitrary: w u)
  case (Cons i vids)
  obtain w1 u1 where s: "poll_vm env i (w, u) = Done (w1, u1)" "polled_one env i (w, u) (w1, u1)"
    using poll_vm_step [of w i env u] Cons.prems(2) by auto
  have same: "free_vm w1 j = free_vm w j" "pollable env j w1 = pollable env j w" "poll_line env w1 j = poll_line env w j"
    if "j \<in> set vids" for j
    using that s(2) Cons.prems(1) by (auto simp: polled_one_def free_vm_def pollable_def poll_line_def)
  obtain w' u' where r: "poll_vms env vids (w1, u1) = Done (w', u')"
    "piped u' = piped u1 @ map (poll_line env w1) (filter (\<lambda>j. pollable env j w1) vids)"
    "\<And>j. if j \<in> set vids \<and> pollable env j w1 \<and> db_ok w1 then \<exists>r. vm_rows w' j = Some r \<and> last_poll r = now w1
      else vm_rows w' j = vm_rows w1 j"
    using Cons.IH [of w1 u1] Cons.prems same(1) by auto
  have "filter (\<lambda>j. pollable env j w1) vids = filter (\<lambda>j. pollable env j w) vids" using same(2) by (intro filter_cong) auto
  then have "map (poll_line env w1) (filter (\<lambda>j. pollable env j w1) vids) = map (poll_line env w) (filter (\<lambda>j. pollable env j w) vids)"
    using same(3) by auto
  then have p: "piped u' = piped u @ map (poll_line env w) (filter (\<lambda>j. pollable env j w) (i # vids))"
    using r(2) s(2) by (simp add: polled_one_def)
  have l: "last_poll (to_xml v) = last_poll v" for v by (simp add: to_xml_def)
  have "if j \<in> set (i # vids) \<and> pollable env j w \<and> db_ok w then \<exists>r. vm_rows w' j = Some r \<and> last_poll r = now w
      else vm_rows w' j = vm_rows w j" for j
    using r(3) [of j] s(2) same(2) [of j] l Cons.prems(1) by (cases "j \<in> set vids") (auto simp: polled_one_def split: if_splits)
  then show ?case using s(1) r(1) p by simp
qed simp

subsection \<open>Properties\<close>

text \<open>C22. Every request of the life-cycle manager to the hypervisor is answered.  When the VM has a host, the
  driver of the host is loaded and, for a deployment, the deployment file is written, and, for a migration, there is
  a previous host, the driver gets exactly one line, with the command of the request, the VM and the message; otherwise
  nothing is written and the life-cycle manager gets the failure of the table at once.  Nothing else changes, but for the
  backup of a disk: a refused one puts the VM back in RUNNING.\<close>

theorem hypervisor_requests_answered:
  assumes "vms w vid = Some v" "vm_oid v = vid" "vid \<notin> vm_locks w" "a \<in> vmm_requests"
  shows "\<exists>s'. vmm_do_action env (vmm_action_name a) vid (w, u) = Done s' \<and> vmm_outcome env a vid v (w, u) s'"
  by (rule vmm_outcomes [OF assms])

text \<open>The message can be read back.  A reader that takes the elements in their order recovers every
  argument of \<open>format_message\<close> from the text, whatever the template is: hosts, drivers, identifiers and paths without
  a \<open><\<close> cannot be confused with one another, nor with the template.\<close>

theorem message_round_trip:
  assumes "message_fine m"
  shows "read_message (message_text m) = Some m"
  by (rule read_message_text [OF assms])

text \<open>C23. A round of the timer picks, among the VMs that are running and due, those that have waited longest for a poll, at most
  \<open>vm_limit\<close> of them and each once: one that is due and not picked waits behind as many as the limit, all at least as long
  unpolled as it is.  Of those that are picked exactly the ones with a host and a loaded driver are polled, and their rows
  get the time of the round, if the database writes, so that in the next rounds they come last.  The rows of all others
  are as before: a VM without a driver keeps its place in front of the others.\<close>

theorem timer_polls_oldest:
  assumes "distinct ids" "\<forall>i \<in> set ids. free_vm w i"
  shows "\<exists>w' u' picked. timer_action env ids vm_limit poll_period (w, u) = Done (w', u') \<and> distinct picked \<and>
    length picked \<le> vm_limit \<and> (\<forall>i \<in> set picked. \<exists>r. vm_rows w i = Some r \<and> due_poll (now w - poll_period) r) \<and>
    (\<forall>i \<in> set ids. \<forall>r. vm_rows w i = Some r \<longrightarrow> due_poll (now w - poll_period) r \<longrightarrow> i \<notin> set picked \<longrightarrow>
       length picked = vm_limit \<and> (\<forall>j \<in> set picked. last_poll (the (vm_rows w j)) \<le> last_poll r)) \<and>
    piped u' = piped u @ map (poll_line env w) (filter (\<lambda>i. pollable env i w) picked) \<and>
    (\<forall>i. if i \<in> set picked \<and> pollable env i w \<and> db_ok w then \<exists>r. vm_rows w' i = Some r \<and> last_poll r = now w
      else vm_rows w' i = vm_rows w i)"
proof -
  let ?p = "get_running ids vm_limit (now w - poll_period) w"
  note g = get_running_oldest [OF assms(1), where n = vm_limit and t = "now w - poll_period" and w = w]
  have "\<forall>i \<in> set ?p. free_vm w i" using g(3) assms(2) by blast
  from poll_vms_steps [OF g(1) this, of env u] obtain w' u' where
    "poll_vms env ?p (w, u) = Done (w', u')" "piped u' = piped u @ map (poll_line env w) (filter (\<lambda>i. pollable env i w) ?p)"
    "\<forall>i. if i \<in> set ?p \<and> pollable env i w \<and> db_ok w then \<exists>r. vm_rows w' i = Some r \<and> last_poll r = now w
      else vm_rows w' i = vm_rows w i" by blast
  then show ?thesis using g by (intro exI [of _ w'] exI [of _ u'] exI [of _ ?p]) (simp add: timer_action_def)
qed

subsection \<open>Witnesses\<close>

definition vmm_env_with :: "bool \<Rightarrow> vmm_env" where
  "vmm_env_with b = \<lparr>loaded = (\<lambda>_. b), can_open = (\<lambda>_. True), nebula_host = ''front'', describes = (\<lambda>_ _ _. b),
     vm_xml = (\<lambda>v. int_string (vm_oid v)), base64 = (\<lambda>s. s)\<rparr>"

theorem hypervisor_requests_answered_witness:
  "\<exists>w' u'. vmm_do_action (vmm_env_with False) ''DEPLOY'' 7 (one_at BOOT [record_a], new_io) = Done (w', u') \<and>
     lcm_q w' = [(''DEPLOY_FAILURE'', 7)] \<and> piped u' = []"
  using hypervisor_requests_answered [of "one_at BOOT [record_a]" 7 "vm_at BOOT [record_a]" VA_DEPLOY "vmm_env_with False" new_io]
  by (auto simp: vmm_requests_def vmm_outcome_def vmm_accepted_def vmm_env_with_def hist_def new_io_def one_at_def vm_at_def)

theorem message_round_trip_witness:
  "read_message (message_text (msg_on (vmm_env_with True) record_a ''one-7'' (vm_at RUNNING [record_a]))) =
     Some (msg_on (vmm_env_with True) record_a ''one-7'' (vm_at RUNNING [record_a]))"
  by (rule message_round_trip) (simp add: message_fine_def plain_text_def msg_on_def record_a_def new_history_def)

text \<open>The VMs picked first starve the others if their driver is not loaded: the round changes no row.\<close>

lemma no_driver_no_poll:
  assumes "distinct ids" "\<forall>i \<in> set ids. free_vm w i"
    "\<forall>i \<in> set (get_running ids vm_limit (now w - poll_period) w). \<not> pollable env i w"
  shows "\<exists>w' u'. timer_action env ids vm_limit poll_period (w, u) = Done (w', u') \<and> piped u' = piped u \<and> vm_rows w' = vm_rows w"
proof -
  let ?p = "get_running ids vm_limit (now w - poll_period) w"
  have p: "distinct ?p" "\<forall>i \<in> set ?p. free_vm w i"
    using get_running_oldest(1,3) [OF assms(1), where n = vm_limit and t = "now w - poll_period" and w = w] assms(2) by blast+
  obtain w' u' where r: "poll_vms env ?p (w, u) = Done (w', u')"
    "piped u' = piped u @ map (poll_line env w) (filter (\<lambda>i. pollable env i w) ?p)"
    "\<forall>i. if i \<in> set ?p \<and> pollable env i w \<and> db_ok w then \<exists>r. vm_rows w' i = Some r \<and> last_poll r = now w
      else vm_rows w' i = vm_rows w i" using poll_vms_steps [OF p, of env u] by blast
  have "filter (\<lambda>i. pollable env i w) ?p = []" using assms(3) by (simp add: filter_empty_conv)
  moreover have "vm_rows w' = vm_rows w" using r(3) assms(3) by (auto simp: fun_eq_iff split: if_splits)
  ultimately show ?thesis using r(1,2) by (simp add: timer_action_def)
qed

theorem timer_polls_oldest_witness:
  "\<exists>w' u' r. timer_action (vmm_env_with True) [7] 5 60 (one_at RUNNING [record_a], new_io) = Done (w', u') \<and>
     piped u' = [poll_line (vmm_env_with True) (one_at RUNNING [record_a]) 7] \<and> vm_rows w' 7 = Some r \<and> last_poll r = 100"
proof -
  let ?w = "one_at RUNNING [record_a]" and ?env = "vmm_env_with True"
  have ok: "\<forall>i \<in> set [7]. free_vm ?w i" by (simp add: free_vm_def one_at_def vm_at_def)
  have pl: "pollable ?env 7 ?w" by (simp add: pollable_def vmm_env_with_def one_at_def vm_at_def hist_def)
  have rows: "vm_rows ?w = [7 \<mapsto> to_xml (vm_at RUNNING [record_a])]" "now ?w = 100" "db_ok ?w"
    "due_poll (100 - 60) (to_xml (vm_at RUNNING [record_a]))"
    by (simp_all add: one_at_def vm_at_def to_xml_def due_poll_def)
  have "distinct [7 :: int]" by simp
  from timer_polls_oldest [OF this ok, where vm_limit = 5 and poll_period = 60 and u = new_io and env = ?env]
  obtain w' u' picked where p: "timer_action ?env [7] 5 60 (?w, new_io) = Done (w', u')" "distinct picked"
    "\<forall>i \<in> set picked. \<exists>r. vm_rows ?w i = Some r \<and> due_poll (now ?w - 60) r"
    "\<forall>i \<in> set [7]. \<forall>r. vm_rows ?w i = Some r \<longrightarrow> due_poll (now ?w - 60) r \<longrightarrow> i \<notin> set picked \<longrightarrow> length picked = 5 \<and>
       (\<forall>j \<in> set picked. last_poll (the (vm_rows ?w j)) \<le> last_poll r)"
    "piped u' = piped new_io @ map (poll_line ?env ?w) (filter (\<lambda>i. pollable ?env i ?w) picked)"
    "\<forall>i. if i \<in> set picked \<and> pollable ?env i ?w \<and> db_ok ?w then \<exists>r. vm_rows w' i = Some r \<and> last_poll r = now ?w
      else vm_rows w' i = vm_rows ?w i" by blast
  have sub: "set picked \<subseteq> {7}" using p(3) rows(1) by (auto split: if_splits)
  have "7 \<in> set picked"
  proof (rule ccontr)
    assume "7 \<notin> set picked"
    then have "picked = []" using sub by (cases picked) auto
    then show False using p(4) rows \<open>7 \<notin> set picked\<close> by simp
  qed
  then have "picked = [7]" using sub p(2) by (cases picked; cases "tl picked") auto
  then show ?thesis using p(1,5) spec [OF p(6), of 7] pl rows(2,3) by (auto simp: new_io_def)
qed

end
