(* ===== verification/System.thy ===== *)
theory System
  imports Ledger DispatchSpec Drivers VmmSpec
begin

text \<open>
  The daemon as a whole: requests of users, the life-cycle and the dispatch manager taking the messages
  of their queues, and the answers of the transfer and the virtual machine drivers.  Each VM has one thing
  going on at a time: a request for a VM, or an answer of a driver about it, comes when no message waits
  for it.  What happens without this discipline is the subject of the counterexamples at the end.
\<close>

definition names_for :: "int \<Rightarrow> (string \<times> int) list \<Rightarrow> string list" where
  "names_for vid q = map fst (filter (\<lambda>m. snd m = vid) q)"

lemma names_for_simps [simp]:
  "names_for vid [] = []"
  "names_for vid ((a, u) # q) = (if u = vid then a # names_for vid q else names_for vid q)"
  "names_for vid (p @ q) = names_for vid p @ names_for vid q"
  by (simp_all add: names_for_def)

lemma names_for_map [simp]:
  "names_for vid (map (\<lambda>a. (f a, u)) as) = (if u = vid then map f as else [])"
  by (induction as) auto

lemma appends_names: "appends vid q q' \<Longrightarrow> u \<noteq> vid \<Longrightarrow> names_for u q' = names_for u q"
  by (auto simp: appends_def)

definition quiet :: "int \<Rightarrow> one \<Rightarrow> bool" where
  "quiet vid w \<longleftrightarrow> names_for vid (lcm_q w) = [] \<and> names_for vid (dm_q w) = []"

subsection \<open>The ledger\<close>

text \<open>The hosts VM \<open>vid\<close> is charged on, and what all the VMs charge on a host.\<close>

definition vm_claims :: "int \<Rightarrow> one \<Rightarrow> int list" where
  "vm_claims vid w = (case vms w vid of None \<Rightarrow> [] | Some v \<Rightarrow>
     let pl = names_for vid (lcm_q w) in
     if state v \<noteq> ACTIVE \<or> lcm_state v \<in> {LCM_INIT, FAILURE, CLEANUP} \<or> names_for vid (dm_q w) \<noteq> [] then []
     else if pl = [''MIGRATE''] \<or> pl = [''LIVE_MIGRATE''] then take 1 (drop 1 (hids v))
     else if lcm_state v = MIGRATE \<or> lcm_state v = SAVE_MIGRATE then take 2 (hids v)
     else take 1 (hids v))"

definition owed :: "int \<Rightarrow> one \<Rightarrow> int \<Rightarrow> int" where
  "owed vid w h = int (count_list (vm_claims vid w) h)"

definition load :: "(int \<times> int \<times> int \<Rightarrow> int) \<Rightarrow> one \<Rightarrow> int \<Rightarrow> int" where
  "load f w h = (\<Sum>vid \<in> dom (vms w). owed vid w h * f (get_requirements (the (vms w vid))))"

definition ledger :: "(int \<Rightarrow> host_share) \<Rightarrow> one \<Rightarrow> bool" where
  "ledger base w \<longleftrightarrow> finite (dom (vms w)) \<and> (\<forall>h x. hosts w h = Some x \<longrightarrow>
     cpu_usage (host_share x) = cpu_usage (base h) + load fst w h \<and>
     mem_usage (host_share x) = mem_usage (base h) + load (\<lambda>r. fst (snd r)) w h \<and>
     running_vms (host_share x) = running_vms (base h) + load (\<lambda>_. 1) w h)"

lemma ledgerD:
  assumes "ledger base w" "hosts w h = Some x"
  shows "cpu_usage (host_share x) = cpu_usage (base h) + load fst w h"
    "running_vms (host_share x) = running_vms (base h) + load (\<lambda>_. 1) w h"
  using assms by (simp_all add: ledger_def)

lemma lcm_name_migration:
  "lcm_action_name a = ''MIGRATE'' \<longleftrightarrow> a = LA_MIGRATE"
  "lcm_action_name a = ''LIVE_MIGRATE'' \<longleftrightarrow> a = LA_LIVE_MIGRATE"
  by (cases a; simp)+

text \<open>What the ledger reads of one VM.\<close>

definition pending :: "int \<Rightarrow> one \<Rightarrow> lcm_action list \<Rightarrow> dm_action list \<Rightarrow> bool" where
  "pending vid w pl pd \<longleftrightarrow> names_for vid (lcm_q w) = map lcm_action_name pl \<and>
     names_for vid (dm_q w) = map dm_action_name pd"

lemma migration_names:
  "(map lcm_action_name pl = [''MIGRATE''] \<or> map lcm_action_name pl = [''LIVE_MIGRATE'']) = is_migration pl"
  by (auto simp: is_migration_def map_eq_Cons_conv lcm_name_migration)

lemma owed_charged:
  assumes "vms w vid = Some v" "pending vid w pl pd"
  shows "owed vid w h = charged (state v) (lcm_state v) (hids v) pl pd h"
  using assms migration_names [of pl]
  by (simp add: owed_def charged_def vm_claims_def claims_def pending_def Let_def)

lemma owed_cong:
  assumes "vms w' vid = vms w vid" "names_for vid (lcm_q w') = names_for vid (lcm_q w)"
    "names_for vid (dm_q w') = names_for vid (dm_q w)"
  shows "owed vid w' h = owed vid w h"
  unfolding owed_def vm_claims_def assms ..

lemma load_step:
  assumes "finite (dom (vms w))" "vms w vid = Some v" "vms w' = (vms w)(vid \<mapsto> v')"
    "get_requirements v' = get_requirements v" "\<And>u. u \<noteq> vid \<Longrightarrow> owed u w' h = owed u w h"
  shows "load f w' h = load f w h + (owed vid w' h - owed vid w h) * f (get_requirements v)"
proof -
  have d: "dom (vms w') = dom (vms w)" "vid \<in> dom (vms w)" using assms(2,3) by auto
  have "load f w' h = owed vid w' h * f (get_requirements v) +
      (\<Sum>u \<in> dom (vms w) - {vid}. owed u w' h * f (get_requirements (the (vms w' u))))"
    unfolding load_def d(1) by (subst sum.remove [OF assms(1) d(2)]) (simp add: assms(3,4))
  also have "(\<Sum>u \<in> dom (vms w) - {vid}. owed u w' h * f (get_requirements (the (vms w' u)))) =
      (\<Sum>u \<in> dom (vms w) - {vid}. owed u w h * f (get_requirements (the (vms w u))))"
    by (rule sum.cong) (use assms(3,5) in auto)
  also have "owed vid w' h * f (get_requirements v) + \<dots> =
      (owed vid w' h - owed vid w h) * f (get_requirements v) + load f w h"
    using sum.remove [OF assms(1) d(2), of "\<lambda>u. owed u w h * f (get_requirements (the (vms w u)))"]
    by (simp add: load_def assms(2) algebra_simps)
  finally show ?thesis by simp
qed

lemma ledger_step:
  assumes "ledger base w" "vms w vid = Some v" "vms w' = (vms w)(vid \<mapsto> v')"
    "get_requirements v' = get_requirements v" "\<And>u h. u \<noteq> vid \<Longrightarrow> owed u w' h = owed u w h"
    "\<And>h. hosts w' h = map_option (shift_host (owed vid w' h - owed vid w h) (get_requirements v)) (hosts w h)"
  shows "ledger base w'"
proof -
  have fin: "finite (dom (vms w))" using assms(1) by (simp add: ledger_def)
  note ld = load_step [OF fin assms(2,3,4) assms(5)]
  obtain cpu mem disk where r: "get_requirements v = (cpu, mem, disk)" by (metis prod_cases3)
  show ?thesis unfolding ledger_def
  proof (intro conjI allI impI)
    show "finite (dom (vms w'))" using fin assms(3) by simp
    fix h x assume "hosts w' h = Some x"
    then obtain y where y: "hosts w h = Some y" "x = shift_host (owed vid w' h - owed vid w h) (cpu, mem, disk) y"
      using assms(6) [of h] r by (cases "hosts w h") auto
    have old: "cpu_usage (host_share y) = cpu_usage (base h) + load fst w h"
      "mem_usage (host_share y) = mem_usage (base h) + load (\<lambda>r. fst (snd r)) w h"
      "running_vms (host_share y) = running_vms (base h) + load (\<lambda>_. 1) w h"
      using assms(1) y(1) unfolding ledger_def by blast+
    show "cpu_usage (host_share x) = cpu_usage (base h) + load fst w' h"
      "mem_usage (host_share x) = mem_usage (base h) + load (\<lambda>r. fst (snd r)) w' h"
      "running_vms (host_share x) = running_vms (base h) + load (\<lambda>_. 1) w' h"
      using old ld [of fst h] ld [of "\<lambda>r. fst (snd r)" h] ld [of "\<lambda>_. 1" h] r
      by (simp_all add: y(2) shift_host_def shift_def)
  qed
qed

lemma ledger_same:
  assumes "ledger base w" "vms w' = vms w" "hosts w' = hosts w" "\<And>u. names_for u (lcm_q w') = names_for u (lcm_q w)"
    "\<And>u. names_for u (dm_q w') = names_for u (dm_q w)"
  shows "ledger base w'"
  using assms owed_cong [of w' _ w] by (simp add: ledger_def load_def)

subsection \<open>Well-formed states\<close>

definition vm_wf :: "vm \<Rightarrow> lcm_action list \<Rightarrow> dm_action list \<Rightarrow> bool" where
  "vm_wf v pl pd \<longleftrightarrow> phase (state v) (lcm_state v) pl pd \<and>
     records_ok (state v) (lcm_state v) (hids v) pl (backup v \<noteq> None) (backupdisk v \<noteq> None) \<and>
     (state v = SUSPENDED \<longrightarrow> hids v \<noteq> [])"

definition system_ok :: "one \<Rightarrow> bool" where
  "system_ok w \<longleftrightarrow> vm_locks w = {} \<and> snd ` set (lcm_q w) \<subseteq> dom (vms w) \<and> snd ` set (dm_q w) \<subseteq> dom (vms w) \<and>
     (\<forall>vid v. vms w vid = Some v \<longrightarrow> vm_oid v = vid \<and> (\<exists>pl pd. pending vid w pl pd \<and> vm_wf v pl pd))"

text \<open>A queue changes in the messages of one VM.\<close>

definition others :: "int \<Rightarrow> (string \<times> int) list \<Rightarrow> (string \<times> int) list" where
  "others vid q = filter (\<lambda>m. snd m \<noteq> vid) q"

lemma others_simps [simp]:
  "others vid [] = []" "others vid ((a, u) # q) = (if u = vid then others vid q else (a, u) # others vid q)"
  "others vid (p @ q) = others vid p @ others vid q"
  "others vid (map (\<lambda>a. (f a, vid)) as) = []"
  by (simp_all add: others_def comp_def)

lemma others_names:
  assumes "others vid q' = others vid q" "u \<noteq> vid"
  shows "names_for u q' = names_for u q"
proof -
  have "names_for u p = names_for u (others vid p)" for p
    using assms(2) by (induction p) auto
  then show ?thesis using assms(1) by metis
qed

lemma others_set: "others vid q' = others vid q \<Longrightarrow> snd ` set q' \<subseteq> insert vid (snd ` set q)"
  unfolding others_def by (force dest: arg_cong [where f = set])

lemma subset_insert_trans: "A \<subseteq> insert x B \<Longrightarrow> B \<subseteq> C \<Longrightarrow> x \<in> C \<Longrightarrow> A \<subseteq> C"
  by blast

text \<open>The transition of one VM: everything else is kept, the VM ends where it can be, and the capacity of each
  host changes by what the VM's claims change.\<close>

record passage =
  ps_vm :: vm
  ps_pl :: "lcm_action list"
  ps_pd :: "dm_action list"

definition due :: "passage \<Rightarrow> int \<Rightarrow> int" where
  "due p = charged (state (ps_vm p)) (lcm_state (ps_vm p)) (hids (ps_vm p)) (ps_pl p) (ps_pd p)"

definition passes :: "int \<Rightarrow> passage \<Rightarrow> one \<Rightarrow> passage \<Rightarrow> one \<Rightarrow> bool" where
  "passes vid p w p' w' \<longleftrightarrow> vms w' = (vms w)(vid \<mapsto> ps_vm p') \<and> vm_oid (ps_vm p') = vid \<and>
     get_requirements (ps_vm p') = get_requirements (ps_vm p) \<and> vm_locks w' = {} \<and>
     others vid (lcm_q w') = others vid (lcm_q w) \<and> others vid (dm_q w') = others vid (dm_q w) \<and>
     pending vid w' (ps_pl p') (ps_pd p') \<and> vm_wf (ps_vm p') (ps_pl p') (ps_pd p') \<and>
     (\<forall>h. hosts w' h = map_option (shift_host (due p' h - due p h) (get_requirements (ps_vm p))) (hosts w h))"

lemma passes_keeps:
  assumes "system_ok w" "ledger base w" "vms w vid = Some (ps_vm p)" "pending vid w (ps_pl p) (ps_pd p)"
    "passes vid p w p' w'"
  shows "system_ok w' \<and> ledger base w'"
proof
  note ps = assms(5) [unfolded passes_def]
  have other: "names_for u (lcm_q w') = names_for u (lcm_q w)" "names_for u (dm_q w') = names_for u (dm_q w)"
    if "u \<noteq> vid" for u using ps others_names that by blast+
  have "vm_oid v = u \<and> (\<exists>pl pd. pending u w' pl pd \<and> vm_wf v pl pd)" if "vms w' u = Some v" for u v
  proof (cases "u = vid")
    case True
    then show ?thesis using ps that by auto
  next
    case False
    then show ?thesis using assms(1) ps that other [OF False] by (auto simp: system_ok_def pending_def)
  qed
  moreover have "snd ` set (lcm_q w') \<subseteq> dom (vms w')" "snd ` set (dm_q w') \<subseteq> dom (vms w')"
  proof -
    have "dom (vms w') = dom (vms w)" "vid \<in> dom (vms w)" using ps assms(3) by auto
    moreover have "snd ` set (lcm_q w') \<subseteq> insert vid (snd ` set (lcm_q w))"
      "snd ` set (dm_q w') \<subseteq> insert vid (snd ` set (dm_q w))" using ps by (simp_all add: others_set)
    moreover have "snd ` set (lcm_q w) \<subseteq> dom (vms w)" "snd ` set (dm_q w) \<subseteq> dom (vms w)"
      using assms(1) by (simp_all add: system_ok_def)
    ultimately show "snd ` set (lcm_q w') \<subseteq> dom (vms w')" "snd ` set (dm_q w') \<subseteq> dom (vms w')"
      by (simp_all only: subset_insert_trans)
  qed
  ultimately show "system_ok w'" using ps by (simp add: system_ok_def)
  have u: "owed u w' h = owed u w h" if "u \<noteq> vid" for u h
    using ps other [OF that] that by (intro owed_cong) auto
  have v': "vms w' vid = Some (ps_vm p')" using ps by simp
  have "owed vid w' h - owed vid w h = due p' h - due p h" for h
    using owed_charged [OF v'] owed_charged [OF assms(3,4)] ps by (simp add: due_def)
  then show "ledger base w'" using ps u
    by (intro ledger_step [OF assms(2,3), of w' "ps_vm p'"]) simp_all
qed

subsection \<open>A life-cycle action\<close>

lemma system_okD:
  assumes "system_ok w" "vms w vid = Some v"
  obtains pl pd where "vm_oid v = vid" "vid \<notin> vm_locks w" "pending vid w pl pd" "vm_wf v pl pd"
proof -
  have "vm_oid v = vid \<and> (\<exists>pl pd. pending vid w pl pd \<and> vm_wf v pl pd)" "vm_locks w = {}"
    using assms by (simp_all add: system_ok_def)
  then show thesis using that by auto
qed

lemma get_requirements_cong:
  "req_memory v' = req_memory v \<Longrightarrow> req_cpu v' = req_cpu v \<Longrightarrow> get_requirements v' = get_requirements v"
  by (simp only: get_requirements_def)

lemma vm_wf_ready:
  assumes "vm_wf v pl pd" "state v = ACTIVE"
  shows "vm_ready v"
proof -
  have "hids v = [] \<longleftrightarrow> history_records v = []" "tl (hids v) = [] \<longleftrightarrow> tl (history_records v) = []"
    by (simp_all add: hids_def map_tl [symmetric])
  then show ?thesis using assms
    by (cases "history_records v"; cases "tl (history_records v)")
       (auto simp: vm_wf_def records_ok_def vm_ready_def previous_hist_def)
qed

lemma lcm_passes:
  assumes "system_ok w" "lcm_q w = (n, vid) # q" "vms w vid = Some v"
  obtains a w' p' where "n = lcm_action_name a" "pending vid w [a] []"
    "lcm_do_action n vid (w\<lparr>lcm_q := q\<rparr>) = Done w'"
    "passes vid \<lparr>ps_vm = v, ps_pl = [a], ps_pd = []\<rparr> w p' w'"
proof -
  let ?w = "w\<lparr>lcm_q := q\<rparr>"
  obtain pl pd where pp: "vm_oid v = vid" "vid \<notin> vm_locks w" "pending vid w pl pd" "vm_wf v pl pd"
    using system_okD [OF assms(1,3)] .
  obtain a where a: "pl = [a]" "pd = []" "state v = ACTIVE" "awaits a (lcm_state v)" "n = lcm_action_name a"
    "names_for vid q = []" "names_for vid (dm_q w) = []"
    using pp(3,4) assms(2) by (auto simp: pending_def vm_wf_def phase_def split: list.splits)
  have ready: "vm_ready v" using vm_wf_ready pp(4) a(3) by blast
  let ?e = "lcm_spec (ctx_of v ?w) a (lcm_state v)"
  obtain w' v' where d: "lcm_do_action n vid ?w = Done w'" "vms w' vid = Some v'" and m: "matches ?e vid v ?w v' w'"
    using lcm_do_action_refines [of ?w vid v a] assms(3) pp(1,2) ready a(5) by auto
  obtain v2 where "vms w' vid = Some v2" and f: "vm_oid v2 = vid" "vm_frame v v2" "only_vm vid ?w w'"
    using lcm_do_action_frame [of a vid ?w w' v] d(1) assms(3) pp(1) a(5) by auto
  then have v2: "v2 = v'" using d(2) by simp
  have others_same: "vms w' = (vms w)(vid \<mapsto> v')" using f(3) d(2) by (auto simp: only_vm_def)
  have st: "state v' = ACTIVE" "lcm_state v' = e_state ?e" "hids v' = apply_hist (e_hist ?e) (hids v)"
    "lcm_q w' = q" "dm_q w' = dm_q w @ map (\<lambda>a. (dm_action_name a, vid)) (dm_reqs (e_reqs ?e))"
    "hosts w' = apply_caps v (e_caps ?e) (hosts w)"
    using m a(3) by (simp_all add: matches_def)
  have "step_ok (ctx_of v ?w) a (lcm_state v) (hids v) (backup v \<noteq> None) (backupdisk v \<noteq> None)"
    using pp(4) a by (intro lcm_step_ok) (simp_all add: vm_wf_def ctx_of_def)
  then have ok: "phase ACTIVE (lcm_state v') [] (dm_reqs (e_reqs ?e))"
    "records_ok ACTIVE (lcm_state v') (hids v') [] (backup v \<noteq> None) (backupdisk v \<noteq> None)"
    "\<And>h. charged ACTIVE (lcm_state v') (hids v') [] (dm_reqs (e_reqs ?e)) h -
       charged ACTIVE (lcm_state v) (hids v) [a] [] h = (\<Sum>c \<leftarrow> e_caps ?e. cap_delta (hids v) h c)"
    unfolding step_ok_def Let_def st by blast+
  have req: "get_requirements v' = get_requirements v"
    using f(2) by (intro get_requirements_cong) (simp_all add: v2 vm_frame_def)
  have keep: "(backup v \<noteq> None) = (backup v' \<noteq> None)"
    "(backupdisk v \<noteq> None) = (backupdisk v' \<noteq> None)" "vm_locks w' = {}"
    using f(2) assms(1) only_vm_locks [OF f(3)] by (auto simp: v2 vm_frame_def system_ok_def)
  have "vm_wf v' [] (dm_reqs (e_reqs ?e))"
    using ok(1,2) unfolding vm_wf_def st(1) keep by simp
  then have "passes vid \<lparr>ps_vm = v, ps_pl = [a], ps_pd = []\<rparr> w
      \<lparr>ps_vm = v', ps_pl = [], ps_pd = dm_reqs (e_reqs ?e)\<rparr> w'"
    using others_same f(1) v2 st(1,4,5) a(3,6,7) ok(3) assms(2) req keep(3)
    by (simp add: passes_def pending_def due_def st(6) apply_caps_delta)
  from that [OF a(5) _ d(1) this] pp(3) a(1,2) show thesis by simp
qed

subsection \<open>A message of the dispatch manager\<close>

lemma disk_base_path_world [simp]:
  "disk_base_path v (write_row u w) = disk_base_path v w" "disk_base_path v (tm_trigger ta vid w) = disk_base_path v w"
  by (simp_all add: disk_base_path_def get_local_dir_def)

lemma done_gives_back:
  assumes "dm_do_action ''DONE'' vid w = Done w'" "vms w vid = Some v" "vid \<notin> vm_locks w" "state v = ACTIVE"
    "lcm_state v \<in> {EPILOG, CANCEL, CLEANUP}"
  shows "\<exists>s r. gives_back v w s r"
  using assms by (auto simp: dm_do_action_def done_action_def with_vm_def exec_simps gives_back_def
      vm_release_network_leases_def release_disk_images_def bind_res_Done_iff)

lemma finalize_gives_back:
  assumes "dm_finalize vid w = Done w'" "vms w vid = Some v" "vid \<notin> vm_locks w" "mv_ends (finalize_spec (state v))"
  shows "\<exists>s r. gives_back v w s r"
  using assms by (cases "state v") (auto simp: dm_finalize_def finalize_case_def finalize_done_def with_vm_rc_def
      exec_simps gives_back_def vm_release_network_leases_def release_disk_images_def bind_res_Done_iff move_defs)

text \<open>A move of the dispatch manager keeps the claims of the VM.\<close>

definition move_state :: "dm_move \<Rightarrow> VmState \<Rightarrow> LcmState \<Rightarrow> VmState \<times> LcmState" where
  "move_state m st l = (case mv_new m of None \<Rightarrow> (st, l) | Some sl \<Rightarrow> sl)"

definition move_ok :: "VmState \<Rightarrow> LcmState \<Rightarrow> int list \<Rightarrow> bool \<Rightarrow> bool \<Rightarrow> dm_action list \<Rightarrow> dm_move \<Rightarrow> bool" where
  "move_ok st l hs bk dk pd m \<longleftrightarrow> (case move_state m st l of (st', l') \<Rightarrow>
     phase st' l' (mv_lcm m) [] \<and> records_ok st' l' hs (mv_lcm m) bk dk \<and> (st' = SUSPENDED \<longrightarrow> hs \<noteq> []) \<and>
     claims st' l' hs (mv_lcm m) [] = claims st l hs [] pd)"

lemmas move_ok_simps = move_ok_def move_state_def phase_def settled_def alive_def records_ok_def
  is_migration_def claims_def move_defs

lemma message_move_ok:
  assumes "ends a l" "records_ok ACTIVE l hs [] bk dk"
  shows "move_ok ACTIVE l hs bk dk [a] (dm_message_spec a ACTIVE l)" "\<not> dm_leaks a l"
  using assms by (cases a; auto simp: move_ok_simps)+

lemma move_ok_if:
  assumes "P \<Longrightarrow> move_ok st l hs bk dk pd a" "\<not> P \<Longrightarrow> move_ok st l hs bk dk pd b"
  shows "move_ok st l hs bk dk pd (if P then a else b)"
  using assms by simp

lemma request_moves_ok:
  assumes "settled st l" "records_ok st l hs [] bk dk" "st = SUSPENDED \<longrightarrow> hs \<noteq> []"
  shows "awaits a RUNNING \<Longrightarrow> a \<notin> {LA_MIGRATE, LA_LIVE_MIGRATE, LA_BACKUP, LA_BACKUPDISK} \<Longrightarrow>
      move_ok st l hs bk dk [] (ask_running a st l)"
    "move_ok st l hs bk dk [] (move c)"
    "st = PENDING \<Longrightarrow> move_ok st l hs bk dk [] (enter HOLD l)"
    "st = HOLD \<Longrightarrow> move_ok st l hs bk dk [] (enter PENDING l)"
    "st = STOPPED \<Longrightarrow> move_ok st l hs bk dk [] (enter PENDING l)"
    "st = SUSPENDED \<Longrightarrow> move_ok st l hs bk dk [] ((enter ACTIVE l)\<lparr>mv_lcm := [LA_RESTORE]\<rparr>)"
    "st = ACTIVE \<and> l = OFF \<Longrightarrow> move_ok st l hs bk dk [] (ask_lcm LA_ON)"
    "st = ACTIVE \<and> (l = UNKNOWN \<or> l = BOOT) \<Longrightarrow> move_ok st l hs bk dk [] (ask_lcm LA_RESTART)"
    "move_ok st l hs bk dk [] (finalize_spec st)"
    "move_ok st l hs bk dk [] (resubmit_spec st)"
  using assms by (cases st; auto simp: move_ok_simps)+

lemma request_move_ok:
  assumes "settled st l" "records_ok st l hs [] bk dk" "st = SUSPENDED \<longrightarrow> hs \<noteq> []"
  shows "move_ok st l hs bk dk [] (dm_spec junk action st l)"
  unfolding dm_spec_def
  by (intro move_ok_if request_moves_ok [OF assms]) (assumption | simp add: alive_def)+

text \<open>A VM with no life-cycle action waiting that is asked for one or none, its claims unchanged.\<close>

lemma quiet_passes:
  assumes "names_for vid (lcm_q w) = []" "names_for vid (dm_q w') = []" "others vid (dm_q w') = others vid (dm_q w)"
    "vms w' = (vms w)(vid \<mapsto> v')" "vm_oid v' = vid" "get_requirements v' = get_requirements v" "vm_locks w' = {}"
    "hosts w' = hosts w" "lcm_q w' = lcm_q w @ map (\<lambda>a. (lcm_action_name a, vid)) pl'" "vm_wf v' pl' []"
    "claims (state v') (lcm_state v') (hids v') pl' [] = claims (state v) (lcm_state v) (hids v) [] pd"
  shows "passes vid \<lparr>ps_vm = v, ps_pl = [], ps_pd = pd\<rparr> w \<lparr>ps_vm = v', ps_pl = pl', ps_pd = []\<rparr> w'"
  using assms by (simp add: passes_def pending_def due_def charged_def)

lemma moved_vm_sel:
  "(state (moved_vm m t v), lcm_state (moved_vm m t v)) = move_state m (state v) (lcm_state v)"
  "hids (moved_vm m t v) = hids v" "backup (moved_vm m t v) = backup v" "backupdisk (moved_vm m t v) = backupdisk v"
  "vm_oid (moved_vm m t v) = vm_oid v" "get_requirements (moved_vm m t v) = get_requirements v"
  by (auto simp: moved_vm_def move_state_def hids_def Let_def split: option.splits)

lemma moved_passes:
  assumes "vm_oid v = vid" "vm_locks w = {}" "names_for vid (lcm_q w) = []"
    "names_for vid q = []" "others vid q = others vid (dm_q w)"
    "move_ok (state v) (lcm_state v) (hids v) (backup v \<noteq> None) (backupdisk v \<noteq> None) pd m"
  shows "passes vid \<lparr>ps_vm = v, ps_pl = [], ps_pd = pd\<rparr> w
    \<lparr>ps_vm = moved_vm m (now w) v, ps_pl = mv_lcm m, ps_pd = []\<rparr> (moved m vid v s r (w\<lparr>dm_q := q\<rparr>))"
  using assms moved_vm_sel(1) [of m "now w" v, symmetric]
  by (intro quiet_passes) (simp_all add: moved_def Let_def moved_vm_sel(2-) move_ok_def vm_wf_def)

lemma dm_passes:
  assumes "system_ok w" "dm_q w = (n, vid) # q" "vms w vid = Some v" "dm_do_action n vid (w\<lparr>dm_q := q\<rparr>) = Done w'"
  obtains a p' where "pending vid w [] [a]" "passes vid \<lparr>ps_vm = v, ps_pl = [], ps_pd = [a]\<rparr> w p' w'"
proof -
  let ?w = "w\<lparr>dm_q := q\<rparr>"
  obtain pl pd where pp: "vm_oid v = vid" "vid \<notin> vm_locks w" "pending vid w pl pd" "vm_wf v pl pd"
    using system_okD [OF assms(1,3)] .
  obtain a where a: "pl = []" "pd = [a]" "state v = ACTIVE" "ends a (lcm_state v)" "n = dm_action_name a"
    "names_for vid q = []" "names_for vid (lcm_q w) = []"
    using pp(3,4) assms(2) by (auto simp: pending_def vm_wf_def phase_def split: list.splits)
  have ok: "move_ok (state v) (lcm_state v) (hids v) (backup v \<noteq> None) (backupdisk v \<noteq> None) [a]
      (dm_message_spec a (state v) (lcm_state v))" "\<not> dm_leaks a (lcm_state v)"
    using message_move_ok [OF a(4), of "hids v" "backup v \<noteq> None" "backupdisk v \<noteq> None"] pp(4) a(1,3)
    by (simp_all add: vm_wf_def)
  have "\<exists>s r. mv_ends (dm_message_spec a (state v) (lcm_state v)) \<longrightarrow> gives_back v ?w s r"
  proof (cases "a = DA_DONE")
    case True
    then show ?thesis using done_gives_back [of vid ?w w' v] assms(3,4) pp(2) a(3,4,5) by auto
  next
    case False
    then show ?thesis using a(4) by (cases a) (auto simp: move_defs)
  qed
  then obtain s r where sr: "mv_ends (dm_message_spec a (state v) (lcm_state v)) \<Longrightarrow> gives_back v ?w s r" by blast
  have "dm_do_action n vid ?w = Done (moved (dm_message_spec a (state v) (lcm_state v)) vid v s r ?w)"
    using dm_do_action_exact [of ?w vid v a s r] assms(3) pp(1,2) sr ok(2) a(5)
    by (simp add: dm_locks_def moved_def Let_def)
  then have "passes vid \<lparr>ps_vm = v, ps_pl = [], ps_pd = [a]\<rparr> w \<lparr>ps_vm = moved_vm (dm_message_spec a (state v)
      (lcm_state v)) (now w) v, ps_pl = mv_lcm (dm_message_spec a (state v) (lcm_state v)), ps_pd = []\<rparr> w'"
    using assms moved_passes [OF pp(1) _ a(7,6) _ ok(1), of s r] by (simp add: system_ok_def)
  from that [OF _ this] pp(3) a(1,2) show thesis by simp
qed

subsection \<open>A request\<close>

lemma quietD:
  assumes "system_ok w" "quiet vid w" "vms w vid = Some v"
  shows "pending vid w [] []" "vm_wf v [] []" "settled (state v) (lcm_state v)" "vm_oid v = vid" "vm_locks w = {}"
    "names_for vid (lcm_q w) = []" "names_for vid (dm_q w) = []"
  using system_okD [OF assms(1,3)] assms(1,2)
  by (auto simp: quiet_def pending_def vm_wf_def phase_def system_ok_def)

lemma vm_action_gives_back:
  assumes "vm_action junk action vid w = Done x" "vms w vid = Some v" "vid \<notin> vm_locks w"
  shows "\<exists>s r. mv_ends (dm_spec junk action (state v) (lcm_state v)) \<longrightarrow> gives_back v w s r"
proof (cases "action = ''finalize''")
  case True
  then show ?thesis using assms finalize_gives_back [of vid w x v] by (auto simp: vm_action_def dm_spec_def)
next
  case False
  have "\<not> mv_ends (resubmit_spec st)" for st by (cases st) (simp_all add: move_defs)
  then show ?thesis using False by (simp add: dm_spec_def) (simp add: move_defs)
qed

lemma request_passes:
  assumes "system_ok w" "quiet vid w" "vms w vid = Some v"
    "VirtualMachineAction uid allowed junk action vid w = Done (a, w')"
  shows "w' = w \<or> (\<exists>p'. passes vid \<lparr>ps_vm = v, ps_pl = [], ps_pd = []\<rparr> w p' w')"
proof (cases "vm_authorization uid allowed vid w = Done None")
  case True
  note q = quietD [OF assms(1-3)]
  obtain rc where rc: "vm_action junk action vid w = Done (rc, w')"
    using assms(4) True by (auto simp: VirtualMachineAction_def authorized_def bind_res_Done_iff)
  let ?m = "dm_spec junk action (state v) (lcm_state v)"
  obtain s r where sr: "mv_ends ?m \<Longrightarrow> gives_back v w s r"
    using vm_action_gives_back [OF rc assms(3)] q(5) by auto
  have ok: "move_ok (state v) (lcm_state v) (hids v) (backup v \<noteq> None) (backupdisk v \<noteq> None) [] ?m"
    using q(2,3) by (intro request_move_ok) (simp_all add: vm_wf_def)
  have "w' = moved ?m vid v s r w"
    using vm_action_exact [of w vid v junk action s r] assms(3) q(4,5) sr rc by (simp add: exact_def)
  then show ?thesis using moved_passes [OF q(4,5,6,7) refl ok, of s r] by auto
next
  case False
  then show ?thesis using assms(4)
    by (auto simp: VirtualMachineAction_def authorized_def bind_res_Done_iff split: option.splits)
qed

lemma same_world:
  assumes "vms w vid = Some v" "vm_locks w = {}" "vm_oid v = vid"
  shows "w\<lparr>vm_locks := insert vid {} - {vm_oid v}, vms := (vms w)(vid \<mapsto> v)\<rparr> = w"
  using assms by (intro one.equality) auto

lemma authorized_cases:
  assumes "authorized uid allowed vid act w = Done (a, w')"
  shows "w' = w \<or> act w = Done (a, w')"
  using assms by (auto simp: authorized_def bind_res_Done_iff split: option.splits)

lemma get_vm_answer:
  assumes "vms w vid = Some v" "vm_locks w = {}" "vm_oid v = vid"
  shows "get_vm vid (answer a) w = Done (a, w)"
  using same_world [OF assms] assms by (simp add: get_vm_def answer_def unlock_def)

lemma hids_upd [simp]:
  "hids (v\<lparr>state := a1\<rparr>) = hids v" "hids (v\<lparr>lcm_state := a2\<rparr>) = hids v" "hids (v\<lparr>backup := a3\<rparr>) = hids v"
  "hids (v\<lparr>backupdisk := a4\<rparr>) = hids v" "hids (v\<lparr>bakbid := a5\<rparr>) = hids v" "hids (v\<lparr>dkbid := a6\<rparr>) = hids v"
  "hids (v\<lparr>recover_dir := a7\<rparr>) = hids v" "hids (v\<lparr>updatebkstateoid := a8\<rparr>) = hids v"
  by (simp_all add: hids_def)

text \<open>The VM of a request for a host, and what the request leaves.\<close>

definition placed :: "string \<Rightarrow> int \<Rightarrow> host \<Rightarrow> vm \<Rightarrow> vm" where
  "placed vmdir h host = add_history h (hostname_of host) vmdir (vmm_mad_of host) (vnm_mad_of host) (tm_mad_of host)"

lemma placed_sel [simp]:
  "hids (placed vmdir h host v) = h # hids v" "vm_oid (placed vmdir h host v) = vm_oid v"
  "state (placed vmdir h host v) = state v" "lcm_state (placed vmdir h host v) = lcm_state v"
  "backup (placed vmdir h host v) = backup v" "backupdisk (placed vmdir h host v) = backupdisk v"
  "get_requirements (placed vmdir h host v) = get_requirements v"
  by (simp_all add: placed_def add_history_def hids_def Let_def)

lemma rm_add_history_ok:
  "db_ok w \<Longrightarrow> rm_add_history vmdir h host (v, w) = (let v' = placed vmdir h host v
     in Done (0, v', write_row v' (write_history (vm_oid v') (hist v') w)))"
  by (simp add: rm_add_history_def placed_def Let_def)

lemma rm_add_history_failed:
  "\<not> db_ok w \<Longrightarrow> rm_add_history vmdir h host (v, w) = Done (-1, placed vmdir h host v, w)"
  by (simp add: rm_add_history_def placed_def write_history_def Let_def split: option.split)

lemma deploy_passes:
  assumes "system_ok w" "quiet vid w" "vms w vid = Some v"
    "VirtualMachineDeploy uid allowed vmdir vid h w = Done (a, w')"
  shows "w' = w \<or> (\<exists>p'. passes vid \<lparr>ps_vm = v, ps_pl = [], ps_pd = []\<rparr> w p' w')"
proof (cases "w' = w")
  case False
  note q = quietD [OF assms(1-3)]
  obtain host where host: "hosts w h = Some host"
    and run: "get_vm vid (\<lambda>s. if state (fst s) \<noteq> PENDING then answer (Failure ACTION) s
       else dispatch_to vmdir h host dm_deploy vid s) w = Done (a, w')"
    using assms(4) False authorized_cases by (fastforce simp: VirtualMachineDeploy_def split: option.splits)
  have st: "state v = PENDING"
    using run False get_vm_answer [OF assms(3) q(5,4)] assms(3)
    by (auto simp: get_vm_def split: if_splits)
  let ?v = "placed vmdir h host v"
  show ?thesis
  proof (cases "db_ok w")
    case True
    have "vms w' = (vms w)(vid \<mapsto> ?v\<lparr>state := ACTIVE\<rparr>)" "hosts w' = hosts w" "dm_q w' = dm_q w" "vm_locks w' = {}"
      "lcm_q w' = lcm_q w @ map (\<lambda>a. (lcm_action_name a, vid)) [LA_DEPLOY]"
      using run assms(3) True q(4,5) st
      by (auto simp: get_vm_def dispatch_to_def rm_add_history_ok dm_deploy_def rc_branch_def exec_simps lcm_self_def
          answer_def Let_def)
    moreover have "vm_wf (?v\<lparr>state := ACTIVE\<rparr>) [LA_DEPLOY] []" using q(3) st by (simp add: vm_wf_def move_ok_simps)
    ultimately have "passes vid \<lparr>ps_vm = v, ps_pl = [], ps_pd = []\<rparr> w
        \<lparr>ps_vm = ?v\<lparr>state := ACTIVE\<rparr>, ps_pl = [LA_DEPLOY], ps_pd = []\<rparr> w'"
      using q st by (intro quiet_passes) (simp_all add: move_ok_simps)
    then show ?thesis by blast
  next
    case False
    have "vms w' = (vms w)(vid \<mapsto> ?v)" "hosts w' = hosts w" "dm_q w' = dm_q w" "vm_locks w' = {}" "lcm_q w' = lcm_q w"
      using run assms(3) False q(4,5) st
      by (auto simp: get_vm_def dispatch_to_def rm_add_history_failed exec_simps answer_def)
    moreover have "vm_wf ?v [] []" using q(2) st by (simp add: vm_wf_def move_ok_simps)
    ultimately have "passes vid \<lparr>ps_vm = v, ps_pl = [], ps_pd = []\<rparr> w \<lparr>ps_vm = ?v, ps_pl = [], ps_pd = []\<rparr> w'"
      using q st by (intro quiet_passes) (simp_all add: move_ok_simps)
    then show ?thesis by blast
  qed
qed blast

lemma migrate_passes:
  assumes "system_ok w" "quiet vid w" "vms w vid = Some v" "db_ok w"
    "VirtualMachineMigrate uid allowed vmdir vid h live w = Done (a, w')"
  shows "w' = w \<or> (\<exists>p'. passes vid \<lparr>ps_vm = v, ps_pl = [], ps_pd = []\<rparr> w p' w')"
proof (cases "w' = w")
  case False
  note q = quietD [OF assms(1-3)]
  obtain host where host: "hosts w h = Some host"
    and run: "get_vm vid (\<lambda>s. if state (fst s) \<noteq> ACTIVE \<or> lcm_state (fst s) \<noteq> RUNNING \<or>
          (case previous_hist (fst s) of None \<Rightarrow> False | Some p \<Rightarrow> reason p = R_NONE)
       then answer (Failure ACTION) s
       else dispatch_to vmdir h host (if live then dm_live_migrate else dm_migrate) vid s) w = Done (a, w')"
    using assms(5) False authorized_cases by (fastforce simp: VirtualMachineMigrate_def split: option.splits)
  have st: "state v = ACTIVE \<and> lcm_state v = RUNNING \<and>
      \<not> (case previous_hist v of None \<Rightarrow> False | Some p \<Rightarrow> reason p = R_NONE)"
    using run False get_vm_answer [OF assms(3) q(5,4)] assms(3)
    by (auto simp: get_vm_def split: if_splits)
  let ?v = "placed vmdir h host v" and ?a = "if live then LA_LIVE_MIGRATE else LA_MIGRATE"
  have "vms w' = (vms w)(vid \<mapsto> ?v)" "hosts w' = hosts w" "dm_q w' = dm_q w" "vm_locks w' = {}"
    "lcm_q w' = lcm_q w @ map (\<lambda>a. (lcm_action_name a, vid)) [?a]"
    using run assms(3,4) q(4,5) st
    by (cases live; auto simp: get_vm_def dispatch_to_def rm_add_history_ok dm_migrate_def dm_live_migrate_def rc_branch_def
        is_running_def exec_simps lcm_self_def answer_def Let_def)+
  moreover have "vm_wf ?v [?a] []" using q(2) st by (simp add: vm_wf_def move_ok_simps)
  ultimately have "passes vid \<lparr>ps_vm = v, ps_pl = [], ps_pd = []\<rparr> w \<lparr>ps_vm = ?v, ps_pl = [?a], ps_pd = []\<rparr> w'"
    using q st by (intro quiet_passes) (simp_all add: move_ok_simps)
  then show ?thesis by blast
qed blast

text \<open>A VM that keeps its records and is asked for an action other than a migration.\<close>

definition asks :: "vm \<Rightarrow> lcm_action list \<Rightarrow> bool" where
  "asks v pl \<longleftrightarrow> pl = [] \<or> (\<exists>a. pl = [a] \<and> awaits a (lcm_state v) \<and> a \<noteq> LA_MIGRATE \<and> a \<noteq> LA_LIVE_MIGRATE \<and>
     (a = LA_BACKUP \<longrightarrow> backup v \<noteq> None) \<and> (a = LA_BACKUPDISK \<longrightarrow> backupdisk v \<noteq> None))"

text \<open>The changes of state that no life-cycle action makes: a poll finds the VM running again, and two requests
  that a manager refuses.\<close>

definition soft_moves :: "(LcmState \<times> LcmState) set" where
  "soft_moves = {(UNKNOWN, RUNNING), (PROLOG_RECOVER_DECOMPRESS, PROLOG_RECOVER), (OFF_BACKUPDISK, RUNNING)}"

lemma soft_moves_iff [simp]:
  "(l, l') \<in> soft_moves \<longleftrightarrow> l = UNKNOWN \<and> l' = RUNNING \<or>
     l = PROLOG_RECOVER_DECOMPRESS \<and> l' = PROLOG_RECOVER \<or> l = OFF_BACKUPDISK \<and> l' = RUNNING"
  by (auto simp: soft_moves_def)

definition keeps_vm :: "vm \<Rightarrow> vm \<Rightarrow> bool" where
  "keeps_vm v v' \<longleftrightarrow> hids v' = hids v \<and> state v' = state v \<and> vm_oid v' = vm_oid v \<and>
     (lcm_state v' = lcm_state v \<or> (lcm_state v, lcm_state v') \<in> soft_moves) \<and>
     req_memory v' = req_memory v \<and> req_cpu v' = req_cpu v \<and>
     (backup v \<noteq> None \<longrightarrow> backup v' \<noteq> None) \<and> (backupdisk v \<noteq> None \<longrightarrow> backupdisk v' \<noteq> None)"

lemma records_ok_mono:
  assumes "records_ok st l hs [] bk dk" "l' = l \<or> (l, l') \<in> soft_moves" "\<not> is_migration pl"
    "pl = [LA_BACKUP] \<longrightarrow> bk'" "pl = [LA_BACKUPDISK] \<longrightarrow> dk'" "bk \<longrightarrow> bk'" "dk \<longrightarrow> dk'"
  shows "records_ok st l' hs pl bk' dk'"
  using assms by (auto simp: records_ok_def)

lemma asked_passes:
  assumes "system_ok w" "quiet vid w" "vms w vid = Some v" "state v = ACTIVE" "keeps_vm v v'" "asks v' pl"
    "vms w' = (vms w)(vid \<mapsto> v')" "hosts w' = hosts w" "dm_q w' = dm_q w" "vm_locks w' = {}"
    "lcm_q w' = lcm_q w @ map (\<lambda>a. (lcm_action_name a, vid)) pl"
  shows "\<exists>p'. passes vid \<lparr>ps_vm = v, ps_pl = [], ps_pd = []\<rparr> w p' w'"
proof -
  note q = quietD [OF assms(1-3)]
  have "phase ACTIVE (lcm_state v') pl []"
    using q(3) assms(4-6) by (auto simp: phase_def settled_def alive_def keeps_vm_def asks_def)
  moreover have "records_ok ACTIVE (lcm_state v') (hids v') pl (backup v' \<noteq> None) (backupdisk v' \<noteq> None)"
  proof (rule records_ok_mono)
    show "records_ok ACTIVE (lcm_state v) (hids v') [] (backup v \<noteq> None) (backupdisk v \<noteq> None)"
      using q(2) assms(4,5) by (simp add: vm_wf_def keeps_vm_def)
    show "\<not> is_migration pl" "pl = [LA_BACKUP] \<longrightarrow> backup v' \<noteq> None" "pl = [LA_BACKUPDISK] \<longrightarrow> backupdisk v' \<noteq> None"
      using assms(6) by (auto simp: asks_def is_migration_def)
  qed (use assms(5) in \<open>auto simp: keeps_vm_def\<close>)
  ultimately have wf: "vm_wf v' pl []" using assms(4,5) by (simp add: vm_wf_def keeps_vm_def)
  have cl: "claims (state v') (lcm_state v') (hids v') pl [] = claims (state v) (lcm_state v) (hids v) [] []"
  proof -
    have "\<not> is_migration pl" "\<not> is_migration []" using assms(6) by (auto simp: asks_def is_migration_def)
    moreover have "hids v' = hids v" "state v' = state v"
      "lcm_state v' = lcm_state v \<or> (lcm_state v, lcm_state v') \<in> soft_moves"
      using assms(5) by (simp_all add: keeps_vm_def)
    ultimately show ?thesis by (auto simp: claims_def)
  qed
  have "get_requirements v' = get_requirements v" "vm_oid v' = vid"
    using assms(5) q(4) get_requirements_cong [of v' v] by (simp_all add: keeps_vm_def)
  then have "passes vid \<lparr>ps_vm = v, ps_pl = [], ps_pd = []\<rparr> w \<lparr>ps_vm = v', ps_pl = pl, ps_pd = []\<rparr> w'"
    using q(6,7) assms(7-11) wf cl by (intro quiet_passes) simp_all
  then show ?thesis by blast
qed

lemma backup_passes:
  assumes "system_ok w" "quiet vid w" "vms w vid = Some v" "is_running (v, w)"
    "VirtualMachineBackup bkoid bkdir vid w = Done (a, w')"
  shows "\<exists>p'. passes vid \<lparr>ps_vm = v, ps_pl = [], ps_pd = []\<rparr> w p' w'"
proof -
  have act: "state v = ACTIVE" using assms(4) by (simp add: is_running_def)
  let ?v = "the (vms w' vid)"
  have v': "keeps_vm v ?v" "asks ?v [LA_BACKUP]" "vms w' = (vms w)(vid \<mapsto> ?v)" "hosts w' = hosts w"
    "dm_q w' = dm_q w" "vm_locks w' = {}" "lcm_q w' = lcm_q w @ map (\<lambda>a. (lcm_action_name a, vid)) [LA_BACKUP]"
    using assms(3-5) quietD(4,5) [OF assms(1-3)]
    by (auto simp: VirtualMachineBackup_def get_vm_def is_running_def exec_simps add_backup_def set_bkstime_def
        insert_backup_def dm_backup_def rc_branch_def lcm_self_def answer_def keeps_vm_def asks_def split: if_splits)
  show ?thesis by (rule asked_passes [OF assms(1-3) act v'])
qed

lemma backupdisk_passes:
  assumes "system_ok w" "quiet vid w" "vms w vid = Some v" "is_running (v, w)"
    "VirtualMachineBackupDisk dkoid vid dkname dkdir w = Done (a, w')"
  shows "\<exists>p'. passes vid \<lparr>ps_vm = v, ps_pl = [], ps_pd = []\<rparr> w p' w'"
proof -
  have act: "state v = ACTIVE" using assms(4) by (simp add: is_running_def)
  let ?v = "the (vms w' vid)"
  have v': "keeps_vm v ?v" "asks ?v [LA_BACKUPDISK]" "vms w' = (vms w)(vid \<mapsto> ?v)" "hosts w' = hosts w"
    "dm_q w' = dm_q w" "vm_locks w' = {}" "lcm_q w' = lcm_q w @ map (\<lambda>a. (lcm_action_name a, vid)) [LA_BACKUPDISK]"
    using assms(3-5) quietD(4,5) [OF assms(1-3)]
    by (auto simp: VirtualMachineBackupDisk_def get_vm_def is_running_def exec_simps add_backupdisk_def
        insert_backupdisk_def dm_backupdisk_def rc_branch_def lcm_self_def answer_def keeps_vm_def asks_def split: if_splits)
  show ?thesis by (rule asked_passes [OF assms(1-3) act v'])
qed

lemma recover_passes:
  assumes "system_ok w" "quiet vid w" "vms w vid = Some v" "is_running (v, w)"
    "VirtualMachineRecover vid bid w = Done (a, w')"
  shows "w' = w \<or> (\<exists>p'. passes vid \<lparr>ps_vm = v, ps_pl = [], ps_pd = []\<rparr> w p' w')"
proof (cases "bk_rows w bid = None")
  case False
  have act: "state v = ACTIVE" using assms(4) by (simp add: is_running_def)
  let ?v = "the (vms w' vid)"
  have v': "keeps_vm v ?v" "asks ?v [LA_RECOVER]" "vms w' = (vms w)(vid \<mapsto> ?v)" "hosts w' = hosts w"
    "dm_q w' = dm_q w" "vm_locks w' = {}" "lcm_q w' = lcm_q w @ map (\<lambda>a. (lcm_action_name a, vid)) [LA_RECOVER]"
    using assms(3-5) quietD(4,5) [OF assms(1-3)] False
    by (auto simp: VirtualMachineRecover_def get_vm_def is_running_def exec_simps dm_recover_def
        lcm_self_def answer_def keeps_vm_def asks_def split: if_splits)
  show ?thesis using asked_passes [OF assms(1-3) act v'] ..
qed (use assms(5) in \<open>simp add: VirtualMachineRecover_def\<close>)

subsection \<open>Answers of the drivers\<close>

definition answered :: "int \<Rightarrow> locked \<Rightarrow> locked res \<Rightarrow> bool" where
  "answered vid s r \<longleftrightarrow> (\<exists>v' w' pl. r = Done (v', w') \<and> keeps_vm (fst s) v' \<and> asks v' pl \<and> vms w' = vms (snd s) \<and>
     hosts w' = hosts (snd s) \<and> dm_q w' = dm_q (snd s) \<and> vm_locks w' = vm_locks (snd s) \<and>
     lcm_q w' = lcm_q (snd s) @ map (\<lambda>a. (lcm_action_name a, vid)) pl)"

lemma answered_passes:
  assumes "system_ok w" "quiet vid w" "vms w vid = Some v" "with_vm vid (branch ignoring [unlock] [f, unlock]) w = Done w'"
    "\<And>w. alive (lcm_state v) \<Longrightarrow> answered vid (v, w) (f (v, w))"
  shows "w' = w \<or> (\<exists>p'. passes vid \<lparr>ps_vm = v, ps_pl = [], ps_pd = []\<rparr> w p' w')"
proof (cases "alive (lcm_state v)")
  case True
  note q = quietD [OF assms(1-3)]
  have act: "state v = ACTIVE" using q(3) True by (auto simp: settled_def alive_def split: if_splits)
  let ?w = "w\<lparr>vm_locks := {vid}\<rparr>"
  obtain v' w1 pl where a: "f (v, ?w) = Done (v', w1)" "keeps_vm v v'" "asks v' pl" "vms w1 = vms w" "hosts w1 = hosts w"
    "dm_q w1 = dm_q w" "vm_locks w1 = {vid}" "lcm_q w1 = lcm_q w @ map (\<lambda>a. (lcm_action_name a, vid)) pl"
    using assms(5) [OF True, of ?w] by (auto simp: answered_def)
  have "vm_oid v' = vid" using a(2) q(4) by (simp add: keeps_vm_def)
  then have "w' = w1\<lparr>vm_locks := {}, vms := (vms w)(vid \<mapsto> v')\<rparr>"
    using assms(3,4) q(5) True a by (simp add: with_vm_def ignoring_def alive_def exec_simps)
  then show ?thesis using asked_passes [OF assms(1-3) act a(2,3), of w'] a(4-) by simp
next
  case False
  note q = quietD [OF assms(1-3)]
  have "w' = w" using assms(3,4) q(4,5) False same_world [OF assms(3) q(5,4)]
    by (auto simp: with_vm_def ignoring_def alive_def exec_simps)
  then show ?thesis ..
qed

lemma tm_answer_awaits:
  assumes "tm_answer success l = Some a"
  shows "awaits a l" "a \<notin> {LA_MIGRATE, LA_LIVE_MIGRATE, LA_BACKUP, LA_BACKUPDISK}"
  using assms by (cases l; auto simp: alive_def split: if_splits)+

definition same_but_asks :: "one \<Rightarrow> one \<Rightarrow> bool" where
  "same_but_asks w w' \<longleftrightarrow> vms w' = vms w \<and> hosts w' = hosts w \<and> dm_q w' = dm_q w \<and> vm_locks w' = vm_locks w"

lemma answered_none:
  "keeps_vm v v' \<Longrightarrow> same_but_asks w w' \<Longrightarrow> lcm_q w' = lcm_q w \<Longrightarrow> answered vid (v, w) (Done (v', w'))"
  unfolding answered_def by (intro exI [of _ v'] exI [of _ w'] exI [of _ "[]"]) (simp add: same_but_asks_def asks_def)

lemma answered_one:
  "keeps_vm v v' \<Longrightarrow> same_but_asks w w' \<Longrightarrow> lcm_q w' = lcm_q w @ [(lcm_action_name a, vid)] \<Longrightarrow> asks v' [a] \<Longrightarrow>
   answered vid (v, w) (Done (v', w'))"
  unfolding answered_def by (intro exI [of _ v'] exI [of _ w'] exI [of _ "[a]"]) (simp add: same_but_asks_def)

lemma keeps_vm_upd [simp]:
  "keeps_vm v v" "keeps_vm v (v\<lparr>attrs := x1\<rparr>)" "keeps_vm v (v\<lparr>deploy_id := x2, last_poll := x3\<rparr>)"
  by (simp_all add: keeps_vm_def hids_def)

lemma same_but_asks_simps [simp]:
  "same_but_asks w w" "same_but_asks w (write_row v w')  = same_but_asks w w'"
  "same_but_asks w (lcm_trigger a vid w') = same_but_asks w w'"
  by (simp_all add: same_but_asks_def)

lemma asks_one: "awaits a (lcm_state v) \<Longrightarrow> a \<notin> {LA_MIGRATE, LA_LIVE_MIGRATE, LA_BACKUP, LA_BACKUPDISK} \<Longrightarrow> asks v [a]"
  by (auto simp: asks_def)

text \<open>Leaving a message in the VM, and triggering an action.\<close>

lemma set_error_triggers:
  assumes "asks v [a]"
  shows "answered vid (v, w) (lcm a vid (v, w))" "answered vid (v, w) (steps [set_error msg info, update] (v, w))"
    "answered vid (v, w) (steps [set_error msg info, update, lcm a vid] (v, w))"
  using assms
  by (auto simp: exec_simps set_error_def asks_def intro: answered_none answered_one [where a = a])

lemma tm_passes:
  assumes "system_ok w" "quiet vid w" "vms w vid = Some v" "tm_protocol action success info vid w = Done w'"
  shows "w' = w \<or> (\<exists>p'. passes vid \<lparr>ps_vm = v, ps_pl = [], ps_pd = []\<rparr> w p' w')"
proof (rule answered_passes [OF assms(1-3) assms(4) [unfolded tm_protocol_def]])
  fix w assume "alive (lcm_state v)"
  show "answered vid (v, w) (branch (\<lambda>_. action = ''TRANSFER'') [tm_transfer success info vid] [] (v, w))"
  proof (cases "tm_answer success (lcm_state v)")
    case None
    then show ?thesis
      by (auto simp: tm_transfer_def tm_reply_def exec_simps set_error_def intro!: answered_none)
  next
    case (Some a)
    then have "asks (v\<lparr>attrs := x\<rparr>) [a]" "asks v [a]" for x
      using tm_answer_awaits [OF Some] by (simp_all add: asks_one)
    then show ?thesis using Some
      by (cases "action = ''TRANSFER''")
         (auto simp: tm_transfer_def tm_reply_def exec_simps set_error_def intro!: answered_one answered_none [of v v w w])
  qed
qed

text \<open>A virtual machine driver that answers what it was asked: while a VM is saved or moved live, no answer
  to a shutdown, a cancellation or a power off, and while it is saved, none to a deployment.\<close>

definition halt_actions :: "string set" where
  "halt_actions = {''SHUTDOWN'', ''CANCEL'', ''OFF''}"

definition start_actions :: "string set" where
  "start_actions = {''DEPLOY'', ''RESTORE'', ''MIGRATE''}"

definition plausible :: "string \<Rightarrow> LcmState \<Rightarrow> bool" where
  "plausible action l \<longleftrightarrow> (l = MIGRATE \<or> l = SAVE_MIGRATE \<longrightarrow> action \<notin> halt_actions) \<and>
     (l = SAVE_MIGRATE \<longrightarrow> action \<notin> start_actions)"

text \<open>Monitoring words that leave the requirements of the VM alone.\<close>

definition benign :: "string \<Rightarrow> bool" where
  "benign word \<longleftrightarrow> to_upper (takeWhile (\<lambda>c. c \<noteq> CHR ''='') word) \<notin> {''MEMORY'', ''CPU''}"

lemma keeps_vm_trans:
  "keeps_vm u v \<Longrightarrow> lcm_state v = lcm_state u \<Longrightarrow> keeps_vm v w \<Longrightarrow> keeps_vm u w"
  by (simp add: keeps_vm_def)

lemma replace_attribute_keeps:
  assumes "to_upper var \<notin> {''MEMORY'', ''CPU''}"
  shows "keeps_vm v (replace_attribute cents var val v)" "lcm_state (replace_attribute cents var val v) = lcm_state v"
proof -
  have "keeps_vm v (v\<lparr>disks := x1\<rparr>)" "keeps_vm v (v\<lparr>nics := x2\<rparr>)" "keeps_vm v (v\<lparr>raw_data := x3\<rparr>)"
    "keeps_vm v (v\<lparr>contexts := x4\<rparr>)" for x1 x2 x3 x4
    by (simp_all add: keeps_vm_def hids_def)
  then show "keeps_vm v (replace_attribute cents var val v)" "lcm_state (replace_attribute cents var val v) = lcm_state v"
    using assms unfolding replace_attribute_def Let_def by simp_all
qed

lemma poll_word_keeps:
  assumes "benign word"
  shows "keeps_vm v (snd (poll_word cents word (p, v))) \<and> lcm_state (snd (poll_word cents word (p, v))) = lcm_state v"
  using assms replace_attribute_keeps [of "takeWhile (\<lambda>c. c \<noteq> CHR ''='') word"]
  by (simp add: poll_word_def benign_def Let_def del: insert_iff)

lemma poll_words_keep:
  assumes "\<forall>word \<in> set ws. benign word"
  shows "keeps_vm v (snd (poll_words cents ws v)) \<and> lcm_state (snd (poll_words cents ws v)) = lcm_state v"
proof -
  have "keeps_vm v (snd (fold (poll_word cents) ws (p, v))) \<and> lcm_state (snd (fold (poll_word cents) ws (p, v))) = lcm_state v" for p
    using assms
  proof (induction ws arbitrary: p v)
    case (Cons word ws)
    obtain p' v' where w: "poll_word cents word (p, v) = (p', v')" by fastforce
    have "keeps_vm v v' \<and> lcm_state v' = lcm_state v"
      using poll_word_keeps [of word v cents p] Cons.prems w by simp
    then show ?case using Cons.IH [of v' p'] Cons.prems w keeps_vm_trans by auto
  qed simp
  then show ?thesis by (simp add: poll_words_def)
qed

lemma answered_from:
  assumes "keeps_vm v v1" "lcm_state v1 = lcm_state v" "answered vid (v1, w) r"
  shows "answered vid (v, w) r"
  using assms keeps_vm_trans unfolding answered_def by fastforce

lemma poll_state_answered: "answered vid (v, w) (steps [update, poll_state st vid] (v, w))"
proof (cases "lcm_state v = RUNNING \<or> lcm_state v = UNKNOWN")
  case True
  have run: "keeps_vm v (v\<lparr>lcm_state := RUNNING\<rparr>)" if "lcm_state v = UNKNOWN" using that by (simp add: keeps_vm_def)
  consider "st = CHR ''a''" | "st = CHR ''p''" | "st = CHR ''e''" | "st = CHR ''d''"
    | "st \<noteq> CHR ''a''" "st \<noteq> CHR ''p''" "st \<noteq> CHR ''e''" "st \<noteq> CHR ''d''" by blast
  then show ?thesis
  proof cases
    case 2
    then show ?thesis using True by (auto simp: poll_state_def exec_simps asks_def alive_def
      intro!: answered_one [where a = LA_MONITOR_SUSPEND])
  next
    case 3
    then show ?thesis using True by (auto simp: poll_state_def exec_simps asks_def alive_def
      intro!: answered_one [where a = LA_MONITOR_FAILURE])
  next
    case 4
    then show ?thesis using True by (auto simp: poll_state_def exec_simps asks_def alive_def
      intro!: answered_one [where a = LA_MONITOR_DONE])
  qed (use True run in \<open>auto simp: poll_state_def exec_simps intro!: answered_none\<close>)
qed (auto simp: poll_state_def exec_simps intro!: answered_none)

lemma poll_success_answered:
  assumes "\<forall>word \<in> set ws. benign word"
  shows "answered vid (v, w) (poll_success cents ws vid (v, w))"
proof -
  obtain p v1 where pv: "poll_words cents ws v = (p, v1)" by fastforce
  have k: "keeps_vm v v1" "lcm_state v1 = lcm_state v" using poll_words_keep [OF assms, of v cents] pv by simp_all
  have i: "keeps_vm v1 (update_info p v1)" "lcm_state (update_info p v1) = lcm_state v1"
    by (simp_all add: update_info_def keeps_vm_def hids_def)
  have "answered vid (v1, w) (steps [set_error ''Error parsing monitoring str'' ''parse'', update] (v1, w))"
    by (auto simp: exec_simps set_error_def intro!: answered_none)
  then have "answered vid (v1, w) (poll_success cents ws vid (v, w))"
    using answered_from [OF i poll_state_answered] by (simp add: poll_success_def pv)
  then show ?thesis by (rule answered_from [OF k])
qed

lemma vmm_result_answered:
  "asks v [if success then ok else err] \<Longrightarrow> answered vid (v, w) (vmm_result success ok err msg info vid (v, w))"
  using set_error_triggers [of v "if success then ok else err" vid w]
  by (cases success) (simp_all add: vmm_result_def exec_simps)

lemma answered_if:
  "(P \<Longrightarrow> answered vid s (f s)) \<Longrightarrow> (\<not> P \<Longrightarrow> answered vid s (g s)) \<Longrightarrow> answered vid s ((if P then f else g) s)"
  by simp

lemma vmm_action_answered:
  assumes "alive (lcm_state v)" "plausible action (lcm_state v)" "\<forall>word \<in> set ws. benign word"
  shows "answered vid (v, w) (vmm_action_of cents action success ws info vid (v, w))"
proof -
  have none: "answered vid (v, w) (steps [] (v, w))" by (auto simp: exec_simps intro!: answered_none)
  have err: "answered vid (v, w) (steps [set_error msg info, update] (v, w))" for msg
    by (auto simp: exec_simps set_error_def intro!: answered_none)
  have dep: "answered vid (v, w) (steps [(\<lambda>(v, w). Done (v\<lparr>deploy_id := d, last_poll := now w\<rparr>, w)),
      update, lcm LA_DEPLOY_SUCCESS vid] (v, w))" if "lcm_state v \<noteq> SAVE_MIGRATE" for d
    using that assms(1) by (auto simp: exec_simps asks_def intro!: answered_one [where a = LA_DEPLOY_SUCCESS])
  have fl: "answered vid (v, w) (steps [set_error msg info, update, lcm LA_DEPLOY_FAILURE vid] (v, w))" for msg
    using assms(1) by (intro set_error_triggers) (simp add: asks_def)
  have halt: "asks v [a]" if "action \<in> halt_actions"
    "a \<in> {LA_SHUTDOWN_SUCCESS, LA_SHUTDOWN_FAILURE, LA_CANCEL_SUCCESS, LA_CANCEL_FAILURE, LA_OFF_SUCCESS}" for a
    using that assms(1,2) by (auto simp: plausible_def asks_def)
  have up: "lcm_state v \<noteq> SAVE_MIGRATE" "asks v [LA_DEPLOY_SUCCESS]" if "action \<in> start_actions"
    using that assms(1,2) by (auto simp: plausible_def asks_def)
  have rest: "asks v [a]" if "a \<in> {LA_SAVE_SUCCESS, LA_SAVE_FAILURE, LA_DEPLOY_FAILURE}" for a
    using that assms(1) by (auto simp: asks_def)
  have names: "action = ''SHUTDOWN'' \<Longrightarrow> action \<in> halt_actions" "action = ''CANCEL'' \<Longrightarrow> action \<in> halt_actions"
    "action = ''OFF'' \<Longrightarrow> action \<in> halt_actions" "action = ''DEPLOY'' \<Longrightarrow> action \<in> start_actions"
    "action = ''RESTORE'' \<Longrightarrow> action \<in> start_actions" "action = ''MIGRATE'' \<Longrightarrow> action \<in> start_actions"
    by (simp_all add: halt_actions_def start_actions_def)
  have results: "action \<in> halt_actions \<Longrightarrow> answered vid (v, w) (vmm_result success LA_SHUTDOWN_SUCCESS LA_SHUTDOWN_FAILURE m info vid (v, w))"
    "action \<in> halt_actions \<Longrightarrow> answered vid (v, w) (vmm_result success LA_CANCEL_SUCCESS LA_CANCEL_FAILURE m info vid (v, w))"
    "action \<in> halt_actions \<Longrightarrow> answered vid (v, w) (vmm_result success LA_OFF_SUCCESS LA_CANCEL_FAILURE m info vid (v, w))"
    "answered vid (v, w) (vmm_result success LA_SAVE_SUCCESS LA_SAVE_FAILURE m info vid (v, w))"
    "action \<in> start_actions \<Longrightarrow> answered vid (v, w) (vmm_result success LA_DEPLOY_SUCCESS LA_DEPLOY_FAILURE m info vid (v, w))" for m
    using halt up rest by (cases success; intro vmm_result_answered; simp)+
  show ?thesis unfolding vmm_action_of_def
    by (intro answered_if; (rule results none err fl dep [OF up(1)] poll_success_answered [OF assms(3)], (erule names)?))
qed

lemma vmm_passes:
  assumes "system_ok w" "quiet vid w" "vms w vid = Some v" "plausible action (lcm_state v)"
    "\<forall>word \<in> set ws. benign word" "vmm_protocol cents action success ws info vid w = Done w'"
  shows "w' = w \<or> (\<exists>p'. passes vid \<lparr>ps_vm = v, ps_pl = [], ps_pd = []\<rparr> w p' w')"
  using vmm_action_answered [OF _ assms(4,5)]
  by (intro answered_passes [OF assms(1-3) assms(6) [unfolded vmm_protocol_def]]) blast

lemma quiet_keeps:
  assumes "system_ok w" "ledger base w" "quiet vid w" "vms w vid = None \<Longrightarrow> w' = w"
    "\<And>v. vms w vid = Some v \<Longrightarrow> w' = w \<or> (\<exists>p'. passes vid \<lparr>ps_vm = v, ps_pl = [], ps_pd = []\<rparr> w p' w')"
  shows "system_ok w' \<and> ledger base w'"
proof (cases "w' = w")
  case False
  then obtain v p' where v: "vms w vid = Some v" and p: "passes vid \<lparr>ps_vm = v, ps_pl = [], ps_pd = []\<rparr> w p' w'"
    using assms(4,5) by (cases "vms w vid") blast+
  from passes_keeps [OF assms(1,2) _ _ p] v quietD(1) [OF assms(1,3) v] show ?thesis by simp
qed (simp add: assms)

subsection \<open>Requests to the drivers\<close>

text \<open>The states in which the life-cycle manager leaves a VM whose request may come back as a failure.\<close>

fun tm_states :: "tm_action \<Rightarrow> LcmState set" where
  "tm_states TA_PROLOG = {PROLOG}"
| "tm_states TA_PROLOG_MIGR = {PROLOG_MIGRATE}"
| "tm_states TA_PROLOG_RESUME = {PROLOG_RESUME}"
| "tm_states TA_PROLOG_BACKUP = {PROLOG_BACKUP}"
| "tm_states TA_PROLOG_RECOVER = {PROLOG_RECOVER}"
| "tm_states TA_PROLOG_BACKUPDISK = {PROLOG_BACKUPDISK}"
| "tm_states TA_PROLOG_RECOVER_DECOMPRESS = {PROLOG_RECOVER_DECOMPRESS}"
| "tm_states TA_EPILOG = {EPILOG}"
| "tm_states TA_EPILOG_STOP = {EPILOG_STOP}"
| "tm_states _ = UNIV"

fun vmm_states :: "vmm_action \<Rightarrow> LcmState set" where
  "vmm_states VA_DEPLOY = {BOOT, PROLOG_BACKUPDISK}"
| "vmm_states VA_RESTORE = {BOOT}"
| "vmm_states VA_MIGRATE = {MIGRATE}"
| "vmm_states VA_SAVE = {SAVE_MIGRATE, SAVE_SUSPEND, SAVE_STOP}"
| "vmm_states VA_BACKUP = {OFF_BACKUP}"
| "vmm_states VA_RECOVER = {OFF_RECOVER}"
| "vmm_states VA_BACKUPDISK = {OFF_BACKUPDISK}"
| "vmm_states VA_SHUTDOWN = {SHUTDOWN}"
| "vmm_states VA_ON = {BOOT}"
| "vmm_states _ = UNIV"

text \<open>A manager takes a request that may come back while the VM is still in such a state and nothing else
  waits for it.\<close>

definition tm_timely :: "tm_action \<Rightarrow> int \<Rightarrow> one \<Rightarrow> bool" where
  "tm_timely a vid w \<longleftrightarrow> (tm_failure a \<noteq> [] \<longrightarrow> quiet vid w \<and>
     (\<forall>v. vms w vid = Some v \<longrightarrow> state v = ACTIVE \<and> lcm_state v \<in> tm_states a))"

definition vmm_timely :: "vmm_action \<Rightarrow> int \<Rightarrow> one \<Rightarrow> bool" where
  "vmm_timely a vid w \<longleftrightarrow> (\<forall>v. vms w vid = Some v \<longrightarrow> vmm_failure a (lcm_state v) \<noteq> [] \<or> a = VA_BACKUPDISK \<longrightarrow>
     quiet vid w \<and> state v = ACTIVE \<and> lcm_state v \<in> vmm_states a)"

lemma same_core:
  assumes "system_ok w" "ledger base w" "vms w' = vms w" "hosts w' = hosts w" "vm_locks w' = vm_locks w" "lcm_q w' = lcm_q w"
    "dm_q w' = dm_q w"
  shows "system_ok w' \<and> ledger base w'"
  using assms ledger_same [of base w w'] by (simp add: system_ok_def pending_def)

lemma manager_passes:
  assumes "system_ok w" "ledger base w" "quiet vid w" "vms w vid = Some v" "state v = ACTIVE" "keeps_vm v v'" "asks v' pl"
    "vms w' = (vms w)(vid \<mapsto> v')" "hosts w' = hosts w" "dm_q w' = dm_q w" "vm_locks w' = {}"
    "lcm_q w' = lcm_q w @ map (\<lambda>a. (lcm_action_name a, vid)) pl"
  shows "system_ok w' \<and> ledger base w'"
  by (rule quiet_keeps [OF assms(1-3)])
     (use assms(4) asked_passes [OF assms(1,3-12)] in auto)

lemma tm_no_vm:
  assumes "vms w vid = None"
  shows "tm_do_action env (tm_action_name a) vid (w, u) = Done (w', u') \<Longrightarrow> w' = w"
  using assms unfolding tm_dispatch
  by (cases a) (simp_all add: prolog_action_def prolog_migr_action_def prolog_resume_action_def epilog_stop_action_def
    epilog_action_def epilog_delete_action_def prolog_on_action_def prolog_backup_action_def prolog_backupdisk_action_def
    prolog_recover_action_def epilog_decompress_action_def delete_recover_fail_action_def
    recover_decompress_fail_action_def delete_backup_fail_action_def epilog_deletebak_action_def
    epilog_deletecps_action_def checkpoint_action_def tm_driver_cancel_action_def epilog_delete_previous_action_def
    with_vm_io_def)

lemma tm_other:
  assumes "vms w vid = Some v" "vm_oid v = vid" "vid \<notin> vm_locks w" "\<not> transfers a"
    "tm_do_action env (tm_action_name a) vid (w, u) = Done (w', u')"
  shows "vms w' = vms w \<and> hosts w' = hosts w \<and> vm_locks w' = vm_locks w \<and> lcm_q w' = lcm_q w \<and> dm_q w' = dm_q w"
proof -
  have locks: "insert vid (vm_locks w) - {vid} = vm_locks w" using assms(3) by blast
  have upd: "(vms w)(vid \<mapsto> v) = vms w" using assms(1) by auto
  show ?thesis using assms(4,5) unfolding tm_dispatch transfers_def
    by (cases a) (auto simp: checkpoint_action_def tm_driver_cancel_action_def with_vm_io_some [OF assms(1,3)] daemon_def
      unlock_def assms(2) locks upd split: option.splits)
qed

lemma tm_takes:
  assumes "system_ok w" "ledger base w" "tm_timely a vid w"
    "tm_do_action env (tm_action_name a) vid (w\<lparr>tm_q := q\<rparr>, u) = Done (w', u')"
  shows "system_ok w' \<and> ledger base w'"
proof (cases "vms w vid")
  case None
  then have "w' = w\<lparr>tm_q := q\<rparr>" using tm_no_vm [OF _ assms(4)] by simp
  then show ?thesis by (intro same_core [OF assms(1,2)]) simp_all
next
  case (Some v)
  let ?w = "w\<lparr>tm_q := q\<rparr>"
  obtain pl pd where ok: "vm_oid v = vid" "vid \<notin> vm_locks w" "vm_wf v pl pd" using system_okD [OF assms(1) Some] .
  have vm: "vms ?w vid = Some v" "vm_oid v = vid" "vid \<notin> vm_locks ?w" using Some ok by simp_all
  show ?thesis
  proof (cases "transfers a")
    case False
    from tm_other [OF vm False assms(4)] show ?thesis by (intro same_core [OF assms(1,2)]) simp_all
  next
    case True
    have locks: "vm_locks w = {}" using assms(1) by (simp add: system_ok_def)
    have live: "state v = ACTIVE \<and> lcm_state v \<in> tm_states a \<and> quiet vid w" if "tm_failure a \<noteq> []"
      using assms(3) that Some by (simp add: tm_timely_def)
    have "tm_ready a v"
    proof -
      have "history_records v = [] \<longleftrightarrow> hids v = []" "tl (history_records v) = [] \<longleftrightarrow> tl (hids v) = []"
        by (simp_all add: hids_def map_tl [symmetric])
      then show ?thesis using ok(3) live
        by (cases "history_records v"; cases "tl (history_records v)")
           (auto simp: vm_wf_def records_ok_def tm_ready_def previous_hist_def)
    qed
    from tm_outcomes [OF vm this True, of env u] assms(4)
    have out: "tm_outcome env a vid v (?w, u) (w', u')" by auto
    let ?acc = "tm_accepts env a v ?w"
    show ?thesis
    proof (cases "tm_failure a = []")
      case True
      then have "tm_vm a ?acc v = v" "a \<noteq> TA_PROLOG_RECOVER" "(vms w)(vid \<mapsto> v) = vms w"
        using Some by (auto simp: tm_vm_def)
      then show ?thesis using out True
        by (intro same_core [OF assms(1,2)]) (simp_all add: tm_outcome_def split: if_splits)
    next
      case False
      note l = live [OF False]
      let ?pl = "if ?acc then [] else tm_failure a"
      have "keeps_vm v (tm_vm a ?acc v)" using l by (auto simp: tm_vm_def keeps_vm_def hids_def)
      moreover have "asks (tm_vm a ?acc v) ?pl"
        using l False by (cases a) (auto simp: asks_def tm_vm_def alive_def)
      ultimately show ?thesis using out l locks Some
        by (intro manager_passes [OF assms(1,2) _ Some, of "tm_vm a ?acc v" ?pl]) (auto simp: tm_outcome_def)
    qed
  qed
qed

lemma vmm_no_vm:
  assumes "vms w vid = None"
  shows "vmm_do_action env (vmm_action_name a) vid (w, u) = Done (w', u') \<Longrightarrow> w' = w"
  using assms unfolding vmm_dispatch
  by (cases a) (simp_all add: vmm_deploy_action_def vmm_on_action_def vmm_save_action_def vmm_backup_action_def
    vmm_recover_action_def vmm_backupdisk_action_def vmm_shutdown_action_def vmm_reboot_action_def
    vmm_cancel_action_def vmm_off_action_def vmm_migrate_action_def vmm_restore_action_def vmm_poll_action_def
    vmm_cancel_previous_action_def vmm_driver_cancel_action_def with_vm_io_def)

lemma vmm_other:
  assumes "vms w vid = Some v" "vm_oid v = vid" "vid \<notin> vm_locks w" "a \<notin> vmm_requests"
    "vmm_do_action env (vmm_action_name a) vid (w, u) = Done (w', u')"
  shows "vms w' = vms w \<and> hosts w' = hosts w \<and> vm_locks w' = vm_locks w \<and> lcm_q w' = lcm_q w \<and> dm_q w' = dm_q w"
proof -
  have locks: "insert vid (vm_locks w) - {vid} = vm_locks w" using assms(3) by blast
  have upd: "(vms w)(vid \<mapsto> v) = vms w" using assms(1) by auto
  show ?thesis using assms(4,5) unfolding vmm_dispatch vmm_requests_def
    by (cases a) (auto simp: vmm_cancel_previous_action_def vmm_driver_cancel_action_def with_vm_io_some [OF assms(1,3)]
      daemon_def unlock_def assms(2) locks upd split: option.splits)
qed

lemma vmm_takes:
  assumes "system_ok w" "ledger base w" "vmm_timely a vid w"
    "vmm_do_action env (vmm_action_name a) vid (w\<lparr>vmm_q := q\<rparr>, u) = Done (w', u')"
  shows "system_ok w' \<and> ledger base w'"
proof (cases "vms w vid")
  case None
  then have "w' = w\<lparr>vmm_q := q\<rparr>" using vmm_no_vm [OF _ assms(4)] by simp
  then show ?thesis by (intro same_core [OF assms(1,2)]) simp_all
next
  case (Some v)
  let ?w = "w\<lparr>vmm_q := q\<rparr>"
  obtain pl pd where ok: "vm_oid v = vid" "vid \<notin> vm_locks w" "vm_wf v pl pd" using system_okD [OF assms(1) Some] .
  have vm: "vms ?w vid = Some v" "vm_oid v = vid" "vid \<notin> vm_locks ?w" using Some ok by simp_all
  show ?thesis
  proof (cases "a \<in> vmm_requests")
    case False
    from vmm_other [OF vm False assms(4)] show ?thesis by (intro same_core [OF assms(1,2)]) simp_all
  next
    case True
    have locks: "vm_locks w = {}" using assms(1) by (simp add: system_ok_def)
    from vmm_outcomes [OF vm True, of env u] assms(4)
    have out: "vmm_outcome env a vid v (?w, u) (w', u')" by auto
    let ?acc = "vmm_accepted env a v ?w \<noteq> None"
    let ?pl = "if ?acc then [] else vmm_failure a (lcm_state v)"
    have lcm: "lcm_q w' = lcm_q w @ map (\<lambda>a. (lcm_action_name a, vid)) ?pl"
      using out by (cases "vmm_accepted env a v ?w") (auto simp: vmm_outcome_def)
    show ?thesis
    proof (cases "vmm_failure a (lcm_state v) \<noteq> [] \<or> a = VA_BACKUPDISK")
      case False
      then have "vmm_vm a ?acc v = v" "?pl = []" "(vms w)(vid \<mapsto> v) = vms w"
        using Some by (auto simp: vmm_vm_def)
      then show ?thesis using out lcm
        by (intro same_core [OF assms(1,2)]) (simp_all add: vmm_outcome_def)
    next
      case failing: True
      have l: "state v = ACTIVE \<and> lcm_state v \<in> vmm_states a \<and> quiet vid w"
        using assms(3) failing Some by (simp add: vmm_timely_def)
      have "keeps_vm v (vmm_vm a ?acc v)" using l by (auto simp: vmm_vm_def keeps_vm_def hids_def)
      moreover have "asks (vmm_vm a ?acc v) ?pl"
        using l by (cases a) (auto simp: asks_def vmm_vm_def alive_def)
      ultimately show ?thesis using out lcm l locks
        by (intro manager_passes [OF assms(1,2) _ Some, of "vmm_vm a ?acc v" ?pl]) (simp_all add: vmm_outcome_def)
    qed
  qed
qed

subsection \<open>The steps of the daemon\<close>

text \<open>The steps: a request, or the answer of a driver, about a VM; a manager taking the first message of its queue; the
  creation of a VM; a host that changes without its allocation; the clock and the database.  The code takes more steps than these.
  The conditions, none of which it checks, are:

  quiet: a request for a VM, or the answer of a driver about it, comes when no message of the life-cycle or the dispatch manager
  waits for the VM (outside of it a deletion races a failure, \<open>delete_races_failure\<close> in \<open>Breaches\<close>);

  the database writes the record when a migration is asked for (\<open>failed_migration_moves_vm\<close> otherwise);

  a recovery is asked for a VM that runs (\<open>recovered_vm_not_charged\<close> in \<open>Refusals\<close> otherwise);

  a change of the template leaves the MEMORY as it was (\<open>change_template_breaks_ledger\<close> otherwise) and throws no exception, after
  which the VM stays locked;

  a virtual machine driver answers what the VM waits for (\<open>plausible\<close>) and reports neither MEMORY nor CPU among its monitoring
  values (\<open>benign\<close>), for these would become requirements of the VM;

  a manager of drivers takes a request that may come back as a failure while the VM is still in the state in which it was sent
  and quiet (\<open>tm_timely\<close>, \<open>vmm_timely\<close>).\<close>

text \<open>A VM as it is created, and two shares with the same allocation: a host that is monitored, enabled or disabled keeps it.\<close>

definition newborn :: "vm \<Rightarrow> bool" where
  "newborn v \<longleftrightarrow> state v \<in> {PENDING, HOLD} \<and> lcm_state v = LCM_INIT \<and> history_records v = []"

definition same_usage :: "host_share \<Rightarrow> host_share \<Rightarrow> bool" where
  "same_usage x y \<longleftrightarrow> cpu_usage x = cpu_usage y \<and> mem_usage x = mem_usage y \<and> running_vms x = running_vms y"

inductive sys_step :: "one \<Rightarrow> one \<Rightarrow> bool" where
  Request: "quiet vid w \<Longrightarrow> VirtualMachineAction uid allowed junk action vid w = Done (a, w') \<Longrightarrow> sys_step w w'"
| Deploy: "quiet vid w \<Longrightarrow> VirtualMachineDeploy uid allowed vmdir vid h w = Done (a, w') \<Longrightarrow> sys_step w w'"
| Migrate: "quiet vid w \<Longrightarrow> db_ok w \<Longrightarrow> VirtualMachineMigrate uid allowed vmdir vid h live w = Done (a, w') \<Longrightarrow>
    sys_step w w'"
| Backup: "quiet vid w \<Longrightarrow> VirtualMachineBackup bkoid bkdir vid w = Done (a, w') \<Longrightarrow> sys_step w w'"
| BackupDisk: "quiet vid w \<Longrightarrow> VirtualMachineBackupDisk dkoid vid dkname dkdir w = Done (a, w') \<Longrightarrow> sys_step w w'"
| Recover: "quiet vid w \<Longrightarrow> vms w vid = Some v \<Longrightarrow> is_running (v, w) \<Longrightarrow>
    VirtualMachineRecover vid bid w = Done (a, w') \<Longrightarrow> sys_step w w'"
| Lcm: "lcm_q w = (n, vid) # q \<Longrightarrow> lcm_do_action n vid (w\<lparr>lcm_q := q\<rparr>) = Done w' \<Longrightarrow> sys_step w w'"
| Dm: "dm_q w = (n, vid) # q \<Longrightarrow> dm_do_action n vid (w\<lparr>dm_q := q\<rparr>) = Done w' \<Longrightarrow> sys_step w w'"
| Tm: "quiet vid w \<Longrightarrow> tm_protocol action success info vid w = Done w' \<Longrightarrow> sys_step w w'"
| Vmm: "quiet vid w \<Longrightarrow> vms w vid = Some v \<Longrightarrow> plausible action (lcm_state v) \<Longrightarrow> \<forall>word \<in> set ws. benign word \<Longrightarrow>
    vmm_protocol cents action success ws info vid w = Done w' \<Longrightarrow> sys_step w w'"
| TmTake: "tm_q w = (a, vid) # q \<Longrightarrow> tm_timely a vid w \<Longrightarrow>
    tm_do_action env (tm_action_name a) vid (w\<lparr>tm_q := q\<rparr>, u) = Done (w', u') \<Longrightarrow> sys_step w w'"
| VmmTake: "vmm_q w = (b, vid) # q \<Longrightarrow> vmm_timely b vid w \<Longrightarrow>
    vmm_do_action venv (vmm_action_name b) vid (w\<lparr>vmm_q := q\<rparr>, u) = Done (w', u') \<Longrightarrow> sys_step w w'"
| World: "sys_step w (w\<lparr>now := t, db_ok := b\<rparr>)"
| ChangeTemplate: "\<forall>v. vms w vid = Some v \<longrightarrow> req_memory (set_memory memory v) = req_memory v \<Longrightarrow>
    VirtualMachineChangeTemplate vid vcpu memory w = Done (a, w') \<Longrightarrow> a \<noteq> Thrown \<Longrightarrow> sys_step w w'"
| Create: "vms w (vm_oid v) = None \<Longrightarrow> newborn v \<Longrightarrow> sys_step w (w\<lparr>vms := (vms w)(vm_oid v \<mapsto> v)\<rparr>)"
| Hosts: "\<forall>h x. hs h = Some x \<longrightarrow> (\<exists>y. hosts w h = Some y \<and> same_usage (host_share x) (host_share y)) \<Longrightarrow>
    sys_step w (w\<lparr>hosts := hs\<rparr>)"

text \<open>A request or an answer for a VM that is not in the pool changes nothing.\<close>

lemma no_vm_same:
  assumes "vms w vid = None"
  shows "VirtualMachineAction uid allowed junk action vid w = Done (a, w') \<Longrightarrow> w' = w"
    "VirtualMachineDeploy uid allowed vmdir vid h w = Done (a, w') \<Longrightarrow> w' = w"
    "VirtualMachineMigrate uid allowed vmdir vid h live w = Done (a, w') \<Longrightarrow> w' = w"
    "VirtualMachineBackup bkoid bkdir vid w = Done (a, w') \<Longrightarrow> w' = w"
    "VirtualMachineBackupDisk dkoid vid dkname dkdir w = Done (a, w') \<Longrightarrow> w' = w"
    "tm_protocol action success info vid w = Done w' \<Longrightarrow> w' = w"
proof -
  show "VirtualMachineAction uid allowed junk action vid w = Done (a, w') \<Longrightarrow> w' = w"
  proof -
    have "vm_action junk action vid w = Done (rc, w2) \<Longrightarrow> w2 = w" for rc w2
      unfolding vm_action_def dm_shutdown_def dm_hold_def dm_release_def dm_stop_def dm_cancel_def dm_off_def dm_on_def
        dm_suspend_def dm_resume_def dm_restart_def dm_finalize_def dm_resubmit_def dm_reboot_def with_vm_rc_def
      by (simp only: assms option.case) (simp split: if_splits)
    then show "VirtualMachineAction uid allowed junk action vid w = Done (a, w') \<Longrightarrow> w' = w"
      using authorized_cases by (fastforce simp: VirtualMachineAction_def bind_res_Done_iff)
  qed
  show "VirtualMachineDeploy uid allowed vmdir vid h w = Done (a, w') \<Longrightarrow> w' = w"
    "VirtualMachineMigrate uid allowed vmdir vid h live w = Done (a, w') \<Longrightarrow> w' = w"
    using assms authorized_cases
    by (fastforce simp: VirtualMachineDeploy_def VirtualMachineMigrate_def get_vm_def split: option.splits)+
qed (use assms in \<open>simp_all add: VirtualMachineBackup_def VirtualMachineBackupDisk_def get_vm_def tm_protocol_def with_vm_def\<close>)

lemma backup_refused:
  assumes "system_ok w" "quiet vid w" "vms w vid = Some v" "\<not> is_running (v, w)"
  shows "VirtualMachineBackup bkoid bkdir vid w = Done (Failure ACTION, w)"
    "VirtualMachineBackupDisk dkoid vid dkname dkdir w = Done (Failure ACTION, w)"
  using get_vm_answer [OF assms(3) quietD(5,4) [OF assms(1-3)], of "Failure ACTION"] assms(3,4) quietD(5) [OF assms(1-3)]
  by (simp_all add: VirtualMachineBackup_def VirtualMachineBackupDisk_def get_vm_def is_running_def)

lemma backup_step:
  assumes "system_ok w" "quiet vid w" "vms w vid = Some v"
  shows "VirtualMachineBackup bkoid bkdir vid w = Done (a, w') \<Longrightarrow>
      w' = w \<or> (\<exists>p'. passes vid \<lparr>ps_vm = v, ps_pl = [], ps_pd = []\<rparr> w p' w')"
    "VirtualMachineBackupDisk dkoid vid dkname dkdir w = Done (a, w') \<Longrightarrow>
      w' = w \<or> (\<exists>p'. passes vid \<lparr>ps_vm = v, ps_pl = [], ps_pd = []\<rparr> w p' w')"
  using backup_passes [OF assms] backupdisk_passes [OF assms] backup_refused [OF assms]
  by (cases "is_running (v, w)", simp_all)+

lemma change_template_keeps:
  assumes "\<forall>v. vms w vid = Some v \<longrightarrow> req_memory (set_memory memory v) = req_memory v"
    "VirtualMachineChangeTemplate vid vcpu memory w = Done (a, w')" "a \<noteq> Thrown" "system_ok w" "ledger base w"
  shows "system_ok w' \<and> ledger base w'"
proof (cases "w' = w")
  case False
  obtain v where v: "vms w vid = Some v" using assms(2) False
    by (cases "vms w vid") (auto simp: VirtualMachineChangeTemplate_def get_vm_def)
  obtain pl pd where pp: "vm_oid v = vid" "vid \<notin> vm_locks w" "pending vid w pl pd" "vm_wf v pl pd"
    using system_okD [OF assms(4) v] .
  have locks: "vm_locks w = {}" using assms(4) by (simp add: system_ok_def)
  note same = same_world [OF v locks pp(1)] get_vm_answer [OF v locks pp(1)]
  have off: "state v = ACTIVE \<and> lcm_state v = OFF"
    using assms(2) False same v pp(1) locks
    by (auto simp: VirtualMachineChangeTemplate_def get_vm_def split: if_splits)
  let ?out = "\<lambda>u. w\<lparr>vms := (vms w)(vid \<mapsto> set_memory memory u)\<rparr>"
  have l: "w\<lparr>vm_locks := {}, vms := x\<rparr> = w\<lparr>vms := x\<rparr>" for x using locks by simp
  have "(\<exists>r. w' = ?out (v\<lparr>raw_data := r\<rparr>)) \<or> (\<exists>m. w' = ?out (v\<lparr>attrs := m\<rparr>))"
    using assms(2,3) off v pp(1) locks
    by (auto simp: VirtualMachineChangeTemplate_def get_vm_def answer_def exec_simps set_memory_def l
        split: if_splits option.splits)
  moreover have "get_requirements (set_memory memory (v\<lparr>raw_data := r\<rparr>)) = get_requirements v"
    "get_requirements (set_memory memory (v\<lparr>attrs := m\<rparr>)) = get_requirements v" for r m
    using assms(1) v by (intro get_requirements_cong; simp add: set_memory_def split: if_splits)+
  ultimately obtain v' where v': "w' = w\<lparr>vms := (vms w)(vid \<mapsto> v')\<rparr>" "state v' = state v" "lcm_state v' = lcm_state v"
    "hids v' = hids v" "backup v' = backup v" "backupdisk v' = backupdisk v" "vm_oid v' = vid" "get_requirements v' = get_requirements v"
    using pp(1) by (elim disjE exE) (simp_all add: set_memory_def hids_def)
  have "passes vid \<lparr>ps_vm = v, ps_pl = pl, ps_pd = pd\<rparr> w \<lparr>ps_vm = v', ps_pl = pl, ps_pd = pd\<rparr> w'"
    using pp(3,4) v' locks by (simp add: passes_def due_def vm_wf_def pending_def)
  from passes_keeps [OF assms(4,5) _ _ this] v pp(3) show ?thesis by simp
qed (simp add: assms)

lemma create_keeps:
  assumes "vms w (vm_oid v) = None" "newborn v" "system_ok w" "ledger base w"
  shows "system_ok (w\<lparr>vms := (vms w)(vm_oid v \<mapsto> v)\<rparr>) \<and> ledger base (w\<lparr>vms := (vms w)(vm_oid v \<mapsto> v)\<rparr>)"
proof
  let ?w = "w\<lparr>vms := (vms w)(vm_oid v \<mapsto> v)\<rparr>"
  have d: "snd ` set (lcm_q w) \<subseteq> dom (vms w)" "snd ` set (dm_q w) \<subseteq> dom (vms w)" "vm_locks w = {}"
    using assms(3) by (simp_all add: system_ok_def)
  then have "names_for (vm_oid v) (lcm_q w) = []" "names_for (vm_oid v) (dm_q w) = []"
    using assms(1) by (force simp: names_for_def filter_empty_conv)+
  then have "pending (vm_oid v) ?w [] []" by (simp add: pending_def)
  moreover have "vm_wf v [] []" using assms(2) by (auto simp: newborn_def vm_wf_def hids_def move_ok_simps)
  ultimately have new: "\<exists>pl pd. pending (vm_oid v) ?w pl pd \<and> vm_wf v pl pd" by blast
  have "vm_oid u = vid \<and> (\<exists>pl pd. pending vid ?w pl pd \<and> vm_wf u pl pd)" if "vms ?w vid = Some u" for vid u
  proof (cases "vid = vm_oid v")
    case False
    then have "vms w vid = Some u" using that by simp
    from system_okD [OF assms(3) this] obtain pl pd where "vm_oid u = vid" "pending vid w pl pd" "vm_wf u pl pd" .
    moreover from this(2) have "pending vid ?w pl pd" by (simp add: pending_def)
    ultimately show ?thesis by blast
  qed (use that new in simp)
  moreover have "snd ` set (lcm_q ?w) \<subseteq> dom (vms ?w)" "snd ` set (dm_q ?w) \<subseteq> dom (vms ?w)" "vm_locks ?w = {}"
    using d by auto
  ultimately show "system_ok ?w" unfolding system_ok_def by blast
  have "owed (vm_oid v) ?w h = 0" for h using assms(2) by (auto simp: owed_def vm_claims_def newborn_def)
  moreover have "owed u ?w h = owed u w h" if "u \<noteq> vm_oid v" for u h using that by (intro owed_cong) auto
  then have "(\<Sum>u \<in> dom (vms w). owed u ?w h * f (get_requirements (the (vms ?w u)))) = load f w h" for f h
    using assms(1) by (auto simp: load_def intro!: sum.cong)
  moreover have "finite (dom (vms w))" "vm_oid v \<notin> dom (vms w)" "dom (vms ?w) = insert (vm_oid v) (dom (vms w))"
    using assms(1,4) by (auto simp: ledger_def)
  ultimately have "load f ?w h = load f w h" for f h unfolding load_def [of f ?w h] using assms(1) by (simp del: dom_fun_upd)
  then show "ledger base ?w" using assms(4) by (simp add: ledger_def)
qed

lemma hosts_keep:
  assumes "\<forall>h x. hs h = Some x \<longrightarrow> (\<exists>y. hosts w h = Some y \<and> same_usage (host_share x) (host_share y))" "system_ok w" "ledger base w"
  shows "system_ok (w\<lparr>hosts := hs\<rparr>) \<and> ledger base (w\<lparr>hosts := hs\<rparr>)"
proof -
  have "owed u (w\<lparr>hosts := hs\<rparr>) h = owed u w h" for u h by (rule owed_cong) simp_all
  then have "load f (w\<lparr>hosts := hs\<rparr>) h = load f w h" for f h by (simp add: load_def)
  then show ?thesis using assms by (fastforce simp: ledger_def same_usage_def system_ok_def pending_def)
qed

lemma sys_step_keeps:
  assumes "sys_step w w'" "system_ok w" "ledger base w"
  shows "system_ok w' \<and> ledger base w'"
  using assms
proof (induction rule: sys_step.induct)
  case c: (Request vid w uid allowed junk action a w')
  show ?case by (rule quiet_keeps [OF c(3,4,1) no_vm_same(1) [OF _ c(2)] request_passes [OF c(3,1) _ c(2)]])
next
  case c: (Deploy vid w uid allowed vmdir h a w')
  show ?case by (rule quiet_keeps [OF c(3,4,1) no_vm_same(2) [OF _ c(2)] deploy_passes [OF c(3,1) _ c(2)]])
next
  case c: (Migrate vid w uid allowed vmdir h live a w')
  show ?case by (rule quiet_keeps [OF c(4,5,1) no_vm_same(3) [OF _ c(3)] migrate_passes [OF c(4,1) _ c(2,3)]])
next
  case c: (Backup vid w bkoid bkdir a w')
  show ?case
    by (rule quiet_keeps [OF c(3,4,1) no_vm_same(4) [OF _ c(2)] backup_step(1) [OF c(3,1) _ c(2)]])
next
  case c: (BackupDisk vid w dkoid dkname dkdir a w')
  show ?case
    by (rule quiet_keeps [OF c(3,4,1) no_vm_same(5) [OF _ c(2)] backup_step(2) [OF c(3,1) _ c(2)]])
next
  case c: (Recover vid w v bid a w')
  show ?case by (rule quiet_keeps [OF c(5,6,1)]) (use c(2) recover_passes [OF c(5,1,2,3,4)] in simp_all)
next
  case c: (Lcm w n vid q w')
  obtain v where v: "vms w vid = Some v" using c(1,3) by (auto simp: system_ok_def)
  obtain a p' where a: "pending vid w [a] []" and p: "passes vid \<lparr>ps_vm = v, ps_pl = [a], ps_pd = []\<rparr> w p' w'"
    using lcm_passes [OF c(3,1) v] c(2) by (metis res.inject)
  from passes_keeps [OF c(3,4) _ _ p] v a show ?case by simp
next
  case c: (Dm w n vid q w')
  obtain v where v: "vms w vid = Some v" using c(1,3) by (auto simp: system_ok_def)
  obtain a p' where a: "pending vid w [] [a]" and p: "passes vid \<lparr>ps_vm = v, ps_pl = [], ps_pd = [a]\<rparr> w p' w'"
    using dm_passes [OF c(3,1) v c(2)] .
  from passes_keeps [OF c(3,4) _ _ p] v a show ?case by simp
next
  case c: (Tm vid w action success info w')
  show ?case by (rule quiet_keeps [OF c(3,4,1) no_vm_same(6) [OF _ c(2)] tm_passes [OF c(3,1) _ c(2)]])
next
  case c: (Vmm vid w v action ws cents success info w')
  show ?case by (rule quiet_keeps [OF c(6,7,1)]) (use c(2) vmm_passes [OF c(6,1,2,3,4,5)] in simp_all)
next
  case c: (TmTake w a vid q env u w' u')
  show ?case by (rule tm_takes [OF c(4,5,2,3)])
next
  case c: (VmmTake w b vid q venv u w' u')
  show ?case by (rule vmm_takes [OF c(4,5,2,3)])
next
  case c: (World w b t)
  then show ?case using ledger_same [of base w "w\<lparr>now := t, db_ok := b\<rparr>"]
    by (simp add: system_ok_def pending_def)
next
  case c: (ChangeTemplate w vid memory vcpu a w')
  show ?case by (rule change_template_keeps [OF c])
next
  case c: (Create w v)
  show ?case by (rule create_keeps [OF c])
next
  case c: (Hosts hs w)
  show ?case by (rule hosts_keep [OF c])
qed

lemma sys_steps_keep:
  assumes "sys_step\<^sup>*\<^sup>* w w'" "system_ok w" "ledger base w"
  shows "system_ok w' \<and> ledger base w'"
  using assms by (induction rule: rtranclp_induct) (auto dest: sys_step_keeps)

subsection \<open>Properties\<close>

text \<open>C1. The capacity ledger.  Along every run of \<open>sys_step\<close> what a host shows as allocated is what it showed at the start
  plus, for each VM, its requirements once for each of the VM's claims on the host: one while it is placed there, two hosts
  while it migrates, none before its deployment and after its end.  No VM stays locked between two steps.  The users may ask
  for anything, the managers take their messages in any order, drivers succeed or fail; the runs are those with the conditions
  listed at \<open>sys_step\<close>, which the code does not check: requests and answers for a VM come when no message waits for it,
  migrations are written to the database, recoveries are asked for running VMs, changes of a template keep the MEMORY and throw
  nothing, virtual machine drivers answer what was asked and report no MEMORY or CPU, and a request that a driver may
  refuse is taken in time.  Outside of them the ledger can break (\<open>Breaches\<close>, \<open>Refusals\<close>).\<close>

theorem capacity_ledger:
  assumes "sys_step\<^sup>*\<^sup>* w w'" "system_ok w" "ledger base w"
  shows "ledger base w' \<and> vm_locks w' = {}"
  using sys_steps_keep [OF assms] by (simp add: system_ok_def)

definition base_sample :: "int \<Rightarrow> host_share" where
  "base_sample h = new_share 0 4194304 400"

lemma sample_system_ok:
  "system_ok (one_at RUNNING [record_a])" "ledger base_sample (one_at RUNNING [record_a])"
proof -
  have "pending 7 (one_at RUNNING [record_a]) [] []" by (simp add: pending_def one_at_def)
  moreover have "vm_wf (vm_at RUNNING [record_a]) [] []"
    by (simp add: vm_wf_def move_ok_simps hids_def samples)
  ultimately show "system_ok (one_at RUNNING [record_a])"
    by (auto simp: system_ok_def one_at_def vm_at_def)
  have "owed 7 (one_at RUNNING [record_a]) h = (if h = 1 then 1 else 0)" for h
    by (simp add: owed_def vm_claims_def hids_def samples new_history_def)
  then show "ledger base_sample (one_at RUNNING [record_a])"
    by (simp add: ledger_def load_def base_sample_def new_share_def samples get_requirements_def in_kb_exact)
qed

theorem capacity_ledger_witness:
  "\<exists>w'. sys_step\<^sup>*\<^sup>* (one_at RUNNING [record_a]) w' \<and> names_for 7 (lcm_q w') = [''SUSPEND''] \<and> ledger base_sample w'"
proof -
  let ?w = "one_at RUNNING [record_a]"
  have run: "VirtualMachineAction 3 True 0 ''suspend'' 7 ?w = Done (Success 7, ?w\<lparr>lcm_q := [(''SUSPEND'', 7)]\<rparr>)"
    by (simp add: VirtualMachineAction_def authorized_def vm_authorization_def vm_action_def dm_suspend_def with_vm_rc_def
        rc_branch_def is_running_def exec_simps action_response_def lcm_trigger_def one_at_def vm_at_def)
  have "quiet 7 ?w" by (simp add: quiet_def one_at_def)
  then have "sys_step ?w (?w\<lparr>lcm_q := [(''SUSPEND'', 7)]\<rparr>)" by (rule sys_step.Request [OF _ run])
  then have "sys_step\<^sup>*\<^sup>* ?w (?w\<lparr>lcm_q := [(''SUSPEND'', 7)]\<rparr>)" by blast
  from this capacity_ledger [OF this sample_system_ok] show ?thesis
    by (intro exI [of _ "?w\<lparr>lcm_q := [(''SUSPEND'', 7)]\<rparr>"]) simp
qed

text \<open>C3. Along the runs of \<open>sys_step\<close>, with the conditions listed there, the capacity that is taken comes back: once no VM
  is active any more, every host shows the CPU, the memory and the number of running VMs it would show had there been no VM.
  In a run outside these conditions capacity is released twice (\<open>delete_races_failure\<close>) or stays taken.\<close>

theorem capacity_returns:
  assumes "sys_step\<^sup>*\<^sup>* w w'" "system_ok w" "ledger base w" "\<And>vid v. vms w' vid = Some v \<Longrightarrow> state v \<noteq> ACTIVE"
    "hosts w' h = Some x"
  shows "cpu_usage (host_share x) = cpu_usage (base h) \<and> mem_usage (host_share x) = mem_usage (base h) \<and>
    running_vms (host_share x) = running_vms (base h)"
proof -
  have "owed vid w' h = 0" for vid
    using assms(4) [of vid] by (simp add: owed_def vm_claims_def Let_def split: option.split)
  then have "load f w' h = 0" for f by (simp add: load_def)
  then show ?thesis using sys_steps_keep [OF assms(1-3)] assms(5) by (auto simp: ledger_def)
qed

definition stopping :: one where
  "stopping = (one_at EPILOG_STOP [record_a])\<lparr>lcm_q := [(''EPILOG_SUCCESS'', 7)]\<rparr>"

lemma stopping_system_ok: "system_ok stopping" "ledger base_sample stopping"
proof -
  have "pending 7 stopping [LA_EPILOG_SUCCESS] []" by (simp add: pending_def stopping_def one_at_def)
  moreover have "vm_wf (vm_at EPILOG_STOP [record_a]) [LA_EPILOG_SUCCESS] []"
    by (simp add: vm_wf_def move_ok_simps hids_def samples)
  ultimately show "system_ok stopping"
    by (auto simp: system_ok_def one_at_def vm_at_def stopping_def)
  have "owed 7 stopping h = (if h = 1 then 1 else 0)" for h
    by (simp add: owed_def vm_claims_def hids_def samples new_history_def stopping_def)
  then show "ledger base_sample stopping"
    by (simp add: ledger_def load_def base_sample_def new_share_def stopping_def samples get_requirements_def in_kb_exact)
qed

lemma stopping_runs:
  obtains w1 w2 where "sys_step stopping w1" "sys_step w1 w2" "dom (vms w2) = {7}" "state (the (vms w2 7)) = STOPPED"
    "\<exists>x. hosts w2 1 = Some x"
proof -
  let ?w = "stopping\<lparr>lcm_q := []\<rparr>"
  obtain w1 v1 where w1: "lcm_do_action (lcm_action_name LA_EPILOG_SUCCESS) 7 ?w = Done w1" "vms w1 7 = Some v1"
    "matches (lcm_spec (ctx_of (vm_at EPILOG_STOP [record_a]) ?w) LA_EPILOG_SUCCESS EPILOG_STOP) 7 (vm_at EPILOG_STOP [record_a]) ?w v1 w1"
    using lcm_do_action_refines [of ?w 7 "vm_at EPILOG_STOP [record_a]" LA_EPILOG_SUCCESS]
    by (auto simp: stopping_def one_at_def vm_at_def vm_ready_def)
  obtain v2 where v2: "vms w1 7 = Some v2" "vm_oid v2 = 7" "only_vm 7 ?w w1"
    using lcm_do_action_frame [OF w1(1), of "vm_at EPILOG_STOP [record_a]"] by (auto simp: stopping_def one_at_def vm_at_def)
  have s1: "sys_step stopping w1" using w1(1) by (intro sys_step.Lcm [where n = "''EPILOG_SUCCESS''" and vid = 7 and q = "[]"])
    (simp_all add: stopping_def)
  have q: "dm_q w1 = [(''STOP_SUCCESS'', 7)]" "state v1 = ACTIVE" "lcm_state v1 = EPILOG_STOP"
    using w1(3) by (simp_all add: matches_def eff_def dm_reqs_def stopping_def one_at_def vm_at_def)
  let ?w1 = "w1\<lparr>dm_q := []\<rparr>"
  let ?w2 = "moved (enter STOPPED LCM_INIT) 7 v1 (net_pool w1) (img_repo w1) ?w1"
  have l: "vm_locks w1 = {}" using only_vm_locks [OF v2(3)] by (simp add: stopping_def one_at_def)
  have "dm_do_action (dm_action_name DA_STOP_SUCCESS) 7 ?w1 = Done (?w2\<lparr>vm_locks := vm_locks w1\<rparr>)"
    using dm_do_action_exact [of ?w1 7 v1 DA_STOP_SUCCESS] w1(2) v2(1,2) q l by (simp add: dm_locks_def move_defs)
  then have s2: "sys_step w1 (?w2\<lparr>vm_locks := vm_locks w1\<rparr>)" using q by (intro sys_step.Dm [where n = "''STOP_SUCCESS''"]) simp_all
  have "dom (vms w1) = {7}" using v2(1,3) by (auto simp: only_vm_def stopping_def one_at_def split: if_splits)
  moreover have "\<exists>x. hosts w1 1 = Some x"
    using w1(3) by (simp add: matches_def eff_def apply_caps_delta stopping_def one_at_def)
  ultimately show thesis using that [OF s1 s2] by (simp add: move_defs Let_def)
qed

theorem capacity_returns_witness:
  "\<exists>w' x. sys_step\<^sup>*\<^sup>* stopping w' \<and> hosts w' 1 = Some x \<and> cpu_usage (host_share x) = 0 \<and>
     mem_usage (host_share x) = 0 \<and> running_vms (host_share x) = 0"
proof -
  obtain w1 w2 where w: "sys_step stopping w1" "sys_step w1 w2" "dom (vms w2) = {7}" "state (the (vms w2 7)) = STOPPED"
    and "\<exists>x. hosts w2 1 = Some x" using stopping_runs by blast
  then obtain x where x: "hosts w2 1 = Some x" by blast
  have steps: "sys_step\<^sup>*\<^sup>* stopping w2" using w(1,2) by (meson converse_rtranclp_into_rtranclp rtranclp.rtrancl_refl)
  have "state v \<noteq> ACTIVE" if "vms w2 vid = Some v" for vid v
  proof -
    have "vid = 7" using that w(3) by blast
    then show ?thesis using that w(4) by auto
  qed
  from capacity_returns [OF steps stopping_system_ok this x] steps x show ?thesis
    by (auto simp: base_sample_def new_share_def)
qed

text \<open>C11. In every state that a run of \<open>sys_step\<close> reaches, with the conditions listed there, the life-cycle manager takes
  its first message and returns: the message does not crash the daemon, and the mutex of the VM is free.  Outside of them a mutex
  can stay taken for ever: after the race of \<open>delete_races_failure\<close>, or after an exception in a change of the template.\<close>

theorem lcm_always_returns:
  assumes "sys_step\<^sup>*\<^sup>* w w'" "system_ok w" "ledger base w" "lcm_q w' = (n, vid) # q"
  shows "\<exists>w''. lcm_do_action n vid (w'\<lparr>lcm_q := q\<rparr>) = Done w''"
proof -
  have ok: "system_ok w'" using sys_steps_keep [OF assms(1-3)] by blast
  then obtain v where "vms w' vid = Some v" using assms(4) by (auto simp: system_ok_def)
  from lcm_passes [OF ok assms(4) this] show ?thesis by blast
qed

theorem lcm_always_returns_witness:
  "\<exists>w''. lcm_do_action ''EPILOG_SUCCESS'' 7 (stopping\<lparr>lcm_q := []\<rparr>) = Done w''"
  by (rule lcm_always_returns [OF _ stopping_system_ok]) (simp_all add: stopping_def)

end
