(* ===== verification/Breaches.thy ===== *)
theory Breaches
  imports System
begin

text \<open>
  Runs outside the conditions of \<open>sys_step\<close>: a change of the memory, a migration that is not written, and a deletion while a
  message waits for the VM.  The ledger, correct before, is wrong after.
\<close>

text \<open>\<open>one.vm.changetemplate\<close> changes the MEMORY of a VM that is powered off, while its host is charged for
  the old value: what the host shows no longer is what its VMs require, and the later release takes the new value.\<close>

theorem change_template_breaks_ledger:
  "\<exists>w'. ledger base_sample (one_at OFF [record_a]) \<and>
     VirtualMachineChangeTemplate 7 ''2'' ''1024'' (one_at OFF [record_a]) = Done (Success 7, w') \<and>
     \<not> ledger base_sample w'"
proof -
  let ?w = "one_at OFF [record_a]"
  let ?v = "(vm_at OFF [record_a])\<lparr>attrs := [''VCPU'' \<mapsto> ''2''], req_memory := 1024\<rparr>"
  have o: "owed 7 (?w\<lparr>vms := [7 \<mapsto> u]\<rparr>) 1 = 1" if "state u = ACTIVE" "lcm_state u = OFF" "hids u = [1]" for u
    using that by (simp add: owed_def vm_claims_def one_at_def)
  have "ledger base_sample ?w"
  proof -
    have "owed 7 ?w h = (if h = 1 then 1 else 0)" for h
      by (simp add: owed_def vm_claims_def hids_def samples new_history_def)
    then show ?thesis
      by (simp add: ledger_def load_def base_sample_def new_share_def samples get_requirements_def in_kb_exact)
  qed
  moreover have "fst (extract_int 512 (istr ''1024'')) = 1024" by code_simp
  then have "VirtualMachineChangeTemplate 7 ''2'' ''1024'' ?w = Done (Success 7, ?w\<lparr>vms := [7 \<mapsto> ?v]\<rparr>)"
    by (simp add: VirtualMachineChangeTemplate_def get_vm_def answer_def exec_simps set_memory_def samples)
  moreover have "\<not> ledger base_sample (?w\<lparr>vms := [7 \<mapsto> ?v]\<rparr>)"
    using o [of ?v] by (auto simp: ledger_def load_def base_sample_def new_share_def get_requirements_def in_kb_exact samples
      hids_def new_history_def)
  ultimately show ?thesis by blast
qed

text \<open>A failed database write in \<open>one.vm.migrate\<close> leaves the new host on top of the VM's history although the
  request is refused: from then on the VM is taken for one of the new host, which was never charged.\<close>

theorem failed_migration_moves_vm:
  "\<exists>w' v'. ledger base_sample (one_at RUNNING [record_a]) \<and>
     VirtualMachineMigrate 0 True ''/srv'' 7 2 False ((one_at RUNNING [record_a])\<lparr>db_ok := False\<rparr>) = Done (Failure INTERNAL, w') \<and>
     vms w' 7 = Some v' \<and> hids v' = [2, 1] \<and> lcm_q w' = [] \<and> \<not> ledger base_sample w'"
proof -
  let ?w = "(one_at RUNNING [record_a])\<lparr>db_ok := False\<rparr>" and ?v = "placed ''/srv'' 2 host_b (vm_at RUNNING [record_a])"
  have m: "VirtualMachineMigrate 0 True ''/srv'' 7 2 False ?w = Done (Failure INTERNAL, ?w\<lparr>vms := [7 \<mapsto> ?v]\<rparr>)"
    by (simp add: VirtualMachineMigrate_def authorized_def vm_authorization_def get_vm_def dispatch_to_def
        rm_add_history_def answer_def exec_simps previous_hist_def placed_def write_history_def one_at_def
        vm_at_def add_history_def hist_def)
  have h: "hids ?v = [2, 1]" 
    by (simp only: placed_sel) (simp add: hids_def vm_at_def record_a_def)
  have o: "owed 7 (?w\<lparr>vms := [7 \<mapsto> ?v]\<rparr>) 1 = 0"
    using h by (simp add: owed_def vm_claims_def one_at_def) (simp add: vm_at_def)
  have "\<not> ledger base_sample (?w\<lparr>vms := [7 \<mapsto> ?v]\<rparr>)"
  proof
    assume l: "ledger base_sample (?w\<lparr>vms := [7 \<mapsto> ?v]\<rparr>)"
    have "load fst (?w\<lparr>vms := [7 \<mapsto> ?v]\<rparr>) 1 = 0" using o by (simp add: load_def)
    with ledgerD(1) [OF l, of 1 host_a] show False
      by (simp add: base_sample_def new_share_def one_at_def host_a_def)
  qed
  with m h sample_system_ok(2) show ?thesis
    by (intro exI [of _ "?w\<lparr>vms := [7 \<mapsto> ?v]\<rparr>"] exI [of _ ?v]) (simp add: one_at_def)
qed

definition base_failing :: "int \<Rightarrow> host_share" where
  "base_failing h = (if h = 1 then host_share host_a else new_share 0 4194304 400)"

text \<open>C14. The race of a deletion with a failure, in any state of the daemon that keeps its invariants and the ledger.  A VM
  whose operation has failed waits for the dispatch manager with its capacity already released; a deletion asked for in
  between releases the capacity of its host a second time, so that the ledger no longer holds, and the message of the
  failure, taken after it, finds the VM in a state it does not expect and leaves it locked.\<close>

theorem delete_races_failure:
  assumes "system_ok w" "ledger base w" "vms w vid = Some v" "state v = ACTIVE" "lcm_state v = FAILURE"
    "lcm_q w = []" "dm_q w = [(''FAILED'', vid)]" "hist v = Some h" "hosts w (hid h) = Some x"
  shows "\<exists>w1 w2 w3. VirtualMachineAction uid True junk ''finalize'' vid w = Done (Success vid, w1) \<and> lcm_q w1 = [(''DELETE'', vid)] \<and>
     lcm_do_action ''DELETE'' vid (w1\<lparr>lcm_q := []\<rparr>) = Done w2 \<and>
     hosts w2 (hid h) = Some (shift_host (-1) (get_requirements v) x) \<and> \<not> ledger base w2 \<and>
     dm_q w2 = [(''FAILED'', vid), (''DONE'', vid)] \<and>
     dm_do_action ''FAILED'' vid (w2\<lparr>dm_q := [(''DONE'', vid)]\<rparr>) = Done w3 \<and> vm_locks w3 = {vid}"
proof -
  let ?w1 = "w\<lparr>lcm_q := [(''DELETE'', vid)]\<rparr>"
  obtain pl pd where ok: "vm_oid v = vid" "vid \<notin> vm_locks w" "pending vid w pl pd" "vm_wf v pl pd"
    using system_okD [OF assms(1,3)] .
  have locks: "vm_locks w = {}" using assms(1) by (simp add: system_ok_def)
  have same: "w\<lparr>vm_locks := {}\<rparr> = w" "w\<lparr>vms := (vms w)(vid \<mapsto> v)\<rparr> = w" "w\<lparr>lcm_q := []\<rparr> = w"
    using locks assms(3,6) by (cases w; auto simp: fun_eq_iff)+
  have r: "VirtualMachineAction uid True junk ''finalize'' vid w = Done (Success vid, ?w1)"
    using assms(3,4,6) ok(1) locks same
    by (simp add: VirtualMachineAction_def authorized_def vm_authorization_def vm_action_def dm_finalize_def with_vm_rc_def
        finalize_case_def exec_simps action_response_def lcm_trigger_def fun_upd_idem)
  have ready: "vm_ready v" using vm_wf_ready ok(4) assms(4) by blast
  obtain w2 v2 where d: "lcm_do_action (lcm_action_name LA_DELETE) vid w = Done w2" "vms w2 vid = Some v2"
    "matches (lcm_spec (ctx_of v w) LA_DELETE FAILURE) vid v w v2 w2"
    using lcm_do_action_refines [OF assms(3) ok(1,2) ready, of LA_DELETE] assms(5) by auto
  obtain v3 where "vms w2 vid = Some v3" and f: "vm_oid v3 = vid" "vm_frame v v3" "only_vm vid w w2"
    using lcm_do_action_frame [OF d(1) assms(3) ok(1)] by auto
  then have v3: "v3 = v2" using d(2) by simp
  have m: "dm_q w2 = [(''FAILED'', vid), (''DONE'', vid)]" "lcm_state v2 = CLEANUP" "state v2 = ACTIVE"
    "hosts w2 = apply_caps v [Release] (hosts w)" "lcm_q w2 = []"
    using d(3) assms(4,6,7) by (simp_all add: matches_def clean_spec_def eff_def dm_reqs_def)
  have h: "hosts w2 (hid h) = Some (shift_host (-1) (get_requirements v) x)"
    using assms(8,9) by (auto simp: m(4) apply_caps_delta hids_def hist_def split: list.splits)
  have "\<not> ledger base w2"
  proof
    assume l2: "ledger base w2"
    have vms2: "vms w2 = (vms w)(vid \<mapsto> v2)" using f(3) d(2) by (auto simp: only_vm_def)
    have "get_requirements v2 = get_requirements v"
      using f(2) by (intro get_requirements_cong) (simp_all add: v3 vm_frame_def)
    moreover have "owed u w2 k = owed u w k" if "u \<noteq> vid" for u k
      using that vms2 assms(6,7) m(1,5) by (intro owed_cong) auto
    moreover have "owed vid w2 k = 0" "owed vid w k = 0" for k
      using d(2) m(2) assms(3,5) by (simp_all add: owed_def vm_claims_def Let_def)
    moreover have "finite (dom (vms w))" using assms(2) by (simp add: ledger_def)
    ultimately have "load (\<lambda>_. 1) w2 (hid h) = load (\<lambda>_. 1) w (hid h)"
      using load_step [where f = "\<lambda>_. 1" and h = "hid h", OF _ assms(3) vms2] by simp
    then show False using ledgerD(2) [OF l2 h] ledgerD(2) [OF assms(2,9)]
      by (auto simp: shift_host_def shift_def split: prod.splits)
  qed
  moreover have "vm_locks w2 = {}" using only_vm_locks [OF f(3)] locks by simp
  then have "\<exists>w3. dm_do_action (dm_action_name DA_FAILED) vid (w2\<lparr>dm_q := [(''DONE'', vid)]\<rparr>) = Done w3 \<and> vm_locks w3 = {vid}"
    using dm_do_action_exact [of "w2\<lparr>dm_q := [(''DONE'', vid)]\<rparr>" vid v2 DA_FAILED "net_pool w2" "img_repo w2"] f(1) v3 d(2) m(2)
    by (simp add: move_def dm_locks_def)
  then obtain w3 where "dm_do_action (dm_action_name DA_FAILED) vid (w2\<lparr>dm_q := [(''DONE'', vid)]\<rparr>) = Done w3"
    "vm_locks w3 = {vid}" by blast
  moreover have "?w1\<lparr>lcm_q := []\<rparr> = w" using same(3) by simp
  ultimately show ?thesis using r d(1) m(1) h by (intro exI [of _ ?w1] exI [of _ w2] exI [of _ w3]) simp
qed

text \<open>Such a state is reached: the driver reports that the prolog of a VM failed, and the life-cycle manager takes the message.\<close>

lemma failing_reached:
  obtains w v h x where "sys_step\<^sup>*\<^sup>* (one_at PROLOG [record_a]) w" "system_ok w" "ledger base_sample w" "vms w 7 = Some v"
    "state v = ACTIVE" "lcm_state v = FAILURE" "lcm_q w = []" "dm_q w = [(''FAILED'', 7)]" "hist v = Some h" "hosts w (hid h) = Some x"
proof -
  let ?w = "one_at PROLOG [record_a]" and ?v = "vm_at PROLOG [record_a]"
  have "pending 7 ?w [] []" by (simp add: pending_def one_at_def)
  moreover have "vm_wf ?v [] []" by (simp add: vm_wf_def move_ok_simps hids_def samples)
  ultimately have ok: "system_ok ?w" by (auto simp: system_ok_def one_at_def vm_at_def)
  have "owed 7 ?w h = (if h = 1 then 1 else 0)" for h by (simp add: owed_def vm_claims_def hids_def samples new_history_def)
  then have l: "ledger base_sample ?w"
    by (simp add: ledger_def load_def base_sample_def new_share_def samples get_requirements_def in_kb_exact)
  let ?w1 = "?w\<lparr>lcm_q := [(''PROLOG_FAILURE'', 7)]\<rparr>"
  have p: "tm_protocol ''TRANSFER'' False [] 7 ?w = Done ?w1"
    by (simp add: tm_protocol_def with_vm_def exec_simps ignoring_def tm_transfer_def tm_reply_def one_at_def vm_at_def)
  obtain w1 v1 where w1: "tm_protocol ''TRANSFER'' False [] 7 ?w = Done w1" "lcm_q w1 = [(''PROLOG_FAILURE'', 7)]" "vms w1 7 = Some v1"
    "vm_oid v1 = 7" "state v1 = ACTIVE" "lcm_state v1 = PROLOG" "hids v1 = [1]" "vm_locks w1 = {}" "dm_q w1 = []" "hosts w1 1 = Some host_a"
    using that p by (simp add: one_at_def vm_at_def hids_def record_a_def)
  have s1: "sys_step ?w w1" by (rule sys_step.Tm [OF _ w1(1)]) (simp add: quiet_def one_at_def)
  have ok1: "system_ok w1" "ledger base_sample w1" using sys_step_keeps [OF s1 ok l] by simp_all
  obtain a w2 p2 where a: "''PROLOG_FAILURE'' = lcm_action_name a" "pending 7 w1 [a] []" 
    "lcm_do_action ''PROLOG_FAILURE'' 7 (w1\<lparr>lcm_q := []\<rparr>) = Done w2"
    using lcm_passes [OF ok1(1) w1(2,3)] by metis
  have "vm_ready v1" using vm_wf_ready system_okD [OF ok1(1) w1(3)] w1(5) by metis
  then obtain v2 where d: "vms w2 7 = Some v2"
    "matches (lcm_spec (ctx_of v1 (w1\<lparr>lcm_q := []\<rparr>)) LA_PROLOG_FAILURE PROLOG) 7 v1 (w1\<lparr>lcm_q := []\<rparr>) v2 w2"
    using lcm_do_action_refines [of "w1\<lparr>lcm_q := []\<rparr>" 7 v1 LA_PROLOG_FAILURE] w1(3-8) a(3) by auto
  have s2: "sys_step w1 w2" by (rule sys_step.Lcm [OF w1(2) a(3)])
  have ok2: "system_ok w2" "ledger base_sample w2" using sys_step_keeps [OF s2 ok1] by simp_all
  have m: "state v2 = ACTIVE" "lcm_state v2 = FAILURE" "hids v2 = [1]" "lcm_q w2 = []" "dm_q w2 = [(''FAILED'', 7)]"
    "hosts w2 = apply_caps v1 [Release] (hosts w1)"
    using d(2) w1(5,7,9) by (simp_all add: matches_def eff_def fails_def dm_reqs_def)
  obtain h where h: "hist v2 = Some h" "hid h = 1" using m(3) by (auto simp: hids_def hist_def split: list.splits)
  obtain x where "hosts w2 (hid h) = Some x" using h(2) w1(10) by (auto simp: m(6) apply_caps_delta)
  with that [OF _ ok2 d(1) m(1,2,4,5) h(1)] s1 s2 show thesis by (metis rtranclp.rtrancl_into_rtrancl rtranclp.rtrancl_refl)
qed

theorem delete_races_failure_witness:
  "\<exists>w w1 w2 w3. sys_step\<^sup>*\<^sup>* (one_at PROLOG [record_a]) w \<and> ledger base_sample w \<and>
     VirtualMachineAction 3 True 0 ''finalize'' 7 w = Done (Success 7, w1) \<and> lcm_q w1 = [(''DELETE'', 7)] \<and>
     lcm_do_action ''DELETE'' 7 (w1\<lparr>lcm_q := []\<rparr>) = Done w2 \<and> \<not> ledger base_sample w2 \<and>
     dm_do_action ''FAILED'' 7 (w2\<lparr>dm_q := [(''DONE'', 7)]\<rparr>) = Done w3 \<and> vm_locks w3 = {7}"
proof -
  obtain w v h x where w: "sys_step\<^sup>*\<^sup>* (one_at PROLOG [record_a]) w" "system_ok w" "ledger base_sample w" "vms w 7 = Some v"
    "state v = ACTIVE" "lcm_state v = FAILURE" "lcm_q w = []" "dm_q w = [(''FAILED'', 7)]" "hist v = Some h" "hosts w (hid h) = Some x"
    by (rule failing_reached)
  show ?thesis using w(1,3) delete_races_failure [OF w(2-10), of 3 0] by blast
qed

end
