(* ===== verification/Refusals.thy ===== *)
theory Refusals
  imports Breaches
begin

text \<open>
  The managers together, when a driver cannot take a request: the failure comes back to the life-cycle manager
  and takes the VM out of the state it waits in, except for the requests whose failure nobody reports, which leave the VM
  there for ever.  And a recovery of a failed VM, which nobody charges.
\<close>

subsection \<open>Requests are sent in the states that wait for them\<close>

lemma clean_requests_silent:
  "To_tm r \<in> set (clean_requests l) \<Longrightarrow> tm_failure r = []"
  "To_vmm b \<in> set (clean_requests l) \<Longrightarrow> b \<in> {VA_DRIVER_CANCEL, VA_CANCEL, VA_CANCEL_PREVIOUS}"
  by (cases l; auto)+

lemma spec_requests:
  assumes "To_tm r \<in> set (e_reqs (lcm_spec c a l))" "tm_failure r \<noteq> []"
  shows "e_state (lcm_spec c a l) \<in> tm_states r"
  using assms clean_requests_silent(1) [of r l]
  by (cases a) (auto simp: ledger_simps redeploy_state_def split: if_splits)

lemma spec_vmm_requests:
  assumes "To_vmm b \<in> set (e_reqs (lcm_spec c a l))" "vmm_failure b (e_state (lcm_spec c a l)) \<noteq> [] \<or> b = VA_BACKUPDISK"
  shows "e_state (lcm_spec c a l) \<in> vmm_states b"
  using assms clean_requests_silent(2) [of b l]
  by (cases a) (auto simp: ledger_simps redeploy_state_def split: if_splits)

text \<open>C24. The interface of the managers.  When a handler of the life-cycle manager has asked another manager for
  something that may be refused, the VM is in a state that expects the answer: the requests it adds to the two queues are
  about its own VM, and each that can come back as a failure is sent in one of the states listed for it.\<close>

theorem requests_sent_when_awaited:
  assumes "vms w vid = Some v" "vm_oid v = vid" "vid \<notin> vm_locks w" "vm_ready v"
  shows "\<exists>w' v' ts bs. lcm_do_action (lcm_action_name a) vid w = Done w' \<and> vms w' vid = Some v' \<and>
    tm_q w' = tm_q w @ map (\<lambda>r. (r, vid)) ts \<and> vmm_q w' = vmm_q w @ map (\<lambda>b. (b, vid)) bs \<and>
    (\<forall>r \<in> set ts. tm_failure r \<noteq> [] \<longrightarrow> lcm_state v' \<in> tm_states r) \<and>
    (\<forall>b \<in> set bs. vmm_failure b (lcm_state v') \<noteq> [] \<or> b = VA_BACKUPDISK \<longrightarrow> lcm_state v' \<in> vmm_states b)"
proof -
  let ?e = "lcm_spec (ctx_of v w) a (lcm_state v)"
  obtain w' v' where m: "lcm_do_action (lcm_action_name a) vid w = Done w'" "vms w' vid = Some v'" "matches ?e vid v w v' w'"
    using lcm_do_action_refines [OF assms] by blast
  have "r \<in> set (tm_reqs (e_reqs ?e)) \<Longrightarrow> To_tm r \<in> set (e_reqs ?e)" "b \<in> set (vmm_reqs (e_reqs ?e)) \<Longrightarrow> To_vmm b \<in> set (e_reqs ?e)"
    for r b by (auto simp: tm_reqs_def vmm_reqs_def split: request.splits)
  moreover have "tm_q w' = tm_q w @ map (\<lambda>r. (r, vid)) (tm_reqs (e_reqs ?e))" "lcm_state v' = e_state ?e"
    "vmm_q w' = vmm_q w @ map (\<lambda>b. (b, vid)) (vmm_reqs (e_reqs ?e))" using m(3) by (simp_all add: matches_def)
  ultimately show ?thesis using m(1,2) spec_requests spec_vmm_requests
    by (intro exI [of _ w'] exI [of _ v'] exI [of _ "tm_reqs (e_reqs ?e)"] exI [of _ "vmm_reqs (e_reqs ?e)"]) auto
qed

theorem requests_sent_when_awaited_witness:
  "\<exists>w' v'. lcm_do_action ''SUSPEND'' 7 (one_at RUNNING [record_a]) = Done w' \<and> vms w' 7 = Some v' \<and>
     (\<forall>b \<in> fst ` set (vmm_q w'). vmm_failure b (lcm_state v') \<noteq> [] \<longrightarrow> lcm_state v' \<in> vmm_states b)"
  using requests_sent_when_awaited [of "one_at RUNNING [record_a]" 7 "vm_at RUNNING [record_a]" LA_SUSPEND]
  by (force simp: one_at_def vm_at_def vm_ready_def)

subsection \<open>A refusal is acted on\<close>

text \<open>The failure takes the VM out of the state in which it waits.\<close>

lemma failure_moves_on:
  assumes "f \<in> set (tm_failure a)" "l \<in> tm_states a" "a \<noteq> TA_PROLOG_BACKUPDISK"
  shows "e_state (lcm_spec c f l) \<noteq> l"
  using assms by (cases a) (auto simp: ledger_simps)

lemma tm_failure_one: "tm_failure a \<noteq> [] \<Longrightarrow> \<exists>f. tm_failure a = [f]"
  by (cases a) auto

text \<open>C25. What becomes of a VM whose transfer cannot be started, because the driver is not loaded, the script cannot be
  written or a disk has no source.  A request with a failure in the table \<open>tm_failure\<close> leaves one message, which the life-cycle
  manager takes and returns from with no mutex left locked, and the VM leaves the state in which it waited for the transfer, or, for
  the backup of a disk, is deployed again.  Every other request is dropped without a message, and the VM stays as it is.\<close>

theorem refused_transfer_moves_on:
  assumes "vms w vid = Some v" "vm_oid v = vid" "vm_locks w = {}" "vm_ready v" "tm_ready a v" "lcm_state v \<in> tm_states a"
    "transfers a" "\<not> tm_accepts env a v w" "lcm_q w = []"
  shows "\<exists>w1 u1. tm_do_action env (tm_action_name a) vid (w, u) = Done (w1, u1) \<and> piped u1 = piped u \<and>
    (if tm_failure a = []
     then vms w1 vid = Some v \<and> lcm_q w1 = [] \<and> dm_q w1 = dm_q w \<and> tm_q w1 = tm_q w \<and> vmm_q w1 = vmm_q w
     else \<exists>n w2 v2. lcm_q w1 = [(n, vid)] \<and> lcm_do_action n vid (w1\<lparr>lcm_q := []\<rparr>) = Done w2 \<and> vms w2 vid = Some v2 \<and>
       vm_locks w2 = {} \<and> (lcm_state v2 \<noteq> lcm_state v \<or> a = TA_PROLOG_BACKUPDISK \<and> vmm_q w2 = vmm_q w @ [(VA_DEPLOY, vid)]))"
proof -
  from tm_outcomes [OF assms(1,2) _ assms(5,7), of env u] assms(3)
  obtain w1 u1 where t: "tm_do_action env (tm_action_name a) vid (w, u) = Done (w1, u1)" and o: "tm_outcome env a vid v (w, u) (w1, u1)"
    by auto
  show ?thesis
  proof (cases "tm_failure a = []")
    case True
    then have "tm_vm a False v = v" by (auto simp: tm_vm_def)
    then show ?thesis using t o assms(8,9) True by (intro exI [of _ w1] exI [of _ u1]) (simp add: tm_outcome_def)
  next
    case False
    obtain f where f: "tm_failure a = [f]" using tm_failure_one False by blast
    let ?v = "tm_vm a False v" and ?w = "w1\<lparr>lcm_q := []\<rparr>"
    have w1: "vms w1 vid = Some ?v" "vm_locks w1 = {}" "lcm_q w1 = [(lcm_action_name f, vid)]" "vm_oid ?v = vid"
      "vmm_q w1 = vmm_q w" "piped u1 = piped u"
      using o assms(2,3,8,9) f by (simp_all add: tm_outcome_def tm_vm_def)
    have ready: "vm_ready ?v" using assms(4) by (simp add: tm_vm_def vm_ready_def previous_hist_def)
    obtain w2 v2 where d: "lcm_do_action (lcm_action_name f) vid ?w = Done w2" "vms w2 vid = Some v2"
      "matches (lcm_spec (ctx_of ?v ?w) f (lcm_state ?v)) vid ?v ?w v2 w2"
      using lcm_do_action_refines [of ?w vid ?v f] w1 ready by auto
    have "vm_locks w2 = {}" using lcm_do_action_frame [OF d(1), of ?v] only_vm_locks [of vid ?w w2] w1 by auto
    moreover have "lcm_state v2 \<noteq> lcm_state v \<or> a = TA_PROLOG_BACKUPDISK \<and> vmm_q w2 = vmm_q w @ [(VA_DEPLOY, vid)]"
    proof -
      consider (decompress) "a = TA_PROLOG_RECOVER_DECOMPRESS" | (disk) "a = TA_PROLOG_BACKUPDISK"
        | (other) "a \<noteq> TA_PROLOG_RECOVER_DECOMPRESS" "a \<noteq> TA_PROLOG_BACKUPDISK" by blast
      then show ?thesis
      proof cases
        case decompress
        then show ?thesis using d(3) f assms(6) by (simp add: matches_def tm_vm_def eff_def)
      next
        case disk
        then have "?v = v" "f = LA_PROLOG_FAILURE" "lcm_state v = PROLOG_BACKUPDISK" using f assms(6) by (simp_all add: tm_vm_def)
        then show ?thesis using d(3) disk w1(5) by (auto simp: matches_def eff_def vmm_reqs_def split: if_splits)
      next
        case other
        then have "?v = v" by (simp add: tm_vm_def)
        then show ?thesis using d(3) failure_moves_on [of f a "lcm_state v"] f assms(6) other by (simp add: matches_def)
      qed
    qed
    ultimately have "\<exists>n w2 v2. lcm_q w1 = [(n, vid)] \<and> lcm_do_action n vid (w1\<lparr>lcm_q := []\<rparr>) = Done w2 \<and> vms w2 vid = Some v2 \<and>
       vm_locks w2 = {} \<and> (lcm_state v2 \<noteq> lcm_state v \<or> a = TA_PROLOG_BACKUPDISK \<and> vmm_q w2 = vmm_q w @ [(VA_DEPLOY, vid)])"
      using w1(3) d(1,2) by blast
    then show ?thesis using t w1(6) False by (intro exI [of _ w1] exI [of _ u1]) simp
  qed
qed

theorem refused_transfer_moves_on_witness:
  "\<exists>w1 u1 n w2 v2. tm_do_action (env_with False) ''PROLOG'' 7 (one_disks PROLOG, new_io) = Done (w1, u1) \<and> lcm_q w1 = [(n, 7)] \<and>
     lcm_do_action n 7 (w1\<lparr>lcm_q := []\<rparr>) = Done w2 \<and> vms w2 7 = Some v2 \<and> lcm_state v2 \<noteq> PROLOG \<and> vm_locks w2 = {}"
proof -
  have "lcm_state (vm_disks PROLOG) = PROLOG" "vm_ready (vm_disks PROLOG)"
    by (simp_all add: vm_disks_def vm_ready_def vm_at_def)
  then show ?thesis
    using refused_transfer_moves_on [of "one_disks PROLOG" 7 "vm_disks PROLOG" TA_PROLOG "env_with False" new_io] one_disks_accepts(3)
    by (simp add: tm_ready_def transfers_def) blast
qed

subsection \<open>Requests whose refusal nobody reports\<close>

definition bk_sample :: backup where
  "bk_sample = \<lparr>bk_oid = 5, bk_vid = 7, bk_dir = ''/bk'', bk_state = BK_START_BACKUP, bk_stime = 90, bk_etime = 0\<rparr>"

definition backing :: one where
  "backing = (one_at PROLOG_BACKUP [record_a])\<lparr>vms := [7 \<mapsto> (vm_at PROLOG_BACKUP [record_a])\<lparr>backup := Some bk_sample\<rparr>]\<rparr>"

lemma refused_env [simp]: "\<not> tm_accepts (env_with False) a v w"
  by (simp add: tm_accepts_def env_with_def)

text \<open>A refused backup strands the VM.  Without a transfer driver the failure of the prolog sends the VM to
  DELETE_BACKUP_FAIL with a request to delete what was copied; that request is refused too, without a message, and the
  VM, which has been turned off for the backup, stays there: it is active, and nothing is queued for any manager.\<close>

theorem refused_backup_strands_vm:
  "\<exists>w1 u1 w2 w3 u3 v3. tm_do_action (env_with False) ''PROLOG_BACKUP'' 7 (backing, new_io) = Done (w1, u1) \<and>
     lcm_q w1 = [(''PROLOG_FAILURE'', 7)] \<and> lcm_do_action ''PROLOG_FAILURE'' 7 (w1\<lparr>lcm_q := []\<rparr>) = Done w2 \<and>
     tm_q w2 = [(TA_DELETE_BACKUP_FAIL, 7)] \<and>
     tm_do_action (env_with False) ''DELETE_BACKUP_FAIL'' 7 (w2\<lparr>tm_q := []\<rparr>, u1) = Done (w3, u3) \<and>
     vms w3 7 = Some v3 \<and> state v3 = ACTIVE \<and> lcm_state v3 = DELETE_BACKUP_FAIL \<and>
     lcm_q w3 = [] \<and> dm_q w3 = [] \<and> tm_q w3 = [] \<and> vmm_q w3 = [] \<and> piped u3 = []"
proof -
  let ?v = "(vm_at PROLOG_BACKUP [record_a])\<lparr>backup := Some bk_sample\<rparr>"
  have v: "vms backing 7 = Some ?v" "vm_oid ?v = 7" "7 \<notin> vm_locks backing" "state ?v = ACTIVE" "lcm_state ?v = PROLOG_BACKUP"
    by (simp_all add: backing_def one_at_def vm_at_def)
  have "tm_ready TA_PROLOG_BACKUP ?v" "transfers TA_PROLOG_BACKUP" by (simp_all add: tm_ready_def transfers_def)
  from tm_outcomes [OF v(1-3) this, of "env_with False" new_io] obtain w1 u1 where
    t: "tm_do_action (env_with False) ''PROLOG_BACKUP'' 7 (backing, new_io) = Done (w1, u1)"
    and o: "tm_outcome (env_with False) TA_PROLOG_BACKUP 7 ?v (backing, new_io) (w1, u1)" by auto
  have w1: "vms w1 7 = Some ?v" "vm_locks w1 = {}" "lcm_q w1 = [(''PROLOG_FAILURE'', 7)]" "dm_q w1 = []" "tm_q w1 = []"
    "vmm_q w1 = []" "piped u1 = []"
    using o by (simp_all add: tm_outcome_def tm_vm_def) (simp_all add: backing_def one_at_def new_io_def)
  have ready: "vm_ready ?v" by (simp add: vm_ready_def vm_at_def)
  obtain w2 v2 where d: "lcm_do_action (lcm_action_name LA_PROLOG_FAILURE) 7 (w1\<lparr>lcm_q := []\<rparr>) = Done w2" "vms w2 7 = Some v2"
    "matches (lcm_spec (ctx_of ?v (w1\<lparr>lcm_q := []\<rparr>)) LA_PROLOG_FAILURE PROLOG_BACKUP) 7 ?v (w1\<lparr>lcm_q := []\<rparr>) v2 w2"
    using lcm_do_action_refines [of "w1\<lparr>lcm_q := []\<rparr>" 7 ?v LA_PROLOG_FAILURE] w1(1,2) v(2,5) ready by auto
  obtain v3 where f: "vms w2 7 = Some v3" "vm_oid v3 = 7" "only_vm 7 (w1\<lparr>lcm_q := []\<rparr>) w2"
    using lcm_do_action_frame [OF d(1), of ?v] w1(1) v(2) by auto
  have w2: "vm_locks w2 = {}" "vm_oid v2 = 7" "state v2 = ACTIVE" "lcm_state v2 = DELETE_BACKUP_FAIL"
    "tm_q w2 = [(TA_DELETE_BACKUP_FAIL, 7)]" "lcm_q w2 = []" "dm_q w2 = []" "vmm_q w2 = []"
    using only_vm_locks [OF f(3)] f(1,2) d(2,3) w1 v(4)
    by (simp_all add: matches_def eff_def tm_reqs_def dm_reqs_def vmm_reqs_def)
  let ?w2 = "w2\<lparr>tm_q := []\<rparr>"
  have "vms ?w2 7 = Some v2" "7 \<notin> vm_locks ?w2" using d(2) w2(1) by simp_all
  from tm_outcomes [OF this(1) w2(2) this(2), of TA_DELETE_BACKUP_FAIL "env_with False" u1] obtain w3 u3 where
    t3: "tm_do_action (env_with False) ''DELETE_BACKUP_FAIL'' 7 (?w2, u1) = Done (w3, u3)"
    and o3: "tm_outcome (env_with False) TA_DELETE_BACKUP_FAIL 7 v2 (?w2, u1) (w3, u3)"
    by (auto simp: tm_ready_def transfers_def)
  have "vms w3 7 = Some v2" "lcm_q w3 = []" "dm_q w3 = []" "tm_q w3 = []" "vmm_q w3 = []" "piped u3 = []"
    using o3 w2 w1(7) by (simp_all add: tm_outcome_def tm_vm_def)
  then show ?thesis using t w1(3) d(1) w2(3-5) t3
    by (intro exI [of _ w1] exI [of _ u1] exI [of _ w2] exI [of _ w3] exI [of _ u3] exI [of _ v2]) simp
qed

subsection \<open>The recovery of a failed VM\<close>

definition failed_vm :: vm where
  "failed_vm = (vm_at LCM_INIT [record_a])\<lparr>state := FAILED\<rparr>"

definition failed_one :: one where
  "failed_one = (one_at LCM_INIT [record_a])\<lparr>vms := [7 \<mapsto> failed_vm], bk_rows := [5 \<mapsto> bk_sample]\<rparr>"

text \<open>The recovery of a failed VM is not charged.  The request to recover does not look at the state of
  the VM, the life-cycle manager sends it to the transfer manager, and that makes the VM active again: from then on the VM
  is one of its host, and its end will release what was never allocated.\<close>

theorem recovered_vm_not_charged:
  "\<exists>w1 w2 w3 u3 v3. ledger base_failing failed_one \<and>
     VirtualMachineRecover 7 5 failed_one = Done (Success 7, w1) \<and> lcm_q w1 = [(''RECOVER'', 7)] \<and>
     lcm_do_action ''RECOVER'' 7 (w1\<lparr>lcm_q := []\<rparr>) = Done w2 \<and> tm_q w2 = [(TA_PROLOG_RECOVER, 7)] \<and>
     tm_do_action (env_with True) ''PROLOG_RECOVER'' 7 (w2\<lparr>tm_q := []\<rparr>, new_io) = Done (w3, u3) \<and>
     vms w3 7 = Some v3 \<and> state v3 = ACTIVE \<and> hosts w3 = hosts failed_one \<and> \<not> ledger base_failing w3"
proof -
  let ?v = "failed_vm\<lparr>recover_dir := ''/bk'', updatebkstateoid := 5\<rparr>"
  have l: "ledger base_failing failed_one"
  proof -
    have "owed 7 failed_one h = 0" for h by (simp add: owed_def vm_claims_def failed_one_def failed_vm_def)
    then show ?thesis
      by (simp add: ledger_def load_def base_failing_def failed_one_def one_at_def host_b_def)
  qed
  obtain w1 where r: "VirtualMachineRecover 7 5 failed_one = Done (Success 7, w1)" "lcm_q w1 = [(''RECOVER'', 7)]"
    "vms w1 = [7 \<mapsto> ?v]" "vm_locks w1 = {}" "hosts w1 = hosts failed_one" "tm_q w1 = []" "dm_q w1 = []"
    by (simp add: VirtualMachineRecover_def get_vm_def exec_simps dm_recover_def lcm_self_def answer_def failed_one_def
        one_at_def failed_vm_def vm_at_def bk_sample_def)
  let ?w1 = "w1\<lparr>lcm_q := []\<rparr>"
  have v: "vms ?w1 7 = Some ?v" "vm_oid ?v = 7" "7 \<notin> vm_locks ?w1" "vm_ready ?v" "state ?v = FAILED" "lcm_state ?v = LCM_INIT"
    "hids ?v = [1]"
    using r(3,4) by (simp_all add: failed_vm_def vm_at_def vm_ready_def hids_def record_a_def)
  obtain w2 v2 where d: "lcm_do_action (lcm_action_name LA_RECOVER) 7 ?w1 = Done w2" "vms w2 7 = Some v2"
    "matches (lcm_spec (ctx_of ?v ?w1) LA_RECOVER LCM_INIT) 7 ?v ?w1 v2 w2"
    using lcm_do_action_refines [OF v(1-4), of LA_RECOVER] v(6) by auto
  obtain v3 where f: "vms w2 7 = Some v3" "vm_oid v3 = 7" "only_vm 7 ?w1 w2"
    using lcm_do_action_frame [OF d(1) v(1,2)] by auto
  have w2: "vm_locks w2 = {}" "vm_oid v2 = 7" "state v2 = FAILED" "lcm_state v2 = PROLOG_RECOVER"
    "tm_q w2 = [(TA_PROLOG_RECOVER, 7)]" "lcm_q w2 = []" "dm_q w2 = []" "hosts w2 = hosts failed_one" "hids v2 = [1]"
    using only_vm_locks [OF f(3)] f(1,2) d(2,3) v r
    by (simp_all add: matches_def eff_def tm_reqs_def dm_reqs_def ctx_of_def apply_caps_def)
  have dom: "dom (vms w2) = {7}" using f(1,3) r(3) by (auto simp: only_vm_def split: if_splits)
  let ?w2 = "w2\<lparr>tm_q := []\<rparr>"
  have acc: "tm_accepts (env_with True) TA_PROLOG_RECOVER v2 ?w2"
  proof -
    have "hist v2 \<noteq> None" using w2(9) by (auto simp: hist_def hids_def)
    then show ?thesis by (auto simp: tm_accepts_def env_with_def tm_driver_def)
  qed
  have "vms ?w2 7 = Some v2" "7 \<notin> vm_locks ?w2" using d(2) w2(1) by simp_all
  from tm_outcomes [OF this(1) w2(2) this(2), of TA_PROLOG_RECOVER "env_with True" new_io] obtain w3 u3 where
    t: "tm_do_action (env_with True) ''PROLOG_RECOVER'' 7 (?w2, new_io) = Done (w3, u3)"
    and o: "tm_outcome (env_with True) TA_PROLOG_RECOVER 7 v2 (?w2, new_io) (w3, u3)"
    by (auto simp: tm_ready_def transfers_def)
  have w3: "vms w3 = (vms w2)(7 \<mapsto> v2\<lparr>state := ACTIVE\<rparr>)" "hosts w3 = hosts failed_one" "lcm_q w3 = []" "dm_q w3 = []"
    using o acc w2 by (simp_all add: tm_outcome_def tm_vm_def)
  have "\<not> ledger base_failing w3"
  proof
    assume l3: "ledger base_failing w3"
    have "hids (v2\<lparr>state := ACTIVE\<rparr>) = [1]" using w2(9) by (simp add: hids_def)
    then have "owed 7 w3 1 = 1" using w2(4) by (simp add: owed_def vm_claims_def w3)
    then have "load (\<lambda>_. 1) w3 1 = 1" using dom by (simp add: load_def w3(1))
    moreover have "hosts w3 1 = Some host_a" by (simp add: w3(2) failed_one_def one_at_def)
    ultimately show False using ledgerD(2) [OF l3, of 1 host_a] by (simp add: base_failing_def)
  qed
  then show ?thesis using l r(1,2) d(1) w2(5) t w3
    by (intro exI [of _ w1] exI [of _ w2] exI [of _ w3] exI [of _ u3] exI [of _ "v2\<lparr>state := ACTIVE\<rparr>"]) simp
qed

end
