(* ===== verification/Scheduler.thy ===== *)
theory Scheduler
  imports Complex_Main Acl StdMap "HOL-Library.Sublist"
begin

text \<open>
  The match-making scheduler (src/scheduler): the pools it loads from the daemon, the selection of the hosts
  that can run a pending VM (\<open>Scheduler::match\<close>), their ranking (\<open>schedule\<close>, \<open>RankPolicy\<close>) and the
  dispatch of the VMs (\<open>dispatch\<close>, \<open>VirtualMachineXML::get_host\<close>).

  A \<open>float\<close> is the rational number it stands for; \<open>single\<close> and \<open>double\<close> of \<open>fpu\<close> round a result to the format
  in which the compiler keeps it.  \<open>sort_hosts\<close> is \<open>std::sort\<close>, which leaves the order of equal elements
  open.  \<open>eval_bool\<close> and \<open>eval_arith\<close> evaluate an expression of the template on a host: \<open>None\<close> is an error.
  \<open>deploy vid hid\<close> is the answer of the daemon to \<open>one.vm.deploy\<close>.
\<close>

record fpu =
  single :: "rat \<Rightarrow> rat"
  double :: "rat \<Rightarrow> rat"

definition to_int :: "rat \<Rightarrow> int" where
  "to_int x = (if x \<ge> 0 then \<lfloor>x\<rfloor> else \<lceil>x\<rceil>)"

subsection \<open>Hosts\<close>

record hostxml =
  hx_oid :: int
  hx_disk_usage :: int
  hx_mem_usage :: int
  hx_cpu_usage :: int
  hx_max_disk :: int
  hx_max_mem :: int
  hx_max_cpu :: int
  hx_free_disk :: int
  hx_free_mem :: int
  hx_free_cpu :: int
  hx_running_vms :: int

definition get_capacity :: "fpu \<Rightarrow> rat \<Rightarrow> hostxml \<Rightarrow> int \<times> int" where
  "get_capacity fp threshold h =
     (if hx_free_cpu h \<ge> to_int (single fp (threshold * single fp (of_int (hx_max_cpu h))))
      then to_int (double fp (of_int \<lceil>double fp (single fp (of_int (hx_free_cpu h)) / 100)\<rceil> * 100))
      else hx_free_cpu h, hx_free_mem h)"

definition test_capacity :: "int \<Rightarrow> int \<Rightarrow> int \<Rightarrow> hostxml \<Rightarrow> bool" where
  "test_capacity cpu mem disk h \<longleftrightarrow> hx_max_cpu h - hx_cpu_usage h \<ge> cpu \<and> hx_max_mem h - hx_mem_usage h \<ge> mem \<and>
     hx_max_disk h - hx_disk_usage h \<ge> disk"

definition hx_add_capacity :: "int \<Rightarrow> int \<Rightarrow> int \<Rightarrow> hostxml \<Rightarrow> hostxml" where
  "hx_add_capacity cpu mem disk h = h\<lparr>hx_cpu_usage := hx_cpu_usage h + cpu, hx_mem_usage := hx_mem_usage h + mem,
     hx_disk_usage := hx_disk_usage h + disk, hx_running_vms := hx_running_vms h + 1\<rparr>"

subsection \<open>Pending virtual machines\<close>

record vmhost =
  vh_hid :: int
  vh_priority :: rat

record vmxml =
  vx_oid :: int
  vx_uid :: int
  vx_gid :: int
  vx_memory :: int
  vx_cpu :: rat
  vx_rank :: string
  vx_requirements :: string
  vx_hosts :: "vmhost list"

definition vx_get_requirements :: "fpu \<Rightarrow> vmxml \<Rightarrow> int \<times> int \<times> int" where
  "vx_get_requirements fp v = (if vx_memory v = 0 \<or> vx_cpu v = 0 then (0, 0, 0)
     else (to_int (single fp (vx_cpu v * 100)), in_kb (vx_memory v), 0))"

definition add_host :: "int \<Rightarrow> vmxml \<Rightarrow> vmxml" where
  "add_host h v = v\<lparr>vx_hosts := vx_hosts v @ [\<lparr>vh_hid = h, vh_priority = 0\<rparr>]\<rparr>"

definition get_matching_hosts :: "vmxml \<Rightarrow> int list" where
  "get_matching_hosts v = map vh_hid (vx_hosts v)"

definition set_priorities :: "(vmhost list \<Rightarrow> vmhost list) \<Rightarrow> rat list \<Rightarrow> vmxml \<Rightarrow> vmxml" where
  "set_priorities sort_hosts totals v = (if length (vx_hosts v) \<noteq> length totals then v
     else v\<lparr>vx_hosts := sort_hosts (map2 (\<lambda>h p. h\<lparr>vh_priority := p\<rparr>) (vx_hosts v) totals)\<rparr>)"

text \<open>\<open>get_host\<close> tries the hosts from the last to the first.  The counter of a host is made when it is first tried.\<close>

type_synonym hpool = "(int, hostxml) stdmap"
type_synonym counts = "(int, int) stdmap"

fun try_hosts :: "int \<times> int \<times> int \<Rightarrow> int \<Rightarrow> vmhost list \<Rightarrow> hpool \<Rightarrow> counts \<Rightarrow> int option \<times> hpool \<times> counts" where
  "try_hosts (cpu, mem, disk) max_vms [] hp hv = (None, hp, hv)"
| "try_hosts (cpu, mem, disk) max_vms (x # xs) hp hv = (case mfind hp (vh_hid x) of
     None \<Rightarrow> try_hosts (cpu, mem, disk) max_vms xs hp hv
   | Some h \<Rightarrow>
       if test_capacity cpu mem disk h then
         let hv = minsert (vh_hid x) 0 hv; n = the (mfind hv (vh_hid x)) in
         if n < max_vms then
           (Some (vh_hid x), mset_at (vh_hid x) (hx_add_capacity cpu mem disk h) hp, mset_at (vh_hid x) (n + 1) hv)
         else try_hosts (cpu, mem, disk) max_vms xs hp hv
       else try_hosts (cpu, mem, disk) max_vms xs hp hv)"

definition get_host :: "fpu \<Rightarrow> int \<Rightarrow> vmxml \<Rightarrow> hpool \<Rightarrow> counts \<Rightarrow> int option \<times> hpool \<times> counts" where
  "get_host fp max_vms v hp hv = try_hosts (vx_get_requirements fp v) max_vms (rev (vx_hosts v)) hp hv"

subsection \<open>Matching\<close>

definition host_perms :: "int \<Rightarrow> permissions" where
  "host_perms h = \<lparr>obj_type = T_HOST, p_oid = h, p_uid = -1, p_gid = -1, owner_u = 1, owner_m = 1, owner_a = 0,
     group_u = 0, group_m = 0, group_a = 0, other_u = 0, other_m = 0, other_a = 0\<rparr>"

record sched =
  sc_fpu :: fpu
  sc_eval_bool :: "string \<Rightarrow> hostxml \<Rightarrow> bool option"
  sc_eval_arith :: "string \<Rightarrow> hostxml \<Rightarrow> int option"
  sc_sort :: "vmhost list \<Rightarrow> vmhost list"
  sc_threshold :: rat
  sc_default_rank :: string
  sc_dispatch_limit :: int
  sc_host_dispatch_limit :: int

definition reqs_met :: "sched \<Rightarrow> vmxml \<Rightarrow> hostxml \<Rightarrow> bool" where
  "reqs_met c v h = (if vx_requirements v \<noteq> [] then
      (case sc_eval_bool c (vx_requirements v) h of None \<Rightarrow> False | Some b \<Rightarrow> b) else True)"

definition user_allowed :: "aclm \<Rightarrow> vmxml \<Rightarrow> hostxml \<Rightarrow> bool" where
  "user_allowed m v h = (if vx_uid v = 0 \<or> vx_gid v = 0 then True
     else authorize (vx_uid v) (vx_gid v) (host_perms (hx_oid h)) MANAGE m)"

definition host_fits :: "sched \<Rightarrow> vmxml \<Rightarrow> hostxml \<Rightarrow> bool" where
  "host_fits c v h = (let (cpu, mem, disk) = vx_get_requirements (sc_fpu c) v;
       (host_cpu, host_memory) = get_capacity (sc_fpu c) (sc_threshold c) h
     in mem \<le> host_memory \<and> cpu \<le> host_cpu \<and> test_capacity cpu mem disk h)"

definition match_host :: "sched \<Rightarrow> aclm \<Rightarrow> hostxml \<Rightarrow> vmxml \<Rightarrow> vmxml" where
  "match_host c m h v = (if \<not> reqs_met c v h then v else if \<not> user_allowed m v h then v
     else if host_fits c v h then add_host (hx_oid h) v else v)"

definition match_vm :: "sched \<Rightarrow> aclm \<Rightarrow> hpool \<Rightarrow> vmxml \<Rightarrow> vmxml" where
  "match_vm c m hp v = fold (match_host c m) (map snd hp) v"

definition match :: "sched \<Rightarrow> aclm \<Rightarrow> hpool \<Rightarrow> (int, vmxml) stdmap \<Rightarrow> (int, vmxml) stdmap" where
  "match c m hp = map (\<lambda>(vid, v). (vid, match_vm c m hp v))"

subsection \<open>Ranking\<close>

definition host_rank :: "sched \<Rightarrow> hpool \<Rightarrow> vmxml \<Rightarrow> int \<Rightarrow> int" where
  "host_rank c hp v h = (let srank = (if vx_rank v = [] then sc_default_rank c else vx_rank v) in
     if srank \<noteq> [] then (case mfind hp h of None \<Rightarrow> 0
       | Some x \<Rightarrow> (case sc_eval_arith c srank x of None \<Rightarrow> 0 | Some r \<Rightarrow> r)) else 0)"

definition rank_policy :: "sched \<Rightarrow> hpool \<Rightarrow> vmxml \<Rightarrow> rat list" where
  "rank_policy c hp v = map (\<lambda>h. single (sc_fpu c) (of_int (host_rank c hp v h))) (get_matching_hosts v)"

text \<open>\<open>SchedulerHostPolicy::get\<close>: \<open>max_element\<close> by absolute value, then \<open>ScaleWeight\<close>.\<close>

definition scale_weight :: "fpu \<Rightarrow> rat \<Rightarrow> rat \<Rightarrow> rat \<Rightarrow> rat" where
  "scale_weight fp weight mx pr = (if mx = 0 then 0 else single fp (single fp (weight * pr) / mx))"

definition policy_get :: "fpu \<Rightarrow> rat \<Rightarrow> rat list \<Rightarrow> rat list" where
  "policy_get fp weight ps = (if ps \<noteq> [] then map (scale_weight fp weight (Max (abs ` set ps))) ps else ps)"

text \<open>The only policy registered (mm_sched.cc) is the rank, with weight 1.\<close>

definition schedule_vm :: "sched \<Rightarrow> hpool \<Rightarrow> vmxml \<Rightarrow> vmxml" where
  "schedule_vm c hp v = set_priorities (sc_sort c) (policy_get (sc_fpu c) 1 (rank_policy c hp v)) v"

definition schedule :: "sched \<Rightarrow> hpool \<Rightarrow> (int, vmxml) stdmap \<Rightarrow> (int, vmxml) stdmap" where
  "schedule c hp = map (\<lambda>(vid, v). (vid, schedule_vm c hp v))"

subsection \<open>Dispatch\<close>

text \<open>The third component of the result lists the deployments asked for, with the answer.\<close>

fun dispatch_loop :: "sched \<Rightarrow> (int \<Rightarrow> int \<Rightarrow> bool) \<Rightarrow> (int, vmxml) stdmap \<Rightarrow> int \<Rightarrow> hpool \<Rightarrow> counts \<Rightarrow>
    (int \<times> int \<times> bool) list \<times> hpool \<times> counts" where
  "dispatch_loop c deploy [] n hp hv = ([], hp, hv)"
| "dispatch_loop c deploy ((vid, v) # vms) n hp hv =
     (if sc_dispatch_limit c \<le> 0 \<or> n < sc_dispatch_limit c then
        (case get_host (sc_fpu c) (sc_host_dispatch_limit c) v hp hv of
           (None, hp', hv') \<Rightarrow> dispatch_loop c deploy vms n hp' hv'
         | (Some h, hp', hv') \<Rightarrow>
             let (ds, r) = dispatch_loop c deploy vms (if deploy vid h then n + 1 else n) hp' hv'
             in ((vid, h, deploy vid h) # ds, r))
      else ([], hp, hv))"

definition dispatch :: "sched \<Rightarrow> (int \<Rightarrow> int \<Rightarrow> bool) \<Rightarrow> hpool \<Rightarrow> (int, vmxml) stdmap \<Rightarrow>
    (int \<times> int \<times> bool) list \<times> hpool \<times> counts" where
  "dispatch c deploy hp vms = dispatch_loop c deploy vms 0 hp []"

text \<open>One round: \<open>do_action(ACTION_TIMER)\<close>, on the pools \<open>set_up\<close> has loaded.\<close>

definition sched_round :: "sched \<Rightarrow> (int \<Rightarrow> int \<Rightarrow> bool) \<Rightarrow> aclm \<Rightarrow> hpool \<Rightarrow> (int, vmxml) stdmap \<Rightarrow>
    (int \<times> int \<times> bool) list \<times> hpool \<times> counts" where
  "sched_round c deploy m hp vms = dispatch c deploy hp (schedule c hp (match c m hp vms))"


subsection \<open>The choice of a host\<close>

definition hosted :: "counts \<Rightarrow> int \<Rightarrow> int" where
  "hosted hv h = (case mfind hv h of None \<Rightarrow> 0 | Some n \<Rightarrow> n)"

fun eligible :: "int \<times> int \<times> int \<Rightarrow> int \<Rightarrow> hpool \<Rightarrow> counts \<Rightarrow> int \<Rightarrow> bool" where
  "eligible (cpu, mem, disk) max_vms hp hv h = (case mfind hp h of None \<Rightarrow> False
     | Some x \<Rightarrow> test_capacity cpu mem disk x \<and> hosted hv h < max_vms)"

fun takes :: "int \<times> int \<times> int \<Rightarrow> int \<Rightarrow> hpool \<Rightarrow> hpool" where
  "takes (cpu, mem, disk) h hp = (case mfind hp h of None \<Rightarrow> hp | Some x \<Rightarrow> mset_at h (hx_add_capacity cpu mem disk x) hp)"

lemma hosted_minsert [simp]: "map_ok hv \<Longrightarrow> hosted (minsert h 0 hv) k = hosted hv k"
  by (simp add: hosted_def mfind_minsert split: option.split)

lemma hosted_count: "map_ok hv \<Longrightarrow> the (mfind (minsert h 0 hv) h) = hosted hv h"
  by (simp add: hosted_def mfind_minsert split: option.split)

lemma hosted_set: "map_ok hv \<Longrightarrow> hosted (mset_at h n (minsert h 0 hv)) k = (if k = h then n else hosted hv k)"
  by (auto simp: hosted_def mfind_mset_at mfind_minsert split: option.split)

lemma eligible_minsert [simp]: "map_ok hv \<Longrightarrow> eligible req mx hp (minsert h 0 hv) k = eligible req mx hp hv k"
  by (cases req) (simp split: option.split)

definition first_eligible :: "int \<times> int \<times> int \<Rightarrow> int \<Rightarrow> hpool \<Rightarrow> counts \<Rightarrow> vmhost list \<Rightarrow> int \<Rightarrow> bool" where
  "first_eligible req mx hp hv xs h \<longleftrightarrow> eligible req mx hp hv h \<and>
     (\<exists>pre x post. xs = pre @ x # post \<and> vh_hid x = h \<and> (\<forall>z \<in> set pre. \<not> eligible req mx hp hv (vh_hid z)))"

definition picks :: "int \<times> int \<times> int \<Rightarrow> int \<Rightarrow> vmhost list \<Rightarrow> hpool \<Rightarrow> counts \<Rightarrow> int option \<times> hpool \<times> counts \<Rightarrow> bool" where
  "picks req mx xs hp hv res \<longleftrightarrow> (case res of (r, hp', hv') \<Rightarrow> map_ok hv' \<and> (case r of
     None \<Rightarrow> hp' = hp \<and> hosted hv' = hosted hv \<and> (\<forall>x \<in> set xs. \<not> eligible req mx hp hv (vh_hid x))
   | Some h \<Rightarrow> hp' = takes req h hp \<and> hosted hv' = (hosted hv)(h := hosted hv h + 1) \<and> first_eligible req mx hp hv xs h))"

lemma eligible_cong: "hosted hv2 = hosted hv \<Longrightarrow> eligible req mx hp hv2 h = eligible req mx hp hv h"
  by (cases req) (simp split: option.split)

lemma first_eligible_skip:
  assumes "first_eligible req mx hp hv xs h" "\<not> eligible req mx hp hv (vh_hid x)"
  shows "first_eligible req mx hp hv (x # xs) h"
proof -
  obtain pre y post where "xs = pre @ y # post" "vh_hid y = h" "\<forall>z \<in> set pre. \<not> eligible req mx hp hv (vh_hid z)"
    using assms(1) by (auto simp: first_eligible_def)
  then have "x # xs = (x # pre) @ y # post \<and> vh_hid y = h \<and> (\<forall>z \<in> set (x # pre). \<not> eligible req mx hp hv (vh_hid z))"
    using assms(2) by simp
  then show ?thesis using assms(1) unfolding first_eligible_def by blast
qed

lemma picks_skip:
  assumes "picks req mx xs hp hv2 res" "hosted hv2 = hosted hv" "\<not> eligible req mx hp hv (vh_hid x)"
  shows "picks req mx (x # xs) hp hv res"
proof -
  note el = eligible_cong [OF assms(2)]
  have "first_eligible req mx hp hv2 xs h = first_eligible req mx hp hv xs h" for h
    by (simp add: first_eligible_def el)
  then show ?thesis using assms first_eligible_skip [OF _ assms(3)]
    by (auto simp: picks_def el split: prod.splits option.splits)
qed

lemma try_hosts_spec: "map_ok hv \<Longrightarrow> picks req mx xs hp hv (try_hosts req mx xs hp hv)"
proof (induction req mx xs hp hv rule: try_hosts.induct)
  case (1 cpu mem disk mx hp hv)
  then show ?case by (simp add: picks_def)
next
  case (2 cpu mem disk mx x xs hp hv)
  let ?req = "(cpu, mem, disk)" and ?h = "vh_hid x" and ?hv = "minsert (vh_hid x) 0 hv"
  have n: "the (mfind ?hv ?h) = hosted hv ?h" using hosted_count [OF 2(4)] .
  have same: "hosted ?hv = hosted hv" using 2(4) by (simp add: fun_eq_iff)
  consider (none) "mfind hp ?h = None" | (full) y where "mfind hp ?h = Some y" "\<not> test_capacity cpu mem disk y"
    | (busy) y where "mfind hp ?h = Some y" "test_capacity cpu mem disk y" "\<not> hosted hv ?h < mx"
    | (free) y where "mfind hp ?h = Some y" "test_capacity cpu mem disk y" "hosted hv ?h < mx"
    by (cases "mfind hp ?h") blast+
  then show ?case
  proof cases
    case none
    then show ?thesis using picks_skip [OF 2(1) [OF none 2(4)] refl] by simp
  next
    case full
    then show ?thesis using picks_skip [OF 2(3) [OF full 2(4)] refl] by simp
  next
    case busy
    have "picks ?req mx xs hp ?hv (try_hosts ?req mx xs hp ?hv)"
      using 2(2) [OF busy(1,2) refl refl] busy(3) n 2(4) by simp
    then show ?thesis using picks_skip [OF _ same] busy n by (simp add: Let_def)
  next
    case free
    have "hosted (mset_at ?h (hosted hv ?h + 1) ?hv) = (hosted hv)(?h := hosted hv ?h + 1)"
      using hosted_set [OF 2(4)] by (auto simp: fun_eq_iff)
    moreover have "first_eligible ?req mx hp hv (x # xs) ?h"
      unfolding first_eligible_def using free by (intro conjI exI [of _ "[]"]) simp_all
    ultimately show ?thesis using free n 2(4) by (simp add: picks_def Let_def)
  qed
qed


subsection \<open>A round of dispatching\<close>

text \<open>\<open>R\<close> gives the requirements of each VM; a deployment is the VM, the host and the answer.\<close>

type_synonym deployment = "int \<times> int \<times> bool"

definition on_host :: "int \<Rightarrow> deployment list \<Rightarrow> deployment list" where
  "on_host h ds = filter (\<lambda>d. fst (snd d) = h) ds"

definition in_bounds :: "hostxml \<Rightarrow> bool" where
  "in_bounds x \<longleftrightarrow> hx_cpu_usage x \<le> hx_max_cpu x \<and> hx_mem_usage x \<le> hx_max_mem x \<and> hx_disk_usage x \<le> hx_max_disk x"

definition asked :: "(int \<Rightarrow> int \<times> int \<times> int) \<Rightarrow> deployment list \<Rightarrow> hpool \<Rightarrow> hpool" where
  "asked R = fold (\<lambda>d. takes (R (fst d)) (fst (snd d)))"

lemma on_host_simps [simp]:
  "on_host h [] = []" "on_host h (d # ds) = (if fst (snd d) = h then d # on_host h ds else on_host h ds)"
  by (simp_all add: on_host_def)

lemma mfind_takes:
  "mfind (takes (cpu, mem, disk) h hp) k =
     (if k = h then map_option (hx_add_capacity cpu mem disk) (mfind hp h) else mfind hp k)"
  by (auto simp: mfind_mset_at split: option.split)

lemma takes_in_bounds:
  assumes "eligible req mx hp hv h" "mfind (takes req h hp) h = Some x"
  shows "in_bounds x"
  using assms by (cases req) (auto simp: mfind_mset_at in_bounds_def test_capacity_def hx_add_capacity_def split: option.splits)

text \<open>What a host shows after the deployments.\<close>

lemma asked_usage:
  assumes "mfind hp h = Some x"
  obtains x' where "mfind (asked R ds hp) h = Some x'" "hx_max_cpu x' = hx_max_cpu x" "hx_max_mem x' = hx_max_mem x"
    "hx_cpu_usage x' = hx_cpu_usage x + (\<Sum>d \<leftarrow> on_host h ds. fst (R (fst d)))"
    "hx_mem_usage x' = hx_mem_usage x + (\<Sum>d \<leftarrow> on_host h ds. fst (snd (R (fst d))))"
proof -
  have "\<exists>x'. mfind (asked R ds hp) h = Some x' \<and> hx_max_cpu x' = hx_max_cpu x \<and> hx_max_mem x' = hx_max_mem x \<and>
    hx_cpu_usage x' = hx_cpu_usage x + (\<Sum>d \<leftarrow> on_host h ds. fst (R (fst d))) \<and>
    hx_mem_usage x' = hx_mem_usage x + (\<Sum>d \<leftarrow> on_host h ds. fst (snd (R (fst d))))"
    using assms
  proof (induction ds arbitrary: hp x)
    case (Cons d ds)
    obtain cpu mem disk where r: "R (fst d) = (cpu, mem, disk)" by (metis prod_cases3)
    let ?x = "if fst (snd d) = h then hx_add_capacity cpu mem disk x else x"
    have "mfind (takes (R (fst d)) (fst (snd d)) hp) h = Some ?x"
      using Cons.prems by (simp only: r mfind_takes) auto
    from Cons.IH [OF this] show ?case by (auto simp: asked_def r hx_add_capacity_def)
  qed (simp add: asked_def)
  then show thesis using that by blast
qed

lemma asked_elsewhere: "on_host h ds = [] \<Longrightarrow> mfind (asked R ds hp) h = mfind hp h"
proof (induction ds arbitrary: hp)
  case (Cons d ds)
  obtain cpu mem disk where r: "R (fst d) = (cpu, mem, disk)" by (metis prod_cases3)
  have "fst (snd d) \<noteq> h" "on_host h ds = []" using Cons.prems by (auto split: if_splits)
  then have "mfind (takes (R (fst d)) (fst (snd d)) hp) h = mfind hp h" by (simp only: r mfind_takes) simp
  then show ?case using Cons.IH [OF \<open>on_host h ds = []\<close>] by (simp add: asked_def)
qed (simp add: asked_def)

definition successes :: "deployment list \<Rightarrow> int" where
  "successes ds = int (length (filter (\<lambda>d. snd (snd d)) ds))"

definition good_round :: "sched \<Rightarrow> (int \<Rightarrow> int \<times> int \<times> int) \<Rightarrow> (int, vmxml) stdmap \<Rightarrow> int \<Rightarrow> hpool \<Rightarrow> counts \<Rightarrow>
    deployment list \<Rightarrow> hpool \<Rightarrow> counts \<Rightarrow> bool" where
  "good_round c R vms n hp hv ds hp' hv' \<longleftrightarrow>
     subseq (map fst ds) (map fst vms) \<and>
     (\<forall>d \<in> set ds. \<exists>v. (fst d, v) \<in> set vms \<and> fst (snd d) \<in> set (get_matching_hosts v)) \<and>
     hp' = asked R ds hp \<and> map_ok hv' \<and>
     (\<forall>h. hosted hv' h = hosted hv h + int (length (on_host h ds))) \<and>
     (\<forall>h x. on_host h ds \<noteq> [] \<longrightarrow> hosted hv' h \<le> sc_host_dispatch_limit c \<and> (mfind hp' h = Some x \<longrightarrow> in_bounds x)) \<and>
     (0 < sc_dispatch_limit c \<and> n \<le> sc_dispatch_limit c \<longrightarrow> n + successes ds \<le> sc_dispatch_limit c)"

lemma dispatch_loop_good:
  assumes "dispatch_loop c deploy vms n hp hv = (ds, hp', hv')" "map_ok hv"
    "\<And>vid v. (vid, v) \<in> set vms \<Longrightarrow> R vid = vx_get_requirements (sc_fpu c) v"
  shows "good_round c R vms n hp hv ds hp' hv'"
  using assms
proof (induction vms arbitrary: n hp hv ds)
  case Nil
  then show ?case by (simp add: good_round_def asked_def successes_def)
next
  case (Cons a vms)
  obtain vid v where a: "a = (vid, v)" by force
  let ?mx = "sc_host_dispatch_limit c"
  obtain r hp1 hv1 where g: "get_host (sc_fpu c) ?mx v hp hv = (r, hp1, hv1)" by (metis prod_cases3)
  have R: "R vid = vx_get_requirements (sc_fpu c) v" using Cons.prems(3) by (simp add: a)
  have p: "picks (R vid) ?mx (rev (vx_hosts v)) hp hv (r, hp1, hv1)"
    using try_hosts_spec [OF Cons.prems(2), of "R vid" ?mx "rev (vx_hosts v)" hp] g by (simp add: get_host_def R)
  have ok1: "map_ok hv1" using p by (simp add: picks_def)
  show ?case
  proof (cases "sc_dispatch_limit c \<le> 0 \<or> n < sc_dispatch_limit c")
    case False
    then show ?thesis using Cons.prems(1,2) by (simp add: a good_round_def asked_def successes_def)
  next
    case lim: True
    show ?thesis
    proof (cases r)
      case None
      then have "hp1 = hp" "hosted hv1 = hosted hv" using p by (simp_all add: picks_def)
      moreover have "good_round c R vms n hp1 hv1 ds hp' hv'"
        using Cons.IH [of n hp1 hv1 ds] Cons.prems(1,3) ok1 lim g None by (simp add: a)
      ultimately show ?thesis by (auto simp: good_round_def a)
    next
      case (Some h)
      let ?n = "if deploy vid h then n + 1 else n"
      obtain ds2 where ds: "ds = (vid, h, deploy vid h) # ds2" "dispatch_loop c deploy vms ?n hp1 hv1 = (ds2, hp', hv')"
        using Cons.prems(1) lim g Some by (auto simp: a split: prod.splits)
      have good: "good_round c R vms ?n hp1 hv1 ds2 hp' hv'"
        using Cons.IH [OF ds(2) ok1] Cons.prems(3) by simp
      have t: "hp1 = takes (R vid) h hp" "hosted hv1 = (hosted hv)(h := hosted hv h + 1)"
        "eligible (R vid) ?mx hp hv h" "h \<in> set (get_matching_hosts v)"
        using p Some by (auto simp: picks_def first_eligible_def get_matching_hosts_def dest: arg_cong [of "rev _" _ set])
      have cnt: "hosted hv' k = hosted hv k + int (length (on_host k ds))" for k
        using good t(2) by (simp add: good_round_def ds(1))
      have "hosted hv h < ?mx" using t(3) by (cases "R vid") (simp split: option.splits)
      then have "hosted hv' h \<le> ?mx" if "on_host h ds2 = []" using cnt [of h] that by (simp add: ds(1))
      moreover have "in_bounds x" if "on_host h ds2 = []" "mfind hp' h = Some x" for x
        using good that asked_elsewhere [OF that(1), of R hp1] takes_in_bounds [OF t(3)] t(1) by (simp add: good_round_def)
      ultimately have hosts: "hosted hv' k \<le> ?mx \<and> (mfind hp' k = Some x \<longrightarrow> in_bounds x)" if "on_host k ds \<noteq> []" for k x
        using good that by (cases "on_host k ds2 = []") (auto simp: good_round_def ds(1) split: if_splits)
      have "0 < sc_dispatch_limit c \<and> n \<le> sc_dispatch_limit c \<longrightarrow> n + successes ds \<le> sc_dispatch_limit c"
        using good lim by (auto simp: good_round_def ds(1) successes_def split: if_splits)
      moreover have "hp' = asked R ds hp" using good t(1) by (simp add: good_round_def ds(1) asked_def)
      ultimately show ?thesis using good cnt hosts t(4) by (auto simp: good_round_def ds(1) a)
    qed
  qed
qed


text \<open>C17. A round of dispatching asks for each VM at most once and on a host selected for it, for no more
  VMs than the two limits allow, and never beyond the capacity of a host: what the host shows and the requirements
  of all the VMs sent to it in this round stay within its CPU and memory.\<close>

theorem dispatch_limits:
  assumes "dispatch c deploy hp vms = (ds, hp', hv')" "map_ok vms"
  shows "distinct (map fst ds) \<and>
    (\<forall>d \<in> set ds. \<exists>v. (fst d, v) \<in> set vms \<and> fst (snd d) \<in> set (get_matching_hosts v)) \<and>
    (\<forall>h. on_host h ds \<noteq> [] \<longrightarrow> int (length (on_host h ds)) \<le> sc_host_dispatch_limit c) \<and>
    (0 < sc_dispatch_limit c \<longrightarrow> successes ds \<le> sc_dispatch_limit c) \<and>
    (\<forall>h x. on_host h ds \<noteq> [] \<and> mfind hp h = Some x \<longrightarrow>
       hx_cpu_usage x + (\<Sum>d \<leftarrow> on_host h ds. fst (vx_get_requirements (sc_fpu c) (the (mfind vms (fst d))))) \<le> hx_max_cpu x \<and>
       hx_mem_usage x + (\<Sum>d \<leftarrow> on_host h ds. fst (snd (vx_get_requirements (sc_fpu c) (the (mfind vms (fst d)))))) \<le> hx_max_mem x)"
proof -
  let ?R = "\<lambda>vid. vx_get_requirements (sc_fpu c) (the (mfind vms vid))"
  have "good_round c ?R vms 0 hp [] ds hp' hv'"
    using assms(1) map_ok_distinct [OF assms(2)]
    by (intro dispatch_loop_good) (simp_all add: dispatch_def map_of_eq_Some_iff)
  note g = this [unfolded good_round_def]
  have d: "distinct (map fst ds)" using g map_ok_distinct [OF assms(2)] by (metis distinct_nthsI subseq_conv_nths)
  have cnt: "int (length (on_host h ds)) \<le> sc_host_dispatch_limit c" if "on_host h ds \<noteq> []" for h
    using g that by (auto simp: hosted_def)
  have cap: "hx_cpu_usage x + (\<Sum>d \<leftarrow> on_host h ds. fst (?R (fst d))) \<le> hx_max_cpu x \<and>
      hx_mem_usage x + (\<Sum>d \<leftarrow> on_host h ds. fst (snd (?R (fst d)))) \<le> hx_max_mem x"
    if "on_host h ds \<noteq> []" "mfind hp h = Some x" for h x
  proof -
    note at_h = that
    obtain x' where x': "mfind (asked ?R ds hp) h = Some x'" "hx_max_cpu x' = hx_max_cpu x" "hx_max_mem x' = hx_max_mem x"
      "hx_cpu_usage x' = hx_cpu_usage x + (\<Sum>d \<leftarrow> on_host h ds. fst (?R (fst d)))"
      "hx_mem_usage x' = hx_mem_usage x + (\<Sum>d \<leftarrow> on_host h ds. fst (snd (?R (fst d))))"
      by (rule asked_usage [OF at_h(2)])
    have "in_bounds x'" using g at_h(1) x'(1) by blast
    then show ?thesis using x' by (simp add: in_bounds_def)
  qed
  show ?thesis
  proof (intro conjI allI impI)
    show "distinct (map fst ds)" by (rule d)
    show "\<forall>d \<in> set ds. \<exists>v. (fst d, v) \<in> set vms \<and> fst (snd d) \<in> set (get_matching_hosts v)" using g by blast
    show "successes ds \<le> sc_dispatch_limit c" if "0 < sc_dispatch_limit c" using g that by simp
  qed (use cnt cap in \<open>simp_all\<close>)
qed

subsection \<open>A round of the scheduler\<close>

definition sort_ok :: "(vmhost list \<Rightarrow> vmhost list) \<Rightarrow> bool" where
  "sort_ok f \<longleftrightarrow> (\<forall>xs. mset (f xs) = mset xs \<and> sorted (map vh_priority (f xs)))"

lemma sort_key_ok: "sort_ok (sort_key vh_priority)"
  by (simp add: sort_ok_def)

definition suits :: "sched \<Rightarrow> aclm \<Rightarrow> vmxml \<Rightarrow> hostxml \<Rightarrow> bool" where
  "suits c m v h \<longleftrightarrow> reqs_met c v h \<and> user_allowed m v h \<and> host_fits c v h"

lemma suits_add_host [simp]: "suits c m (add_host k v) h = suits c m v h"
  by (simp add: suits_def reqs_met_def user_allowed_def host_fits_def add_host_def vx_get_requirements_def)

text \<open>The hosts selected for a VM are those that meet its requirements, that its user may use and that have room
  for it, each once and in the order of the pool.\<close>

lemma match_vm_hosts:
  "get_matching_hosts (match_vm c m hp v) = get_matching_hosts v @ map hx_oid (filter (suits c m v) (map snd hp))"
proof -
  have one: "match_host c m h u = (if suits c m u h then add_host (hx_oid h) u else u)" for h u
    by (simp add: match_host_def suits_def)
  have "get_matching_hosts (fold (match_host c m) hs u) = get_matching_hosts u @ map hx_oid (filter (suits c m u) hs)" for hs u
  proof (induction hs arbitrary: u)
    case (Cons h hs)
    have "suits c m (match_host c m h u) = suits c m u" by (simp add: one fun_eq_iff)
    then show ?case using Cons [of "match_host c m h u"] by (simp add: one add_host_def get_matching_hosts_def)
  qed simp
  then show ?thesis by (simp add: match_vm_def)
qed

definition host_priority :: "sched \<Rightarrow> hpool \<Rightarrow> vmxml \<Rightarrow> int \<Rightarrow> rat" where
  "host_priority c hp v h = (let r = (\<lambda>k. single (sc_fpu c) (of_int (host_rank c hp v k)))
     in scale_weight (sc_fpu c) 1 (Max (abs ` r ` set (get_matching_hosts v))) (r h))"

lemma schedule_vm_hosts:
  assumes "sort_ok (sc_sort c)"
  shows "mset (get_matching_hosts (schedule_vm c hp v)) = mset (get_matching_hosts v)"
    "sorted (map vh_priority (vx_hosts (schedule_vm c hp v)))"
    "x \<in> set (vx_hosts (schedule_vm c hp v)) \<Longrightarrow> vh_priority x = host_priority c hp v (vh_hid x)"
    "vx_get_requirements fp (schedule_vm c hp v) = vx_get_requirements fp v"
proof -
  let ?p = "host_priority c hp v"
  let ?hs = "map (\<lambda>h. h\<lparr>vh_priority := ?p (vh_hid h)\<rparr>) (vx_hosts v)"
  have "policy_get (sc_fpu c) 1 (rank_policy c hp v) = map (\<lambda>h. ?p (vh_hid h)) (vx_hosts v)"
    by (auto simp: policy_get_def rank_policy_def host_priority_def get_matching_hosts_def Let_def image_image)
  moreover have "map2 (\<lambda>h p. h\<lparr>vh_priority := p\<rparr>) hs (map (\<lambda>h. ?p (vh_hid h)) hs) =
      map (\<lambda>h. h\<lparr>vh_priority := ?p (vh_hid h)\<rparr>) hs" for hs :: "vmhost list"
    by (induction hs) auto
  ultimately have v': "schedule_vm c hp v = v\<lparr>vx_hosts := sc_sort c ?hs\<rparr>"
    by (simp add: schedule_vm_def set_priorities_def)
  have ms: "mset (sc_sort c ?hs) = mset ?hs" "sorted (map vh_priority (sc_sort c ?hs))" using assms by (simp_all add: sort_ok_def)
  show "mset (get_matching_hosts (schedule_vm c hp v)) = mset (get_matching_hosts v)"
    using arg_cong [OF ms(1), of "image_mset vh_hid"]
    by (simp add: v' get_matching_hosts_def multiset.map_comp comp_def flip: mset_map)
  show "sorted (map vh_priority (vx_hosts (schedule_vm c hp v)))" using ms(2) by (simp add: v')
  show "x \<in> set (vx_hosts (schedule_vm c hp v)) \<Longrightarrow> vh_priority x = ?p (vh_hid x)"
    using mset_eq_setD [OF ms(1)] by (auto simp: v')
  show "vx_get_requirements fp (schedule_vm c hp v) = vx_get_requirements fp v" by (simp add: v' vx_get_requirements_def)
qed

lemma best_priority:
  assumes "sort_ok (sc_sort c)" "map_ok hv" "get_host (sc_fpu c) mx (schedule_vm c hp0 v) hp hv = (r, hp', hv')"
  shows "case r of
      None \<Rightarrow> \<forall>h \<in> set (get_matching_hosts v). \<not> eligible (vx_get_requirements (sc_fpu c) v) mx hp hv h
    | Some h \<Rightarrow> h \<in> set (get_matching_hosts v) \<and> eligible (vx_get_requirements (sc_fpu c) v) mx hp hv h \<and>
        (\<forall>k \<in> set (get_matching_hosts v). eligible (vx_get_requirements (sc_fpu c) v) mx hp hv k \<longrightarrow>
           host_priority c hp0 v k \<le> host_priority c hp0 v h)"
proof -
  note sv = schedule_vm_hosts [where hp = hp0 and v = v, OF assms(1)]
  let ?hs = "vx_hosts (schedule_vm c hp0 v)" and ?req = "vx_get_requirements (sc_fpu c) v"
  have p: "picks ?req mx (rev ?hs) hp hv (r, hp', hv')"
    using try_hosts_spec [OF assms(2), of ?req mx "rev ?hs" hp] assms(3) by (simp add: get_host_def sv(4))
  have hs: "set (get_matching_hosts v) = vh_hid ` set ?hs"
    using mset_eq_setD [OF sv(1)] by (simp add: get_matching_hosts_def)
  show ?thesis
  proof (cases r)
    case None
    then show ?thesis using p hs by (simp add: picks_def)
  next
    case (Some h)
    then obtain pre x post where x: "rev ?hs = pre @ x # post" "vh_hid x = h" "\<forall>z \<in> set pre. \<not> eligible ?req mx hp hv (vh_hid z)"
      and el: "eligible ?req mx hp hv h" using p by (auto simp: picks_def first_eligible_def)
    have hs': "?hs = rev post @ x # rev pre" using arg_cong [OF x(1), of rev] by simp
    have "host_priority c hp0 v k \<le> host_priority c hp0 v h"
      if "k \<in> set (get_matching_hosts v)" "eligible ?req mx hp hv k" for k
    proof -
      note k = that
      obtain z where z: "z \<in> set ?hs" "vh_hid z = k" using k(1) unfolding hs by blast
      then have "z = x \<or> z \<in> set post" using x(3) k(2) by (auto simp: hs')
      then have "vh_priority z \<le> vh_priority x" using sv(2) by (auto simp: hs' sorted_append)
      moreover have "x \<in> set ?hs" by (simp add: hs')
      ultimately show ?thesis using sv(3) [OF z(1)] sv(3) [of x] z(2) x(2) by simp
    qed
    moreover have "h \<in> set (get_matching_hosts v)" using hs x(2) by (auto simp: hs')
    ultimately show ?thesis using Some el by simp
  qed
qed

text \<open>What the floats of the host are relied on for: rounding to the nearest number with 24 bits.\<close>

definition ieee_single :: "(rat \<Rightarrow> rat) \<Rightarrow> bool" where
  "ieee_single f \<longleftrightarrow> (\<forall>n. \<bar>f (of_int n) - of_int n\<bar> * 2 ^ 24 \<le> \<bar>of_int n\<bar>) \<and> (\<forall>n. \<bar>n\<bar> \<le> 2 ^ 24 \<longrightarrow> f (of_int n) = of_int n) \<and>
     (\<forall>x. \<bar>x\<bar> \<le> 1 \<longrightarrow> \<bar>f x - x\<bar> * 2 ^ 25 \<le> 1) \<and> (\<forall>x. f (f x) = f x)"

lemma rounded_order:
  fixes a b c d :: rat
  assumes "\<bar>c - a\<bar> * 2 ^ 25 \<le> 1" "\<bar>d - b\<bar> * 2 ^ 25 \<le> 1" "c \<le> d"
  shows "a - b \<le> 1 / 2 ^ 24"
proof -
  have "(a - c) * 2 ^ 25 \<le> \<bar>c - a\<bar> * 2 ^ 25" "(d - b) * 2 ^ 25 \<le> \<bar>d - b\<bar> * 2 ^ 25" by (intro mult_right_mono; simp)+
  then show ?thesis using assms by simp
qed

text \<open>The ranks are scaled to the greatest, so that the order of two of them survives up to the rounding.\<close>

lemma scaled_order:
  fixes n m :: int and x y z :: rat
  assumes f: "ieee_single (single fp)" and x: "x = single fp (of_int n)" and y: "y = single fp (of_int m)"
    and z: "\<bar>x\<bar> \<le> z" "\<bar>y\<bar> \<le> z" "z * 2 ^ 24 \<le> of_int N * (2 ^ 24 + 1)" and N: "\<bar>n\<bar> \<le> N" "\<bar>m\<bar> \<le> N"
    and le: "scale_weight fp 1 z x \<le> scale_weight fp 1 z y"
  shows "(n - m) * 2 ^ 21 \<le> N" "z \<le> of_int N \<Longrightarrow> N < 2 ^ 24 \<Longrightarrow> n \<le> m"
proof -
  have r: "\<bar>single fp (of_int n) - of_int n\<bar> * 2 ^ 24 \<le> \<bar>of_int n\<bar>" "\<bar>single fp (of_int m) - of_int m\<bar> * 2 ^ 24 \<le> \<bar>of_int m\<bar>"
    "single fp x = x" "single fp y = y" using f by (simp_all add: ieee_single_def x y)
  have N': "\<bar>of_int n\<bar> \<le> (of_int N :: rat)" "\<bar>of_int m\<bar> \<le> (of_int N :: rat)" using N by (simp_all flip: of_int_abs)
  have "x - y \<le> z / 2 ^ 24"
  proof (cases "z = 0")
    case True
    then show ?thesis using z by simp
  next
    case False
    then have p: "0 < z" using z(1) by linarith
    have "\<bar>x / z\<bar> \<le> 1" "\<bar>y / z\<bar> \<le> 1" using z p by (simp_all add: abs_divide)
    then have "\<bar>single fp (x / z) - x / z\<bar> * 2 ^ 25 \<le> 1" "\<bar>single fp (y / z) - y / z\<bar> * 2 ^ 25 \<le> 1"
      using f by (simp_all add: ieee_single_def)
    moreover have "single fp (x / z) \<le> single fp (y / z)" using le False r(3,4) by (simp add: scale_weight_def)
    ultimately have "x / z - y / z \<le> 1 / 2 ^ 24" by (rule rounded_order)
    then show ?thesis using p by (simp add: field_simps)
  qed
  note d = this
  have e: "\<bar>x - of_int n\<bar> * 2 ^ 24 \<le> of_int N" "\<bar>y - of_int m\<bar> * 2 ^ 24 \<le> of_int N" using r(1,2) N' x y by auto
  have "of_int (n - m) * 2 ^ 21 \<le> (of_int N :: rat)" using d e z(3) by (simp add: abs_if field_simps split: if_splits)
  then show "(n - m) * 2 ^ 21 \<le> N" by (metis of_int_le_iff of_int_mult of_int_numeral of_int_power)
  assume small: "z \<le> of_int N" "N < 2 ^ 24"
  then have xy: "x = of_int n" "y = of_int m" using f N by (simp_all add: ieee_single_def x y)
  have "(of_int N :: rat) < of_int (2 ^ 24)" using small(2) by (simp only: of_int_less_iff)
  then have "of_int (n - m) < (1 :: rat)" using d small(1) by (simp add: xy)
  then show "n \<le> m" by (simp add: of_int_less_1_iff)
qed

text \<open>C18. When the ranks are ordered by floats that round to nearest, the host chosen for a VM has the best rank of those that
  still have room and a free place in this round: no such host has a greater value of the rank expression, as long as
  the values are below 2 ^ 24 in size, and in any case no greater one by more than 2 ^ (-21) of the greatest size.  No
  host is chosen only when there is no such host.\<close>

theorem best_host_chosen:
  assumes "sort_ok (sc_sort c)" "map_ok hv" "get_host (sc_fpu c) mx (schedule_vm c hp0 v) hp hv = (r, hp', hv')"
    "ieee_single (single (sc_fpu c))" "\<forall>k \<in> set (get_matching_hosts v). \<bar>host_rank c hp0 v k\<bar> \<le> N"
  shows "case r of
      None \<Rightarrow> \<forall>h \<in> set (get_matching_hosts v). \<not> eligible (vx_get_requirements (sc_fpu c) v) mx hp hv h
    | Some h \<Rightarrow> h \<in> set (get_matching_hosts v) \<and> eligible (vx_get_requirements (sc_fpu c) v) mx hp hv h \<and>
        (\<forall>k \<in> set (get_matching_hosts v). eligible (vx_get_requirements (sc_fpu c) v) mx hp hv k \<longrightarrow>
           (host_rank c hp0 v k - host_rank c hp0 v h) * 2 ^ 21 \<le> N \<and>
           (N < 2 ^ 24 \<longrightarrow> host_rank c hp0 v k \<le> host_rank c hp0 v h))"
proof -
  let ?rank = "host_rank c hp0 v" and ?hs = "get_matching_hosts v"
  let ?r = "\<lambda>k. single (sc_fpu c) (of_int (?rank k))" and ?z = "Max (abs ` (\<lambda>k. single (sc_fpu c) (of_int (?rank k))) ` set ?hs)"
  have near: "\<bar>?r k\<bar> * 2 ^ 24 \<le> of_int N * (2 ^ 24 + 1)" "N < 2 ^ 24 \<Longrightarrow> \<bar>?r k\<bar> \<le> of_int N" if "k \<in> set ?hs" for k
  proof -
    have k: "\<bar>of_int (?rank k)\<bar> \<le> (of_int N :: rat)" using assms(5) that by (simp flip: of_int_abs)
    moreover have "\<bar>?r k - of_int (?rank k)\<bar> * 2 ^ 24 \<le> \<bar>of_int (?rank k)\<bar>" using assms(4) by (simp add: ieee_single_def)
    ultimately show "\<bar>?r k\<bar> * 2 ^ 24 \<le> of_int N * (2 ^ 24 + 1)" by (simp add: abs_if field_simps split: if_splits)
    assume "N < 2 ^ 24"
    then have "?r k = of_int (?rank k)" using assms(4,5) that by (force simp: ieee_single_def)
    then show "\<bar>?r k\<bar> \<le> of_int N" using k by simp
  qed
  have better: "(?rank k - ?rank h) * 2 ^ 21 \<le> N \<and> (N < 2 ^ 24 \<longrightarrow> ?rank k \<le> ?rank h)"
    if "k \<in> set ?hs" "h \<in> set ?hs" "host_priority c hp0 v k \<le> host_priority c hp0 v h" for k h
  proof -
    have le: "scale_weight (sc_fpu c) 1 ?z (?r k) \<le> scale_weight (sc_fpu c) 1 ?z (?r h)"
      using that(3) by (simp add: host_priority_def Let_def)
    have top: "\<bar>?r k\<bar> \<le> ?z" "\<bar>?r h\<bar> \<le> ?z" using that(1,2) by (auto intro: Max_ge)
    have "?z \<in> abs ` ?r ` set ?hs" using that(1) by (intro Max_in) auto
    then have z: "?z * 2 ^ 24 \<le> of_int N * (2 ^ 24 + 1)" "N < 2 ^ 24 \<Longrightarrow> ?z \<le> of_int N" using near by auto
    note o = scaled_order [OF assms(4) refl refl top z(1) _ _ le]
    show ?thesis using o(1) o(2) [OF _ _ z(2)] assms(5) that(1,2) by simp
  qed
  show ?thesis using best_priority [OF assms(1-3)] better by (auto split: option.splits)
qed

lemma deployed_suits:
  assumes "sched_round c deploy m hp vms = (ds, hp', hv')" "map_ok vms" "sort_ok (sc_sort c)"
    "\<And>vid v. (vid, v) \<in> set vms \<Longrightarrow> vx_hosts v = []" "d \<in> set ds"
  obtains v x where "(fst d, v) \<in> set vms" "x \<in> snd ` set hp" "hx_oid x = fst (snd d)" "suits c m v x"
proof -
  let ?vms = "schedule c hp (match c m hp vms)"
  have "fst ` set ?vms = fst ` set vms" "map fst ?vms = map fst vms"
    by (force simp: schedule_def match_def, induction vms) (auto simp: schedule_def match_def)
  then have ok: "map_ok ?vms" using assms(2) by (simp add: map_ok_def)
  have "good_round c (\<lambda>vid. vx_get_requirements (sc_fpu c) (the (mfind ?vms vid))) ?vms 0 hp [] ds hp' hv'"
    using assms(1) map_ok_distinct [OF ok]
    by (intro dispatch_loop_good) (simp_all add: dispatch_def sched_round_def map_of_eq_Some_iff)
  then have "\<exists>u. (fst d, u) \<in> set ?vms \<and> fst (snd d) \<in> set (get_matching_hosts u)"
    using assms(5) unfolding good_round_def by blast
  then obtain u where u: "(fst d, u) \<in> set ?vms" "fst (snd d) \<in> set (get_matching_hosts u)" by blast
  then obtain v where v: "(fst d, v) \<in> set vms" "u = schedule_vm c hp (match_vm c m hp v)"
    by (auto simp: schedule_def match_def)
  have "set (get_matching_hosts u) = set (get_matching_hosts (match_vm c m hp v))"
    using schedule_vm_hosts(1) [OF assms(3)] mset_eq_setD v(2) by blast
  also have "\<dots> = hx_oid ` {x \<in> snd ` set hp. suits c m v x}"
    using assms(4) [OF v(1)] by (simp add: match_vm_hosts) (simp add: get_matching_hosts_def)
  finally have "fst (snd d) \<in> hx_oid ` {x \<in> snd ` set hp. suits c m v x}" using u(2) by simp
  then obtain x where x: "fst (snd d) = hx_oid x" "x \<in> {x \<in> snd ` set hp. suits c m v x}" by (rule imageE)
  then show thesis using that [of v x] v(1) by simp
qed

text \<open>C19. Every deployment the scheduler asks for is one the VM's owner could ask for: the host is in
  the pool, it meets the requirements of the VM and has free CPU and memory for it, and the owner is an administrator or a
  rule of the access control lets him manage that host.\<close>

theorem deployments_authorized:
  assumes "sched_round c deploy m hp vms = (ds, hp', hv')" "map_ok vms" "sort_ok (sc_sort c)" "acl_ok m"
    "\<forall>v \<in> snd ` set vms. vx_hosts v = [] \<and> 0 \<le> vx_uid v \<and> vx_uid v < 2 ^ 31 \<and> 0 \<le> vx_gid v \<and> vx_gid v < 2 ^ 31"
    "\<forall>x \<in> snd ` set hp. 0 \<le> hx_oid x \<and> hx_oid x < 2 ^ 31" "d \<in> set ds"
  shows "\<exists>v x. (fst d, v) \<in> set vms \<and> x \<in> snd ` set hp \<and> hx_oid x = fst (snd d) \<and> reqs_met c v x \<and> host_fits c v x \<and>
    (vx_uid v = 0 \<or> vx_gid v = 0 \<or> (\<exists>r \<in> rule_set m. (\<exists>s. subject_of (user r) = Some s \<and>
       covers s (vx_uid v) (vx_gid v)) \<and> permits r T_HOST (fst (snd d)) (-1) MANAGE))"
proof -
  obtain v x where vx: "(fst d, v) \<in> set vms" "x \<in> snd ` set hp" "hx_oid x = fst (snd d)" "suits c m v x"
  proof (rule deployed_suits [OF assms(1-3) _ assms(7)])
    show "vx_hosts v = []" if "(vid, v) \<in> set vms" for vid v using assms(5) that by force
  qed
  have u: "0 \<le> vx_uid v" "vx_uid v < 2 ^ 31" "0 \<le> vx_gid v" "vx_gid v < 2 ^ 31" using assms(5) vx(1) by force+
  have o: "0 \<le> hx_oid x" "hx_oid x < 2 ^ 31" using assms(6) vx(2) by blast+
  have "authorize (vx_uid v) (vx_gid v) (host_perms (hx_oid x)) MANAGE m \<longleftrightarrow>
      (\<exists>r \<in> rule_set m. (\<exists>s. subject_of (user r) = Some s \<and> covers s (vx_uid v) (vx_gid v)) \<and> permits r T_HOST (hx_oid x) (-1) MANAGE)"
    using authorize_iff [OF assms(4) u, of "host_perms (hx_oid x)" MANAGE] o u by (simp add: host_perms_def)
  then show ?thesis using vx unfolding suits_def user_allowed_def by (metis (no_types, lifting))
qed


subsection \<open>An example\<close>

text \<open>Two hosts, the second with less room, and three VMs of one CPU that rank the hosts by their free CPU.\<close>

definition hostx :: "int \<Rightarrow> int \<Rightarrow> hostxml" where
  "hostx i cpu = \<lparr>hx_oid = i, hx_disk_usage = 0, hx_mem_usage = 0, hx_cpu_usage = 0, hx_max_disk = 0,
     hx_max_mem = 4194304, hx_max_cpu = cpu, hx_free_disk = 0, hx_free_mem = 4194304, hx_free_cpu = cpu, hx_running_vms = 0\<rparr>"

definition vmx :: "int \<Rightarrow> vmxml" where
  "vmx i = \<lparr>vx_oid = i, vx_uid = 5, vx_gid = 1, vx_memory = 512, vx_cpu = 1, vx_rank = ''FREECPU'',
     vx_requirements = [], vx_hosts = []\<rparr>"

definition pool2 :: hpool where
  "pool2 = [(1, hostx 1 200), (2, hostx 2 100)]"

definition vms3 :: "(int, vmxml) stdmap" where
  "vms3 = [(7, vmx 7), (8, vmx 8), (9, vmx 9)]"

definition sched2 :: sched where
  "sched2 = \<lparr>sc_fpu = \<lparr>single = id, double = id\<rparr>, sc_eval_bool = (\<lambda>_ _. Some True),
     sc_eval_arith = (\<lambda>_ x. Some (hx_free_cpu x)), sc_sort = sort_key vh_priority, sc_threshold = 9 / 10,
     sc_default_rank = [], sc_dispatch_limit = 30, sc_host_dispatch_limit = 1\<rparr>"

lemma round2: "fst (sched_round sched2 (\<lambda>_ _. True) default_acl pool2 vms3) = [(7, 1, True), (8, 2, True)]"
  by code_simp


lemma round2_run:
  obtains hp' hv' where "sched_round sched2 (\<lambda>_ _. True) default_acl pool2 vms3 = ([(7, 1, True), (8, 2, True)], hp', hv')"
  using round2 by (metis prod.collapse)

lemma keys_kept: "map fst (schedule c hp (match c m hp vms)) = map fst vms"
  by (simp add: schedule_def match_def comp_def case_prod_unfold)

theorem dispatch_limits_witness:
  "\<exists>ds hp' hv'. sched_round sched2 (\<lambda>_ _. True) default_acl pool2 vms3 = (ds, hp', hv') \<and> distinct (map fst ds) \<and>
     length ds = 2 \<and> int (length (on_host 1 ds)) \<le> 1 \<and> successes ds \<le> 30"
proof -
  obtain hp' hv' where r: "sched_round sched2 (\<lambda>_ _. True) default_acl pool2 vms3 = ([(7, 1, True), (8, 2, True)], hp', hv')"
    using round2_run .
  have ok: "map_ok (schedule sched2 pool2 (match sched2 default_acl pool2 vms3))"
    using keys_kept [of sched2 pool2 default_acl vms3] by (simp add: map_ok_def vms3_def)
  have "successes [(7, 1, True), (8, 2, True)] \<le> 30"
    using dispatch_limits [OF r [unfolded sched_round_def] ok] by (simp add: sched2_def)
  then show ?thesis using r by simp
qed

definition vm_two_hosts :: vmxml where
  "vm_two_hosts = (vmx 7)\<lparr>vx_hosts := [\<lparr>vh_hid = 1, vh_priority = 0\<rparr>, \<lparr>vh_hid = 2, vh_priority = 0\<rparr>]\<rparr>"

lemma two_hosts_choice: "fst (get_host (sc_fpu sched2) 1 (schedule_vm sched2 pool2 vm_two_hosts) pool2 []) = Some 1"
  by code_simp

lemma sched2_sorts: "sort_ok (sc_sort sched2)"
  using sort_key_ok by (simp add: sched2_def)

lemma exact_single: "ieee_single id"
  by (simp add: ieee_single_def)

theorem best_host_chosen_witness:
  "eligible (100, 524288, 0) 1 pool2 [] 2 \<and> host_rank sched2 pool2 vm_two_hosts 2 \<le> host_rank sched2 pool2 vm_two_hosts 1 \<and>
   host_rank sched2 pool2 vm_two_hosts 2 = 100"
proof -
  obtain hp' hv' where g: "get_host (sc_fpu sched2) 1 (schedule_vm sched2 pool2 vm_two_hosts) pool2 [] = (Some 1, hp', hv')"
    using two_hosts_choice by (metis prod.collapse)
  have r: "vx_get_requirements (sc_fpu sched2) vm_two_hosts = (100, 524288, 0)" by code_simp
  have e: "eligible (100, 524288, 0) 1 pool2 [] 2" by code_simp
  have i: "ieee_single (single (sc_fpu sched2))" using exact_single by (simp add: sched2_def)
  have n: "host_rank sched2 pool2 vm_two_hosts 2 = 100" "host_rank sched2 pool2 vm_two_hosts 1 = 200" by code_simp+
  have hs: "get_matching_hosts vm_two_hosts = [1, 2]" by (simp add: vm_two_hosts_def get_matching_hosts_def)
  have "\<forall>k \<in> set (get_matching_hosts vm_two_hosts). \<bar>host_rank sched2 pool2 vm_two_hosts k\<bar> \<le> 200" by (simp add: hs n)
  from best_host_chosen [OF sched2_sorts map_ok_Nil g i this] show ?thesis using r e n(1) hs by auto
qed

theorem deployments_authorized_witness:
  "\<exists>r \<in> rule_set default_acl. (\<exists>s. subject_of (user r) = Some s \<and> covers s 5 1) \<and> permits r T_HOST 2 (-1) MANAGE"
proof -
  obtain hp' hv' where r: "sched_round sched2 (\<lambda>_ _. True) default_acl pool2 vms3 = ([(7, 1, True), (8, 2, True)], hp', hv')"
    using round2_run .
  have m: "map_ok vms3" by (simp add: vms3_def map_ok_def)
  have v: "\<forall>v \<in> snd ` set vms3. vx_hosts v = [] \<and> 0 \<le> vx_uid v \<and> vx_uid v < 2 ^ 31 \<and> 0 \<le> vx_gid v \<and> vx_gid v < 2 ^ 31"
    by (simp add: vms3_def vmx_def)
  have h: "\<forall>x \<in> snd ` set pool2. 0 \<le> hx_oid x \<and> hx_oid x < 2 ^ 31" by (simp add: pool2_def hostx_def)
  obtain v where "(8, v) \<in> set vms3" and d: "vx_uid v = 0 \<or> vx_gid v = 0 \<or> (\<exists>r \<in> rule_set default_acl.
      (\<exists>s. subject_of (user r) = Some s \<and> covers s (vx_uid v) (vx_gid v)) \<and> permits r T_HOST 2 (-1) MANAGE)"
    using deployments_authorized [where d = "(8, 2, True)", OF r m sched2_sorts default_acl_ok v h] by auto
  then have "vx_uid v = 5" "vx_gid v = 1" by (auto simp: vms3_def vmx_def)
  then show ?thesis using d by simp
qed

end
