(* ===== verification/Spec2Isabelle.thy ===== *)
theory Spec2Isabelle
  imports NetworkCreateSpec UsersSpec HooksSpec Chmod PoolInfo ActionManager DeployDisks PoolCache MonitoringSpec VmInsertSpec LcmRefine Frame DispatchSpec Drivers Refusals Scheduler
begin

text \<open>
  OpenNebula 3.2.1 (with the backup and power-off extensions of this repository): the core of the daemon
  \<open>oned\<close> and its scheduler.  Paths are relative to src/.

  \<^bold>\<open>The program.\<close>  A user's request (src/rm) is authorized (src/acl) and handed to the dispatch manager
  (src/dm), which checks the state of the virtual machine and triggers the life-cycle manager (src/lcm).
  The life-cycle manager is the state machine of a VM: each of its handlers locks the VM, changes its state, its history
  records and the capacity its hosts have allocated (src/host, include/HostShare.h), writes the rows and triggers the
  transfer manager (src/tm), the virtual machine manager (src/vmm) or the dispatch manager.  The two driver managers
  write scripts and lines to driver processes, whose answers come back to the life-cycle manager.  VMs take leases from
  virtual networks (src/vnm) and images from the repository (src/image).  The scheduler (src/scheduler) is a
  process of its own that matches pending VMs with hosts.

  \<^bold>\<open>Theories.\<close>

  \<^item> \<open>Prelude\<close>: the outcome of a handler (returned, waits for a mutex for ever, dereferences a null
    pointer), sequences and branches of statements, and the proof hints.
  \<^item> \<open>HostPool\<close>, \<open>VirtualMachine\<close>: the share of a host; the VM object with its
    history, backups and template attributes.
  \<^item> \<open>IoStream\<close>, \<open>IpMac\<close>, \<open>StdMap\<close>: reading and printing numbers as the
    C++ streams do, the addresses of src/vnm/Leases.cc, \<open>std::map\<close> as a sorted association list.
  \<^item> \<open>Leases\<close>, \<open>RangedLeases\<close>, \<open>FixedLeases\<close>,
    \<open>VirtualNetwork\<close>: the leases of a network behind one locale, interpreted on both kinds; the leases of
    the NICs of a VM.  \<open>NetworkCreate\<close>, \<open>NetworkCreateSpec\<close>: networks created from a template, loaded from their rows and
    removed.
  \<^item> \<open>ImageManager\<close>: src/image/ImageManagerActions.cc and the answers of the image driver.
  \<^item> \<open>Nebula\<close>: the state of the daemon, a record of pools, mutexes, queues and tables, and the
    statements that handlers are made of.
  \<^item> \<open>LcmActions\<close>, \<open>LcmStates\<close>, \<open>LcmManager\<close>: the handlers of the files
    of those names in src/lcm, and their dispatch by the name of the action.
  \<^item> \<open>Statements\<close>, \<open>LcmSpec\<close>, \<open>LcmRefine\<close>, \<open>Frame\<close>: the
    locale of well-behaved statements, the life cycle as an abstract state machine (\<open>lcm_spec\<close>), the
    proof that the handlers refine it, and what a handler leaves alone.
  \<^item> \<open>Dispatch\<close>, \<open>Requests\<close>, \<open>DispatchSpec\<close>: src/dm and
    src/rm/RequestManagerVirtualMachine.cc, and the tables that they implement.
  \<^item> \<open>TransferManager\<close>, \<open>TransferSpec\<close>, \<open>VmmManager\<close>,
    \<open>VmmSpec\<close>: the two driver managers, with the files, the driver lines and the commands they write as
    the record \<open>io\<close>, and the tables of their requests.
  \<^item> \<open>Drivers\<close>: the answers of the drivers.
  \<^item> \<open>Ledger\<close>, \<open>System\<close>: all of these as one transition relation
    \<open>sys_step\<close>, and its invariant, the ledger of capacity.
  \<^item> \<open>Breaches\<close>, \<open>Refusals\<close>: what breaks without the conditions of
    \<open>sys_step\<close>, and what becomes of a VM whose request a driver manager cannot pass on.
  \<^item> \<open>Acl\<close>, \<open>Scheduler\<close>: src/acl with src/pool/PoolObjectAuth.cc; a round of
    src/scheduler/src/sched/Scheduler.cc.
  \<^item> \<open>PoolSQL\<close>, \<open>PoolCache\<close>: src/pool, the cache of objects that every pool keeps in
    front of its table, with objects on a heap that threads share, and the change of owner of
    src/rm/RequestManagerChown.cc; its invariant behind the locale of the kinds of pool.
  \<^item> \<open>Templates\<close>, \<open>TemplateSpec\<close>: src/common/Attribute.cc and src/template, the
    restricted attributes and the context of a new VM.
  \<^item> \<open>VmInsert\<close>, \<open>VmInsertSpec\<close>: the creation of a VM, which checks its template,
    takes its leases and images, parses its context and writes its row, and the rollback of a creation that fails.
  \<^item> \<open>Monitoring\<close>, \<open>MonitoringSpec\<close>: src/im with the part of src/host it calls: the
    rounds in which hosts are asked for their values, and the answers.
  \<^item> \<open>Users\<close>, \<open>UsersSpec\<close>: src/um and src/group with the requests on them: the pools, the sessions and the three
    ways of authentication, from the first start on.
  \<^item> \<open>Hooks\<close>, \<open>HooksSpec\<close>: src/hm with the hooks of src/vm and src/host: what is registered, when a hook runs, the
    lines of the driver; the map of states and the pools with hooks are locales, interpreted on machines and hosts.
  \<^item> \<open>Chmod\<close>, \<open>PoolInfo\<close>: the change of the permissions of an object; the lists of pools, filtered for the user.
  \<^item> \<open>ActionManager\<close>: the queue of a manager with the threads that fill it; \<open>sys_step\<close> takes the queues as lists.
  \<^item> \<open>DeployFile\<close>, \<open>DeployOthers\<close>: the deployment files that src/vmm writes for KVM, VMware and Xen.
    \<open>XmlText\<close>, \<open>DeploySpec\<close>: a reader of XML, and the domains it finds in the files for libvirt.
    \<open>DynamicMount\<close>, \<open>DeployDisks\<close>: disks attached to a running machine, and where the disks of a machine are, for
    the transfer manager and for the deployment file.
  \<^item> \<open>Samples\<close>: the states on which the witnesses run.

  \<^bold>\<open>What is shown.\<close>  Refinement: every handler of the life-cycle manager, every request and every message of the
  dispatch manager, and every request of the two driver managers does what its table says on each branch, errors
  included.  Invariants: in the runs of \<open>sys_step\<close>, with the conditions below, the hosts show what their VMs require, no mutex stays locked
  between two steps, the life-cycle manager returns from every message, capacity comes back at the end; a persistent
  image has one user as long as the image driver answers only for images that nobody uses; two VMs never hold one lease; the
  cache of a pool mirrors its table while writes succeed and no thread gets an object whose owner is being changed.  Equivalence:
  authorization by 64-bit masks is the decoded meaning of the rules; the loops of the prolog and the epilog are
  comprehensions over the disks.  Termination: the loop of \<open>replace\<close> ends exactly if an object is not in use.
  Scheduling: dispatch limits, capacity, best rank, authorization, and which hosts and machines a round of monitoring asks.  Creation: a
  new network has addresses of the network in its template and gives none to anybody; a VM without SAVE_AS
  that got its leases is created, or every image and lease is as before.  Users: the groups list
  their users, and whoever is let in has proved who it is, if requests on one user do not interleave.  Hooks run when a machine
  enters their state, except at its first write after a start of the daemon.  A list of a pool holds what the user may see, and a manager takes its actions in order.  Deployment files: a file for libvirt, whose values hold no quotes and no other marks, read as XML, is the
  domain of the machine, and its disks are where the prolog put them.  Errors: the executions in which the code does not do what it is meant to are theorems too.

  \<^bold>\<open>Two views of an object.\<close>  \<open>sys_step\<close> takes the pools as maps from identifiers to objects and one holder for each
  mutex.  \<open>PoolCache\<close> is why this is so as long as objects keep their owners: one object for a row, found by
  either key.  It is proved on its own and not composed with \<open>sys_step\<close>.

  \<^bold>\<open>Conditions of \<open>sys_step\<close>.\<close>  A VM has one thing going on: requests and answers come when no message waits for it
  (\<open>quiet\<close>); a migration finds a database that writes; a recovery is asked for a running VM; a change of the template keeps
  the MEMORY and throws no exception; a
  driver answers what it was asked (\<open>plausible\<close>), and does not report MEMORY or CPU among its monitoring values
  (\<open>benign\<close>); a driver manager takes a request that may be refused while the VM still waits for it (\<open>tm_timely\<close>,
  \<open>vmm_timely\<close>).  The code checks none of these, and users and drivers can leave them; \<open>Breaches\<close> and \<open>Refusals\<close> show runs outside them
  in which the ledger breaks or a mutex stays locked.  The other properties of runs (\<open>PoolCache\<close>, \<open>UsersSpec\<close>) state their
  conditions where they stand, with the runs that break them as lemmas.

  \<^bold>\<open>Numbers.\<close>  Addresses, lease sizes and access-control rules are words of their C++ widths; capacities, times and
  identifiers are integers: an overflow of an \<open>int\<close> is undefined in the source and not modelled, except that the
  identifiers of a pool start again after the greatest one and that a memory in kilobytes (\<open>in_kb\<close>) is wrapped to 32 bits, as
  compilers do.  The loops of the model recurse on lists or are bounded by the size
  of the range; the two that may not end, \<open>pool_replace\<close> and \<open>vector_unmarshall\<close>, are partial functions, and it is
  shown when they end.  No fuel is used.

  \<^bold>\<open>Parameters.\<close>  The clock, the outcome of a database write, the drivers that are loaded and the files that open,
  the XML of a VM or a host, the parser of template variables, base64, the SHA1 digest, the authentication drivers, the bits for the size of a network,
  whether the deployment file of a request is written (\<open>DeploySpec\<close> says when) and the processor credits in that of Xen, the value of a
  requirement or rank expression, and the float read from CPU are inputs of the definitions.

  \<^bold>\<open>Not modelled.\<close>  The parsers generated by flex and bison; the SQL back ends, XML-RPC, libxml2 and the driver
  processes (threads, pipes, signals); accounting and the template pool; logging, configuration and start-up; the columns and XML bodies
  of the rows; the command line tools, cloud servers and web interfaces, which are clients in Ruby and Java.  The
  timer of the virtual machine manager is modelled, but is not a step of \<open>sys_step\<close>.
\<close>

text \<open>C2: the handlers of the life-cycle manager implement the life-cycle state machine: for every
  action, on a VM whose mutex is free and whose history pointers are set, the handler returns, and the
  VM's state, its history, the capacity of the hosts, the requests to the managers and the database
  row of the VM are those of the machine.\<close>

theorem lcm_refines:
  assumes "vms w vid = Some v" "vm_oid v = vid" "vid \<notin> vm_locks w" "vm_ready v"
  shows "\<exists>w' v'. lcm_do_action (lcm_action_name a) vid w = Done w' \<and> vms w' vid = Some v' \<and>
    matches (lcm_spec (ctx_of v w) a (lcm_state v)) vid v w v' w'"
  using lcm_do_action_refines [OF assms] by blast

theorem lcm_refines_witness:
  "\<exists>w' v'. lcm_do_action ''MIGRATE'' 7 (one_at RUNNING [record_b, record_a]) = Done w' \<and>
     vms w' 7 = Some v' \<and> lcm_state v' = SAVE_MIGRATE \<and>
     vmm_q w' = [(VA_SAVE, 7)] \<and> hids v' = [2, 1]"
  using lcm_refines [of "one_at RUNNING [record_b, record_a]" 7 "vm_at RUNNING [record_b, record_a]"
      LA_MIGRATE]
  by (simp add: one_at_def vm_at_def record_a_def record_b_def vm_ready_def matches_def spec_simps
      hids_def vmm_reqs_def tm_reqs_def dm_reqs_def) metis

text \<open>C4: a handler touches its own VM only: when it has returned no mutex is left locked, the other
  VMs, their rows, their history rows are as before, the queues have only grown by messages for
  that VM, the VM keeps its template, and its history is the old one with new records on top,
  numbered consecutively.\<close>

theorem lcm_frame:
  assumes "lcm_do_action (lcm_action_name a) vid w = Done w'" "vms w vid = Some v" "vm_oid v = vid"
  shows "\<exists>v'. vms w' vid = Some v' \<and> vm_oid v' = vid \<and> vm_frame v v' \<and> only_vm vid w w' \<and>
    vm_locks w' = vm_locks w"
  using lcm_do_action_frame [OF assms] only_vm_locks by metis

theorem lcm_frame_witness:
  "\<exists>w' v'. lcm_do_action ''SUSPEND'' 7 (one_at RUNNING [record_a]) = Done w' \<and>
     vms w' 7 = Some v' \<and> vm_frame (vm_at RUNNING [record_a]) v' \<and> vm_locks w' = {}"
proof -
  let ?w = "one_at RUNNING [record_a]"
  have "vms ?w 7 = Some (vm_at RUNNING [record_a])" "vm_oid (vm_at RUNNING [record_a]) = 7"
    "vm_locks ?w = {}" by (simp_all add: one_at_def vm_at_def)
  moreover obtain w' where "lcm_do_action (lcm_action_name LA_SUSPEND) 7 ?w = Done w'"
    by (simp add: lcm_do_action_def suspend_action_def with_vm_def exec_simps in_state_def
        one_at_def vm_at_def)
  ultimately show ?thesis using lcm_frame [of LA_SUSPEND 7 ?w w'] by force
qed

end
